(* ===== verification/Rust_Std.thy ===== *)
theory Rust_Std
  imports Prelude
begin

text \<open>
  The part of Rust's standard library the modelled code calls on strings and numbers: ASCII
  classes, prefixes and splits of \<open>str\<close>, decimal printing and parsing, big-endian octets.
  A \<open>str\<close> is its UTF-8 octets; every pattern split on here is ASCII, so a split never falls
  inside a character.
\<close>

section \<open>ASCII classes\<close>

definition is_ascii_digit :: "octet \<Rightarrow> bool" where
  "is_ascii_digit c \<longleftrightarrow> 48 \<le> code c \<and> code c \<le> 57"

definition is_ascii_lowercase :: "octet \<Rightarrow> bool" where
  "is_ascii_lowercase c \<longleftrightarrow> 97 \<le> code c \<and> code c \<le> 122"

definition is_ascii_uppercase :: "octet \<Rightarrow> bool" where
  "is_ascii_uppercase c \<longleftrightarrow> 65 \<le> code c \<and> code c \<le> 90"

definition is_ascii_alphanumeric :: "octet \<Rightarrow> bool" where
  "is_ascii_alphanumeric c \<longleftrightarrow> is_ascii_digit c \<or> is_ascii_lowercase c \<or> is_ascii_uppercase c"

lemmas ascii_class_defs =
  is_ascii_digit_def is_ascii_lowercase_def is_ascii_uppercase_def is_ascii_alphanumeric_def

lemma ascii_digit_alnum [intro]: "is_ascii_digit c \<Longrightarrow> is_ascii_alphanumeric c"
  by (simp add: ascii_class_defs)

lemma ascii_lower_alnum [intro]: "is_ascii_lowercase c \<Longrightarrow> is_ascii_alphanumeric c"
  by (simp add: ascii_class_defs)

section \<open>Prefixes and suffixes\<close>

definition starts_with :: "'a list \<Rightarrow> 'a list \<Rightarrow> bool" where
  "starts_with p s \<longleftrightarrow> take (length p) s = p"

definition strip_prefix :: "'a list \<Rightarrow> 'a list \<Rightarrow> 'a list option" where
  "strip_prefix p s = (if starts_with p s then Some (drop (length p) s) else None)"

definition strip_suffix :: "'a list \<Rightarrow> 'a list \<Rightarrow> 'a list option" where
  "strip_suffix q s =
     (if length q \<le> length s \<and> drop (length s - length q) s = q
      then Some (take (length s - length q) s) else None)"

lemma starts_with_iff: "starts_with p s \<longleftrightarrow> (\<exists>r. s = p @ r)"
proof
  assume "starts_with p s"
  then have "s = p @ drop (length p) s"
    by (metis append_take_drop_id starts_with_def)
  then show "\<exists>r. s = p @ r" ..
qed (auto simp: starts_with_def)

lemma starts_with_append [simp]: "starts_with p (p @ r)"
  by (simp add: starts_with_def)

lemma strip_prefix_Some_iff: "strip_prefix p s = Some r \<longleftrightarrow> s = p @ r"
  by (auto simp: strip_prefix_def starts_with_iff)

lemma strip_prefix_append [simp]: "strip_prefix p (p @ r) = Some r"
  by (simp add: strip_prefix_Some_iff)

lemma strip_suffix_Some_iff: "strip_suffix q s = Some r \<longleftrightarrow> s = r @ q"
  by (auto simp: strip_suffix_def intro: append_take_drop_id [symmetric])
     (metis append_take_drop_id)

lemma strip_suffix_append [simp]: "strip_suffix q (r @ q) = Some r"
  by (simp add: strip_suffix_Some_iff)

section \<open>Splitting\<close>

text \<open>\<open>s.split_once(c)\<close>: at the first occurrence.\<close>

definition split_once :: "'a \<Rightarrow> 'a list \<Rightarrow> ('a list \<times> 'a list) option" where
  "split_once c s =
     (if c \<in> set s then Some (takeWhile (\<lambda>x. x \<noteq> c) s, tl (dropWhile (\<lambda>x. x \<noteq> c) s)) else None)"

text \<open>\<open>s.rsplit_once(c)\<close>: at the last occurrence.\<close>

definition rsplit_once :: "'a \<Rightarrow> 'a list \<Rightarrow> ('a list \<times> 'a list) option" where
  "rsplit_once c s =
     (case split_once c (rev s) of None \<Rightarrow> None | Some (b, a) \<Rightarrow> Some (rev a, rev b))"

text \<open>\<open>s.split(c)\<close>: every piece, the empty ones included; never an empty list of pieces.\<close>

fun split_on :: "'a \<Rightarrow> 'a list \<Rightarrow> 'a list list" where
  "split_on c [] = [[]]"
| "split_on c (x # xs) =
     (if x = c then [] # split_on c xs
      else (case split_on c xs of [] \<Rightarrow> [[x]] | p # ps \<Rightarrow> (x # p) # ps))"

fun join_with :: "'a list \<Rightarrow> 'a list list \<Rightarrow> 'a list" where
  "join_with sep [] = []"
| "join_with sep [p] = p"
| "join_with sep (p # q # ps) = p @ sep @ join_with sep (q # ps)"

lemma split_once_Some_iff:
  "split_once c s = Some (a, b) \<longleftrightarrow> s = a @ c # b \<and> c \<notin> set a"
proof
  assume "split_once c s = Some (a, b)"
  then have c: "c \<in> set s" and a: "a = takeWhile (\<lambda>x. x \<noteq> c) s"
    and b: "b = tl (dropWhile (\<lambda>x. x \<noteq> c) s)"
    by (auto simp: split_once_def split: if_splits)
  from c have "dropWhile (\<lambda>x. x \<noteq> c) s \<noteq> []"
    by (auto simp: dropWhile_eq_Nil_conv)
  then obtain y ys where d: "dropWhile (\<lambda>x. x \<noteq> c) s = y # ys"
    by (cases "dropWhile (\<lambda>x. x \<noteq> c) s") auto
  then have "y = c"
    by (metis (mono_tags, lifting) dropWhile_eq_Cons_conv)
  with a b d show "s = a @ c # b \<and> c \<notin> set a"
    by (metis (mono_tags, lifting) list.sel(3) set_takeWhileD takeWhile_dropWhile_id)
next
  assume "s = a @ c # b \<and> c \<notin> set a"
  then have s: "s = a @ c # b" and a: "\<forall>x \<in> set a. x \<noteq> c" by auto
  show "split_once c s = Some (a, b)"
    unfolding s split_once_def using a by (simp add: takeWhile_append2 dropWhile_append2)
qed

lemma split_once_None_iff: "split_once c s = None \<longleftrightarrow> c \<notin> set s"
  by (simp add: split_once_def)

lemma rsplit_once_Some_iff:
  "rsplit_once c s = Some (a, b) \<longleftrightarrow> s = a @ c # b \<and> c \<notin> set b"
proof -
  have "rsplit_once c s = Some (a, b) \<longleftrightarrow> split_once c (rev s) = Some (rev b, rev a)"
    by (auto simp: rsplit_once_def split: option.splits)
  also have "\<dots> \<longleftrightarrow> rev s = rev b @ c # rev a \<and> c \<notin> set b"
    by (simp add: split_once_Some_iff)
  also have "rev s = rev b @ c # rev a \<longleftrightarrow> s = a @ c # b"
    by (metis append.assoc append_Cons append_Nil rev.simps(2) rev_append rev_rev_ident)
  finally show ?thesis .
qed

lemma rsplit_once_None_iff: "rsplit_once c s = None \<longleftrightarrow> c \<notin> set s"
proof -
  have "rsplit_once c s = None \<longleftrightarrow> split_once c (rev s) = None"
    by (auto simp: rsplit_once_def split: option.splits)
  then show ?thesis by (simp add: split_once_None_iff)
qed

lemma split_on_not_Nil [simp]: "split_on c s \<noteq> []"
  by (induction s) (auto split: list.splits)

lemma join_split_on: "join_with [c] (split_on c s) = s"
proof (induction s)
  case (Cons x xs)
  obtain p ps where ps: "split_on c xs = p # ps"
    by (cases "split_on c xs") auto
  with Cons show ?case by (cases ps) auto
qed simp

lemma split_on_pieces: "p \<in> set (split_on c s) \<Longrightarrow> c \<notin> set p"
  by (induction s arbitrary: p) (auto split: if_splits list.splits)

lemma split_on_no_sep: "c \<notin> set s \<Longrightarrow> split_on c s = [s]"
  by (induction s) auto

lemma split_on_append: "c \<notin> set p \<Longrightarrow> split_on c (p @ c # s) = p # split_on c s"
  by (induction p) auto

lemma split_on_join:
  "ps \<noteq> [] \<Longrightarrow> (\<And>p. p \<in> set ps \<Longrightarrow> c \<notin> set p) \<Longrightarrow> split_on c (join_with [c] ps) = ps"
  by (induction ps rule: join_with.induct [of "\<lambda>_ ps. _ ps"])
     (auto simp: split_on_no_sep split_on_append)

lemma set_split_on: "p \<in> set (split_on c s) \<Longrightarrow> set p \<subseteq> set s"
  by (induction s arbitrary: p) (fastforce split: if_splits list.splits)+

section \<open>Decimal numbers\<close>

definition dec_digit :: "nat \<Rightarrow> octet" where
  "dec_digit n = char_of (48 + n)"

text \<open>\<open>n.to_string()\<close> of an unsigned and of a signed number.\<close>

fun dec_nat :: "nat \<Rightarrow> rust_str" where
  "dec_nat n = (if n < 10 then [dec_digit n] else dec_nat (n div 10) @ [dec_digit (n mod 10)])"

declare dec_nat.simps [simp del]

definition dec_int :: "int \<Rightarrow> rust_str" where
  "dec_int n = (if n < 0 then CHR ''-'' # dec_nat (nat (- n)) else dec_nat (nat n))"

text \<open>\<open>{n:0w}\<close>: zeroes after the sign up to the width.\<close>

definition pad_zero :: "nat \<Rightarrow> rust_str \<Rightarrow> rust_str" where
  "pad_zero w s = replicate (w - length s) CHR ''0'' @ s"

definition fmt_padded :: "nat \<Rightarrow> int \<Rightarrow> rust_str" where
  "fmt_padded w n =
     (if n < 0 then CHR ''-'' # pad_zero (w - 1) (dec_nat (nat (- n)))
      else pad_zero w (dec_nat (nat n)))"

definition dec_value :: "rust_str \<Rightarrow> nat" where
  "dec_value s = foldl (\<lambda>a c. 10 * a + (code c - 48)) 0 s"

text \<open>\<open>s.parse::<i64>()\<close> and \<open>s.parse::<u16>()\<close>: a sign, then digits only, then the range.\<close>

definition parse_digits :: "rust_str \<Rightarrow> nat option" where
  "parse_digits s = (if s \<noteq> [] \<and> list_all is_ascii_digit s then Some (dec_value s) else None)"

definition parse_i64 :: "rust_str \<Rightarrow> int option" where
  "parse_i64 s =
     (case s of
        [] \<Rightarrow> None
      | c # ds \<Rightarrow>
          Option.bind
            (if c = CHR ''-'' then map_option (\<lambda>n. - int n) (parse_digits ds)
             else if c = CHR ''+'' then map_option int (parse_digits ds)
             else map_option int (parse_digits s))
            (\<lambda>n. if is_i64 n then Some n else None))"

definition parse_u16 :: "rust_str \<Rightarrow> nat option" where
  "parse_u16 s =
     (case s of
        [] \<Rightarrow> None
      | c # ds \<Rightarrow>
          Option.bind (if c = CHR ''+'' then parse_digits ds else parse_digits s)
            (\<lambda>n. if n < 65536 then Some n else None))"

lemma code_dec_digit: "n < 10 \<Longrightarrow> code (dec_digit n) = 48 + n"
  by (simp add: dec_digit_def of_char_of)

lemma is_ascii_digit_dec_digit [simp]: "n < 10 \<Longrightarrow> is_ascii_digit (dec_digit n)"
  by (simp add: is_ascii_digit_def code_dec_digit)

lemma dec_nat_small [simp]: "n < 10 \<Longrightarrow> dec_nat n = [dec_digit n]"
  by (subst dec_nat.simps) simp

lemma dec_nat_big: "10 \<le> n \<Longrightarrow> dec_nat n = dec_nat (n div 10) @ [dec_digit (n mod 10)]"
  by (subst dec_nat.simps) simp

lemma dec_nat_not_Nil [simp]: "dec_nat n \<noteq> []"
  by (subst dec_nat.simps) simp

lemma dec_nat_digits [simp]: "list_all is_ascii_digit (dec_nat n)"
proof (induction n rule: dec_nat.induct)
  case (1 n)
  then show ?case by (cases "n < 10") (auto simp: dec_nat_big)
qed

lemma dec_value_snoc: "dec_value (s @ [c]) = 10 * dec_value s + (code c - 48)"
  by (simp add: dec_value_def)

lemma dec_value_Nil [simp]: "dec_value [] = 0"
  by (simp add: dec_value_def)

lemma dec_value_dec_nat [simp]: "dec_value (dec_nat n) = n"
proof (induction n rule: dec_nat.induct)
  case (1 n)
  show ?case
  proof (cases "n < 10")
    case True
    then show ?thesis by (simp add: dec_value_def code_dec_digit)
  next
    case False
    with 1 show ?thesis by (simp add: dec_nat_big dec_value_snoc code_dec_digit)
  qed
qed

lemma parse_digits_dec_nat [simp]: "parse_digits (dec_nat n) = Some n"
  by (simp add: parse_digits_def)

lemma hd_dec_nat_digit: "is_ascii_digit (hd (dec_nat n))"
  using dec_nat_digits [of n] dec_nat_not_Nil [of n] by (metis list.pred_set hd_in_set)

lemma dec_nat_Cons: "\<exists>c cs. dec_nat n = c # cs \<and> is_ascii_digit c"
  using hd_dec_nat_digit [of n] dec_nat_not_Nil [of n] by (metis list.exhaust_sel)

lemma parse_i64_dec_int [simp]: "is_i64 n \<Longrightarrow> parse_i64 (dec_int n) = Some n"
proof (cases "n < 0")
  case True
  assume "is_i64 n"
  with True show ?thesis by (simp add: dec_int_def parse_i64_def)
next
  case False
  assume n: "is_i64 n"
  obtain c cs where c: "dec_nat (nat n) = c # cs" "is_ascii_digit c"
    using dec_nat_Cons by blast
  then have "c \<noteq> CHR ''-''" "c \<noteq> CHR ''+''"
    by (auto simp: is_ascii_digit_def)
  moreover have "parse_digits (c # cs) = Some (nat n)"
    using parse_digits_dec_nat [of "nat n"] by (simp add: c(1))
  ultimately show ?thesis
    using False n by (simp add: dec_int_def parse_i64_def c(1))
qed

lemma length_dec_nat_le: "n < 10 ^ k \<Longrightarrow> 0 < k \<Longrightarrow> length (dec_nat n) \<le> k"
proof (induction k arbitrary: n)
  case (Suc k)
  show ?case
  proof (cases "n < 10")
    case False
    with Suc.prems have "n div 10 < 10 ^ k" and "0 < k"
      by (auto simp: less_mult_imp_div_less mult.commute intro: Suc_leI gr0I)
    with Suc.IH False show ?thesis by (simp add: dec_nat_big)
  qed simp
qed simp

lemma dec_value_replicate_0: "dec_value (replicate k CHR ''0'' @ s) = dec_value s"
proof -
  have "foldl (\<lambda>a c. 10 * a + (code c - 48)) 0 (replicate k CHR ''0'') = 0"
    by (induction k) auto
  then show ?thesis by (simp add: dec_value_def)
qed

text \<open>Two digit strings of one length are equal when they denote the same number.\<close>

lemma dec_value_bound: "list_all is_ascii_digit s \<Longrightarrow> dec_value s < 10 ^ length s"
proof (induction s rule: rev_induct)
  case (snoc c s)
  then have "dec_value s + 1 \<le> 10 ^ length s" and "code c - 48 \<le> 9"
    by (auto simp: is_ascii_digit_def)
  then show ?case by (simp add: dec_value_snoc)
qed simp

lemma digit_char_eq:
  "is_ascii_digit c \<Longrightarrow> is_ascii_digit d \<Longrightarrow> code c - 48 = code d - 48 \<Longrightarrow> c = d"
  by (metis (mono_tags) code_inject diff_add_inverse2 is_ascii_digit_def le_add_diff_inverse2)

lemma dec_value_inject:
  "list_all is_ascii_digit s \<Longrightarrow> list_all is_ascii_digit t \<Longrightarrow> length s = length t \<Longrightarrow>
   dec_value s = dec_value t \<Longrightarrow> s = t"
proof (induction s arbitrary: t rule: rev_induct)
  case (snoc c s)
  then obtain d u where t: "t = u @ [d]"
    by (metis append_butlast_last_id length_0_conv length_append_singleton nat.simps(3))
  have c: "code c - 48 < 10" and d: "code d - 48 < 10"
    using snoc.prems by (auto simp: t is_ascii_digit_def)
  have "10 * dec_value s + (code c - 48) = 10 * dec_value u + (code d - 48)"
    using snoc.prems by (simp add: t dec_value_snoc)
  with c d have "dec_value s = dec_value u" and "code c - 48 = code d - 48"
    by presburger+
  with snoc show ?case by (auto simp: t intro: digit_char_eq)
qed simp

lemma pad_zero_dec_value [simp]: "dec_value (pad_zero w (dec_nat n)) = n"
  by (simp add: pad_zero_def dec_value_replicate_0)

lemma pad_zero_digits [simp]: "list_all is_ascii_digit (pad_zero w (dec_nat n))"
  by (simp add: pad_zero_def list_all_append) (simp add: list_all_iff is_ascii_digit_def)

lemma pad_zero_length: "n < 10 ^ w \<Longrightarrow> 0 < w \<Longrightarrow> length (pad_zero w (dec_nat n)) = w"
  by (simp add: pad_zero_def length_dec_nat_le)

section \<open>Octets of machine integers\<close>

text \<open>\<open>(n as u32).to_be_bytes()\<close>: the cast keeps the low 32 bits.\<close>

definition u32_be_bytes :: "nat \<Rightarrow> octets" where
  "u32_be_bytes n =
     (let w = (of_nat n :: 32 word)
      in map (\<lambda>k. char_of (unat (drop_bit k w) mod 256)) [24, 16, 8, 0])"

lemma length_u32_be_bytes [simp]: "length (u32_be_bytes n) = 4"
  by (simp add: u32_be_bytes_def Let_def)

lemma div_eq_by_digit:
  fixes m n a :: nat
  assumes "m div (a * 256) = n div (a * 256)" "(m div a) mod 256 = (n div a) mod 256"
  shows "m div a = n div a"
  by (metis assms div_mult2_eq div_mult_mod_eq)

lemma four_octets_determine:
  fixes m n :: nat
  assumes "m < 4294967296" "n < 4294967296"
    and "(m div 16777216) mod 256 = (n div 16777216) mod 256"
    and "(m div 65536) mod 256 = (n div 65536) mod 256"
    and "(m div 256) mod 256 = (n div 256) mod 256"
    and "m mod 256 = n mod 256"
  shows "m = n"
proof -
  have "m div 16777216 < 256" "n div 16777216 < 256"
    using assms(1,2) by (simp_all add: less_mult_imp_div_less)
  then have "m div 16777216 = n div 16777216" using assms(3) by simp
  then have "m div 65536 = n div 65536"
    using assms(4) div_eq_by_digit [of m 65536 n] by simp
  then have "m div 256 = n div 256"
    using assms(5) div_eq_by_digit [of m 256 n] by simp
  then show ?thesis
    using assms(6) div_eq_by_digit [of m 1 n] by simp
qed

lemma u32_be_bytes_nat:
  assumes "n < 2 ^ 32"
  shows "u32_be_bytes n = map (\<lambda>k. char_of ((n div 2 ^ k) mod 256)) [24, 16, 8, 0]"
proof -
  have u: "unat (of_nat n :: 32 word) = n"
    using assms by (simp add: unat_of_nat take_bit_nat_eq_self)
  have "unat (drop_bit j (of_nat n :: 32 word)) = n div 2 ^ j" for j
  proof -
    have "unat (drop_bit j (of_nat n :: 32 word)) = drop_bit j (unat (of_nat n :: 32 word))"
      by (rule unat_drop_bit_eq)
    then show ?thesis by (simp only: u drop_bit_eq_div)
  qed
  then show ?thesis unfolding u32_be_bytes_def Let_def by simp
qed

lemma char_of_mod_inject: "char_of (a mod 256) = char_of (b mod (256::nat)) \<Longrightarrow> a mod 256 = b mod 256"
  by (metis code_char_of mod_less_divisor zero_less_numeral)

lemma u32_be_bytes_inject:
  assumes "m < 2 ^ 32" "n < 2 ^ 32" "u32_be_bytes m = u32_be_bytes n"
  shows "m = n"
proof -
  have "\<forall>k \<in> {24, 16, 8, 0}. (m div 2 ^ k) mod 256 = (n div 2 ^ k) mod 256"
    using assms(3) unfolding u32_be_bytes_nat [OF assms(1)] u32_be_bytes_nat [OF assms(2)]
    by (auto dest!: char_of_mod_inject)
  then show ?thesis
    using assms(1,2) four_octets_determine [of m n] by simp
qed

end
