(* ===== verification/Externals.thy ===== *)
theory Externals
  imports Rust_Std
begin

text \<open>
  The third-party code the crate calls, as parameters of the model. A value of \<open>externs\<close> holds
  one function per external operation: \<open>base64ct\<close> (the unpadded URL-safe alphabet), \<open>sha2\<close> and
  \<open>ed25519_dalek\<close>. Every definition that reaches one of them takes the record as its first
  argument. What the code relies on is stated as named laws: the locale \<open>base64ct\<close> for the
  encoder, which is interpreted below on the encoding RFC 4648 defines, and two predicates for
  the digest and the signature scheme.
\<close>

section \<open>The parameters\<close>

text \<open>
  Keys and signatures are their octets. \<open>vk_from_bytes\<close> says whether
  \<open>VerifyingKey::from_bytes\<close> succeeds, \<open>vk_is_weak\<close> is \<open>VerifyingKey::is_weak\<close>, and
  \<open>vk_verify_strict\<close> takes the public key, the message and the signature. A signing key is its
  seed: \<open>sk_public\<close> is its verifying key and \<open>sk_sign\<close> signs a message with it.
\<close>

record externs =
  b64_encode_string :: "octets \<Rightarrow> rust_str"
  b64_decode_vec :: "rust_str \<Rightarrow> octets option"
  sha256_digest :: "octets \<Rightarrow> octets"
  vk_from_bytes :: "octets \<Rightarrow> bool"
  vk_is_weak :: "octets \<Rightarrow> bool"
  vk_verify_strict :: "octets \<Rightarrow> octets \<Rightarrow> octets \<Rightarrow> bool"
  sk_public :: "octets \<Rightarrow> octets"
  sk_sign :: "octets \<Rightarrow> octets \<Rightarrow> octets"

definition sha2_law :: "externs \<Rightarrow> bool" where
  "sha2_law X \<longleftrightarrow> (\<forall>bs. length (sha256_digest X bs) = 32)"

text \<open>Signing and strict verification agree, for a key pair derived from one seed.\<close>

definition ed25519_law :: "externs \<Rightarrow> octets \<Rightarrow> bool" where
  "ed25519_law X sk \<longleftrightarrow>
     length (sk_public X sk) = 32 \<and> vk_from_bytes X (sk_public X sk) \<and> \<not> vk_is_weak X (sk_public X sk)
     \<and> (\<forall>m. length (sk_sign X sk m) = 64 \<and> vk_verify_strict X (sk_public X sk) m (sk_sign X sk m))"

lemma sha2_law_length [simp]: "sha2_law X \<Longrightarrow> length (sha256_digest X bs) = 32"
  by (simp add: sha2_law_def)

section \<open>The laws of the base64 encoder\<close>

definition is_b64url_char :: "octet \<Rightarrow> bool" where
  "is_b64url_char c \<longleftrightarrow> is_ascii_alphanumeric c \<or> c = CHR ''-'' \<or> c = CHR ''_''"

text \<open>Unpadded length: four characters for three octets, two and three for the remainder.\<close>

definition unpadded_len :: "nat \<Rightarrow> nat" where
  "unpadded_len n = (4 * n + 2) div 3"

locale base64ct =
  fixes X :: externs
  assumes decode_encode: "b64_decode_vec X (b64_encode_string X bs) = Some bs"
    and encode_length: "length (b64_encode_string X bs) = unpadded_len (length bs)"
    and encode_alphabet: "list_all is_b64url_char (b64_encode_string X bs)"
begin

lemma encode_inject: "b64_encode_string X bs = b64_encode_string X cs \<longleftrightarrow> bs = cs"
  by (metis decode_encode option.inject)

lemma encode_Nil_iff: "b64_encode_string X bs = [] \<longleftrightarrow> bs = []"
proof
  assume "b64_encode_string X bs = []"
  then have "unpadded_len (length bs) = 0" by (metis encode_length list.size(3))
  then have "4 * length bs + 2 < 3" by (simp add: unpadded_len_def div_eq_0_iff)
  then show "bs = []" by (cases bs) auto
next
  assume "bs = []"
  then show "b64_encode_string X bs = []"
    using encode_length [of "[]"] by (simp add: unpadded_len_def)
qed

lemma encode_no_dot: "CHR ''.'' \<notin> set (b64_encode_string X bs)"
proof
  assume "CHR ''.'' \<in> set (b64_encode_string X bs)"
  then have "is_b64url_char (CHR ''.'')"
    using encode_alphabet [of bs] by (auto simp: list_all_iff)
  then show False by (simp add: is_b64url_char_def ascii_class_defs)
qed

end

section \<open>RFC 4648 base64url without padding\<close>

definition rfc4648_alphabet :: rust_str where
  "rfc4648_alphabet = ''ABCDEFGHIJKLMNOPQRSTUVWXYZabcdefghijklmnopqrstuvwxyz0123456789-_''"

definition rfc4648_char :: "nat \<Rightarrow> octet" where
  "rfc4648_char i = rfc4648_alphabet ! i"

fun rfc4648_position :: "octet \<Rightarrow> nat \<Rightarrow> rust_str \<Rightarrow> nat option" where
  "rfc4648_position c i [] = None"
| "rfc4648_position c i (d # ds) = (if d = c then Some i else rfc4648_position c (Suc i) ds)"

definition rfc4648_index :: "octet \<Rightarrow> nat option" where
  "rfc4648_index c = rfc4648_position c 0 rfc4648_alphabet"

fun rfc4648_encode :: "octets \<Rightarrow> rust_str" where
  "rfc4648_encode [] = []"
| "rfc4648_encode [a] = map rfc4648_char [code a div 4, code a mod 4 * 16]"
| "rfc4648_encode [a, b] =
     map rfc4648_char [code a div 4, code a mod 4 * 16 + code b div 16, code b mod 16 * 4]"
| "rfc4648_encode (a # b # c # r) =
     map rfc4648_char [code a div 4, code a mod 4 * 16 + code b div 16,
                       code b mod 16 * 4 + code c div 64, code c mod 64]
     @ rfc4648_encode r"

text \<open>Decoding a run of six-bit indices; a lone final character is no encoding.\<close>

fun rfc4648_octets :: "nat list \<Rightarrow> octets option" where
  "rfc4648_octets [] = Some []"
| "rfc4648_octets [p] = None"
| "rfc4648_octets [p, q] = Some [char_of (p * 4 + q div 16)]"
| "rfc4648_octets [p, q, r] = Some [char_of (p * 4 + q div 16), char_of (q mod 16 * 16 + r div 4)]"
| "rfc4648_octets (p # q # r # s # t) =
     map_option (\<lambda>bs. char_of (p * 4 + q div 16) # char_of (q mod 16 * 16 + r div 4)
                      # char_of (r mod 4 * 64 + s) # bs) (rfc4648_octets t)"

definition rfc4648_decode :: "rust_str \<Rightarrow> octets option" where
  "rfc4648_decode s =
     (let is = map rfc4648_index s
      in if None \<in> set is then None else rfc4648_octets (map the is))"

lemma rfc4648_index_table: "list_all (\<lambda>i. rfc4648_index (rfc4648_char i) = Some i) [0..<64]"
  by code_simp

lemma rfc4648_index_char [simp]: "i < 64 \<Longrightarrow> rfc4648_index (rfc4648_char i) = Some i"
  using rfc4648_index_table by (simp add: list_all_iff)

lemma rfc4648_alphabet_table: "list_all (\<lambda>i. is_b64url_char (rfc4648_char i)) [0..<64]"
  by code_simp

lemma rfc4648_char_alphabet [simp]: "i < 64 \<Longrightarrow> is_b64url_char (rfc4648_char i)"
  using rfc4648_alphabet_table by (simp add: list_all_iff)

fun rfc4648_indices :: "octets \<Rightarrow> nat list" where
  "rfc4648_indices [] = []"
| "rfc4648_indices [a] = [code a div 4, code a mod 4 * 16]"
| "rfc4648_indices [a, b] = [code a div 4, code a mod 4 * 16 + code b div 16, code b mod 16 * 4]"
| "rfc4648_indices (a # b # c # r) =
     [code a div 4, code a mod 4 * 16 + code b div 16, code b mod 16 * 4 + code c div 64, code c mod 64]
     @ rfc4648_indices r"

lemma rfc4648_encode_indices: "rfc4648_encode bs = map rfc4648_char (rfc4648_indices bs)"
  by (induction bs rule: rfc4648_encode.induct) simp_all

lemma octet_div: "code a div 4 < 64" "code a div 16 < 16" "code a div 64 < 4"
  using code_bound [of a] by (simp_all add: less_mult_imp_div_less)

lemma sextet_pair: "x < 4 \<Longrightarrow> y < 16 \<Longrightarrow> x * 16 + y < (64::nat)"
  by linarith

lemma sextet_pair': "x < 16 \<Longrightarrow> y < 4 \<Longrightarrow> x * 4 + y < (64::nat)"
  by linarith

lemma rfc4648_indices_bound: "list_all (\<lambda>i. i < 64) (rfc4648_indices bs)"
  by (induction bs rule: rfc4648_indices.induct)
     (simp_all add: octet_div sextet_pair sextet_pair')

lemma octet_rejoin:
  "char_of (code a div 4 * 4 + (code a mod 4 * 16 + code b div 16) div 16) = a"
  "char_of (code a div 4 * 4 + code a mod 4 * 16 div 16) = a"
  "char_of ((code a mod 4 * 16 + code b div 16) mod 16 * 16 + (code b mod 16 * 4 + code c div 64) div 4) = b"
  "char_of ((code a mod 4 * 16 + code b div 16) mod 16 * 16 + code b mod 16 * 4 div 4) = b"
  "char_of ((code b mod 16 * 4 + code c div 64) mod 4 * 64 + code c mod 64) = c"
proof -
  have a: "code x div 4 * 4 + code x mod 4 = code x" "code x div 16 * 16 + code x mod 16 = code x"
    "code x div 64 * 64 + code x mod 64 = code x" for x by simp_all
  have b: "(code a mod 4 * 16 + code b div 16) div 16 = code a mod 4"
    "(code a mod 4 * 16 + code b div 16) mod 16 = code b div 16"
    "(code b mod 16 * 4 + code c div 64) div 4 = code b mod 16"
    "(code b mod 16 * 4 + code c div 64) mod 4 = code c div 64"
    using octet_div by simp_all
  show "char_of (code a div 4 * 4 + (code a mod 4 * 16 + code b div 16) div 16) = a"
    "char_of ((code a mod 4 * 16 + code b div 16) mod 16 * 16 + (code b mod 16 * 4 + code c div 64) div 4) = b"
    "char_of ((code b mod 16 * 4 + code c div 64) mod 4 * 64 + code c mod 64) = c"
    unfolding b a by simp_all
  show "char_of (code a div 4 * 4 + code a mod 4 * 16 div 16) = a"
    "char_of ((code a mod 4 * 16 + code b div 16) mod 16 * 16 + code b mod 16 * 4 div 4) = b"
    unfolding b nonzero_mult_div_cancel_right [OF zero_neq_numeral [symmetric]] a by simp_all
qed

lemma rfc4648_octets_indices: "rfc4648_octets (rfc4648_indices bs) = Some bs"
  by (induction bs rule: rfc4648_indices.induct) (simp_all only: rfc4648_indices.simps
      rfc4648_octets.simps append_Cons append_Nil octet_rejoin option.map)

lemma rfc4648_decode_encode: "rfc4648_decode (rfc4648_encode bs) = Some bs"
proof -
  have "map rfc4648_index (rfc4648_encode bs) = map Some (rfc4648_indices bs)"
    using rfc4648_indices_bound [of bs]
    by (simp add: rfc4648_encode_indices list_all_iff)
  then show ?thesis
    by (simp add: rfc4648_decode_def rfc4648_octets_indices o_def)
qed

lemma rfc4648_encode_length: "length (rfc4648_encode bs) = unpadded_len (length bs)"
  by (induction bs rule: rfc4648_encode.induct) (simp_all add: unpadded_len_def)

lemma rfc4648_encode_alphabet: "list_all is_b64url_char (rfc4648_encode bs)"
  using rfc4648_indices_bound [of bs] by (simp add: rfc4648_encode_indices list_all_iff)

text \<open>
  Concrete externals for the witnesses: RFC 4648 for the encoder, and placeholders with the
  right shape for the digest (the first 32 octets, zero-padded) and the signatures (a key is its
  seed, a signature the first 64 octets of the key and the message).
\<close>

definition zero_pad :: "nat \<Rightarrow> octets \<Rightarrow> octets" where
  "zero_pad n bs = take n bs @ replicate (n - length bs) (char_of (0::nat))"

definition sample_externs :: externs where
  "sample_externs =
     \<lparr>b64_encode_string = rfc4648_encode, b64_decode_vec = rfc4648_decode,
      sha256_digest = zero_pad 32,
      vk_from_bytes = (\<lambda>k. True), vk_is_weak = (\<lambda>k. False),
      vk_verify_strict = (\<lambda>k m s. s = zero_pad 64 (k @ m)),
      sk_public = zero_pad 32, sk_sign = (\<lambda>k m. zero_pad 64 (zero_pad 32 k @ m))\<rparr>"

lemma length_zero_pad [simp]: "length (zero_pad n bs) = n"
  by (simp add: zero_pad_def)

interpretation rfc4648: base64ct sample_externs
  by unfold_locales
     (simp_all add: sample_externs_def rfc4648_decode_encode rfc4648_encode_length
                    rfc4648_encode_alphabet)

lemma sample_sha2_law: "sha2_law sample_externs"
  by (simp add: sha2_law_def sample_externs_def)

lemma sample_ed25519_law: "ed25519_law sample_externs sk"
  by (simp add: ed25519_law_def sample_externs_def)

end
