(* ===== verification/Codec.thy ===== *)
theory Codec
  imports Externals
begin

unbundle bit_operations_syntax

text \<open>
  \<open>crates/selfsame-app-identity/src/codec.rs\<close>: the canonical base64url, base32 and base58btc
  codecs. base64url goes through the external encoder; base32 and base58btc are the crate's own
  loops. A locale states what a canonical codec promises (a value has one spelling and the
  spelling gives the value back), and it is interpreted on base58btc and, through the laws of
  the external encoder, on base64url at every length.
\<close>

section \<open>Definitions\<close>

datatype codec_error = WrongLength | BadAlphabet | WrongDecodedLength | NotCanonical

definition b64url :: "externs \<Rightarrow> octets \<Rightarrow> rust_str" where
  "b64url X bytes = b64_encode_string X bytes"

definition div_ceil :: "nat \<Rightarrow> nat \<Rightarrow> nat" where
  "div_ceil a b = (if a mod b = 0 then a div b else a div b + 1)"

definition b64url_len :: "nat \<Rightarrow> nat" where
  "b64url_len n = div_ceil n 3 * 4 - (3 - n mod 3) mod 3"

definition decode_b64url_exact :: "externs \<Rightarrow> rust_str \<Rightarrow> nat \<Rightarrow> codec_error + octets" where
  "decode_b64url_exact X text expected_octets =
     (if length text \<noteq> b64url_len expected_octets then Inl WrongLength
      else if \<not> list_all (\<lambda>b. is_ascii_alphanumeric b \<or> b = CHR ''-'' \<or> b = CHR ''_'') text
      then Inl BadAlphabet
      else and_then (ok_or NotCanonical (b64_decode_vec X text)) (\<lambda>decoded.
        if length decoded \<noteq> expected_octets then Inl WrongDecodedLength
        else if b64url X decoded \<noteq> text then Inl NotCanonical
        else Inr decoded))"

definition decode_b64url_32 :: "externs \<Rightarrow> rust_str \<Rightarrow> codec_error + octets" where
  "decode_b64url_32 X text = decode_b64url_exact X text 32"

subsection \<open>base32\<close>

definition BASE32_LOWER :: rust_str where
  "BASE32_LOWER = ''abcdefghijklmnopqrstuvwxyz234567''"

text \<open>
  The encoder's locals: the accumulator is a \<open>u16\<close> and drops what is shifted past its top, the
  number of pending bits is below eight after every octet.
\<close>

record base32_state =
  accumulator :: "16 word"
  bits :: nat
  out32 :: rust_str

text \<open>\<open>while bits >= 5\<close>: emit the top five pending bits.\<close>

function base32_drain :: "base32_state \<Rightarrow> base32_state" where
  "base32_drain s =
     (if 5 \<le> bits s then
        let b = bits s - 5;
            index = unat (drop_bit b (accumulator s) AND 0x1F)
        in base32_drain (s\<lparr>bits := b, out32 := out32 s @ [BASE32_LOWER ! index]\<rparr>)
      else s)"
  by pat_completeness auto
termination
  by (relation "measure bits") auto

declare base32_drain.simps [simp del]

definition base32_octet :: "base32_state \<Rightarrow> octet \<Rightarrow> base32_state" where
  "base32_octet s byte =
     base32_drain (s\<lparr>accumulator := push_bit 8 (accumulator s) OR of_char byte,
                     bits := bits s + 8\<rparr>)"

definition base32_lower_nopad :: "octets \<Rightarrow> rust_str" where
  "base32_lower_nopad bytes =
     (let s = foldl base32_octet \<lparr>accumulator = 0, bits = 0, out32 = []\<rparr> bytes
      in if 0 < bits s
         then out32 s @ [BASE32_LOWER ! unat (push_bit (5 - bits s) (accumulator s) AND 0x1F)]
         else out32 s)"

subsection \<open>base58btc\<close>

definition BASE58 :: rust_str where
  "BASE58 = ''123456789ABCDEFGHJKLMNPQRSTUVWXYZabcdefghijkmnopqrstuvwxyz''"

text \<open>
  Encoding: for each octet, \<open>for digit in digits.iter_mut()\<close> with its carry, then
  \<open>while carry > 0\<close>. Digits are little-endian and the carry never reaches \<open>2 ^ 32\<close>
  (\<open>carry_fits_u32\<close> below), so plain numbers model the \<open>u32\<close>.
\<close>

fun encode_digits :: "nat \<Rightarrow> nat list \<Rightarrow> nat list \<times> nat" where
  "encode_digits carry [] = ([], carry)"
| "encode_digits carry (digit # digits) =
     (let carry = carry + digit * 2 ^ 8;
          (rest, final) = encode_digits (carry div 58) digits
      in (carry mod 58 # rest, final))"

fun encode_carry :: "nat \<Rightarrow> nat list" where
  "encode_carry carry = (if carry = 0 then [] else carry mod 58 # encode_carry (carry div 58))"

declare encode_carry.simps [simp del]

definition encode_octet :: "nat list \<Rightarrow> octet \<Rightarrow> nat list" where
  "encode_octet digits byte =
     (let (digits, carry) = encode_digits (code byte) digits in digits @ encode_carry carry)"

definition base58btc :: "octets \<Rightarrow> rust_str" where
  "base58btc bytes =
     (let leading_zeros = length (takeWhile (\<lambda>b. code b = 0) bytes);
          digits = foldl encode_octet [] bytes
      in replicate leading_zeros CHR ''1'' @ map (\<lambda>d. BASE58 ! d) (rev digits))"

text \<open>Decoding: the same shape with the radices exchanged; octets are little-endian.\<close>

fun position :: "'a \<Rightarrow> 'a list \<Rightarrow> nat option" where
  "position c [] = None"
| "position c (a # as) = (if a = c then Some 0 else map_option Suc (position c as))"

fun decode_bytes :: "nat \<Rightarrow> nat list \<Rightarrow> nat list \<times> nat" where
  "decode_bytes carry [] = ([], carry)"
| "decode_bytes carry (byte # bytes) =
     (let carry = carry + byte * 58;
          (rest, final) = decode_bytes (carry div 2 ^ 8) bytes
      in (carry mod 2 ^ 8 # rest, final))"

fun decode_carry :: "nat \<Rightarrow> nat list" where
  "decode_carry carry = (if carry = 0 then [] else carry mod 2 ^ 8 # decode_carry (carry div 2 ^ 8))"

declare decode_carry.simps [simp del]

definition decode_char :: "nat list \<Rightarrow> octet \<Rightarrow> codec_error + nat list" where
  "decode_char bytes c =
     and_then (ok_or BadAlphabet (position c BASE58)) (\<lambda>value.
       let (bytes, carry) = decode_bytes value bytes in Inr (bytes @ decode_carry carry))"

fun decode_chars :: "nat list \<Rightarrow> rust_str \<Rightarrow> codec_error + nat list" where
  "decode_chars bytes [] = Inr bytes"
| "decode_chars bytes (c # cs) = and_then (decode_char bytes c) (\<lambda>bytes. decode_chars bytes cs)"

definition decode_base58btc :: "rust_str \<Rightarrow> codec_error + octets" where
  "decode_base58btc text =
     (if text = [] then Inl WrongLength
      else
        let leading_ones = length (takeWhile (\<lambda>b. b = CHR ''1'') text) in
        and_then (decode_chars [] text) (\<lambda>bytes.
          let out = replicate leading_ones (char_of (0::nat)) @ map char_of (rev bytes) in
          if base58btc out \<noteq> text then Inl NotCanonical else Inr out))"

section \<open>The length of a base64url encoding\<close>

lemma b64url_len_unpadded: "b64url_len n = unpadded_len n"
proof -
  define q r where "q = n div 3" and "r = n mod 3"
  have n: "n = 3 * q + r" and r: "r = 0 \<or> r = 1 \<or> r = 2"
    by (auto simp: q_def r_def)
  have "4 * n + 2 = 3 * (4 * q) + (4 * r + 2)" by (simp add: n)
  then have "(4 * n + 2) div 3 = 4 * q + (4 * r + 2) div 3" by simp
  then show ?thesis
    using r unfolding b64url_len_def unpadded_len_def div_ceil_def q_def [symmetric] r_def [symmetric]
    by auto
qed

lemma b64url_len_32 [simp]: "b64url_len 32 = 43"
  by (simp add: b64url_len_def div_ceil_def)

section \<open>Canonical codecs\<close>

text \<open>
  What a canonical codec promises on the values it is \<open>defined\<close> for: decoding an encoding gives
  the value back, and only the encoding of a value decodes to it.
\<close>

locale canonical_codec =
  fixes domain :: "'v \<Rightarrow> bool"
    and enc :: "'v \<Rightarrow> rust_str"
    and dec :: "rust_str \<Rightarrow> 'e + 'v"
  assumes dec_enc: "domain v \<Longrightarrow> dec (enc v) = Inr v"
    and dec_canonical: "dec t = Inr v \<Longrightarrow> domain v \<and> enc v = t"
begin

lemma dec_Inr_iff: "dec t = Inr v \<longleftrightarrow> domain v \<and> t = enc v"
  using dec_enc dec_canonical by auto

lemma dec_inject: "dec s = Inr v \<Longrightarrow> dec t = Inr v \<Longrightarrow> s = t"
  by (simp add: dec_Inr_iff)

lemma enc_inject: "domain v \<Longrightarrow> domain w \<Longrightarrow> enc v = enc w \<Longrightarrow> v = w"
  by (metis dec_enc sum.inject(2))

lemma dec_ok_iff: "is_ok (dec t) \<longleftrightarrow> (\<exists>v. domain v \<and> t = enc v)"
  by (simp add: not_isl_iff dec_Inr_iff)

end

lemma b64url_codec:
  assumes "base64ct X"
  shows "canonical_codec (\<lambda>v. length v = n) (b64url X) (\<lambda>t. decode_b64url_exact X t n)"
proof
  fix v :: octets
  assume "length v = n"
  moreover have "list_all (\<lambda>b. is_ascii_alphanumeric b \<or> b = CHR ''-'' \<or> b = CHR ''_'') (b64url X v)"
    using base64ct.encode_alphabet [OF assms, of v]
    by (simp add: b64url_def list_all_iff is_b64url_char_def)
  ultimately show "decode_b64url_exact X (b64url X v) n = Inr v"
    using base64ct.decode_encode [OF assms, of v] base64ct.encode_length [OF assms, of v]
    by (simp add: decode_b64url_exact_def b64url_def b64url_len_unpadded)
next
  fix t v
  assume "decode_b64url_exact X t n = Inr v"
  then show "length v = n \<and> b64url X v = t"
    by (auto simp: decode_b64url_exact_def res_iff split: if_splits)
qed

section \<open>base58btc: numbers in two radices\<close>

text \<open>A carry entering either inner loop stays below the multiplier, far from \<open>2 ^ 32\<close>.\<close>

lemma carry_fits_u32:
  "c < 256 \<Longrightarrow> d < 58 \<Longrightarrow> c + d * 2 ^ 8 < 2 ^ 32 \<and> (c + d * 2 ^ 8) div 58 < (256::nat)"
  "c < 58 \<Longrightarrow> d < 256 \<Longrightarrow> c + d * 58 < 2 ^ 32 \<and> (c + d * 58) div 2 ^ 8 < (58::nat)"
  by (auto simp: less_mult_imp_div_less)

fun le_value :: "nat \<Rightarrow> nat list \<Rightarrow> nat" where
  "le_value b [] = 0"
| "le_value b (d # ds) = d + b * le_value b ds"

definition be_value :: "nat \<Rightarrow> nat list \<Rightarrow> nat" where
  "be_value b = foldl (\<lambda>a d. a * b + d) 0"

text \<open>The numeral of a number: digits below the radix, no zero at the top.\<close>

definition numeral_digits :: "nat \<Rightarrow> nat list \<Rightarrow> bool" where
  "numeral_digits b ds \<longleftrightarrow> list_all (\<lambda>d. d < b) ds \<and> (ds \<noteq> [] \<longrightarrow> last ds \<noteq> 0)"

text \<open>Both inner loops are one pass \<open>ds := ds * m + carry\<close> in radix \<open>b\<close>.\<close>

fun radix_pass :: "nat \<Rightarrow> nat \<Rightarrow> nat \<Rightarrow> nat list \<Rightarrow> nat list \<times> nat" where
  "radix_pass b m carry [] = ([], carry)"
| "radix_pass b m carry (d # ds) =
     (let carry = carry + d * m; (rest, final) = radix_pass b m (carry div b) ds
      in (carry mod b # rest, final))"

function radix_carry :: "nat \<Rightarrow> nat \<Rightarrow> nat list" where
  "radix_carry b carry =
     (if carry = 0 \<or> b < 2 then [] else carry mod b # radix_carry b (carry div b))"
  by pat_completeness auto
termination
  by (relation "measure snd") auto

declare radix_carry.simps [simp del]

lemma encode_digits_pass: "encode_digits c ds = radix_pass 58 256 c ds"
  by (induction ds arbitrary: c) auto

lemma decode_bytes_pass: "decode_bytes c ds = radix_pass 256 58 c ds"
  by (induction ds arbitrary: c) auto

lemma encode_carry_radix: "encode_carry c = radix_carry 58 c"
  by (induction c rule: encode_carry.induct)
     (subst encode_carry.simps, subst radix_carry.simps, simp)

lemma decode_carry_radix: "decode_carry c = radix_carry 256 c"
  by (induction c rule: decode_carry.induct)
     (subst decode_carry.simps, subst radix_carry.simps, simp)

lemma le_value_append: "le_value b (xs @ ys) = le_value b xs + b ^ length xs * le_value b ys"
  by (induction xs) (auto simp: algebra_simps)

lemma le_value_zeros [simp]: "le_value b (replicate n 0) = 0"
  by (induction n) auto

lemma be_value_rev: "be_value b xs = le_value b (rev xs)"
proof (induction xs rule: rev_induct)
  case (snoc x xs)
  then show ?case by (simp add: be_value_def algebra_simps)
qed (simp add: be_value_def)

lemma le_value_bound: "list_all (\<lambda>d. d < b) ds \<Longrightarrow> le_value b ds < b ^ length ds"
proof (induction ds)
  case (Cons d ds)
  then have d: "d < b" and v: "le_value b ds + 1 \<le> b ^ length ds" by auto
  have "le_value b (d # ds) < b * (le_value b ds + 1)" using d by (simp add: algebra_simps)
  also have "\<dots> \<le> b * b ^ length ds" using v by (rule mult_le_mono2)
  finally show ?case by simp
qed simp

lemma radix_pass_value:
  assumes "0 < b" "radix_pass b m c ds = (ds', c')"
  shows "length ds' = length ds \<and> list_all (\<lambda>d. d < b) ds'
         \<and> le_value b ds' + b ^ length ds * c' = le_value b ds * m + c"
  using assms(2)
proof (induction ds arbitrary: c ds' c')
  case (Cons d ds)
  obtain r f where p: "radix_pass b m ((c + d * m) div b) ds = (r, f)"
    by fastforce
  with Cons.prems have ds': "ds' = (c + d * m) mod b # r" and c': "c' = f" by auto
  have IH: "length r = length ds" "list_all (\<lambda>d. d < b) r"
    "le_value b r + b ^ length ds * f = le_value b ds * m + (c + d * m) div b"
    using Cons.IH [OF p] by auto
  have "le_value b ds' + b ^ length (d # ds) * c'
        = (c + d * m) mod b + b * (le_value b r + b ^ length ds * f)"
    by (simp add: ds' c' algebra_simps)
  also have "\<dots> = (c + d * m) mod b + b * ((c + d * m) div b) + b * le_value b ds * m"
    unfolding IH(3) by (simp add: algebra_simps)
  also have "\<dots> = c + d * m + b * le_value b ds * m" by simp
  also have "\<dots> = le_value b (d # ds) * m + c" by (simp add: algebra_simps)
  finally have "le_value b ds' + b ^ length (d # ds) * c' = le_value b (d # ds) * m + c" .
  moreover have "length ds' = length (d # ds)" "list_all (\<lambda>d. d < b) ds'"
    using IH assms(1) by (simp_all add: ds')
  ultimately show ?case by blast
qed simp

lemma radix_carry_numeral:
  assumes "2 \<le> b"
  shows "numeral_digits b (radix_carry b c) \<and> le_value b (radix_carry b c) = c
         \<and> (radix_carry b c = [] \<longleftrightarrow> c = 0)"
  using assms
proof (induction b c rule: radix_carry.induct)
  case (1 b c)
  show ?case
  proof (cases "c = 0")
    case False
    with 1 have IH: "numeral_digits b (radix_carry b (c div b))"
      "le_value b (radix_carry b (c div b)) = c div b" "radix_carry b (c div b) = [] \<longleftrightarrow> c div b = 0"
      by auto
    have e: "radix_carry b c = c mod b # radix_carry b (c div b)"
      using False 1 by (subst radix_carry.simps) simp
    have "c div b = 0 \<Longrightarrow> c mod b \<noteq> 0" using False by (metis div_mult_mod_eq mult_0 add_0)
    with IH 1 False show ?thesis by (auto simp: e numeral_digits_def)
  qed (subst radix_carry.simps, simp add: radix_carry.simps numeral_digits_def)
qed

lemma numeral_digits_lower:
  assumes "numeral_digits b ds" "ds \<noteq> []" shows "b ^ (length ds - 1) \<le> le_value b ds"
proof -
  obtain xs x where ds: "ds = xs @ [x]" using assms(2) by (metis append_butlast_last_id)
  with assms have "x \<noteq> 0" by (simp add: numeral_digits_def)
  then have "b ^ length xs * 1 \<le> b ^ length xs * x" by (intro mult_le_mono2) simp
  then have "b ^ length xs \<le> le_value b xs + b ^ length xs * x" by linarith
  moreover have "le_value b ds = le_value b xs + b ^ length xs * x" by (simp add: ds le_value_append)
  moreover have "length ds - 1 = length xs" by (simp add: ds)
  ultimately show ?thesis by (simp only:)
qed

lemma radix_step_numeral:
  assumes "2 \<le> b" "1 \<le> m" "numeral_digits b ds" "radix_pass b m c ds = (ds', c')"
  shows "numeral_digits b (ds' @ radix_carry b c')
         \<and> le_value b (ds' @ radix_carry b c') = le_value b ds * m + c"
proof -
  have p: "length ds' = length ds" "list_all (\<lambda>d. d < b) ds'"
    "le_value b ds' + b ^ length ds * c' = le_value b ds * m + c"
    using radix_pass_value [OF _ assms(4)] assms(1) by auto
  have k: "numeral_digits b (radix_carry b c')" "le_value b (radix_carry b c') = c'"
    "radix_carry b c' = [] \<longleftrightarrow> c' = 0"
    using radix_carry_numeral [OF assms(1)] by auto
  have "last (ds' @ radix_carry b c') \<noteq> 0" if ne: "ds' @ radix_carry b c' \<noteq> []"
  proof (cases "c' = 0")
    case False
    with k show ?thesis by (simp add: numeral_digits_def)
  next
    case True
    with k ne have "ds' \<noteq> []" by simp
    then obtain xs x where ds': "ds' = xs @ [x]" by (metis append_butlast_last_id)
    have "ds \<noteq> []" using p(1) \<open>ds' \<noteq> []\<close> by auto
    then have "b ^ (length ds - 1) \<le> le_value b ds"
      by (rule numeral_digits_lower [OF assms(3)])
    also have "\<dots> \<le> le_value b ds * m" using assms(2) by simp
    also have "\<dots> \<le> le_value b ds'" using p(3) True by simp
    finally have "b ^ length xs \<le> le_value b xs + b ^ length xs * x"
      using p(1) by (simp add: ds' le_value_append flip: p(1))
    moreover have "le_value b xs < b ^ length xs"
      by (rule le_value_bound) (use p(2) ds' in simp)
    ultimately have "x \<noteq> 0" by (metis add_0_right mult_0_right not_le)
    with True k show ?thesis by (simp add: ds')
  qed
  then show ?thesis using p k by (simp add: numeral_digits_def le_value_append)
qed

lemma numeral_digits_unique:
  "2 \<le> b \<Longrightarrow> numeral_digits b xs \<Longrightarrow> numeral_digits b ys \<Longrightarrow> le_value b xs = le_value b ys \<Longrightarrow> xs = ys"
proof (induction xs arbitrary: ys)
  case Nil
  show ?case
  proof (rule ccontr)
    assume "[] \<noteq> ys"
    then have "b ^ (length ys - 1) \<le> le_value b ys"
      using numeral_digits_lower [OF Nil.prems(3)] by simp
    then show False using Nil.prems by simp
  qed
next
  case (Cons x xs)
  have "ys \<noteq> []"
  proof
    assume "ys = []"
    moreover have "b ^ (length (x # xs) - 1) \<le> le_value b (x # xs)"
      by (rule numeral_digits_lower) (use Cons.prems in auto)
    moreover have "0 < b ^ (length (x # xs) - 1)" using Cons.prems(1) by simp
    ultimately show False using Cons.prems(4) by (metis le_value.simps(1) not_le)
  qed
  then obtain y ys' where ys: "ys = y # ys'" by (cases ys) auto
  have lt: "x < b" "y < b" using Cons.prems by (auto simp: ys numeral_digits_def)
  have eq: "x + b * le_value b xs = y + b * le_value b ys'" using Cons.prems by (simp add: ys)
  then have "x = y" using lt by (metis mod_less mod_mult_self2)
  moreover from eq this have "le_value b xs = le_value b ys'" using Cons.prems(1) by simp
  moreover have "numeral_digits b xs" "numeral_digits b ys'"
    using Cons.prems by (auto simp: ys numeral_digits_def split: if_splits)
  ultimately show ?case using Cons.IH [of ys'] Cons.prems(1) by (simp add: ys)
qed

lemma encode_octet_step:
  assumes "numeral_digits 58 ds"
  shows "numeral_digits 58 (encode_octet ds byte)
         \<and> le_value 58 (encode_octet ds byte) = le_value 58 ds * 256 + code byte"
proof -
  obtain r f where p: "radix_pass 58 256 (code byte) ds = (r, f)" by fastforce
  then show ?thesis
    using radix_step_numeral [OF _ _ assms p]
    by (simp add: encode_octet_def encode_digits_pass encode_carry_radix)
qed

lemma encode_octets_value:
  "numeral_digits 58 ds \<Longrightarrow>
   numeral_digits 58 (foldl encode_octet ds bs)
   \<and> le_value 58 (foldl encode_octet ds bs) = foldl (\<lambda>a d. a * 256 + d) (le_value 58 ds) (map code bs)"
  by (induction bs arbitrary: ds) (auto simp: encode_octet_step)

lemma numeral_digits_Nil [simp]: "numeral_digits b []"
  by (simp add: numeral_digits_def)

lemma encode_octets_be:
  "numeral_digits 58 (foldl encode_octet [] bs)
   \<and> le_value 58 (foldl encode_octet [] bs) = be_value 256 (map code bs)"
  using encode_octets_value [of "[]" bs] by (simp add: be_value_def)

subsection \<open>The alphabet\<close>

lemma position_Some: "position c as = Some i \<Longrightarrow> i < length as \<and> as ! i = c"
  by (induction as arbitrary: i) (auto split: if_splits)

lemma BASE58_table: "list_all (\<lambda>i. position (BASE58 ! i) BASE58 = Some i) [0..<58]"
  by code_simp

lemma position_BASE58 [simp]: "i < 58 \<Longrightarrow> position (BASE58 ! i) BASE58 = Some i"
  using BASE58_table by (simp add: list_all_iff)

lemma BASE58_one [simp]: "i < 58 \<Longrightarrow> BASE58 ! i = CHR ''1'' \<longleftrightarrow> i = 0"
  using position_BASE58 [of i] position_BASE58 [of 0]
  by (auto simp: BASE58_def)

lemma decode_char_digit:
  assumes "numeral_digits 256 bytes" "v < 58"
  shows "\<exists>bytes'. decode_char bytes (BASE58 ! v) = Inr bytes' \<and> numeral_digits 256 bytes'
                 \<and> le_value 256 bytes' = le_value 256 bytes * 58 + v"
proof -
  obtain r f where p: "radix_pass 256 58 v bytes = (r, f)" by fastforce
  then show ?thesis
    using radix_step_numeral [OF _ _ assms(1) p] assms(2)
    by (simp add: decode_char_def decode_bytes_pass decode_carry_radix)
qed

lemma decode_chars_digits:
  "numeral_digits 256 bytes \<Longrightarrow> list_all (\<lambda>v. v < 58) vs \<Longrightarrow>
   \<exists>bytes'. decode_chars bytes (map (\<lambda>v. BASE58 ! v) vs) = Inr bytes' \<and> numeral_digits 256 bytes'
            \<and> le_value 256 bytes' = foldl (\<lambda>a d. a * 58 + d) (le_value 256 bytes) vs"
proof (induction vs arbitrary: bytes)
  case (Cons v vs)
  from decode_char_digit [OF Cons.prems(1), of v] Cons.prems(2)
  obtain b1 where "decode_char bytes (BASE58 ! v) = Inr b1" "numeral_digits 256 b1"
    "le_value 256 b1 = le_value 256 bytes * 58 + v" by auto
  with Cons.IH [of b1] Cons.prems(2) show ?case by simp
qed simp

subsection \<open>The round trip\<close>

lemma leading_zeros_split:
  "\<exists>tail. bs = replicate (length (takeWhile (\<lambda>b. code b = 0) bs)) (char_of (0::nat)) @ tail
          \<and> (tail \<noteq> [] \<longrightarrow> code (hd tail) \<noteq> 0)"
proof (intro exI conjI)
  let ?tail = "dropWhile (\<lambda>b. code b = 0) bs"
  have "takeWhile (\<lambda>b. code b = 0) bs
        = replicate (length (takeWhile (\<lambda>b. code b = 0) bs)) (char_of (0::nat))"
  proof (rule nth_equalityI)
    fix i assume i: "i < length (takeWhile (\<lambda>b. code b = 0) bs)"
    then have "code (takeWhile (\<lambda>b. code b = 0) bs ! i) = 0"
      using nth_mem set_takeWhileD by fastforce
    with i show "takeWhile (\<lambda>b. code b = 0) bs ! i
      = replicate (length (takeWhile (\<lambda>b. code b = 0) bs)) (char_of (0::nat)) ! i"
      by (metis char_of_char nth_replicate)
  qed simp
  then show "bs = replicate (length (takeWhile (\<lambda>b. code b = 0) bs)) (char_of (0::nat)) @ ?tail"
    by (metis takeWhile_dropWhile_id)
  show "?tail \<noteq> [] \<longrightarrow> code (hd ?tail) \<noteq> 0"
    using hd_dropWhile [of "\<lambda>b. code b = 0" bs] by blast
qed

lemma le_value_trailing_zeros: "le_value b (ds @ replicate n 0) = le_value b ds"
  by (simp add: le_value_append)

theorem decode_base58btc_base58btc:
  assumes "bs \<noteq> []"
  shows "decode_base58btc (base58btc bs) = Inr bs"
proof -
  define z where "z = length (takeWhile (\<lambda>b. code b = 0) bs)"
  define ds where "ds = foldl encode_octet [] bs"
  obtain tail where bs: "bs = replicate z (char_of (0::nat)) @ tail"
    and tl: "tail \<noteq> [] \<longrightarrow> code (hd tail) \<noteq> 0"
    using leading_zeros_split [of bs] by (auto simp: z_def)
  have ds: "numeral_digits 58 ds" "le_value 58 ds = be_value 256 (map code bs)"
    using encode_octets_be [of bs] by (simp_all add: ds_def)
  have lt: "list_all (\<lambda>v. v < 58) (replicate z 0 @ rev ds)"
    using ds(1) by (auto simp: numeral_digits_def list_all_iff)
  have spelled: "base58btc bs = map (\<lambda>v. BASE58 ! v) (replicate z 0 @ rev ds)"
    by (simp add: base58btc_def z_def ds_def Let_def BASE58_def map_replicate_const)
  have "be_value 256 (map code bs) = le_value 256 (rev (map code tail))"
    by (simp add: bs be_value_rev rev_map le_value_trailing_zeros of_char_of)
  moreover have tail: "numeral_digits 256 (rev (map code tail))"
    using tl by (auto simp: numeral_digits_def list_all_iff last_rev hd_map code_bound)
  moreover obtain bytes where bytes: "decode_chars [] (base58btc bs) = Inr bytes"
    "numeral_digits 256 bytes" "le_value 256 bytes = be_value 58 (replicate z 0 @ rev ds)"
    using decode_chars_digits [OF numeral_digits_Nil lt] by (auto simp: spelled be_value_def)
  moreover have "be_value 58 (replicate z 0 @ rev ds) = le_value 58 ds"
    by (simp add: be_value_rev le_value_trailing_zeros)
  ultimately have bytes_eq: "bytes = rev (map code tail)"
    using numeral_digits_unique [of 256 bytes "rev (map code tail)"] ds(2) by simp
  have "ds \<noteq> [] \<Longrightarrow> BASE58 ! last ds \<noteq> CHR ''1''"
    using ds(1) by (auto simp: numeral_digits_def list_all_iff)
  then have "takeWhile (\<lambda>b. b = CHR ''1'') (base58btc bs) = replicate z CHR ''1''"
    unfolding base58btc_def z_def [symmetric] ds_def [symmetric] Let_def
    by (intro takeWhile_replicate_append) (auto simp: hd_map hd_rev)
  moreover have "map char_of (rev bytes) = tail" by (simp add: bytes_eq rev_map o_def)
  moreover have "base58btc bs \<noteq> []"
  proof (cases "z = 0")
    case True
    with assms bs tl have "tail \<noteq> []" by auto
    with bytes_eq have "bytes \<noteq> []" by simp
    with bytes(1) show ?thesis by auto
  qed (simp add: spelled)
  ultimately show ?thesis
    using bytes(1) by (simp add: decode_base58btc_def Let_def bs [symmetric])
qed

interpretation base58: canonical_codec "\<lambda>v. v \<noteq> []" base58btc decode_base58btc
proof
  fix v :: octets assume "v \<noteq> []"
  then show "decode_base58btc (base58btc v) = Inr v" by (rule decode_base58btc_base58btc)
next
  fix t v assume "decode_base58btc t = Inr v"
  then have "base58btc v = t" "t \<noteq> []"
    by (auto simp: decode_base58btc_def Let_def res_iff split: if_splits)
  then show "v \<noteq> [] \<and> base58btc v = t" by (auto simp: base58btc_def)
qed

section \<open>base32: the accumulator against the bit stream\<close>

text \<open>
  The specification of RFC 4648: the octets as one stream of bits, most significant first, cut
  into groups of five, the last one padded with zero bits.
\<close>

definition octet_bits :: "octet \<Rightarrow> bool list" where
  "octet_bits c = map (\<lambda>k. bit (code c) k) [7, 6, 5, 4, 3, 2, 1, 0]"

definition group_char :: "bool list \<Rightarrow> octet" where
  "group_char g = BASE32_LOWER ! horner_sum of_bool 2 (rev g)"

fun groups_of_five :: "bool list \<Rightarrow> bool list list" where
  "groups_of_five (a # b # c # d # e # r) = [a, b, c, d, e] # groups_of_five r"
| "groups_of_five [] = []"
| "groups_of_five r = [take 5 (r @ replicate 4 False)]"

definition base32_spec :: "octets \<Rightarrow> rust_str" where
  "base32_spec bs = map group_char (groups_of_five (concat (map octet_bits bs)))"

text \<open>The low bits of the accumulator, most significant first.\<close>

definition low_bits :: "nat \<Rightarrow> 16 word \<Rightarrow> bool list" where
  "low_bits n w = rev (map (bit w) [0..<n])"

lemma length_low_bits [simp]: "length (low_bits n w) = n"
  by (simp add: low_bits_def)

lemma low_bits_split: "low_bits (n + m) w = low_bits n (drop_bit m w) @ low_bits m w"
proof -
  have "map (bit w) [m..<m + n] = map (bit (drop_bit m w)) [0..<n]"
    by (rule nth_equalityI) (simp_all add: bit_simps)
  moreover have "[0..<n + m] = [0..<m] @ [m..<m + n]"
    using upt_add_eq_append [of 0 m n] by (simp add: add.commute)
  ultimately show ?thesis by (simp add: low_bits_def)
qed

lemma bit_code_less: "bit (code c) j \<Longrightarrow> j < 8"
proof -
  assume b: "bit (code c) j"
  have "take_bit 8 (code c) = code c"
    using code_bound [of c] by (simp add: take_bit_nat_eq_self)
  with b show "j < 8" by (metis bit_take_bit_iff)
qed

lemma bit_of_char: "bit (of_char c :: 16 word) j \<longleftrightarrow> bit (code c) j"
proof -
  have "bit (of_nat (code c) :: 16 word) j \<longleftrightarrow> j < 16 \<and> bit (code c) j"
    by (simp add: bit_of_nat_iff possible_bit_word)
  then show ?thesis using bit_code_less [of c j] by (auto simp: of_nat_of_char)
qed

lemma low_bits_push:
  assumes "n \<le> 8"
  shows "low_bits (n + 8) (push_bit 8 w OR of_char c) = low_bits n w @ octet_bits c"
proof -
  have "bit (drop_bit 8 (push_bit 8 w OR of_char c)) j = bit w j" if "j < n" for j
    using that assms bit_code_less [of c "8 + j"]
    by (auto simp: bit_simps bit_of_char possible_bit_word)
  then have "low_bits n (drop_bit 8 (push_bit 8 w OR of_char c)) = low_bits n w"
    by (simp add: low_bits_def)
  moreover have "bit (push_bit 8 w OR of_char c) j = bit (code c) j" if "j < 8" for j
    using that by (auto simp: bit_simps bit_of_char)
  then have "low_bits 8 (push_bit 8 w OR of_char c) = octet_bits c"
    by (simp add: low_bits_def octet_bits_def upt_rec numeral_eq_Suc)
  ultimately show ?thesis by (simp add: low_bits_split)
qed

lemma group_char_low_bits: "group_char (low_bits 5 w) = BASE32_LOWER ! unat (w AND 0x1F)"
proof -
  have "rev (low_bits 5 w) = map (bit (unat w)) [0..<5]"
    by (simp add: low_bits_def bit_unsigned_iff)
  then have "horner_sum of_bool 2 (rev (low_bits 5 w)) = take_bit 5 (unat w)"
    by (simp add: horner_sum_bit_eq_take_bit)
  moreover have "w AND 0x1F = take_bit 5 w" by (simp add: take_bit_eq_mask mask_eq_exp_minus_1)
  ultimately show ?thesis by (simp add: group_char_def unsigned_take_bit_eq)
qed

text \<open>What the encoder will have written once the bits \<open>t\<close> have followed the pending ones.\<close>

definition total_output :: "base32_state \<Rightarrow> bool list \<Rightarrow> rust_str" where
  "total_output s t =
     out32 s @ map group_char (groups_of_five (low_bits (bits s) (accumulator s) @ t))"

lemma groups_of_five_group: "length g = 5 \<Longrightarrow> groups_of_five (g @ r) = g # groups_of_five r"
  by (auto simp: length_Suc_conv numeral_eq_Suc)

lemma base32_drain_total:
  "total_output (base32_drain s) t = total_output s t \<and> bits (base32_drain s) < 5"
proof (induction s rule: base32_drain.induct)
  case (1 s)
  show ?case
  proof (cases "5 \<le> bits s")
    case True
    define b where "b = bits s - 5"
    define s' where "s' = s\<lparr>bits := b, out32 := out32 s @
      [BASE32_LOWER ! unat (drop_bit b (accumulator s) AND 0x1F)]\<rparr>"
    have e: "base32_drain s = base32_drain s'"
      using True by (subst base32_drain.simps) (simp add: b_def s'_def Let_def)
    have "low_bits (bits s) (accumulator s) = low_bits 5 (drop_bit b (accumulator s)) @ low_bits b (accumulator s)"
      using True low_bits_split [of 5 b "accumulator s"] by (simp add: b_def)
    then have "total_output s t = total_output s' t"
      by (simp add: total_output_def s'_def groups_of_five_group group_char_low_bits)
    moreover have "total_output (base32_drain s') t = total_output s' t \<and> bits (base32_drain s') < 5"
      using 1 [OF True refl refl] by (simp add: s'_def b_def)
    ultimately show ?thesis by (simp add: e)
  next
    case False
    then show ?thesis by (subst (1 2) base32_drain.simps) simp
  qed
qed

lemma base32_octet_total:
  "bits s < 5 \<Longrightarrow> total_output (base32_octet s c) t = total_output s (octet_bits c @ t)
                  \<and> bits (base32_octet s c) < 5"
  unfolding base32_octet_def using base32_drain_total
  by (simp add: total_output_def low_bits_push)

lemma base32_octets_total:
  "bits s < 5 \<Longrightarrow> total_output (foldl base32_octet s bs) t
                    = total_output s (concat (map octet_bits bs) @ t)
                  \<and> bits (foldl base32_octet s bs) < 5"
  by (induction bs arbitrary: s) (simp_all add: base32_octet_total)

lemma groups_of_five_last:
  "0 < length l \<Longrightarrow> length l < 5 \<Longrightarrow> groups_of_five l = [l @ replicate (5 - length l) False]"
  by (cases l rule: groups_of_five.cases) (auto simp: numeral_eq_Suc)

lemma low_bits_pad:
  assumes "n < 5"
  shows "low_bits 5 (push_bit (5 - n) w) = low_bits n w @ replicate (5 - n) False"
proof -
  have "bit (drop_bit (5 - n) (push_bit (5 - n) w)) j = bit w j" if "j < n" for j
    using that assms by (auto simp: bit_simps possible_bit_word)
  then have 1: "low_bits n (drop_bit (5 - n) (push_bit (5 - n) w)) = low_bits n w"
    by (simp add: low_bits_def)
  have "low_bits (5 - n) (push_bit (5 - n) w) = replicate (5 - n) False"
    by (rule nth_equalityI) (auto simp: low_bits_def bit_simps rev_nth)
  with 1 assms show ?thesis using low_bits_split [of n "5 - n" "push_bit (5 - n) w"] by simp
qed

theorem base32_lower_nopad_spec: "base32_lower_nopad bs = base32_spec bs"
proof -
  define s where "s = foldl base32_octet \<lparr>accumulator = 0, bits = 0, out32 = []\<rparr> bs"
  have t: "total_output s [] = base32_spec bs" "bits s < 5"
    using base32_octets_total [of "\<lparr>accumulator = 0, bits = 0, out32 = []\<rparr>" bs "[]"]
    by (simp_all add: s_def total_output_def base32_spec_def low_bits_def)
  show ?thesis
  proof (cases "0 < bits s")
    case True
    then have "total_output s [] = out32 s @ [group_char (low_bits 5 (push_bit (5 - bits s) (accumulator s)))]"
      using t(2) by (simp add: total_output_def groups_of_five_last low_bits_pad)
    with True t(1) show ?thesis
      by (simp add: base32_lower_nopad_def s_def [symmetric] Let_def group_char_low_bits)
  next
    case False
    with t show ?thesis
      by (simp add: base32_lower_nopad_def s_def [symmetric] Let_def total_output_def low_bits_def)
  qed
qed

subsection \<open>Length and injectivity\<close>

lemma length_groups_of_five: "length (groups_of_five l) = (length l + 4) div 5"
proof (induction l rule: groups_of_five.induct)
  case (1 a b c d e r)
  have "length (a # b # c # d # e # r) + 4 = (length r + 4) + 5" by simp
  then have "(length (a # b # c # d # e # r) + 4) div 5 = (length r + 4) div 5 + 1" by presburger
  with 1 show ?case by simp
qed simp_all

lemma length_octet_bits [simp]: "length (octet_bits c) = 8"
  by (simp add: octet_bits_def)

lemma length_concat_octet_bits: "length (concat (map octet_bits bs)) = 8 * length bs"
  by (induction bs) auto

lemma length_base32: "length (base32_lower_nopad bs) = (8 * length bs + 4) div 5"
  by (simp add: base32_lower_nopad_spec base32_spec_def length_groups_of_five length_concat_octet_bits)

lemma BASE32_LOWER_distinct: "distinct BASE32_LOWER" and length_BASE32_LOWER: "length BASE32_LOWER = 32"
  by (simp_all add: BASE32_LOWER_def)

lemma bits_of_value: "bit (horner_sum of_bool 2 g :: nat) j \<longleftrightarrow> j < length g \<and> g ! j"
  by (simp add: bit_horner_sum_bit_iff)

lemma value_of_bits_inject:
  assumes "length g = length h" "horner_sum of_bool 2 g = (horner_sum of_bool 2 h :: nat)"
  shows "g = h"
proof (rule nth_equalityI)
  fix i assume "i < length g"
  then show "g ! i = h ! i"
    using assms bits_of_value [of g i] bits_of_value [of h i] by simp
qed (rule assms(1))

lemma value_of_five_bits: "length g = 5 \<Longrightarrow> horner_sum of_bool 2 g < (32::nat)"
  using horner_sum_of_bool_2_less [of g] by simp

lemma group_char_inject:
  assumes "length g = 5" "length h = 5" "group_char g = group_char h"
  shows "g = h"
proof -
  have "horner_sum of_bool 2 (rev g) = (horner_sum of_bool 2 (rev h) :: nat)"
    using assms BASE32_LOWER_distinct value_of_five_bits [of "rev g"] value_of_five_bits [of "rev h"]
    by (simp add: group_char_def nth_eq_iff_index_eq length_BASE32_LOWER)
  then show ?thesis using assms value_of_bits_inject [of "rev g" "rev h"] by simp
qed

lemma groups_of_five_length: "g \<in> set (groups_of_five l) \<Longrightarrow> length g = 5"
  by (induction l rule: groups_of_five.induct) (auto simp: numeral_eq_Suc)

lemma concat_groups_of_five: "take (length l) (concat (groups_of_five l)) = l"
  by (induction l rule: groups_of_five.induct) (auto simp: numeral_eq_Suc)

lemma octet_bits_inject: "octet_bits c = octet_bits d \<Longrightarrow> c = d"
proof -
  assume e: "octet_bits c = octet_bits d"
  have "bit (code c) j = bit (code d) j" for j
  proof (cases "j < 8")
    case True
    then have "j \<in> {0, 1, 2, 3, 4, 5, 6, 7}" by auto
    with e show ?thesis by (auto simp: octet_bits_def)
  qed (use bit_code_less in blast)
  then have "code c = code d" by (intro bit_eqI) simp
  then show "c = d" by (simp add: code_inject)
qed

lemma concat_octet_bits_inject:
  "concat (map octet_bits bs) = concat (map octet_bits cs) \<Longrightarrow> bs = cs"
proof (induction bs arbitrary: cs)
  case Nil
  then show ?case by (cases cs) (auto simp: octet_bits_def)
next
  case (Cons b bs)
  then obtain c cs' where cs: "cs = c # cs'" by (cases cs) (auto simp: octet_bits_def)
  have "octet_bits b = octet_bits c \<and> concat (map octet_bits bs) = concat (map octet_bits cs')"
    using Cons.prems by (simp add: cs append_eq_append_conv)
  then show ?case using Cons.IH octet_bits_inject by (auto simp: cs)
qed

theorem base32_lower_nopad_inject:
  assumes "length bs = length cs" "base32_lower_nopad bs = base32_lower_nopad cs"
  shows "bs = cs"
proof -
  let ?l = "concat (map octet_bits bs)" and ?m = "concat (map octet_bits cs)"
  have "map group_char (groups_of_five ?l) = map group_char (groups_of_five ?m)"
    using assms(2) by (simp add: base32_lower_nopad_spec base32_spec_def)
  then have "groups_of_five ?l = groups_of_five ?m"
    by (rule map_inj_on) (auto simp: inj_on_def intro: group_char_inject dest: groups_of_five_length)
  then have "?l = ?m"
    using concat_groups_of_five [of ?l] concat_groups_of_five [of ?m] assms(1)
    by (simp add: length_concat_octet_bits)
  then show ?thesis by (rule concat_octet_bits_inject)
qed

section \<open>Properties\<close>

text \<open>
  A base58btc text decodes to an octet string exactly when it is that string's encoding: the
  encoder and the decoder are inverse on every non-empty string, leading zeroes included, and no
  second spelling of a string decodes.
\<close>

theorem base58btc_exact: "decode_base58btc t = Inr v \<longleftrightarrow> v \<noteq> [] \<and> t = base58btc v"
  by (rule base58.dec_Inr_iff)

end
