(* ===== verification/Utf8.thy ===== *)
theory Utf8
  imports Rust_Std
begin

text \<open>
  UTF-8 as \<open>core::str::from_utf8\<close>, \<open>str::chars\<close>, \<open>char::encode_utf8\<close>, \<open>char::from_u32\<close> and
  \<open>str::encode_utf16\<close> treat it: the well-formed sequences of the Unicode standard, decoded to
  scalar values and encoded back. The lemmas show the decoder and the encoder inverse to each
  other, which is what the JSON canonicaliser's per-character escaping rests on.
\<close>

text \<open>A \<open>char\<close> of Rust: a code point that is not a surrogate (\<open>char::from_u32\<close>).\<close>

definition is_scalar :: "nat \<Rightarrow> bool" where
  "is_scalar n \<longleftrightarrow> n < 0xD800 \<or> (0xE000 \<le> n \<and> n < 0x110000)"

definition char_from_u32 :: "nat \<Rightarrow> nat option" where
  "char_from_u32 n = (if is_scalar n then Some n else None)"

definition encode_utf8 :: "nat \<Rightarrow> octets" where
  "encode_utf8 n =
     (if n < 0x80 then [char_of n]
      else if n < 0x800 then [char_of (0xC0 + n div 64), char_of (0x80 + n mod 64)]
      else if n < 0x10000 then
        [char_of (0xE0 + n div 4096), char_of (0x80 + n div 64 mod 64), char_of (0x80 + n mod 64)]
      else
        [char_of (0xF0 + n div 262144), char_of (0x80 + n div 4096 mod 64),
         char_of (0x80 + n div 64 mod 64), char_of (0x80 + n mod 64)])"

definition is_cont :: "octet \<Rightarrow> bool" where
  "is_cont c \<longleftrightarrow> 0x80 \<le> code c \<and> code c \<le> 0xBF"

text \<open>One step of the decoder: the scalar value at the front, and what follows it.\<close>

definition utf8_next :: "octets \<Rightarrow> (nat \<times> octets) option" where
  "utf8_next s =
     (case s of
        [] \<Rightarrow> None
      | b0 # r0 \<Rightarrow>
          let x0 = code b0 in
          if x0 < 0x80 then Some (x0, r0)
          else if 0xC2 \<le> x0 \<and> x0 \<le> 0xDF then
            (case r0 of
               b1 # r1 \<Rightarrow>
                 if is_cont b1 then Some ((x0 - 0xC0) * 64 + (code b1 - 0x80), r1) else None
             | _ \<Rightarrow> None)
          else if 0xE0 \<le> x0 \<and> x0 \<le> 0xEF then
            (case r0 of
               b1 # b2 # r2 \<Rightarrow>
                 if is_cont b1 \<and> is_cont b2 \<and> (x0 = 0xE0 \<longrightarrow> 0xA0 \<le> code b1)
                    \<and> (x0 = 0xED \<longrightarrow> code b1 \<le> 0x9F)
                 then Some ((x0 - 0xE0) * 4096 + (code b1 - 0x80) * 64 + (code b2 - 0x80), r2)
                 else None
             | _ \<Rightarrow> None)
          else if 0xF0 \<le> x0 \<and> x0 \<le> 0xF4 then
            (case r0 of
               b1 # b2 # b3 # r3 \<Rightarrow>
                 if is_cont b1 \<and> is_cont b2 \<and> is_cont b3 \<and> (x0 = 0xF0 \<longrightarrow> 0x90 \<le> code b1)
                    \<and> (x0 = 0xF4 \<longrightarrow> code b1 \<le> 0x8F)
                 then Some ((x0 - 0xF0) * 262144 + (code b1 - 0x80) * 4096
                            + (code b2 - 0x80) * 64 + (code b3 - 0x80), r3)
                 else None
             | _ \<Rightarrow> None)
          else None)"

lemma utf8_next_shrinks: "utf8_next s = Some (n, r) \<Longrightarrow> length r < length s"
  by (auto simp: utf8_next_def Let_def split: list.splits if_splits)

function utf8_chars :: "octets \<Rightarrow> nat list option" where
  "utf8_chars s =
     (if s = [] then Some []
      else case utf8_next s of
        None \<Rightarrow> None
      | Some (n, r) \<Rightarrow> map_option (\<lambda>ns. n # ns) (utf8_chars r))"
  by pat_completeness auto
termination
  by (relation "measure length") (auto dest: utf8_next_shrinks)

declare utf8_chars.simps [simp del]

text \<open>\<open>core::str::from_utf8(s).is_ok()\<close>, and \<open>s.chars()\<close> of a string that is one.\<close>

definition valid_utf8 :: "octets \<Rightarrow> bool" where
  "valid_utf8 s \<longleftrightarrow> utf8_chars s \<noteq> None"

definition str_chars :: "rust_str \<Rightarrow> nat list" where
  "str_chars s = (case utf8_chars s of None \<Rightarrow> [] | Some ns \<Rightarrow> ns)"

definition encode_all :: "nat list \<Rightarrow> octets" where
  "encode_all ns = concat (map encode_utf8 ns)"

text \<open>\<open>s.encode_utf16()\<close>: surrogate pairs above the Basic Multilingual Plane.\<close>

definition utf16_units :: "nat \<Rightarrow> nat list" where
  "utf16_units n =
     (if n < 0x10000 then [n]
      else [0xD800 + (n - 0x10000) div 1024, 0xDC00 + (n - 0x10000) mod 1024])"

definition encode_utf16 :: "rust_str \<Rightarrow> nat list" where
  "encode_utf16 s = concat (map utf16_units (str_chars s))"

section \<open>The decoder inverts the encoder\<close>

lemma encode_utf8_not_Nil [simp]: "encode_utf8 n \<noteq> []"
  by (simp add: encode_utf8_def)

text \<open>Six-bit groups: a code point and the octets that carry it.\<close>

lemma sextet: "c < 64 \<Longrightarrow> (x * 64 + c) div 64 = x \<and> (x * 64 + c) mod 64 = (c :: nat)"
  by simp

lemma encode_two:
  assumes "2 \<le> a" "a < 32" "b < 64"
  shows "encode_utf8 (a * 64 + b) = [char_of (0xC0 + a), char_of (0x80 + b)]"
  using assms sextet [of b a] by (simp add: encode_utf8_def)

lemma encode_three:
  assumes "a < 16" "b < 64" "c < 64" "a = 0 \<Longrightarrow> 32 \<le> b"
  shows "encode_utf8 ((a * 64 + b) * 64 + c) = [char_of (0xE0 + a), char_of (0x80 + b), char_of (0x80 + c)]"
proof -
  define x where "x = a * 64 + b"
  define n where "n = x * 64 + c"
  have x: "x div 64 = a" "x mod 64 = b" using assms sextet by (auto simp: x_def)
  have n: "n div 64 = x" "n mod 64 = c" using assms sextet by (auto simp: n_def)
  have "n div 4096 = n div 64 div 64" by (simp add: div_mult2_eq [symmetric])
  then have d: "n div 4096 = a" by (simp add: n x)
  have "32 \<le> x" "x < 1024" using assms by (cases "a = 0"; simp add: x_def)+
  then have "\<not> n < 0x80" "\<not> n < 0x800" "n < 0x10000" using assms by (simp_all add: n_def)
  then show ?thesis
    unfolding x_def [symmetric] n_def [symmetric] by (simp add: encode_utf8_def n x d)
qed

lemma encode_four:
  assumes "a < 5" "b < 64" "c < 64" "d < 64" "a = 0 \<Longrightarrow> 16 \<le> b"
  shows "encode_utf8 (((a * 64 + b) * 64 + c) * 64 + d) =
         [char_of (0xF0 + a), char_of (0x80 + b), char_of (0x80 + c), char_of (0x80 + d)]"
proof -
  define y where "y = a * 64 + b"
  define x where "x = y * 64 + c"
  define n where "n = x * 64 + d"
  have y: "y div 64 = a" "y mod 64 = b" using assms sextet by (auto simp: y_def)
  have x: "x div 64 = y" "x mod 64 = c" using assms sextet by (auto simp: x_def)
  have n: "n div 64 = x" "n mod 64 = d" using assms sextet by (auto simp: n_def)
  have "n div 4096 = n div 64 div 64" by (simp add: div_mult2_eq [symmetric])
  then have d1: "n div 4096 = y" by (simp add: n x)
  have "n div 262144 = n div 4096 div 64" by (simp add: div_mult2_eq [symmetric])
  then have d2: "n div 262144 = a" by (simp add: d1 y)
  have "16 \<le> y" using assms by (cases "a = 0"; simp add: y_def)
  then have "\<not> n < 0x80" "\<not> n < 0x800" "\<not> n < 0x10000" by (simp_all add: n_def x_def)
  then show ?thesis
    unfolding y_def [symmetric] x_def [symmetric] n_def [symmetric]
    by (simp add: encode_utf8_def n x y d1 d2)
qed

lemma utf8_next_two:
  assumes "2 \<le> a" "a < 32" "b < 64"
  shows "utf8_next (char_of (0xC0 + a) # char_of (0x80 + b) # r) = Some (a * 64 + b, r)"
  using assms by (simp add: utf8_next_def is_cont_def)

lemma utf8_next_three:
  assumes "a < 16" "b < 64" "c < 64" "a = 0 \<longrightarrow> 32 \<le> b" "a = 13 \<longrightarrow> b \<le> 31"
  shows "utf8_next (char_of (0xE0 + a) # char_of (0x80 + b) # char_of (0x80 + c) # r) =
         Some ((a * 64 + b) * 64 + c, r)"
  using assms by (simp add: utf8_next_def is_cont_def)

lemma utf8_next_four:
  assumes "a < 5" "b < 64" "c < 64" "d < 64" "a = 0 \<longrightarrow> 16 \<le> b" "a = 4 \<longrightarrow> b \<le> 15"
  shows "utf8_next (char_of (0xF0 + a) # char_of (0x80 + b) # char_of (0x80 + c) # char_of (0x80 + d) # r) =
         Some (((a * 64 + b) * 64 + c) * 64 + d, r)"
  using assms by (simp add: utf8_next_def is_cont_def)

lemma scalar_cases [consumes 1, case_names one two three four]:
  assumes "is_scalar n"
  obtains "n < 0x80"
  | a b where "n = a * 64 + b" "2 \<le> a" "a < 32" "b < 64"
  | a b c where "n = (a * 64 + b) * 64 + c" "a < 16" "b < 64" "c < 64"
      "a = 0 \<longrightarrow> 32 \<le> b" "a = 13 \<longrightarrow> b \<le> 31"
  | a b c d where "n = ((a * 64 + b) * 64 + c) * 64 + d" "a < 5" "b < 64" "c < 64" "d < 64"
      "a = 0 \<longrightarrow> 16 \<le> b" "a = 4 \<longrightarrow> b \<le> 15"
proof -
  define x where "x = n div 64"
  define y where "y = x div 64"
  have n: "n = x * 64 + n mod 64" "n mod 64 < 64" by (simp_all add: x_def)
  have x: "x = y * 64 + x mod 64" "x mod 64 < 64" by (simp_all add: y_def)
  have y: "y = y div 64 * 64 + y mod 64" "y mod 64 < 64" by simp_all
  consider "n < 0x80" | "0x80 \<le> n" "n < 0x800" | "0x800 \<le> n" "n < 0x10000" | "0x10000 \<le> n" "n < 0x110000"
    using assms unfolding is_scalar_def by linarith
  then show thesis
  proof cases
    case 1
    then show thesis by (rule that(1))
  next
    case 2
    with n have "2 \<le> x" "x < 32" by linarith+
    with n show thesis using that(2) [of x "n mod 64"] by metis
  next
    case 3
    with n have "32 \<le> x" "x < 1024" by linarith+
    with x have "y < 16" "y = 0 \<longrightarrow> 32 \<le> x mod 64" by linarith+
    moreover have "y = 13 \<longrightarrow> x mod 64 \<le> 31"
    proof
      assume "y = 13"
      with 3 n x assms show "x mod 64 \<le> 31" unfolding is_scalar_def by linarith
    qed
    ultimately show thesis using n x that(3) [of y "x mod 64" "n mod 64"] by metis
  next
    case 4
    with n have "1024 \<le> x" "x < 0x4400" by linarith+
    with x have "16 \<le> y" "y < 0x110" by linarith+
    with y have "y div 64 < 5" "y div 64 = 0 \<longrightarrow> 16 \<le> y mod 64" "y div 64 = 4 \<longrightarrow> y mod 64 \<le> 15"
      by linarith+
    then show thesis using n x y that(4) [of "y div 64" "y mod 64" "x mod 64" "n mod 64"] by metis
  qed
qed

lemma utf8_next_encode:
  assumes "is_scalar n"
  shows "utf8_next (encode_utf8 n @ r) = Some (n, r)"
  using assms
proof (cases rule: scalar_cases)
  case one
  then show ?thesis by (simp add: encode_utf8_def utf8_next_def)
next
  case (two a b)
  then show ?thesis by (simp add: encode_two utf8_next_two)
next
  case (three a b c)
  then have "encode_utf8 n = [char_of (0xE0 + a), char_of (0x80 + b), char_of (0x80 + c)]"
    using encode_three [of a b c] by simp
  with three show ?thesis using utf8_next_three [of a b c r] by simp
next
  case (four a b c d)
  then have "encode_utf8 n = [char_of (0xF0 + a), char_of (0x80 + b), char_of (0x80 + c), char_of (0x80 + d)]"
    using encode_four [of a b c d] by simp
  with four show ?thesis using utf8_next_four [of a b c d r] by simp
qed

lemma utf8_chars_Nil [simp]: "utf8_chars [] = Some []"
  by (subst utf8_chars.simps) simp

lemma utf8_chars_encode [simp]:
  "is_scalar n \<Longrightarrow> utf8_chars (encode_utf8 n @ r) = map_option (\<lambda>ns. n # ns) (utf8_chars r)"
  by (subst utf8_chars.simps) (simp add: utf8_next_encode)

lemma encode_all_simps [simp]:
  "encode_all [] = []"
  "encode_all (n # ns) = encode_utf8 n @ encode_all ns"
  "encode_all (ms @ ns) = encode_all ms @ encode_all ns"
  by (simp_all add: encode_all_def)

lemma utf8_chars_encode_all [simp]: "list_all is_scalar ns \<Longrightarrow> utf8_chars (encode_all ns) = Some ns"
  by (induction ns) auto

section \<open>The encoder inverts the decoder\<close>

lemma char_of_code [simp]: "char_of (code c) = c"
  by (rule char_of_char)

lemma cont_sextet: "is_cont c \<Longrightarrow> \<exists>b::nat. b < 64 \<and> c = char_of (0x80 + b)"
proof
  assume "is_cont c"
  then show "code c - 0x80 < 64 \<and> c = char_of (0x80 + (code c - 0x80))"
    by (auto simp: is_cont_def)
qed

lemma lead_octet: "k \<le> code c \<Longrightarrow> code c < k + w \<Longrightarrow> \<exists>a < w. c = char_of (k + a)"
  by (rule exI [of _ "code c - k"]) simp

lemma encode_next:
  assumes "utf8_next s = Some (n, r)"
  shows "s = encode_utf8 n @ r \<and> is_scalar n"
proof -
  obtain b0 r0 where s: "s = b0 # r0"
    using assms by (cases s) (auto simp: utf8_next_def)
  let ?x = "code b0"
  consider "?x < 0x80" | "0xC2 \<le> ?x" "?x \<le> 0xDF" | "0xE0 \<le> ?x" "?x \<le> 0xEF" | "0xF0 \<le> ?x" "?x \<le> 0xF4"
    using assms by (fastforce simp: utf8_next_def s Let_def split: if_splits)
  then show ?thesis
  proof cases
    case 1
    then show ?thesis using assms
      by (auto simp: utf8_next_def s encode_utf8_def is_scalar_def)
  next
    case 2
    then obtain b1 where r0: "r0 = b1 # r" "is_cont b1"
      using assms by (auto simp: utf8_next_def s Let_def split: list.splits if_splits)
    obtain a :: nat where a: "a < 32" "b0 = char_of (0xC0 + a)"
      using 2 lead_octet [where k = 192 and c = b0 and w = 32] by auto
    obtain b :: nat where b: "b < 64" "b1 = char_of (0x80 + b)"
      using cont_sextet [OF r0(2)] by auto
    have "2 \<le> a" using 2 a by simp
    moreover from this have "n = a * 64 + b"
      using assms a b by (simp add: s r0(1) utf8_next_two)
    moreover from calculation have "n < 0xD800" using a b by simp
    ultimately show ?thesis using a b by (simp add: s r0(1) encode_two is_scalar_def)
  next
    case 3
    then obtain b1 b2 where r0: "r0 = b1 # b2 # r" "is_cont b1" "is_cont b2"
        "?x = 0xE0 \<longrightarrow> 0xA0 \<le> code b1" "?x = 0xED \<longrightarrow> code b1 \<le> 0x9F"
      using assms by (auto simp: utf8_next_def s Let_def split: list.splits if_splits)
    obtain a :: nat where a: "a < 16" "b0 = char_of (0xE0 + a)"
      using 3 lead_octet [where k = 224 and c = b0 and w = 16] by auto
    obtain b c :: nat where bc: "b < 64" "b1 = char_of (0x80 + b)" "c < 64" "b2 = char_of (0x80 + c)"
      using cont_sextet [OF r0(2)] cont_sextet [OF r0(3)] by auto
    have g: "a = 0 \<longrightarrow> 32 \<le> b" "a = 13 \<longrightarrow> b \<le> 31" using r0(4,5) a bc by auto
    have n: "n = (a * 64 + b) * 64 + c"
      using assms a bc g utf8_next_three [of a b c r] by (simp add: s r0(1))
    have "is_scalar n"
      using a(1) bc(1,3) g unfolding n is_scalar_def
      by (cases "a < 13"; cases "a = 13") (simp_all, linarith?)
    then show ?thesis using a bc g n encode_three [of a b c] by (simp add: s r0(1))
  next
    case 4
    then obtain b1 b2 b3 where r0: "r0 = b1 # b2 # b3 # r" "is_cont b1" "is_cont b2" "is_cont b3"
        "?x = 0xF0 \<longrightarrow> 0x90 \<le> code b1" "?x = 0xF4 \<longrightarrow> code b1 \<le> 0x8F"
      using assms by (auto simp: utf8_next_def s Let_def split: list.splits if_splits)
    obtain a :: nat where a: "a < 5" "b0 = char_of (0xF0 + a)"
      using 4 lead_octet [where k = 240 and c = b0 and w = 5] by auto
    obtain b c d :: nat where bc: "b < 64" "b1 = char_of (0x80 + b)" "c < 64" "b2 = char_of (0x80 + c)"
        "d < 64" "b3 = char_of (0x80 + d)"
      using cont_sextet [OF r0(2)] cont_sextet [OF r0(3)] cont_sextet [OF r0(4)] by auto
    have g: "a = 0 \<longrightarrow> 16 \<le> b" "a = 4 \<longrightarrow> b \<le> 15" using r0(5,6) a bc by auto
    have n: "n = ((a * 64 + b) * 64 + c) * 64 + d"
      using assms a bc g utf8_next_four [of a b c d r] by (simp add: s r0(1))
    have "is_scalar n"
      using a(1) bc(1,3,5) g unfolding n is_scalar_def
      by (cases "a = 0"; cases "a = 4") (simp_all, linarith?)
    then show ?thesis using a bc g n encode_four [of a b c d] by (simp add: s r0(1))
  qed
qed

lemma encode_chars:
  "utf8_chars s = Some ns \<Longrightarrow> s = encode_all ns \<and> list_all is_scalar ns"
proof (induction s arbitrary: ns rule: utf8_chars.induct)
  case (1 s)
  show ?case
  proof (cases "s = []")
    case False
    with "1.prems" obtain n r ms where nr: "utf8_next s = Some (n, r)"
      and ms: "utf8_chars r = Some ms" "ns = n # ms"
      by (subst (asm) utf8_chars.simps) (auto split: option.splits)
    have "r = encode_all ms \<and> list_all is_scalar ms"
      using "1.IH" [OF False nr] ms(1) by auto
    with encode_next [OF nr] ms(2) show ?thesis by auto
  qed (use "1.prems" in simp)
qed

lemma valid_utf8_iff: "valid_utf8 s \<longleftrightarrow> (\<exists>ns. s = encode_all ns \<and> list_all is_scalar ns)"
  by (auto simp: valid_utf8_def dest: encode_chars)

lemma str_chars_encode_all [simp]: "list_all is_scalar ns \<Longrightarrow> str_chars (encode_all ns) = ns"
  by (simp add: str_chars_def)

lemma encode_str_chars: "valid_utf8 s \<Longrightarrow> encode_all (str_chars s) = s"
  by (auto simp: valid_utf8_iff)

lemma str_chars_scalar: "list_all is_scalar (str_chars s)"
  by (auto simp: str_chars_def split: option.splits dest: encode_chars)

lemma valid_utf8_Nil [simp]: "valid_utf8 []"
  by (simp add: valid_utf8_def)

lemma valid_utf8_append: "valid_utf8 s \<Longrightarrow> valid_utf8 t \<Longrightarrow> valid_utf8 (s @ t)"
  by (auto simp: valid_utf8_iff) (metis encode_all_simps(3) list_all_append)

lemma valid_utf8_encode [simp]: "is_scalar n \<Longrightarrow> valid_utf8 (encode_utf8 n)"
  by (metis append_Nil2 encode_all_simps(1,2) list.pred_inject valid_utf8_iff)

lemma ascii_encode: "code c < 0x80 \<Longrightarrow> [c] = encode_utf8 (code c)"
  by (simp add: encode_utf8_def)

lemma valid_utf8_ascii: "list_all (\<lambda>c. code c < 0x80) s \<Longrightarrow> valid_utf8 s"
proof (induction s)
  case (Cons c s)
  then have "valid_utf8 ([c] @ s)"
    by (intro valid_utf8_append) (auto simp: ascii_encode is_scalar_def simp del: encode_utf8_def)
  then show ?case by simp
qed simp

section \<open>UTF-16 code units identify a string\<close>

lemma utf16_pair:
  assumes "0x10000 \<le> n" "n < 0x110000"
  shows "utf16_units n = [0xD800 + (n - 0x10000) div 1024, 0xDC00 + (n - 0x10000) mod 1024]
         \<and> (n - 0x10000) div 1024 < 1024"
  using assms by (simp add: utf16_units_def less_mult_imp_div_less)

lemma utf16_units_inject:
  assumes "is_scalar m" "is_scalar n" "utf16_units m @ r = utf16_units n @ t"
  shows "m = n \<and> r = t"
proof (cases "m < 0x10000"; cases "n < 0x10000")
  assume "\<not> m < 0x10000" "\<not> n < 0x10000"
  then have "(m - 0x10000) div 1024 = (n - 0x10000) div 1024"
    and "(m - 0x10000) mod 1024 = (n - 0x10000) mod 1024" and "r = t"
    using assms(3) by (simp_all add: utf16_units_def)
  then have "m - 0x10000 = n - 0x10000" by (metis div_mult_mod_eq)
  with \<open>r = t\<close> \<open>\<not> m < 0x10000\<close> \<open>\<not> n < 0x10000\<close> show ?thesis by simp
next
  assume "m < 0x10000" "n < 0x10000"
  then show ?thesis using assms(3) by (simp add: utf16_units_def)
next
  assume mn: "m < 0x10000" "\<not> n < 0x10000"
  then have "m = 0xD800 + (n - 0x10000) div 1024" "(n - 0x10000) div 1024 < 1024"
    using assms utf16_pair [of n] by (simp_all add: utf16_units_def is_scalar_def)
  then show ?thesis using assms(1) by (simp add: is_scalar_def)
next
  assume mn: "\<not> m < 0x10000" "n < 0x10000"
  then have "n = 0xD800 + (m - 0x10000) div 1024" "(m - 0x10000) div 1024 < 1024"
    using assms utf16_pair [of m] by (simp_all add: utf16_units_def is_scalar_def)
  then show ?thesis using assms(2) by (simp add: is_scalar_def)
qed

lemma utf16_units_not_Nil [simp]: "utf16_units n \<noteq> []"
  by (simp add: utf16_units_def)

lemma concat_utf16_inject:
  "list_all is_scalar ms \<Longrightarrow> list_all is_scalar ns \<Longrightarrow>
   concat (map utf16_units ms) = concat (map utf16_units ns) \<Longrightarrow> ms = ns"
proof (induction ms arbitrary: ns)
  case Nil
  then show ?case by (cases ns) auto
next
  case (Cons m ms)
  obtain n ns' where ns: "ns = n # ns'" using Cons.prems by (cases ns) simp_all
  have "m = n \<and> concat (map utf16_units ms) = concat (map utf16_units ns')"
    by (rule utf16_units_inject) (use Cons.prems ns in simp_all)
  moreover have "list_all is_scalar ms" "list_all is_scalar ns'" using Cons.prems ns by simp_all
  ultimately show ?case using Cons.IH [of ns'] ns by simp
qed

lemma encode_utf16_inject:
  "valid_utf8 s \<Longrightarrow> valid_utf8 t \<Longrightarrow> encode_utf16 s = encode_utf16 t \<Longrightarrow> s = t"
  by (metis concat_utf16_inject encode_str_chars encode_utf16_def str_chars_scalar)

end
