(* ===== verification/Json.thy ===== *)
theory Json
  imports Utf8
begin

unbundle bit_operations_syntax

text \<open>
  The closed JSON language of \<open>json.rs\<close>: the syntax tree and its accessors, the recogniser and the
  canonicaliser. The parser state is the unread input, the current nesting and its bound; the
  source's pair of a slice and an index into it is here the rest of the slice. The canonicaliser's
  functions return the octets the source appends to its output buffer.
\<close>

section \<open>Documents\<close>

datatype json =
    Null
  | Bool bool
  | Integer int
  | String rust_str
  | Array "json list"
  | Object "(rust_str \<times> json) list"

datatype json_error =
    NotUtf8
  | ByteOrderMark
  | TooLarge
  | DepthExceeded
  | DuplicateMember rust_str
  | TrailingContent
  | NonIntegerNumber
  | NumberOutOfRange
  | Malformed rust_str

definition MAX_SAFE_INTEGER :: int where
  "MAX_SAFE_INTEGER = 9007199254740991"

record json_limits =
  max_bytes :: nat
  max_depth :: nat

fun as_object :: "json \<Rightarrow> (rust_str \<times> json) list option" where
  "as_object (Object m) = Some m"
| "as_object _ = None"

fun as_array :: "json \<Rightarrow> json list option" where
  "as_array (Array items) = Some items"
| "as_array _ = None"

definition get :: "json \<Rightarrow> rust_str \<Rightarrow> json option" where
  "get j name = Option.bind (as_object j) (\<lambda>m. map_option snd (List.find (\<lambda>(k, _). k = name) m))"

fun as_str :: "json \<Rightarrow> rust_str option" where
  "as_str (String s) = Some s"
| "as_str _ = None"

fun as_i64 :: "json \<Rightarrow> int option" where
  "as_i64 (Integer n) = Some n"
| "as_i64 _ = None"

fun as_bool :: "json \<Rightarrow> bool option" where
  "as_bool (Bool b) = Some b"
| "as_bool _ = None"

definition member_names :: "json \<Rightarrow> rust_str list" where
  "member_names j = (case as_object j of None \<Rightarrow> [] | Some m \<Rightarrow> map fst m)"

section \<open>The canonicaliser\<close>

definition hex_digit :: "nat \<Rightarrow> octet" where
  "hex_digit n = (if n < 10 then char_of (48 + n) else char_of (87 + n))"

text \<open>\<open>{:04x}\<close> of a number below \<open>0x10000\<close>.\<close>

definition fmt_04x :: "nat \<Rightarrow> rust_str" where
  "fmt_04x n = map hex_digit [n div 4096 mod 16, n div 256 mod 16, n div 16 mod 16, n mod 16]"

definition write_char :: "nat \<Rightarrow> octets" where
  "write_char c =
     (if c = 0x22 then [CHR 0x5C, CHR 0x22]
      else if c = 0x5C then [CHR 0x5C, CHR 0x5C]
      else if c = 0x08 then [CHR 0x5C, CHR ''b'']
      else if c = 0x0C then [CHR 0x5C, CHR ''f'']
      else if c = 0x0A then [CHR 0x5C, CHR ''n'']
      else if c = 0x0D then [CHR 0x5C, CHR ''r'']
      else if c = 0x09 then [CHR 0x5C, CHR ''t'']
      else if c < 0x20 then [CHR 0x5C, CHR ''u''] @ fmt_04x c
      else encode_utf8 c)"

definition write_string :: "rust_str \<Rightarrow> octets" where
  "write_string s = [CHR 0x22] @ concat (map write_char (str_chars s)) @ [CHR 0x22]"

text \<open>
  \<open>sort_by(utf16_cmp)\<close>: Rust's sort is stable, so its result is that of any stable sort; here
  insertion.
\<close>

definition utf16_sort :: "(rust_str \<times> 'a) list \<Rightarrow> (rust_str \<times> 'a) list" where
  "utf16_sort members = foldr (insort_key (\<lambda>(k, _). encode_utf16 k)) members []"

lemma utf16_sort_sort_key: "utf16_sort = sort_key (\<lambda>(k, _). encode_utf16 k)"
  by (simp add: fun_eq_iff utf16_sort_def sort_key_def)

lemma set_utf16_sort [simp]: "set (utf16_sort ms) = set ms"
  by (simp add: utf16_sort_sort_key)

lemma size_member_less:
  assumes "(k, v) \<in> set ms"
  shows "size v < Suc (size_list (size_prod (\<lambda>_. 0) size) ms)"
  using size_list_estimation [OF assms, of "size v" "size_prod (\<lambda>_. 0) size"] by simp

function write_value :: "json \<Rightarrow> octets" where
  "write_value Null = ''null''"
| "write_value (Bool b) = (if b then ''true'' else ''false'')"
| "write_value (Integer n) = dec_int n"
| "write_value (String s) = write_string s"
| "write_value (Array items) = ''['' @ join_with '','' (map write_value items) @ '']''"
| "write_value (Object members) =
     ''{'' @ join_with '',''
       (map (\<lambda>(name, v). write_string name @ '':'' @ write_value v) (utf16_sort members)) @ ''}''"
  by pat_completeness auto

termination
  by (relation "measure size") (auto dest: size_member_less simp: less_Suc_eq_le size_list_estimation')

definition canonicalise :: "json \<Rightarrow> octets" where
  "canonicalise j = write_value j"

section \<open>The recogniser\<close>

record parser =
  rest :: octets
  depth :: nat
  max_nesting :: nat

definition peek :: "parser \<Rightarrow> octet option" where
  "peek p = (case rest p of [] \<Rightarrow> None | b # _ \<Rightarrow> Some b)"

definition advance :: "nat \<Rightarrow> parser \<Rightarrow> parser" where
  "advance n p = p\<lparr>rest := drop n (rest p)\<rparr>"

definition is_ws :: "octet \<Rightarrow> bool" where
  "is_ws b \<longleftrightarrow> b \<in> {CHR '' '', CHR 0x09, CHR 0x0A, CHR 0x0D}"

text \<open>\<open>while matches!(self.peek(), \<dots>) { self.i += 1 }\<close>.\<close>

definition skip_while :: "(octet \<Rightarrow> bool) \<Rightarrow> parser \<Rightarrow> parser" where
  "skip_while P p = p\<lparr>rest := dropWhile P (rest p)\<rparr>"

definition skip_ws :: "parser \<Rightarrow> parser" where
  "skip_ws p = skip_while is_ws p"

definition eat :: "octet \<Rightarrow> rust_str \<Rightarrow> parser \<Rightarrow> json_error + parser" where
  "eat b what p = (if peek p = Some b then Inr (advance 1 p) else Inl (Malformed what))"

definition literal :: "rust_str \<Rightarrow> json \<Rightarrow> parser \<Rightarrow> json_error + json \<times> parser" where
  "literal word out p =
     (if starts_with word (rest p) then Inr (out, advance (length word) p)
      else Inl (Malformed ''expected a literal''))"

definition enter :: "parser \<Rightarrow> json_error + parser" where
  "enter p =
     (let p' = p\<lparr>depth := depth p + 1\<rparr>
      in if depth p' > max_nesting p' then Inl DepthExceeded else Inr p')"

definition leave :: "parser \<Rightarrow> parser" where
  "leave p = p\<lparr>depth := depth p - 1\<rparr>"

definition hex_value :: "octet \<Rightarrow> nat option" where
  "hex_value b =
     (if CHR ''0'' \<le> b \<and> b \<le> CHR ''9'' then Some (code b - code CHR ''0'')
      else if CHR ''a'' \<le> b \<and> b \<le> CHR ''f'' then Some (code b - code CHR ''a'' + 10)
      else if CHR ''A'' \<le> b \<and> b \<le> CHR ''F'' then Some (code b - code CHR ''A'' + 10)
      else None)"

text \<open>The accumulator is a \<open>u16\<close>: a shift keeps its low sixteen bits.\<close>

fun hex4_loop :: "nat \<Rightarrow> octets \<Rightarrow> json_error + nat" where
  "hex4_loop acc [] = Inr acc"
| "hex4_loop acc (b # bs) =
     and_then (ok_or (Malformed (''non-hexadecimal '' @ [CHR 0x5C] @ ''u escape'')) (hex_value b)) (\<lambda>digit.
     hex4_loop (take_bit 16 (push_bit 4 acc) OR digit) bs)"

definition hex4 :: "parser \<Rightarrow> json_error + nat \<times> parser" where
  "hex4 p =
     (if length (rest p) < 4 then Inl (Malformed (''truncated '' @ [CHR 0x5C] @ ''u escape''))
      else and_then (hex4_loop 0 (take 4 (rest p))) (\<lambda>code_unit. Inr (code_unit, advance 4 p)))"

definition simple_escape :: "octet \<Rightarrow> octet option" where
  "simple_escape b =
     (if b = CHR 0x22 then Some (CHR 0x22)
      else if b = CHR 0x5C then Some (CHR 0x5C)
      else if b = CHR ''/'' then Some (CHR ''/'')
      else if b = CHR ''b'' then Some (CHR 0x08)
      else if b = CHR ''f'' then Some (CHR 0x0C)
      else if b = CHR ''n'' then Some (CHR 0x0A)
      else if b = CHR ''r'' then Some (CHR 0x0D)
      else if b = CHR ''t'' then Some (CHR 0x09)
      else None)"

definition unicode_escape :: "parser \<Rightarrow> json_error + nat \<times> parser" where
  "unicode_escape p =
     and_then (hex4 p) (\<lambda>(first, p).
     if 0xD800 \<le> first \<and> first \<le> 0xDBFF then
       and_then (eat (CHR 0x5C) ''expected a low surrogate escape'' p) (\<lambda>p.
       and_then (eat (CHR ''u'') ''expected a low surrogate escape'' p) (\<lambda>p.
       and_then (hex4 p) (\<lambda>(second, p).
       if \<not> (0xDC00 \<le> second \<and> second \<le> 0xDFFF) then
         Inl (Malformed ''high surrogate not followed by a low one'')
       else
         let combined = 0x10000 + push_bit 10 (first - 0xD800) + (second - 0xDC00)
         in and_then (ok_or (Malformed ''invalid surrogate pair'') (char_from_u32 combined)) (\<lambda>ch.
            Inr (ch, p)))))
     else if 0xDC00 \<le> first \<and> first \<le> 0xDFFF then Inl (Malformed ''lone low surrogate'')
     else and_then (ok_or (Malformed ''invalid escape'') (char_from_u32 first)) (\<lambda>ch. Inr (ch, p)))"

definition escape :: "octets \<Rightarrow> parser \<Rightarrow> json_error + octets \<times> parser" where
  "escape out p =
     and_then (ok_or (Malformed ''truncated escape'') (peek p)) (\<lambda>b.
     let p = advance 1 p in
     case simple_escape b of
       Some byte \<Rightarrow> Inr (out @ [byte], p)
     | None \<Rightarrow>
         if b \<noteq> CHR ''u'' then Inl (Malformed ''unknown escape'')
         else and_then (unicode_escape p) (\<lambda>(ch, p). Inr (out @ encode_utf8 ch, p)))"

section \<open>What a step consumes\<close>

lemma advance_simps [simp]:
  "rest (advance n p) = drop n (rest p)" "depth (advance n p) = depth p"
  "max_nesting (advance n p) = max_nesting p"
  by (simp_all add: advance_def)

lemma leave_simps [simp]:
  "rest (leave p) = rest p" "depth (leave p) = depth p - 1" "max_nesting (leave p) = max_nesting p"
  by (simp_all add: leave_def)

lemma skip_ws_simps [simp]:
  "rest (skip_ws p) = dropWhile is_ws (rest p)" "depth (skip_ws p) = depth p"
  "max_nesting (skip_ws p) = max_nesting p"
  by (simp_all add: skip_ws_def skip_while_def)

lemma length_skip_ws: "length (rest (skip_ws p)) \<le> length (rest p)"
  by (simp add: length_dropWhile_le)

lemma peek_Some_iff: "peek p = Some b \<longleftrightarrow> (\<exists>bs. rest p = b # bs)"
  by (auto simp: peek_def split: list.splits)

text \<open>The state reached keeps the nesting and its bound, and has \<open>n\<close> octets fewer to read.\<close>

definition consumes :: "nat \<Rightarrow> parser \<Rightarrow> parser \<Rightarrow> bool" where
  "consumes n p p' \<longleftrightarrow>
     length (rest p') + n \<le> length (rest p) \<and> depth p' = depth p \<and> max_nesting p' = max_nesting p"

lemma consumes_trans: "consumes m p q \<Longrightarrow> consumes n q r \<Longrightarrow> consumes (m + n) p r"
  by (simp add: consumes_def)

lemma consumes_weaken: "consumes m p q \<Longrightarrow> n \<le> m \<Longrightarrow> consumes n p q"
  by (simp add: consumes_def)

lemma consumes_advance: "n \<le> length (rest p) \<Longrightarrow> consumes n p (advance n p)"
  by (simp add: consumes_def)

lemma consumes_skip_ws: "consumes 0 p (skip_ws p)"
  by (simp add: consumes_def length_dropWhile_le)

lemma eat_consumes: "eat b what p = Inr p' \<Longrightarrow> consumes 1 p p'"
  by (auto simp: eat_def peek_Some_iff consumes_def split: if_splits)

lemma hex4_consumes: "hex4 p = Inr (v, p') \<Longrightarrow> consumes 4 p p'"
  by (auto simp: hex4_def res_iff consumes_def split: if_splits)

lemma unicode_escape_consumes: "unicode_escape p = Inr (v, p') \<Longrightarrow> consumes 4 p p'"
  unfolding unicode_escape_def
  by (auto simp: res_iff Let_def consumes_def dest!: hex4_consumes eat_consumes split: if_splits prod.splits)

lemma escape_consumes: "escape out p = Inr (out', p') \<Longrightarrow> consumes 1 p p'"
  unfolding escape_def
  by (auto simp: res_iff Let_def consumes_def peek_Some_iff dest!: unicode_escape_consumes
      split: option.splits if_splits)

section \<open>Strings, numbers and values\<close>

function string_loop :: "octets \<Rightarrow> parser \<Rightarrow> json_error + rust_str \<times> parser" where
  "string_loop out p =
     and_then (ok_or (Malformed ''unterminated string'') (peek p)) (\<lambda>b.
     if b = CHR 0x22 then
       (if valid_utf8 out then Inr (out, advance 1 p) else Inl (Malformed ''string is not UTF-8''))
     else if b = CHR 0x5C then
       and_then (escape out (advance 1 p)) (\<lambda>(out, p). string_loop out p)
     else if code b \<le> 0x1F then Inl (Malformed ''unescaped control character in string'')
     else string_loop (out @ [b]) (advance 1 p))"
  by pat_completeness auto
termination
  by (relation "measure (\<lambda>(_, p). length (rest p))")
     (auto simp: res_iff peek_Some_iff consumes_def dest!: escape_consumes)

declare string_loop.simps [simp del]

definition parse_string :: "parser \<Rightarrow> json_error + rust_str \<times> parser" where
  "parse_string p = and_then (eat (CHR 0x22) (''expected `'' @ [CHR 0x22] @ ''`'') p) (\<lambda>p. string_loop [] p)"

definition is_digit_0_9 :: "octet \<Rightarrow> bool" where
  "is_digit_0_9 b \<longleftrightarrow> CHR ''0'' \<le> b \<and> b \<le> CHR ''9''"

definition scan_digits :: "parser \<Rightarrow> json_error + parser" where
  "scan_digits p =
     (case peek p of
        Some b \<Rightarrow>
          if b = CHR ''0'' then
            (case peek (advance 1 p) of
               Some d \<Rightarrow>
                 if is_digit_0_9 d then Inl (Malformed ''integer has a leading zero'')
                 else Inr (advance 1 p)
             | None \<Rightarrow> Inr (advance 1 p))
          else if is_digit_0_9 b then Inr (skip_while is_digit_0_9 p)
          else Inl (Malformed ''expected a digit'')
      | None \<Rightarrow> Inl (Malformed ''expected a digit''))"

definition parse_number :: "parser \<Rightarrow> json_error + json \<times> parser" where
  "parse_number p0 =
     and_then (scan_digits (if peek p0 = Some (CHR ''-'') then advance 1 p0 else p0)) (\<lambda>p.
     if peek p \<in> {Some (CHR ''.''), Some (CHR ''e''), Some (CHR ''E'')} then Inl NonIntegerNumber
     else
       let lexeme = take (length (rest p0) - length (rest p)) (rest p0)
       in and_then (ok_or NumberOutOfRange (parse_i64 lexeme)) (\<lambda>n.
          if \<bar>n\<bar> > MAX_SAFE_INTEGER then Inl NumberOutOfRange else Inr (Integer n, p)))"

function
  parse_value :: "parser \<Rightarrow> json_error + json \<times> parser" and
  parse_object :: "parser \<Rightarrow> json_error + json \<times> parser" and
  parse_object_loop :: "(rust_str \<times> json) list \<Rightarrow> parser \<Rightarrow> json_error + json \<times> parser" and
  parse_array :: "parser \<Rightarrow> json_error + json \<times> parser" and
  parse_array_loop :: "json list \<Rightarrow> parser \<Rightarrow> json_error + json \<times> parser"
where
  "parse_value p0 =
     (let p = skip_ws p0 in
      case peek p of
        Some b \<Rightarrow>
          if b = CHR ''{'' then parse_object p
          else if b = CHR ''['' then parse_array p
          else if b = CHR 0x22 then and_then (parse_string p) (\<lambda>(s, p). Inr (String s, p))
          else if b = CHR ''t'' then literal ''true'' (Bool True) p
          else if b = CHR ''f'' then literal ''false'' (Bool False) p
          else if b = CHR ''n'' then literal ''null'' Null p
          else if b = CHR ''-'' \<or> is_digit_0_9 b then parse_number p
          else Inl (Malformed ''expected a value'')
      | None \<Rightarrow> Inl (Malformed ''expected a value''))"
| "parse_object p0 =
     and_then (enter p0) (\<lambda>p.
     and_then (eat (CHR ''{'') ''expected `{`'' p) (\<lambda>p1.
     let p = skip_ws p1 in
     if peek p = Some (CHR ''}'') then Inr (Object [], leave (advance 1 p))
     else parse_object_loop [] p))"
| "parse_object_loop members p0 =
     (let p = skip_ws p0 in
      if peek p \<noteq> Some (CHR 0x22) then Inl (Malformed ''expected a member name'')
      else and_then (parse_string p) (\<lambda>(name, p1).
        if list_ex (\<lambda>(k, _). k = name) members then Inl (DuplicateMember name)
        else and_then (eat (CHR '':'') ''expected `:`'' (skip_ws p1)) (\<lambda>p2.
          and_then (parse_value p2) (\<lambda>(v, p3).
          let members = members @ [(name, v)]; p = skip_ws p3 in
          if peek p = Some (CHR '','') then parse_object_loop members (advance 1 p)
          else if peek p = Some (CHR ''}'') then Inr (Object members, leave (advance 1 p))
          else Inl (Malformed ''expected `,` or `}`'')))))"
| "parse_array p0 =
     and_then (enter p0) (\<lambda>p.
     and_then (eat (CHR ''['') ''expected `[`'' p) (\<lambda>p1.
     let p = skip_ws p1 in
     if peek p = Some (CHR '']'') then Inr (Array [], leave (advance 1 p))
     else parse_array_loop [] p))"
| "parse_array_loop items p0 =
     and_then (parse_value p0) (\<lambda>(v, p1).
     let items = items @ [v]; p = skip_ws p1 in
     if peek p = Some (CHR '','') then parse_array_loop items (advance 1 p)
     else if peek p = Some (CHR '']'') then Inr (Array items, leave (advance 1 p))
     else Inl (Malformed ''expected `,` or `]`''))"
  by pat_completeness auto


lemma string_loop_consumes: "string_loop out p = Inr (s, p') \<Longrightarrow> consumes 1 p p'"
proof (induction out p rule: string_loop.induct)
  case (1 out p)
  from "1.prems" obtain b bs where b: "rest p = b # bs"
    by (subst (asm) string_loop.simps) (auto simp: res_iff peek_Some_iff)
  then have pk: "peek p = Some b" by (simp add: peek_def)
  consider "b = CHR 0x22" | "b = CHR 0x5C" | "b \<noteq> CHR 0x22" "b \<noteq> CHR 0x5C" by blast
  then show ?case
  proof cases
    case 1
    with "1.prems" pk b show ?thesis
      by (subst (asm) string_loop.simps) (auto simp: consumes_def split: if_splits)
  next
    case 2
    with "1.prems" pk obtain o' q where q: "escape out (advance 1 p) = Inr (o', q)" "string_loop o' q = Inr (s, p')"
      by (subst (asm) string_loop.simps) (auto simp: res_iff)
    have "consumes 1 q p'" using "1.IH"(1) [of b "(o', q)" o' q] pk 2 q by (simp add: ok_or_def)
    then show ?thesis
      using escape_consumes [OF q(1)] by (simp add: consumes_def b)
  next
    case 3
    with "1.prems" pk have "string_loop (out @ [b]) (advance 1 p) = Inr (s, p')" and g: "\<not> code b \<le> 0x1F"
      by (subst (asm) string_loop.simps; simp split: if_splits)+
    then have "consumes 1 (advance 1 p) p'" using "1.IH"(2) [of b] pk 3 by simp
    then show ?thesis by (simp add: consumes_def b)
  qed
qed

lemma string_consumes: "parse_string p = Inr (s, p') \<Longrightarrow> consumes 2 p p'"
  by (auto simp: parse_string_def res_iff consumes_def dest!: eat_consumes string_loop_consumes)

lemma literal_consumes: "literal w v p = Inr (v', p') \<Longrightarrow> consumes (length w) p p'"
  by (auto simp: literal_def consumes_def starts_with_iff split: if_splits)

lemma consumes_skip_digits: "consumes 0 p (skip_while P p)"
  by (simp add: consumes_def skip_while_def length_dropWhile_le)

lemma skip_digits_consumes: "peek p = Some b \<Longrightarrow> P b \<Longrightarrow> consumes 1 p (skip_while P p)"
  by (auto simp: consumes_def skip_while_def peek_Some_iff le_imp_less_Suc length_dropWhile_le)

lemma peek_consumes: "peek p = Some b \<Longrightarrow> consumes 1 p (advance 1 p)"
  by (auto simp: peek_Some_iff consumes_def)

lemma scan_digits_consumes: "scan_digits p = Inr p' \<Longrightarrow> consumes 1 p p'"
  by (auto simp: scan_digits_def split: option.splits if_splits
      dest: peek_consumes skip_digits_consumes [of _ _ is_digit_0_9])

lemma number_consumes: "parse_number p = Inr (v, p') \<Longrightarrow> consumes 1 p p'"
proof -
  assume n: "parse_number p = Inr (v, p')"
  define q where "q = (if peek p = Some (CHR ''-'') then advance 1 p else p)"
  have "consumes 0 p q" by (simp add: q_def consumes_def)
  moreover have "scan_digits q = Inr p'"
    using n unfolding parse_number_def Let_def q_def [symmetric] and_then_Inr_iff
    by (auto simp: res_iff)
  ultimately show ?thesis using consumes_trans [of 0 p q 1 p'] scan_digits_consumes by simp
qed

lemma enter_consumes:
  "enter p = Inr q \<Longrightarrow> rest q = rest p \<and> depth q = depth p + 1 \<and> max_nesting q = max_nesting p \<and>
   depth q \<le> max_nesting p"
  by (auto simp: enter_def Let_def split: if_splits)

text \<open>A loop also leaves the container it was entered from.\<close>

definition closes :: "parser \<Rightarrow> parser \<Rightarrow> bool" where
  "closes p p' \<longleftrightarrow>
     length (rest p') < length (rest p) \<and> depth p' = depth p - 1 \<and> max_nesting p' = max_nesting p"

lemma consumes_closes: "consumes n p q \<Longrightarrow> closes q r \<Longrightarrow> closes p r"
  by (auto simp: consumes_def closes_def)

lemma closes_leave: "peek q = Some b \<Longrightarrow> consumes n p q \<Longrightarrow> closes p (leave (advance 1 q))"
  by (auto simp: closes_def consumes_def peek_Some_iff)

lemma enter_closes: "enter p = Inr q \<Longrightarrow> consumes 1 q r \<Longrightarrow> closes r p' \<Longrightarrow> consumes 2 p p'"
  using enter_consumes by (fastforce simp: consumes_def closes_def)

lemma value_consumes_dom:
  "parse_value_parse_object_parse_object_loop_parse_array_parse_array_loop_dom (Inl (Inl p)) \<Longrightarrow>
     parse_value p = Inr (v, p') \<Longrightarrow> consumes 1 p p'"
  "parse_value_parse_object_parse_object_loop_parse_array_parse_array_loop_dom (Inl (Inr p)) \<Longrightarrow>
     parse_object p = Inr (v, p') \<Longrightarrow> consumes 2 p p'"
  "parse_value_parse_object_parse_object_loop_parse_array_parse_array_loop_dom (Inr (Inl (ms, p))) \<Longrightarrow>
     parse_object_loop ms p = Inr (v, p') \<Longrightarrow> closes p p'"
  "parse_value_parse_object_parse_object_loop_parse_array_parse_array_loop_dom (Inr (Inr (Inl p))) \<Longrightarrow>
     parse_array p = Inr (v, p') \<Longrightarrow> consumes 2 p p'"
  "parse_value_parse_object_parse_object_loop_parse_array_parse_array_loop_dom (Inr (Inr (Inr (items, p)))) \<Longrightarrow>
     parse_array_loop items p = Inr (v, p') \<Longrightarrow> closes p p'"
proof (induction p and p and ms p and p and items p arbitrary: v p' and v p' and v p' and v p' and v p'
    rule: parse_value_parse_object_parse_object_loop_parse_array_parse_array_loop.pinduct)
  case (1 p0)
  have s: "consumes 0 p0 (skip_ws p0)" by (rule consumes_skip_ws)
  from "1.prems" obtain b where b: "peek (skip_ws p0) = Some b"
    by (auto simp: parse_value.psimps [OF "1.hyps"] Let_def split: option.splits)
  from "1.prems" have "b = CHR ''{'' \<and> parse_object (skip_ws p0) = Inr (v, p') \<or>
      b \<noteq> CHR ''{'' \<and> b = CHR ''['' \<and> parse_array (skip_ws p0) = Inr (v, p') \<or>
      (\<exists>s. parse_string (skip_ws p0) = Inr (s, p')) \<or> (\<exists>w u. w \<noteq> [] \<and> literal w u (skip_ws p0) = Inr (v, p')) \<or>
      parse_number (skip_ws p0) = Inr (v, p')"
    unfolding parse_value.psimps [OF "1.hyps"] Let_def b option.case
    by (simp split: if_splits add: res_iff) (blast+)
  then have "consumes 1 (skip_ws p0) p'"
  proof (elim disjE)
    assume "b = CHR ''{'' \<and> parse_object (skip_ws p0) = Inr (v, p')"
    then show ?thesis using "1.IH"(1) [OF refl b] by (auto intro: consumes_weaken)
  next
    assume "b \<noteq> CHR ''{'' \<and> b = CHR ''['' \<and> parse_array (skip_ws p0) = Inr (v, p')"
    then show ?thesis using "1.IH"(2) [OF refl b] by (auto intro: consumes_weaken)
  qed (auto dest!: string_consumes literal_consumes number_consumes intro: consumes_weaken simp: Suc_le_eq)
  with consumes_trans [OF s] show ?case by fastforce
next
  case (2 p0)
  from "2.prems" obtain q r where q: "enter p0 = Inr q" and r: "eat (CHR ''{'') ''expected `{`'' q = Inr r"
    and c: "(if peek (skip_ws r) = Some (CHR ''}'') then Inr (Object [], leave (advance 1 (skip_ws r)))
     else parse_object_loop [] (skip_ws r)) = Inr (v, p')"
    by (auto simp: parse_object.psimps [OF "2.hyps"] Let_def res_iff)
  have "closes r p'"
  proof (cases "peek (skip_ws r) = Some (CHR ''}'')")
    case True
    with c show ?thesis using closes_leave [OF True consumes_skip_ws] by simp
  next
    case False
    with c have "closes (skip_ws r) p'" using "2.IH" [OF q r] by simp
    then show ?thesis using consumes_closes [OF consumes_skip_ws] by blast
  qed
  then show ?case using enter_closes [OF q eat_consumes [OF r]] by blast
next
  case (3 members p0)
  define q where "q = skip_ws p0"
  from "3.prems" have pk: "peek q = Some (CHR 0x22)"
    by (auto simp: parse_object_loop.psimps [OF "3.hyps"] Let_def q_def split: if_splits)
  with "3.prems" obtain name r r2 w r3 where r: "parse_string q = Inr (name, r)"
    and f: "\<not> list_ex (\<lambda>(k, _). k = name) members"
    and r2: "eat (CHR '':'') ''expected `:`'' (skip_ws r) = Inr r2" and r3: "parse_value r2 = Inr (w, r3)" and
    c: "(if peek (skip_ws r3) = Some (CHR '','') then parse_object_loop (members @ [(name, w)]) (advance 1 (skip_ws r3))
     else if peek (skip_ws r3) = Some (CHR ''}'') then Inr (Object (members @ [(name, w)]), leave (advance 1 (skip_ws r3)))
     else Inl (Malformed ''expected `,` or `}`'')) = Inr (v, p')"
    unfolding parse_object_loop.psimps [OF "3.hyps"] Let_def q_def [symmetric] and_then_Inr_iff
    by (auto simp: res_iff)
  have v: "consumes 1 r2 r3"
    using "3.IH"(1) [OF q_def] pk r f r2 r3 by simp
  have s: "consumes 1 p0 (skip_ws r3)"
    using consumes_skip_ws [of p0] string_consumes [OF r] consumes_skip_ws [of r] eat_consumes [OF r2] v
      consumes_skip_ws [of r3] by (simp add: consumes_def q_def)
  show ?case
  proof (cases "peek (skip_ws r3) = Some (CHR '','')")
    case True
    with c have "closes (advance 1 (skip_ws r3)) p'"
      using "3.IH"(2) [OF q_def] pk r f r2 r3 by simp
    then show ?thesis using consumes_closes [OF consumes_trans [OF s peek_consumes [OF True]]] by blast
  next
    case False
    with c show ?thesis using closes_leave [OF _ s] by (auto split: if_splits)
  qed
next
  case (4 p0)
  from "4.prems" obtain q r where q: "enter p0 = Inr q" and r: "eat (CHR ''['') ''expected `[`'' q = Inr r"
    and c: "(if peek (skip_ws r) = Some (CHR '']'') then Inr (Array [], leave (advance 1 (skip_ws r)))
     else parse_array_loop [] (skip_ws r)) = Inr (v, p')"
    by (auto simp: parse_array.psimps [OF "4.hyps"] Let_def res_iff)
  have "closes r p'"
  proof (cases "peek (skip_ws r) = Some (CHR '']'')")
    case True
    with c show ?thesis using closes_leave [OF True consumes_skip_ws] by simp
  next
    case False
    with c have "closes (skip_ws r) p'" using "4.IH" [OF q r] by simp
    then show ?thesis using consumes_closes [OF consumes_skip_ws] by blast
  qed
  then show ?case using enter_closes [OF q eat_consumes [OF r]] by blast
next
  case (5 items p0)
  from "5.prems" obtain w q where w: "parse_value p0 = Inr (w, q)" and
    c: "(if peek (skip_ws q) = Some (CHR '','') then parse_array_loop (items @ [w]) (advance 1 (skip_ws q))
     else if peek (skip_ws q) = Some (CHR '']'') then Inr (Array (items @ [w]), leave (advance 1 (skip_ws q)))
     else Inl (Malformed ''expected `,` or `]`'')) = Inr (v, p')"
    by (auto simp: parse_array_loop.psimps [OF "5.hyps"] Let_def res_iff)
  have s: "consumes 1 p0 (skip_ws q)"
    using consumes_trans [OF "5.IH"(1) [OF w] consumes_skip_ws] by simp
  show ?case
  proof (cases "peek (skip_ws q) = Some (CHR '','')")
    case True
    with c have "closes (advance 1 (skip_ws q)) p'" using "5.IH"(2) [OF w] by simp
    then show ?thesis using consumes_closes [OF consumes_trans [OF s peek_consumes [OF True]]] by blast
  next
    case False
    with c show ?thesis using closes_leave [OF _ s] by (auto split: if_splits)
  qed
qed


lemma object_member_consumes:
  assumes "parse_string (skip_ws p) = Inr (name, r)" "eat b what (skip_ws r) = Inr r2"
  shows "length (rest r2) + 3 \<le> length (rest p)"
  using string_consumes [OF assms(1)] eat_consumes [OF assms(2)] length_skip_ws [of p] length_skip_ws [of r]
  by (simp add: consumes_def)

lemma value_ws_shrinks:
  assumes "parse_value_parse_object_parse_object_loop_parse_array_parse_array_loop_dom (Inl (Inl p))" "parse_value p = Inr (v, q)"
  shows "length (dropWhile is_ws (rest q)) < length (rest p)"
  using value_consumes_dom(1) [OF assms] length_skip_ws [of q] by (simp add: consumes_def)

lemma container_shrinks:
  assumes "enter p = Inr q" "eat b what q = Inr r"
  shows "length (dropWhile is_ws (rest r)) < length (rest p)"
  using enter_consumes [OF assms(1)] eat_consumes [OF assms(2)] length_skip_ws [of r]
  by (simp add: consumes_def)

lemma parse_total: "All parse_value_parse_object_parse_object_loop_parse_array_parse_array_loop_dom"
proof (rule "parse_value_parse_object_parse_object_loop_parse_array_parse_array_loop.termination" [where R = "measure (\<lambda>t. case t of
    Inl (Inl p) \<Rightarrow> 3 * length (rest p) + 1
  | Inl (Inr p) \<Rightarrow> 3 * length (rest p)
  | Inr (Inl (_, p)) \<Rightarrow> 3 * length (rest p)
  | Inr (Inr (Inl p)) \<Rightarrow> 3 * length (rest p)
  | Inr (Inr (Inr (_, p))) \<Rightarrow> 3 * length (rest p) + 2)"], goal_cases)
  case 1
  show ?case by simp
next
  case 5
  then show ?case by (auto dest!: object_member_consumes)
next
  case 6
  then show ?case
    by (auto simp: res_iff dest!: object_member_consumes value_ws_shrinks)
qed (auto simp: le_imp_less_Suc length_dropWhile_le less_imp_diff_less dest: container_shrinks value_ws_shrinks)

termination parse_value
  by (rule parse_total)

declare parse_value.simps [simp del] parse_object.simps [simp del] parse_object_loop.simps [simp del]
  parse_array.simps [simp del] parse_array_loop.simps [simp del]

lemmas value_consumes = value_consumes_dom [OF parse_total [THEN spec]]


lemmas parse_induct = parse_value_parse_object_parse_object_loop_parse_array_parse_array_loop.induct

definition recognise_json :: "octets \<Rightarrow> json_limits \<Rightarrow> json_error + json" where
  "recognise_json input limits =
     (if length input > max_bytes limits then Inl TooLarge
      else if starts_with [CHR 0xEF, CHR 0xBB, CHR 0xBF] input then Inl ByteOrderMark
      else if \<not> valid_utf8 input then Inl NotUtf8
      else and_then (parse_value \<lparr>rest = input, depth = 0, max_nesting = max_depth limits\<rparr>) (\<lambda>(v, p).
        let p = skip_ws p
        in if rest p \<noteq> [] then Inl TrailingContent else Inr v))"

definition canonical_bytes :: "octets \<Rightarrow> json_limits \<Rightarrow> json_error + octets" where
  "canonical_bytes input limits = and_then (recognise_json input limits) (\<lambda>j. Inr (canonicalise j))"

definition is_canonical :: "octets \<Rightarrow> json_limits \<Rightarrow> json_error + bool" where
  "is_canonical input limits = and_then (canonical_bytes input limits) (\<lambda>bytes. Inr (bytes = input))"

section \<open>Properties\<close>

text \<open>
  C3. The recogniser terminates on every input: each of its five mutually recursive functions is
  defined everywhere, and a value that was read has consumed at least one octet, closed every
  container it opened and left the nesting bound alone - the measure on which that rests.
\<close>

theorem json_parser_terminates:
  "All parse_value_parse_object_parse_object_loop_parse_array_parse_array_loop_dom \<and>
   {(p', p). \<exists>v. parse_value p = Inr (v, p')} \<subseteq> {(p', p). length (rest p') < length (rest p)} \<and>
   {(p', p). \<exists>v. parse_value p = Inr (v, p')} \<subseteq> {(p', p). depth p' = depth p \<and> max_nesting p' = max_nesting p}"
  using parse_total value_consumes(1) by (auto simp: consumes_def dest!: Suc_le_lessD)

end
