(* ===== verification/Json_Canon.thy ===== *)
theory Json_Canon
  imports Json
begin

text \<open>
  What the pair of recogniser and canonicaliser of \<open>json.rs\<close> promises: every recognised document
  is well-formed and within the nesting bound; the canonical spelling of a well-formed document is
  recognised, as the same document with its members in UTF-16 order; and two documents have one
  canonical spelling exactly when they differ only in the order of members.
\<close>

section \<open>Well-formed documents\<close>

fun json_wf :: "json \<Rightarrow> bool" where
  "json_wf Null \<longleftrightarrow> True"
| "json_wf (Bool b) \<longleftrightarrow> True"
| "json_wf (Integer n) \<longleftrightarrow> \<bar>n\<bar> \<le> MAX_SAFE_INTEGER"
| "json_wf (String s) \<longleftrightarrow> valid_utf8 s"
| "json_wf (Array items) \<longleftrightarrow> (\<forall>v \<in> set items. json_wf v)"
| "json_wf (Object ms) \<longleftrightarrow> distinct (map fst ms) \<and> (\<forall>(k, v) \<in> set ms. valid_utf8 k \<and> json_wf v)"

text \<open>The nesting of containers; a top-level container has depth one.\<close>

fun json_depth :: "json \<Rightarrow> nat" where
  "json_depth (Array items) = Suc (foldr max (map json_depth items) 0)"
| "json_depth (Object ms) = Suc (foldr max (map (\<lambda>(k, v). json_depth v) ms) 0)"
| "json_depth _ = 0"

text \<open>Members in canonical order, at every level.\<close>

fun sort_members :: "json \<Rightarrow> json" where
  "sort_members (Array items) = Array (map sort_members items)"
| "sort_members (Object ms) = Object (utf16_sort (map (\<lambda>(k, v). (k, sort_members v)) ms))"
| "sort_members j = j"

lemma foldr_max_le_iff: "foldr max ns 0 \<le> (n :: nat) \<longleftrightarrow> (\<forall>m \<in> set ns. m \<le> n)"
  by (induction ns) auto

lemma depth_bound_simps [simp]:
  "json_depth (Array items) \<le> n \<longleftrightarrow> 1 \<le> n \<and> (\<forall>v \<in> set items. Suc (json_depth v) \<le> n)"
  "json_depth (Object ms) \<le> n \<longleftrightarrow> 1 \<le> n \<and> (\<forall>(k, v) \<in> set ms. Suc (json_depth v) \<le> n)"
  by (cases n; fastforce simp: foldr_max_le_iff)+

declare json_depth.simps(1,2) [simp del]

section \<open>Recognised documents are well-formed\<close>

text \<open>A value read in state \<open>p\<close> is well-formed and fits between \<open>p\<close>'s nesting and its bound.\<close>

definition fits :: "parser \<Rightarrow> json \<Rightarrow> bool" where
  "fits p v \<longleftrightarrow> json_wf v \<and> json_depth v + depth p \<le> max_nesting p"

definition members_fit :: "parser \<Rightarrow> (rust_str \<times> json) list \<Rightarrow> bool" where
  "members_fit p ms \<longleftrightarrow> distinct (map fst ms) \<and> (\<forall>(k, v) \<in> set ms. valid_utf8 k \<and> fits p v)"

lemma fits_cong: "consumes n p q \<Longrightarrow> fits q v = fits p v"
  by (simp add: fits_def consumes_def)

lemma members_fit_cong: "consumes n p q \<Longrightarrow> members_fit q ms = members_fit p ms"
  by (simp add: members_fit_def fits_def consumes_def)

lemma members_fit_snoc:
  "members_fit p (ms @ [(k, v)]) \<longleftrightarrow> members_fit p ms \<and> k \<notin> fst ` set ms \<and> valid_utf8 k \<and> fits p v"
  by (auto simp: members_fit_def)

lemma string_loop_valid: "string_loop out p = Inr (s, p') \<Longrightarrow> valid_utf8 s"
proof (induction out p rule: string_loop.induct)
  case (1 out p)
  from "1.prems" [unfolded string_loop.simps [of out p]] "1.IH" show ?case
    by (auto simp: res_iff split: if_splits)
qed

lemma string_valid: "parse_string p = Inr (s, p') \<Longrightarrow> valid_utf8 s"
  by (auto simp: parse_string_def res_iff dest: string_loop_valid)

lemma number_fits: "parse_number p = Inr (v, p') \<Longrightarrow> depth p \<le> max_nesting p \<Longrightarrow> fits p v"
  by (auto simp: parse_number_def Let_def res_iff fits_def split: if_splits)

lemma literal_result: "literal w u p = Inr (v, p') \<Longrightarrow> v = u"
  by (auto simp: literal_def split: if_splits)

text \<open>The branches of the recogniser that succeed.\<close>

lemma parse_value_cases:
  assumes "parse_value p0 = Inr (v, p')"
  obtains (obj) "parse_object (skip_ws p0) = Inr (v, p')" "peek (skip_ws p0) = Some (CHR ''{'')"
  | (arr) "parse_array (skip_ws p0) = Inr (v, p')" "peek (skip_ws p0) = Some (CHR ''['')"
  | (str) s where "parse_string (skip_ws p0) = Inr (s, p')" "v = String s"
  | (lit) "v \<in> {Bool True, Bool False, Null}"
  | (num) "parse_number (skip_ws p0) = Inr (v, p')"
proof -
  from assms obtain b where b: "peek (skip_ws p0) = Some b"
    by (auto simp: parse_value.simps [of p0] Let_def split: option.splits)
  from assms have "b = CHR ''{'' \<and> parse_object (skip_ws p0) = Inr (v, p') \<or>
      b = CHR ''['' \<and> parse_array (skip_ws p0) = Inr (v, p') \<or>
      (\<exists>s. parse_string (skip_ws p0) = Inr (s, p') \<and> v = String s) \<or>
      (\<exists>w u. u \<in> {Bool True, Bool False, Null} \<and> literal w u (skip_ws p0) = Inr (v, p')) \<or>
      parse_number (skip_ws p0) = Inr (v, p')"
    unfolding parse_value.simps [of p0] Let_def b option.case
    by (simp split: if_splits add: res_iff) (blast+)
  then show thesis
    using that b literal_result by (elim disjE conjE exE) metis+
qed

lemma parse_object_cases:
  assumes "parse_object p0 = Inr (v, p')"
  obtains (empty) q r where "enter p0 = Inr q" "eat (CHR ''{'') ''expected `{`'' q = Inr r" "v = Object []"
      "peek (skip_ws r) = Some (CHR ''}'')"
  | (loop) q r where "enter p0 = Inr q" "eat (CHR ''{'') ''expected `{`'' q = Inr r"
      "peek (skip_ws r) \<noteq> Some (CHR ''}'')" "parse_object_loop [] (skip_ws r) = Inr (v, p')"
  using assms by (auto simp: parse_object.simps [of p0] Let_def res_iff split: if_splits)

lemma parse_array_cases:
  assumes "parse_array p0 = Inr (v, p')"
  obtains (empty) q r where "enter p0 = Inr q" "eat (CHR ''['') ''expected `[`'' q = Inr r" "v = Array []"
      "peek (skip_ws r) = Some (CHR '']'')"
  | (loop) q r where "enter p0 = Inr q" "eat (CHR ''['') ''expected `[`'' q = Inr r"
      "peek (skip_ws r) \<noteq> Some (CHR '']'')" "parse_array_loop [] (skip_ws r) = Inr (v, p')"
  using assms by (auto simp: parse_array.simps [of p0] Let_def res_iff split: if_splits)

lemma parse_object_loop_cases:
  assumes "parse_object_loop ms p0 = Inr (v, p')"
  obtains name r r2 w r3 where "peek (skip_ws p0) = Some (CHR 0x22)"
    "parse_string (skip_ws p0) = Inr (name, r)" "\<not> list_ex (\<lambda>(k, _). k = name) ms"
    "eat (CHR '':'') ''expected `:`'' (skip_ws r) = Inr r2" "parse_value r2 = Inr (w, r3)"
    "(peek (skip_ws r3) = Some (CHR '','') \<and>
        parse_object_loop (ms @ [(name, w)]) (advance 1 (skip_ws r3)) = Inr (v, p')) \<or>
     (peek (skip_ws r3) = Some (CHR ''}'') \<and> v = Object (ms @ [(name, w)]) \<and>
        p' = leave (advance 1 (skip_ws r3)))"
proof -
  from assms have "peek (skip_ws p0) = Some (CHR 0x22)"
    by (simp add: parse_object_loop.simps [of ms p0] Let_def split: if_splits)
  with assms that show thesis
    unfolding parse_object_loop.simps [of ms p0] Let_def and_then_Inr_iff
    by (auto simp: res_iff split: if_splits)
qed

lemma parse_array_loop_cases:
  assumes "parse_array_loop items p0 = Inr (v, p')"
  obtains w r where "parse_value p0 = Inr (w, r)"
    "(peek (skip_ws r) = Some (CHR '','') \<and>
        parse_array_loop (items @ [w]) (advance 1 (skip_ws r)) = Inr (v, p')) \<or>
     (peek (skip_ws r) = Some (CHR '']'') \<and> v = Array (items @ [w]) \<and>
        p' = leave (advance 1 (skip_ws r)))"
  using assms by (auto simp: parse_array_loop.simps [of items p0] Let_def res_iff split: if_splits)


lemma fits_containers:
  assumes "enter p = Inr q" "consumes n q r"
  shows "(\<And>v. v \<in> set items \<Longrightarrow> fits r v) \<Longrightarrow> fits p (Array items)"
    and "members_fit r ms \<Longrightarrow> fits p (Object ms)"
proof -
  have d: "depth r = Suc (depth p)" "max_nesting r = max_nesting p" "Suc (depth p) \<le> max_nesting p"
    using enter_consumes [OF assms(1)] assms(2) by (auto simp: consumes_def)
  have "json_depth j + depth p \<le> max_nesting p \<longleftrightarrow> json_depth j \<le> max_nesting p - depth p" for j
    using d(3) by auto
  then have f: "fits p j \<longleftrightarrow> json_wf j \<and> json_depth j \<le> max_nesting p - depth p" for j
    by (simp add: fits_def)
  have g: "fits r j \<longleftrightarrow> json_wf j \<and> Suc (json_depth j) \<le> max_nesting p - depth p" for j
    using d by (auto simp: fits_def)
  show "(\<And>v. v \<in> set items \<Longrightarrow> fits r v) \<Longrightarrow> fits p (Array items)"
    using d(3) by (auto simp: f g)
  show "members_fit r ms \<Longrightarrow> fits p (Object ms)"
    using d(3) by (auto simp: f g members_fit_def)
qed

lemma parse_fits:
  "parse_value p = Inr (v, p') \<Longrightarrow> depth p \<le> max_nesting p \<Longrightarrow> fits p v"
  "parse_object p = Inr (v, p') \<Longrightarrow> depth p \<le> max_nesting p \<Longrightarrow> fits p v"
  "parse_object_loop ms p = Inr (v, p') \<Longrightarrow> depth p \<le> max_nesting p \<Longrightarrow> members_fit p ms \<Longrightarrow>
     \<exists>ms'. v = Object ms' \<and> members_fit p ms'"
  "parse_array p = Inr (v, p') \<Longrightarrow> depth p \<le> max_nesting p \<Longrightarrow> fits p v"
  "parse_array_loop items p = Inr (v, p') \<Longrightarrow> depth p \<le> max_nesting p \<Longrightarrow> (\<forall>i \<in> set items. fits p i) \<Longrightarrow>
     \<exists>items'. v = Array items' \<and> (\<forall>i \<in> set items'. fits p i)"
proof (induction p and p and ms p and p and items p arbitrary: v p' and v p' and v p' and v p' and v p'
    rule: parse_induct)
  case (1 p0)
  have f: "fits p0 v" if "fits (skip_ws p0) v" using that fits_cong [OF consumes_skip_ws] by blast
  from "1.prems"(1) show ?case
  proof (cases rule: parse_value_cases)
    case obj
    then show ?thesis using "1.IH"(1) [OF refl obj(2)] "1.prems"(2) f by simp
  next
    case arr
    then show ?thesis using "1.IH"(2) [OF refl arr(2)] "1.prems"(2) f by simp
  next
    case (str s)
    then show ?thesis using string_valid [OF str(1)] "1.prems"(2) by (simp add: fits_def)
  next
    case lit
    then show ?thesis using "1.prems"(2) by (auto simp: fits_def)
  next
    case num
    then show ?thesis using number_fits "1.prems"(2) f by simp
  qed
next
  case (2 p0)
  from "2.prems"(1) show ?case
  proof (cases rule: parse_object_cases)
    case (empty q r)
    then show ?thesis
      using fits_containers(2) [OF empty(1) eat_consumes [OF empty(2)], of "[]"] by (simp add: members_fit_def)
  next
    case (loop q r)
    note c = eat_consumes [OF loop(2)]
    have "depth (skip_ws r) \<le> max_nesting (skip_ws r)"
      using enter_consumes [OF loop(1)] c by (simp add: consumes_def)
    then obtain ms' where "v = Object ms'" "members_fit (skip_ws r) ms'"
      using "2.IH" [OF loop(1,2) refl loop(3,4)] by (auto simp: members_fit_def)
    then show ?thesis
      using fits_containers(2) [OF loop(1) consumes_trans [OF c consumes_skip_ws]] by simp
  qed
next
  case (3 ms p0)
  from "3.prems"(1) show ?case
  proof (cases rule: parse_object_loop_cases)
    case (1 name r r2 w r3)
    have c: "consumes 2 p0 r" "consumes 3 p0 r2"
      using consumes_trans [OF consumes_skip_ws string_consumes [OF 1(2)]]
        consumes_trans [OF consumes_trans [OF consumes_skip_ws string_consumes [OF 1(2)]]
          consumes_trans [OF consumes_skip_ws eat_consumes [OF 1(4)]]]
      by (simp_all add: numeral_eq_Suc)
    have d: "depth r2 \<le> max_nesting r2" using c(2) "3.prems"(2) by (simp add: consumes_def)
    have "fits r2 w" using "3.IH"(1) [OF refl _ 1(2) refl 1(3,4,5) d] 1(1) by simp
    then have m: "members_fit p0 (ms @ [(name, w)])"
      using "3.prems"(3) 1(3) string_valid [OF 1(2)] fits_cong [OF c(2)]
      by (auto simp: members_fit_snoc list_ex_iff)
    have c3: "consumes 4 p0 (skip_ws r3)"
      using consumes_trans [OF c(2) consumes_trans [OF value_consumes(1) [OF 1(5)] consumes_skip_ws]]
      by (simp add: numeral_eq_Suc)
    from 1(6) show ?thesis
    proof (elim disjE conjE)
      assume a: "peek (skip_ws r3) = Some (CHR '','')"
        "parse_object_loop (ms @ [(name, w)]) (advance 1 (skip_ws r3)) = Inr (v, p')"
      note e = consumes_trans [OF c3 peek_consumes [OF a(1)]]
      have "\<exists>ms'. v = Object ms' \<and> members_fit (advance 1 (skip_ws r3)) ms'"
        using "3.IH"(2) [OF refl _ 1(2) refl 1(3,4,5) refl refl refl a] 1(1) m "3.prems"(2)
          members_fit_cong [OF e] e by (simp add: consumes_def)
      then show ?thesis using members_fit_cong [OF e] by simp
    qed (use m in auto)
  qed
next
  case (4 p0)
  from "4.prems"(1) show ?case
  proof (cases rule: parse_array_cases)
    case (empty q r)
    then show ?thesis
      using fits_containers(1) [OF empty(1) eat_consumes [OF empty(2)], of "[]"] by simp
  next
    case (loop q r)
    note c = eat_consumes [OF loop(2)]
    have "depth (skip_ws r) \<le> max_nesting (skip_ws r)"
      using enter_consumes [OF loop(1)] c by (simp add: consumes_def)
    then obtain items' where "v = Array items'" "\<forall>i \<in> set items'. fits (skip_ws r) i"
      using "4.IH" [OF loop(1,2) refl loop(3,4)] by auto
    then show ?thesis
      using fits_containers(1) [OF loop(1) consumes_trans [OF c consumes_skip_ws]] by simp
  qed
next
  case (5 items p0)
  from "5.prems"(1) show ?case
  proof (cases rule: parse_array_loop_cases)
    case (1 w r)
    have f: "\<forall>i \<in> set (items @ [w]). fits p0 i"
      using "5.IH"(1) [OF 1(1) "5.prems"(2)] "5.prems"(3) by simp
    have c: "consumes 1 p0 (skip_ws r)"
      using consumes_trans [OF value_consumes(1) [OF 1(1)] consumes_skip_ws] by simp
    from 1(2) show ?thesis
    proof (elim disjE conjE)
      assume a: "peek (skip_ws r) = Some (CHR '','')"
        "parse_array_loop (items @ [w]) (advance 1 (skip_ws r)) = Inr (v, p')"
      note e = consumes_trans [OF c peek_consumes [OF a(1)]]
      have "\<exists>items'. v = Array items' \<and> (\<forall>i \<in> set items'. fits (advance 1 (skip_ws r)) i)"
        using "5.IH"(2) [OF 1(1) refl refl refl a] f "5.prems"(2)
          fits_cong [OF e] e by (simp add: consumes_def)
      then show ?thesis using fits_cong [OF e] by simp
    qed (use f in auto)
  qed
qed

theorem recognise_json_wf:
  assumes "recognise_json input limits = Inr v"
  shows "json_wf v" "json_depth v \<le> max_depth limits" "length input \<le> max_bytes limits" "valid_utf8 input"
proof -
  from assms obtain p where
    p: "parse_value \<lparr>rest = input, depth = 0, max_nesting = max_depth limits\<rparr> = Inr (v, p)"
    and b: "length input \<le> max_bytes limits" "valid_utf8 input"
    by (auto simp: recognise_json_def Let_def res_iff split: if_splits)
  show "json_wf v" "json_depth v \<le> max_depth limits" "length input \<le> max_bytes limits" "valid_utf8 input"
    using parse_fits(1) [OF p] b by (simp_all add: fits_def)
qed

end
