(* ===== verification/Json_Roundtrip.thy ===== *)
theory Json_Roundtrip
  imports Json_Canon
begin

text \<open>
  The recogniser of \<open>json.rs\<close> reads back what its canonicaliser writes: characters and their
  escapes, strings, numbers, then whole documents with their members in canonical order.
\<close>

section \<open>Reading a state whose input is known\<close>

lemma peek_rest [simp]: "peek (p\<lparr>rest := b # bs\<rparr>) = Some b" "peek (p\<lparr>rest := []\<rparr>) = None"
  by (simp_all add: peek_def)

lemma advance_rest [simp]: "advance n (p\<lparr>rest := bs\<rparr>) = p\<lparr>rest := drop n bs\<rparr>"
  by (simp add: advance_def)

lemma skip_ws_rest [simp]: "skip_ws (p\<lparr>rest := bs\<rparr>) = p\<lparr>rest := dropWhile is_ws bs\<rparr>"
  by (simp add: skip_ws_def skip_while_def)

lemma eat_rest [simp]: "eat b what (p\<lparr>rest := b # bs\<rparr>) = Inr (p\<lparr>rest := bs\<rparr>)"
  by (simp add: eat_def)

lemma code_char_of_lt [simp]: "n < 256 \<Longrightarrow> of_char (char_of (n :: nat)) = (n :: nat)"
  by simp

section \<open>Characters and strings\<close>

lemma hex_value_digit: "n < 16 \<Longrightarrow> hex_value (hex_digit n) = Some n"
proof -
  have "list_all (\<lambda>n. hex_value (hex_digit n) = Some n) [0..<16]" by code_simp
  then show "n < 16 \<Longrightarrow> hex_value (hex_digit n) = Some n" by (simp add: list_all_iff)
qed

lemma nibble_or:
  fixes v d :: nat
  assumes "d < 16"
  shows "push_bit 4 v OR d = 16 * v + d"
proof -
  have "take_bit 4 d = d" using assms by (simp add: take_bit_nat_eq_self)
  then have "\<not> (4 \<le> n \<and> bit d n)" for n by (metis bit_take_bit_iff not_le)
  then have "push_bit 4 v AND d = 0"
    by (intro bit_eqI) (auto simp: bit_and_iff bit_push_bit_iff)
  then have "push_bit 4 v OR d = push_bit 4 v + d" by (simp only: disjunctive_add_eq_or)
  then show ?thesis by (simp add: push_bit_eq_mult)
qed

lemma hex4_loop_digits:
  "(\<forall>d \<in> set ds. d < 16) \<Longrightarrow> acc < 16 ^ k \<Longrightarrow> k + length ds \<le> 4 \<Longrightarrow>
   hex4_loop acc (map hex_digit ds) = Inr (foldl (\<lambda>a d. 16 * a + d) acc ds)"
proof (induction ds arbitrary: acc k)
  case (Cons d ds)
  have "acc < 16 ^ 3"
    using Cons.prems(2,3) power_increasing [of k 3 "16::nat"] by simp
  then have "take_bit 16 (push_bit 4 acc) = push_bit 4 acc"
    by (intro take_bit_nat_eq_self) (simp add: push_bit_eq_mult)
  then have "hex4_loop acc (map hex_digit (d # ds)) = hex4_loop (16 * acc + d) (map hex_digit ds)"
    using Cons.prems(1) by (simp add: hex_value_digit nibble_or)
  also have "\<dots> = Inr (foldl (\<lambda>a d. 16 * a + d) (16 * acc + d) ds)"
    using Cons.prems by (intro Cons.IH [of _ "Suc k"]) auto
  finally show ?case by simp
qed simp

lemma horner_16:
  "a' = a \<Longrightarrow> b = 16 * a + b' \<Longrightarrow> c = 16 * b + c' \<Longrightarrow> (n :: nat) = 16 * c + d \<Longrightarrow>
   16 * (16 * (16 * (16 * 0 + a') + b') + c') + d = n"
  by simp

lemma hex4_fmt_04x:
  assumes "n < 65536"
  shows "hex4 (p\<lparr>rest := fmt_04x n @ r\<rparr>) = Inr (n, p\<lparr>rest := r\<rparr>)"
proof -
  have "hex4_loop 0 (fmt_04x n) = Inr (foldl (\<lambda>a d. 16 * a + d) 0 [n div 4096 mod 16, n div 256 mod 16, n div 16 mod 16, n mod 16])"
    unfolding fmt_04x_def by (rule hex4_loop_digits [where k = 0]) auto
  moreover have "foldl (\<lambda>a d. 16 * a + d) 0 [n div 4096 mod 16, n div 256 mod 16, n div 16 mod 16, n mod 16] = n"
  proof -
    have "n div 4096 mod 16 = n div 4096" using assms by (simp add: less_mult_imp_div_less)
    moreover have "n div 256 = 16 * (n div 4096) + n div 256 mod 16"
      using mult_div_mod_eq [of 16 "n div 256"] by (simp add: div_mult2_eq [symmetric])
    moreover have "n div 16 = 16 * (n div 256) + n div 16 mod 16"
      using mult_div_mod_eq [of 16 "n div 16"] by (simp add: div_mult2_eq [symmetric])
    moreover have "n = 16 * (n div 16) + n mod 16" by simp
    ultimately show ?thesis unfolding foldl.simps by (rule horner_16)
  qed
  ultimately have "hex4_loop 0 (fmt_04x n) = Inr n" by (simp only:)
  moreover have "length (fmt_04x n) = 4" by (simp add: fmt_04x_def)
  ultimately show ?thesis by (simp add: hex4_def)
qed

text \<open>Octets the string loop copies.\<close>

definition plain :: "octet \<Rightarrow> bool" where
  "plain b \<longleftrightarrow> b \<noteq> CHR 0x22 \<and> b \<noteq> CHR 0x5C \<and> 0x1F < code b"

lemma string_loop_plain:
  "list_all plain bs \<Longrightarrow> string_loop out (p\<lparr>rest := bs @ r\<rparr>) = string_loop (out @ bs) (p\<lparr>rest := r\<rparr>)"
proof (induction bs arbitrary: out)
  case (Cons b bs)
  then have "string_loop out (p\<lparr>rest := (b # bs) @ r\<rparr>) = string_loop (out @ [b]) (p\<lparr>rest := bs @ r\<rparr>)"
    by (subst string_loop.simps) (simp add: plain_def)
  with Cons show ?case by simp
qed simp

lemma plain_code: "n < (256::nat) \<Longrightarrow> 0x1F < n \<Longrightarrow> n \<noteq> 0x22 \<Longrightarrow> n \<noteq> 0x5C \<Longrightarrow> plain (char_of n)"
  by (auto simp: plain_def char_of_eq_iff')

lemma plain_encode:
  assumes "is_scalar c" "0x20 \<le> c" "c \<noteq> 0x22" "c \<noteq> 0x5C"
  shows "list_all plain (encode_utf8 c)"
proof -
  have b: "c div 64 < 0x20" if "c < 0x800" using that by (simp add: less_mult_imp_div_less)
  have d: "c div 4096 < 0x10" if "c < 0x10000" using that by (simp add: less_mult_imp_div_less)
  have "c < 0x110000" using assms(1) by (auto simp: is_scalar_def)
  then have e: "c div 262144 < 5" by (simp add: less_mult_imp_div_less)
  have m: "0x80 + n mod 64 < 256" "0x1F < 0x80 + n mod 64" for n :: nat
    using mod_less_divisor [of 64 n] by linarith+
  show ?thesis
    unfolding encode_utf8_def using assms b d e m
    by (auto intro!: plain_code simp: add_less_cancel_left simp del: mod_less_divisor)
qed

lemma string_loop_escape:
  "escape out (p\<lparr>rest := bs\<rparr>) = Inr (out', q) \<Longrightarrow>
   string_loop out (p\<lparr>rest := CHR 0x5C # bs\<rparr>) = string_loop out' q"
  by (subst string_loop.simps) simp

lemma escape_simple:
  "simple_escape b = Some c \<Longrightarrow> escape out (p\<lparr>rest := b # bs\<rparr>) = Inr (out @ [c], p\<lparr>rest := bs\<rparr>)"
  by (simp add: escape_def)

lemma escape_unicode:
  assumes "n < 0xD800"
  shows "escape out (p\<lparr>rest := CHR ''u'' # fmt_04x n @ r\<rparr>) = Inr (out @ encode_utf8 n, p\<lparr>rest := r\<rparr>)"
  using assms hex4_fmt_04x [where n = n and p = p and r = r]
  by (simp add: escape_def simple_escape_def unicode_escape_def char_from_u32_def is_scalar_def)

lemma char_of_escaped:
  "char_of (34::nat) = CHR 0x22" "char_of (92::nat) = CHR 0x5C" "char_of (8::nat) = CHR 0x08"
  "char_of (12::nat) = CHR 0x0C" "char_of (10::nat) = CHR 0x0A" "char_of (13::nat) = CHR 0x0D"
  "char_of (9::nat) = CHR 0x09"
  by (simp_all add: char_of_eq_iff')

lemma string_loop_write_char:
  assumes "is_scalar c"
  shows "string_loop out (p\<lparr>rest := write_char c @ r\<rparr>) = string_loop (out @ encode_utf8 c) (p\<lparr>rest := r\<rparr>)"
proof -
  have e: "string_loop out (p\<lparr>rest := CHR 0x5C # b # r\<rparr>) = string_loop (out @ [d]) (p\<lparr>rest := r\<rparr>)"
    if "simple_escape b = Some d" for b d
    using that by (intro string_loop_escape escape_simple)
  consider (q) "c = 0x22" | (s) "c = 0x5C" | (b) "c = 0x08" | (f) "c = 0x0C" | (n) "c = 0x0A"
    | (r) "c = 0x0D" | (t) "c = 0x09"
    | (u) "c < 0x20" "c \<notin> {0x22, 0x5C, 0x08, 0x0C, 0x0A, 0x0D, 0x09}"
    | (o) "0x20 \<le> c" "c \<noteq> 0x22" "c \<noteq> 0x5C"
    by force
  then show ?thesis
  proof cases
    case u
    then show ?thesis
      using string_loop_escape [OF escape_unicode [where n = c and p = p and r = r]] by (simp add: write_char_def)
  next
    case o
    then show ?thesis
      using string_loop_plain [OF plain_encode [OF assms o]] by (simp add: write_char_def)
  qed (simp_all add: write_char_def e simple_escape_def encode_utf8_def char_of_escaped)
qed

lemma string_loop_write_chars:
  assumes "list_all is_scalar cs" "valid_utf8 out"
  shows "string_loop out (p\<lparr>rest := concat (map write_char cs) @ CHR 0x22 # r\<rparr>) =
    Inr (out @ encode_all cs, p\<lparr>rest := r\<rparr>)"
  using assms
proof (induction cs arbitrary: out)
  case Nil
  then show ?case by (subst string_loop.simps) simp
next
  case (Cons c cs)
  then show ?case by (simp add: string_loop_write_char valid_utf8_append)
qed

lemma parse_write_string:
  assumes "valid_utf8 s"
  shows "parse_string (p\<lparr>rest := write_string s @ r\<rparr>) = Inr (s, p\<lparr>rest := r\<rparr>)"
  using string_loop_write_chars [OF str_chars_scalar valid_utf8_Nil, where p = p and r = r] assms
  by (simp add: parse_string_def write_string_def encode_str_chars)


section \<open>Numbers\<close>

lemma is_digit_0_9_iff: "is_digit_0_9 b \<longleftrightarrow> is_ascii_digit b"
  by (simp add: is_digit_0_9_def is_ascii_digit_def less_eq_char_def)

lemma dec_nat_first_nonzero: "0 < n \<Longrightarrow> hd (dec_nat n) \<noteq> CHR ''0''"
proof (induction n rule: dec_nat.induct)
  case (1 n)
  show ?case
  proof (cases "n < 10")
    case True
    then have "code (dec_digit n) \<noteq> code CHR ''0''" using 1(2) by (simp add: code_dec_digit)
    with True show ?thesis by auto
  next
    case False
    with 1 show ?thesis by (simp add: dec_nat_big)
  qed
qed

text \<open>What may follow a value that was written: nothing, or punctuation.\<close>

definition follow :: "octets \<Rightarrow> bool" where
  "follow r \<longleftrightarrow> r = [] \<or> hd r \<in> {CHR '','', CHR ''}'', CHR '']''}"

lemma scan_digits_dec_nat:
  assumes "follow r"
  shows "scan_digits (p\<lparr>rest := dec_nat n @ r\<rparr>) = Inr (p\<lparr>rest := r\<rparr>)"
proof (cases "n = 0")
  case True
  have "dec_digit 0 = CHR ''0''" by (simp add: dec_digit_def char_of_eq_iff')
  with True assms show ?thesis
    by (cases r) (auto simp: scan_digits_def follow_def is_digit_0_9_def less_eq_char_def)
next
  case False
  obtain c cs where c: "dec_nat n = c # cs" "is_ascii_digit c" using dec_nat_Cons by blast
  then have "c \<noteq> CHR ''0''" using dec_nat_first_nonzero [of n] False by simp
  moreover have "dropWhile is_digit_0_9 (dec_nat n @ r) = r"
  proof -
    have "dropWhile is_digit_0_9 (dec_nat n @ r) = dropWhile is_digit_0_9 r"
      using dec_nat_digits [of n] by (auto simp: is_digit_0_9_iff list_all_iff dropWhile_append2)
    also have "\<dots> = r"
      using assms by (cases r) (auto simp: follow_def is_digit_0_9_def less_eq_char_def)
    finally show ?thesis .
  qed
  ultimately show ?thesis
    using c by (simp add: scan_digits_def skip_while_def is_digit_0_9_iff)
qed

lemma parse_write_number:
  assumes "\<bar>n\<bar> \<le> MAX_SAFE_INTEGER" "follow r"
  shows "parse_number (p\<lparr>rest := dec_int n @ r\<rparr>) = Inr (Integer n, p\<lparr>rest := r\<rparr>)"
proof -
  define q where "q = p\<lparr>rest := dec_int n @ r\<rparr>"
  have s: "scan_digits (if peek q = Some (CHR ''-'') then advance 1 q else q) = Inr (p\<lparr>rest := r\<rparr>)"
  proof (cases "n < 0")
    case True
    then show ?thesis using scan_digits_dec_nat [OF assms(2)] by (simp add: q_def dec_int_def)
  next
    case False
    obtain c cs where c: "dec_nat (nat n) = c # cs" "is_ascii_digit c" using dec_nat_Cons by blast
    then have "c \<noteq> CHR ''-''" by (auto simp: is_ascii_digit_def)
    with False c(1) show ?thesis
      using scan_digits_dec_nat [OF assms(2), where p = p and n = "nat n"] by (simp add: q_def dec_int_def)
  qed
  have f: "peek (p\<lparr>rest := r\<rparr>) \<notin> {Some (CHR ''.''), Some (CHR ''e''), Some (CHR ''E'')}"
    using assms(2) by (cases r) (auto simp: follow_def)
  have t: "take (length (rest q) - length (rest (p\<lparr>rest := r\<rparr>))) (rest q) = dec_int n"
    by (simp add: q_def)
  have "is_i64 n" using assms(1) by (auto simp: is_i64_def i64_min_def i64_max_def MAX_SAFE_INTEGER_def)
  with f assms(1) show ?thesis
    unfolding parse_number_def q_def [symmetric] s and_then_simps Let_def t by simp
qed

section \<open>Values\<close>

lemma not_ws_punctuation [simp]:
  "\<not> is_ws (CHR ''{'')" "\<not> is_ws (CHR ''}'')" "\<not> is_ws (CHR ''['')" "\<not> is_ws (CHR '']'')"
  "\<not> is_ws (CHR '','')" "\<not> is_ws (CHR '':'')" "\<not> is_ws (CHR 0x22)" "\<not> is_ws (CHR ''t'')"
  "\<not> is_ws (CHR ''f'')" "\<not> is_ws (CHR ''n'')" "\<not> is_ws (CHR ''-'')"
  by (simp_all add: is_ws_def)

lemma not_ws_digit [simp]: "is_ascii_digit b \<Longrightarrow> \<not> is_ws b"
  by (auto simp: is_ws_def is_ascii_digit_def)

definition first_of_value :: "octet \<Rightarrow> bool" where
  "first_of_value c \<longleftrightarrow> \<not> is_ws c \<and> code c < 0x80 \<and> c \<notin> {CHR '']'', CHR ''}''}"

lemma dec_int_first: "\<exists>c cs. dec_int n = c # cs \<and> (c = CHR ''-'' \<or> is_ascii_digit c)"
  using dec_nat_Cons [of "nat n"] by (auto simp: dec_int_def)

lemma write_value_first: "\<exists>c cs. write_value v = c # cs \<and> first_of_value c"
proof (cases v)
  case (Integer n)
  obtain c cs where "dec_int n = c # cs" "c = CHR ''-'' \<or> is_ascii_digit c" using dec_int_first by blast
  then show ?thesis using Integer by (auto simp: first_of_value_def) (auto simp: is_ascii_digit_def)
qed (auto simp: first_of_value_def write_string_def)

lemma dropWhile_write_value [simp]: "dropWhile is_ws (write_value v @ r) = write_value v @ r"
  using write_value_first [of v] by (auto simp: first_of_value_def)

lemma parse_value_number:
  assumes "c = CHR ''-'' \<or> is_ascii_digit c"
  shows "parse_value (p\<lparr>rest := c # cs\<rparr>) = parse_number (p\<lparr>rest := c # cs\<rparr>)"
proof -
  have "\<not> is_ws c" "c \<notin> {CHR ''{'', CHR ''['', CHR 0x22, CHR ''t'', CHR ''f'', CHR ''n''}"
    using assms by (auto simp: is_ascii_digit_def is_ws_def)
  then show ?thesis
    using assms by (auto simp add: parse_value.simps is_digit_0_9_iff)
qed

lemma parse_value_string:
  "valid_utf8 s \<Longrightarrow> parse_value (p\<lparr>rest := write_string s @ r\<rparr>) = Inr (String s, p\<lparr>rest := r\<rparr>)"
  using parse_write_string [where s = s and p = p and r = r]
  by (simp add: parse_value.simps) (simp add: write_string_def)

lemma parse_value_literals:
  "parse_value (p\<lparr>rest := ''null'' @ r\<rparr>) = Inr (Null, p\<lparr>rest := r\<rparr>)"
  "parse_value (p\<lparr>rest := ''true'' @ r\<rparr>) = Inr (Bool True, p\<lparr>rest := r\<rparr>)"
  "parse_value (p\<lparr>rest := ''false'' @ r\<rparr>) = Inr (Bool False, p\<lparr>rest := r\<rparr>)"
  by (simp_all add: parse_value.simps literal_def starts_with_def)

lemma follow_punctuation [simp]: "follow (CHR '','' # r)" "follow (CHR '']'' # r)" "follow (CHR ''}'' # r)"
  "follow []"
  by (simp_all add: follow_def)

definition reads :: "parser \<Rightarrow> json \<Rightarrow> json \<Rightarrow> bool" where
  "reads p v v' \<longleftrightarrow>
     (\<forall>r. follow r \<longrightarrow> parse_value (p\<lparr>rest := write_value v @ r\<rparr>) = Inr (v', p\<lparr>rest := r\<rparr>))"

lemma array_loop_reads:
  assumes "\<And>v. v \<in> set items \<Longrightarrow> reads p v (f v)" "items \<noteq> []"
  shows "parse_array_loop acc (p\<lparr>rest := join_with '','' (map write_value items) @ CHR '']'' # r\<rparr>) =
    Inr (Array (acc @ map f items), leave (p\<lparr>rest := r\<rparr>))"
  using assms(2,1)
proof (induction items arbitrary: acc rule: list_nonempty_induct)
  case (single v)
  then show ?case by (subst parse_array_loop.simps) (simp add: reads_def)
next
  case (cons v vs)
  then have v: "reads p v (f v)" by simp
  have "join_with '','' (map write_value (v # vs)) = write_value v @ CHR '','' # join_with '','' (map write_value vs)"
    using cons.hyps by (cases vs) simp_all
  then have "parse_array_loop acc (p\<lparr>rest := join_with '','' (map write_value (v # vs)) @ CHR '']'' # r\<rparr>) =
      parse_array_loop (acc @ [f v]) (p\<lparr>rest := join_with '','' (map write_value vs) @ CHR '']'' # r\<rparr>)"
    using v by (subst parse_array_loop.simps) (simp add: reads_def)
  with cons show ?case by simp
qed

definition write_member :: "rust_str \<times> json \<Rightarrow> octets" where
  "write_member = (\<lambda>(name, v). write_string name @ '':'' @ write_value v)"

lemma write_string_Cons: "\<exists>cs. write_string s = CHR 0x22 # cs"
  by (simp add: write_string_def)

lemma dropWhile_write_string [simp]: "dropWhile is_ws (write_string s @ r) = write_string s @ r"
  using write_string_Cons [of s] by auto

lemma object_loop_step:
  assumes "valid_utf8 k" "k \<notin> fst ` set acc" "reads p v v'" "r = c # r'" "c = CHR '','' \<or> c = CHR ''}''"
  shows "parse_object_loop acc (p\<lparr>rest := write_member (k, v) @ r\<rparr>) =
    (if c = CHR '','' then parse_object_loop (acc @ [(k, v')]) (p\<lparr>rest := r'\<rparr>)
     else Inr (Object (acc @ [(k, v')]), leave (p\<lparr>rest := r'\<rparr>)))"
proof -
  have s: "parse_string (p\<lparr>rest := write_string k @ CHR '':'' # write_value v @ r\<rparr>) =
      Inr (k, p\<lparr>rest := CHR '':'' # write_value v @ r\<rparr>)"
    using assms(1) by (rule parse_write_string)
  have pk: "peek (p\<lparr>rest := write_string k @ x\<rparr>) = Some (CHR 0x22)" for x
    using write_string_Cons [of k] by auto
  have v: "parse_value (p\<lparr>rest := write_value v @ r\<rparr>) = Inr (v', p\<lparr>rest := r\<rparr>)"
    using assms(3-5) by (auto simp: reads_def)
  have n: "\<not> list_ex (\<lambda>(k', _). k' = k) acc" using assms(2) by (force simp: list_ex_iff)
  have ws: "\<not> is_ws c" using assms(5) by auto
  show ?thesis
    unfolding parse_object_loop.simps [of acc] Let_def write_member_def
    using assms(4,5) s pk v n ws by auto
qed

lemma object_loop_reads:
  assumes "ms \<noteq> []" "\<And>k v. (k, v) \<in> set ms \<Longrightarrow> valid_utf8 k \<and> reads p v (f v)"
    "distinct (map fst ms)" "\<And>k. k \<in> fst ` set ms \<Longrightarrow> k \<notin> fst ` set acc"
  shows "parse_object_loop acc (p\<lparr>rest := join_with '','' (map write_member ms) @ CHR ''}'' # r\<rparr>) =
    Inr (Object (acc @ map (\<lambda>(k, v). (k, f v)) ms), leave (p\<lparr>rest := r\<rparr>))"
  using assms
proof (induction ms arbitrary: acc rule: list_nonempty_induct)
  case (single m)
  obtain k v where m: "m = (k, v)" by (cases m)
  with single have "valid_utf8 k" "k \<notin> fst ` set acc" "reads p v (f v)" by auto
  from object_loop_step [OF this refl] show ?case by (simp add: m)
next
  case (cons m ms)
  obtain k v where m: "m = (k, v)" by (cases m)
  have j: "join_with '','' (map write_member (m # ms)) = write_member m @ CHR '','' # join_with '','' (map write_member ms)"
    using cons.hyps by (cases ms) simp_all
  have "parse_object_loop acc (p\<lparr>rest := join_with '','' (map write_member (m # ms)) @ CHR ''}'' # r\<rparr>) =
      parse_object_loop (acc @ [(k, f v)]) (p\<lparr>rest := join_with '','' (map write_member ms) @ CHR ''}'' # r\<rparr>)"
  proof -
    have "valid_utf8 k" "k \<notin> fst ` set acc" "reads p v (f v)" using cons.prems by (auto simp: m)
    from object_loop_step [OF this refl] show ?thesis using j by (simp add: m)
  qed
  also have "\<dots> = Inr (Object ((acc @ [(k, f v)]) @ map (\<lambda>(k, v). (k, f v)) ms), leave (p\<lparr>rest := r\<rparr>))"
    using cons.prems by (intro cons.IH) (auto simp: m)
  finally show ?case by (simp add: m)
qed


lemma utf16_sort_map: "utf16_sort (map (\<lambda>(k, v). (k, f v)) ms) = map (\<lambda>(k, v). (k, f v)) (utf16_sort ms)"
proof -
  let ?g = "\<lambda>(k, v). (k, f v)" and ?key = "\<lambda>(k, _). encode_utf16 k"
  have "insort_key ?key (?g m) (map ?g xs) = map ?g (insort_key ?key m xs)" for m xs
    by (induction xs) (auto split: prod.splits)
  then show ?thesis
    unfolding utf16_sort_sort_key by (induction ms) (auto simp: sort_key_def)
qed

lemma distinct_utf16_sort: "distinct (map fst (utf16_sort ms)) = distinct (map fst ms)"
  by (simp add: distinct_map utf16_sort_sort_key)

lemma write_object: "write_value (Object ms) = CHR ''{'' # join_with '','' (map write_member (utf16_sort ms)) @ ''}''"
  by (simp add: write_member_def)

lemma enter_rest:
  "depth p < max_nesting p \<Longrightarrow> enter (p\<lparr>rest := r\<rparr>) = Inr (p\<lparr>depth := Suc (depth p), rest := r\<rparr>)"
  by (simp add: enter_def Let_def)

lemma leave_enter [simp]: "leave (p\<lparr>depth := Suc (depth p), rest := r\<rparr>) = p\<lparr>rest := r\<rparr>"
  by (simp add: leave_def)

lemma parse_write_array:
  assumes "\<And>v. v \<in> set items \<Longrightarrow> reads (p\<lparr>depth := Suc (depth p)\<rparr>) v (sort_members v)"
    and "depth p < max_nesting p"
  shows "parse_array (p\<lparr>rest := write_value (Array items) @ r\<rparr>) =
    Inr (sort_members (Array items), p\<lparr>rest := r\<rparr>)"
proof (cases items)
  case Nil
  then show ?thesis
    using assms(2) by (simp add: parse_array.simps enter_rest parser.defs leave_def)
next
  case (Cons v vs)
  let ?q = "p\<lparr>depth := Suc (depth p)\<rparr>"
  let ?body = "join_with '','' (map write_value items) @ CHR '']'' # r"
  obtain c cs where c: "?body = c # cs" "first_of_value c"
    using write_value_first [of v] by (cases vs) (auto simp: Cons)
  have e: "enter (p\<lparr>rest := CHR ''['' # ?body\<rparr>) = Inr (?q\<lparr>rest := CHR ''['' # ?body\<rparr>)"
    using assms(2) by (simp add: enter_rest)
  have "skip_ws (?q\<lparr>rest := ?body\<rparr>) = ?q\<lparr>rest := ?body\<rparr>" and "peek (?q\<lparr>rest := ?body\<rparr>) \<noteq> Some (CHR '']'')"
    using c by (auto simp: first_of_value_def)
  then have "parse_array (p\<lparr>rest := CHR ''['' # ?body\<rparr>) = parse_array_loop [] (?q\<lparr>rest := ?body\<rparr>)"
    unfolding parse_array.simps e by simp
  also have "\<dots> = Inr (sort_members (Array items), leave (?q\<lparr>rest := r\<rparr>))"
    using array_loop_reads [OF assms(1), of items "[]" r] Cons by simp
  finally show ?thesis by simp
qed

lemma parse_write_object:
  assumes "\<And>k v. (k, v) \<in> set ms \<Longrightarrow> valid_utf8 k \<and> reads (p\<lparr>depth := Suc (depth p)\<rparr>) v (sort_members v)"
    and "distinct (map fst ms)" and "depth p < max_nesting p"
  shows "parse_object (p\<lparr>rest := write_value (Object ms) @ r\<rparr>) =
    Inr (sort_members (Object ms), p\<lparr>rest := r\<rparr>)"
proof (cases "utf16_sort ms")
  case Nil
  then have "ms = []" by (metis set_utf16_sort set_empty)
  then show ?thesis
    using assms(3) by (simp add: parse_object.simps enter_rest utf16_sort_def leave_def)
next
  case (Cons m ms')
  let ?q = "p\<lparr>depth := Suc (depth p)\<rparr>"
  let ?body = "join_with '','' (map write_member (utf16_sort ms)) @ CHR ''}'' # r"
  have ne: "utf16_sort ms \<noteq> []" using Cons by simp
  obtain cs where c: "?body = CHR 0x22 # cs"
    by (cases ms'; cases m) (auto simp: Cons write_member_def write_string_def)
  have e: "enter (p\<lparr>rest := CHR ''{'' # ?body\<rparr>) = Inr (?q\<lparr>rest := CHR ''{'' # ?body\<rparr>)"
    using assms(3) by (simp add: enter_rest)
  have "skip_ws (?q\<lparr>rest := ?body\<rparr>) = ?q\<lparr>rest := ?body\<rparr>" and "peek (?q\<lparr>rest := ?body\<rparr>) \<noteq> Some (CHR ''}'')"
    using c by auto
  then have "parse_object (p\<lparr>rest := CHR ''{'' # ?body\<rparr>) = parse_object_loop [] (?q\<lparr>rest := ?body\<rparr>)"
    unfolding parse_object.simps e by simp
  also have "\<dots> = Inr (Object ([] @ map (\<lambda>(k, v). (k, sort_members v)) (utf16_sort ms)), leave (?q\<lparr>rest := r\<rparr>))"
    using assms(1,2) ne by (intro object_loop_reads) (simp_all add: distinct_utf16_sort)
  finally show ?thesis by (simp add: write_object utf16_sort_map del: write_value.simps)
qed

lemma parse_write_value:
  assumes "json_wf v" "depth p + json_depth v \<le> max_nesting p"
  shows "reads p v (sort_members v)"
  using assms
proof (induction v arbitrary: p rule: write_value.induct)
  case (3 n)
  obtain c cs where "dec_int n = c # cs" "c = CHR ''-'' \<or> is_ascii_digit c" using dec_int_first by blast
  then show ?case
    using 3 parse_write_number [of n] by (auto simp: reads_def parse_value_number)
next
  case (5 items)
  have d: "json_depth (Array items) \<le> max_nesting p - depth p" "depth p \<le> max_nesting p"
    using 5(3) by (simp_all del: depth_bound_simps)
  have "reads (p\<lparr>depth := Suc (depth p)\<rparr>) v (sort_members v)" if "v \<in> set items" for v
    using that 5(2) d by (intro 5(1)) auto
  then have "parse_array (p\<lparr>rest := write_value (Array items) @ r\<rparr>) =
      Inr (sort_members (Array items), p\<lparr>rest := r\<rparr>)" for r
    using d by (intro parse_write_array) auto
  then show ?case by (simp add: reads_def parse_value.simps)
next
  case (6 ms)
  have d: "json_depth (Object ms) \<le> max_nesting p - depth p" "depth p \<le> max_nesting p"
    using 6(3) by (simp_all del: depth_bound_simps)
  have "valid_utf8 k \<and> reads (p\<lparr>depth := Suc (depth p)\<rparr>) v (sort_members v)" if "(k, v) \<in> set ms" for k v
    using that 6(2) d by (intro conjI 6(1) [of "(k, v)"]) fastforce+
  then have "parse_object (p\<lparr>rest := write_value (Object ms) @ r\<rparr>) =
      Inr (sort_members (Object ms), p\<lparr>rest := r\<rparr>)" for r
    using d 6(2) by (intro parse_write_object) auto
  then show ?case by (simp add: reads_def parse_value.simps)
qed (auto simp: reads_def parse_value_literals [simplified] parse_value_string)


section \<open>Documents\<close>

lemma canonicalise_sort_members [simp]: "canonicalise (sort_members v) = canonicalise v"
proof -
  have i: "utf16_sort (utf16_sort ms) = utf16_sort ms" for ms :: "(rust_str \<times> 'a) list"
    unfolding utf16_sort_sort_key by (rule sort_key_id_if_sorted) simp
  have "write_value (sort_members v) = write_value v"
  proof (induction v rule: write_value.induct)
    case (6 ms)
    then have "map write_member (map (\<lambda>(k, v). (k, sort_members v)) (utf16_sort ms)) = map write_member (utf16_sort ms)"
      by (auto simp: write_member_def)
    then show ?case
      by (simp only: sort_members.simps write_object utf16_sort_map i)
  qed (auto intro!: arg_cong [of _ _ "join_with _"])
  then show ?thesis by (simp add: canonicalise_def)
qed

lemma valid_utf8_ascii_append: "list_all (\<lambda>c. code c < 0x80) s \<Longrightarrow> valid_utf8 t \<Longrightarrow> valid_utf8 (s @ t)"
  by (simp add: valid_utf8_append valid_utf8_ascii)

lemma valid_utf8_Cons: "code c < 0x80 \<Longrightarrow> valid_utf8 t \<Longrightarrow> valid_utf8 (c # t)"
  using valid_utf8_ascii_append [of "[c]" t] by simp

lemma valid_write_char: "is_scalar c \<Longrightarrow> valid_utf8 (write_char c)"
proof -
  have "code (hex_digit d) < 0x80" if "d < 16" for d
    using that by (simp add: hex_digit_def)
  then have "list_all (\<lambda>c. code c < 0x80) (fmt_04x c)" by (simp add: fmt_04x_def)
  then show "is_scalar c \<Longrightarrow> valid_utf8 (write_char c)"
    by (auto simp: write_char_def intro!: valid_utf8_Cons valid_utf8_ascii)
qed

lemma valid_utf8_concat: "(\<And>s. s \<in> set ss \<Longrightarrow> valid_utf8 s) \<Longrightarrow> valid_utf8 (concat ss)"
  by (induction ss) (auto simp: valid_utf8_append)

lemma valid_utf8_join: "valid_utf8 sep \<Longrightarrow> (\<And>s. s \<in> set ss \<Longrightarrow> valid_utf8 s) \<Longrightarrow> valid_utf8 (join_with sep ss)"
  by (induction sep ss rule: join_with.induct) (auto simp: valid_utf8_append)

lemma valid_write_string: "valid_utf8 (write_string s)"
  using str_chars_scalar [of s]
  by (auto simp: write_string_def list_all_iff
      intro!: valid_utf8_Cons valid_utf8_append valid_utf8_concat valid_write_char)

lemma valid_dec_nat: "valid_utf8 (dec_nat n)"
  using dec_nat_digits [of n]
  by (intro valid_utf8_ascii) (auto simp: list_all_iff is_ascii_digit_def)

lemma valid_write_value: "valid_utf8 (write_value v)"
  by (induction v rule: write_value.induct)
    (auto simp: dec_int_def valid_dec_nat valid_write_string
      intro!: valid_utf8_Cons valid_utf8_append valid_utf8_join)

theorem recognise_canonicalise:
  assumes "json_wf v" "json_depth v \<le> max_depth limits" "length (canonicalise v) \<le> max_bytes limits"
  shows "recognise_json (canonicalise v) limits = Inr (sort_members v)"
proof -
  define p where "p = \<lparr>rest = [], depth = 0, max_nesting = max_depth limits\<rparr>"
  have "reads p v (sort_members v)" using assms(1,2) by (intro parse_write_value) (simp_all add: p_def)
  then have "parse_value (p\<lparr>rest := write_value v @ []\<rparr>) = Inr (sort_members v, p\<lparr>rest := []\<rparr>)"
    unfolding reads_def by (metis follow_punctuation(4))
  then have r: "parse_value \<lparr>rest = write_value v, depth = 0, max_nesting = max_depth limits\<rparr> =
      Inr (sort_members v, p)"
    by (simp add: p_def)
  obtain c cs where c: "write_value v = c # cs" "first_of_value c" using write_value_first by blast
  then have "\<not> starts_with [CHR 0xEF, CHR 0xBB, CHR 0xBF] (write_value v)"
    by (auto simp: starts_with_def first_of_value_def)
  then show ?thesis
    using assms(3) valid_write_value [of v]
    by (simp add: recognise_json_def canonicalise_def r Let_def) (simp add: p_def)
qed

lemma canonicalise_inject:
  assumes "json_wf v" "json_wf w"
  shows "canonicalise v = canonicalise w \<longleftrightarrow> sort_members v = sort_members w"
proof
  define limits where "limits = \<lparr>max_bytes = length (canonicalise v), max_depth = max (json_depth v) (json_depth w)\<rparr>"
  assume e: "canonicalise v = canonicalise w"
  have "recognise_json (canonicalise v) limits = Inr (sort_members v)"
    using assms by (intro recognise_canonicalise) (simp_all add: limits_def)
  moreover have "recognise_json (canonicalise w) limits = Inr (sort_members w)"
    using assms e by (intro recognise_canonicalise) (simp_all add: limits_def)
  ultimately show "sort_members v = sort_members w" using e by simp
qed (metis canonicalise_sort_members)

lemma is_canonical_iff:
  "is_canonical input limits = Inr True \<longleftrightarrow>
     (\<exists>v. json_wf v \<and> json_depth v \<le> max_depth limits \<and> length input \<le> max_bytes limits \<and>
        input = canonicalise v)"
proof
  assume "is_canonical input limits = Inr True"
  then obtain v where "recognise_json input limits = Inr v" "input = canonicalise v"
    by (auto simp: is_canonical_def canonical_bytes_def res_iff)
  then show "\<exists>v. json_wf v \<and> json_depth v \<le> max_depth limits \<and> length input \<le> max_bytes limits \<and>
      input = canonicalise v"
    using recognise_json_wf by blast
next
  assume "\<exists>v. json_wf v \<and> json_depth v \<le> max_depth limits \<and> length input \<le> max_bytes limits \<and>
      input = canonicalise v"
  then show "is_canonical input limits = Inr True"
    by (auto simp: is_canonical_def canonical_bytes_def recognise_canonicalise)
qed

text \<open>A document recognised in its canonical spelling is in canonical order.\<close>

lemma recognise_canonical_sorted:
  assumes "recognise_json input limits = Inr v" "canonicalise v = input"
  shows "sort_members v = v"
proof -
  note wf = recognise_json_wf [OF assms(1)]
  have "recognise_json (canonicalise v) limits = Inr (sort_members v)"
    using wf assms(2) by (intro recognise_canonicalise) auto
  then show ?thesis using assms by simp
qed

section \<open>Properties\<close>

text \<open>
  C2. Whatever the recogniser returns is in the closed language: no object of it names a member
  twice, every string is UTF-8, every integer is exactly representable, and the nesting and the
  input's length are within the caller's bounds.
\<close>

theorem recognise_json_sound:
  assumes "recognise_json input limits = Inr v"
  shows "json_wf v \<and> json_depth v \<le> max_depth limits \<and> length input \<le> max_bytes limits"
  using recognise_json_wf [OF assms] by simp

theorem recognise_json_sound_witness:
  "json_wf (Object [(''a'', Array [Integer (- 1), Null])])"
  using recognise_json_sound [of "[CHR ''{'', CHR 0x22, CHR ''a'', CHR 0x22] @ '':[-1, null] }''"
      "\<lparr>max_bytes = 32, max_depth = 2\<rparr>" "Object [(''a'', Array [Integer (- 1), Null])]"]
  by code_simp

text \<open>
  C1. The canonical spelling of a document of the closed language is recognised, under every bound
  it fits, as the same document with the members of its objects in UTF-16 order.
\<close>

theorem canonicalise_recognise_roundtrip:
  assumes "json_wf v" "json_depth v \<le> max_depth limits" "length (canonicalise v) \<le> max_bytes limits"
  shows "recognise_json (canonicalise v) limits = Inr (sort_members v)"
  using assms by (rule recognise_canonicalise)

theorem canonicalise_recognise_roundtrip_witness:
  "recognise_json (canonicalise (Object [(''b'', Integer 10), (''a'', String ''x'')]))
     \<lparr>max_bytes = 20, max_depth = 1\<rparr> =
   Inr (sort_members (Object [(''b'', Integer 10), (''a'', String ''x'')]))"
  by (rule canonicalise_recognise_roundtrip) code_simp+

end
