(* ===== verification/Json_Access.thy ===== *)
theory Json_Access
  imports Json_Roundtrip
begin

text \<open>
  Reading members of a recognised document: the typed accessors of \<open>Json\<close>, and what the
  canonical member order does to them. Every recogniser above \<open>json.rs\<close> reads through these.
\<close>

section \<open>Typed members\<close>

text \<open>\<open>value.get(name).and_then(Json::as_str)\<close> and its siblings.\<close>

definition str_of :: "json \<Rightarrow> rust_str \<Rightarrow> rust_str option" where
  "str_of j name = Option.bind (get j name) as_str"

definition int_of :: "json \<Rightarrow> rust_str \<Rightarrow> int option" where
  "int_of j name = Option.bind (get j name) as_i64"

definition array_of :: "json \<Rightarrow> rust_str \<Rightarrow> json list option" where
  "array_of j name = Option.bind (get j name) as_array"

lemma get_Object_Cons:
  "get (Object ((k, v) # ms)) name = (if k = name then Some v else get (Object ms) name)"
  by (simp add: get_def)

lemma get_Object_None: "get (Object ms) name = None \<longleftrightarrow> name \<notin> fst ` set ms"
  by (induction ms) (auto simp: get_def)

lemma get_Some_mem: "get j name = Some v \<Longrightarrow> \<exists>ms. j = Object ms \<and> (name, v) \<in> set ms"
proof (cases j)
  case (Object ms)
  assume "get j name = Some v"
  then have "(name, v) \<in> set ms"
    unfolding Object by (induction ms) (auto simp: get_Object_Cons get_def [of "Object []"] split: if_splits)
  with Object show ?thesis by simp
qed (auto simp: get_def)

lemma accessor_Some_iff:
  "as_str v = Some s \<longleftrightarrow> v = String s"
  "as_i64 v = Some n \<longleftrightarrow> v = Integer n"
  "as_array v = Some items \<longleftrightarrow> v = Array items"
  "as_object v = Some ms \<longleftrightarrow> v = Object ms"
  "as_bool v = Some b \<longleftrightarrow> v = Bool b"
  by (cases v; auto)+

lemma typed_member_iff:
  "str_of j name = Some s \<longleftrightarrow> get j name = Some (String s)"
  "int_of j name = Some n \<longleftrightarrow> get j name = Some (Integer n)"
  "array_of j name = Some items \<longleftrightarrow> get j name = Some (Array items)"
  by (auto simp: str_of_def int_of_def array_of_def accessor_Some_iff bind_eq_Some_conv)

text \<open>The members of an object, by name.\<close>

definition has_members :: "json \<Rightarrow> rust_str list \<Rightarrow> rust_str list \<Rightarrow> bool" where
  "has_members j required optional \<longleftrightarrow>
     (\<exists>ms. j = Object ms \<and> set required \<subseteq> fst ` set ms \<and> fst ` set ms \<subseteq> set required \<union> set optional)"

section \<open>Member order\<close>

lemma get_Object: "get (Object ms) name = map_of ms name"
  by (induction ms) (auto simp: get_def)

lemma get_sort_members:
  assumes "json_wf j"
  shows "get (sort_members j) name = map_option sort_members (get j name)"
proof (cases j)
  case (Object ms)
  define ns where "ns = map (\<lambda>(k, v). (k, sort_members v)) ms"
  have "map fst ns = map fst ms" by (auto simp: ns_def)
  then have "distinct (map fst ns)" using assms Object by simp
  then have "map_of (utf16_sort ns) = map_of ns"
    by (intro map_of_inject_set [THEN iffD2]) (simp_all add: distinct_utf16_sort)
  then show ?thesis by (simp add: Object get_Object ns_def [symmetric]) (simp add: ns_def map_of_map)
qed (auto simp: get_def)

lemma typed_member_sort_members:
  assumes "json_wf j"
  shows "str_of (sort_members j) name = str_of j name" "int_of (sort_members j) name = int_of j name"
proof -
  have "as_str (sort_members v) = as_str v" "as_i64 (sort_members v) = as_i64 v" for v
    by (cases v; simp)+
  then show "str_of (sort_members j) name = str_of j name" "int_of (sort_members j) name = int_of j name"
    by (cases "get j name"; simp add: str_of_def int_of_def get_sort_members [OF assms])+
qed

lemma json_wf_get: "json_wf j \<Longrightarrow> get j name = Some v \<Longrightarrow> json_wf v"
  by (cases j) (auto simp: get_Object dest!: map_of_SomeD, auto simp: get_def)

lemma names_sort_members:
  "(\<exists>ms. sort_members j = Object ms \<and> P (fst ` set ms)) \<longleftrightarrow> (\<exists>ms. j = Object ms \<and> P (fst ` set ms))"
proof (cases j)
  case (Object ms)
  have "fst ` set (utf16_sort (map (\<lambda>(k, v). (k, sort_members v)) ms)) = fst ` set ms"
    by (auto simp: image_image case_prod_beta)
  then show ?thesis by (simp add: Object)
qed auto

lemma has_members_sort_members: "has_members (sort_members j) req opt \<longleftrightarrow> has_members j req opt"
  unfolding has_members_def
  by (rule names_sort_members [where P = "\<lambda>names. set req \<subseteq> names \<and> names \<subseteq> set req \<union> set opt"])

lemma try_map_strings:
  "try_map (\<lambda>item. ok_or e (as_str item)) items = Inr ps \<longleftrightarrow> items = map String ps"
  by (induction items arbitrary: ps) (auto simp: res_iff accessor_Some_iff list_all2_Cons1)

section \<open>How long a canonical text is\<close>

text \<open>An upper bound read off the document: six octets for every octet of a string.\<close>

fun text_bound :: "json \<Rightarrow> nat" where
  "text_bound (String s) = 6 * length s + 2"
| "text_bound (Integer n) = length (dec_int n)"
| "text_bound (Array items) = 2 + sum_list (map (\<lambda>v. text_bound v + 1) items)"
| "text_bound (Object ms) = 2 + sum_list (map (\<lambda>(k, v). 6 * length k + text_bound v + 4) ms)"
| "text_bound _ = 5"

lemma length_write_char: "length (write_char c) \<le> 6"
  by (simp add: write_char_def fmt_04x_def encode_utf8_def)

lemma length_str_chars: "length (str_chars s) \<le> length s"
proof (cases "utf8_chars s")
  case (Some ns)
  have "utf8_chars s = Some ns \<Longrightarrow> length ns \<le> length s"
  proof (induction s arbitrary: ns rule: utf8_chars.induct)
    case (1 s)
    show ?case
    proof (cases "s = []")
      case False
      then obtain n r ms where u: "utf8_next s = Some (n, r)" "utf8_chars r = Some ms" "ns = n # ms"
        using "1.prems" by (subst (asm) utf8_chars.simps) (auto split: option.splits)
      then show ?thesis using "1.IH" [OF False u(1) refl u(2)] utf8_next_shrinks [OF u(1)] by simp
    qed (use "1.prems" in \<open>simp add: utf8_chars.simps\<close>)
  qed
  with Some show ?thesis by (simp add: str_chars_def)
qed (simp add: str_chars_def)

lemma length_write_string: "length (write_string s) \<le> 6 * length s + 2"
proof -
  have "length (concat (map write_char ns)) \<le> 6 * length ns" for ns
  proof (induction ns)
    case (Cons n ns)
    then show ?case using length_write_char [of n] by simp
  qed simp
  from this [of "str_chars s"] length_str_chars [of s] show ?thesis by (simp add: write_string_def)
qed

lemma length_join_with: "length (join_with [c] ss) \<le> sum_list (map (\<lambda>s. length s + 1) ss)"
  by (induction "[c]" ss rule: join_with.induct) auto

lemma sum_list_utf16_sort: "sum_list (map f (utf16_sort ms)) = (sum_list (map f ms) :: nat)"
proof -
  have ins: "sum_list (map f (insort_key g x xs)) = f x + sum_list (map f xs)" for g :: "_ \<Rightarrow> nat list" and x xs
    by (induction xs) auto
  show ?thesis by (induction ms) (simp_all add: utf16_sort_def ins)
qed

lemma length_canonicalise: "length (canonicalise j) \<le> text_bound j"
  unfolding canonicalise_def
proof (induction j)
  case (Array items)
  have "length (write_value (Array items)) \<le> 2 + sum_list (map (\<lambda>v. length (write_value v) + 1) items)"
    using length_join_with [of "CHR '',''" "map write_value items"] by (simp add: o_def)
  also have "\<dots> \<le> 2 + sum_list (map (\<lambda>v. text_bound v + 1) items)"
    using Array by (intro add_left_mono sum_list_mono) auto
  finally show ?case by simp
next
  case (Object ms)
  define w where "w = (\<lambda>(k, v). write_string k @ '':'' @ write_value v)"
  have "length (write_value (Object ms)) \<le> 2 + sum_list (map (\<lambda>m. length (w m) + 1) (utf16_sort ms))"
    using length_join_with [of "CHR '',''" "map w (utf16_sort ms)"] by (simp add: o_def w_def)
  also have "\<dots> = 2 + sum_list (map (\<lambda>m. length (w m) + 1) ms)" by (simp add: sum_list_utf16_sort)
  also have "\<dots> \<le> 2 + sum_list (map (\<lambda>(k, v). 6 * length k + text_bound v + 4) ms)"
  proof (intro add_left_mono sum_list_mono)
    fix m assume "m \<in> set ms"
    obtain k v where m: "m = (k, v)" by (cases m)
    have "length (write_value v) \<le> text_bound v" using Object \<open>m \<in> set ms\<close> by (force simp: m)
    then show "length (w m) + 1 \<le> (case m of (k, v) \<Rightarrow> 6 * length k + text_bound v + 4)"
      using length_write_string [of k] by (simp add: m w_def)
  qed
  finally show ?case by simp
qed (use length_write_string in \<open>simp_all\<close>)

end
