(* ===== verification/Uri.thy ===== *)
theory Uri
  imports Rust_Std Codec
begin

text \<open>
  The HTTPS URI recogniser of \<open>uri.rs\<close>. It decides membership in a grammar and returns substrings
  of its input; the lemmas give the grammar declaratively and show that the recogniser accepts
  exactly the texts it generates, and takes each apart in the one way that puts it together again.
\<close>

section \<open>Policies, errors, components\<close>

datatype uri_error =
    NotHttps | HasUserInfo | HasQuery | HasFragment | MissingFragment | BadHost | BadPort | BadPath
  | BadCharacter | BadPercentEncoding

datatype path_rule = PathForbidden | AnyPath | NonEmptyNoDotSegments

datatype fragment_rule = FragmentForbidden | RequiredNonEmpty

record uri_policy =
  policy_path :: path_rule
  policy_fragment :: fragment_rule

definition APPLICATION_ID :: uri_policy where
  "APPLICATION_ID = \<lparr>policy_path = NonEmptyNoDotSegments, policy_fragment = FragmentForbidden\<rparr>"

definition FRAGMENT_ID :: uri_policy where
  "FRAGMENT_ID = \<lparr>policy_path = AnyPath, policy_fragment = RequiredNonEmpty\<rparr>"

definition ORIGIN :: uri_policy where
  "ORIGIN = \<lparr>policy_path = PathForbidden, policy_fragment = FragmentForbidden\<rparr>"

definition PROVIDER_URL :: uri_policy where
  "PROVIDER_URL = \<lparr>policy_path = AnyPath, policy_fragment = FragmentForbidden\<rparr>"

record https_uri =
  origin :: rust_str
  host :: rust_str
  port :: "nat option"
  uri_path :: rust_str
  fragment :: "rust_str option"

section \<open>The recogniser\<close>

definition is_ldh :: "octet \<Rightarrow> bool" where
  "is_ldh b \<longleftrightarrow> is_ascii_lowercase b \<or> is_ascii_digit b \<or> b = CHR ''-''"

definition recognise_label :: "rust_str \<Rightarrow> uri_error + unit" where
  "recognise_label label =
     (if label = [] \<or> length label > 63 then Inl BadHost
      else if hd label = CHR ''-'' \<or> last label = CHR ''-'' then Inl BadHost
      else if \<not> list_all is_ldh label then Inl BadHost
      else Inr ())"

definition recognise_host :: "rust_str \<Rightarrow> uri_error + unit" where
  "recognise_host h =
     (if h = [] \<or> length h > 253 then Inl BadHost
      else
        let labels = split_on (CHR ''.'') h in
        and_then (try_each recognise_label labels) (\<lambda>_.
        if list_all is_ascii_digit (last labels) then Inl BadHost else Inr ()))"

definition recognise_dns_name :: "rust_str \<Rightarrow> uri_error + unit" where
  "recognise_dns_name s = recognise_host s"

definition recognise_port :: "rust_str \<Rightarrow> uri_error + nat" where
  "recognise_port s =
     (if s = [] \<or> length s > 5 \<or> \<not> list_all is_ascii_digit s then Inl BadPort
      else if hd s = CHR ''0'' then Inl BadPort
      else and_then (ok_or BadPort (parse_u16 s)) (\<lambda>number.
        if number = 443 then Inl BadPort else Inr number))"

definition is_unreserved :: "octet \<Rightarrow> bool" where
  "is_unreserved b \<longleftrightarrow> is_ascii_alphanumeric b \<or> b \<in> set ''-._~''"

definition is_pchar :: "octet \<Rightarrow> bool" where
  "is_pchar b \<longleftrightarrow> is_unreserved b \<or> b \<in> set ''!$&()*+,;=:@'' \<or> b = CHR 0x27"

definition is_hex_upper :: "octet \<Rightarrow> bool" where
  "is_hex_upper c \<longleftrightarrow> is_ascii_digit c \<or> (65 \<le> code c \<and> code c \<le> 70)"

text \<open>\<open>u8::from_str_radix(pair, 16)\<close> of two upper-case hexadecimal digits.\<close>

definition hex_upper_value :: "octet \<Rightarrow> nat" where
  "hex_upper_value c = (if is_ascii_digit c then code c - 48 else code c - 55)"

definition decoded_octet :: "octet \<Rightarrow> octet \<Rightarrow> octet" where
  "decoded_octet h l = char_of (hex_upper_value h * 16 + hex_upper_value l)"

fun recognise_pchars :: "rust_str \<Rightarrow> uri_error + unit" where
  "recognise_pchars [] = Inr ()"
| "recognise_pchars (b # bs) =
     (if b = CHR ''%'' then
        (case bs of
           h # l # r \<Rightarrow>
             if \<not> (is_hex_upper h \<and> is_hex_upper l) then Inl BadPercentEncoding
             else if is_unreserved (decoded_octet h l) then Inl BadPercentEncoding
             else recognise_pchars r
         | _ \<Rightarrow> Inl BadPercentEncoding)
      else if \<not> is_pchar b then Inl BadCharacter
      else recognise_pchars bs)"

definition is_dot_segment :: "rust_str \<Rightarrow> bool" where
  "is_dot_segment s \<longleftrightarrow> s = ''.'' \<or> s = ''..''"

definition recognise_path :: "rust_str \<Rightarrow> path_rule \<Rightarrow> uri_error + unit" where
  "recognise_path p rule =
     (if rule = PathForbidden then (if p = [] then Inr () else Inl BadPath)
      else if p = [] then
        (case rule of NonEmptyNoDotSegments \<Rightarrow> Inl BadPath | _ \<Rightarrow> Inr ())
      else and_then (ok_or BadPath (strip_prefix ''/'' p)) (\<lambda>path_without_slash.
        let segments = split_on (CHR ''/'') path_without_slash in
        if rule = NonEmptyNoDotSegments \<and> list_ex (\<lambda>s. s = [] \<or> is_dot_segment s) segments
        then Inl BadPath
        else if list_ex is_dot_segment segments then Inl BadPath
        else try_each recognise_pchars segments))"

fun recognise_fragment :: "fragment_rule \<Rightarrow> rust_str option \<Rightarrow> uri_error + unit" where
  "recognise_fragment FragmentForbidden (Some _) = Inl HasFragment"
| "recognise_fragment RequiredNonEmpty None = Inl MissingFragment"
| "recognise_fragment RequiredNonEmpty (Some []) = Inl MissingFragment"
| "recognise_fragment RequiredNonEmpty (Some f) = recognise_pchars f"
| "recognise_fragment FragmentForbidden None = Inr ()"

text \<open>\<open>rest.find(['/', '#'])\<close>, then the two halves.\<close>

definition ends_authority :: "octet \<Rightarrow> bool" where
  "ends_authority c \<longleftrightarrow> c = CHR ''/'' \<or> c = CHR ''#''"

definition recognise_uri :: "rust_str \<Rightarrow> uri_policy \<Rightarrow> uri_error + https_uri" where
  "recognise_uri s policy =
     and_then (ok_or NotHttps (strip_prefix ''https://'' s)) (\<lambda>after_scheme.
     if CHR ''?'' \<in> set after_scheme then Inl HasQuery
     else
       let authority = takeWhile (\<lambda>c. \<not> ends_authority c) after_scheme;
           tail = dropWhile (\<lambda>c. \<not> ends_authority c) after_scheme in
       if CHR ''@'' \<in> set authority then Inl HasUserInfo
       else and_then
         (case rsplit_once (CHR '':'') authority of
            Some (h, p) \<Rightarrow> and_then (recognise_port p) (\<lambda>n. Inr (h, Some n))
          | None \<Rightarrow> Inr (authority, None)) (\<lambda>(h, p).
       and_then (recognise_host h) (\<lambda>_.
       let (pth, frag) = (case split_once (CHR ''#'') tail of
            Some (q, f) \<Rightarrow> (q, Some f)
          | None \<Rightarrow> (tail, None)) in
       and_then (recognise_path pth (policy_path policy)) (\<lambda>_.
       and_then (recognise_fragment (policy_fragment policy) frag) (\<lambda>_.
       and_then (ok_or BadCharacter (strip_suffix tail s)) (\<lambda>orig.
       Inr \<lparr>origin = orig, host = h, port = p, uri_path = pth, fragment = frag\<rparr>))))))"

section \<open>The grammar\<close>

definition label_ok :: "rust_str \<Rightarrow> bool" where
  "label_ok l \<longleftrightarrow> 1 \<le> length l \<and> length l \<le> 63 \<and> list_all is_ldh l \<and> hd l \<noteq> CHR ''-'' \<and> last l \<noteq> CHR ''-''"

definition dns_name :: "rust_str \<Rightarrow> bool" where
  "dns_name h \<longleftrightarrow> length h \<le> 253 \<and>
     (\<exists>labels. labels \<noteq> [] \<and> h = join_with ''.'' labels \<and> list_all label_ok labels \<and>
        \<not> list_all is_ascii_digit (last labels))"

text \<open>A run of \<open>pchar\<close>: literal characters, and encodings of octets that need one.\<close>

inductive pchars :: "rust_str \<Rightarrow> bool" where
  pchars_Nil: "pchars []"
| pchars_literal: "is_pchar b \<Longrightarrow> pchars r \<Longrightarrow> pchars (b # r)"
| pchars_encoded: "is_hex_upper h \<Longrightarrow> is_hex_upper l \<Longrightarrow> \<not> is_unreserved (decoded_octet h l) \<Longrightarrow>
    pchars r \<Longrightarrow> pchars (CHR ''%'' # h # l # r)"

inductive_cases pchars_ConsE: "pchars (b # r)"

definition path_text :: "rust_str list \<Rightarrow> rust_str" where
  "path_text segments = concat (map (\<lambda>s. CHR ''/'' # s) segments)"

fun path_ok :: "path_rule \<Rightarrow> rust_str \<Rightarrow> bool" where
  "path_ok PathForbidden p \<longleftrightarrow> p = []"
| "path_ok rule p \<longleftrightarrow>
     (\<exists>segments. p = path_text segments \<and> (\<forall>s \<in> set segments. CHR ''/'' \<notin> set s \<and> pchars s \<and> \<not> is_dot_segment s) \<and>
        (rule = NonEmptyNoDotSegments \<longrightarrow> segments \<noteq> [] \<and> [] \<notin> set segments))"

fun fragment_ok :: "fragment_rule \<Rightarrow> rust_str option \<Rightarrow> bool" where
  "fragment_ok FragmentForbidden f \<longleftrightarrow> f = None"
| "fragment_ok RequiredNonEmpty f \<longleftrightarrow> (\<exists>s. f = Some s \<and> s \<noteq> [] \<and> pchars s)"

definition port_ok :: "nat option \<Rightarrow> bool" where
  "port_ok p \<longleftrightarrow> (case p of None \<Rightarrow> True | Some n \<Rightarrow> 0 < n \<and> n < 65536 \<and> n \<noteq> 443)"

definition port_text :: "nat option \<Rightarrow> rust_str" where
  "port_text p = (case p of None \<Rightarrow> [] | Some n \<Rightarrow> CHR '':'' # dec_nat n)"

definition fragment_text :: "rust_str option \<Rightarrow> rust_str" where
  "fragment_text f = (case f of None \<Rightarrow> [] | Some s \<Rightarrow> CHR ''#'' # s)"

definition uri_text :: "https_uri \<Rightarrow> rust_str" where
  "uri_text u = origin u @ uri_path u @ fragment_text (fragment u)"

definition uri_ok :: "uri_policy \<Rightarrow> https_uri \<Rightarrow> bool" where
  "uri_ok policy u \<longleftrightarrow>
     origin u = ''https://'' @ host u @ port_text (port u) \<and> dns_name (host u) \<and> port_ok (port u) \<and>
     path_ok (policy_path policy) (uri_path u) \<and> fragment_ok (policy_fragment policy) (fragment u)"

section \<open>The recogniser accepts the grammar\<close>

lemma recognise_label_iff: "recognise_label l = Inr u \<longleftrightarrow> label_ok l"
  by (cases l) (auto simp: recognise_label_def label_ok_def)

lemma label_no_dot: "label_ok l \<Longrightarrow> CHR ''.'' \<notin> set l"
  by (auto simp: label_ok_def list_all_iff is_ldh_def ascii_class_defs)

lemma recognise_host_iff: "recognise_host h = Inr u \<longleftrightarrow> dns_name h"
proof
  assume "recognise_host h = Inr u"
  then have "length h \<le> 253" "\<forall>l \<in> set (split_on (CHR ''.'') h). label_ok l"
    "\<not> list_all is_ascii_digit (last (split_on (CHR ''.'') h))"
    by (auto simp: recognise_host_def Let_def res_iff recognise_label_iff split: if_splits)
  then show "dns_name h"
    unfolding dns_name_def list_all_iff by (metis join_split_on split_on_not_Nil)
next
  assume "dns_name h"
  then obtain labels where l: "length h \<le> 253" "labels \<noteq> []" "h = join_with ''.'' labels"
    "list_all label_ok labels" "\<not> list_all is_ascii_digit (last labels)"
    by (auto simp: dns_name_def)
  have s: "split_on (CHR ''.'') h = labels"
    unfolding l(3) using l(2,4) label_no_dot by (intro split_on_join) (auto simp: list_all_iff)
  have "h \<noteq> []"
  proof
    assume "h = []"
    with s have "labels = [[]]" by simp
    with l(4) show False by (simp add: label_ok_def)
  qed
  then show "recognise_host h = Inr u"
    using l s by (auto simp: recognise_host_def res_iff recognise_label_iff list_all_iff)
qed

lemma dec_digit_of_code: "is_ascii_digit c \<Longrightarrow> dec_digit (code c - 48) = c"
  by (rule digit_char_eq) (auto simp: code_dec_digit is_ascii_digit_def)

lemma dec_nat_dec_value:
  "list_all is_ascii_digit s \<Longrightarrow> s \<noteq> [] \<Longrightarrow> hd s \<noteq> CHR ''0'' \<Longrightarrow> dec_nat (dec_value s) = s"
proof (induction s rule: rev_induct)
  case (snoc c s)
  have c: "is_ascii_digit c" "code c - 48 < 10"
    using snoc.prems(1) by (auto simp: is_ascii_digit_def)
  show ?case
  proof (cases "s = []")
    case True
    with c show ?thesis by (simp add: dec_value_def dec_digit_of_code)
  next
    case False
    with snoc have s: "dec_nat (dec_value s) = s" and z: "hd s \<noteq> CHR ''0''" by auto
    have "dec_digit 0 = CHR ''0''" by (simp add: dec_digit_def char_of_eq_iff')
    with s z have "dec_value s \<noteq> 0" by (metis dec_nat_small list.sel(1) zero_less_numeral)
    then have "dec_nat (10 * dec_value s + (code c - 48)) = dec_nat (dec_value s) @ [dec_digit (code c - 48)]"
      using c(2) by (subst dec_nat_big) simp_all
    with s c(1) show ?thesis by (simp add: dec_value_snoc dec_digit_of_code)
  qed
qed simp

lemma dec_nat_hd: "0 < n \<Longrightarrow> hd (dec_nat n) \<noteq> CHR ''0''"
proof (induction n rule: dec_nat.induct)
  case (1 n)
  show ?case
  proof (cases "n < 10")
    case True
    then have "code (dec_digit n) \<noteq> code CHR ''0''" using 1(2) by (simp add: code_dec_digit)
    with True show ?thesis by auto
  next
    case False
    with 1 show ?thesis by (simp add: dec_nat_big)
  qed
qed

lemma recognise_port_iff: "recognise_port s = Inr n \<longleftrightarrow> s = dec_nat n \<and> port_ok (Some n)"
proof
  assume a: "recognise_port s = Inr n"
  then have s: "s \<noteq> []" "list_all is_ascii_digit s" "hd s \<noteq> CHR ''0''" and n: "parse_u16 s = Some n" "n \<noteq> 443"
    by (auto simp: recognise_port_def res_iff split: if_splits)
  then obtain c cs where c: "s = c # cs" by (cases s) auto
  then have "c \<noteq> CHR ''+''" using s(2) by (auto simp: is_ascii_digit_def)
  then have v: "n = dec_value s" "n < 65536"
    using n(1) s(2) by (auto simp: parse_u16_def c parse_digits_def bind_eq_Some_conv split: if_splits)
  have d: "dec_nat n = s" using s dec_nat_dec_value by (simp add: v(1))
  have "n \<noteq> 0"
  proof
    assume "n = 0"
    then have "s = [dec_digit 0]" using d by simp
    moreover have "dec_digit 0 = CHR ''0''" by (simp add: dec_digit_def char_of_eq_iff')
    ultimately show False using s(3) by simp
  qed
  with d v(2) n(2) show "s = dec_nat n \<and> port_ok (Some n)" by (simp add: port_ok_def)
next
  assume "s = dec_nat n \<and> port_ok (Some n)"
  then have s: "s = dec_nat n" and n: "0 < n" "n < 65536" "n \<noteq> 443" by (auto simp: port_ok_def)
  obtain c cs where c: "dec_nat n = c # cs" "is_ascii_digit c" using dec_nat_Cons by blast
  then have "c \<noteq> CHR ''+''" by (auto simp: is_ascii_digit_def)
  moreover have "parse_digits (c # cs) = Some n" using parse_digits_dec_nat [of n] by (simp add: c(1))
  ultimately have "parse_u16 s = Some n" using n by (simp add: parse_u16_def s c(1))
  moreover have "length (dec_nat n) \<le> 5" using n by (intro length_dec_nat_le) simp_all
  ultimately show "recognise_port s = Inr n"
    using n dec_nat_hd [of n] dec_nat_digits [of n] by (simp add: recognise_port_def s)
qed

lemma recognise_pchars_iff: "recognise_pchars s = Inr u \<longleftrightarrow> pchars s"
proof
  have p: "\<not> is_pchar (CHR ''%'')"
    by (simp add: is_pchar_def is_unreserved_def ascii_class_defs)
  show "recognise_pchars s = Inr u \<Longrightarrow> pchars s"
    by (induction s rule: recognise_pchars.induct)
      (auto intro: pchars.intros split: if_splits list.splits)
  show "pchars s \<Longrightarrow> recognise_pchars s = Inr u"
    by (induction rule: pchars.induct) (use p in auto)
qed

declare recognise_pchars.simps [simp del]

lemma pchars_alphabet: "pchars s \<Longrightarrow> c \<in> set s \<Longrightarrow> is_pchar c \<or> c = CHR ''%'' \<or> is_hex_upper c"
  by (induction rule: pchars.induct) auto

lemma pchars_no_punctuation: "pchars s \<Longrightarrow> CHR ''/'' \<notin> set s \<and> CHR ''#'' \<notin> set s \<and> CHR ''?'' \<notin> set s"
  using pchars_alphabet [of s "CHR ''/''"] pchars_alphabet [of s "CHR ''#''"] pchars_alphabet [of s "CHR ''?''"]
  by (auto simp: is_pchar_def is_unreserved_def is_hex_upper_def ascii_class_defs)

lemma path_text_split: "segments \<noteq> [] \<Longrightarrow> path_text segments = CHR ''/'' # join_with ''/'' segments"
  unfolding path_text_def by (induction segments rule: list_nonempty_induct) (auto, case_tac xs, auto)

lemma path_text_Cons: "path_text (split_on (CHR ''/'') q) = CHR ''/'' # q"
  by (simp add: path_text_split join_split_on)

lemma split_on_path:
  "segments \<noteq> [] \<Longrightarrow> (\<forall>s \<in> set segments. CHR ''/'' \<notin> set s) \<Longrightarrow>
   split_on (CHR ''/'') (join_with ''/'' segments) = segments"
  by (intro split_on_join) auto

lemma recognise_path_iff: "recognise_path p rule = Inr u \<longleftrightarrow> path_ok rule p"
proof (cases "rule = PathForbidden")
  case False
  have e: "path_ok rule p \<longleftrightarrow> (\<exists>segments. p = path_text segments \<and>
      (\<forall>s \<in> set segments. CHR ''/'' \<notin> set s \<and> pchars s \<and> \<not> is_dot_segment s) \<and>
      (rule = NonEmptyNoDotSegments \<longrightarrow> segments \<noteq> [] \<and> [] \<notin> set segments))"
    using False by (cases rule) auto
  show ?thesis
  proof (cases "p = []")
    case True
    then have "path_ok rule p \<longleftrightarrow> rule = AnyPath"
      using False unfolding e by (cases rule) (auto simp: path_text_def)
    with True False show ?thesis by (cases rule) (auto simp: recognise_path_def)
  next
    case nonempty: False
    show ?thesis
    proof
      assume r: "recognise_path p rule = Inr u"
      then obtain q where q: "p = CHR ''/'' # q"
        using False nonempty by (auto simp: recognise_path_def res_iff strip_prefix_Some_iff)
      have "path_text (split_on (CHR ''/'') q) = p" by (simp add: q path_text_Cons)
      moreover have "\<forall>s \<in> set (split_on (CHR ''/'') q). CHR ''/'' \<notin> set s" by (auto dest: split_on_pieces)
      ultimately show "path_ok rule p"
        unfolding e using r False nonempty q
        by (intro exI [of _ "split_on (CHR ''/'') q"])
          (auto simp: recognise_path_def res_iff strip_prefix_Some_iff Let_def list_ex_iff
            recognise_pchars_iff split: if_splits)
    next
      assume "path_ok rule p"
      then obtain segments where s: "p = path_text segments" "\<forall>s \<in> set segments. CHR ''/'' \<notin> set s"
        "\<forall>s \<in> set segments. pchars s \<and> \<not> is_dot_segment s"
        "rule = NonEmptyNoDotSegments \<longrightarrow> segments \<noteq> [] \<and> [] \<notin> set segments"
        unfolding e by blast
      have n: "segments \<noteq> []" using s(1) nonempty by (auto simp: path_text_def)
      then have p: "p = ''/'' @ join_with ''/'' segments" using s(1) path_text_split by simp
      show "recognise_path p rule = Inr u"
        unfolding recognise_path_def p strip_prefix_append ok_or_simps and_then_simps Let_def
          split_on_path [OF n s(2)]
        using False s(3,4) by (auto simp: list_ex_iff res_iff recognise_pchars_iff)
    qed
  qed
qed (auto simp: recognise_path_def)

lemma recognise_fragment_iff: "recognise_fragment rule f = Inr u \<longleftrightarrow> fragment_ok rule f"
  by (cases "(rule, f)" rule: recognise_fragment.cases) (auto simp: recognise_pchars_iff)


section \<open>Taking a URI apart\<close>

lemma set_join_with: "set (join_with sep ps) \<subseteq> set sep \<union> \<Union> (set ` set ps)"
  by (induction sep ps rule: join_with.induct) auto

lemma dns_name_alphabet: "dns_name h \<Longrightarrow> c \<in> set h \<Longrightarrow> is_ldh c \<or> c = CHR ''.''"
  using set_join_with [of "''.''"] by (fastforce simp: dns_name_def label_ok_def list_all_iff)

lemma port_text_alphabet: "c \<in> set (port_text p) \<Longrightarrow> is_ascii_digit c \<or> c = CHR '':''"
  using dec_nat_digits by (auto simp: port_text_def list_all_iff split: option.splits)

definition authority_ok :: "octet \<Rightarrow> bool" where
  "authority_ok c \<longleftrightarrow> \<not> ends_authority c \<and> c \<noteq> CHR ''?'' \<and> c \<noteq> CHR ''@''"

lemma authority_alphabet:
  assumes "dns_name h" "c \<in> set (h @ port_text p)"
  shows "authority_ok c"
proof -
  have "is_ldh c \<or> c = CHR ''.'' \<or> c = CHR '':''"
    using assms dns_name_alphabet port_text_alphabet by (auto simp: is_ldh_def)
  then show ?thesis by (auto simp: authority_ok_def ends_authority_def is_ldh_def ascii_class_defs)
qed

lemma rsplit_authority:
  assumes "dns_name h"
  shows "rsplit_once (CHR '':'') (h @ port_text p) =
    (case p of None \<Rightarrow> None | Some n \<Rightarrow> Some (h, dec_nat n))"
proof (cases p)
  case None
  have "\<not> is_ldh (CHR '':'')" by (simp add: is_ldh_def ascii_class_defs)
  then have "CHR '':'' \<notin> set h" using dns_name_alphabet [OF assms] by force
  with None show ?thesis by (simp add: port_text_def rsplit_once_None_iff)
next
  case (Some n)
  have "CHR '':'' \<notin> set (dec_nat n)"
    using dec_nat_digits [of n] by (auto simp: list_all_iff is_ascii_digit_def)
  with Some show ?thesis by (simp add: port_text_def rsplit_once_Some_iff)
qed

lemma path_ok_shape:
  assumes "path_ok rule p"
  shows "p = [] \<or> hd p = CHR ''/''" "CHR ''#'' \<notin> set p" "CHR ''?'' \<notin> set p"
proof -
  obtain segments where s: "p = path_text segments" "\<forall>s \<in> set segments. pchars s"
    using assms by (cases rule) (auto simp: path_text_def intro: that [of "[]"])
  show "p = [] \<or> hd p = CHR ''/''" by (cases segments) (simp_all add: s(1) path_text_def)
  show "CHR ''#'' \<notin> set p" "CHR ''?'' \<notin> set p"
    using s(2) pchars_no_punctuation by (auto simp: s(1) path_text_def)
qed

lemma fragment_ok_shape: "fragment_ok rule f \<Longrightarrow> CHR ''?'' \<notin> set (fragment_text f)"
  using pchars_no_punctuation by (cases rule) (auto simp: fragment_text_def)

lemma tail_shape:
  assumes "path_ok rule p"
  shows "dropWhile (\<lambda>c. \<not> ends_authority c) (p @ fragment_text f) = p @ fragment_text f"
    "takeWhile (\<lambda>c. \<not> ends_authority c) (p @ fragment_text f) = []"
  using path_ok_shape(1) [OF assms]
  by (cases p; force simp: ends_authority_def fragment_text_def split: option.splits)+

lemma split_tail:
  assumes "path_ok rule p"
  shows "split_once (CHR ''#'') (p @ fragment_text f) = (case f of None \<Rightarrow> None | Some s \<Rightarrow> Some (p, s))"
  using path_ok_shape(2) [OF assms]
  by (cases f) (simp_all add: fragment_text_def split_once_Some_iff split_once_None_iff)

lemma recognise_uri_complete:
  assumes "uri_ok policy u"
  shows "recognise_uri (uri_text u) policy = Inr u"
proof -
  have o: "origin u = ''https://'' @ host u @ port_text (port u)" and h: "dns_name (host u)"
    and p: "port_ok (port u)" and q: "path_ok (policy_path policy) (uri_path u)"
    and f: "fragment_ok (policy_fragment policy) (fragment u)"
    using assms by (simp_all add: uri_ok_def)
  let ?auth = "host u @ port_text (port u)" and ?tail = "uri_path u @ fragment_text (fragment u)"
  have s: "uri_text u = ''https://'' @ ?auth @ ?tail" by (simp add: uri_text_def o)
  have a: "authority_ok c" if "c \<in> set ?auth" for c using authority_alphabet [OF h that] .
  have t: "takeWhile (\<lambda>c. \<not> ends_authority c) (?auth @ ?tail) = ?auth"
    "dropWhile (\<lambda>c. \<not> ends_authority c) (?auth @ ?tail) = ?tail"
    using a tail_shape [OF q] by (auto simp: authority_ok_def takeWhile_append2 dropWhile_append2)
  have n: "CHR ''?'' \<notin> set (?auth @ ?tail)" "CHR ''@'' \<notin> set ?auth"
    using a path_ok_shape(3) [OF q] fragment_ok_shape [OF f] by (auto simp: authority_ok_def)
  have port: "(case rsplit_once (CHR '':'') ?auth of
      Some (h, p) \<Rightarrow> and_then (recognise_port p) (\<lambda>n. Inr (h, Some n))
    | None \<Rightarrow> Inr (?auth, None)) = Inr (host u, port u)"
  proof (cases "port u")
    case None
    then show ?thesis using rsplit_authority [OF h, of "port u"] by (simp add: port_text_def)
  next
    case (Some k)
    then have "recognise_port (dec_nat k) = Inr k" using p by (simp add: recognise_port_iff)
    with Some show ?thesis using rsplit_authority [OF h, of "port u"] by simp
  qed
  have tail: "(case split_once (CHR ''#'') ?tail of Some (q, f) \<Rightarrow> (q, Some f) | None \<Rightarrow> (?tail, None)) =
      (uri_path u, fragment u)"
    unfolding split_tail [OF q] by (cases "fragment u") (simp_all add: fragment_text_def)
  have steps: "recognise_host (host u) = Inr ()" "recognise_path (uri_path u) (policy_path policy) = Inr ()"
    "recognise_fragment (policy_fragment policy) (fragment u) = Inr ()"
    using h q f by (simp_all add: recognise_host_iff recognise_path_iff recognise_fragment_iff)
  have "strip_suffix ?tail (uri_text u) = Some (origin u)"
    by (simp add: uri_text_def strip_suffix_Some_iff)
  then show ?thesis
    unfolding recognise_uri_def Let_def
    by (simp only: s strip_prefix_append ok_or_simps and_then_simps t n port tail steps if_False prod.case)
      simp
qed

lemma recognise_uri_sound:
  assumes "recognise_uri s policy = Inr u"
  shows "uri_ok policy u \<and> s = uri_text u"
proof -
  from assms obtain r where r: "s = ''https://'' @ r"
    by (auto simp: recognise_uri_def res_iff strip_prefix_Some_iff)
  define auth tail where "auth = takeWhile (\<lambda>c. \<not> ends_authority c) r"
    and "tail = dropWhile (\<lambda>c. \<not> ends_authority c) r"
  have rt: "r = auth @ tail" by (simp add: auth_def tail_def)
  obtain pth frag where
    t: "(case split_once (CHR ''#'') tail of Some (q, f) \<Rightarrow> (q, Some f) | None \<Rightarrow> (tail, None)) = (pth, frag)"
    by (cases "split_once (CHR ''#'') tail") auto
  from assms obtain h p orig where
    port: "(case rsplit_once (CHR '':'') auth of
       Some (h, p) \<Rightarrow> and_then (recognise_port p) (\<lambda>n. Inr (h, Some n))
     | None \<Rightarrow> Inr (auth, None)) = Inr (h, p)"
    and h: "recognise_host h = Inr ()"
    and steps: "recognise_path pth (policy_path policy) = Inr ()"
      "recognise_fragment (policy_fragment policy) frag = Inr ()"
    and orig: "strip_suffix tail s = Some orig"
    and u: "u = \<lparr>origin = orig, host = h, port = p, uri_path = pth, fragment = frag\<rparr>"
    unfolding recognise_uri_def Let_def r strip_prefix_append ok_or_simps and_then_simps
      auth_def [symmetric] tail_def [symmetric] t prod.case
    by (auto simp: res_iff split: if_splits prod.splits)
  have a: "auth = h @ port_text p \<and> port_ok p"
    using port
    by (auto simp: res_iff rsplit_once_Some_iff recognise_port_iff port_text_def port_ok_def
        split: option.splits)
  have q: "tail = pth @ fragment_text frag"
    using t by (auto simp: split_once_Some_iff fragment_text_def split: option.splits)
  have o: "orig = ''https://'' @ auth"
    using orig by (simp add: strip_suffix_Some_iff r rt)
  have "uri_ok policy u"
    unfolding uri_ok_def using a h steps o
    by (simp add: u recognise_host_iff recognise_path_iff recognise_fragment_iff)
  moreover have "s = uri_text u" by (simp add: uri_text_def u o r rt q)
  ultimately show ?thesis by simp
qed

lemma uri_codec: "canonical_codec (uri_ok policy) uri_text (\<lambda>s. recognise_uri s policy)"
  by unfold_locales (auto simp: recognise_uri_complete dest: recognise_uri_sound)

interpretation uri: canonical_codec "uri_ok policy" uri_text "\<lambda>s. recognise_uri s policy" for policy
  by (rule uri_codec)

lemma recognise_uri_origin_prefix: "recognise_uri s policy = Inr u \<Longrightarrow> \<exists>r. s = origin u @ r"
  using recognise_uri_sound by (fastforce simp: uri_text_def)

section \<open>Properties\<close>

text \<open>
  C5. The URI recogniser accepts a text under a policy exactly when the text is \<open>https://\<close>, a
  lower-case DNS name, a canonical port other than 443, and a path and fragment the policy admits;
  and the components it returns, put together again, are the text: nothing is rewritten.
\<close>

theorem recognise_uri_exact: "recognise_uri s policy = Inr u \<longleftrightarrow> uri_ok policy u \<and> s = uri_text u"
  by (rule uri.dec_Inr_iff)

end
