(* ===== verification/Jws.thy ===== *)
theory Jws
  imports Codec Json_Access Uri
begin

text \<open>
  Compact JWS (\<open>jws.rs\<close>): the signed wire form of grants, enrollment statements, successions and
  bundle signatures. The recogniser is separate from the signature check, and the octets that are
  verified are the ones that arrived. The lemmas characterise the recogniser exactly, and close
  the loop with the issuer's \<open>sign\<close>.
\<close>

section \<open>Types\<close>

definition ALG :: rust_str where "ALG = ''EdDSA''"

definition HEADER_LIMITS :: json_limits where
  "HEADER_LIMITS = \<lparr>max_bytes = 4096, max_depth = 4\<rparr>"

definition FORBIDDEN_HEADER_MEMBERS :: "rust_str list" where
  "FORBIDDEN_HEADER_MEMBERS = [''jku'', ''x5u'', ''x5c'', ''x5t'', ''x5t#S256'', ''jwk'', ''epk'']"

datatype kid_rule = DidUrl | HttpsFragment

record jws_policy =
  policy_typ :: rust_str
  policy_kid :: kid_rule
  policy_cty :: "rust_str option"
  max_octets :: nat
  max_payload_depth :: nat
  canonical_payload :: bool

datatype jws_error =
    TooLarge
  | BadSegmentCount
  | BadBase64
  | BadHeader json_error
  | BadPayload json_error
  | BadAlgorithm
  | BadType
  | BadKid
  | ForbiddenHeaderMember
  | BadSignatureLength
  | BadSignature
  | PayloadNotCanonical
  | LegacyVcWrapper

record compact_jws =
  protected_header :: json
  payload :: json
  jws_kid :: rust_str
  signing_input :: octets
  signature :: octets
  payload_octets :: octets

section \<open>Operations\<close>

definition verify_jws :: "externs \<Rightarrow> compact_jws \<Rightarrow> octets \<Rightarrow> jws_error + unit" where
  "verify_jws X jws public_key =
     and_then (ensure (vk_from_bytes X public_key) BadSignature) (\<lambda>_.
     ensure (vk_verify_strict X public_key (signing_input jws) (signature jws)) BadSignature)"

definition decode_segment :: "externs \<Rightarrow> rust_str \<Rightarrow> jws_error + octets" where
  "decode_segment X segment =
     (if segment = [] \<or>
         \<not> list_all (\<lambda>b. is_ascii_alphanumeric b \<or> b = CHR ''-'' \<or> b = CHR ''_'') segment
      then Inl BadBase64
      else
      and_then (ok_or BadBase64 (b64_decode_vec X segment)) (\<lambda>decoded.
      if b64url X decoded \<noteq> segment then Inl BadBase64 else Inr decoded))"

definition kid_shape :: "kid_rule \<Rightarrow> rust_str \<Rightarrow> bool" where
  "kid_shape rule k =
     (case rule of
        DidUrl \<Rightarrow> starts_with ''did:'' k \<and> CHR ''#'' \<in> set k
      | HttpsFragment \<Rightarrow> is_ok (recognise_uri k FRAGMENT_ID))"

definition allowed_header :: "jws_policy \<Rightarrow> rust_str list \<Rightarrow> rust_str list" where
  "allowed_header policy extra =
     [''alg'', ''typ'', ''kid''] @ (if policy_cty policy \<noteq> None then [''cty''] else []) @ extra"

definition recognise_header :: "json \<Rightarrow> jws_policy \<Rightarrow> rust_str list \<Rightarrow> jws_error + unit" where
  "recognise_header protected policy extra =
     and_then (ok_or ForbiddenHeaderMember (as_object protected)) (\<lambda>members.
     and_then (try_each (\<lambda>(name, _).
       ensure (\<not> (name \<in> set FORBIDDEN_HEADER_MEMBERS \<or> name \<notin> set (allowed_header policy extra)))
         ForbiddenHeaderMember) members) (\<lambda>_.
     if str_of protected ''alg'' \<noteq> Some ALG then Inl BadAlgorithm
     else if str_of protected ''typ'' \<noteq> Some (policy_typ policy) then Inl BadType
     else
     and_then
       (case policy_cty policy of
          None \<Rightarrow> Inr ()
        | Some expected \<Rightarrow> ensure (str_of protected ''cty'' = Some expected) BadType) (\<lambda>_.
     and_then (ok_or BadKid (str_of protected ''kid'')) (\<lambda>k.
     ensure (kid_shape (policy_kid policy) k) BadKid))))"

definition recognise_segments ::
  "externs \<Rightarrow> rust_str \<Rightarrow> rust_str \<Rightarrow> rust_str \<Rightarrow> jws_policy \<Rightarrow> rust_str list \<Rightarrow> jws_error + compact_jws" where
  "recognise_segments X header_segment payload_segment signature_segment policy extra =
     and_then (decode_segment X header_segment) (\<lambda>header_octets.
     and_then (decode_segment X payload_segment) (\<lambda>p_octets.
     and_then (decode_segment X signature_segment) (\<lambda>signature_octets.
     if length signature_octets \<noteq> 64 then Inl BadSignatureLength
     else
     and_then (map_err BadHeader (recognise_json header_octets HEADER_LIMITS)) (\<lambda>protected.
     let payload_limits = \<lparr>max_bytes = max_octets policy, max_depth = max_payload_depth policy\<rparr> in
     and_then (map_err BadPayload (recognise_json p_octets payload_limits)) (\<lambda>body.
     if canonical_payload policy \<and> canonicalise body \<noteq> p_octets then Inl PayloadNotCanonical
     else
     and_then (recognise_header protected policy extra) (\<lambda>_.
     if get body ''vc'' \<noteq> None then Inl LegacyVcWrapper
     else
     and_then (ok_or BadKid (str_of protected ''kid'')) (\<lambda>k.
     Inr \<lparr>protected_header = protected, payload = body, jws_kid = k,
          signing_input = header_segment @ ''.'' @ payload_segment,
          signature = signature_octets, payload_octets = p_octets\<rparr>)))))))"

definition recognise_jws ::
  "externs \<Rightarrow> rust_str \<Rightarrow> jws_policy \<Rightarrow> rust_str list \<Rightarrow> jws_error + compact_jws" where
  "recognise_jws X t policy extra =
     (if length t > max_octets policy then Inl TooLarge
      else case split_on (CHR ''.'') t of
        [header_segment, payload_segment, signature_segment] \<Rightarrow>
          recognise_segments X header_segment payload_segment signature_segment policy extra
      | _ \<Rightarrow> Inl BadSegmentCount)"

definition sign_jws :: "externs \<Rightarrow> json \<Rightarrow> json \<Rightarrow> octets \<Rightarrow> rust_str" where
  "sign_jws X header body key =
     (let header_b64 = b64url X (canonicalise header);
          payload_b64 = b64url X (canonicalise body);
          input = header_b64 @ ''.'' @ payload_b64
      in input @ ''.'' @ b64url X (sk_sign X key input))"

section \<open>Segments\<close>

lemma decode_segment_Inr_iff:
  assumes "base64ct X"
  shows "decode_segment X s = Inr bs \<longleftrightarrow> bs \<noteq> [] \<and> s = b64url X bs"
proof -
  have alpha: "list_all (\<lambda>b. is_ascii_alphanumeric b \<or> b = CHR ''-'' \<or> b = CHR ''_'') (b64url X bs)" for bs
    using base64ct.encode_alphabet [OF assms, of bs]
    by (simp add: b64url_def list_all_iff is_b64url_char_def)
  have empty: "b64url X bs = [] \<longleftrightarrow> bs = []" for bs
    using base64ct.encode_Nil_iff [OF assms] by (simp add: b64url_def)
  have dec: "b64_decode_vec X (b64url X bs) = Some bs" for bs
    using base64ct.decode_encode [OF assms] by (simp add: b64url_def)
  show ?thesis
  proof
    assume "decode_segment X s = Inr bs"
    then show "bs \<noteq> [] \<and> s = b64url X bs"
      using empty [of bs] by (auto simp: decode_segment_def res_iff split: if_splits)
  next
    assume "bs \<noteq> [] \<and> s = b64url X bs"
    then show "decode_segment X s = Inr bs"
      using empty [of bs] alpha [of bs] dec [of bs] by (simp add: decode_segment_def)
  qed
qed

lemma b64url_no_dot: "base64ct X \<Longrightarrow> CHR ''.'' \<notin> set (b64url X bs)"
  by (simp add: b64url_def base64ct.encode_no_dot)

lemma b64url_eq_iff: "base64ct X \<Longrightarrow> b64url X bs = b64url X cs \<longleftrightarrow> bs = cs"
  by (simp add: b64url_def base64ct.encode_inject)

lemma split_three:
  assumes "CHR ''.'' \<notin> set h" "CHR ''.'' \<notin> set p" "CHR ''.'' \<notin> set s"
  shows "split_on (CHR ''.'') (h @ ''.'' @ p @ ''.'' @ s) = [h, p, s]"
  using assms by (simp add: split_on_append split_on_no_sep)

section \<open>The protected header\<close>

text \<open>What the header must be: closed, with one algorithm, and a key name of the contract's shape.\<close>

definition header_ok :: "json \<Rightarrow> jws_policy \<Rightarrow> rust_str list \<Rightarrow> bool" where
  "header_ok j policy extra \<longleftrightarrow>
     (\<exists>ms. j = Object ms \<and> fst ` set ms \<subseteq> set (allowed_header policy extra) - set FORBIDDEN_HEADER_MEMBERS) \<and>
     str_of j ''alg'' = Some ''EdDSA'' \<and> str_of j ''typ'' = Some (policy_typ policy) \<and>
     (\<forall>cty. policy_cty policy = Some cty \<longrightarrow> str_of j ''cty'' = Some cty) \<and>
     (\<exists>k. str_of j ''kid'' = Some k \<and> kid_shape (policy_kid policy) k)"

lemma members_allowed:
  "try_each (\<lambda>(name, _). ensure (\<not> (name \<in> F \<or> name \<notin> A)) e) ms = Inr u \<longleftrightarrow> fst ` set ms \<subseteq> A - F"
  by (auto simp: try_each_Inr_iff case_prod_beta ensure_Inr_iff)

lemma recognise_header_iff: "recognise_header j policy extra = Inr u \<longleftrightarrow> header_ok j policy extra"
  unfolding recognise_header_def header_ok_def ALG_def and_then_Inr_iff members_allowed
  by (auto simp: res_iff accessor_Some_iff split: option.splits)

section \<open>The recogniser, exactly\<close>

text \<open>
  What a recognised JWS is, read off the text: three encoded segments whose octets are the
  protected header, the payload and the signature.
\<close>

definition jws_ok :: "externs \<Rightarrow> rust_str \<Rightarrow> jws_policy \<Rightarrow> rust_str list \<Rightarrow> compact_jws \<Rightarrow> bool" where
  "jws_ok X t policy extra jws \<longleftrightarrow>
     (\<exists>header_octets.
        header_octets \<noteq> [] \<and> payload_octets jws \<noteq> [] \<and> length (signature jws) = 64 \<and>
        signing_input jws = b64url X header_octets @ ''.'' @ b64url X (payload_octets jws) \<and>
        t = signing_input jws @ ''.'' @ b64url X (signature jws) \<and> length t \<le> max_octets policy \<and>
        recognise_json header_octets HEADER_LIMITS = Inr (protected_header jws)) \<and>
     recognise_json (payload_octets jws)
       \<lparr>max_bytes = max_octets policy, max_depth = max_payload_depth policy\<rparr> = Inr (payload jws) \<and>
     (canonical_payload policy \<longrightarrow> canonicalise (payload jws) = payload_octets jws) \<and>
     header_ok (protected_header jws) policy extra \<and> get (payload jws) ''vc'' = None \<and>
     str_of (protected_header jws) ''kid'' = Some (jws_kid jws)"

lemma recognise_segments_Inr_iff:
  assumes "base64ct X"
  shows "recognise_segments X h p s policy extra = Inr jws \<longleftrightarrow>
    (\<exists>header_octets. header_octets \<noteq> [] \<and> payload_octets jws \<noteq> [] \<and> length (signature jws) = 64 \<and>
       h = b64url X header_octets \<and> p = b64url X (payload_octets jws) \<and> s = b64url X (signature jws) \<and>
       signing_input jws = h @ ''.'' @ p \<and>
       recognise_json header_octets HEADER_LIMITS = Inr (protected_header jws)) \<and>
     recognise_json (payload_octets jws)
       \<lparr>max_bytes = max_octets policy, max_depth = max_payload_depth policy\<rparr> = Inr (payload jws) \<and>
     (canonical_payload policy \<longrightarrow> canonicalise (payload jws) = payload_octets jws) \<and>
     header_ok (protected_header jws) policy extra \<and> get (payload jws) ''vc'' = None \<and>
     str_of (protected_header jws) ''kid'' = Some (jws_kid jws)"
  (is "?L = ?R")
proof
  assume ?L
  then show ?R
    unfolding recognise_segments_def Let_def
    by (auto simp: and_then_Inr_iff map_err_Inr_iff ok_or_Inr_iff decode_segment_Inr_iff [OF assms]
        recognise_header_iff split: if_splits)
next
  assume R: ?R
  then obtain ho where ho: "ho \<noteq> []" "h = b64url X ho" "recognise_json ho HEADER_LIMITS = Inr (protected_header jws)"
    and sig: "length (signature jws) = 64"
    and segs: "payload_octets jws \<noteq> []" "p = b64url X (payload_octets jws)" "s = b64url X (signature jws)"
      "signing_input jws = h @ ''.'' @ p"
    by blast
  have "signature jws \<noteq> []" using sig by auto
  then have dec: "decode_segment X h = Inr ho" "decode_segment X p = Inr (payload_octets jws)"
      "decode_segment X s = Inr (signature jws)"
    using ho(1,2) segs sig by (simp_all add: decode_segment_Inr_iff [OF assms])
  have "recognise_header (protected_header jws) policy extra = Inr ()"
    using R by (simp add: recognise_header_iff)
  then show ?L
    using R dec ho(3) sig segs(4) by (cases jws) (simp add: recognise_segments_def)
qed

lemma recognise_jws_iff:
  assumes "base64ct X"
  shows "recognise_jws X t policy extra = Inr jws \<longleftrightarrow> jws_ok X t policy extra jws"
proof
  assume L: "recognise_jws X t policy extra = Inr jws"
  then obtain h p s where split: "split_on (CHR ''.'') t = [h, p, s]" and len: "length t \<le> max_octets policy"
    and seg: "recognise_segments X h p s policy extra = Inr jws"
    by (auto simp: recognise_jws_def split: if_splits list.splits)
  have "t = h @ ''.'' @ p @ ''.'' @ s"
    using join_split_on [of "CHR ''.''" t] split by simp
  then show "jws_ok X t policy extra jws"
    using seg len by (auto simp: recognise_segments_Inr_iff [OF assms] jws_ok_def)
next
  assume R: "jws_ok X t policy extra jws"
  then obtain ho where t: "t = b64url X ho @ ''.'' @ b64url X (payload_octets jws) @ ''.'' @ b64url X (signature jws)"
    and len: "length t \<le> max_octets policy"
    and seg: "recognise_segments X (b64url X ho) (b64url X (payload_octets jws)) (b64url X (signature jws)) policy extra = Inr jws"
    by (auto simp: jws_ok_def recognise_segments_Inr_iff [OF assms] b64url_eq_iff [OF assms])
  have "split_on (CHR ''.'') t = [b64url X ho, b64url X (payload_octets jws), b64url X (signature jws)]"
    unfolding t by (intro split_three b64url_no_dot [OF assms])
  then show "recognise_jws X t policy extra = Inr jws"
    using len seg by (simp add: recognise_jws_def)
qed

lemma verify_jws_iff:
  "verify_jws X jws pk = Inr u \<longleftrightarrow>
   vk_from_bytes X pk \<and> vk_verify_strict X pk (signing_input jws) (signature jws)"
  by (auto simp: verify_jws_def res_iff)

lemma header_ok_sort_members: "json_wf j \<Longrightarrow> header_ok (sort_members j) policy extra \<longleftrightarrow> header_ok j policy extra"
  unfolding header_ok_def
  by (simp only: typed_member_sort_members
      names_sort_members [where P = "\<lambda>names. names \<subseteq> set (allowed_header policy extra) - set FORBIDDEN_HEADER_MEMBERS"])

lemma canonicalise_not_Nil: "canonicalise j \<noteq> []"
  by (cases j) (simp_all add: canonicalise_def write_string_def dec_int_def)

lemma sign_recognise_verify_lemma:
  assumes X: "base64ct X" "ed25519_law X key"
    and header: "json_wf header" "json_depth header \<le> 4" "length (canonicalise header) \<le> 4096"
      "header_ok header policy extra"
    and body: "json_wf body" "json_depth body \<le> max_payload_depth policy" "get body ''vc'' = None"
    and bound: "length (sign_jws X header body key) \<le> max_octets policy"
  shows "\<exists>jws. recognise_jws X (sign_jws X header body key) policy extra = Inr jws \<and>
    verify_jws X jws (sk_public X key) = Inr () \<and>
    protected_header jws = sort_members header \<and> payload jws = sort_members body \<and>
    payload_octets jws = canonicalise body"
proof -
  define input where "input = b64url X (canonicalise header) @ ''.'' @ b64url X (canonicalise body)"
  have t: "sign_jws X header body key = input @ ''.'' @ b64url X (sk_sign X key input)"
    by (simp add: sign_jws_def Let_def input_def)
  obtain k where k: "str_of header ''kid'' = Some k" using header(4) by (auto simp: header_ok_def)
  define jws where "jws = \<lparr>protected_header = sort_members header, payload = sort_members body,
    jws_kid = k, signing_input = input, signature = sk_sign X key input,
    payload_octets = canonicalise body\<rparr>"
  have "length (canonicalise body) \<le> length (b64url X (canonicalise body))"
    by (simp add: b64url_def base64ct.encode_length [OF X(1)] unpadded_len_def)
  then have len: "length (canonicalise body) \<le> max_octets policy"
    using bound by (simp add: t input_def)
  have "recognise_json (canonicalise header) HEADER_LIMITS = Inr (sort_members header)"
    using header by (intro recognise_canonicalise) (simp_all add: HEADER_LIMITS_def)
  moreover have "recognise_json (canonicalise body)
      \<lparr>max_bytes = max_octets policy, max_depth = max_payload_depth policy\<rparr> = Inr (sort_members body)"
    using body len by (intro recognise_canonicalise) simp_all
  ultimately have "jws_ok X (sign_jws X header body key) policy extra jws"
    using bound X header(4) body(3) canonicalise_not_Nil header(1) body(1) k
    unfolding jws_ok_def jws_def t
    by (simp add: header_ok_sort_members get_sort_members typed_member_sort_members
        canonicalise_sort_members ed25519_law_def input_def) blast
  moreover have "verify_jws X jws (sk_public X key) = Inr ()"
    using X(2) by (simp add: verify_jws_iff ed25519_law_def jws_def)
  ultimately show ?thesis
    using recognise_jws_iff [OF X(1)] by (intro exI [of _ jws]) (simp add: jws_def)
qed

lemma length_sign_jws:
  assumes "base64ct X" "ed25519_law X key"
  shows "length (sign_jws X header body key) =
    unpadded_len (length (canonicalise header)) + unpadded_len (length (canonicalise body)) + 88"
  using assms base64ct.encode_length [OF assms(1)]
  by (simp add: sign_jws_def Let_def b64url_def ed25519_law_def unpadded_len_def)

definition sample_policy :: jws_policy where
  "sample_policy = \<lparr>policy_typ = ''selfsame-enrollment+jws'', policy_kid = HttpsFragment, policy_cty = None,
     max_octets = 16384, max_payload_depth = 8, canonical_payload = True\<rparr>"

definition sample_header :: json where
  "sample_header = Object [(''typ'', String ''selfsame-enrollment+jws''), (''alg'', String ''EdDSA''),
     (''kid'', String ''https://app.example/keys#k1'')]"

lemma sample_header_ok:
  "json_wf sample_header" "json_depth sample_header \<le> 4" "length (canonicalise sample_header) \<le> 4096"
  "header_ok sample_header sample_policy []"
     apply (code_simp, code_simp, code_simp)
  unfolding recognise_header_iff [symmetric, where u = "()"] by code_simp

lemma sample_sign_length:
  "length (sign_jws sample_externs sample_header body ''seed'') =
   unpadded_len (length (canonicalise sample_header)) + unpadded_len (length (canonicalise body)) + 88"
  by (rule length_sign_jws [OF rfc4648.base64ct_axioms sample_ed25519_law])

section \<open>Properties\<close>

text \<open>
  C7. The recogniser accepts exactly the texts of three canonical base64url segments, joined by
  dots and within the bound, whose first two are documents of the closed language, whose header is
  closed under the contract's policy with the algorithm EdDSA and a key name of the contract's
  shape, whose payload is canonical where the contract fixes the serialisation and wraps no legacy
  claim, and whose signature is 64 octets; the octets to verify are the first two segments as they
  arrived.
\<close>

theorem recognise_jws_exact:
  assumes "base64ct X"
  shows "recognise_jws X t policy extra = Inr jws \<longleftrightarrow> jws_ok X t policy extra jws"
  using assms by (rule recognise_jws_iff)

text \<open>
  What the issuer signs, every verifier of the contract recognises and verifies: for a header
  the policy admits and a payload inside the bounds, the text of \<open>sign\<close> is recognised with that
  header and payload, in canonical member order, and the signature verifies under the issuer's key.
\<close>

theorem sign_recognise_verify:
  assumes X: "base64ct X" "ed25519_law X key"
    and header: "json_wf header" "json_depth header \<le> 4" "length (canonicalise header) \<le> 4096"
      "header_ok header policy extra"
    and body: "json_wf body" "json_depth body \<le> max_payload_depth policy" "get body ''vc'' = None"
    and bound: "length (sign_jws X header body key) \<le> max_octets policy"
  shows "\<exists>jws. recognise_jws X (sign_jws X header body key) policy extra = Inr jws \<and>
    verify_jws X jws (sk_public X key) = Inr () \<and>
    protected_header jws = sort_members header \<and> payload jws = sort_members body \<and>
    payload_octets jws = canonicalise body"
  using assms by (rule sign_recognise_verify_lemma)

theorem sign_recognise_verify_witness:
  "\<exists>jws. recognise_jws sample_externs
       (sign_jws sample_externs sample_header (Object [(''b'', Null), (''a'', Integer 1)]) ''seed'')
       sample_policy [] = Inr jws \<and>
     verify_jws sample_externs jws (sk_public sample_externs ''seed'') = Inr () \<and>
     payload_octets jws = canonicalise (Object [(''b'', Null), (''a'', Integer 1)])"
proof -
  have "length (sign_jws sample_externs sample_header (Object [(''b'', Null), (''a'', Integer 1)]) ''seed'')
      \<le> max_octets sample_policy"
    unfolding sample_sign_length by code_simp
  moreover have "json_wf (Object [(''b'', Null), (''a'', Integer 1)])"
      "json_depth (Object [(''b'', Null), (''a'', Integer 1)]) \<le> max_payload_depth sample_policy"
      "get (Object [(''b'', Null), (''a'', Integer 1)]) ''vc'' = None"
    by code_simp+
  ultimately show ?thesis
    using sign_recognise_verify [OF rfc4648.base64ct_axioms sample_ed25519_law sample_header_ok] by blast
qed

definition sample_jws :: compact_jws where
  "sample_jws = projr (recognise_jws sample_externs
     (sign_jws sample_externs sample_header (Object []) ''seed'') sample_policy [])"

lemma recognise_sample_jws:
  "recognise_jws sample_externs (sign_jws sample_externs sample_header (Object []) ''seed'')
     sample_policy [] = Inr sample_jws"
proof -
  have "length (sign_jws sample_externs sample_header (Object []) ''seed'') \<le> max_octets sample_policy"
    unfolding sample_sign_length by code_simp
  moreover have "json_wf (Object [])" "json_depth (Object []) \<le> max_payload_depth sample_policy"
      "get (Object []) ''vc'' = None" by code_simp+
  ultimately show ?thesis
    using sign_recognise_verify_lemma [OF rfc4648.base64ct_axioms sample_ed25519_law sample_header_ok]
    by (force simp: sample_jws_def)
qed

theorem recognise_jws_exact_witness:
  "jws_ok sample_externs (sign_jws sample_externs sample_header (Object []) ''seed'') sample_policy []
     sample_jws"
  using recognise_jws_exact [OF rfc4648.base64ct_axioms, THEN iffD1, OF recognise_sample_jws] .

end
