(* ===== verification/Profile.thy ===== *)
theory Profile
  imports Json_Access Uri Externals
begin

text \<open>
  The application profile of \<open>profile.rs\<close>: a closed language over JSON, recognised in five steps,
  from which every other component reads. The lemmas give what a recognised profile promises: the
  octets are canonical, the member sets are exact, and every member is within its grammar, its
  bounds and its uniqueness rules.
\<close>

section \<open>Types\<close>

definition MAX_PROFILE_OCTETS :: nat where "MAX_PROFILE_OCTETS = 65536"
definition MAX_PROFILE_DEPTH :: nat where "MAX_PROFILE_DEPTH = 8"
definition PROFILE_VERSION :: int where "PROFILE_VERSION = 1"
definition MAX_GRANT_LIFETIME_CEILING :: int where "MAX_GRANT_LIFETIME_CEILING = 2592000"
definition MAX_CLOSURE_AGE_CEILING :: int where "MAX_CLOSURE_AGE_CEILING = 3600"
definition MAX_PROPAGATION_SLA_CEILING :: int where "MAX_PROPAGATION_SLA_CEILING = 300"
definition MAX_PROJECTION_AGE_CEILING :: int where "MAX_PROJECTION_AGE_CEILING = 3600"
definition MAX_PERMISSIONS :: nat where "MAX_PERMISSIONS = 64"
definition MAX_PROVIDERS :: nat where "MAX_PROVIDERS = 64"
definition MAX_RELAYS :: nat where "MAX_RELAYS = 16"
definition MAX_CAPABILITIES :: nat where "MAX_CAPABILITIES = 8"

definition TOP_LEVEL_REQUIRED :: "rust_str list" where
  "TOP_LEVEL_REQUIRED =
     [''profileVersion'', ''applicationId'', ''accountAuthority'', ''verifierAudience'',
      ''allowedPermissions'', ''enrollment'', ''cbclPairingRelays'', ''stateResolvers'', ''revocation'']"

definition TOP_LEVEL_OPTIONAL :: "rust_str list" where
  "TOP_LEVEL_OPTIONAL = [''capabilities'']"

definition CAPABILITY_CREDENTIAL_V2_ACCOUNT_SELECT :: rust_str where
  "CAPABILITY_CREDENTIAL_V2_ACCOUNT_SELECT = ''credential-v2-account-select/v1''"

definition CAPABILITIES :: "rust_str list" where
  "CAPABILITIES = [CAPABILITY_CREDENTIAL_V2_ACCOUNT_SELECT]"

text \<open>\<open>BadValue\<close> carries the path of the member and the reason.\<close>

datatype profile_error =
    JsonFault json_error
  | NotCanonical
  | UnknownMember rust_str
  | MissingMember rust_str
  | BadValue rust_str rust_str

definition bad :: "rust_str \<Rightarrow> rust_str \<Rightarrow> profile_error" where
  "bad p reason = BadValue p reason"

record app_id =
  app_text :: rust_str
  app_origin :: rust_str

definition parse_application_id :: "rust_str \<Rightarrow> uri_error + app_id" where
  "parse_application_id s =
     and_then (recognise_uri s APPLICATION_ID) (\<lambda>parts. Inr \<lparr>app_text = s, app_origin = origin parts\<rparr>)"

record ed25519_jwk =
  public_key :: octets
  jwk_x :: rust_str

record enrollment_key =
  kid :: rust_str
  jwk :: ed25519_jwk

text \<open>Android: id, package name, certificate digests. Apple: id, team, bundle, return URI. Web: id, origin.\<close>

datatype mobile_binding =
    Android rust_str rust_str "rust_str list"
  | Apple rust_str rust_str rust_str rust_str
  | Web rust_str rust_str

fun binding_id :: "mobile_binding \<Rightarrow> rust_str" where
  "binding_id (Android i _ _) = i"
| "binding_id (Apple i _ _ _) = i"
| "binding_id (Web i _) = i"

record cbcl_relay_descriptor =
  operator_id :: rust_str
  relay_origin :: rust_str
  priority :: int
  weight :: int
  privacy_policy_digest :: octets
  conformance_evidence_digest :: octets
  descriptor_digest :: octets

record state_resolver =
  resolver_id :: rust_str
  resolver_url :: rust_str
  protocol :: rust_str

record projection_policy =
  projection_kind :: rust_str
  allocation_url :: rust_str
  credential_base_url :: rust_str
  max_age_seconds :: int

record revocation_policy =
  revocation_method :: rust_str
  max_grant_lifetime_seconds :: int
  max_closure_age_seconds :: int
  propagation_sla_seconds :: int
  projection :: "projection_policy option"

definition session_establishment_bound :: "revocation_policy \<Rightarrow> int" where
  "session_establishment_bound r = min (max_closure_age_seconds r) (propagation_sla_seconds r)"

record application_profile =
  profile_canonical :: octets
  profile_digest :: octets
  application_id :: app_id
  account_authority :: rust_str
  allowed_permissions :: "rust_str list"
  enrollment_keys :: "enrollment_key list"
  mobile_bindings :: "mobile_binding list"
  cbcl_pairing_relays :: "cbcl_relay_descriptor list"
  state_resolvers :: "state_resolver list"
  revocation :: revocation_policy
  capabilities :: "rust_str list"

definition advertises_credential_v2_account_select :: "application_profile \<Rightarrow> bool" where
  "advertises_credential_v2_account_select P =
     list_ex (\<lambda>capability. capability = CAPABILITY_CREDENTIAL_V2_ACCOUNT_SELECT) (capabilities P)"

section \<open>Member helpers\<close>

definition join_path :: "rust_str \<Rightarrow> rust_str \<Rightarrow> rust_str" where
  "join_path prefix name = (if prefix = [] then name else prefix @ ''.'' @ name)"

definition closed_members ::
  "json \<Rightarrow> rust_str \<Rightarrow> rust_str list \<Rightarrow> rust_str list \<Rightarrow> profile_error + unit" where
  "closed_members j p required optional =
     and_then (ok_or (bad (if p = [] then ''<root>'' else p) ''is not an object'') (as_object j)) (\<lambda>members.
     and_then (try_each (\<lambda>(name, _).
       ensure (name \<in> set required \<or> name \<in> set optional) (UnknownMember (join_path p name))) members) (\<lambda>_.
     try_each (\<lambda>name. ensure (get j name \<noteq> None) (MissingMember (join_path p name))) required))"

definition json_member :: "json \<Rightarrow> rust_str \<Rightarrow> profile_error + json" where
  "json_member j name = ok_or (MissingMember name) (get j name)"

definition string_member :: "json \<Rightarrow> rust_str \<Rightarrow> profile_error + rust_str" where
  "string_member j name = and_then (json_member j name) (\<lambda>v. ok_or (bad name ''is not a string'') (as_str v))"

definition integer_member :: "json \<Rightarrow> rust_str \<Rightarrow> profile_error + int" where
  "integer_member j name = and_then (json_member j name) (\<lambda>v. ok_or (bad name ''is not an integer'') (as_i64 v))"

definition array_member :: "json \<Rightarrow> rust_str \<Rightarrow> profile_error + json list" where
  "array_member j name = and_then (json_member j name) (\<lambda>v. ok_or (bad name ''is not an array'') (as_array v))"

definition bounded_positive ::
  "json \<Rightarrow> rust_str \<Rightarrow> rust_str \<Rightarrow> int \<Rightarrow> rust_str \<Rightarrow> profile_error + int" where
  "bounded_positive j p name ceiling reason =
     and_then (json_member j name) (\<lambda>v.
     and_then (ok_or (bad (join_path p name) ''is not an integer'') (as_i64 v)) (\<lambda>n.
     if n \<le> 0 \<or> n > ceiling then Inl (bad (join_path p name) reason) else Inr n))"

definition bounded_range :: "json \<Rightarrow> rust_str \<Rightarrow> rust_str \<Rightarrow> profile_error + int" where
  "bounded_range j p name =
     and_then (json_member j name) (\<lambda>v.
     and_then (ok_or (bad (join_path p name) ''is not an integer'') (as_i64 v)) (\<lambda>n.
     if \<not> (0 \<le> n \<and> n \<le> 65535) then Inl (bad (join_path p name) ''is outside [0, 65535]'') else Inr n))"

fun first_duplicate_from :: "rust_str list \<Rightarrow> rust_str list \<Rightarrow> rust_str option" where
  "first_duplicate_from seen [] = None"
| "first_duplicate_from seen (item # items) =
     (if item \<in> set seen then Some item else first_duplicate_from (seen @ [item]) items)"

definition first_duplicate :: "rust_str list \<Rightarrow> rust_str option" where
  "first_duplicate items = first_duplicate_from [] items"

definition is_provider_id :: "rust_str \<Rightarrow> bool" where
  "is_provider_id s \<longleftrightarrow>
     1 \<le> length s \<and> length s \<le> 63 \<and>
     (is_ascii_lowercase (hd s) \<or> is_ascii_digit (hd s)) \<and>
     list_all (\<lambda>b. is_ascii_lowercase b \<or> is_ascii_digit b \<or> b = CHR ''-'') s"

definition provider_id :: "rust_str \<Rightarrow> rust_str \<Rightarrow> profile_error + unit" where
  "provider_id s p = ensure (is_provider_id s) (bad p ''does not match [a-z0-9][a-z0-9-]{0,62}'')"

definition optional_member :: "json \<Rightarrow> rust_str \<Rightarrow> json option" where
  "optional_member j name =
     (case j of Object members \<Rightarrow> map_option snd (List.find (\<lambda>(candidate, _). candidate = name) members)
      | _ \<Rightarrow> None)"

section \<open>Member grammars\<close>

definition profile_permissions :: "json \<Rightarrow> app_id \<Rightarrow> profile_error + rust_str list" where
  "profile_permissions j aid =
     (let p = ''allowedPermissions'' in
     and_then (array_member j p) (\<lambda>items.
     if items = [] \<or> length items > MAX_PERMISSIONS then Inl (bad p ''must hold between 1 and 64 entries'')
     else
     and_then (try_map (\<lambda>item.
       and_then (ok_or (bad p ''entry is not a string'') (as_str item)) (\<lambda>s.
       and_then (map_err (\<lambda>_. bad p ''entry is not a canonical HTTPS URI with a fragment'')
         (recognise_uri s FRAGMENT_ID)) (\<lambda>parts.
       if origin parts \<noteq> app_origin aid then Inl (bad p ''entry is not on the applicationId origin'')
       else Inr s))) items) (\<lambda>out.
     if \<not> strictly_ascending out then Inl (bad p ''is unsorted or contains a duplicate'')
     else Inr out)))"

definition ed25519_jwk_of :: "externs \<Rightarrow> json \<Rightarrow> rust_str \<Rightarrow> profile_error + ed25519_jwk" where
  "ed25519_jwk_of X j p =
     and_then (closed_members j p [''kty'', ''crv'', ''x''] []) (\<lambda>_.
     and_then (string_member j ''kty'') (\<lambda>kty.
     if kty \<noteq> ''OKP'' then Inl (bad p ''kty must be exactly OKP'')
     else
     and_then (string_member j ''crv'') (\<lambda>crv.
     if crv \<noteq> ''Ed25519'' then Inl (bad p ''crv must be exactly Ed25519'')
     else
     and_then (string_member j ''x'') (\<lambda>x.
     and_then (map_err (\<lambda>_. bad p ''x is not a canonical 32-octet base64url value'')
       (decode_b64url_32 X x)) (\<lambda>key.
     Inr \<lparr>public_key = key, jwk_x = x\<rparr>)))))"

definition android_binding :: "externs \<Rightarrow> json \<Rightarrow> profile_error + mobile_binding" where
  "android_binding X j =
     (let certs_path = ''enrollment.mobileBindings[].signingCertificateSha256'';
          id_path = ''enrollment.mobileBindings[].id'' in
     and_then (closed_members j ''enrollment.mobileBindings[]''
       [''id'', ''platform'', ''packageName'', ''signingCertificateSha256''] []) (\<lambda>_.
     and_then (string_member j ''packageName'') (\<lambda>package_name.
     and_then (array_member j ''signingCertificateSha256'') (\<lambda>digests.
     if digests = [] then Inl (bad certs_path ''must declare at least one certificate digest'')
     else
     and_then (try_map (\<lambda>d.
       and_then (ok_or (bad certs_path ''entry is not a string'') (as_str d)) (\<lambda>s.
       and_then (map_err (\<lambda>_. bad certs_path ''entry is not a canonical 32-octet base64url digest'')
         (decode_b64url_32 X s)) (\<lambda>_. Inr s))) digests) (\<lambda>certs.
     and_then (string_member j ''id'') (\<lambda>i.
     let expected_prefix = ''android:'' @ package_name @ '':'' in
     if \<not> starts_with expected_prefix i
     then Inl (bad id_path ''does not spell `android:<packageName>:<cert-sha256>`'')
     else if \<not> list_ex (\<lambda>c. i = expected_prefix @ c) certs
     then Inl (bad id_path ''names a certificate digest outside its own rotation set'')
     else Inr (Android i package_name certs)))))))"

definition apple_binding :: "json \<Rightarrow> app_id \<Rightarrow> profile_error + mobile_binding" where
  "apple_binding j aid =
     (let uri_path_name = ''enrollment.mobileBindings[].returnUri'' in
     and_then (closed_members j ''enrollment.mobileBindings[]''
       [''id'', ''platform'', ''teamId'', ''bundleId'', ''returnUri''] []) (\<lambda>_.
     and_then (string_member j ''teamId'') (\<lambda>team_id.
     and_then (string_member j ''bundleId'') (\<lambda>bundle_id.
     and_then (string_member j ''returnUri'') (\<lambda>return_uri.
     and_then (map_err (\<lambda>_. bad uri_path_name ''is not a canonical HTTPS URI'')
       (recognise_uri return_uri PROVIDER_URL)) (\<lambda>parts.
     if origin parts \<noteq> app_origin aid then Inl (bad uri_path_name ''is not on the applicationId origin'')
     else
     and_then (string_member j ''id'') (\<lambda>i.
     if i \<noteq> ''apple:'' @ team_id @ '':'' @ bundle_id @ '':'' @ origin parts
     then Inl (bad ''enrollment.mobileBindings[].id''
       ''does not spell `apple:<teamId>:<bundleId>:<returnUri origin>`'')
     else Inr (Apple i team_id bundle_id return_uri))))))))"

definition web_binding :: "json \<Rightarrow> app_id \<Rightarrow> profile_error + mobile_binding" where
  "web_binding j aid =
     and_then (closed_members j ''enrollment.mobileBindings[]'' [''id'', ''platform'', ''origin''] []) (\<lambda>_.
     and_then (string_member j ''origin'') (\<lambda>org.
     if org \<noteq> app_origin aid
     then Inl (bad ''enrollment.mobileBindings[].origin'' ''is not the applicationId origin'')
     else
     and_then (string_member j ''id'') (\<lambda>i.
     if i \<noteq> ''web:'' @ org
     then Inl (bad ''enrollment.mobileBindings[].id'' ''does not spell `web:<applicationId origin>`'')
     else Inr (Web i org))))"

definition mobile_binding_of :: "externs \<Rightarrow> json \<Rightarrow> app_id \<Rightarrow> profile_error + mobile_binding" where
  "mobile_binding_of X j aid =
     and_then (string_member j ''platform'') (\<lambda>platform.
     if platform = ''android'' then android_binding X j
     else if platform = ''apple'' then apple_binding j aid
     else if platform = ''web'' then web_binding j aid
     else Inl (bad ''enrollment.mobileBindings[].platform'' ''is neither `android`, `apple`, nor `web`''))"

definition request_signing_key :: "externs \<Rightarrow> app_id \<Rightarrow> json \<Rightarrow> profile_error + enrollment_key" where
  "request_signing_key X aid item =
     (let kid_path = ''enrollment.requestSigningKeys[].kid'' in
     and_then (closed_members item ''enrollment.requestSigningKeys[]'' [''kid'', ''publicKeyJwk''] []) (\<lambda>_.
     and_then (string_member item ''kid'') (\<lambda>k.
     and_then (map_err (\<lambda>_. bad kid_path ''is not a canonical HTTPS URI with a fragment'')
       (recognise_uri k FRAGMENT_ID)) (\<lambda>parts.
     if origin parts \<noteq> app_origin aid then Inl (bad kid_path ''is not on the applicationId origin'')
     else
     and_then (json_member item ''publicKeyJwk'') (\<lambda>v.
     and_then (ed25519_jwk_of X v ''enrollment.requestSigningKeys[].publicKeyJwk'') (\<lambda>key.
     Inr \<lparr>kid = k, jwk = key\<rparr>))))))"

definition profile_bindings :: "externs \<Rightarrow> app_id \<Rightarrow> json \<Rightarrow> profile_error + mobile_binding list" where
  "profile_bindings X aid enrollment =
     (let p = ''enrollment.mobileBindings'' in
     case get enrollment ''mobileBindings'' of
       None \<Rightarrow> Inr []
     | Some v \<Rightarrow>
         and_then (ok_or (bad p ''is not an array'') (as_array v)) (\<lambda>items.
         if length items > MAX_PROVIDERS then Inl (bad p ''holds more than 64 entries'')
         else
         and_then (try_map (\<lambda>item. mobile_binding_of X item aid) items) (\<lambda>out.
         if first_duplicate (map binding_id out) \<noteq> None then Inl (bad p ''contains a duplicate id'')
         else Inr out)))"

definition profile_enrollment ::
  "externs \<Rightarrow> json \<Rightarrow> app_id \<Rightarrow> profile_error + enrollment_key list \<times> mobile_binding list" where
  "profile_enrollment X j aid =
     (let p = ''enrollment.requestSigningKeys'' in
     and_then (json_member j ''enrollment'') (\<lambda>enrollment.
     and_then (closed_members enrollment ''enrollment'' [''requestSigningKeys''] [''mobileBindings'']) (\<lambda>_.
     and_then (array_member enrollment ''requestSigningKeys'') (\<lambda>key_items.
     if key_items = [] \<or> length key_items > MAX_PROVIDERS then Inl (bad p ''must hold at least one entry'')
     else
     and_then (try_map (request_signing_key X aid) key_items) (\<lambda>keys.
     if first_duplicate (map kid keys) \<noteq> None then Inl (bad p ''contains a duplicate kid'')
     else if first_duplicate (map (\<lambda>k. jwk_x (jwk k)) keys) \<noteq> None
     then Inl (bad p ''contains a duplicate public key'')
     else
     and_then (profile_bindings X aid enrollment) (\<lambda>bindings.
     Inr (keys, bindings)))))))"

fun collect_capabilities :: "rust_str list \<Rightarrow> json list \<Rightarrow> profile_error + rust_str list" where
  "collect_capabilities out [] = Inr out"
| "collect_capabilities out (item # items) =
     and_then (ok_or (bad ''capabilities'' ''entries must be strings'') (as_str item)) (\<lambda>capability.
     if capability \<notin> set CAPABILITIES then Inl (bad ''capabilities'' ''is not a known capability'')
     else if out \<noteq> [] \<and> last out \<ge> capability
     then Inl (bad ''capabilities'' ''must be strictly ascending without duplicates'')
     else collect_capabilities (out @ [capability]) items)"

definition profile_capabilities :: "json \<Rightarrow> profile_error + rust_str list" where
  "profile_capabilities j =
     (case optional_member j ''capabilities'' of
        None \<Rightarrow> Inr []
      | Some v \<Rightarrow>
          and_then (ok_or (bad ''capabilities'' ''is not an array'') (as_array v)) (\<lambda>items.
          if length items > MAX_CAPABILITIES then Inl (bad ''capabilities'' ''must hold at most 8 entries'')
          else collect_capabilities [] items))"

definition relay_members :: "rust_str list" where
  "relay_members =
     [''operatorId'', ''relayOrigin'', ''priority'', ''weight'', ''privacyPolicyDigest'',
      ''conformanceEvidenceDigest'']"

definition relay_descriptor :: "externs \<Rightarrow> json \<Rightarrow> profile_error + cbcl_relay_descriptor" where
  "relay_descriptor X item =
     and_then (closed_members item ''cbclPairingRelays[]'' relay_members []) (\<lambda>_.
     and_then (string_member item ''operatorId'') (\<lambda>operator.
     and_then (provider_id operator ''cbclPairingRelays[].operatorId'') (\<lambda>_.
     and_then (string_member item ''relayOrigin'') (\<lambda>org.
     and_then (map_err (\<lambda>_. bad ''cbclPairingRelays[].relayOrigin'' ''is not a canonical HTTPS origin'')
       (recognise_uri org ORIGIN)) (\<lambda>_.
     and_then (bounded_range item ''cbclPairingRelays[]'' ''priority'') (\<lambda>prio.
     and_then (bounded_range item ''cbclPairingRelays[]'' ''weight'') (\<lambda>wght.
     if wght = 0 then Inl (bad ''cbclPairingRelays[].weight'' ''must be positive'')
     else
     and_then (string_member item ''privacyPolicyDigest'') (\<lambda>privacy_text.
     and_then (map_err (\<lambda>_. bad ''cbclPairingRelays[].privacyPolicyDigest'' ''is not a canonical SHA-256 digest'')
       (decode_b64url_32 X privacy_text)) (\<lambda>privacy.
     and_then (string_member item ''conformanceEvidenceDigest'') (\<lambda>evidence_text.
     and_then (map_err (\<lambda>_. bad ''cbclPairingRelays[].conformanceEvidenceDigest'' ''is not a canonical SHA-256 digest'')
       (decode_b64url_32 X evidence_text)) (\<lambda>evidence.
     Inr \<lparr>operator_id = operator, relay_origin = org, priority = prio, weight = wght,
          privacy_policy_digest = privacy, conformance_evidence_digest = evidence,
          descriptor_digest = sha256_digest X (canonicalise item)\<rparr>)))))))))))"

definition profile_relays :: "externs \<Rightarrow> json \<Rightarrow> profile_error + cbcl_relay_descriptor list" where
  "profile_relays X j =
     (let p = ''cbclPairingRelays'' in
     and_then (array_member j p) (\<lambda>items.
     if items = [] \<or> length items > MAX_RELAYS then Inl (bad p ''must hold between 1 and 16 entries'')
     else
     and_then (try_map (relay_descriptor X) items) (\<lambda>out.
     if first_duplicate (map operator_id out) \<noteq> None then Inl (bad p ''contains a duplicate operator id'')
     else if first_duplicate (map relay_origin out) \<noteq> None then Inl (bad p ''contains a duplicate relay origin'')
     else Inr out)))"

definition state_resolver_of :: "json \<Rightarrow> profile_error + state_resolver" where
  "state_resolver_of item =
     and_then (closed_members item ''stateResolvers[]'' [''id'', ''url'', ''protocol''] []) (\<lambda>_.
     and_then (string_member item ''id'') (\<lambda>i.
     and_then (provider_id i ''stateResolvers[].id'') (\<lambda>_.
     and_then (string_member item ''protocol'') (\<lambda>proto.
     if proto \<noteq> ''did-crdt-service-v1''
     then Inl (bad ''stateResolvers[].protocol'' ''must be exactly did-crdt-service-v1'')
     else
     and_then (string_member item ''url'') (\<lambda>url.
     and_then (map_err (\<lambda>_. bad ''stateResolvers[].url'' ''is not a canonical HTTPS URL'')
       (recognise_uri url PROVIDER_URL)) (\<lambda>_.
     Inr \<lparr>resolver_id = i, resolver_url = url, protocol = ''did-crdt-service-v1''\<rparr>))))))"

definition profile_resolvers :: "json \<Rightarrow> profile_error + state_resolver list" where
  "profile_resolvers j =
     (let p = ''stateResolvers'' in
     and_then (array_member j p) (\<lambda>items.
     if items = [] \<or> length items > MAX_PROVIDERS then Inl (bad p ''must hold between 1 and 64 entries'')
     else
     and_then (try_map state_resolver_of items) (\<lambda>out.
     if first_duplicate (map resolver_id out) \<noteq> None then Inl (bad p ''contains a duplicate resolver id'')
     else Inr out)))"

definition projection_of :: "json \<Rightarrow> profile_error + projection_policy" where
  "projection_of j =
     and_then (closed_members j ''revocation.projection''
       [''type'', ''allocationUrl'', ''credentialBaseUrl'', ''maxAgeSeconds''] []) (\<lambda>_.
     and_then (string_member j ''type'') (\<lambda>kind.
     if kind \<noteq> ''BitstringStatusList''
     then Inl (bad ''revocation.projection.type'' ''must be exactly BitstringStatusList'')
     else
     and_then (string_member j ''allocationUrl'') (\<lambda>allocation.
     and_then (map_err (\<lambda>_. bad ''revocation.projection.allocationUrl'' ''is not a canonical HTTPS URL'')
       (recognise_uri allocation PROVIDER_URL)) (\<lambda>_.
     and_then (string_member j ''credentialBaseUrl'') (\<lambda>base.
     and_then (map_err (\<lambda>_. bad ''revocation.projection.credentialBaseUrl'' ''is not a canonical HTTPS URL'')
       (recognise_uri base PROVIDER_URL)) (\<lambda>_.
     and_then (bounded_positive j ''revocation.projection'' ''maxAgeSeconds'' MAX_PROJECTION_AGE_CEILING
       ''must be a positive integer of at most 3600'') (\<lambda>age.
     Inr \<lparr>projection_kind = ''BitstringStatusList'', allocation_url = allocation,
          credential_base_url = base, max_age_seconds = age\<rparr>)))))))"

definition profile_revocation :: "json \<Rightarrow> profile_error + revocation_policy" where
  "profile_revocation j =
     and_then (json_member j ''revocation'') (\<lambda>node.
     and_then (closed_members node ''revocation''
       [''method'', ''maxGrantLifetimeSeconds'', ''maxClosureAgeSeconds'', ''propagationSlaSeconds'']
       [''projection'']) (\<lambda>_.
     and_then (string_member node ''method'') (\<lambda>method.
     if method \<noteq> ''did-crdt-revocations-v1''
     then Inl (bad ''revocation.method'' ''must be exactly did-crdt-revocations-v1'')
     else
     and_then (bounded_positive node ''revocation'' ''maxGrantLifetimeSeconds'' MAX_GRANT_LIFETIME_CEILING
       ''must be a positive integer of at most 2592000'') (\<lambda>lifetime.
     and_then (bounded_positive node ''revocation'' ''maxClosureAgeSeconds'' MAX_CLOSURE_AGE_CEILING
       ''must be a positive integer of at most 3600'') (\<lambda>closure_age.
     and_then (bounded_positive node ''revocation'' ''propagationSlaSeconds'' MAX_PROPAGATION_SLA_CEILING
       ''must be a positive integer of at most 300'') (\<lambda>sla.
     and_then
       (case get node ''projection'' of
          None \<Rightarrow> Inr None
        | Some p \<Rightarrow> and_then (projection_of p) (\<lambda>policy. Inr (Some policy))) (\<lambda>proj.
     Inr \<lparr>revocation_method = ''did-crdt-revocations-v1'', max_grant_lifetime_seconds = lifetime,
          max_closure_age_seconds = closure_age, propagation_sla_seconds = sla, projection = proj\<rparr>)))))))"

section \<open>The profile\<close>

definition profile_from_value :: "externs \<Rightarrow> json \<Rightarrow> octets \<Rightarrow> profile_error + application_profile" where
  "profile_from_value X j canonical =
     and_then (closed_members j [] TOP_LEVEL_REQUIRED TOP_LEVEL_OPTIONAL) (\<lambda>_.
     and_then (integer_member j ''profileVersion'') (\<lambda>version.
     if version \<noteq> PROFILE_VERSION
     then Inl (bad ''profileVersion'' ''must be exactly 1 in this profile version'')
     else
     and_then (string_member j ''applicationId'') (\<lambda>id_text.
     and_then (map_err (\<lambda>_. bad ''applicationId'' ''is not a canonical HTTPS application identifier'')
       (parse_application_id id_text)) (\<lambda>aid.
     and_then (string_member j ''verifierAudience'') (\<lambda>audience.
     if audience \<noteq> app_text aid then Inl (bad ''verifierAudience'' ''must be identical to applicationId'')
     else
     and_then (string_member j ''accountAuthority'') (\<lambda>authority.
     and_then (map_err (\<lambda>_. bad ''accountAuthority'' ''is not a lower-case ASCII A-label DNS name'')
       (recognise_dns_name authority)) (\<lambda>_.
     and_then (profile_permissions j aid) (\<lambda>permissions.
     and_then (profile_enrollment X j aid) (\<lambda>(keys, bindings).
     and_then (profile_relays X j) (\<lambda>relays.
     and_then (profile_resolvers j) (\<lambda>resolvers.
     and_then (profile_revocation j) (\<lambda>policy.
     and_then (profile_capabilities j) (\<lambda>caps.
     Inr \<lparr>profile_canonical = canonical, profile_digest = sha256_digest X canonical,
          application_id = aid, account_authority = authority, allowed_permissions = permissions,
          enrollment_keys = keys, mobile_bindings = bindings, cbcl_pairing_relays = relays,
          state_resolvers = resolvers, revocation = policy, capabilities = caps\<rparr>)))))))))))))"

definition recognise_profile :: "externs \<Rightarrow> octets \<Rightarrow> profile_error + application_profile" where
  "recognise_profile X octs =
     (let limits = \<lparr>max_bytes = MAX_PROFILE_OCTETS, max_depth = MAX_PROFILE_DEPTH\<rparr> in
     and_then (map_err JsonFault (recognise_json octs limits)) (\<lambda>j.
     let canonical = canonicalise j in
     if canonical \<noteq> octs then Inl NotCanonical else profile_from_value X j canonical))"


section \<open>Members\<close>

lemma first_duplicate_from_None:
  "first_duplicate_from seen items = None \<longleftrightarrow> distinct items \<and> set seen \<inter> set items = {}"
  by (induction seen items rule: first_duplicate_from.induct) auto

lemma first_duplicate_None [simp]: "first_duplicate items = None \<longleftrightarrow> distinct items"
  by (simp add: first_duplicate_def first_duplicate_from_None)

lemma closed_members_Inr_iff: "closed_members j p req opt = Inr u \<longleftrightarrow> has_members j req opt"
proof (cases "as_object j")
  case None
  then show ?thesis by (cases j) (auto simp: closed_members_def has_members_def)
next
  case (Some ms)
  then have j: "j = Object ms" by (cases j) auto
  have "closed_members j p req opt = Inr u \<longleftrightarrow>
      (\<forall>m \<in> set ms. fst m \<in> set req \<or> fst m \<in> set opt) \<and> (\<forall>name \<in> set req. get j name \<noteq> None)"
    using Some by (simp add: closed_members_def res_iff case_prod_beta)
  also have "(\<forall>name \<in> set req. get j name \<noteq> None) \<longleftrightarrow> set req \<subseteq> fst ` set ms"
    unfolding j by (simp only: get_Object_None not_not subset_iff Ball_def)
  also have "(\<forall>m \<in> set ms. fst m \<in> set req \<or> fst m \<in> set opt) \<longleftrightarrow> fst ` set ms \<subseteq> set req \<union> set opt"
    by (simp add: image_subset_iff)
  finally show ?thesis by (simp add: has_members_def j conj_commute)
qed

lemma member_Inr_iff [res_iff]:
  "json_member j name = Inr v \<longleftrightarrow> get j name = Some v"
  "string_member j name = Inr s \<longleftrightarrow> (\<exists>v. get j name = Some v \<and> as_str v = Some s)"
  "integer_member j name = Inr n \<longleftrightarrow> (\<exists>v. get j name = Some v \<and> as_i64 v = Some n)"
  "array_member j name = Inr items \<longleftrightarrow> (\<exists>v. get j name = Some v \<and> as_array v = Some items)"
  by (auto simp: json_member_def string_member_def integer_member_def array_member_def res_iff)

lemma bounded_Inr_iff [res_iff]:
  "bounded_positive j p name ceiling reason = Inr n \<longleftrightarrow> get j name = Some (Integer n) \<and> 0 < n \<and> n \<le> ceiling"
  "bounded_range j p name = Inr n \<longleftrightarrow> get j name = Some (Integer n) \<and> 0 \<le> n \<and> n \<le> 65535"
  by (auto simp: bounded_positive_def bounded_range_def res_iff accessor_Some_iff)

section \<open>What a recognised profile promises\<close>

definition on_origin :: "app_id \<Rightarrow> uri_policy \<Rightarrow> rust_str \<Rightarrow> bool" where
  "on_origin aid policy s \<longleftrightarrow> (\<exists>u. recognise_uri s policy = Inr u \<and> origin u = app_origin aid)"

definition app_id_ok :: "app_id \<Rightarrow> bool" where
  "app_id_ok aid \<longleftrightarrow> on_origin aid APPLICATION_ID (app_text aid)"

definition permissions_ok :: "app_id \<Rightarrow> rust_str list \<Rightarrow> bool" where
  "permissions_ok aid ps \<longleftrightarrow>
     1 \<le> length ps \<and> length ps \<le> 64 \<and> sorted ps \<and> distinct ps \<and> (\<forall>s \<in> set ps. on_origin aid FRAGMENT_ID s)"

definition enrollment_keys_ok :: "externs \<Rightarrow> app_id \<Rightarrow> enrollment_key list \<Rightarrow> bool" where
  "enrollment_keys_ok X aid keys \<longleftrightarrow>
     1 \<le> length keys \<and> length keys \<le> 64 \<and> distinct (map kid keys) \<and>
     distinct (map (\<lambda>k. jwk_x (jwk k)) keys) \<and>
     (\<forall>k \<in> set keys. on_origin aid FRAGMENT_ID (kid k) \<and>
        decode_b64url_32 X (jwk_x (jwk k)) = Inr (public_key (jwk k)))"

fun binding_ok :: "externs \<Rightarrow> app_id \<Rightarrow> mobile_binding \<Rightarrow> bool" where
  "binding_ok X aid (Android i package certs) \<longleftrightarrow>
     (\<exists>c \<in> set certs. i = ''android:'' @ package @ '':'' @ c) \<and>
     (\<forall>c \<in> set certs. \<exists>digest. decode_b64url_32 X c = Inr digest)"
| "binding_ok X aid (Apple i team bundle uri) \<longleftrightarrow>
     i = ''apple:'' @ team @ '':'' @ bundle @ '':'' @ app_origin aid \<and> on_origin aid PROVIDER_URL uri"
| "binding_ok X aid (Web i org) \<longleftrightarrow> org = app_origin aid \<and> i = ''web:'' @ org"

definition relay_ok :: "externs \<Rightarrow> cbcl_relay_descriptor \<Rightarrow> bool" where
  "relay_ok X d \<longleftrightarrow>
     is_provider_id (operator_id d) \<and> is_ok (recognise_uri (relay_origin d) ORIGIN) \<and>
     0 \<le> priority d \<and> priority d \<le> 65535 \<and> 0 < weight d \<and> weight d \<le> 65535"

definition relays_ok :: "externs \<Rightarrow> cbcl_relay_descriptor list \<Rightarrow> bool" where
  "relays_ok X ds \<longleftrightarrow>
     1 \<le> length ds \<and> length ds \<le> 16 \<and> distinct (map operator_id ds) \<and> distinct (map relay_origin ds) \<and>
     (\<forall>d \<in> set ds. relay_ok X d)"

definition resolvers_ok :: "state_resolver list \<Rightarrow> bool" where
  "resolvers_ok rs \<longleftrightarrow>
     1 \<le> length rs \<and> length rs \<le> 64 \<and> distinct (map resolver_id rs) \<and>
     (\<forall>r \<in> set rs. is_provider_id (resolver_id r) \<and> protocol r = ''did-crdt-service-v1'' \<and>
        is_ok (recognise_uri (resolver_url r) PROVIDER_URL))"

definition revocation_ok :: "revocation_policy \<Rightarrow> bool" where
  "revocation_ok r \<longleftrightarrow>
     0 < max_grant_lifetime_seconds r \<and> max_grant_lifetime_seconds r \<le> 2592000 \<and>
     0 < max_closure_age_seconds r \<and> max_closure_age_seconds r \<le> 3600 \<and>
     0 < propagation_sla_seconds r \<and> propagation_sla_seconds r \<le> 300 \<and>
     (case projection r of None \<Rightarrow> True | Some p \<Rightarrow>
        0 < max_age_seconds p \<and> max_age_seconds p \<le> 3600 \<and>
        is_ok (recognise_uri (allocation_url p) PROVIDER_URL) \<and>
        is_ok (recognise_uri (credential_base_url p) PROVIDER_URL))"

definition capabilities_ok :: "rust_str list \<Rightarrow> bool" where
  "capabilities_ok cs \<longleftrightarrow> sorted cs \<and> distinct cs \<and> set cs \<subseteq> set CAPABILITIES"

definition profile_ok :: "externs \<Rightarrow> application_profile \<Rightarrow> bool" where
  "profile_ok X P \<longleftrightarrow>
     app_id_ok (application_id P) \<and> dns_name (account_authority P) \<and>
     permissions_ok (application_id P) (allowed_permissions P) \<and>
     enrollment_keys_ok X (application_id P) (enrollment_keys P) \<and>
     length (mobile_bindings P) \<le> 64 \<and> distinct (map binding_id (mobile_bindings P)) \<and>
     (\<forall>b \<in> set (mobile_bindings P). binding_ok X (application_id P) b) \<and>
     relays_ok X (cbcl_pairing_relays P) \<and> resolvers_ok (state_resolvers P) \<and>
     revocation_ok (revocation P) \<and> capabilities_ok (capabilities P)"

lemma list_all2_set_right: "list_all2 P xs ys \<Longrightarrow> y \<in> set ys \<Longrightarrow> \<exists>x \<in> set xs. P x y"
  by (metis in_set_conv_nth list_all2_conv_all_nth)

lemma permissions_recognised: "profile_permissions j aid = Inr ps \<Longrightarrow> permissions_ok aid ps"
  unfolding profile_permissions_def Let_def permissions_ok_def MAX_PERMISSIONS_def
  by (auto simp: res_iff on_origin_def strictly_ascending_distinct Suc_le_eq
      dest: list_all2_lengthD list_all2_set_right split: if_splits)

lemma jwk_recognised: "ed25519_jwk_of X j p = Inr k \<Longrightarrow> decode_b64url_32 X (jwk_x k) = Inr (public_key k)"
  unfolding ed25519_jwk_of_def by (auto simp: res_iff split: if_splits)

lemma android_recognised: "android_binding X j = Inr b \<Longrightarrow> binding_ok X aid b"
  unfolding android_binding_def Let_def
  by (auto simp: res_iff list_ex_iff dest: list_all2_set_right split: if_splits)

lemma apple_recognised: "apple_binding j aid = Inr b \<Longrightarrow> binding_ok X aid b"
  unfolding apple_binding_def Let_def by (auto simp: res_iff on_origin_def split: if_splits)

lemma web_recognised: "web_binding j aid = Inr b \<Longrightarrow> binding_ok X aid b"
  unfolding web_binding_def Let_def by (auto simp: res_iff split: if_splits)

lemma mobile_binding_recognised: "mobile_binding_of X j aid = Inr b \<Longrightarrow> binding_ok X aid b"
  unfolding mobile_binding_of_def
  by (auto simp: and_then_Inr_iff split: if_splits
      dest: android_recognised [of _ _ _ aid] apple_recognised web_recognised)

lemma signing_key_recognised:
  "request_signing_key X aid j = Inr k \<Longrightarrow>
   on_origin aid FRAGMENT_ID (kid k) \<and> decode_b64url_32 X (jwk_x (jwk k)) = Inr (public_key (jwk k))"
  unfolding request_signing_key_def Let_def
  by (auto simp: res_iff on_origin_def jwk_recognised split: if_splits)

lemma bindings_recognised:
  "profile_bindings X aid e = Inr bs \<Longrightarrow>
   length bs \<le> 64 \<and> distinct (map binding_id bs) \<and> (\<forall>b \<in> set bs. binding_ok X aid b)"
  unfolding profile_bindings_def Let_def MAX_PROVIDERS_def
  by (auto simp: res_iff dest: list_all2_lengthD list_all2_set_right mobile_binding_recognised
      split: option.splits if_splits)

lemma enrollment_recognised:
  assumes "profile_enrollment X j aid = Inr (keys, bs)"
  shows "enrollment_keys_ok X aid keys"
    and "length bs \<le> 64 \<and> distinct (map binding_id bs) \<and> (\<forall>b \<in> set bs. binding_ok X aid b)"
proof -
  from assms obtain items e where m: "list_all2 (\<lambda>i k. request_signing_key X aid i = Inr k) items keys"
    and l: "items \<noteq> []" "length items \<le> 64" and d: "distinct (map kid keys)"
      "distinct (map (\<lambda>k. jwk_x (jwk k)) keys)" and b: "profile_bindings X aid e = Inr bs"
    unfolding profile_enrollment_def Let_def MAX_PROVIDERS_def
    by (auto simp: and_then_Inr_iff try_map_Inr_iff split: if_splits)
  have "1 \<le> length keys \<and> length keys \<le> 64"
    using l list_all2_lengthD [OF m] by (cases items) auto
  then show "enrollment_keys_ok X aid keys"
    unfolding enrollment_keys_ok_def using d list_all2_set_right [OF m] signing_key_recognised by blast
  show "length bs \<le> 64 \<and> distinct (map binding_id bs) \<and> (\<forall>b \<in> set bs. binding_ok X aid b)"
    using bindings_recognised [OF b] .
qed

lemma relay_recognised: "relay_descriptor X j = Inr d \<Longrightarrow> relay_ok X d"
  unfolding relay_descriptor_def relay_ok_def provider_id_def
  by (auto simp: res_iff split: if_splits)

lemma relays_recognised: "profile_relays X j = Inr ds \<Longrightarrow> relays_ok X ds"
  unfolding profile_relays_def Let_def relays_ok_def MAX_RELAYS_def
  by (auto simp: res_iff Suc_le_eq dest: list_all2_lengthD list_all2_set_right relay_recognised
      split: if_splits)

lemma resolver_recognised:
  "state_resolver_of j = Inr r \<Longrightarrow> is_provider_id (resolver_id r) \<and> protocol r = ''did-crdt-service-v1'' \<and>
   is_ok (recognise_uri (resolver_url r) PROVIDER_URL)"
  unfolding state_resolver_of_def provider_id_def by (auto simp: res_iff split: if_splits)

lemma resolvers_recognised: "profile_resolvers j = Inr rs \<Longrightarrow> resolvers_ok rs"
  unfolding profile_resolvers_def Let_def resolvers_ok_def MAX_PROVIDERS_def
  by (auto simp: res_iff Suc_le_eq dest: list_all2_lengthD list_all2_set_right resolver_recognised
      split: if_splits)

lemma projection_recognised:
  "projection_of j = Inr p \<Longrightarrow> 0 < max_age_seconds p \<and> max_age_seconds p \<le> 3600 \<and>
   is_ok (recognise_uri (allocation_url p) PROVIDER_URL) \<and>
   is_ok (recognise_uri (credential_base_url p) PROVIDER_URL)"
  unfolding projection_of_def MAX_PROJECTION_AGE_CEILING_def
  by (auto simp: res_iff split: if_splits)

lemma revocation_recognised: "profile_revocation j = Inr r \<Longrightarrow> revocation_ok r"
proof -
  assume "profile_revocation j = Inr r"
  then obtain node lifetime age sla proj where
    b: "0 < lifetime" "lifetime \<le> 2592000" "0 < age" "age \<le> 3600" "0 < sla" "sla \<le> 300"
    and p: "(case get node ''projection'' of None \<Rightarrow> Inr None
        | Some p \<Rightarrow> and_then (projection_of p) (\<lambda>policy. Inr (Some policy))) = Inr proj"
    and r: "r = \<lparr>revocation_method = ''did-crdt-revocations-v1'', max_grant_lifetime_seconds = lifetime,
          max_closure_age_seconds = age, propagation_sla_seconds = sla, projection = proj\<rparr>"
    unfolding profile_revocation_def MAX_GRANT_LIFETIME_CEILING_def MAX_CLOSURE_AGE_CEILING_def
      MAX_PROPAGATION_SLA_CEILING_def and_then_Inr_iff bounded_Inr_iff if_Inl_Inr_iff
    by blast
  show ?thesis
  proof (cases proj)
    case None
    with b show ?thesis by (simp add: revocation_ok_def r)
  next
    case (Some q)
    with p obtain v where "projection_of v = Inr q" by (auto simp: res_iff split: option.splits)
    from projection_recognised [OF this] b Some show ?thesis by (simp add: revocation_ok_def r)
  qed
qed

lemma collect_capabilities_ok:
  "collect_capabilities out items = Inr cs \<Longrightarrow> sorted_wrt (<) out \<Longrightarrow> set out \<subseteq> set CAPABILITIES \<Longrightarrow>
   sorted_wrt (<) cs \<and> set cs \<subseteq> set CAPABILITIES"
proof (induction out items rule: collect_capabilities.induct)
  case (2 out item items)
  from "2.prems"(1) obtain c where c: "as_str item = Some c" "c \<in> set CAPABILITIES"
    "out = [] \<or> last out < c" "collect_capabilities (out @ [c]) items = Inr cs"
    by (auto simp: res_iff not_le split: if_splits)
  have "\<forall>x \<in> set out. x < c"
    using c(3) "2.prems"(2) by (cases out rule: rev_cases) (auto simp: sorted_wrt_append)
  then have "sorted_wrt (<) (out @ [c])" using "2.prems"(2) by (simp add: sorted_wrt_append)
  with c "2.prems"(3) show ?case by (intro "2.IH" [of c]) auto
qed simp

lemma capabilities_recognised: "profile_capabilities j = Inr cs \<Longrightarrow> capabilities_ok cs"
  using collect_capabilities_ok [of "[]" _ cs]
  unfolding profile_capabilities_def capabilities_ok_def
  by (auto simp: res_iff strict_sorted_iff split: option.splits if_splits)

lemma profile_from_value_ok:
  assumes "profile_from_value X j canonical = Inr P"
  shows "profile_ok X P" "profile_canonical P = canonical" "profile_digest P = sha256_digest X canonical"
    and "has_members j TOP_LEVEL_REQUIRED TOP_LEVEL_OPTIONAL"
proof -
  from assms obtain id_text aid audience authority permissions keys bindings relays resolvers policy caps
    where aid: "parse_application_id id_text = Inr aid" and auth: "recognise_dns_name authority = Inr ()"
      and perms: "profile_permissions j aid = Inr permissions"
      and enrol: "profile_enrollment X j aid = Inr (keys, bindings)"
      and relays: "profile_relays X j = Inr relays" and res: "profile_resolvers j = Inr resolvers"
      and pol: "profile_revocation j = Inr policy" and caps: "profile_capabilities j = Inr caps"
      and closed: "closed_members j [] TOP_LEVEL_REQUIRED TOP_LEVEL_OPTIONAL = Inr ()"
      and P: "P = \<lparr>profile_canonical = canonical, profile_digest = sha256_digest X canonical,
          application_id = aid, account_authority = authority, allowed_permissions = permissions,
          enrollment_keys = keys, mobile_bindings = bindings, cbcl_pairing_relays = relays,
          state_resolvers = resolvers, revocation = policy, capabilities = caps\<rparr>"
    unfolding profile_from_value_def
    by (auto simp: and_then_Inr_iff map_err_Inr_iff split: if_splits prod.splits)
  have "app_id_ok aid"
    using aid by (auto simp: parse_application_id_def res_iff app_id_ok_def on_origin_def)
  moreover have "dns_name authority" using auth by (simp add: recognise_dns_name_def recognise_host_iff)
  ultimately show "profile_ok X P"
    using permissions_recognised [OF perms] enrollment_recognised [OF enrol] relays_recognised [OF relays]
      resolvers_recognised [OF res] revocation_recognised [OF pol] capabilities_recognised [OF caps]
    by (simp add: profile_ok_def P)
  show "profile_canonical P = canonical" "profile_digest P = sha256_digest X canonical" by (simp_all add: P)
  show "has_members j TOP_LEVEL_REQUIRED TOP_LEVEL_OPTIONAL" using closed by (simp add: closed_members_Inr_iff)
qed

lemma recognise_profile_ok:
  assumes "recognise_profile X octs = Inr P"
  shows "profile_ok X P" "profile_canonical P = octs" "profile_digest P = sha256_digest X octs"
    and "is_canonical octs \<lparr>max_bytes = MAX_PROFILE_OCTETS, max_depth = MAX_PROFILE_DEPTH\<rparr> = Inr True"
    and "\<exists>j. json_wf j \<and> octs = canonicalise j \<and> has_members j TOP_LEVEL_REQUIRED TOP_LEVEL_OPTIONAL"
proof -
  from assms obtain j where
    j: "recognise_json octs \<lparr>max_bytes = MAX_PROFILE_OCTETS, max_depth = MAX_PROFILE_DEPTH\<rparr> = Inr j"
    and c: "canonicalise j = octs" and P: "profile_from_value X j octs = Inr P"
    by (auto simp: recognise_profile_def Let_def res_iff)
  note ok = profile_from_value_ok [OF P]
  show "profile_ok X P" "profile_canonical P = octs" "profile_digest P = sha256_digest X octs"
    by (rule ok)+
  show "is_canonical octs \<lparr>max_bytes = MAX_PROFILE_OCTETS, max_depth = MAX_PROFILE_DEPTH\<rparr> = Inr True"
    using j c by (simp add: is_canonical_def canonical_bytes_def)
  show "\<exists>j. json_wf j \<and> octs = canonicalise j \<and> has_members j TOP_LEVEL_REQUIRED TOP_LEVEL_OPTIONAL"
    using recognise_json_wf(1) [OF j] c ok(4) by blast
qed

section \<open>A profile to evaluate\<close>

text \<open>The smallest document of the language: one permission, one key, one relay, one resolver.\<close>

definition A43 :: rust_str where
  "A43 = replicate 43 (CHR ''A'')"

definition sample_profile :: json where
  "sample_profile = Object
     [(''accountAuthority'', String ''a.example''),
      (''allowedPermissions'', Array [String ''https://app.example/p#read'']),
      (''applicationId'', String ''https://app.example/app''),
      (''cbclPairingRelays'', Array [Object
         [(''conformanceEvidenceDigest'', String A43), (''operatorId'', String ''op-1''),
          (''priority'', Integer 0), (''privacyPolicyDigest'', String A43),
          (''relayOrigin'', String ''https://relay.example''), (''weight'', Integer 1)]]),
      (''enrollment'', Object [(''mobileBindings'', Array [Object
         [(''id'', String ''web:https://app.example''), (''origin'', String ''https://app.example''),
          (''platform'', String ''web'')]]),
       (''requestSigningKeys'', Array [Object
         [(''kid'', String ''https://app.example/keys#k1''),
          (''publicKeyJwk'', Object [(''crv'', String ''Ed25519''), (''kty'', String ''OKP''),
             (''x'', String A43)])]])]),
      (''profileVersion'', Integer 1),
      (''revocation'', Object
         [(''maxClosureAgeSeconds'', Integer 300), (''maxGrantLifetimeSeconds'', Integer 3600),
          (''method'', String ''did-crdt-revocations-v1''), (''propagationSlaSeconds'', Integer 60)]),
      (''stateResolvers'', Array [Object
         [(''id'', String ''r1''), (''protocol'', String ''did-crdt-service-v1''),
          (''url'', String ''https://state.example/'')]]),
      (''verifierAudience'', String ''https://app.example/app'')]"

definition sample_octets :: octets where
  "sample_octets = canonicalise sample_profile"

lemma sample_profile_wf: "json_wf sample_profile"
  by code_simp

lemma sample_profile_sorted: "sort_members sample_profile = sample_profile"
  by code_simp

lemma sample_profile_depth: "json_depth sample_profile \<le> MAX_PROFILE_DEPTH"
  by code_simp

lemma sample_octets_bound: "length sample_octets \<le> MAX_PROFILE_OCTETS"
proof -
  have "text_bound sample_profile \<le> 65536"
    by (simp add: sample_profile_def A43_def dec_int_def dec_nat_big)
  then show ?thesis
    using length_canonicalise [of sample_profile] by (simp add: sample_octets_def MAX_PROFILE_OCTETS_def)
qed

lemma sample_recognised:
  "recognise_json sample_octets \<lparr>max_bytes = MAX_PROFILE_OCTETS, max_depth = MAX_PROFILE_DEPTH\<rparr> =
   Inr sample_profile"
  using recognise_canonicalise [OF sample_profile_wf, where limits =
      "\<lparr>max_bytes = MAX_PROFILE_OCTETS, max_depth = MAX_PROFILE_DEPTH\<rparr>"]
    sample_profile_depth sample_octets_bound
  by (simp add: sample_octets_def sample_profile_sorted)

lemma sample_profile_from_value: "is_ok (profile_from_value sample_externs sample_profile canonical)"
proof -
  have "is_ok (profile_from_value sample_externs sample_profile [])" by code_simp
  then show ?thesis
    by (auto simp: profile_from_value_def not_isl_iff res_iff split: prod.splits)
qed

definition sample_application :: application_profile where
  "sample_application = projr (recognise_profile sample_externs sample_octets)"

lemma recognise_sample: "recognise_profile sample_externs sample_octets = Inr sample_application"
proof -
  have "recognise_profile sample_externs sample_octets =
      profile_from_value sample_externs sample_profile sample_octets"
    by (simp add: recognise_profile_def sample_recognised) (simp add: sample_octets_def)
  then show ?thesis
    using sample_profile_from_value [of sample_octets]
    by (auto simp: sample_application_def not_isl_iff)
qed

lemma profile_from_value_canonical:
  "profile_from_value X j canonical = Inr P \<Longrightarrow>
   profile_from_value X j [] = Inr (P\<lparr>profile_canonical := [], profile_digest := sha256_digest X []\<rparr>)"
  by (auto simp: profile_from_value_def res_iff split: prod.splits if_splits)

text \<open>Its fields, but for the octets and their digest, are those of the document evaluated.\<close>

lemma sample_application_value:
  "projr (profile_from_value sample_externs sample_profile []) =
     sample_application\<lparr>profile_canonical := [], profile_digest := sha256_digest sample_externs []\<rparr>"
proof -
  have "profile_from_value sample_externs sample_profile sample_octets = Inr sample_application"
    using recognise_sample
    unfolding recognise_profile_def Let_def sample_recognised map_err_simps and_then_simps
    by (simp add: sample_octets_def [symmetric])
  from profile_from_value_canonical [OF this] show ?thesis by simp
qed

section \<open>Properties\<close>

text \<open>
  C6. A recognised profile is the canonical spelling of a document with exactly the declared
  top-level members, its digest is over the octets received, and every member of the result is
  inside its grammar: identifiers on the application's origin, keys decoded and pairwise distinct,
  providers, relays and resolvers unique, every lifetime inside its ceiling.
\<close>

theorem recognise_profile_sound:
  assumes "recognise_profile X octs = Inr P"
  shows "profile_ok X P \<and> profile_canonical P = octs \<and> profile_digest P = sha256_digest X octs \<and>
    (\<exists>j. json_wf j \<and> octs = canonicalise j \<and> has_members j TOP_LEVEL_REQUIRED TOP_LEVEL_OPTIONAL)"
  using recognise_profile_ok [OF assms] by blast

theorem recognise_profile_sound_witness:
  "profile_ok sample_externs sample_application \<and> profile_canonical sample_application = sample_octets"
  using recognise_profile_sound [OF recognise_sample] by blast

end
