(* ===== verification/Calendar.thy ===== *)
theory Calendar
  imports Main
begin

text \<open>
  Hinnant's conversions between a proleptic Gregorian date and a count of days since 1970-01-01
  (the private functions of \<open>time.rs\<close>). The lemmas show that every day count names a date that
  exists, that the two conversions are inverse on the dates that exist, and which day counts fall in
  the years 0 to 9999.

  Rust's \<open>/\<close> and \<open>%\<close> truncate and HOL's \<open>div\<close> and \<open>mod\<close> round down; they are written for each
  other only where the dividend is not negative. A remainder compared with zero is the same either
  way.
\<close>

section \<open>The calendar\<close>

definition is_leap :: "int \<Rightarrow> bool" where
  "is_leap year \<longleftrightarrow> (year mod 4 = 0 \<and> year mod 100 \<noteq> 0) \<or> year mod 400 = 0"

definition days_in_month :: "int \<Rightarrow> int \<Rightarrow> int" where
  "days_in_month year month =
     (if month \<in> {1, 3, 5, 7, 8, 10, 12} then 31
      else if month \<in> {4, 6, 9, 11} then 30
      else if month = 2 \<and> is_leap year then 29
      else if month = 2 then 28
      else 0)"

definition days_from_civil :: "int \<Rightarrow> int \<Rightarrow> int \<Rightarrow> int" where
  "days_from_civil year month day =
     (let y = if month \<le> 2 then year - 1 else year;
          era = y div 400;
          yoe = y - era * 400;
          doy = (153 * (month + (if month > 2 then - 3 else 9)) + 2) div 5 + day - 1;
          doe = yoe * 365 + yoe div 4 - yoe div 100 + doy
      in era * 146097 + doe - 719468)"

definition civil_from_days :: "int \<Rightarrow> int \<times> int \<times> int" where
  "civil_from_days days =
     (let z = days + 719468;
          era = z div 146097;
          doe = z - era * 146097;
          yoe = (doe - doe div 1460 + doe div 36524 - doe div 146096) div 365;
          y = yoe + era * 400;
          doy = doe - (365 * yoe + yoe div 4 - yoe div 100);
          mp = (5 * doy + 2) div 153;
          d = doy - (153 * mp + 2) div 5 + 1;
          m = mp + (if mp < 10 then 3 else - 9)
      in (if m \<le> 2 then y + 1 else y, m, d))"

section \<open>Days and dates\<close>

definition valid_date :: "int \<times> int \<times> int \<Rightarrow> bool" where
  "valid_date = (\<lambda>(y, m, d). 1 \<le> m \<and> m \<le> 12 \<and> 1 \<le> d \<and> d \<le> days_in_month y m)"

text \<open>The days of a 400-year era before its year \<open>y\<close>, the years starting on the first of March.\<close>

definition era_days :: "int \<Rightarrow> int" where
  "era_days y = 365 * y + y div 4 - y div 100 + y div 400"

definition year_of_era :: "int \<Rightarrow> int" where
  "year_of_era doe = (doe - doe div 1460 + doe div 36524 - doe div 146096) div 365"

lemma div_Suc_le: "0 < k \<Longrightarrow> (x + 1) div k \<le> x div k + (1::int)"
  using zdiv_mono1 [of "x + 1" "x + k" k] div_add_self2 [of k x] by simp

lemma div_carry:
  fixes x a b :: int
  assumes "0 < a" "0 < b" "x div (a * b) < (x + 1) div (a * b)"
  shows "x div a < (x + 1) div a"
proof -
  have "(x + 1) div (a * b) = (x + 1) div a div b" "x div (a * b) = x div a div b"
    using assms(1,2) by (simp_all add: zdiv_zmult2_eq)
  moreover have "(x + 1) div a div b \<le> x div a div b" if "(x + 1) div a \<le> x div a"
    using that assms(2) by (rule zdiv_mono1)
  ultimately show ?thesis using assms(3) by linarith
qed

lemma year_of_era_step: "year_of_era x \<le> year_of_era (x + 1)"
proof -
  define f where "f = (\<lambda>x::int. x - x div 1460 + x div 36524 - x div 146096)"
  have a: "(x + 1) div 1460 \<le> x div 1460 + 1" and b: "x div 36524 \<le> (x + 1) div 36524"
    and c: "(x + 1) div 146096 \<le> x div 146096 + 1"
    by (simp_all add: div_Suc_le zdiv_mono1)
  have d: "x div 36524 < (x + 1) div 36524" if "x div 146096 < (x + 1) div 146096"
    using div_carry [of 36524 4 x] that by simp
  have "f x \<le> f (x + 1)" unfolding f_def using a b c d
    by (cases "x div 146096 < (x + 1) div 146096") linarith+
  then show ?thesis unfolding year_of_era_def f_def by (rule zdiv_mono1) simp
qed

lemma int_step_mono:
  fixes f :: "int \<Rightarrow> int"
  assumes "\<And>x. f x \<le> f (x + 1)"
  shows "x \<le> y \<Longrightarrow> f x \<le> f y"
proof (induction "nat (y - x)" arbitrary: y)
  case (Suc n)
  then have "f x \<le> f (y - 1)" by simp
  also have "\<dots> \<le> f (y - 1 + 1)" by (rule assms)
  finally show ?case by simp
qed simp

lemma year_of_era_mono: "x \<le> y \<Longrightarrow> year_of_era x \<le> year_of_era y"
  by (rule int_step_mono) (rule year_of_era_step)

lemma era_days_step: "era_days x \<le> era_days (x + 1)"
  using div_Suc_le [of 100 x] zdiv_mono1 [of x "x + 1" 4] zdiv_mono1 [of x "x + 1" 400]
  by (simp add: era_days_def)

lemma era_days_mono: "x \<le> y \<Longrightarrow> era_days x \<le> era_days y"
  by (rule int_step_mono) (rule era_days_step)

lemma year_of_era_table:
  "list_all (\<lambda>y. year_of_era (era_days y) = y \<and> year_of_era (era_days (y + 1) - 1) = y \<and>
     era_days y = 365 * y + y div 4 - y div 100) [0..399]"
  by code_simp

lemma era_days_split:
  assumes "0 \<le> x" "x < 146097"
  obtains y where "0 \<le> y" "y \<le> 399" "era_days y \<le> x" "x < era_days (y + 1)"
proof -
  have "\<exists>y \<in> {0..<int n}. era_days y \<le> x \<and> x < era_days (y + 1)" if "x < era_days (int n)" for n
    using that
  proof (induction n)
    case 0
    with assms show ?case by (simp add: era_days_def)
  next
    case (Suc n)
    show ?case
    proof (cases "x < era_days (int n)")
      case True
      with Suc.IH show ?thesis by force
    next
      case False
      with Suc.prems show ?thesis by (intro bexI [of _ "int n"]) (auto simp: add.commute)
    qed
  qed
  from this [of 400] assms have "\<exists>y \<in> {0..<400}. era_days y \<le> x \<and> x < era_days (y + 1)"
    by (simp add: era_days_def)
  then show thesis using that by force
qed

lemma year_of_era_eq:
  assumes "0 \<le> y" "y \<le> 399" "era_days y \<le> x" "x < era_days (y + 1)"
  shows "year_of_era x = y"
proof -
  have t: "year_of_era (era_days y) = y" "year_of_era (era_days (y + 1) - 1) = y"
    using bspec [OF year_of_era_table [unfolded list_all_iff], of y] assms(1,2) by auto
  have "year_of_era (era_days y) \<le> year_of_era x"
    and "year_of_era x \<le> year_of_era (era_days (y + 1) - 1)"
    using assms by (auto intro!: year_of_era_mono)
  with t show ?thesis by simp
qed


text \<open>The first of March plus \<open>doy\<close> days, with \<open>mp\<close> counting months from March.\<close>

definition month_start :: "int \<Rightarrow> int" where
  "month_start mp = (153 * mp + 2) div 5"

definition civil_month :: "int \<Rightarrow> int" where
  "civil_month mp = mp + (if mp < 10 then 3 else - 9)"

lemma month_table:
  "list_all (\<lambda>doy. let mp = (5 * doy + 2) div 153; d = doy - month_start mp + 1; m = civil_month mp
     in 0 \<le> mp \<and> mp \<le> 11 \<and> 1 \<le> d \<and> (doy = 365 \<longrightarrow> m = 2 \<and> d = 29) \<and>
        (doy < 365 \<longrightarrow> d \<le> (if m = 2 then 28 else days_in_month 0 m))) [0..365]"
  by code_simp

lemma month_inverse_table:
  "list_all (\<lambda>mp. list_all (\<lambda>d. (5 * (month_start mp + d - 1) + 2) div 153 = mp \<and>
       0 \<le> month_start mp + d - 1 \<and> (if mp = 11 \<and> d = 29 then month_start mp + d - 1 = 365
         else month_start mp + d - 1 < 365)) [1..days_in_month 0 (civil_month mp)]) [0..11]"
  by code_simp

lemma leap_table:
  "list_all (\<lambda>y. era_days (y + 1) - era_days y = (if is_leap (y + 1) then 366 else 365) \<and>
     0 \<le> era_days y \<and> era_days (y + 1) \<le> 146097) [0..399]"
  by code_simp

lemma is_leap_period: "is_leap (y + k * 400) = is_leap y"
proof -
  have "(y + k * 400) mod 4 = y mod 4" "(y + k * 400) mod 100 = y mod 100"
    "(y + k * 400) mod 400 = y mod 400"
    using mod_mult_self1 [of y "k * 100" 4] mod_mult_self1 [of y "k * 4" 100]
    by (simp_all add: mult.commute)
  then show ?thesis by (simp only: is_leap_def)
qed

lemma days_in_month_le: "days_in_month y m \<le> days_in_month 0 m"
  by (simp add: days_in_month_def is_leap_def)

lemma days_in_month_not_feb: "m \<noteq> 2 \<Longrightarrow> days_in_month y m = days_in_month 0 m"
  by (simp add: days_in_month_def)

lemma civil_from_days_parts:
  fixes days :: int
  defines "z \<equiv> days + 719468"
  defines "doe \<equiv> z mod 146097"
  defines "yoe \<equiv> year_of_era doe"
  defines "doy \<equiv> doe - era_days yoe"
  defines "mp \<equiv> (5 * doy + 2) div 153"
  shows "0 \<le> yoe" "yoe \<le> 399" "0 \<le> doy" "doy < (if is_leap (yoe + 1) then 366 else 365)"
    and "civil_from_days days =
      (yoe + z div 146097 * 400 + (if civil_month mp \<le> 2 then 1 else 0), civil_month mp,
       doy - month_start mp + 1)"
    and "era_days yoe = 365 * yoe + yoe div 4 - yoe div 100"
proof -
  have d: "0 \<le> doe" "doe < 146097" by (simp_all add: doe_def)
  obtain y where y: "0 \<le> y" "y \<le> 399" "era_days y \<le> doe" "doe < era_days (y + 1)"
    using era_days_split [OF d] .
  have yoe: "yoe = y" unfolding yoe_def by (rule year_of_era_eq [OF y])
  show "0 \<le> yoe" "yoe \<le> 399" "0 \<le> doy" using y by (simp_all add: yoe doy_def)
  have "era_days (y + 1) - era_days y = (if is_leap (y + 1) then 366 else 365)"
    using bspec [OF leap_table [unfolded list_all_iff], of y] y by simp
  with y show "doy < (if is_leap (yoe + 1) then 366 else 365)" by (simp add: yoe doy_def)
  show e: "era_days yoe = 365 * yoe + yoe div 4 - yoe div 100"
    using bspec [OF year_of_era_table [unfolded list_all_iff], of y] y by (simp add: yoe)
  have "z - z div 146097 * 146097 = doe" by (simp add: doe_def minus_div_mult_eq_mod)
  moreover have "doe - (365 * yoe + yoe div 4 - yoe div 100) = doy" by (simp add: doy_def e)
  ultimately show "civil_from_days days =
      (yoe + z div 146097 * 400 + (if civil_month mp \<le> 2 then 1 else 0), civil_month mp,
       doy - month_start mp + 1)"
    unfolding civil_from_days_def Let_def z_def [symmetric]
    by (simp only: year_of_era_def [symmetric] yoe_def [symmetric] mp_def [symmetric]
        month_start_def [symmetric] civil_month_def [symmetric]) simp
qed


lemma month_facts:
  fixes doy :: int
  defines "mp \<equiv> (5 * doy + 2) div 153"
  assumes "0 \<le> doy" "doy \<le> 365"
  shows "0 \<le> mp" "mp \<le> 11" "1 \<le> doy - month_start mp + 1"
    and "doy = 365 \<Longrightarrow> civil_month mp = 2 \<and> doy - month_start mp + 1 = 29"
    and "doy < 365 \<Longrightarrow>
      doy - month_start mp + 1 \<le> (if civil_month mp = 2 then 28 else days_in_month 0 (civil_month mp))"
  using bspec [OF month_table [unfolded list_all_iff], of doy, unfolded Let_def, folded mp_def] assms(2,3)
  by simp_all

lemma civil_month_range: "0 \<le> mp \<Longrightarrow> mp \<le> 11 \<Longrightarrow> 1 \<le> civil_month mp \<and> civil_month mp \<le> 12"
  by (simp add: civil_month_def)

lemma civil_month_shift:
  "0 \<le> mp \<Longrightarrow> mp \<le> 11 \<Longrightarrow> civil_month mp + (if civil_month mp > 2 then - 3 else 9) = mp"
  by (simp add: civil_month_def)

lemma civil_from_days_valid: "valid_date (civil_from_days days)"
proof -
  define z where "z = days + 719468"
  define yoe where "yoe = year_of_era (z mod 146097)"
  define doy where "doy = z mod 146097 - era_days yoe"
  define mp where "mp = (5 * doy + 2) div 153"
  define year where "year = yoe + z div 146097 * 400 + (if civil_month mp \<le> 2 then 1 else 0)"
  note parts = civil_from_days_parts [of days, folded z_def, folded yoe_def, folded doy_def,
      folded mp_def, folded year_def]
  have "doy \<le> 365" using parts(4) by (auto split: if_splits)
  note m = month_facts [OF parts(3) this, folded mp_def]
  have leap: "is_leap year = is_leap (yoe + 1)" if "civil_month mp \<le> 2"
  proof -
    have "year = yoe + 1 + z div 146097 * 400" using that by (simp add: year_def)
    then show ?thesis by (simp only: is_leap_period)
  qed
  have "doy - month_start mp + 1 \<le> days_in_month year (civil_month mp)"
  proof (cases "doy = 365")
    case True
    then have "is_leap (yoe + 1)" using parts(4) by (auto split: if_splits)
    with m(4) True leap show ?thesis by (simp add: days_in_month_def)
  next
    case False
    with \<open>doy \<le> 365\<close> have "doy < 365" by simp
    with m(5) show ?thesis
      using days_in_month_not_feb [of "civil_month mp" year]
      by (cases "civil_month mp = 2") (simp_all add: days_in_month_def split: if_splits)
  qed
  with m(1-3) civil_month_range [OF m(1,2)] show ?thesis
    by (simp add: parts(5) valid_date_def)
qed

lemma days_from_civil_of_days: "(case civil_from_days days of (y, m, d) \<Rightarrow> days_from_civil y m d) = days"
proof -
  define z where "z = days + 719468"
  define yoe where "yoe = year_of_era (z mod 146097)"
  define doy where "doy = z mod 146097 - era_days yoe"
  define mp where "mp = (5 * doy + 2) div 153"
  note parts = civil_from_days_parts [of days, folded z_def, folded yoe_def, folded doy_def,
      folded mp_def]
  have "doy \<le> 365" using parts(4) by (auto split: if_splits)
  note m = month_facts [OF parts(3) this, folded mp_def]
  define era where "era = z div 146097"
  have e: "(yoe + era * 400) div 400 = era" "yoe + era * 400 - era * 400 = yoe"
    using parts(1,2) by simp_all
  have y: "(if civil_month mp \<le> 2 then yoe + era * 400 + (if civil_month mp \<le> 2 then 1 else 0) - 1
      else yoe + era * 400 + (if civil_month mp \<le> 2 then 1 else 0)) = yoe + era * 400"
    by simp
  have "yoe * 365 + yoe div 4 - yoe div 100 = era_days yoe" using parts(6) by simp
  moreover have "era * 146097 + (era_days yoe + (month_start mp + (doy - month_start mp + 1) - 1)) = z"
    by (simp add: doy_def era_def)
  ultimately show ?thesis
    unfolding parts(5) days_from_civil_def Let_def prod.case era_def [symmetric] y e
      civil_month_shift [OF m(1,2)] month_start_def [symmetric]
    by (simp add: z_def)
qed


lemma civil_from_days_from_civil:
  assumes "valid_date (y, m, d)"
  shows "civil_from_days (days_from_civil y m d) = (y, m, d)"
proof -
  define mp where "mp = m + (if m > 2 then - 3 else 9)"
  define yy where "yy = (if m \<le> 2 then y - 1 else y)"
  define era where "era = yy div 400"
  define yoe where "yoe = yy - era * 400"
  define doy where "doy = month_start mp + d - 1"
  have v: "1 \<le> m" "m \<le> 12" "1 \<le> d" "d \<le> days_in_month y m" using assms by (simp_all add: valid_date_def)
  have mp: "0 \<le> mp" "mp \<le> 11" "civil_month mp = m" using v by (auto simp: mp_def civil_month_def)
  have "yoe = yy mod 400" by (simp add: yoe_def era_def minus_div_mult_eq_mod)
  then have yoe: "0 \<le> yoe" "yoe \<le> 399" by simp_all
  have leap: "is_leap y = is_leap (yoe + 1)" if "m \<le> 2"
  proof -
    have "y = yoe + 1 + era * 400" using that by (simp add: yoe_def yy_def)
    then show ?thesis by (simp only: is_leap_period)
  qed
  have "d \<le> days_in_month 0 (civil_month mp)" using v(4) days_in_month_le [of y m] mp(3) by simp
  then have inv: "(5 * doy + 2) div 153 = mp \<and> 0 \<le> doy \<and>
      (if mp = 11 \<and> d = 29 then doy = 365 else doy < 365)"
    using bspec [OF bspec [OF month_inverse_table [unfolded list_all_iff], of mp], of d] mp v(3)
    unfolding doy_def set_upto atLeastAtMost_iff by blast
  have ed: "era_days (yoe + 1) - era_days yoe = (if is_leap (yoe + 1) then 366 else 365)"
    "0 \<le> era_days yoe" "era_days (yoe + 1) \<le> 146097"
    using bspec [OF leap_table [unfolded list_all_iff], of yoe] yoe by simp_all
  have "doy < era_days (yoe + 1) - era_days yoe"
  proof (cases "mp = 11 \<and> d = 29")
    case True
    then have "m = 2" "doy = 365" using mp(3) inv by (simp_all add: civil_month_def)
    with True v(4) leap show ?thesis by (simp add: ed(1) days_in_month_def split: if_splits)
  qed (use inv ed(1) in auto)
  then have doe: "era_days yoe \<le> era_days yoe + doy" "era_days yoe + doy < era_days (yoe + 1)"
    using inv by simp_all
  have eq: "era_days yoe = 365 * yoe + yoe div 4 - yoe div 100"
    using bspec [OF year_of_era_table [unfolded list_all_iff], of yoe] yoe by simp
  have z: "days_from_civil y m d + 719468 = era_days yoe + doy + era * 146097"
    unfolding days_from_civil_def Let_def mp_def [symmetric] yy_def [symmetric] era_def [symmetric]
      yoe_def [symmetric] month_start_def [symmetric] eq doy_def
    by simp
  have zd: "(days_from_civil y m d + 719468) div 146097 = era"
    and zm: "(days_from_civil y m d + 719468) mod 146097 = era_days yoe + doy"
    unfolding z using doe ed(2,3) inv by simp_all
  have "year_of_era (era_days yoe + doy) = yoe" using year_of_era_eq [OF yoe doe] .
  then have "civil_from_days (days_from_civil y m d) =
      (yoe + era * 400 + (if civil_month mp \<le> 2 then 1 else 0), civil_month mp, doy - month_start mp + 1)"
    using civil_from_days_parts(5) [of "days_from_civil y m d"] inv by (simp add: zd zm)
  moreover have "yoe + era * 400 + (if m \<le> 2 then 1 else 0) = y" by (simp add: yoe_def yy_def)
  ultimately show ?thesis by (simp add: mp(3) doy_def)
qed


section \<open>The years a stamp can name\<close>

lemma days_from_civil_era_days:
  "days_from_civil y m d =
     era_days (if m \<le> 2 then y - 1 else y) + month_start (m + (if m > 2 then - 3 else 9)) + d - 1 - 719468"
proof -
  define yy where "yy = (if m \<le> 2 then y - 1 else y)"
  have *: "era_days yy = yy div 400 * 146097 +
      ((yy - yy div 400 * 400) * 365 + (yy - yy div 400 * 400) div 4 - (yy - yy div 400 * 400) div 100)"
  proof -
    obtain a b where ab: "yy = a * 400 + b" "0 \<le> b" "b < 400" and a: "a = yy div 400"
      using div_mult_mod_eq [of yy 400] by (metis pos_mod_bound pos_mod_sign zero_less_numeral)
    have "(a * 400 + b) div 4 = a * 100 + b div 4" "(a * 400 + b) div 100 = a * 4 + b div 100"
      by simp_all
    moreover have "(a * 400 + b) div 400 = a" using ab(2,3) by simp
    ultimately show ?thesis unfolding a [symmetric] unfolding ab(1) era_days_def by simp
  qed
  show ?thesis
    unfolding days_from_civil_def Let_def yy_def [symmetric] month_start_def [symmetric] * by simp
qed

lemma month_start_table:
  "list_all (\<lambda>m. let start = month_start (m + (if m > 2 then - 3 else 9)); n = days_in_month 0 m
     in (if m \<le> 2 then 306 \<le> start \<and> start + n \<le> 366 else 0 \<le> start \<and> start + n \<le> 306)) [1..12]"
  by code_simp

lemma month_start_bounds:
  assumes "valid_date (y, m, d)"
  defines "doy \<equiv> month_start (m + (if m > 2 then - 3 else 9)) + d - 1"
  shows "m \<le> 2 \<Longrightarrow> 306 \<le> doy \<and> doy \<le> 365" and "2 < m \<Longrightarrow> 0 \<le> doy \<and> doy \<le> 305"
proof -
  have v: "1 \<le> m" "m \<le> 12" "1 \<le> d" "d \<le> days_in_month 0 m"
    using assms(1) days_in_month_le [of y m] by (simp_all add: valid_date_def)
  then show "m \<le> 2 \<Longrightarrow> 306 \<le> doy \<and> doy \<le> 365" and "2 < m \<Longrightarrow> 0 \<le> doy \<and> doy \<le> 305"
    unfolding doy_def using bspec [OF month_start_table [unfolded list_all_iff], of m]
    by (simp_all add: Let_def)
qed

lemma year_range_iff:
  assumes "valid_date (y, m, d)"
  shows "(0 \<le> y \<and> y \<le> 9999) \<longleftrightarrow>
    (- 719528 \<le> days_from_civil y m d \<and> days_from_civil y m d \<le> 2932896)"
proof -
  define doy where "doy = month_start (m + (if m > 2 then - 3 else 9)) + d - 1"
  note b = month_start_bounds [OF assms, folded doy_def]
  have c: "days_from_civil y m d = era_days (if m \<le> 2 then y - 1 else y) + doy - 719468"
    by (simp add: days_from_civil_era_days doy_def)
  have e: "era_days (- 2) = - 731" "era_days (- 1) = - 366" "era_days 0 = 0" "era_days 9998 = 3651694"
    "era_days 9999 = 3652059" "era_days 10000 = 3652425"
    by (simp_all add: era_days_def)
  show ?thesis
  proof (cases "m \<le> 2")
    case True
    with b c e show ?thesis
      using era_days_mono [of "-1" "y - 1"] era_days_mono [of "y - 1" "9998"]
        era_days_mono [of "y - 1" "-2"] era_days_mono [of 9999 "y - 1"]
      by (cases "0 \<le> y"; cases "y \<le> 9999") simp_all
  next
    case False
    with b c e show ?thesis
      using era_days_mono [of 0 y] era_days_mono [of y 9999]
        era_days_mono [of y "-1"] era_days_mono [of 10000 y]
      by (cases "0 \<le> y"; cases "y \<le> 9999") simp_all
  qed
qed


end
