(* ===== verification/Timestamp.thy ===== *)
theory Timestamp
  imports Calendar Codec
begin

text \<open>
  The one spelling of a UTC \<open>dateTimeStamp\<close> (\<open>time.rs\<close>): its recogniser and its printer. The
  lemmas give the recogniser's verdict on every string, and show that it accepts exactly the strings
  the printer produces for the instants of the years 0 to 9999.
\<close>

section \<open>The grammar\<close>

datatype time_error = Malformed | OutOfRange

definition STAMP_CHARS :: nat where
  "STAMP_CHARS = 20"

definition stamp_punctuation :: "(nat \<times> octet) list" where
  "stamp_punctuation =
     [(4, CHR ''-''), (7, CHR ''-''), (10, CHR ''T''), (13, CHR '':''), (16, CHR '':''), (19, CHR ''Z'')]"

definition stamp_digits :: "(nat \<times> nat) list" where
  "stamp_digits = [(0, 4), (5, 2), (8, 2), (11, 2), (14, 2), (17, 2)]"

text \<open>\<open>text.get(start..start + len)\<close> of octets.\<close>

definition str_get :: "nat \<Rightarrow> nat \<Rightarrow> 'a list \<Rightarrow> 'a list option" where
  "str_get start len xs = (if start + len \<le> length xs then Some (take len (drop start xs)) else None)"

definition stamp_num :: "rust_str \<Rightarrow> nat \<Rightarrow> nat \<Rightarrow> time_error + int" where
  "stamp_num s start len =
     and_then (ok_or Malformed (str_get start len s)) (\<lambda>part. ok_or Malformed (parse_i64 part))"

definition parse_date_time_stamp :: "rust_str \<Rightarrow> time_error + unix_seconds" where
  "parse_date_time_stamp s =
     and_then (ensure (length s = STAMP_CHARS) Malformed) (\<lambda>_.
     and_then (try_each (\<lambda>(index, expected).
       ensure (index < length s \<and> s ! index = expected) Malformed) stamp_punctuation) (\<lambda>_.
     and_then (try_each (\<lambda>(start, len).
       and_then (ok_or Malformed (str_get start len s)) (\<lambda>part.
       ensure (list_all is_ascii_digit part) Malformed)) stamp_digits) (\<lambda>_.
     and_then (stamp_num s 0 4) (\<lambda>year.
     and_then (stamp_num s 5 2) (\<lambda>month.
     and_then (stamp_num s 8 2) (\<lambda>day.
     and_then (stamp_num s 11 2) (\<lambda>hour.
     and_then (stamp_num s 14 2) (\<lambda>minute.
     and_then (stamp_num s 17 2) (\<lambda>second.
     if \<not> (1 \<le> month \<and> month \<le> 12) \<or> day < 1 \<or> day > days_in_month year month then Inl OutOfRange
     else if hour > 23 \<or> minute > 59 \<or> second > 59 then Inl OutOfRange
     else Inr (days_from_civil year month day * 86400 + hour * 3600 + minute * 60 + second))))))))))"

definition format_date_time_stamp :: "unix_seconds \<Rightarrow> rust_str" where
  "format_date_time_stamp instant =
     (let days = instant div 86400; rest = instant mod 86400; (year, month, day) = civil_from_days days
      in fmt_padded 4 year @ ''-'' @ fmt_padded 2 month @ ''-'' @ fmt_padded 2 day @ ''T'' @
         fmt_padded 2 (rest div 3600) @ '':'' @ fmt_padded 2 ((rest mod 3600) div 60) @ '':'' @
         fmt_padded 2 (rest mod 60) @ ''Z'')"

section \<open>The instants a stamp can name\<close>

definition stamp_range :: "unix_seconds \<Rightarrow> bool" where
  "stamp_range t \<longleftrightarrow> - 62167219200 \<le> t \<and> t \<le> 253402300799"

section \<open>Stamps\<close>

lemma str_get_append [simp]: "length xs = n \<Longrightarrow> length ys = k \<Longrightarrow> str_get n k (xs @ ys @ zs) = Some ys"
  by (simp add: str_get_def)

lemma str_get_Some_iff: "str_get n k xs = Some ys \<longleftrightarrow> n + k \<le> length xs \<and> ys = take k (drop n xs)"
  by (auto simp: str_get_def)

lemma digits_head_no_sign:
  "list_all is_ascii_digit s \<Longrightarrow> s \<noteq> [] \<Longrightarrow> length s \<le> 18 \<Longrightarrow> parse_i64 s = Some (int (dec_value s))"
proof (cases s)
  case (Cons c cs)
  assume s: "list_all is_ascii_digit s" "length s \<le> 18"
  then have "c \<noteq> CHR ''-''" "c \<noteq> CHR ''+''" by (auto simp: Cons is_ascii_digit_def)
  moreover have "parse_digits s = Some (dec_value s)" using s by (simp add: parse_digits_def Cons)
  moreover have "dec_value s < 10 ^ 18"
    using dec_value_bound [OF s(1)] power_increasing [OF s(2), of "10::nat"] by linarith
  then have "is_i64 (int (dec_value s))" by (simp add: is_i64_def i64_min_def i64_max_def)
  ultimately show ?thesis by (simp add: parse_i64_def Cons)
qed simp

lemma stamp_num_digits:
  assumes "str_get n k s = Some ds" "list_all is_ascii_digit ds" "0 < k" "k \<le> 4"
  shows "stamp_num s n k = Inr (int (dec_value ds))"
proof -
  have "length ds = k" using assms(1) by (auto simp: str_get_Some_iff)
  then have "parse_i64 ds = Some (int (dec_value ds))"
    using assms(2-4) by (intro digits_head_no_sign) auto
  then show ?thesis by (simp add: stamp_num_def assms(1))
qed

text \<open>A stamp is its six fields and the punctuation between them.\<close>

definition stamp_text :: "rust_str \<Rightarrow> rust_str \<Rightarrow> rust_str \<Rightarrow> rust_str \<Rightarrow> rust_str \<Rightarrow> rust_str \<Rightarrow> rust_str" where
  "stamp_text Y M D h m s = Y @ ''-'' @ M @ ''-'' @ D @ ''T'' @ h @ '':'' @ m @ '':'' @ s @ ''Z''"

definition stamp_fields :: "rust_str list \<Rightarrow> bool" where
  "stamp_fields fs \<longleftrightarrow> map length fs = [4, 2, 2, 2, 2, 2] \<and> list_all (list_all is_ascii_digit) fs"

lemma stamp_fields_6:
  "stamp_fields [Y, M, D, h, m, s] \<longleftrightarrow>
     length Y = 4 \<and> length M = 2 \<and> length D = 2 \<and> length h = 2 \<and> length m = 2 \<and> length s = 2 \<and>
     list_all is_ascii_digit Y \<and> list_all is_ascii_digit M \<and> list_all is_ascii_digit D \<and>
     list_all is_ascii_digit h \<and> list_all is_ascii_digit m \<and> list_all is_ascii_digit s"
  by (auto simp: stamp_fields_def)

lemma stamp_text_get:
  assumes "stamp_fields [Y, M, D, h, m, s]"
  shows "str_get 0 4 (stamp_text Y M D h m s) = Some Y" "str_get 5 2 (stamp_text Y M D h m s) = Some M"
    "str_get 8 2 (stamp_text Y M D h m s) = Some D" "str_get 11 2 (stamp_text Y M D h m s) = Some h"
    "str_get 14 2 (stamp_text Y M D h m s) = Some m" "str_get 17 2 (stamp_text Y M D h m s) = Some s"
  using assms
    str_get_append [of "[]" 0 Y 4 "''-'' @ M @ ''-'' @ D @ ''T'' @ h @ '':'' @ m @ '':'' @ s @ ''Z''"]
    str_get_append [of "Y @ ''-''" 5 M 2 "''-'' @ D @ ''T'' @ h @ '':'' @ m @ '':'' @ s @ ''Z''"]
    str_get_append [of "Y @ ''-'' @ M @ ''-''" 8 D 2 "''T'' @ h @ '':'' @ m @ '':'' @ s @ ''Z''"]
    str_get_append [of "Y @ ''-'' @ M @ ''-'' @ D @ ''T''" 11 h 2 "'':'' @ m @ '':'' @ s @ ''Z''"]
    str_get_append [of "Y @ ''-'' @ M @ ''-'' @ D @ ''T'' @ h @ '':''" 14 m 2 "'':'' @ s @ ''Z''"]
    str_get_append [of "Y @ ''-'' @ M @ ''-'' @ D @ ''T'' @ h @ '':'' @ m @ '':''" 17 s 2 "''Z''"]
  by (simp_all add: stamp_fields_6 stamp_text_def)


lemma list_20:
  assumes "length s = 20"
  obtains c0 c1 c2 c3 c4 c5 c6 c7 c8 c9 c10 c11 c12 c13 c14 c15 c16 c17 c18 c19
  where "s = [c0, c1, c2, c3, c4, c5, c6, c7, c8, c9, c10, c11, c12, c13, c14, c15, c16, c17, c18, c19]"
  using assms that by (auto simp: length_Suc_conv numeral_eq_Suc)

lemma stamp_shape:
  assumes "length s = 20" "\<forall>(i, c) \<in> set stamp_punctuation. s ! i = c"
    "\<forall>(i, k) \<in> set stamp_digits. list_all is_ascii_digit (take k (drop i s))"
  obtains Y M D h m sec where "stamp_fields [Y, M, D, h, m, sec]" "s = stamp_text Y M D h m sec"
proof -
  from assms(1) obtain c0 c1 c2 c3 c4 c5 c6 c7 c8 c9 c10 c11 c12 c13 c14 c15 c16 c17 c18 c19
    where s: "s = [c0, c1, c2, c3, c4, c5, c6, c7, c8, c9, c10, c11, c12, c13, c14, c15, c16, c17, c18, c19]"
    by (rule list_20)
  show thesis
  proof (rule that)
    show "stamp_fields [[c0, c1, c2, c3], [c5, c6], [c8, c9], [c11, c12], [c14, c15], [c17, c18]]"
      using assms(3) by (simp add: stamp_fields_6 stamp_digits_def s)
    show "s = stamp_text [c0, c1, c2, c3] [c5, c6] [c8, c9] [c11, c12] [c14, c15] [c17, c18]"
      using assms(2) by (simp add: stamp_text_def stamp_punctuation_def s)
  qed
qed

definition stamp_value :: "rust_str \<Rightarrow> rust_str \<Rightarrow> rust_str \<Rightarrow> rust_str \<Rightarrow> rust_str \<Rightarrow> rust_str \<Rightarrow> int" where
  "stamp_value Y M D h m s =
     days_from_civil (int (dec_value Y)) (int (dec_value M)) (int (dec_value D)) * 86400 +
     int (dec_value h) * 3600 + int (dec_value m) * 60 + int (dec_value s)"

definition stamp_exists :: "rust_str \<Rightarrow> rust_str \<Rightarrow> rust_str \<Rightarrow> rust_str \<Rightarrow> rust_str \<Rightarrow> rust_str \<Rightarrow> bool" where
  "stamp_exists Y M D h m s \<longleftrightarrow>
     valid_date (int (dec_value Y), int (dec_value M), int (dec_value D)) \<and>
     dec_value h \<le> 23 \<and> dec_value m \<le> 59 \<and> dec_value s \<le> 59"

lemma stamp_text_nth:
  assumes "stamp_fields [Y, M, D, h, m, s]"
  shows "length (stamp_text Y M D h m s) = 20"
    and "\<forall>(i, c) \<in> set stamp_punctuation. stamp_text Y M D h m s ! i = c"
  using assms by (auto simp: stamp_text_def stamp_fields_6 stamp_punctuation_def nth_append nth_Cons')

lemma parse_stamp_text:
  assumes "stamp_fields [Y, M, D, h, m, s]"
  shows "parse_date_time_stamp (stamp_text Y M D h m s) =
    (if stamp_exists Y M D h m s then Inr (stamp_value Y M D h m s) else Inl OutOfRange)"
proof -
  let ?t = "stamp_text Y M D h m s"
  have f: "list_all is_ascii_digit Y" "list_all is_ascii_digit M" "list_all is_ascii_digit D"
    "list_all is_ascii_digit h" "list_all is_ascii_digit m" "list_all is_ascii_digit s"
    using assms by (simp_all add: stamp_fields_6)
  note n = stamp_text_nth [OF assms]
  note g = stamp_text_get [OF assms]
  have p: "try_each (\<lambda>(i, c). ensure (i < length ?t \<and> ?t ! i = c) Malformed) stamp_punctuation = Inr ()"
    using n by (simp add: stamp_punctuation_def)
  have d: "try_each (\<lambda>(start, len). and_then (ok_or Malformed (str_get start len ?t))
      (\<lambda>part. ensure (list_all is_ascii_digit part) Malformed)) stamp_digits = Inr ()"
    using f by (simp add: stamp_digits_def g)
  have v: "stamp_num ?t 0 4 = Inr (int (dec_value Y))" "stamp_num ?t 5 2 = Inr (int (dec_value M))"
    "stamp_num ?t 8 2 = Inr (int (dec_value D))" "stamp_num ?t 11 2 = Inr (int (dec_value h))"
    "stamp_num ?t 14 2 = Inr (int (dec_value m))" "stamp_num ?t 17 2 = Inr (int (dec_value s))"
    by (intro stamp_num_digits g f; simp)+
  show ?thesis
    unfolding parse_date_time_stamp_def p d v and_then_simps
    unfolding STAMP_CHARS_def n(1) simp_thms ensure_simps and_then_simps
    by (auto simp: stamp_exists_def stamp_value_def valid_date_def)
qed

lemma and_then_not_OutOfRange:
  fixes r :: "time_error + unit"
  assumes "and_then r f = Inr v \<or> and_then r f = Inl OutOfRange" "r \<noteq> Inl OutOfRange"
  shows "r = Inr () \<and> (f () = Inr v \<or> f () = Inl OutOfRange)"
  using assms by (cases r) auto

lemma try_each_not_OutOfRange:
  "(\<And>x. f x \<noteq> Inl OutOfRange) \<Longrightarrow> try_each f xs \<noteq> Inl OutOfRange"
  by (induction xs) (auto simp: res_iff)

lemma parse_stamp_shape:
  assumes "parse_date_time_stamp t = Inr v \<or> parse_date_time_stamp t = Inl OutOfRange"
  obtains Y M D h m s where "stamp_fields [Y, M, D, h, m, s]" "t = stamp_text Y M D h m s"
proof (rule stamp_shape)
  have n1: "ensure b Malformed \<noteq> Inl OutOfRange" for b by (simp add: ensure_def)
  have n2: "try_each (\<lambda>(i, c). ensure (i < length t \<and> t ! i = c) Malformed) stamp_punctuation
      \<noteq> Inl OutOfRange"
    by (rule try_each_not_OutOfRange) (auto simp: n1)
  have n3: "try_each (\<lambda>(start, len). and_then (ok_or Malformed (str_get start len t))
      (\<lambda>part. ensure (list_all is_ascii_digit part) Malformed)) stamp_digits \<noteq> Inl OutOfRange"
    by (rule try_each_not_OutOfRange) (auto simp: n1 res_iff)
  note s1 = and_then_not_OutOfRange [OF assms [unfolded parse_date_time_stamp_def] n1]
  note s2 = and_then_not_OutOfRange [OF conjunct2 [OF s1] n2]
  note s3 = and_then_not_OutOfRange [OF conjunct2 [OF s2] n3]
  show "length t = 20" using conjunct1 [OF s1] by (simp add: STAMP_CHARS_def res_iff)
  show "\<forall>(i, c) \<in> set stamp_punctuation. t ! i = c"
    using conjunct1 [OF s2] by (auto simp: res_iff)
  show "\<forall>(i, k) \<in> set stamp_digits. list_all is_ascii_digit (take k (drop i t))"
    using conjunct1 [OF s3] by (fastforce simp: res_iff str_get_Some_iff)
qed


text \<open>The verdict on every string.\<close>

lemma parse_date_time_stamp_Inr_iff:
  "parse_date_time_stamp t = Inr v \<longleftrightarrow>
     (\<exists>Y M D h m s. stamp_fields [Y, M, D, h, m, s] \<and> t = stamp_text Y M D h m s \<and>
        stamp_exists Y M D h m s \<and> v = stamp_value Y M D h m s)"
proof
  assume v: "parse_date_time_stamp t = Inr v"
  then obtain Y M D h m s where f: "stamp_fields [Y, M, D, h, m, s]" and t: "t = stamp_text Y M D h m s"
    using parse_stamp_shape by blast
  have "stamp_exists Y M D h m s \<and> v = stamp_value Y M D h m s"
    using v parse_stamp_text [OF f] by (simp add: t split: if_splits)
  with f t show "\<exists>Y M D h m s. stamp_fields [Y, M, D, h, m, s] \<and> t = stamp_text Y M D h m s \<and>
      stamp_exists Y M D h m s \<and> v = stamp_value Y M D h m s" by blast
qed (auto simp: parse_stamp_text)

lemma parse_date_time_stamp_OutOfRange_iff:
  "parse_date_time_stamp t = Inl OutOfRange \<longleftrightarrow>
     (\<exists>Y M D h m s. stamp_fields [Y, M, D, h, m, s] \<and> t = stamp_text Y M D h m s \<and>
        \<not> stamp_exists Y M D h m s)"
proof
  assume v: "parse_date_time_stamp t = Inl OutOfRange"
  then obtain Y M D h m s where f: "stamp_fields [Y, M, D, h, m, s]" and t: "t = stamp_text Y M D h m s"
    using parse_stamp_shape by blast
  have "\<not> stamp_exists Y M D h m s"
    using v parse_stamp_text [OF f] by (simp add: t split: if_splits)
  with f t show "\<exists>Y M D h m s. stamp_fields [Y, M, D, h, m, s] \<and> t = stamp_text Y M D h m s \<and>
      \<not> stamp_exists Y M D h m s" by blast
qed (auto simp: parse_stamp_text)

lemma stamp_range_days: "stamp_range v \<longleftrightarrow> - 719528 \<le> v div 86400 \<and> v div 86400 \<le> 2932896"
  by (auto simp: stamp_range_def)

lemma div_mod_digit:
  fixes q r b :: int
  assumes "0 \<le> r" "r < b"
  shows "(q * b + r) div b = q" "(q * b + r) mod b = r"
  using assms by simp_all

lemma time_of_day:
  fixes h m s :: int
  assumes "0 \<le> h" "h \<le> 23" "0 \<le> m" "m \<le> 59" "0 \<le> s" "s \<le> 59"
  defines "r \<equiv> h * 3600 + m * 60 + s"
  shows "0 \<le> r" "r < 86400" "r div 3600 = h" "r mod 3600 div 60 = m" "r mod 60 = s"
proof -
  show "0 \<le> r" "r < 86400" using assms by simp_all
  have "r = h * 3600 + (m * 60 + s)" by (simp add: r_def)
  then have "r div 3600 = h" "r mod 3600 = m * 60 + s"
    using assms(1-6) by (simp_all only: div_mod_digit [of "m * 60 + s" 3600 h])
  then show "r div 3600 = h" "r mod 3600 div 60 = m" using assms by simp_all
  have "r = (h * 60 + m) * 60 + s" by (simp add: r_def)
  then show "r mod 60 = s" using assms(1-6) by (simp only: div_mod_digit [of s 60 "h * 60 + m"])
qed

lemma stamp_value_split:
  assumes "stamp_exists Y M D h m s"
  shows "stamp_value Y M D h m s div 86400 =
      days_from_civil (int (dec_value Y)) (int (dec_value M)) (int (dec_value D))"
    and "stamp_value Y M D h m s mod 86400 =
      int (dec_value h) * 3600 + int (dec_value m) * 60 + int (dec_value s)"
  using time_of_day(1,2) [of "int (dec_value h)" "int (dec_value m)" "int (dec_value s)"] assms
  by (simp_all add: stamp_value_def stamp_exists_def add.assoc)

lemma fmt_padded_nat: "fmt_padded w (int n) = pad_zero w (dec_nat n)"
  by (simp add: fmt_padded_def)

lemma fmt_padded_digits:
  assumes "length ds = w" "list_all is_ascii_digit ds" "0 < w"
  shows "fmt_padded w (int (dec_value ds)) = ds"
proof (rule dec_value_inject)
  have "dec_value ds < 10 ^ w" using dec_value_bound [OF assms(2)] assms(1) by simp
  then show "length (fmt_padded w (int (dec_value ds))) = length ds"
    using assms(1,3) by (simp add: fmt_padded_nat pad_zero_length)
qed (use assms in \<open>simp_all add: fmt_padded_nat\<close>)

lemma format_stamp_value:
  assumes f: "stamp_fields [Y, M, D, h, m, s]" and e: "stamp_exists Y M D h m s"
  shows "format_date_time_stamp (stamp_value Y M D h m s) = stamp_text Y M D h m s"
proof -
  have c: "civil_from_days (stamp_value Y M D h m s div 86400) =
      (int (dec_value Y), int (dec_value M), int (dec_value D))"
    unfolding stamp_value_split(1) [OF e]
    using e by (intro civil_from_days_from_civil) (simp add: stamp_exists_def)
  note r = time_of_day(3-5) [of "int (dec_value h)" "int (dec_value m)" "int (dec_value s)"]
  have b: "int (dec_value h) \<le> 23" "int (dec_value m) \<le> 59" "int (dec_value s) \<le> 59"
    using e by (simp_all add: stamp_exists_def)
  have "fmt_padded 4 (int (dec_value Y)) = Y" "fmt_padded 2 (int (dec_value M)) = M"
    "fmt_padded 2 (int (dec_value D)) = D" "fmt_padded 2 (int (dec_value h)) = h"
    "fmt_padded 2 (int (dec_value m)) = m" "fmt_padded 2 (int (dec_value s)) = s"
    using f by (auto simp: stamp_fields_6 intro: fmt_padded_digits)
  then show ?thesis
    unfolding format_date_time_stamp_def Let_def c stamp_value_split(2) [OF e] prod.case
      r [OF of_nat_0_le_iff b(1) of_nat_0_le_iff b(2) of_nat_0_le_iff b(3)]
    by (simp only: stamp_text_def)
qed

lemma stamp_value_range:
  assumes f: "stamp_fields [Y, M, D, h, m, s]" and e: "stamp_exists Y M D h m s"
  shows "stamp_range (stamp_value Y M D h m s)"
proof -
  have "dec_value Y < 10 ^ 4" using f dec_value_bound [of Y] by (simp add: stamp_fields_6)
  then show ?thesis
    using e year_range_iff [of "int (dec_value Y)" "int (dec_value M)" "int (dec_value D)"]
    by (simp add: stamp_range_days stamp_value_split(1) [OF e] stamp_exists_def)
qed

lemma format_date_time_stamp_parts:
  assumes "stamp_range v"
  obtains Y M D h m s where "stamp_fields [Y, M, D, h, m, s]" "stamp_exists Y M D h m s"
    "v = stamp_value Y M D h m s"
proof -
  obtain y mo d where c: "civil_from_days (v div 86400) = (y, mo, d)" by (cases "civil_from_days (v div 86400)")
  have val: "valid_date (y, mo, d)" using civil_from_days_valid [of "v div 86400"] by (simp add: c)
  have dd: "days_from_civil y mo d = v div 86400" using days_from_civil_of_days [of "v div 86400"] by (simp add: c)
  have y: "0 \<le> y" "y \<le> 9999"
    using year_range_iff [OF val] assms by (simp_all add: dd stamp_range_days)
  have b: "1 \<le> mo" "mo \<le> 12" "1 \<le> d" "d \<le> 31"
    using val days_in_month_le [of y mo] by (auto simp: valid_date_def days_in_month_def split: if_splits)
  define r where "r = v mod 86400"
  have r: "0 \<le> r" "r < 86400" by (simp_all add: r_def)
  have td: "r div 3600 \<le> 23" "r mod 3600 div 60 \<le> 59" "r mod 60 \<le> 59"
    "0 \<le> r div 3600" "0 \<le> r mod 3600 div 60"
    using r zdiv_mono1 [of r 86399 3600] zdiv_mono1 [of "r mod 3600" 3599 60] by simp_all
  define P where "P = (\<lambda>w (x::int). pad_zero w (dec_nat (nat x)))"
  have dv: "dec_value (P w x) = nat x" for w x by (simp add: P_def)
  have len: "length (P w x) = w" if "0 < w" "0 \<le> x" "x < 10 ^ w" for w x
    unfolding P_def using that by (intro pad_zero_length) (simp_all add: nat_less_iff)
  show thesis
  proof (rule that)
    show "stamp_fields [P 4 y, P 2 mo, P 2 d, P 2 (r div 3600), P 2 (r mod 3600 div 60), P 2 (r mod 60)]"
      using y b r by (simp add: stamp_fields_6 len) (simp add: P_def)
    show "stamp_exists (P 4 y) (P 2 mo) (P 2 d) (P 2 (r div 3600)) (P 2 (r mod 3600 div 60)) (P 2 (r mod 60))"
      using val y b r td by (simp add: stamp_exists_def dv nat_le_iff)
    have "r = r div 3600 * 3600 + r mod 3600 div 60 * 60 + r mod 60"
    proof -
      have "r mod 60 = r mod 3600 mod 60" by (simp add: mod_mod_cancel)
      then show ?thesis by (metis add.assoc div_mult_mod_eq)
    qed
    moreover have "v = v div 86400 * 86400 + r" by (simp add: r_def)
    moreover have "stamp_value (P 4 y) (P 2 mo) (P 2 d) (P 2 (r div 3600)) (P 2 (r mod 3600 div 60)) (P 2 (r mod 60))
        = v div 86400 * 86400 + r div 3600 * 3600 + r mod 3600 div 60 * 60 + r mod 60"
      using y b td by (simp add: stamp_value_def dv dd)
    ultimately show "v = stamp_value (P 4 y) (P 2 mo) (P 2 d) (P 2 (r div 3600)) (P 2 (r mod 3600 div 60)) (P 2 (r mod 60))"
      by linarith
  qed
qed

lemma parse_format_stamp: "stamp_range v \<Longrightarrow> parse_date_time_stamp (format_date_time_stamp v) = Inr v"
  by (rule format_date_time_stamp_parts) (auto simp: format_stamp_value parse_stamp_text)

lemma format_parse_stamp:
  "parse_date_time_stamp t = Inr v \<Longrightarrow> stamp_range v \<and> format_date_time_stamp v = t"
  by (auto simp: parse_date_time_stamp_Inr_iff stamp_value_range format_stamp_value)

interpretation stamp: canonical_codec stamp_range format_date_time_stamp parse_date_time_stamp
  by unfold_locales (auto simp: parse_format_stamp dest: format_parse_stamp)

lemma stamp_range_i64: "stamp_range v \<Longrightarrow> is_i64 v"
  by (simp add: stamp_range_def is_i64_def i64_min_def i64_max_def)

section \<open>Properties\<close>

text \<open>
  C4. Hinnant's two conversions are inverse: a day count converts to a date exactly when the date
  exists in the proleptic Gregorian calendar and converts back to the count, for every year.
\<close>

theorem civil_from_days_exact:
  "civil_from_days n = (y, m, d) \<longleftrightarrow> valid_date (y, m, d) \<and> days_from_civil y m d = n"
  using civil_from_days_valid [of n] days_from_civil_of_days [of n] civil_from_days_from_civil
  by auto

text \<open>
  The timestamp recogniser accepts exactly one spelling for each instant of the years 0 to 9999,
  the one the printer produces, and nothing else.
\<close>

theorem parse_date_time_stamp_exact:
  "parse_date_time_stamp t = Inr v \<longleftrightarrow> stamp_range v \<and> t = format_date_time_stamp v"
  by (rule stamp.dec_Inr_iff)

end
