(* ===== verification/Alias.thy ===== *)
theory Alias
  imports Profile
begin

text \<open>
  Account aliases (\<open>alias.rs\<close>): the generated stable alias of a home DID, chosen usernames, the
  \<open>acct:\<close> recogniser, WebFinger responses and the reciprocal binding they must prove. The lemmas show
  that a generated alias is always recognised as one, that a chosen username never is, and that the
  reciprocal check succeeds exactly when both directions of the binding are present.
\<close>

section \<open>Aliases\<close>

definition STABLE_PREFIX :: rust_str where "STABLE_PREFIX = ''ss-''"
definition STABLE_LOCALPART_CHARS :: nat where "STABLE_LOCALPART_CHARS = 55"
definition MAX_USERNAME_CHARS :: nat where "MAX_USERNAME_CHARS = 32"
definition MAX_JRD_OCTETS :: nat where "MAX_JRD_OCTETS = 65536"

datatype alias_error =
    Malformed | BadLocalpart | UsernameReserved | UsernameUnavailable | AuthorityMismatch
  | JrdFault json_error | MalformedJrd | SubjectMismatch | MissingDidAlias | MissingAlsoKnownAs
  | AccountProvisioningFailed

definition stable_localpart :: "externs \<Rightarrow> rust_str \<Rightarrow> rust_str" where
  "stable_localpart X home_did = STABLE_PREFIX @ base32_lower_nopad (sha256_digest X home_did)"

definition stable_acct_uri :: "externs \<Rightarrow> rust_str \<Rightarrow> rust_str \<Rightarrow> rust_str" where
  "stable_acct_uri X home_did authority = ''acct:'' @ stable_localpart X home_did @ ''@'' @ authority"

text \<open>The text and the index of the \<open>@\<close> that ends the localpart.\<close>

record acct_uri =
  acct_text :: rust_str
  acct_at :: nat

definition is_acct_localpart_char :: "octet \<Rightarrow> bool" where
  "is_acct_localpart_char b \<longleftrightarrow>
     is_ascii_alphanumeric b \<or> b \<in> set ''-._~!$&()*+,;=:'' \<or> b = CHR 0x27"

definition rfind :: "'a \<Rightarrow> 'a list \<Rightarrow> nat option" where
  "rfind c s = map_option (\<lambda>(before, _). length before) (rsplit_once c s)"

definition parse_acct_uri :: "rust_str \<Rightarrow> alias_error + acct_uri" where
  "parse_acct_uri s =
     and_then (ok_or Malformed (strip_prefix ''acct:'' s)) (\<lambda>body.
     and_then (ok_or Malformed (rfind (CHR ''@'') body)) (\<lambda>i.
     let localpart = take i body; h = drop (i + 1) body in
     if localpart = [] then Inl Malformed
     else if \<not> list_all is_acct_localpart_char localpart then Inl Malformed
     else and_then (map_err (\<lambda>_. Malformed) (recognise_dns_name h)) (\<lambda>_.
       Inr \<lparr>acct_text = s, acct_at = length ''acct:'' + i\<rparr>)))"

definition acct_localpart :: "acct_uri \<Rightarrow> rust_str" where
  "acct_localpart u = drop (length ''acct:'') (take (acct_at u) (acct_text u))"

definition acct_authority :: "acct_uri \<Rightarrow> rust_str" where
  "acct_authority u = drop (acct_at u + 1) (acct_text u)"

definition is_stable :: "acct_uri \<Rightarrow> bool" where
  "is_stable u \<longleftrightarrow> starts_with STABLE_PREFIX (acct_localpart u)"

section \<open>Chosen usernames\<close>

definition username_alnum :: "octet \<Rightarrow> bool" where
  "username_alnum c \<longleftrightarrow> is_ascii_lowercase c \<or> is_ascii_digit c"

definition recognise_username :: "rust_str \<Rightarrow> rust_str list \<Rightarrow> alias_error + unit" where
  "recognise_username localpart reserved =
     (if localpart = [] \<or> length localpart > MAX_USERNAME_CHARS then Inl BadLocalpart
      else if \<not> username_alnum (hd localpart) \<or> \<not> username_alnum (last localpart) then Inl BadLocalpart
      else if \<not> list_all (\<lambda>c. username_alnum c \<or> c \<in> set ''._-'') localpart then Inl BadLocalpart
      else if starts_with STABLE_PREFIX localpart \<or> localpart \<in> set reserved then Inl UsernameReserved
      else Inr ())"

definition username_acct_uri :: "rust_str \<Rightarrow> rust_str \<Rightarrow> rust_str" where
  "username_acct_uri localpart authority = ''acct:'' @ localpart @ ''@'' @ authority"

section \<open>WebFinger\<close>

definition hex_digit_upper :: "nat \<Rightarrow> octet" where
  "hex_digit_upper n = (if n < 10 then char_of (48 + n) else char_of (55 + n))"

definition percent_encode :: "rust_str \<Rightarrow> rust_str" where
  "percent_encode s =
     concat (map (\<lambda>b. if is_ascii_alphanumeric b \<or> b \<in> set ''-._~'' then [b]
       else [CHR ''%'', hex_digit_upper (code b div 16), hex_digit_upper (code b mod 16)]) s)"

definition webfinger_query :: "acct_uri \<Rightarrow> rust_str" where
  "webfinger_query u = ''/.well-known/webfinger?resource='' @ percent_encode (acct_text u)"

record jrd =
  jrd_subject :: rust_str
  jrd_aliases :: "rust_str list"

definition recognise_jrd :: "octets \<Rightarrow> alias_error + jrd" where
  "recognise_jrd octs =
     and_then (map_err JrdFault (recognise_json octs \<lparr>max_bytes = MAX_JRD_OCTETS, max_depth = 8\<rparr>)) (\<lambda>j.
     and_then (ok_or SubjectMismatch (Option.bind (get j ''subject'') as_str)) (\<lambda>subject.
     and_then
       (case get j ''aliases'' of
          None \<Rightarrow> Inr []
        | Some v \<Rightarrow>
            and_then (ok_or MalformedJrd (as_array v)) (\<lambda>items.
            try_map (\<lambda>item. ok_or MalformedJrd (as_str item)) items)) (\<lambda>aliases.
     Inr \<lparr>jrd_subject = subject, jrd_aliases = aliases\<rparr>)))"

definition verify_reciprocal_binding ::
  "jrd \<Rightarrow> acct_uri \<Rightarrow> rust_str \<Rightarrow> rust_str list \<Rightarrow> alias_error + unit" where
  "verify_reciprocal_binding r u home_did also_known_as =
     (if jrd_subject r \<noteq> acct_text u then Inl SubjectMismatch
      else if \<not> list_ex (\<lambda>a. a = home_did) (jrd_aliases r) then Inl MissingDidAlias
      else if \<not> list_ex (\<lambda>a. a = acct_text u) also_known_as then Inl MissingAlsoKnownAs
      else Inr ())"

definition expected_account_matches ::
  "externs \<Rightarrow> rust_str \<Rightarrow> rust_str \<Rightarrow> rust_str \<Rightarrow> alias_error + acct_uri" where
  "expected_account_matches X issuer_did authority claimed_account =
     (let expected = stable_acct_uri X issuer_did authority in
      if claimed_account \<noteq> expected then Inl SubjectMismatch
      else and_then (parse_acct_uri claimed_account) (\<lambda>uri.
        if acct_authority uri \<noteq> authority then Inl AuthorityMismatch else Inr uri))"

section \<open>The \<open>acct:\<close> grammar\<close>

definition acct_ok :: "rust_str \<Rightarrow> rust_str \<Rightarrow> bool" where
  "acct_ok localpart authority \<longleftrightarrow>
     localpart \<noteq> [] \<and> list_all is_acct_localpart_char localpart \<and> dns_name authority"

lemma parse_acct_uri_Inr_iff:
  "parse_acct_uri s = Inr u \<longleftrightarrow>
     (\<exists>l a. acct_ok l a \<and> s = ''acct:'' @ l @ ''@'' @ a \<and> u = \<lparr>acct_text = s, acct_at = 5 + length l\<rparr>)"
proof
  assume "parse_acct_uri s = Inr u"
  then obtain body i where b: "s = ''acct:'' @ body" and i: "rfind (CHR ''@'') body = Some i"
    and g: "take i body \<noteq> []" "list_all is_acct_localpart_char (take i body)"
      "dns_name (drop (i + 1) body)" and u: "u = \<lparr>acct_text = s, acct_at = 5 + i\<rparr>"
    unfolding parse_acct_uri_def Let_def
    by (auto simp: res_iff strip_prefix_Some_iff recognise_dns_name_def recognise_host_iff split: if_splits)
  from i obtain l a where s: "body = l @ CHR ''@'' # a" "i = length l"
    by (auto simp: rfind_def rsplit_once_Some_iff)
  with g have "acct_ok l a" by (simp add: acct_ok_def)
  with b s u show "\<exists>l a. acct_ok l a \<and> s = ''acct:'' @ l @ ''@'' @ a \<and> u = \<lparr>acct_text = s, acct_at = 5 + length l\<rparr>"
    by auto
next
  assume "\<exists>l a. acct_ok l a \<and> s = ''acct:'' @ l @ ''@'' @ a \<and> u = \<lparr>acct_text = s, acct_at = 5 + length l\<rparr>"
  then obtain l a where ok: "acct_ok l a" and s: "s = ''acct:'' @ l @ CHR ''@'' # a"
    and u: "u = \<lparr>acct_text = s, acct_at = 5 + length l\<rparr>" by auto
  have "\<not> is_ldh (CHR ''@'')" by (simp add: is_ldh_def ascii_class_defs)
  then have "CHR ''@'' \<notin> set a" using ok dns_name_alphabet by (force simp: acct_ok_def)
  then have "rsplit_once (CHR ''@'') (l @ CHR ''@'' # a) = Some (l, a)" by (simp add: rsplit_once_Some_iff)
  then have i: "rfind (CHR ''@'') (l @ CHR ''@'' # a) = Some (length l)" by (simp add: rfind_def)
  have p: "strip_prefix ''acct:'' s = Some (l @ CHR ''@'' # a)" by (simp add: strip_prefix_Some_iff s)
  show "parse_acct_uri s = Inr u"
    unfolding parse_acct_uri_def Let_def p i ok_or_simps and_then_simps
    using ok recognise_host_iff [of a "()"]
    by (simp add: acct_ok_def recognise_dns_name_def u numeral_eq_Suc)
qed

lemma acct_parts:
  assumes "u = \<lparr>acct_text = ''acct:'' @ l @ ''@'' @ a, acct_at = 5 + length l\<rparr>"
  shows "acct_localpart u = l" "acct_authority u = a"
  by (simp_all add: assms acct_localpart_def acct_authority_def numeral_eq_Suc)

lemma base32_alphabet: "c \<in> set (base32_lower_nopad bs) \<Longrightarrow> c \<in> set BASE32_LOWER"
proof -
  have "group_char g \<in> set BASE32_LOWER" if "length g = 5" for g
  proof -
    have "horner_sum of_bool 2 (rev g) < (2::nat) ^ length (rev g)" by (rule horner_sum_of_bool_2_less)
    then show ?thesis using that by (simp add: group_char_def length_BASE32_LOWER)
  qed
  then show "c \<in> set (base32_lower_nopad bs) \<Longrightarrow> c \<in> set BASE32_LOWER"
    using groups_of_five_length by (fastforce simp: base32_lower_nopad_spec base32_spec_def)
qed


lemma BASE32_LOWER_acct: "c \<in> set BASE32_LOWER \<Longrightarrow> is_acct_localpart_char c"
proof -
  have "list_all is_acct_localpart_char BASE32_LOWER" by code_simp
  then show "c \<in> set BASE32_LOWER \<Longrightarrow> is_acct_localpart_char c" by (simp add: list_all_iff)
qed

lemma stable_localpart_ok: "dns_name a \<Longrightarrow> acct_ok (stable_localpart X did) a"
  by (auto simp: acct_ok_def stable_localpart_def STABLE_PREFIX_def list_all_iff
      dest!: base32_alphabet BASE32_LOWER_acct)
    (simp_all add: is_acct_localpart_char_def ascii_class_defs)

lemma length_stable_localpart: "sha2_law X \<Longrightarrow> length (stable_localpart X did) = STABLE_LOCALPART_CHARS"
  by (simp add: stable_localpart_def STABLE_PREFIX_def length_base32 STABLE_LOCALPART_CHARS_def)

lemma parse_stable_acct_uri:
  assumes "dns_name a"
  obtains u where "parse_acct_uri (stable_acct_uri X did a) = Inr u" "acct_text u = stable_acct_uri X did a"
    "acct_localpart u = stable_localpart X did" "acct_authority u = a" "is_stable u"
proof -
  define u where "u = \<lparr>acct_text = ''acct:'' @ stable_localpart X did @ ''@'' @ a,
    acct_at = 5 + length (stable_localpart X did)\<rparr>"
  have "parse_acct_uri (stable_acct_uri X did a) = Inr u"
    unfolding parse_acct_uri_Inr_iff using stable_localpart_ok [OF assms]
    by (auto simp: u_def stable_acct_uri_def)
  moreover note acct_parts [OF u_def]
  ultimately show thesis
    using that by (simp add: is_stable_def stable_localpart_def u_def stable_acct_uri_def)
qed

lemma recognise_username_chars:
  assumes "recognise_username l reserved = Inr u"
  shows "l \<noteq> []" "list_all is_acct_localpart_char l" "\<not> starts_with STABLE_PREFIX l" "l \<notin> set reserved"
    "length l \<le> 32"
proof -
  have c: "is_acct_localpart_char c" if "username_alnum c \<or> c \<in> set ''._-''" for c
    using that by (auto simp: is_acct_localpart_char_def username_alnum_def ascii_class_defs)
  show "l \<noteq> []" "list_all is_acct_localpart_char l" "\<not> starts_with STABLE_PREFIX l" "l \<notin> set reserved"
    "length l \<le> 32"
    using assms c by (auto simp: recognise_username_def MAX_USERNAME_CHARS_def list_all_iff split: if_splits)
qed

lemma parse_username_acct_uri:
  assumes "recognise_username l reserved = Inr ()" "dns_name a"
  obtains u where "parse_acct_uri (username_acct_uri l a) = Inr u" "acct_localpart u = l"
    "acct_authority u = a" "\<not> is_stable u"
proof -
  define u where "u = \<lparr>acct_text = ''acct:'' @ l @ ''@'' @ a, acct_at = 5 + length l\<rparr>"
  have "parse_acct_uri (username_acct_uri l a) = Inr u"
    unfolding parse_acct_uri_Inr_iff using recognise_username_chars [OF assms(1)] assms(2)
    by (auto simp: u_def username_acct_uri_def acct_ok_def)
  moreover note acct_parts [OF u_def]
  ultimately show thesis
    using that recognise_username_chars(3) [OF assms(1)] by (simp add: is_stable_def)
qed

lemma stable_acct_uri_inject:
  assumes "sha2_law X" "stable_acct_uri X d a = stable_acct_uri X e b"
  shows "sha256_digest X d = sha256_digest X e \<and> a = b"
proof -
  have "length (stable_localpart X d) = length (stable_localpart X e)"
    using assms(1) by (simp add: length_stable_localpart)
  then have "stable_localpart X d = stable_localpart X e" "a = b"
    using assms(2) by (auto simp: stable_acct_uri_def)
  then show ?thesis
    using assms(1) by (auto simp: stable_localpart_def intro: base32_lower_nopad_inject)
qed

lemma verify_reciprocal_binding_iff:
  "verify_reciprocal_binding r u did aka = Inr () \<longleftrightarrow>
     jrd_subject r = acct_text u \<and> did \<in> set (jrd_aliases r) \<and> acct_text u \<in> set aka"
  by (auto simp: verify_reciprocal_binding_def list_ex_iff)

section \<open>Properties\<close>

end
