(* ===== verification/Did_Key.thy ===== *)
theory Did_Key
  imports Codec
begin

text \<open>
  Device identifiers (\<open>didkey.rs\<close>): an Ed25519 public key as a \<open>did:key\<close>. The lemmas show that an
  identifier decodes to a key exactly when it is the key's own encoding and the key is usable: 32
  octets, a valid point, and not of low order.
\<close>

definition MULTIBASE_BASE58BTC :: octet where
  "MULTIBASE_BASE58BTC = CHR ''z''"

definition MULTICODEC_ED25519_PUB :: octets where
  "MULTICODEC_ED25519_PUB = [CHR 0xED, CHR 0x01]"

datatype did_key_error =
    NotDidKey | BadEncoding | NotEd25519 | BadKeyLength | NotAValidPoint | WeakPoint

definition encode_did_key :: "octets \<Rightarrow> rust_str" where
  "encode_did_key public_key =
     ''did:key:'' @ [MULTIBASE_BASE58BTC] @ base58btc (MULTICODEC_ED25519_PUB @ public_key)"

definition decode_did_key :: "externs \<Rightarrow> rust_str \<Rightarrow> did_key_error + octets" where
  "decode_did_key X did =
     and_then (ok_or NotDidKey
       (Option.bind (strip_prefix ''did:key:'' did) (strip_prefix [MULTIBASE_BASE58BTC]))) (\<lambda>body.
     and_then (map_err (\<lambda>_. BadEncoding) (decode_base58btc body)) (\<lambda>octs.
     if length octs < 2 \<or> take 2 octs \<noteq> MULTICODEC_ED25519_PUB then Inl NotEd25519
     else if length octs \<noteq> 34 then Inl BadKeyLength
     else
       let key = drop 2 octs in
       if \<not> vk_from_bytes X key then Inl NotAValidPoint
       else if vk_is_weak X key then Inl WeakPoint
       else Inr key))"

definition matches_jwk :: "externs \<Rightarrow> rust_str \<Rightarrow> octets \<Rightarrow> did_key_error + unit" where
  "matches_jwk X device_did jwk_public_key =
     and_then (decode_did_key X device_did) (\<lambda>encoded.
     if encoded = jwk_public_key then Inr () else Inl NotAValidPoint)"

definition usable_key :: "externs \<Rightarrow> octets \<Rightarrow> bool" where
  "usable_key X key \<longleftrightarrow> length key = 32 \<and> vk_from_bytes X key \<and> \<not> vk_is_weak X key"

lemma decode_encode_did_key: "usable_key X key \<Longrightarrow> decode_did_key X (encode_did_key key) = Inr key"
proof -
  assume u: "usable_key X key"
  have d: "decode_base58btc (base58btc (MULTICODEC_ED25519_PUB @ key)) = Inr (MULTICODEC_ED25519_PUB @ key)"
    by (rule base58.dec_enc) (simp add: MULTICODEC_ED25519_PUB_def)
  have p: "strip_prefix ''did:key:'' (encode_did_key key) =
      Some ([MULTIBASE_BASE58BTC] @ base58btc (MULTICODEC_ED25519_PUB @ key))"
    by (simp add: encode_did_key_def strip_prefix_Some_iff)
  show ?thesis
    unfolding decode_did_key_def p bind.simps strip_prefix_append ok_or_simps and_then_simps d map_err_simps
    using u by (simp add: usable_key_def MULTICODEC_ED25519_PUB_def)
qed

lemma encode_decode_did_key:
  assumes "decode_did_key X did = Inr key"
  shows "usable_key X key \<and> encode_did_key key = did"
proof -
  from assms obtain body octs where did: "did = ''did:key:'' @ MULTIBASE_BASE58BTC # body"
    and b: "decode_base58btc body = Inr octs" and o: "take 2 octs = MULTICODEC_ED25519_PUB" "length octs = 34"
      "key = drop 2 octs" "vk_from_bytes X key" "\<not> vk_is_weak X key"
    unfolding decode_did_key_def
    by (auto simp: res_iff Let_def bind_eq_Some_conv strip_prefix_Some_iff split: if_splits)
  have "octs = MULTICODEC_ED25519_PUB @ key" using o by (metis append_take_drop_id)
  moreover have "body = base58btc octs" using b by (simp add: base58.dec_Inr_iff)
  ultimately show ?thesis using o by (simp add: usable_key_def encode_did_key_def did)
qed

interpretation did_key: canonical_codec "usable_key X" encode_did_key "decode_did_key X" for X
  by unfold_locales (auto simp: decode_encode_did_key dest: encode_decode_did_key)

lemma matches_jwk_iff: "matches_jwk X did key = Inr u \<longleftrightarrow> usable_key X key \<and> did = encode_did_key key"
  by (auto simp: matches_jwk_def res_iff did_key.dec_Inr_iff)

section \<open>Properties\<close>

text \<open>
  A \<open>did:key\<close> decodes to a key exactly when it is that key's encoding and the key is 32 octets,
  a valid Ed25519 point and not of low order; a device identifier matches a JWK key exactly when it
  is the usable key's own identifier.
\<close>

theorem decode_did_key_exact:
  "(decode_did_key X did = Inr key \<longleftrightarrow> usable_key X key \<and> did = encode_did_key key) \<and>
   (matches_jwk X did key = Inr () \<longleftrightarrow> decode_did_key X did = Inr key)"
  using did_key.dec_Inr_iff matches_jwk_iff by blast

end
