(* ===== verification/Vc_Context.thy ===== *)
theory Vc_Context
  imports Json_Roundtrip Externals
begin

text \<open>
  The pinned credential context (\<open>context.rs\<close>): the octets compiled into the crate, their digest,
  and the recogniser of a credential's \<open>@context\<close>. Nothing is fetched; octets retrieved from
  elsewhere are only ever compared with the digest.
\<close>

definition CONTEXT_IRI :: rust_str where
  "CONTEXT_IRI = ''https://anuna.io/selfsame/credentials/device-grant/v1''"

definition VOCAB_BASE :: rust_str where
  "VOCAB_BASE = ''https://anuna.io/selfsame/vocab/device-grant/v1#''"

definition W3C_VC_CONTEXT :: rust_str where
  "W3C_VC_CONTEXT = ''https://www.w3.org/ns/credentials/v2''"

text \<open>
  The file \<open>contexts/device-grant-v1.jsonld\<close>, line by line; a back quote stands for a double quote.
\<close>

definition CONTEXT_LINES :: "rust_str list" where
  "CONTEXT_LINES =
     [''{'',
      ''  `@context`: {'',
      ''    `@protected`: true,'',
      ''    `SelfsameDeviceGrantCredential`:'',
      ''      `https://anuna.io/selfsame/vocab/device-grant/v1#SelfsameDeviceGrantCredential`,'',
      ''    `application`: {'',
      ''      `@id`: `https://anuna.io/selfsame/vocab/device-grant/v1#application`,'',
      ''      `@type`: `@id`'',
      ''    },'',
      ''    `account`: {'',
      ''      `@id`: `https://anuna.io/selfsame/vocab/device-grant/v1#account`,'',
      ''      `@type`: `@id`'',
      ''    },'',
      ''    `permissions`: {'',
      ''      `@id`: `https://anuna.io/selfsame/vocab/device-grant/v1#permissions`,'',
      ''      `@type`: `@id`,'',
      ''      `@container`: `@set`'',
      ''    },'',
      ''    `SelfsameDidCrdtStatusEntry`: {'',
      ''      `@id`:'',
      ''        `https://anuna.io/selfsame/vocab/device-grant/v1#SelfsameDidCrdtStatusEntry`,'',
      ''      `@context`: {'',
      ''        `@protected`: true,'',
      ''        `id`: `@id`,'',
      ''        `type`: `@type`,'',
      ''        `statusPurpose`:'',
      ''          `https://www.w3.org/ns/credentials/status#statusPurpose`,'',
      ''        `credentialId`: {'',
      ''          `@id`: `https://anuna.io/selfsame/vocab/device-grant/v1#credentialId`,'',
      ''          `@type`: `@id`'',
      ''        }'',
      ''      }'',
      ''    }'',
      ''  }'',
      ''}'']"

definition CONTEXT_OCTETS :: octets where
  "CONTEXT_OCTETS =
     concat (map (\<lambda>l. map (\<lambda>c. if c = CHR 0x60 then CHR 0x22 else c) l @ [CHR 0x0A]) CONTEXT_LINES)"

definition CONTEXT_DIGEST :: octets where
  "CONTEXT_DIGEST = map char_of
     [(157 :: nat), 186, 77, 6, 90, 155, 127, 84, 172, 188, 254, 141, 117, 225, 242, 200,
      231, 254, 74, 184, 164, 184, 122, 74, 211, 248, 131, 196, 90, 61, 17, 131]"

definition CONTEXT_OCTET_COUNT :: nat where
  "CONTEXT_OCTET_COUNT = 1045"

definition MAX_CONTEXT_OCTETS :: nat where
  "MAX_CONTEXT_OCTETS = 8192"

datatype context_error =
    UnknownContext | BadContextArray | DigestMismatch | ContextJson json_error

definition context_digest :: "externs \<Rightarrow> octets" where
  "context_digest X = sha256_digest X CONTEXT_OCTETS"

definition recognise_context_array :: "json \<Rightarrow> context_error + unit" where
  "recognise_context_array j =
     and_then (ok_or BadContextArray (as_array j)) (\<lambda>items.
     if length items \<noteq> 2 then Inl BadContextArray
     else if as_str (items ! 0) \<noteq> Some W3C_VC_CONTEXT then Inl BadContextArray
     else if as_str (items ! 1) \<noteq> Some CONTEXT_IRI then Inl UnknownContext
     else Inr ())"

definition check_retrieved_octets :: "externs \<Rightarrow> octets \<Rightarrow> context_error + unit" where
  "check_retrieved_octets X octs =
     (if length octs > MAX_CONTEXT_OCTETS then Inl DigestMismatch
      else if sha256_digest X octs \<noteq> CONTEXT_DIGEST then Inl DigestMismatch
      else Inr ())"

definition context_document :: "context_error + json" where
  "context_document =
     map_err ContextJson (recognise_json CONTEXT_OCTETS \<lparr>max_bytes = MAX_CONTEXT_OCTETS, max_depth = 8\<rparr>)"

lemma as_str_Some_iff: "as_str j = Some s \<longleftrightarrow> j = String s"
  by (cases j) auto

lemma recognise_context_array_iff:
  "recognise_context_array j = Inr u \<longleftrightarrow> j = Array [String W3C_VC_CONTEXT, String CONTEXT_IRI]"
proof -
  have "length items = 2 \<longleftrightarrow> (\<exists>a b. items = [a, b])" for items :: "json list"
    by (auto simp: length_Suc_conv numeral_2_eq_2)
  then show ?thesis
    by (cases j) (auto simp: recognise_context_array_def res_iff as_str_Some_iff)
qed

lemma context_octets_length: "length CONTEXT_OCTETS = CONTEXT_OCTET_COUNT"
  by code_simp

end
