(* ===== verification/Grant.thy ===== *)
theory Grant
  imports Jws Profile Timestamp Alias Did_Key Vc_Context
begin

text \<open>
  The device grant credential (\<open>grant.rs\<close>): the document an account's home DID signs for one
  device, its identifiers, its issue and its recogniser with every cross-field equality. The
  lemmas characterise the recogniser and show that an issued grant is recognised as issued.
\<close>

section \<open>Types\<close>

definition MAX_GRANT_OCTETS :: nat where "MAX_GRANT_OCTETS = 65536"

definition GRANT_JWS :: jws_policy where
  "GRANT_JWS = \<lparr>policy_typ = ''vc+jwt'', policy_kid = DidUrl, policy_cty = Some ''vc'',
     max_octets = MAX_GRANT_OCTETS, max_payload_depth = 8, canonical_payload = False\<rparr>"

definition HOME_METHOD_FRAGMENT :: rust_str where "HOME_METHOD_FRAGMENT = ''#jwk-0''"

definition GRANT_TYPES :: "rust_str list" where
  "GRANT_TYPES = [''VerifiableCredential'', ''SelfsameDeviceGrantCredential'']"

definition STATUS_ENTRY_TYPE :: rust_str where "STATUS_ENTRY_TYPE = ''SelfsameDidCrdtStatusEntry''"
definition BITSTRING_ENTRY_TYPE :: rust_str where "BITSTRING_ENTRY_TYPE = ''BitstringStatusListEntry''"

datatype grant_error =
    BadMember rust_str
  | BadValue rust_str rust_str
  | UnknownMember rust_str
  | ContextFault context_error
  | BadTimestamp
  | GrantJson json_error

definition grant_bad :: "rust_str \<Rightarrow> rust_str \<Rightarrow> grant_error" where
  "grant_bad p reason = BadValue p reason"

record bitstring_status_entry =
  entry_id :: rust_str
  entry_purpose :: rust_str
  entry_index :: rust_str
  entry_credential :: rust_str

record device_grant =
  grant_id :: rust_str
  issuer :: rust_str
  token :: rust_str
  device_did :: rust_str
  device_public_key :: octets
  application :: rust_str
  account :: acct_uri
  permissions :: "rust_str list"
  valid_from :: unix_seconds
  valid_until :: unix_seconds
  status_id :: rust_str
  projection_entry :: "bitstring_status_entry option"

definition lifetime_seconds :: "device_grant \<Rightarrow> int" where
  "lifetime_seconds g = i64_sub (valid_until g) (valid_from g)"

section \<open>Issue\<close>

definition identifiers :: "externs \<Rightarrow> rust_str \<Rightarrow> octets \<Rightarrow> rust_str \<times> rust_str \<times> rust_str" where
  "identifiers X home_did token_octets =
     (let t = b64url X token_octets
      in (home_did @ ''#grant-'' @ t, home_did @ ''#status-'' @ t, t))"

definition build_grant ::
  "externs \<Rightarrow> rust_str \<Rightarrow> octets \<Rightarrow> rust_str \<Rightarrow> octets \<Rightarrow> app_id \<Rightarrow> acct_uri \<Rightarrow> rust_str list
   \<Rightarrow> unix_seconds \<Rightarrow> unix_seconds \<Rightarrow> json" where
  "build_grant X home_did token_octets device device_key aid acct perms from until =
     (let (gid, sid, _) = identifiers X home_did token_octets in
     Object
       [(''@context'', Array [String W3C_VC_CONTEXT, String CONTEXT_IRI]),
        (''type'', Array [String (GRANT_TYPES ! 0), String (GRANT_TYPES ! 1)]),
        (''id'', String gid),
        (''issuer'', String home_did),
        (''validFrom'', String (format_date_time_stamp from)),
        (''validUntil'', String (format_date_time_stamp until)),
        (''credentialSubject'', Object
           [(''id'', String device),
            (''application'', String (app_text aid)),
            (''account'', String (acct_text acct)),
            (''permissions'', Array (map String perms))]),
        (''credentialStatus'', Object
           [(''id'', String sid),
            (''type'', String STATUS_ENTRY_TYPE),
            (''statusPurpose'', String ''revocation''),
            (''credentialId'', String gid)]),
        (''aud'', String (app_text aid)),
        (''cnf'', Object [(''jwk'', Object
           [(''kty'', String ''OKP''),
            (''crv'', String ''Ed25519''),
            (''alg'', String ''EdDSA''),
            (''x'', String (b64url X device_key))])])])"

definition grant_header :: "rust_str \<Rightarrow> json" where
  "grant_header home_did = Object
     [(''alg'', String ALG),
      (''kid'', String (home_did @ HOME_METHOD_FRAGMENT)),
      (''typ'', String (policy_typ GRANT_JWS)),
      (''cty'', String (the (policy_cty GRANT_JWS)))]"

definition issue_grant ::
  "externs \<Rightarrow> octets \<Rightarrow> rust_str \<Rightarrow> octets \<Rightarrow> rust_str \<Rightarrow> octets \<Rightarrow> app_id \<Rightarrow> acct_uri \<Rightarrow> rust_str list
   \<Rightarrow> unix_seconds \<Rightarrow> unix_seconds \<Rightarrow> rust_str" where
  "issue_grant X home_key home_did token_octets device device_key aid acct perms from until =
     sign_jws X (grant_header home_did)
       (build_grant X home_did token_octets device device_key aid acct perms from until) home_key"

section \<open>Recognition\<close>

definition CREDENTIAL_MEMBERS :: "rust_str list" where
  "CREDENTIAL_MEMBERS =
     [''@context'', ''type'', ''id'', ''issuer'', ''validFrom'', ''validUntil'', ''credentialSubject'',
      ''credentialStatus'', ''aud'', ''cnf'']"

definition SUBJECT_MEMBERS :: "rust_str list" where
  "SUBJECT_MEMBERS = [''id'', ''application'', ''account'', ''permissions'']"

definition STATUS_MEMBERS :: "rust_str list" where
  "STATUS_MEMBERS = [''id'', ''type'', ''statusPurpose'', ''credentialId'']"

definition BITSTRING_MEMBERS :: "rust_str list" where
  "BITSTRING_MEMBERS = [''id'', ''type'', ''statusPurpose'', ''statusListIndex'', ''statusListCredential'']"

definition grant_closed :: "json \<Rightarrow> rust_str list \<Rightarrow> rust_str \<Rightarrow> grant_error + unit" where
  "grant_closed j allowed p =
     and_then (ok_or (BadMember p) (as_object j)) (\<lambda>members.
     try_each (\<lambda>(name, _). ensure (name \<in> set allowed) (UnknownMember (p @ ''.'' @ name))) members)"

definition grant_text :: "json \<Rightarrow> rust_str \<Rightarrow> grant_error + rust_str" where
  "grant_text j name = ok_or (BadMember name) (str_of j name)"

definition grant_stamp :: "json \<Rightarrow> rust_str \<Rightarrow> grant_error + unix_seconds" where
  "grant_stamp j name =
     and_then (grant_text j name) (\<lambda>t. map_err (\<lambda>_. BadTimestamp) (parse_date_time_stamp t))"

definition projection_member :: "json \<Rightarrow> rust_str \<Rightarrow> grant_error + rust_str" where
  "projection_member entry name =
     ok_or (grant_bad ''credentialStatus'' ''the projection entry is incomplete'')
       (Option.bind (str_of entry name) (\<lambda>s. if s \<noteq> [] then Some s else None))"

definition canonical_index :: "rust_str \<Rightarrow> bool" where
  "canonical_index s \<longleftrightarrow>
     \<not> (list_ex (\<lambda>b. \<not> is_ascii_digit b) s \<or> (length s > 1 \<and> starts_with ''0'' s))"

definition recognise_projection :: "json \<Rightarrow> grant_error + bitstring_status_entry" where
  "recognise_projection entry =
     and_then (grant_closed entry BITSTRING_MEMBERS ''credentialStatus'') (\<lambda>_.
     if str_of entry ''type'' \<noteq> Some BITSTRING_ENTRY_TYPE
     then Inl (grant_bad ''credentialStatus'' ''the second entry is not a BitstringStatusListEntry'')
     else
     and_then (projection_member entry ''id'') (\<lambda>i.
     and_then (projection_member entry ''statusPurpose'') (\<lambda>purpose.
     and_then (projection_member entry ''statusListIndex'') (\<lambda>index.
     and_then (projection_member entry ''statusListCredential'') (\<lambda>credential.
     if purpose \<noteq> ''revocation''
     then Inl (grant_bad ''credentialStatus.statusPurpose'' ''the projection entry is not for revocation'')
     else if \<not> canonical_index index
     then Inl (grant_bad ''credentialStatus'' ''statusListIndex is not a canonical integer'')
     else if \<not> starts_with ''https://'' credential
     then Inl (grant_bad ''credentialStatus.statusListCredential'' ''is not an absolute HTTPS URL'')
     else Inr \<lparr>entry_id = i, entry_purpose = purpose, entry_index = index,
               entry_credential = credential\<rparr>)))))"

definition status_nodes :: "json \<Rightarrow> grant_error + json \<times> json option" where
  "status_nodes node =
     (case node of
        Array items \<Rightarrow>
          (if length items = 2 then Inr (items ! 0, Some (items ! 1))
           else Inl (grant_bad ''credentialStatus'' ''an array must hold exactly two entries''))
      | _ \<Rightarrow> Inr (node, None))"

definition recognise_status ::
  "json \<Rightarrow> rust_str \<Rightarrow> rust_str \<Rightarrow> rust_str \<Rightarrow> grant_error + rust_str \<times> bitstring_status_entry option" where
  "recognise_status body iss tok gid =
     and_then (status_nodes (the (get body ''credentialStatus''))) (\<lambda>(selfsame, projection).
     and_then (grant_closed selfsame STATUS_MEMBERS ''credentialStatus'') (\<lambda>_.
     and_then (grant_text selfsame ''type'') (\<lambda>kind.
     if kind \<noteq> STATUS_ENTRY_TYPE
     then Inl (grant_bad ''credentialStatus.type'' ''is not SelfsameDidCrdtStatusEntry'')
     else
     and_then (grant_text selfsame ''statusPurpose'') (\<lambda>purpose.
     if purpose \<noteq> ''revocation''
     then Inl (grant_bad ''credentialStatus.statusPurpose'' ''is not `revocation`'')
     else
     let expected_status_id = iss @ ''#status-'' @ tok in
     and_then (grant_text selfsame ''id'') (\<lambda>sid.
     if sid \<noteq> expected_status_id
     then Inl (grant_bad ''credentialStatus.id'' ''does not match the issuer DID and grant token'')
     else
     and_then (grant_text selfsame ''credentialId'') (\<lambda>cid.
     if cid \<noteq> gid
     then Inl (grant_bad ''credentialStatus.credentialId'' ''does not equal the grant id'')
     else
     and_then
       (case projection of
          None \<Rightarrow> Inr None
        | Some entry \<Rightarrow> and_then (recognise_projection entry) (\<lambda>e. Inr (Some e))) (\<lambda>entry.
     Inr (expected_status_id, entry))))))))"

definition recognise_types :: "json \<Rightarrow> grant_error + unit" where
  "recognise_types body =
     and_then (ok_or (BadMember ''type'') (array_of body ''type'')) (\<lambda>types.
     ensure (\<not> (length types \<noteq> 2 \<or> as_str (types ! 0) \<noteq> Some (GRANT_TYPES ! 0)
                 \<or> as_str (types ! 1) \<noteq> Some (GRANT_TYPES ! 1)))
       (grant_bad ''type'' ''must be exactly the two declared types in order''))"

definition recognise_subject ::
  "json \<Rightarrow> grant_error + rust_str \<times> rust_str \<times> acct_uri \<times> rust_str list" where
  "recognise_subject subject =
     and_then (grant_closed subject SUBJECT_MEMBERS ''credentialSubject'') (\<lambda>_.
     and_then (grant_text subject ''id'') (\<lambda>device.
     and_then (grant_text subject ''application'') (\<lambda>app.
     and_then (grant_text subject ''account'') (\<lambda>account_text.
     and_then (map_err (\<lambda>_. grant_bad ''credentialSubject.account'' ''is not an acct: URI'')
       (parse_acct_uri account_text)) (\<lambda>acct.
     if \<not> is_stable acct
     then Inl (grant_bad ''credentialSubject.account''
       ''is a human-readable alias, and only the stable opaque alias may appear here'')
     else
     and_then (ok_or (BadMember ''credentialSubject.permissions'') (array_of subject ''permissions'')) (\<lambda>items.
     if items = [] then Inl (grant_bad ''credentialSubject.permissions'' ''must be a non-empty set'')
     else
     and_then (try_map (\<lambda>item. ok_or (grant_bad ''credentialSubject.permissions'' ''entry is not a string'')
       (as_str item)) items) (\<lambda>perms.
     if \<not> strictly_ascending perms
     then Inl (grant_bad ''credentialSubject.permissions'' ''is unsorted or contains a duplicate'')
     else Inr (device, app, acct, perms))))))))"

definition recognise_cnf :: "externs \<Rightarrow> json \<Rightarrow> grant_error + octets" where
  "recognise_cnf X cnf =
     and_then (grant_closed cnf [''jwk''] ''cnf'') (\<lambda>_.
     and_then (ok_or (BadMember ''cnf.jwk'') (get cnf ''jwk'')) (\<lambda>j.
     and_then (grant_closed j [''kty'', ''crv'', ''alg'', ''x''] ''cnf.jwk'') (\<lambda>_.
     and_then (grant_text j ''kty'') (\<lambda>kty.
     and_then (if kty \<noteq> ''OKP'' then Inr True
       else and_then (grant_text j ''crv'') (\<lambda>crv. Inr (crv \<noteq> ''Ed25519''))) (\<lambda>other.
     if other then Inl (grant_bad ''cnf.jwk'' ''is not an OKP/Ed25519 key'')
     else
     and_then (grant_text j ''alg'') (\<lambda>alg.
     if alg \<noteq> ALG then Inl (grant_bad ''cnf.jwk'' ''alg is not EdDSA'')
     else if get j ''d'' \<noteq> None then Inl (grant_bad ''cnf.jwk'' ''carries a private key component'')
     else
     and_then (grant_text j ''x'') (\<lambda>x.
     map_err (\<lambda>_. grant_bad ''cnf.jwk'' ''x is not a canonical 32-octet base64url value'')
       (decode_b64url_32 X x))))))))"

definition grant_members :: "json \<Rightarrow> grant_error + unit" where
  "grant_members body =
     and_then (ok_or (BadMember ''<root>'') (as_object body)) (\<lambda>members.
     and_then (try_each (\<lambda>(name, _). ensure (name \<in> set CREDENTIAL_MEMBERS) (UnknownMember name)) members) (\<lambda>_.
     try_each (\<lambda>name. ensure (get body name \<noteq> None) (BadMember name)) CREDENTIAL_MEMBERS))"

text \<open>The \<open>expect\<close> calls of the source are \<open>the\<close>: \<open>grant_members\<close> has found the member.\<close>

definition recognise_grant :: "externs \<Rightarrow> json \<Rightarrow> grant_error + device_grant" where
  "recognise_grant X body =
     and_then (grant_members body) (\<lambda>_.
     and_then (map_err ContextFault (recognise_context_array (the (get body ''@context'')))) (\<lambda>_.
     and_then (recognise_types body) (\<lambda>_.
     and_then (grant_text body ''issuer'') (\<lambda>iss.
     if \<not> starts_with ''did:crdt:'' iss \<or> CHR ''#'' \<in> set iss
     then Inl (grant_bad ''issuer'' ''is not a bare did:crdt identifier'')
     else
     and_then (grant_text body ''id'') (\<lambda>i.
     and_then (ok_or (grant_bad ''id'' ''is not the issuer DID with a #grant- fragment'')
       (strip_prefix (iss @ ''#grant-'') i)) (\<lambda>tok.
     and_then (map_err (\<lambda>_. grant_bad ''id'' ''grant token is not a canonical 32-octet base64url value'')
       (decode_b64url_32 X tok)) (\<lambda>_.
     and_then (grant_stamp body ''validFrom'') (\<lambda>from.
     and_then (grant_stamp body ''validUntil'') (\<lambda>until.
     if until \<le> from then Inl (grant_bad ''validUntil'' ''is not later than validFrom'')
     else
     and_then (recognise_subject (the (get body ''credentialSubject''))) (\<lambda>(device, app, acct, perms).
     and_then (grant_text body ''aud'') (\<lambda>aud.
     if aud \<noteq> app then Inl (grant_bad ''aud'' ''does not equal credentialSubject.application'')
     else
     and_then (recognise_status body iss tok i) (\<lambda>(sid, entry).
     and_then (recognise_cnf X (the (get body ''cnf''))) (\<lambda>key.
     and_then (map_err (\<lambda>_. grant_bad ''credentialSubject.id'' ''does not encode the cnf.jwk key'')
       (matches_jwk X device key)) (\<lambda>_.
     Inr \<lparr>grant_id = i, issuer = iss, token = tok, device_did = device, device_public_key = key,
          application = app, account = acct, permissions = perms, valid_from = from,
          valid_until = until, status_id = sid, projection_entry = entry\<rparr>))))))))))))))"

section \<open>The recogniser, exactly\<close>

lemma grant_closed_iff: "grant_closed j allowed p = Inr u \<longleftrightarrow> has_members j [] allowed"
  by (auto simp: grant_closed_def has_members_def res_iff accessor_Some_iff case_prod_beta)

lemma grant_text_iff: "grant_text j name = Inr s \<longleftrightarrow> get j name = Some (String s)"
  by (simp add: grant_text_def res_iff typed_member_iff)

lemma grant_stamp_iff:
  "grant_stamp j name = Inr t \<longleftrightarrow> stamp_range t \<and> get j name = Some (String (format_date_time_stamp t))"
  by (auto simp: grant_stamp_def res_iff grant_text_iff stamp.dec_Inr_iff)

lemma grant_members_iff: "grant_members j = Inr u \<longleftrightarrow> has_members j CREDENTIAL_MEMBERS []"
proof (cases j)
  case (Object ms)
  have "(\<forall>name \<in> set CREDENTIAL_MEMBERS. get j name \<noteq> None) \<longleftrightarrow> set CREDENTIAL_MEMBERS \<subseteq> fst ` set ms"
    unfolding Object by (simp only: get_Object_None not_not subset_iff Ball_def)
  then show ?thesis
    by (auto simp: grant_members_def has_members_def res_iff Object case_prod_beta)
qed (auto simp: grant_members_def has_members_def)

lemma length_2_iff: "length items = 2 \<longleftrightarrow> (\<exists>a b. items = [a, b])"
  by (auto simp: length_Suc_conv numeral_2_eq_2)

lemma recognise_types_iff:
  "recognise_types j = Inr u \<longleftrightarrow> get j ''type'' = Some (Array (map String GRANT_TYPES))"
  by (auto simp: recognise_types_def res_iff typed_member_iff accessor_Some_iff length_2_iff GRANT_TYPES_def)

text \<open>The parts of a grant document, as relations between the JSON and the recognised values.\<close>

definition subject_ok :: "json \<Rightarrow> rust_str \<Rightarrow> rust_str \<Rightarrow> acct_uri \<Rightarrow> rust_str list \<Rightarrow> bool" where
  "subject_ok s device app acct perms \<longleftrightarrow>
     has_members s [] SUBJECT_MEMBERS \<and> get s ''id'' = Some (String device) \<and>
     get s ''application'' = Some (String app) \<and>
     (\<exists>t. get s ''account'' = Some (String t) \<and> parse_acct_uri t = Inr acct) \<and> is_stable acct \<and>
     get s ''permissions'' = Some (Array (map String perms)) \<and> perms \<noteq> [] \<and> sorted_wrt (<) perms"

lemma recognise_subject_iff:
  "recognise_subject s = Inr (device, app, acct, perms) \<longleftrightarrow> subject_ok s device app acct perms"
proof -
  have "recognise_subject s = Inr (device, app, acct, perms) \<longleftrightarrow>
    has_members s [] SUBJECT_MEMBERS \<and> get s ''id'' = Some (String device) \<and>
    get s ''application'' = Some (String app) \<and>
    (\<exists>t. get s ''account'' = Some (String t) \<and> parse_acct_uri t = Inr acct) \<and> is_stable acct \<and>
    (\<exists>items. get s ''permissions'' = Some (Array items) \<and> items \<noteq> [] \<and> items = map String perms) \<and>
    strictly_ascending perms"
    unfolding recognise_subject_def
    by (simp only: and_then_Inr_iff grant_closed_iff grant_text_iff map_err_Inr_iff ok_or_Inr_iff
        typed_member_iff try_map_strings if_Inl_Inr_iff not_not sum.inject prod.inject) blast
  then show ?thesis by (auto simp: subject_ok_def strictly_ascending_iff)
qed

definition projection_ok :: "json \<Rightarrow> bitstring_status_entry \<Rightarrow> bool" where
  "projection_ok j e \<longleftrightarrow>
     has_members j [] BITSTRING_MEMBERS \<and> get j ''type'' = Some (String BITSTRING_ENTRY_TYPE) \<and>
     get j ''id'' = Some (String (entry_id e)) \<and> entry_id e \<noteq> [] \<and>
     get j ''statusPurpose'' = Some (String ''revocation'') \<and> entry_purpose e = ''revocation'' \<and>
     get j ''statusListIndex'' = Some (String (entry_index e)) \<and> entry_index e \<noteq> [] \<and>
     canonical_index (entry_index e) \<and>
     get j ''statusListCredential'' = Some (String (entry_credential e)) \<and>
     starts_with ''https://'' (entry_credential e)"

lemma projection_member_iff:
  "projection_member j name = Inr s \<longleftrightarrow> get j name = Some (String s) \<and> s \<noteq> []"
  by (auto simp: projection_member_def res_iff bind_eq_Some_conv typed_member_iff)

lemma recognise_projection_iff: "recognise_projection j = Inr e \<longleftrightarrow> projection_ok j e"
proof -
  have "starts_with ''https://'' s \<Longrightarrow> s \<noteq> []" for s by (auto simp: starts_with_iff)
  then show ?thesis
    unfolding recognise_projection_def projection_ok_def and_then_Inr_iff grant_closed_iff if_Inl_Inr_iff
      projection_member_iff not_not typed_member_iff
    by (cases e) auto
qed

definition status_ok ::
  "json \<Rightarrow> rust_str \<Rightarrow> rust_str \<Rightarrow> rust_str \<Rightarrow> rust_str \<Rightarrow> bitstring_status_entry option \<Rightarrow> bool" where
  "status_ok node iss tok gid sid entry \<longleftrightarrow>
     (\<exists>s. (case entry of None \<Rightarrow> node = s \<and> (\<forall>items. node \<noteq> Array items)
           | Some e \<Rightarrow> \<exists>p. node = Array [s, p] \<and> projection_ok p e) \<and>
        has_members s [] STATUS_MEMBERS \<and> get s ''type'' = Some (String STATUS_ENTRY_TYPE) \<and>
        get s ''statusPurpose'' = Some (String ''revocation'') \<and>
        get s ''id'' = Some (String sid) \<and> sid = iss @ ''#status-'' @ tok \<and>
        get s ''credentialId'' = Some (String gid))"

lemma status_nodes_iff:
  "status_nodes node = Inr (s, p) \<longleftrightarrow>
     (case p of None \<Rightarrow> node = s \<and> (\<forall>items. node \<noteq> Array items) | Some e \<Rightarrow> node = Array [s, e])"
  by (cases node; cases p) (auto simp: status_nodes_def length_2_iff)

lemma recognise_status_iff:
  "recognise_status j iss tok gid = Inr (sid, entry) \<longleftrightarrow>
   status_ok (the (get j ''credentialStatus'')) iss tok gid sid entry"
proof -
  define node where "node = the (get j ''credentialStatus'')"
  have "recognise_status j iss tok gid = Inr (sid, entry) \<longleftrightarrow>
    (\<exists>s p. status_nodes node = Inr (s, p) \<and> has_members s [] STATUS_MEMBERS \<and>
      get s ''type'' = Some (String STATUS_ENTRY_TYPE) \<and> get s ''statusPurpose'' = Some (String ''revocation'') \<and>
      get s ''id'' = Some (String (iss @ ''#status-'' @ tok)) \<and> get s ''credentialId'' = Some (String gid) \<and>
      sid = iss @ ''#status-'' @ tok \<and>
      (case p of None \<Rightarrow> Inr None | Some e \<Rightarrow> and_then (recognise_projection e) (\<lambda>e. Inr (Some e))) = Inr entry)"
    unfolding recognise_status_def Let_def node_def [symmetric]
    by (simp only: and_then_Inr_iff grant_closed_iff grant_text_iff if_Inl_Inr_iff not_not split_paired_Ex
        prod.case sum.inject prod.inject) blast
  also have "\<dots> \<longleftrightarrow> status_ok node iss tok gid sid entry"
    unfolding status_ok_def status_nodes_iff
    by (cases entry) (auto simp: res_iff recognise_projection_iff split: option.splits)
  finally show ?thesis by (simp add: node_def)
qed

definition cnf_ok :: "externs \<Rightarrow> json \<Rightarrow> octets \<Rightarrow> bool" where
  "cnf_ok X cnf key \<longleftrightarrow>
     has_members cnf [] [''jwk''] \<and>
     (\<exists>j x. get cnf ''jwk'' = Some j \<and> has_members j [] [''kty'', ''crv'', ''alg'', ''x''] \<and>
        get j ''kty'' = Some (String ''OKP'') \<and> get j ''crv'' = Some (String ''Ed25519'') \<and>
        get j ''alg'' = Some (String ''EdDSA'') \<and> get j ''x'' = Some (String x) \<and>
        decode_b64url_32 X x = Inr key)"

lemma recognise_cnf_iff: "recognise_cnf X cnf = Inr key \<longleftrightarrow> cnf_ok X cnf key"
proof -
  have d: "get j ''d'' = None" if "has_members j [] [''kty'', ''crv'', ''alg'', ''x'']" for j
    using that by (auto simp: has_members_def get_Object_None)
  have "recognise_cnf X cnf = Inr key \<longleftrightarrow> has_members cnf [] [''jwk''] \<and>
    (\<exists>j. get cnf ''jwk'' = Some j \<and> has_members j [] [''kty'', ''crv'', ''alg'', ''x''] \<and>
       get j ''kty'' = Some (String ''OKP'') \<and> get j ''crv'' = Some (String ''Ed25519'') \<and>
       get j ''alg'' = Some (String ''EdDSA'') \<and> get j ''d'' = None \<and>
       (\<exists>x. get j ''x'' = Some (String x) \<and> decode_b64url_32 X x = Inr key))"
    unfolding recognise_cnf_def and_then_Inr_iff grant_closed_iff grant_text_iff ok_or_Inr_iff
      if_Inl_Inr_iff map_err_Inr_iff ALG_def
    by (auto simp: res_iff grant_text_iff split: if_splits)
  with d show ?thesis unfolding cnf_ok_def by blast
qed

text \<open>What a recognised grant is: every cross-field equality, over one document.\<close>

definition grant_ok :: "externs \<Rightarrow> json \<Rightarrow> device_grant \<Rightarrow> bool" where
  "grant_ok X j g \<longleftrightarrow>
     has_members j CREDENTIAL_MEMBERS [] \<and>
     get j ''@context'' = Some (Array [String W3C_VC_CONTEXT, String CONTEXT_IRI]) \<and>
     get j ''type'' = Some (Array (map String GRANT_TYPES)) \<and>
     get j ''issuer'' = Some (String (issuer g)) \<and> starts_with ''did:crdt:'' (issuer g) \<and>
     CHR ''#'' \<notin> set (issuer g) \<and>
     get j ''id'' = Some (String (grant_id g)) \<and> grant_id g = issuer g @ ''#grant-'' @ token g \<and>
     is_ok (decode_b64url_32 X (token g)) \<and>
     stamp_range (valid_from g) \<and> get j ''validFrom'' = Some (String (format_date_time_stamp (valid_from g))) \<and>
     stamp_range (valid_until g) \<and> get j ''validUntil'' = Some (String (format_date_time_stamp (valid_until g))) \<and>
     valid_from g < valid_until g \<and>
     (\<exists>s. get j ''credentialSubject'' = Some s \<and>
        subject_ok s (device_did g) (application g) (account g) (permissions g)) \<and>
     get j ''aud'' = Some (String (application g)) \<and>
     (\<exists>node. get j ''credentialStatus'' = Some node \<and>
        status_ok node (issuer g) (token g) (grant_id g) (status_id g) (projection_entry g)) \<and>
     (\<exists>cnf. get j ''cnf'' = Some cnf \<and> cnf_ok X cnf (device_public_key g)) \<and>
     usable_key X (device_public_key g) \<and> device_did g = encode_did_key (device_public_key g)"

lemma has_members_get: "has_members j req opt \<Longrightarrow> name \<in> set req \<Longrightarrow> get j name = Some (the (get j name))"
proof -
  assume "has_members j req opt" "name \<in> set req"
  then have "get j name \<noteq> None" by (metis get_Object_None has_members_def subsetD)
  then show ?thesis by simp
qed

lemma recognise_grant_iff: "recognise_grant X j = Inr g \<longleftrightarrow> grant_ok X j g"
proof (cases "has_members j CREDENTIAL_MEMBERS []")
  case False
  then show ?thesis by (auto simp: recognise_grant_def and_then_Inr_iff grant_members_iff grant_ok_def)
next
  case True
  have m: "get j name = Some v \<longleftrightarrow> the (get j name) = v" if "name \<in> set CREDENTIAL_MEMBERS" for name v
    using has_members_get [OF True that] by auto
  have c: "name \<in> set CREDENTIAL_MEMBERS"
    if "name \<in> {''@context'', ''credentialSubject'', ''credentialStatus'', ''cnf''}" for name
    using that by (auto simp: CREDENTIAL_MEMBERS_def)
  show ?thesis
    unfolding recognise_grant_def grant_ok_def and_then_Inr_iff grant_members_iff map_err_Inr_iff
      recognise_context_array_iff recognise_types_iff grant_text_iff if_Inl_Inr_iff ok_or_Inr_iff
      strip_prefix_Some_iff grant_stamp_iff split_paired_Ex prod.case recognise_subject_iff
      recognise_status_iff recognise_cnf_iff matches_jwk_iff not_isl_iff
    using True m [OF c] by (cases g) (auto simp: not_le)
qed

section \<open>Issued grants\<close>

text \<open>Recognition does not depend on the order of members.\<close>

lemma get_sorted:
  "json_wf j \<Longrightarrow> get j name = Some v \<Longrightarrow> json_wf v \<and> get (sort_members j) name = Some (sort_members v)"
  by (simp add: get_sort_members json_wf_get)

lemma sort_map_String: "map sort_members (map String ps) = map String ps"
  by (induction ps) simp_all

lemma subject_ok_sorted:
  "json_wf s \<Longrightarrow> subject_ok s device app acct perms \<Longrightarrow> subject_ok (sort_members s) device app acct perms"
  unfolding subject_ok_def
  by (auto simp: has_members_sort_members get_sort_members sort_map_String simp del: map_map)

lemma cnf_ok_sorted: "json_wf c \<Longrightarrow> cnf_ok X c key \<Longrightarrow> cnf_ok X (sort_members c) key"
  unfolding cnf_ok_def
  by (auto simp: has_members_sort_members get_sort_members dest: json_wf_get)

lemma projection_ok_sorted: "json_wf p \<Longrightarrow> projection_ok p e \<Longrightarrow> projection_ok (sort_members p) e"
  unfolding projection_ok_def by (simp add: has_members_sort_members get_sort_members)

lemma status_ok_sorted:
  assumes "json_wf node" "status_ok node iss tok gid sid entry"
  shows "status_ok (sort_members node) iss tok gid sid entry"
proof -
  from assms(2) obtain s where
    n: "case entry of None \<Rightarrow> node = s \<and> (\<forall>items. node \<noteq> Array items)
        | Some e \<Rightarrow> \<exists>p. node = Array [s, p] \<and> projection_ok p e"
    and s: "has_members s [] STATUS_MEMBERS" "get s ''type'' = Some (String STATUS_ENTRY_TYPE)"
      "get s ''statusPurpose'' = Some (String ''revocation'')" "get s ''id'' = Some (String sid)"
      "sid = iss @ ''#status-'' @ tok" "get s ''credentialId'' = Some (String gid)"
    unfolding status_ok_def by blast
  have wf: "json_wf s" using n assms(1) by (auto split: option.splits)
  have "case entry of None \<Rightarrow> sort_members node = sort_members s \<and> (\<forall>items. sort_members node \<noteq> Array items)
      | Some e \<Rightarrow> \<exists>p. sort_members node = Array [sort_members s, p] \<and> projection_ok p e"
  proof (cases entry)
    case None
    then show ?thesis using n by (cases node) auto
  next
    case (Some e)
    then show ?thesis using n assms(1) by (auto intro: projection_ok_sorted)
  qed
  then show ?thesis
    unfolding status_ok_def using s wf
    by (intro exI [of _ "sort_members s"]) (simp add: has_members_sort_members get_sort_members)
qed

lemma grant_ok_sorted: "json_wf j \<Longrightarrow> grant_ok X j g \<Longrightarrow> grant_ok X (sort_members j) g"
proof -
  assume wf: "json_wf j" and g: "grant_ok X j g"
  note get = get_sorted [OF wf]
  have sub: "\<exists>s. get (sort_members j) ''credentialSubject'' = Some s \<and>
      subject_ok s (device_did g) (application g) (account g) (permissions g)"
    using g get subject_ok_sorted unfolding grant_ok_def by blast
  have status: "\<exists>node. get (sort_members j) ''credentialStatus'' = Some node \<and>
      status_ok node (issuer g) (token g) (grant_id g) (status_id g) (projection_entry g)"
    using g get status_ok_sorted unfolding grant_ok_def by blast
  have cnf: "\<exists>cnf. get (sort_members j) ''cnf'' = Some cnf \<and> cnf_ok X cnf (device_public_key g)"
    using g get cnf_ok_sorted unfolding grant_ok_def by blast
  show ?thesis
    using g sub status cnf unfolding grant_ok_def
    by (simp add: has_members_sort_members get_sort_members [OF wf] sort_map_String del: map_map)
qed

text \<open>What the issuer must bring for the document it builds to be a grant.\<close>

definition issuable ::
  "externs \<Rightarrow> rust_str \<Rightarrow> octets \<Rightarrow> octets \<Rightarrow> acct_uri \<Rightarrow> rust_str list \<Rightarrow> unix_seconds \<Rightarrow> unix_seconds \<Rightarrow> bool" where
  "issuable X home_did token_octets device_key acct perms from until \<longleftrightarrow>
     starts_with ''did:crdt:'' home_did \<and> CHR ''#'' \<notin> set home_did \<and> length token_octets = 32 \<and>
     usable_key X device_key \<and> parse_acct_uri (acct_text acct) = Inr acct \<and> is_stable acct \<and>
     perms \<noteq> [] \<and> sorted_wrt (<) perms \<and> stamp_range from \<and> stamp_range until \<and> from < until"

definition issued_grant ::
  "externs \<Rightarrow> rust_str \<Rightarrow> octets \<Rightarrow> octets \<Rightarrow> app_id \<Rightarrow> acct_uri \<Rightarrow> rust_str list \<Rightarrow> unix_seconds \<Rightarrow> unix_seconds \<Rightarrow> device_grant" where
  "issued_grant X home_did token_octets device_key aid acct perms from until =
     \<lparr>grant_id = home_did @ ''#grant-'' @ b64url X token_octets, issuer = home_did,
      token = b64url X token_octets, device_did = encode_did_key device_key,
      device_public_key = device_key, application = app_text aid, account = acct,
      permissions = perms, valid_from = from, valid_until = until,
      status_id = home_did @ ''#status-'' @ b64url X token_octets, projection_entry = None\<rparr>"

lemma decode_b64url_32_encode:
  assumes "base64ct X" "length bs = 32"
  shows "decode_b64url_32 X (b64url X bs) = Inr bs"
  using canonical_codec.dec_enc [OF b64url_codec [OF assms(1)], of bs 32] assms(2)
  by (simp add: decode_b64url_32_def)

lemma grant_ok_built:
  assumes X: "base64ct X"
    and i: "issuable X home_did token_octets device_key acct perms from until"
  shows "grant_ok X (build_grant X home_did token_octets (encode_did_key device_key) device_key aid acct perms from until)
    (issued_grant X home_did token_octets device_key aid acct perms from until)"
proof -
  have "length device_key = 32" using i by (simp add: issuable_def usable_key_def)
  then have d: "decode_b64url_32 X (b64url X device_key) = Inr device_key"
      "decode_b64url_32 X (b64url X token_octets) = Inr token_octets"
    using i by (simp_all add: decode_b64url_32_encode [OF X] issuable_def)
  show ?thesis
    unfolding grant_ok_def build_grant_def identifiers_def Let_def prod.case issued_grant_def
      subject_ok_def status_ok_def cnf_ok_def has_members_def get_Object CREDENTIAL_MEMBERS_def
      SUBJECT_MEMBERS_def STATUS_MEMBERS_def GRANT_TYPES_def
    using i d by (simp add: issuable_def get_Object)
qed

section \<open>The strings of an issued grant\<close>

lemma valid_utf8_if: "(\<And>c. c \<in> set s \<Longrightarrow> code c < 0x80) \<Longrightarrow> valid_utf8 s"
  by (intro valid_utf8_ascii) (simp add: list_all_iff)

lemma ascii_alnum_code: "is_ascii_alphanumeric c \<Longrightarrow> code c < 0x80"
  by (auto simp: ascii_class_defs)

lemma valid_utf8_b64url: "base64ct X \<Longrightarrow> valid_utf8 (b64url X bs)"
  using base64ct.encode_alphabet [of X bs]
  by (intro valid_utf8_if) (auto simp: b64url_def list_all_iff is_b64url_char_def dest!: ascii_alnum_code)

lemma stamp_ascii: "c \<in> set (stamp_text Y M D h m s) \<Longrightarrow> stamp_fields [Y, M, D, h, m, s] \<Longrightarrow> code c < 0x80"
  by (auto simp: stamp_text_def stamp_fields_6 list_all_iff is_ascii_digit_def)

lemma length_stamp: "stamp_range t \<Longrightarrow> length (format_date_time_stamp t) = 20"
  by (rule format_date_time_stamp_parts)
     (auto simp: format_stamp_value stamp_text_def stamp_fields_6)

lemma valid_utf8_stamp: "stamp_range t \<Longrightarrow> valid_utf8 (format_date_time_stamp t)"
  by (rule format_date_time_stamp_parts)
     (auto simp: format_stamp_value intro!: valid_utf8_if dest: stamp_ascii)

lemma decode_chars_alphabet: "decode_chars bytes t = Inr bs \<Longrightarrow> set t \<subseteq> set BASE58"
proof (induction t arbitrary: bytes)
  case (Cons c t)
  then obtain i bytes' where "position c BASE58 = Some i" "decode_chars bytes' t = Inr bs"
    by (auto simp: res_iff decode_char_def)
  then show ?case using Cons.IH position_Some [of c BASE58 i] nth_mem by fastforce
qed simp

lemma decode_base58btc_alphabet: "decode_base58btc t = Inr bs \<Longrightarrow> set t \<subseteq> set BASE58"
  unfolding decode_base58btc_def Let_def
  by (auto simp: res_iff dest!: decode_chars_alphabet split: if_splits)

lemma BASE58_ascii: "c \<in> set BASE58 \<Longrightarrow> code c < 0x80"
proof -
  have "list_all (\<lambda>c. code c < 0x80) BASE58" by code_simp
  then show "c \<in> set BASE58 \<Longrightarrow> code c < 0x80" by (simp add: list_all_iff)
qed

lemma valid_utf8_did_key: "valid_utf8 (encode_did_key key)"
proof -
  have "decode_base58btc (base58btc (MULTICODEC_ED25519_PUB @ key)) = Inr (MULTICODEC_ED25519_PUB @ key)"
    by (rule base58.dec_enc) (simp add: MULTICODEC_ED25519_PUB_def)
  then have "valid_utf8 (base58btc (MULTICODEC_ED25519_PUB @ key))"
    using decode_base58btc_alphabet BASE58_ascii by (blast intro: valid_utf8_if)
  then show ?thesis
    unfolding encode_did_key_def append_assoc MULTIBASE_BASE58BTC_def
    by (intro valid_utf8_append valid_utf8_if [of "''did:key:''"] valid_utf8_if [of "[_]"]) auto
qed

lemma valid_utf8_acct: "parse_acct_uri s = Inr u \<Longrightarrow> valid_utf8 s"
proof (rule valid_utf8_if)
  fix c assume p: "parse_acct_uri s = Inr u" "c \<in> set s"
  then obtain l h where s: "s = ''acct:'' @ l @ ''@'' @ h" and l: "list_all is_acct_localpart_char l"
    and h: "dns_name h"
    by (auto simp: parse_acct_uri_Inr_iff acct_ok_def)
  have ld: "code d < 0x80" if "is_acct_localpart_char d" for d
    using that ascii_alnum_code [of d] by (auto simp: is_acct_localpart_char_def)
  have hd: "code d < 0x80" if "d \<in> set h" for d
    using dns_name_alphabet [OF h that] by (auto simp: is_ldh_def ascii_class_defs)
  show "code c < 0x80"
    using p(2) l ld hd by (auto simp: s list_all_iff)
qed

lemma built_grant_wf:
  assumes "base64ct X" "issuable X home_did token_octets device_key acct perms from until"
    and "valid_utf8 home_did" "valid_utf8 (app_text aid)" "\<forall>p \<in> set perms. valid_utf8 p"
  shows "json_wf (build_grant X home_did token_octets (encode_did_key device_key) device_key aid acct perms from until)"
    and "json_depth (build_grant X home_did token_octets (encode_did_key device_key) device_key aid acct perms from until) \<le> 8"
proof -
  have lit: "valid_utf8 s" if "list_all (\<lambda>c. code c < 0x80) s" for s using that by (rule valid_utf8_ascii)
  have frag: "valid_utf8 (home_did @ f @ b64url X token_octets)" if "list_all (\<lambda>c. code c < 0x80) f" for f
    by (intro valid_utf8_append assms(3) valid_utf8_b64url [OF assms(1)] valid_utf8_ascii [OF that])
  have f: "valid_utf8 (home_did @ ''#grant-'' @ b64url X token_octets)"
      "valid_utf8 (home_did @ ''#status-'' @ b64url X token_octets)"
    by (rule frag, simp)+
  have c: "valid_utf8 W3C_VC_CONTEXT" "valid_utf8 CONTEXT_IRI" "valid_utf8 STATUS_ENTRY_TYPE"
      "valid_utf8 (GRANT_TYPES ! 0)" "valid_utf8 (GRANT_TYPES ! Suc 0)"
    by (rule lit, code_simp)+
  have a: "valid_utf8 (acct_text acct)" "stamp_range from" "stamp_range until"
    using assms(2) valid_utf8_acct by (auto simp: issuable_def)
  show "json_wf (build_grant X home_did token_octets (encode_did_key device_key) device_key aid acct perms from until)"
    using f c a assms(3-5) valid_utf8_stamp valid_utf8_did_key valid_utf8_b64url [OF assms(1)]
    by (simp add: build_grant_def identifiers_def Let_def lit)
  show "json_depth (build_grant X home_did token_octets (encode_did_key device_key) device_key aid acct perms from until) \<le> 8"
    by (simp add: build_grant_def identifiers_def Let_def)
qed

lemma grant_header_ok:
  assumes "starts_with ''did:crdt:'' home_did" "valid_utf8 home_did"
  shows "json_wf (grant_header home_did)" "json_depth (grant_header home_did) \<le> 4"
    "header_ok (grant_header home_did) GRANT_JWS []"
proof -
  have lit: "valid_utf8 s" if "list_all (\<lambda>c. code c < 0x80) s" for s using that by (rule valid_utf8_ascii)
  have "valid_utf8 (home_did @ ''#jwk-0'')" by (intro valid_utf8_append assms(2) lit) simp
  then show "json_wf (grant_header home_did)"
    by (simp add: grant_header_def ALG_def GRANT_JWS_def HOME_METHOD_FRAGMENT_def lit)
  show "json_depth (grant_header home_did) \<le> 4" by (simp add: grant_header_def)
  obtain r where "home_did = ''did:'' @ r" using assms(1) by (auto simp: starts_with_iff)
  then show "header_ok (grant_header home_did) GRANT_JWS []"
    by (simp add: header_ok_def grant_header_def GRANT_JWS_def HOME_METHOD_FRAGMENT_def ALG_def
        typed_member_iff get_Object allowed_header_def FORBIDDEN_HEADER_MEMBERS_def kid_shape_def starts_with_iff)
qed

lemma stamps_sub: "stamp_range a \<Longrightarrow> stamp_range b \<Longrightarrow> i64_sub a b = a - b"
  by (rule i64_sub_exact) (auto simp: stamp_range_def is_i64_def i64_min_def i64_max_def)

lemma issue_grant_jws:
  assumes X: "base64ct X" "ed25519_law X home_key"
    and i: "issuable X home_did token_octets device_key acct perms from until"
    and utf8: "valid_utf8 home_did" "valid_utf8 (app_text aid)" "\<forall>p \<in> set perms. valid_utf8 p"
    and bounds: "length (canonicalise (grant_header home_did)) \<le> 4096"
      "length (issue_grant X home_key home_did token_octets (encode_did_key device_key) device_key aid acct
         perms from until) \<le> MAX_GRANT_OCTETS"
  shows "\<exists>jws. recognise_jws X (issue_grant X home_key home_did token_octets (encode_did_key device_key)
        device_key aid acct perms from until) GRANT_JWS [] = Inr jws \<and>
      verify_jws X jws (sk_public X home_key) = Inr () \<and>
      jws_kid jws = home_did @ ''#jwk-0'' \<and>
      recognise_grant X (payload jws) =
        Inr (issued_grant X home_did token_octets device_key aid acct perms from until)"
proof -
  let ?j = "build_grant X home_did token_octets (encode_did_key device_key) device_key aid acct perms from until"
  have s: "starts_with ''did:crdt:'' home_did" using i by (simp add: issuable_def)
  note wf = built_grant_wf [OF X(1) i utf8] and h = grant_header_ok [OF s utf8(1)]
  have vc: "get ?j ''vc'' = None" by (simp add: build_grant_def identifiers_def Let_def get_Object)
  have "\<exists>jws. recognise_jws X (sign_jws X (grant_header home_did) ?j home_key) GRANT_JWS [] = Inr jws \<and>
      verify_jws X jws (sk_public X home_key) = Inr () \<and>
      protected_header jws = sort_members (grant_header home_did) \<and> payload jws = sort_members ?j \<and>
      payload_octets jws = canonicalise ?j"
    using wf(2) bounds by (intro sign_recognise_verify_lemma X h wf(1) vc) (simp_all add: GRANT_JWS_def issue_grant_def)
  moreover have "recognise_grant X (sort_members ?j) =
      Inr (issued_grant X home_did token_octets device_key aid acct perms from until)"
    using grant_ok_sorted [OF wf(1) grant_ok_built [OF X(1) i]] by (simp add: recognise_grant_iff)
  moreover have "jws_kid jws = home_did @ ''#jwk-0''"
    if "recognise_jws X t GRANT_JWS [] = Inr jws" "protected_header jws = sort_members (grant_header home_did)" for t jws
    using that h(1)
    by (simp add: recognise_jws_iff [OF X(1)] jws_ok_def typed_member_sort_members)
      (simp add: grant_header_def typed_member_iff get_Object HOME_METHOD_FRAGMENT_def)
  ultimately show ?thesis unfolding issue_grant_def by metis
qed

section \<open>Properties\<close>

text \<open>
  A grant issued over proper inputs is recognised by every verifier as exactly the grant the
  issuer meant: the compact JWS passes the recogniser of the contract, its signature verifies under
  the home key, and the payload that arrived is recognised with the issuer, token, device key,
  application, account, permissions and window it was built from.
\<close>

theorem issued_grant_recognised:
  assumes X: "base64ct X" "ed25519_law X home_key"
    and i: "issuable X home_did token_octets device_key acct perms from until"
    and utf8: "valid_utf8 home_did" "valid_utf8 (app_text aid)" "\<forall>p \<in> set perms. valid_utf8 p"
    and bounds: "length (canonicalise (grant_header home_did)) \<le> 4096"
      "length (issue_grant X home_key home_did token_octets (encode_did_key device_key) device_key aid acct
         perms from until) \<le> MAX_GRANT_OCTETS"
  shows "\<exists>jws. recognise_jws X (issue_grant X home_key home_did token_octets (encode_did_key device_key)
        device_key aid acct perms from until) GRANT_JWS [] = Inr jws \<and>
      verify_jws X jws (sk_public X home_key) = Inr () \<and>
      recognise_grant X (payload jws) =
        Inr (issued_grant X home_did token_octets device_key aid acct perms from until)"
  using issue_grant_jws [OF assms] by blast

lemma parse_acct_text: "parse_acct_uri s = Inr u \<Longrightarrow> acct_text u = s"
  by (auto simp: parse_acct_uri_Inr_iff)

definition sample_account :: acct_uri where
  "sample_account = projr (parse_acct_uri (stable_acct_uri sample_externs ''did:crdt:h'' ''a.example''))"

abbreviation sample_app :: app_id where
  "sample_app \<equiv> \<lparr>app_text = ''https://app.example/app'', app_origin = ''https://app.example''\<rparr>"

abbreviation sample_permission :: rust_str where
  "sample_permission \<equiv> ''https://app.example/p#read''"

definition sample_token :: octets where "sample_token = replicate 32 CHR ''t''"
definition sample_device_key :: octets where "sample_device_key = replicate 32 CHR ''d''"

definition sample_document :: json where
  "sample_document = build_grant sample_externs ''did:crdt:h'' sample_token (encode_did_key sample_device_key)
     sample_device_key sample_app sample_account [sample_permission] 1700000000 1700003600"

definition sample_grant :: device_grant where
  "sample_grant = issued_grant sample_externs ''did:crdt:h'' sample_token sample_device_key sample_app
     sample_account [sample_permission] 1700000000 1700003600"

lemma sample_issuable:
  "issuable sample_externs ''did:crdt:h'' sample_token sample_device_key sample_account
     [sample_permission] 1700000000 1700003600"
proof -
  have "is_ok (parse_acct_uri (stable_acct_uri sample_externs ''did:crdt:h'' ''a.example''))" by code_simp
  then obtain u where "parse_acct_uri (stable_acct_uri sample_externs ''did:crdt:h'' ''a.example'') = Inr u"
    by (auto simp: not_isl_iff)
  then have "parse_acct_uri (acct_text sample_account) = Inr sample_account"
    using parse_acct_text by (simp add: sample_account_def)
  moreover have "is_stable sample_account" by code_simp
  ultimately show ?thesis
    by (simp add: issuable_def usable_key_def sample_externs_def starts_with_def stamp_range_def
        sample_token_def sample_device_key_def)
qed

lemma be_value_bound: "\<forall>d \<in> set ds. d < b \<Longrightarrow> be_value b ds < b ^ length ds"
proof (induction ds rule: rev_induct)
  case (snoc d ds)
  then have "be_value b ds + 1 \<le> b ^ length ds" "d < b" by auto
  from mult_right_mono [OF this(1), of b] this(2)
  show ?case by (simp add: be_value_def algebra_simps)
qed (simp add: be_value_def)

lemma length_base58btc: "length (base58btc bs) \<le> 3 * length bs"
proof -
  define ds where "ds = foldl encode_octet [] bs"
  have "length ds \<le> 2 * length bs"
  proof (cases "ds = []")
    case False
    have "58 ^ (length ds - 1) \<le> be_value 256 (map code bs)"
      using encode_octets_be [of bs] numeral_digits_lower [of 58 ds] False by (simp add: ds_def)
    also have "\<dots> < 256 ^ length bs"
      using be_value_bound [of "map code bs" 256] by (simp add: code_bound)
    also have "\<dots> \<le> (58 ^ 2) ^ length bs" by (rule power_mono) simp_all
    finally have "(58::nat) ^ (length ds - 1) < 58 ^ (2 * length bs)" by (simp add: power_mult)
    then show ?thesis by (simp add: power_strict_increasing_iff)
  qed simp
  moreover have "length (takeWhile (\<lambda>b. code b = 0) bs) \<le> length bs" by (rule length_takeWhile_le)
  ultimately show ?thesis by (simp add: base58btc_def Let_def ds_def)
qed

lemma length_did_key: "length key = 32 \<Longrightarrow> length (encode_did_key key) \<le> 111"
  using length_base58btc [of "MULTICODEC_ED25519_PUB @ key"]
  by (simp add: encode_did_key_def MULTICODEC_ED25519_PUB_def)


lemma sample_document_length: "length (canonicalise sample_document) \<le> 16384"
proof -
  have "length sample_device_key = 32" "length sample_token = 32"
    by (simp_all add: sample_device_key_def sample_token_def)
  then have l: "length (encode_did_key sample_device_key) \<le> 111"
      "length (b64url sample_externs sample_device_key) = 43" "length (b64url sample_externs sample_token) = 43"
    by (simp_all add: length_did_key b64url_def rfc4648.encode_length unpadded_len_def)
  have t: "length (acct_text sample_account) = 70" by code_simp
  have st: "length (format_date_time_stamp 1700000000) = 20" "length (format_date_time_stamp 1700003600) = 20"
    by (simp_all add: length_stamp stamp_range_def)
  have "text_bound sample_document \<le> 16384"
    using l t st by (simp add: sample_document_def build_grant_def identifiers_def Let_def
        W3C_VC_CONTEXT_def CONTEXT_IRI_def GRANT_TYPES_def STATUS_ENTRY_TYPE_def)
  then show ?thesis using length_canonicalise le_trans by blast
qed

theorem issued_grant_recognised_witness:
  "\<exists>jws. recognise_jws sample_externs (issue_grant sample_externs ''home-key'' ''did:crdt:h'' sample_token
        (encode_did_key sample_device_key) sample_device_key sample_app sample_account [sample_permission]
        1700000000 1700003600) GRANT_JWS [] = Inr jws \<and>
     verify_jws sample_externs jws (sk_public sample_externs ''home-key'') = Inr () \<and>
     recognise_grant sample_externs (payload jws) = Inr sample_grant"
proof -
  have h: "length (canonicalise (grant_header ''did:crdt:h'')) \<le> 4096" by code_simp
  have u: "valid_utf8 ''did:crdt:h''" "valid_utf8 (app_text sample_app)"
      "\<forall>p \<in> set [sample_permission]. valid_utf8 p" by code_simp+
  have "unpadded_len n \<le> 21846" if "n \<le> 16384" for n using that by (simp add: unpadded_len_def)
  from this [OF le_trans [OF h]] this [OF sample_document_length]
  have "length (issue_grant sample_externs ''home-key'' ''did:crdt:h'' sample_token
        (encode_did_key sample_device_key) sample_device_key sample_app sample_account [sample_permission]
        1700000000 1700003600) \<le> MAX_GRANT_OCTETS"
    unfolding issue_grant_def length_sign_jws [OF rfc4648.base64ct_axioms sample_ed25519_law]
      sample_document_def [symmetric] MAX_GRANT_OCTETS_def by linarith
  from issued_grant_recognised [OF rfc4648.base64ct_axioms sample_ed25519_law sample_issuable u h this]
  show ?thesis unfolding sample_grant_def .
qed

text \<open>The members a grant repeats, as the document has them.\<close>

lemma grant_document:
  assumes ok: "grant_ok X j g"
  shows "\<exists>subject status node cnf key x. get j ''credentialSubject'' = Some subject \<and> get j ''credentialStatus'' = Some node \<and>
       (node = status \<or> (\<exists>projection. node = Array [status, projection])) \<and>
       get j ''id'' = Some (String (grant_id g)) \<and> get j ''issuer'' = Some (String (issuer g)) \<and>
       get status ''credentialId'' = get j ''id'' \<and> get status ''id'' = Some (String (status_id g)) \<and>
       get j ''aud'' = get subject ''application'' \<and> get j ''aud'' = Some (String (application g)) \<and>
       get subject ''id'' = Some (String (device_did g)) \<and>
       get subject ''permissions'' = Some (Array (map String (permissions g))) \<and>
       get j ''cnf'' = Some cnf \<and> get cnf ''jwk'' = Some key \<and> get key ''x'' = Some (String x) \<and>
       decode_b64url_32 X x = Inr (device_public_key g)"
proof -
  obtain subject where sub: "get j ''credentialSubject'' = Some subject"
    "subject_ok subject (device_did g) (application g) (account g) (permissions g)" using ok unfolding grant_ok_def by blast
  obtain node where node: "get j ''credentialStatus'' = Some node"
    "status_ok node (issuer g) (token g) (grant_id g) (status_id g) (projection_entry g)" using ok unfolding grant_ok_def by blast
  obtain status where st: "node = status \<or> (\<exists>projection. node = Array [status, projection])"
    "get status ''credentialId'' = Some (String (grant_id g))" "get status ''id'' = Some (String (status_id g))"
    using node(2) unfolding status_ok_def by (cases "projection_entry g"; simp only: option.case) blast+
  obtain cnf where cnf: "get j ''cnf'' = Some cnf" "cnf_ok X cnf (device_public_key g)" using ok unfolding grant_ok_def by blast
  obtain key x where key: "get cnf ''jwk'' = Some key" "get key ''x'' = Some (String x)"
    "decode_b64url_32 X x = Inr (device_public_key g)" using cnf(2) unfolding cnf_ok_def by blast
  have fields: "get j ''id'' = Some (String (grant_id g))" "get j ''issuer'' = Some (String (issuer g))"
    "get j ''aud'' = Some (String (application g))" using ok unfolding grant_ok_def by blast+
  have subj: "get subject ''application'' = Some (String (application g))" "get subject ''id'' = Some (String (device_did g))"
    "get subject ''permissions'' = Some (Array (map String (permissions g)))" using sub(2) unfolding subject_ok_def by blast+
  have same: "get status ''credentialId'' = get j ''id''" "get j ''aud'' = get subject ''application''"
    by (simp_all only: st(2) fields subj)
  show ?thesis by (intro exI conjI; fact sub node st fields subj same cnf key)
qed

text \<open>
  C8. A recognised grant is one document that agrees with itself. Its identifier, its status entry and its token come
  from one 32-octet token under its issuer, and the status entry names the grant's own identifier as its credential;
  its audience is the application of its subject; the subject's identifier is the did:key of the confirmation key,
  which is usable; the account is the generated alias and never a username; the permissions are a non-empty set in
  order; the window is positive and its length does not wrap; and a grant identifier belongs to one issuer, one token
  and one status entry.
\<close>

theorem recognise_grant_sound:
  assumes "base64ct X" "recognise_grant X j = Inr g"
  shows "(\<exists>octs. length octs = 32 \<and> identifiers X (issuer g) octs = (grant_id g, status_id g, token g)) \<and>
    (\<exists>subject status node cnf key x. get j ''credentialSubject'' = Some subject \<and> get j ''credentialStatus'' = Some node \<and>
       (node = status \<or> (\<exists>projection. node = Array [status, projection])) \<and>
       get j ''id'' = Some (String (grant_id g)) \<and> get j ''issuer'' = Some (String (issuer g)) \<and>
       get status ''credentialId'' = get j ''id'' \<and> get status ''id'' = Some (String (status_id g)) \<and>
       get j ''aud'' = get subject ''application'' \<and> get j ''aud'' = Some (String (application g)) \<and>
       get subject ''id'' = Some (String (device_did g)) \<and>
       get subject ''permissions'' = Some (Array (map String (permissions g))) \<and>
       get j ''cnf'' = Some cnf \<and> get cnf ''jwk'' = Some key \<and> get key ''x'' = Some (String x) \<and>
       decode_b64url_32 X x = Inr (device_public_key g)) \<and>
    device_did g = encode_did_key (device_public_key g) \<and> usable_key X (device_public_key g) \<and>
    is_stable (account g) \<and> permissions g \<noteq> [] \<and> sorted_wrt (<) (permissions g) \<and>
    lifetime_seconds g = valid_until g - valid_from g \<and> 0 < lifetime_seconds g \<and>
    (\<forall>j' g'. recognise_grant X j' = Inr g' \<and> grant_id g' = grant_id g \<longrightarrow>
       issuer g' = issuer g \<and> token g' = token g \<and> status_id g' = status_id g)"
proof -
  have ok: "grant_ok X j g" using assms(2) by (simp add: recognise_grant_iff)
  then obtain octs where o: "decode_b64url_32 X (token g) = Inr octs" by (auto simp: grant_ok_def not_isl_iff)
  then have t: "length octs = 32" "token g = b64url X octs"
    using canonical_codec.dec_Inr_iff [OF b64url_codec [OF assms(1), of 32]] by (simp_all add: decode_b64url_32_def)
  have st: "status_id g = issuer g @ ''#status-'' @ token g" "grant_id g = issuer g @ ''#grant-'' @ token g"
    using ok by (auto simp: grant_ok_def status_ok_def)
  have "\<exists>octs. length octs = 32 \<and> identifiers X (issuer g) octs = (grant_id g, status_id g, token g)"
    using t st by (intro exI [of _ octs]) (simp add: identifiers_def Let_def)
  have "is_stable (account g)" "permissions g \<noteq> []" "sorted_wrt (<) (permissions g)"
      "device_did g = encode_did_key (device_public_key g)" "usable_key X (device_public_key g)"
    using ok by (auto simp: grant_ok_def subject_ok_def)
  have "lifetime_seconds g = valid_until g - valid_from g" "0 < lifetime_seconds g"
    using ok stamps_sub [of "valid_until g" "valid_from g"]
    by (simp_all add: grant_ok_def lifetime_seconds_def)
  have "\<forall>j' g'. recognise_grant X j' = Inr g' \<and> grant_id g' = grant_id g \<longrightarrow>
       issuer g' = issuer g \<and> token g' = token g \<and> status_id g' = status_id g"
  proof (intro allI impI)
    fix j' g' assume that: "recognise_grant X j' = Inr g' \<and> grant_id g' = grant_id g"
    then have "grant_ok X j' g'" by (simp add: recognise_grant_iff)
    then have e: "issuer g' @ ''#grant-'' @ token g' = issuer g @ ''#grant-'' @ token g"
        "CHR ''#'' \<notin> set (issuer g')" "CHR ''#'' \<notin> set (issuer g)"
        "status_id g' = issuer g' @ ''#status-'' @ token g'" "status_id g = issuer g @ ''#status-'' @ token g"
      using ok that by (auto simp: grant_ok_def status_ok_def)
    define rest where "rest = (\<lambda>t. ''grant-'' @ t)"
    have e1: "issuer g' @ CHR ''#'' # rest (token g') = issuer g @ CHR ''#'' # rest (token g)"
      using e(1) by (simp add: rest_def)
    have "Some (issuer g', rest (token g')) = split_once (CHR ''#'') (issuer g' @ CHR ''#'' # rest (token g'))"
      using e(2) by (simp add: split_once_Some_iff [THEN iffD2])
    also have "\<dots> = Some (issuer g, rest (token g))"
      unfolding e1 using e(3) by (simp add: split_once_Some_iff)
    finally have "issuer g' = issuer g" "token g' = token g" by (simp_all add: rest_def)
    then show "issuer g' = issuer g \<and> token g' = token g \<and> status_id g' = status_id g"
      using e(4,5) by simp
  qed
  note doc = grant_document [OF ok]
  show ?thesis by (intro conjI; fact)
qed

lemma sample_grant_recognised: "recognise_grant sample_externs sample_document = Inr sample_grant"
  unfolding recognise_grant_iff sample_document_def sample_grant_def
  by (rule grant_ok_built [OF rfc4648.base64ct_axioms sample_issuable])

theorem recognise_grant_sound_witness:
  "lifetime_seconds sample_grant = valid_until sample_grant - valid_from sample_grant \<and>
   device_did sample_grant = encode_did_key (device_public_key sample_grant) \<and>
   (\<exists>subject. get sample_document ''credentialSubject'' = Some subject \<and>
      get sample_document ''aud'' = get subject ''application'')"
  using recognise_grant_sound [OF rfc4648.base64ct_axioms sample_grant_recognised] by blast

end
