(* ===== verification/Possession.thy ===== *)
theory Possession
  imports Grant
begin

text \<open>
  Device proof of possession (\<open>proof.rs\<close>): the signed octets of a challenge, the two halves of the
  signature, and the ledger that makes every nonce single-use. The ledger is a transition system;
  its invariants are proved over all its traces.
\<close>

section \<open>Challenges\<close>

definition DOMAIN :: octets where "DOMAIN = ''selfsame/device-possession/v1''"
definition MAX_NONCE_AGE_SECONDS :: int where "MAX_NONCE_AGE_SECONDS = 120"
definition NONCE_OCTETS :: nat where "NONCE_OCTETS = 32"

datatype proof_error = BadSignature | NonceExpired | NonceReplayed | NonceMismatch | NonceUnknown

record challenge =
  nonce :: octets
  challenge_application :: rust_str
  challenge_account :: rust_str
  challenge_grant_hash :: octets
  session :: rust_str
  issued_at :: unix_seconds

text \<open>The cast of the length to \<open>u32\<close> keeps its low 32 bits; so does \<open>u32_be_bytes\<close>.\<close>

definition length_prefixed :: "rust_str \<Rightarrow> octets" where
  "length_prefixed s = u32_be_bytes (length s) @ s"

definition proof_input :: "challenge \<Rightarrow> octets" where
  "proof_input c =
     DOMAIN @ [CHR 0x00] @ length_prefixed (challenge_application c)
     @ length_prefixed (challenge_account c) @ nonce c @ challenge_grant_hash c"

definition grant_hash :: "externs \<Rightarrow> octets \<Rightarrow> octets" where
  "grant_hash X grant_bytes = sha256_digest X grant_bytes"

definition sign_proof :: "externs \<Rightarrow> challenge \<Rightarrow> octets \<Rightarrow> octets" where
  "sign_proof X c device_key = sk_sign X device_key (proof_input c)"

definition verify_proof :: "externs \<Rightarrow> challenge \<Rightarrow> octets \<Rightarrow> octets \<Rightarrow> proof_error + unit" where
  "verify_proof X c sig key =
     and_then (ensure (vk_from_bytes X key) BadSignature) (\<lambda>_.
     ensure (vk_verify_strict X key (proof_input c) sig) BadSignature)"

definition matches_binding ::
  "challenge \<Rightarrow> rust_str \<Rightarrow> rust_str \<Rightarrow> octets \<Rightarrow> rust_str \<Rightarrow> proof_error + unit" where
  "matches_binding c app acct hash sess =
     (if challenge_application c \<noteq> app \<or> challenge_account c \<noteq> acct
         \<or> challenge_grant_hash c \<noteq> hash \<or> session c \<noteq> sess
      then Inl NonceMismatch else Inr ())"

section \<open>The ledger\<close>

record nonce_ledger =
  outstanding :: "challenge list"
  used :: "octets list"

definition new_ledger :: nonce_ledger where
  "new_ledger = \<lparr>outstanding = [], used = []\<rparr>"

definition issue_challenge :: "nonce_ledger \<Rightarrow> challenge \<Rightarrow> nonce_ledger" where
  "issue_challenge L c = L\<lparr>outstanding := outstanding L @ [c]\<rparr>"

text \<open>\<open>outstanding.iter().position(|c| &c.nonce == nonce)\<close>\<close>

fun nonce_position :: "octets \<Rightarrow> challenge list \<Rightarrow> nat option" where
  "nonce_position n [] = None"
| "nonce_position n (c # cs) = (if nonce c = n then Some 0 else map_option Suc (nonce_position n cs))"

text \<open>The subtraction is the one of \<open>i64\<close>; \<open>remove(position)\<close> shifts the tail.\<close>

definition consume :: "nonce_ledger \<Rightarrow> octets \<Rightarrow> unix_seconds \<Rightarrow> nonce_ledger \<times> (proof_error + challenge)" where
  "consume L n now =
     (if n \<in> set (used L) then (L, Inl NonceReplayed)
      else case nonce_position n (outstanding L) of
        None \<Rightarrow> (L, Inl NonceUnknown)
      | Some p \<Rightarrow>
          let c = outstanding L ! p;
              L' = \<lparr>outstanding = take p (outstanding L) @ drop (Suc p) (outstanding L), used = used L @ [n]\<rparr>
          in if now < issued_at c then (L', Inl NonceExpired)
             else if i64_sub now (issued_at c) > MAX_NONCE_AGE_SECONDS then (L', Inl NonceExpired)
             else (L', Inr c))"

definition is_used :: "nonce_ledger \<Rightarrow> octets \<Rightarrow> bool" where
  "is_used L n \<longleftrightarrow> n \<in> set (used L)"

section \<open>The ledger as a transition system\<close>

datatype ledger_event =
    Issued challenge
  | Presented octets unix_seconds "proof_error + challenge"

inductive ledger_step :: "nonce_ledger \<Rightarrow> ledger_event \<Rightarrow> nonce_ledger \<Rightarrow> bool" where
  step_issue: "ledger_step L (Issued c) (issue_challenge L c)"
| step_consume: "consume L n now = (L', r) \<Longrightarrow> ledger_step L (Presented n now r) L'"

inductive_cases ledger_stepE [elim!]:
  "ledger_step L (Issued c) L'"
  "ledger_step L (Presented n now r) L'"

text \<open>A trace of the verifier, latest event first.\<close>

inductive ledger_trace :: "ledger_event list \<Rightarrow> nonce_ledger \<Rightarrow> bool" where
  trace_new: "ledger_trace [] new_ledger"
| trace_step: "ledger_trace evs L \<Longrightarrow> ledger_step L ev L' \<Longrightarrow> ledger_trace (ev # evs) L'"

text \<open>A presentation that reached an outstanding challenge, whatever it was told.\<close>

fun spends :: "ledger_event \<Rightarrow> octets option" where
  "spends (Presented n now r) = (if r = Inl NonceReplayed \<or> r = Inl NonceUnknown then None else Some n)"
| "spends (Issued c) = None"

definition spent :: "ledger_event list \<Rightarrow> octets list" where
  "spent evs = concat (map (\<lambda>ev. case spends ev of None \<Rightarrow> [] | Some n \<Rightarrow> [n]) (rev evs))"

lemma spent_simps [simp]:
  "spent [] = []"
  "spent (ev # evs) = spent evs @ (case spends ev of None \<Rightarrow> [] | Some n \<Rightarrow> [n])"
  by (simp_all add: spent_def)

lemma nonce_position_Some:
  "nonce_position n cs = Some p \<Longrightarrow> p < length cs \<and> nonce (cs ! p) = n"
  by (induction cs arbitrary: p) (auto split: if_splits)

lemma nonce_position_None: "nonce_position n cs = None \<longleftrightarrow> n \<notin> nonce ` set cs"
  by (induction cs) auto

text \<open>What one presentation does: the three outcomes.\<close>

lemma consume_cases:
  assumes "consume L n now = (L', r)"
  obtains (replayed) "n \<in> set (used L)" "L' = L" "r = Inl NonceReplayed"
  | (unknown) "n \<notin> set (used L)" "n \<notin> nonce ` set (outstanding L)" "L' = L" "r = Inl NonceUnknown"
  | (spent) c where "n \<notin> set (used L)" "c \<in> set (outstanding L)" "nonce c = n"
      "used L' = used L @ [n]" "set (outstanding L') \<subseteq> set (outstanding L)"
      "r = Inl NonceExpired \<or>
       r = Inr c \<and> issued_at c \<le> now \<and> i64_sub now (issued_at c) \<le> MAX_NONCE_AGE_SECONDS"
proof (cases "n \<in> set (used L)")
  case True
  then show ?thesis using assms by (intro replayed) (simp_all add: consume_def)
next
  case False
  show ?thesis
  proof (cases "nonce_position n (outstanding L)")
    case None
    then show ?thesis using assms False by (intro unknown) (simp_all add: consume_def nonce_position_None [symmetric])
  next
    case (Some p)
    note p = nonce_position_Some [OF Some]
    define c where "c = outstanding L ! p"
    have L': "L' = \<lparr>outstanding = take p (outstanding L) @ drop (Suc p) (outstanding L), used = used L @ [n]\<rparr>"
      using assms False Some by (simp add: consume_def Let_def split: if_split_asm)
    have r: "r = Inl NonceExpired \<or>
        r = Inr c \<and> issued_at c \<le> now \<and> i64_sub now (issued_at c) \<le> MAX_NONCE_AGE_SECONDS"
      using assms False Some by (simp add: consume_def Let_def c_def not_less split: if_split_asm)
    show ?thesis
    proof (rule spent [of c])
      show "set (outstanding L') \<subseteq> set (outstanding L)" by (auto simp: L' dest: in_set_takeD in_set_dropD)
    qed (use False p r in \<open>simp_all add: c_def L'\<close>)
  qed
qed

text \<open>The invariant of every trace: the used nonces are exactly the spent ones, each once.\<close>

lemma trace_used: "ledger_trace evs L \<Longrightarrow> used L = spent evs \<and> distinct (used L)"
proof (induction rule: ledger_trace.induct)
  case trace_new
  then show ?case by (simp add: new_ledger_def)
next
  case (trace_step evs L ev L')
  from trace_step.hyps(2) show ?case
  proof cases
    case (step_issue c)
    then show ?thesis using trace_step.IH by (auto simp: issue_challenge_def)
  next
    case (step_consume n now r)
    from step_consume(2) show ?thesis
      by (cases rule: consume_cases) (use trace_step.IH step_consume(1) in auto)
  qed
qed

lemma trace_outstanding: "ledger_trace evs L \<Longrightarrow> c \<in> set (outstanding L) \<Longrightarrow> Issued c \<in> set evs"
proof (induction rule: ledger_trace.induct)
  case trace_new
  then show ?case by (simp add: new_ledger_def)
next
  case (trace_step evs L ev L')
  from trace_step.hyps(2) show ?case
  proof cases
    case (step_issue d)
    then show ?thesis using trace_step.IH trace_step.prems by (auto simp: issue_challenge_def)
  next
    case (step_consume n now r)
    from step_consume(2) show ?thesis
      by (cases rule: consume_cases) (use trace_step.IH trace_step.prems in auto)
  qed
qed

lemma count_distinct: "distinct xs \<Longrightarrow> count_list xs x \<le> 1"
  by (induction xs) auto

lemma spent_accepted: "Presented n now (Inr c) \<in> set evs \<Longrightarrow> n \<in> set (spent evs)"
  by (induction evs) auto

lemma trace_suffix: "ledger_trace (later @ evs) L \<Longrightarrow> \<exists>K. ledger_trace evs K"
  by (induction later arbitrary: L) (auto elim: ledger_trace.cases)

lemma trace_presented:
  assumes "ledger_trace (later @ Presented n now r # evs) L"
  obtains K K' where "ledger_trace evs K" "consume K n now = (K', r)"
proof -
  obtain K' where "ledger_trace (Presented n now r # evs) K'" using trace_suffix [OF assms] by blast
  then show thesis using that by (auto elim: ledger_trace.cases)
qed

section \<open>The signed octets\<close>

lemma length_prefixed_inject:
  assumes "length s < 2 ^ 32" "length t < 2 ^ 32" "length_prefixed s @ r = length_prefixed t @ q"
  shows "s = t \<and> r = q"
proof -
  have "u32_be_bytes (length s) = u32_be_bytes (length t)" and tail: "s @ r = t @ q"
    using assms(3) by (auto simp: length_prefixed_def append_eq_append_conv)
  then have "length s = length t" using u32_be_bytes_inject assms(1,2) by blast
  then show ?thesis using tail by simp
qed

section \<open>Properties\<close>

definition sample_challenge :: challenge where
  "sample_challenge = \<lparr>nonce = replicate 32 CHR ''n'', challenge_application = ''https://app.example/app'',
     challenge_account = ''acct:ss-a@a.example'', challenge_grant_hash = replicate 32 CHR ''h'',
     session = ''s1'', issued_at = 1000\<rparr>"

text \<open>
  C9. In every trace of the verifier each nonce is accepted at most once, and a nonce that has
  reached its challenge once, accepted or refused, is answered \<open>NonceReplayed\<close> ever after: failing
  with a nonce does not buy a second attempt.
\<close>

theorem nonce_single_use:
  assumes "ledger_trace evs L"
  shows "length (filter (\<lambda>ev. \<exists>now c. ev = Presented n now (Inr c)) evs) \<le> 1 \<and>
    (\<forall>later now r earlier. evs = later @ Presented n now r # earlier \<and> n \<in> set (spent earlier) \<longrightarrow>
       r = Inl NonceReplayed)"
proof
  have acc: "length (filter (\<lambda>ev. \<exists>now c. ev = Presented n now (Inr c)) evs) \<le> count_list (spent evs) n" for evs
    by (induction evs) (auto split: option.split)
  have "count_list (spent evs) n \<le> 1"
    using trace_used [OF assms] by (metis count_distinct)
  with acc [of evs] show "length (filter (\<lambda>ev. \<exists>now c. ev = Presented n now (Inr c)) evs) \<le> 1"
    by (rule le_trans)
  show "\<forall>later now r earlier. evs = later @ Presented n now r # earlier \<and> n \<in> set (spent earlier) \<longrightarrow>
       r = Inl NonceReplayed"
  proof (intro allI impI)
    fix later now r earlier
    assume "evs = later @ Presented n now r # earlier \<and> n \<in> set (spent earlier)"
    then obtain K K' where "ledger_trace earlier K" "consume K n now = (K', r)" "n \<in> set (spent earlier)"
      using trace_presented [of later n now r earlier L] assms by blast
    then show "r = Inl NonceReplayed" using trace_used [of earlier K] by (simp add: consume_def)
  qed
qed

definition sample_trace :: "ledger_event list" where
  "sample_trace =
     [Presented (nonce sample_challenge) 1060 (Inl NonceReplayed),
      Presented (nonce sample_challenge) 1050 (Inr sample_challenge), Issued sample_challenge]"

lemma sample_trace: "ledger_trace sample_trace \<lparr>outstanding = [], used = [nonce sample_challenge]\<rparr>"
  unfolding sample_trace_def
proof (intro trace_step [OF trace_step [OF trace_step [OF trace_new step_issue] step_consume] step_consume])
  show "consume (issue_challenge new_ledger sample_challenge) (nonce sample_challenge) 1050 =
      (\<lparr>outstanding = [], used = [nonce sample_challenge]\<rparr>, Inr sample_challenge)" by code_simp
  show "consume \<lparr>outstanding = [], used = [nonce sample_challenge]\<rparr> (nonce sample_challenge) 1060 =
      (\<lparr>outstanding = [], used = [nonce sample_challenge]\<rparr>, Inl NonceReplayed)" by code_simp
qed

theorem nonce_single_use_witness:
  "length (filter (\<lambda>ev. \<exists>now c. ev = Presented (nonce sample_challenge) now (Inr c)) sample_trace) \<le> 1"
  using nonce_single_use [OF sample_trace] by blast

text \<open>
  An honest device is served: a challenge with a fresh nonce, presented within its 120 seconds,
  is returned, whatever else is outstanding, and its signature by the device verifies.
\<close>

theorem fresh_nonce_accepted:
  assumes "nonce c \<notin> set (used L)" "nonce c \<notin> nonce ` set (outstanding L)"
    and "issued_at c \<le> now" "now \<le> issued_at c + 120" and "ed25519_law X key"
  shows "snd (consume (issue_challenge L c) (nonce c) now) = Inr c \<and>
    verify_proof X c (sign_proof X c key) (sk_public X key) = Inr ()"
proof -
  have "nonce_position (nonce c) (cs @ [c]) = Some (length cs)" if "nonce c \<notin> nonce ` set cs" for cs
    using that by (induction cs) auto
  from this [OF assms(2)] have p: "nonce_position (nonce c) (outstanding L @ [c]) = Some (length (outstanding L))" .
  have "i64_sub now (issued_at c) = now - issued_at c"
    using assms(3,4) by (intro i64_sub_exact) (simp add: is_i64_def i64_min_def i64_max_def)
  then show ?thesis
    using assms by (simp add: consume_def issue_challenge_def p Let_def MAX_NONCE_AGE_SECONDS_def
        verify_proof_def sign_proof_def ed25519_law_def)
qed

theorem fresh_nonce_accepted_witness:
  "snd (consume (issue_challenge new_ledger sample_challenge) (nonce sample_challenge) 1120) = Inr sample_challenge"
  using fresh_nonce_accepted [OF _ _ _ _ sample_ed25519_law, of sample_challenge new_ledger 1120]
  by (simp add: new_ledger_def sample_challenge_def)

end
