(* ===== verification/Accept.thy ===== *)
theory Accept
  imports Possession
begin

text \<open>
  The grant acceptance predicate (\<open>accept.rs\<close>): thirteen steps, in order, from the octets a device
  presents to an authorised grant. Each step is a definition; \<open>accept_grant_inner\<close> composes them as
  the source does, with the two steps the staging entries leave out. The lemmas give every step's
  condition and the exact condition of the whole.
\<close>

section \<open>Types\<close>

datatype accept_step =
    StepSize | StepJws | StepHeader | StepClosure | StepDidResolution | StepIssuerKey | StepSignature
  | StepFields | StepAccountBinding | StepStatus | StepValidity | StepPermissions | StepProof

fun step_number :: "accept_step \<Rightarrow> nat" where
  "step_number StepSize = 1"
| "step_number StepJws = 2"
| "step_number StepHeader = 3"
| "step_number StepClosure = 4"
| "step_number StepDidResolution = 5"
| "step_number StepIssuerKey = 6"
| "step_number StepSignature = 7"
| "step_number StepFields = 8"
| "step_number StepAccountBinding = 9"
| "step_number StepStatus = 10"
| "step_number StepValidity = 11"
| "step_number StepPermissions = 12"
| "step_number StepProof = 13"

definition corpus_id :: "accept_step \<Rightarrow> rust_str" where
  "corpus_id s = ''con_206_step_'' @ dec_nat (step_number s)"

datatype public_reason = Rejected | ProofFailed | StateUnavailable

text \<open>
  The local diagnostic. Where the source stores \<open>e.to_string()\<close> of an error of another module, the
  model keeps the error.
\<close>

datatype accept_detail =
    Text rust_str
  | JwsDetail jws_error
  | GrantDetail grant_error
  | AliasDetail alias_error
  | ProofDetail proof_error

record accept_error =
  error_step :: accept_step
  error_detail :: accept_detail
  state_unavailable :: bool

definition at_step :: "accept_step \<Rightarrow> accept_detail \<Rightarrow> accept_error" where
  "at_step s d = \<lparr>error_step = s, error_detail = d, state_unavailable = False\<rparr>"

definition unavailable_at :: "accept_step \<Rightarrow> accept_detail \<Rightarrow> accept_error" where
  "unavailable_at s d = \<lparr>error_step = s, error_detail = d, state_unavailable = True\<rparr>"

definition public_of :: "accept_error \<Rightarrow> public_reason" where
  "public_of e =
     (if state_unavailable e then StateUnavailable
      else case error_step e of StepProof \<Rightarrow> ProofFailed | _ \<Rightarrow> Rejected)"

datatype freshness_tier = SessionEstablishment | Continuation
datatype closure_source = StateResolver | BundleOrCache

record verification_method =
  method_id :: rust_str
  method_kind :: rust_str
  method_jwk :: ed25519_jwk
  has_private_component :: bool

record issuer_state =
  closure_did :: rust_str
  did_recomputed_ok :: bool
  deltas_verified :: bool
  locally_closed :: bool
  deactivated :: bool
  assertion_methods :: "verification_method list"
  revoked_credential_ids :: "rust_str list"
  closure_age_seconds :: int
  source_of :: closure_source
  also_known_as :: "rust_str list"

datatype projection_reading = BitSet | BitUnset | ProjectionUnavailable

record expectation =
  expected_profile :: application_profile
  expected_account :: acct_uri
  expected_device_key :: octets
  operation_permissions :: "rust_str list"
  exp_now :: unix_seconds
  clock_skew_seconds :: int
  freshness :: freshness_tier

record evidence =
  issuer_evidence :: "issuer_state option"
  jrd_evidence :: "jrd option"
  projection_evidence :: "projection_reading option"
  proof_evidence :: "(challenge \<times> octets \<times> rust_str) option"

record acceptance =
  accepted_grant :: device_grant
  used_bundle_closure :: bool

section \<open>The steps\<close>

text \<open>Steps 1 to 3: the bound, the compact form and the closed header.\<close>

definition jws_step :: "jws_error \<Rightarrow> accept_error" where
  "jws_step e =
     (case e of
        BadAlgorithm \<Rightarrow> at_step StepHeader (JwsDetail e)
      | BadType \<Rightarrow> at_step StepHeader (JwsDetail e)
      | BadKid \<Rightarrow> at_step StepHeader (JwsDetail e)
      | ForbiddenHeaderMember \<Rightarrow> at_step StepHeader (JwsDetail e)
      | jws_error.TooLarge \<Rightarrow> at_step StepSize (JwsDetail e)
      | _ \<Rightarrow> at_step StepJws (JwsDetail e))"

definition parse_grant_jws :: "externs \<Rightarrow> octets \<Rightarrow> accept_error + compact_jws" where
  "parse_grant_jws X grant_bytes =
     (if length grant_bytes > MAX_GRANT_OCTETS then Inl (at_step StepSize (Text ''grant exceeds 64 KiB''))
      else if \<not> valid_utf8 grant_bytes then Inl (at_step StepJws (Text ''grant is not ASCII''))
      else map_err jws_step (recognise_jws X grant_bytes GRANT_JWS []))"

text \<open>Steps 4 and 5: the issuer's verified closure.\<close>

definition resolve_issuer :: "evidence \<Rightarrow> accept_error + issuer_state" where
  "resolve_issuer ev =
     and_then (ok_or (unavailable_at StepClosure (Text ''no issuer closure available'')) (issuer_evidence ev)) (\<lambda>iss.
     if \<not> did_recomputed_ok iss
     then Inl (at_step StepDidResolution (Text ''the self-certifying DID does not match the genesis''))
     else if \<not> deltas_verified iss
     then Inl (at_step StepDidResolution (Text ''a delta failed verification''))
     else if deactivated iss
     then Inl (at_step StepDidResolution (Text ''the issuer DID is deactivated''))
     else Inr iss)"

text \<open>Step 6: the key named by \<open>kid\<close> is one the issuer may assert with.\<close>

definition issuer_key :: "issuer_state \<Rightarrow> rust_str \<Rightarrow> accept_error + verification_method" where
  "issuer_key iss k =
     and_then (ok_or (at_step StepIssuerKey (Text ''kid is not in assertionMethod''))
       (List.find (\<lambda>m. method_id m = k) (assertion_methods iss))) (\<lambda>method.
     if method_kind method \<noteq> ''JsonWebKey''
     then Inl (at_step StepIssuerKey (Text ''verification method is not JsonWebKey''))
     else if has_private_component method
     then Inl (at_step StepIssuerKey (Text ''issuer JWK carries a private `d`''))
     else if \<not> (case strip_prefix (closure_did iss) k of None \<Rightarrow> False | Some suffix \<Rightarrow> starts_with ''#'' suffix)
     then Inl (at_step StepIssuerKey (Text ''kid does not belong to the issuer DID''))
     else Inr method)"

text \<open>Step 8: every field equality, and the account that belongs to the issuer.\<close>

definition check_fields :: "externs \<Rightarrow> json \<Rightarrow> expectation \<Rightarrow> issuer_state \<Rightarrow> accept_error + device_grant" where
  "check_fields X body expect iss =
     and_then (map_err (\<lambda>e. at_step StepFields (GrantDetail e)) (recognise_grant X body)) (\<lambda>g.
     if issuer g \<noteq> closure_did iss
     then Inl (at_step StepFields (Text ''issuer does not match the resolved DID''))
     else if application g \<noteq> app_text (application_id (expected_profile expect))
     then Inl (at_step StepFields (Text ''application is not the expected one''))
     else if acct_text (account g) \<noteq> acct_text (expected_account expect)
     then Inl (at_step StepFields (Text ''account is not the expected one''))
     else if device_public_key g \<noteq> expected_device_key expect
     then Inl (at_step StepFields (Text ''grant names a different device key than the one offered''))
     else if projection_entry g \<noteq> None \<and> projection (revocation (expected_profile expect)) = None
     then Inl (at_step StepFields (Text ''grant carries a projection entry the profile does not enable''))
     else
     and_then (map_err (\<lambda>e. at_step StepFields (AliasDetail e))
       (expected_account_matches X (issuer g) (account_authority (expected_profile expect))
          (acct_text (account g)))) (\<lambda>_.
     Inr g))"

text \<open>Step 9: the alias is provisioned, in both directions.\<close>

definition check_account_binding :: "device_grant \<Rightarrow> issuer_state \<Rightarrow> jrd option \<Rightarrow> accept_error + unit" where
  "check_account_binding g iss reciprocal =
     and_then (ok_or (at_step StepAccountBinding (Text ''no reciprocal account binding available'')) reciprocal) (\<lambda>r.
     map_err (\<lambda>e. at_step StepAccountBinding (AliasDetail e))
       (verify_reciprocal_binding r (account g) (issuer g) (also_known_as iss)))"

text \<open>Step 10: fresh issuer state that does not revoke the grant.\<close>

definition freshness_bound :: "expectation \<Rightarrow> int" where
  "freshness_bound expect =
     (case freshness expect of
        SessionEstablishment \<Rightarrow> session_establishment_bound (revocation (expected_profile expect))
      | Continuation \<Rightarrow> max_closure_age_seconds (revocation (expected_profile expect)))"

definition check_status ::
  "device_grant \<Rightarrow> expectation \<Rightarrow> issuer_state \<Rightarrow> projection_reading option \<Rightarrow> accept_error + unit" where
  "check_status g expect iss reading =
     (if closure_age_seconds iss > freshness_bound expect
      then Inl (unavailable_at StepStatus (Text ''closure is older than the applicable bound''))
      else if \<not> locally_closed iss
      then Inl (at_step StepStatus (Text ''closure is not locally closed''))
      else if reading = Some BitSet
      then Inl (at_step StepStatus (Text ''projection bit is set''))
      else if list_ex (\<lambda>i. i = grant_id g) (revoked_credential_ids iss)
      then Inl (at_step StepStatus (Text ''grant id is in the revocation set''))
      else Inr ())"

text \<open>Step 11: the half-open window, with the declared skew, and the lifetime.\<close>

definition check_validity :: "device_grant \<Rightarrow> expectation \<Rightarrow> accept_error + unit" where
  "check_validity g expect =
     (let skew = clock_skew_seconds expect in
      if i64_add (exp_now expect) skew < valid_from g
      then Inl (at_step StepValidity (Text ''grant is not yet valid''))
      else if i64_sub (exp_now expect) skew \<ge> valid_until g
      then Inl (at_step StepValidity (Text ''grant has expired''))
      else if lifetime_seconds g > max_grant_lifetime_seconds (revocation (expected_profile expect))
      then Inl (at_step StepValidity (Text ''grant lifetime exceeds the profile's maxGrantLifetimeSeconds''))
      else Inr ())"

text \<open>Step 12: no permission undeclared, none missing.\<close>

definition check_permissions :: "device_grant \<Rightarrow> expectation \<Rightarrow> accept_error + unit" where
  "check_permissions g expect =
     and_then (try_each (\<lambda>permission.
       ensure (list_ex (\<lambda>p. p = permission) (allowed_permissions (expected_profile expect)))
         (at_step StepPermissions (Text ''grant carries a permission the profile does not declare'')))
       (permissions g)) (\<lambda>_.
     try_each (\<lambda>required.
       ensure (list_ex (\<lambda>p. p = required) (permissions g))
         (at_step StepPermissions (Text ''grant does not carry a permission the operation requires'')))
       (operation_permissions expect))"

text \<open>Step 13: the device holds the key, for this challenge and this grant.\<close>

definition check_proof ::
  "externs \<Rightarrow> octets \<Rightarrow> device_grant \<Rightarrow> (challenge \<times> octets \<times> rust_str) option \<Rightarrow> accept_error + unit" where
  "check_proof X grant_bytes g pr =
     and_then (ok_or (at_step StepProof (Text ''no device proof supplied'')) pr) (\<lambda>(c, sig, sess).
     and_then (map_err (\<lambda>e. at_step StepProof (ProofDetail e))
       (matches_binding c (application g) (acct_text (account g)) (grant_hash X grant_bytes) sess)) (\<lambda>_.
     map_err (\<lambda>e. at_step StepProof (ProofDetail e))
       (verify_proof X c sig (device_public_key g))))"

section \<open>The predicate\<close>

definition accept_grant_inner ::
  "externs \<Rightarrow> octets \<Rightarrow> expectation \<Rightarrow> evidence \<Rightarrow> bool \<Rightarrow> bool \<Rightarrow> accept_error + acceptance" where
  "accept_grant_inner X grant_bytes expect ev require_account_binding require_proof =
     and_then (parse_grant_jws X grant_bytes) (\<lambda>jws.
     and_then (resolve_issuer ev) (\<lambda>iss.
     and_then (issuer_key iss (jws_kid jws)) (\<lambda>method.
     and_then (map_err (\<lambda>e. at_step StepSignature (JwsDetail e))
       (verify_jws X jws (public_key (method_jwk method)))) (\<lambda>_.
     and_then (check_fields X (payload jws) expect iss) (\<lambda>g.
     and_then (if require_account_binding then check_account_binding g iss (jrd_evidence ev) else Inr ()) (\<lambda>_.
     and_then (check_status g expect iss (projection_evidence ev)) (\<lambda>_.
     and_then (check_validity g expect) (\<lambda>_.
     and_then (check_permissions g expect) (\<lambda>_.
     and_then (if require_proof then check_proof X grant_bytes g (proof_evidence ev) else Inr ()) (\<lambda>_.
     Inr \<lparr>accepted_grant = g, used_bundle_closure = (source_of iss = BundleOrCache)\<rparr>))))))))))"

definition accept_grant :: "externs \<Rightarrow> octets \<Rightarrow> expectation \<Rightarrow> evidence \<Rightarrow> accept_error + acceptance" where
  "accept_grant X grant_bytes expect ev = accept_grant_inner X grant_bytes expect ev True True"

definition rehydrate_accepted_grant ::
  "externs \<Rightarrow> octets \<Rightarrow> expectation \<Rightarrow> evidence \<Rightarrow> accept_error + acceptance" where
  "rehydrate_accepted_grant X grant_bytes expect ev = accept_grant_inner X grant_bytes expect ev True False"

definition stage_accepted_grant ::
  "externs \<Rightarrow> octets \<Rightarrow> expectation \<Rightarrow> issuer_state \<Rightarrow> projection_reading option \<Rightarrow> accept_error + acceptance" where
  "stage_accepted_grant X grant_bytes expect iss reading =
     accept_grant_inner X grant_bytes expect
       \<lparr>issuer_evidence = Some iss, jrd_evidence = None, projection_evidence = reading, proof_evidence = None\<rparr>
       False False"

definition check_standing ::
  "device_grant \<Rightarrow> expectation \<Rightarrow> issuer_state \<Rightarrow> projection_reading option \<Rightarrow> accept_error + unit" where
  "check_standing g expect iss reading =
     and_then (check_status g expect iss reading) (\<lambda>_.
     and_then (check_validity g expect) (\<lambda>_.
     check_permissions g expect))"

definition peek_issuer :: "externs \<Rightarrow> octets \<Rightarrow> accept_error + rust_str" where
  "peek_issuer X grant_bytes =
     (if \<not> valid_utf8 grant_bytes then Inl (at_step StepJws (Text ''grant is not ASCII''))
      else
      and_then (map_err (\<lambda>e. at_step StepJws (JwsDetail e)) (recognise_jws X grant_bytes GRANT_JWS [])) (\<lambda>jws.
      ok_or (at_step StepFields (Text ''grant has no issuer'')) (str_of (payload jws) ''issuer'')))"

section \<open>When each step passes\<close>

lemma parse_grant_jws_iff:
  "parse_grant_jws X b = Inr jws \<longleftrightarrow> valid_utf8 b \<and> recognise_jws X b GRANT_JWS [] = Inr jws"
  by (auto simp: parse_grant_jws_def res_iff recognise_jws_def GRANT_JWS_def split: if_splits)

definition issuer_usable :: "issuer_state \<Rightarrow> bool" where
  "issuer_usable iss \<longleftrightarrow> did_recomputed_ok iss \<and> deltas_verified iss \<and> \<not> deactivated iss"

lemma resolve_issuer_iff:
  "resolve_issuer ev = Inr iss \<longleftrightarrow> issuer_evidence ev = Some iss \<and> issuer_usable iss"
  by (auto simp: resolve_issuer_def res_iff issuer_usable_def split: if_splits)

definition asserting_key :: "issuer_state \<Rightarrow> rust_str \<Rightarrow> verification_method \<Rightarrow> bool" where
  "asserting_key iss k m \<longleftrightarrow>
     List.find (\<lambda>m. method_id m = k) (assertion_methods iss) = Some m \<and> method_kind m = ''JsonWebKey'' \<and>
     \<not> has_private_component m \<and> (\<exists>fragment. k = closure_did iss @ ''#'' @ fragment)"

lemma issuer_key_iff: "issuer_key iss k = Inr m \<longleftrightarrow> asserting_key iss k m"
proof -
  have "(case strip_prefix (closure_did iss) k of None \<Rightarrow> False | Some suffix \<Rightarrow> starts_with ''#'' suffix) \<longleftrightarrow>
      (\<exists>fragment. k = closure_did iss @ ''#'' @ fragment)"
    by (cases "strip_prefix (closure_did iss) k")
       (auto simp: strip_prefix_Some_iff starts_with_iff simp flip: strip_prefix_Some_iff)
  then show ?thesis
    by (auto simp: issuer_key_def res_iff asserting_key_def simp del: append_Cons split: if_splits)
qed

definition fields_match :: "externs \<Rightarrow> expectation \<Rightarrow> issuer_state \<Rightarrow> device_grant \<Rightarrow> bool" where
  "fields_match X expect iss g \<longleftrightarrow>
     issuer g = closure_did iss \<and> application g = app_text (application_id (expected_profile expect)) \<and>
     acct_text (account g) = acct_text (expected_account expect) \<and>
     device_public_key g = expected_device_key expect \<and>
     (projection_entry g \<noteq> None \<longrightarrow> projection (revocation (expected_profile expect)) \<noteq> None) \<and>
     is_ok (expected_account_matches X (issuer g) (account_authority (expected_profile expect)) (acct_text (account g)))"

lemma check_fields_iff:
  "check_fields X body expect iss = Inr g \<longleftrightarrow> recognise_grant X body = Inr g \<and> fields_match X expect iss g"
  unfolding check_fields_def fields_match_def not_isl_iff
  by (auto simp: res_iff split: if_splits)

lemma expected_account_stable:
  "is_ok (expected_account_matches X iss authority claimed) \<Longrightarrow> claimed = stable_acct_uri X iss authority"
  by (auto simp: expected_account_matches_def Let_def split: if_splits)

definition bound_both_ways :: "device_grant \<Rightarrow> issuer_state \<Rightarrow> jrd option \<Rightarrow> bool" where
  "bound_both_ways g iss reciprocal \<longleftrightarrow>
     (\<exists>r. reciprocal = Some r \<and> jrd_subject r = acct_text (account g) \<and> issuer g \<in> set (jrd_aliases r) \<and>
        acct_text (account g) \<in> set (also_known_as iss))"

lemma check_account_binding_iff:
  "check_account_binding g iss reciprocal = Inr u \<longleftrightarrow> bound_both_ways g iss reciprocal"
  by (auto simp: check_account_binding_def bound_both_ways_def res_iff verify_reciprocal_binding_iff)

definition status_current ::
  "device_grant \<Rightarrow> expectation \<Rightarrow> issuer_state \<Rightarrow> projection_reading option \<Rightarrow> bool" where
  "status_current g expect iss reading \<longleftrightarrow>
     closure_age_seconds iss \<le> freshness_bound expect \<and> locally_closed iss \<and> reading \<noteq> Some BitSet \<and>
     grant_id g \<notin> set (revoked_credential_ids iss)"

lemma check_status_iff: "check_status g expect iss reading = Inr u \<longleftrightarrow> status_current g expect iss reading"
  by (auto simp: check_status_def status_current_def list_ex_iff)

definition in_window :: "device_grant \<Rightarrow> expectation \<Rightarrow> bool" where
  "in_window g expect \<longleftrightarrow>
     valid_from g \<le> i64_add (exp_now expect) (clock_skew_seconds expect) \<and>
     i64_sub (exp_now expect) (clock_skew_seconds expect) < valid_until g \<and>
     lifetime_seconds g \<le> max_grant_lifetime_seconds (revocation (expected_profile expect))"

lemma check_validity_iff: "check_validity g expect = Inr u \<longleftrightarrow> in_window g expect"
  by (auto simp: check_validity_def Let_def in_window_def)

definition permitted :: "device_grant \<Rightarrow> expectation \<Rightarrow> bool" where
  "permitted g expect \<longleftrightarrow>
     set (operation_permissions expect) \<subseteq> set (permissions g) \<and>
     set (permissions g) \<subseteq> set (allowed_permissions (expected_profile expect))"

lemma check_permissions_iff: "check_permissions g expect = Inr u \<longleftrightarrow> permitted g expect"
  by (auto simp: check_permissions_def permitted_def res_iff list_ex_iff)

definition proven ::
  "externs \<Rightarrow> octets \<Rightarrow> device_grant \<Rightarrow> (challenge \<times> octets \<times> rust_str) option \<Rightarrow> bool" where
  "proven X b g pr \<longleftrightarrow>
     (\<exists>c sig sess. pr = Some (c, sig, sess) \<and> challenge_application c = application g \<and>
        challenge_account c = acct_text (account g) \<and> challenge_grant_hash c = sha256_digest X b \<and>
        session c = sess \<and> vk_from_bytes X (device_public_key g) \<and>
        vk_verify_strict X (device_public_key g) (proof_input c) sig)"

lemma check_proof_iff: "check_proof X b g pr = Inr u \<longleftrightarrow> proven X b g pr"
  by (auto simp: check_proof_def proven_def res_iff matches_binding_def verify_proof_def grant_hash_def
      split: if_splits)

lemma check_standing_iff:
  "check_standing g expect iss reading = Inr u \<longleftrightarrow>
     status_current g expect iss reading \<and> in_window g expect \<and> permitted g expect"
  by (auto simp: check_standing_def res_iff check_status_iff check_validity_iff check_permissions_iff)

lemmas step_iffs = parse_grant_jws_iff resolve_issuer_iff issuer_key_iff check_fields_iff
  check_account_binding_iff check_status_iff check_validity_iff check_permissions_iff check_proof_iff

section \<open>When the predicate holds\<close>

text \<open>The thirteen conditions at once; the last two flags select the entry.\<close>

definition authorised ::
  "externs \<Rightarrow> octets \<Rightarrow> expectation \<Rightarrow> evidence \<Rightarrow> bool \<Rightarrow> bool \<Rightarrow> issuer_state \<Rightarrow> device_grant \<Rightarrow> bool" where
  "authorised X b expect ev bind prove iss g \<longleftrightarrow>
     (\<exists>jws method. valid_utf8 b \<and> recognise_jws X b GRANT_JWS [] = Inr jws \<and>
        issuer_evidence ev = Some iss \<and> issuer_usable iss \<and> asserting_key iss (jws_kid jws) method \<and>
        verify_jws X jws (public_key (method_jwk method)) = Inr () \<and>
        recognise_grant X (payload jws) = Inr g) \<and>
     fields_match X expect iss g \<and>
     (bind \<longrightarrow> bound_both_ways g iss (jrd_evidence ev)) \<and>
     status_current g expect iss (projection_evidence ev) \<and> in_window g expect \<and> permitted g expect \<and>
     (prove \<longrightarrow> proven X b g (proof_evidence ev))"

lemma if_Inr_iff: "(if b then r else Inr ()) = Inr u \<longleftrightarrow> (b \<longrightarrow> r = Inr ())"
  by auto

lemma accept_inner_iff:
  "accept_grant_inner X b expect ev bind prove = Inr A \<longleftrightarrow>
   (\<exists>iss. issuer_evidence ev = Some iss \<and> authorised X b expect ev bind prove iss (accepted_grant A) \<and>
      used_bundle_closure A = (source_of iss = BundleOrCache))"
  unfolding accept_grant_inner_def and_then_Inr_iff step_iffs map_err_Inr_iff if_Inr_iff authorised_def
  by (cases A) auto

section \<open>Where a refusal comes from\<close>

text \<open>Every step refuses under its own numbers.\<close>

lemma error_steps:
  "parse_grant_jws X b = Inl e \<Longrightarrow> step_number (error_step e) \<le> 3 \<and> \<not> state_unavailable e"
  "resolve_issuer ev = Inl e \<Longrightarrow> step_number (error_step e) \<in> {4, 5} \<and>
     (state_unavailable e \<longleftrightarrow> issuer_evidence ev = None)"
  "issuer_key iss k = Inl e \<Longrightarrow> error_step e = StepIssuerKey \<and> \<not> state_unavailable e"
  "check_fields X body expect iss = Inl e \<Longrightarrow> error_step e = StepFields \<and> \<not> state_unavailable e"
  "check_account_binding g iss reciprocal = Inl e \<Longrightarrow> error_step e = StepAccountBinding \<and> \<not> state_unavailable e"
  "check_status g expect iss reading = Inl e \<Longrightarrow> error_step e = StepStatus \<and>
     (state_unavailable e \<longleftrightarrow> closure_age_seconds iss > freshness_bound expect)"
  "check_validity g expect = Inl e \<Longrightarrow> error_step e = StepValidity \<and> \<not> state_unavailable e"
  "check_permissions g expect = Inl e \<Longrightarrow> error_step e = StepPermissions \<and> \<not> state_unavailable e"
  "check_proof X b g pr = Inl e \<Longrightarrow> error_step e = StepProof \<and> \<not> state_unavailable e"
proof -
  have each: "try_each (\<lambda>x. ensure (P x) d) xs = Inl e \<Longrightarrow> e = d" for P :: "rust_str \<Rightarrow> bool" and d xs
    by (induction xs) (auto simp: res_iff)
  show "parse_grant_jws X b = Inl e \<Longrightarrow> step_number (error_step e) \<le> 3 \<and> \<not> state_unavailable e"
  proof -
    have "step_number (error_step (jws_step d)) \<le> 3 \<and> \<not> state_unavailable (jws_step d)" for d
      by (cases d) (simp_all add: jws_step_def at_step_def)
    then show "parse_grant_jws X b = Inl e \<Longrightarrow> step_number (error_step e) \<le> 3 \<and> \<not> state_unavailable e"
      by (auto simp: parse_grant_jws_def map_err_Inl_iff at_step_def split: if_splits)
  qed
  show "resolve_issuer ev = Inl e \<Longrightarrow> step_number (error_step e) \<in> {4, 5} \<and>
     (state_unavailable e \<longleftrightarrow> issuer_evidence ev = None)"
    by (auto simp: resolve_issuer_def res_iff at_step_def unavailable_at_def split: if_splits)
  show "issuer_key iss k = Inl e \<Longrightarrow> error_step e = StepIssuerKey \<and> \<not> state_unavailable e"
    by (auto simp: issuer_key_def res_iff at_step_def split: if_splits)
  show "check_fields X body expect iss = Inl e \<Longrightarrow> error_step e = StepFields \<and> \<not> state_unavailable e"
    by (auto simp: check_fields_def res_iff at_step_def split: if_splits)
  show "check_account_binding g iss reciprocal = Inl e \<Longrightarrow> error_step e = StepAccountBinding \<and> \<not> state_unavailable e"
    by (auto simp: check_account_binding_def res_iff at_step_def)
  show "check_status g expect iss reading = Inl e \<Longrightarrow> error_step e = StepStatus \<and>
     (state_unavailable e \<longleftrightarrow> closure_age_seconds iss > freshness_bound expect)"
    by (auto simp: check_status_def at_step_def unavailable_at_def split: if_splits)
  show "check_validity g expect = Inl e \<Longrightarrow> error_step e = StepValidity \<and> \<not> state_unavailable e"
    by (auto simp: check_validity_def Let_def at_step_def split: if_splits)
  show "check_permissions g expect = Inl e \<Longrightarrow> error_step e = StepPermissions \<and> \<not> state_unavailable e"
    by (auto simp: check_permissions_def res_iff at_step_def dest: each)
  show "check_proof X b g pr = Inl e \<Longrightarrow> error_step e = StepProof \<and> \<not> state_unavailable e"
    by (auto simp: check_proof_def res_iff at_step_def)
qed

text \<open>The refusals of the predicate, by the step they come from.\<close>

lemma accept_inner_Inl_cases:
  assumes "accept_grant_inner X b expect ev bind prove = Inl e"
  obtains (parse) "parse_grant_jws X b = Inl e"
  | (issuer) jws where "parse_grant_jws X b = Inr jws" "resolve_issuer ev = Inl e"
  | (key) jws iss where "parse_grant_jws X b = Inr jws" "resolve_issuer ev = Inr iss"
      "issuer_key iss (jws_kid jws) = Inl e"
  | (signature) jws iss m e' where "parse_grant_jws X b = Inr jws" "resolve_issuer ev = Inr iss"
      "issuer_key iss (jws_kid jws) = Inr m" "verify_jws X jws (public_key (method_jwk m)) = Inl e'"
      "e = at_step StepSignature (JwsDetail e')"
  | (later) jws iss m g where "parse_grant_jws X b = Inr jws" "resolve_issuer ev = Inr iss"
      "issuer_key iss (jws_kid jws) = Inr m" "verify_jws X jws (public_key (method_jwk m)) = Inr ()"
      "check_fields X (payload jws) expect iss = Inl e \<or>
       check_fields X (payload jws) expect iss = Inr g \<and>
         (check_account_binding g iss (jrd_evidence ev) = Inl e \<or>
          check_status g expect iss (projection_evidence ev) = Inl e \<or>
          check_validity g expect = Inl e \<or> check_permissions g expect = Inl e \<or>
          check_proof X b g (proof_evidence ev) = Inl e)"
proof (cases "parse_grant_jws X b")
  case (Inl e1)
  then show ?thesis using assms by (intro parse) (simp add: accept_grant_inner_def)
next
  case p: (Inr jws)
  show ?thesis
  proof (cases "resolve_issuer ev")
    case (Inl e1)
    then show ?thesis using assms p by (intro issuer) (simp_all add: accept_grant_inner_def)
  next
    case i: (Inr iss)
    show ?thesis
    proof (cases "issuer_key iss (jws_kid jws)")
      case (Inl e1)
      then show ?thesis using assms p i by (intro key) (simp_all add: accept_grant_inner_def)
    next
      case k: (Inr m)
      show ?thesis
      proof (cases "verify_jws X jws (public_key (method_jwk m))")
        case (Inl e1)
        then show ?thesis using assms p i k by (intro signature) (auto simp: accept_grant_inner_def)
      next
        case v: (Inr u)
        have "check_fields X (payload jws) expect iss = Inl e \<or>
          (\<exists>g. check_fields X (payload jws) expect iss = Inr g \<and>
            (check_account_binding g iss (jrd_evidence ev) = Inl e \<or>
             check_status g expect iss (projection_evidence ev) = Inl e \<or>
             check_validity g expect = Inl e \<or> check_permissions g expect = Inl e \<or>
             check_proof X b g (proof_evidence ev) = Inl e))"
          using assms
          by (simp add: accept_grant_inner_def p i k v and_then_Inl_iff) (auto split: if_splits)
        with p i k v show ?thesis by (auto intro: later)
      qed
    qed
  qed
qed

section \<open>An honest presentation\<close>

text \<open>The jws recogniser reads only ASCII.\<close>

lemma recognised_jws_utf8:
  assumes "base64ct X" "recognise_jws X t policy extra = Inr jws"
  shows "valid_utf8 t"
proof -
  have "valid_utf8 ''.''" by (rule valid_utf8_ascii) simp
  moreover from assms obtain ho where
    "t = (b64url X ho @ ''.'' @ b64url X (payload_octets jws)) @ ''.'' @ b64url X (signature jws)"
    by (auto simp: recognise_jws_iff jws_ok_def)
  ultimately show ?thesis
    using valid_utf8_b64url [OF assms(1)] by (metis valid_utf8_append)
qed

text \<open>What the verifier sees of an issuer: the key of its first method, under its own DID.\<close>

definition home_method :: "externs \<Rightarrow> octets \<Rightarrow> rust_str \<Rightarrow> verification_method \<Rightarrow> bool" where
  "home_method X home_key home_did m \<longleftrightarrow>
     method_id m = home_did @ ''#jwk-0'' \<and> method_kind m = ''JsonWebKey'' \<and> \<not> has_private_component m \<and>
     public_key (method_jwk m) = sk_public X home_key"

lemma home_method_asserts:
  assumes "home_method X home_key home_did m" "assertion_methods iss = m # ms" "closure_did iss = home_did"
  shows "asserting_key iss (home_did @ ''#jwk-0'') m"
  using assms by (auto simp: asserting_key_def home_method_def)

lemma stable_account_matches:
  assumes "dns_name authority" "acct_text acct = stable_acct_uri X iss authority"
  shows "is_ok (expected_account_matches X iss authority (acct_text acct))"
proof -
  obtain u where "parse_acct_uri (stable_acct_uri X iss authority) = Inr u" "acct_authority u = authority"
    using parse_stable_acct_uri [OF assms(1)] by metis
  then show ?thesis using assms(2) by (simp add: expected_account_matches_def)
qed

text \<open>The context in which the grant of one issuer for one device is presented.\<close>

definition presentation ::
  "externs \<Rightarrow> octets \<Rightarrow> octets \<Rightarrow> device_grant \<Rightarrow> expectation \<Rightarrow> issuer_state \<Rightarrow> challenge \<Rightarrow> bool" where
  "presentation X b device_sk g expect iss c \<longleftrightarrow>
     closure_did iss = issuer g \<and> issuer_usable iss \<and>
     application g = app_text (application_id (expected_profile expect)) \<and>
     acct_text (account g) = acct_text (expected_account expect) \<and>
     acct_text (account g) = stable_acct_uri X (issuer g) (account_authority (expected_profile expect)) \<and>
     dns_name (account_authority (expected_profile expect)) \<and>
     device_public_key g = expected_device_key expect \<and> device_public_key g = sk_public X device_sk \<and>
     in_window g expect \<and> permitted g expect \<and>
     challenge_application c = application g \<and> challenge_account c = acct_text (account g) \<and>
     challenge_grant_hash c = grant_hash X b"

lemma presentation_fields:
  assumes "presentation X b device_sk g expect iss c" "projection_entry g = None"
  shows "fields_match X expect iss g"
  using assms stable_account_matches unfolding fields_match_def presentation_def by metis

lemma presentation_proven:
  assumes "presentation X b device_sk g expect iss c" "ed25519_law X device_sk"
  shows "proven X b g (Some (c, sign_proof X c device_sk, session c))"
  using assms unfolding proven_def presentation_def
  by (auto simp: grant_hash_def sign_proof_def ed25519_law_def)

lemma honest_presentation:
  assumes X: "base64ct X" "ed25519_law X home_key" "ed25519_law X device_sk"
    and i: "issuable X home_did token_octets device_key acct perms from until"
    and utf8: "valid_utf8 home_did" "valid_utf8 (app_text aid)" "\<forall>p \<in> set perms. valid_utf8 p"
    and bounds: "length (canonicalise (grant_header home_did)) \<le> 4096"
      "b = issue_grant X home_key home_did token_octets (encode_did_key device_key) device_key aid acct
         perms from until" "length b \<le> MAX_GRANT_OCTETS"
    and g: "g = issued_grant X home_did token_octets device_key aid acct perms from until"
    and p: "presentation X b device_sk g expect iss c" "status_current g expect iss reading"
      "bound_both_ways g iss reciprocal"
    and m: "home_method X home_key home_did m" "assertion_methods iss = m # ms"
  shows "accept_grant X b expect \<lparr>issuer_evidence = Some iss, jrd_evidence = reciprocal,
      projection_evidence = reading, proof_evidence = Some (c, sign_proof X c device_sk, session c)\<rparr> =
    Inr \<lparr>accepted_grant = g, used_bundle_closure = (source_of iss = BundleOrCache)\<rparr>"
proof -
  have gi: "issuer g = home_did" "projection_entry g = None" by (simp_all add: g issued_grant_def)
  obtain jws where j: "recognise_jws X b GRANT_JWS [] = Inr jws" "verify_jws X jws (sk_public X home_key) = Inr ()"
    "jws_kid jws = home_did @ ''#jwk-0''" "recognise_grant X (payload jws) = Inr g"
    using issue_grant_jws [OF X(1,2) i utf8 bounds(1) bounds(3) [unfolded bounds(2)]] unfolding bounds(2) g by blast
  have "closure_did iss = home_did" using p(1) gi(1) by (simp add: presentation_def)
  then have "asserting_key iss (jws_kid jws) m" using home_method_asserts m j(3) by metis
  moreover have "public_key (method_jwk m) = sk_public X home_key" using m(1) by (simp add: home_method_def)
  ultimately show ?thesis
    using j recognised_jws_utf8 [OF X(1) j(1)] p presentation_fields [OF p(1) gi(2)]
      presentation_proven [OF p(1) X(3)]
    unfolding accept_grant_def accept_inner_iff authorised_def
    by (auto simp: presentation_def)
qed
section \<open>A presentation to evaluate\<close>

lemma sample_application_fields:
  "app_text (application_id sample_application) = ''https://app.example/app''"
  "account_authority sample_application = ''a.example''"
  "allowed_permissions sample_application = [sample_permission]"
  "max_grant_lifetime_seconds (revocation sample_application) = 3600"
  "max_closure_age_seconds (revocation sample_application) = 300"
  "propagation_sla_seconds (revocation sample_application) = 60"
proof -
  define P where "P = projr (profile_from_value sample_externs sample_profile [])"
  have P: "P = sample_application\<lparr>profile_canonical := [], profile_digest := sha256_digest sample_externs []\<rparr>"
    unfolding P_def by (rule sample_application_value)
  have "(app_text (application_id P), account_authority P, allowed_permissions P,
      max_grant_lifetime_seconds (revocation P), max_closure_age_seconds (revocation P),
      propagation_sla_seconds (revocation P)) =
    (''https://app.example/app'', ''a.example'', [sample_permission], 3600, 300, 60)"
    unfolding P_def by code_simp
  then show "app_text (application_id sample_application) = ''https://app.example/app''"
    "account_authority sample_application = ''a.example''" "allowed_permissions sample_application = [sample_permission]"
    "max_grant_lifetime_seconds (revocation sample_application) = 3600"
    "max_closure_age_seconds (revocation sample_application) = 300"
    "propagation_sla_seconds (revocation sample_application) = 60"
    by (simp_all add: P)
qed

definition sample_octets_issued :: octets where
  "sample_octets_issued = issue_grant sample_externs ''home-key'' ''did:crdt:h'' sample_token
     (encode_did_key sample_device_key) sample_device_key sample_app sample_account [sample_permission]
     1700000000 1700003600"

definition sample_expectation :: expectation where
  "sample_expectation = \<lparr>expected_profile = sample_application, expected_account = sample_account,
     expected_device_key = sample_device_key, operation_permissions = [sample_permission],
     exp_now = 1700000100, clock_skew_seconds = 5, freshness = SessionEstablishment\<rparr>"

definition sample_method :: verification_method where
  "sample_method = \<lparr>method_id = ''did:crdt:h#jwk-0'', method_kind = ''JsonWebKey'',
     method_jwk = \<lparr>public_key = sk_public sample_externs ''home-key'', jwk_x = []\<rparr>,
     has_private_component = False\<rparr>"

definition sample_issuer :: issuer_state where
  "sample_issuer = \<lparr>closure_did = ''did:crdt:h'', did_recomputed_ok = True, deltas_verified = True,
     locally_closed = True, deactivated = False, assertion_methods = [sample_method],
     revoked_credential_ids = [''did:crdt:h#grant-other''], closure_age_seconds = 30,
     source_of = StateResolver, also_known_as = [acct_text sample_account]\<rparr>"

definition sample_jrd :: jrd where
  "sample_jrd = \<lparr>jrd_subject = acct_text sample_account, jrd_aliases = [''did:crdt:h'']\<rparr>"

definition grant_challenge :: challenge where
  "grant_challenge = \<lparr>nonce = replicate 32 CHR ''n'', challenge_application = ''https://app.example/app'',
     challenge_account = acct_text sample_account,
     challenge_grant_hash = grant_hash sample_externs sample_octets_issued, session = ''s1'',
     issued_at = 1700000090\<rparr>"

definition sample_evidence :: evidence where
  "sample_evidence = \<lparr>issuer_evidence = Some sample_issuer, jrd_evidence = Some sample_jrd,
     projection_evidence = Some BitUnset,
     proof_evidence = Some (grant_challenge, sign_proof sample_externs grant_challenge sample_device_key, ''s1'')\<rparr>"

lemma sample_grant_fields:
  "issuer sample_grant = ''did:crdt:h''" "application sample_grant = ''https://app.example/app''"
  "account sample_grant = sample_account" "device_public_key sample_grant = sample_device_key"
  "permissions sample_grant = [sample_permission]" "valid_from sample_grant = 1700000000"
  "valid_until sample_grant = 1700003600" "projection_entry sample_grant = None"
  "grant_id sample_grant = ''did:crdt:h#grant-'' @ b64url sample_externs sample_token"
  by (simp_all add: sample_grant_def issued_grant_def)

lemma sample_presentation:
  "presentation sample_externs sample_octets_issued sample_device_key sample_grant sample_expectation
     sample_issuer grant_challenge"
proof -
  have "recognise_dns_name ''a.example'' = Inr ()" by code_simp
  then have dns: "dns_name ''a.example''" by (simp add: recognise_dns_name_def recognise_host_iff)
  obtain u where "parse_acct_uri (stable_acct_uri sample_externs ''did:crdt:h'' ''a.example'') = Inr u"
    using parse_stable_acct_uri [OF dns] by metis
  then have acct: "acct_text sample_account = stable_acct_uri sample_externs ''did:crdt:h'' ''a.example''"
    using parse_acct_text by (simp add: sample_account_def)
  have key: "sk_public sample_externs sample_device_key = sample_device_key" by code_simp
  have "lifetime_seconds sample_grant = 3600"
    by (simp add: lifetime_seconds_def sample_grant_fields i64_sub_exact is_i64_def i64_min_def i64_max_def)
  then have "in_window sample_grant sample_expectation"
    by (simp add: in_window_def sample_grant_fields sample_expectation_def sample_application_fields
        i64_add_exact i64_sub_exact is_i64_def i64_min_def i64_max_def)
  then show ?thesis
    using dns acct key
    by (simp add: presentation_def sample_grant_fields sample_application_fields sample_issuer_def
        issuer_usable_def permitted_def grant_challenge_def) (simp add: sample_expectation_def sample_application_fields)
qed

lemma sample_status: "status_current sample_grant sample_expectation sample_issuer (Some BitUnset)"
proof -
  have "grant_id sample_grant \<noteq> ''did:crdt:h#grant-other''" unfolding sample_grant_fields by code_simp
  then show ?thesis
    by (simp add: status_current_def freshness_bound_def sample_expectation_def sample_issuer_def
        session_establishment_bound_def sample_application_fields)
qed

lemma sample_bound: "bound_both_ways sample_grant sample_issuer (Some sample_jrd)"
  by (simp add: bound_both_ways_def sample_jrd_def sample_issuer_def sample_grant_fields)

lemma sample_home_method: "home_method sample_externs ''home-key'' ''did:crdt:h'' sample_method"
  by (simp add: home_method_def sample_method_def)

lemma sample_bounds:
  "length (canonicalise (grant_header ''did:crdt:h'')) \<le> 4096" "length sample_octets_issued \<le> MAX_GRANT_OCTETS"
proof -
  show h: "length (canonicalise (grant_header ''did:crdt:h'')) \<le> 4096" by code_simp
  have "unpadded_len n \<le> 21846" if "n \<le> 16384" for n using that by (simp add: unpadded_len_def)
  from this [OF le_trans [OF h]] this [OF sample_document_length]
  show "length sample_octets_issued \<le> MAX_GRANT_OCTETS"
    unfolding sample_octets_issued_def issue_grant_def length_sign_jws [OF rfc4648.base64ct_axioms sample_ed25519_law]
      sample_document_def [symmetric] MAX_GRANT_OCTETS_def by linarith
qed

lemma sample_accepted:
  "accept_grant sample_externs sample_octets_issued sample_expectation sample_evidence =
   Inr \<lparr>accepted_grant = sample_grant, used_bundle_closure = False\<rparr>"
proof -
  have u: "valid_utf8 ''did:crdt:h''" "valid_utf8 (app_text sample_app)"
      "\<forall>p \<in> set [sample_permission]. valid_utf8 p" by (simp_all add: valid_utf8_ascii)
  have "assertion_methods sample_issuer = sample_method # []" by (simp add: sample_issuer_def)
  from honest_presentation [OF rfc4648.base64ct_axioms sample_ed25519_law sample_ed25519_law sample_issuable u
      sample_bounds(1) sample_octets_issued_def sample_bounds(2) sample_grant_def sample_presentation
      sample_status sample_bound sample_home_method this]
  show ?thesis by (simp add: sample_evidence_def sample_issuer_def grant_challenge_def)
qed

section \<open>Properties\<close>

text \<open>
  C10. The predicate accepts exactly when the thirteen conditions hold together, and then returns
  the recognised grant and records whether the closure came from the bundle: no step is skipped,
  none is weakened by another, and nothing else is required.
\<close>

theorem accept_grant_exact:
  "accept_grant X b expect ev = Inr A \<longleftrightarrow>
   (\<exists>iss. issuer_evidence ev = Some iss \<and> authorised X b expect ev True True iss (accepted_grant A) \<and>
      used_bundle_closure A = (source_of iss = BundleOrCache))"
  unfolding accept_grant_def by (rule accept_inner_iff)

text \<open>
  C11. An accepted grant is bound on every side: its account is the alias generated from the issuer
  that signed it, its device is the one the offer named, that device signed a challenge over this
  application, this account and the hash of these very octets, the issuer's asserting key signed the
  octets that arrived, the grant is not in the revocation set, and its permissions lie between what
  the operation needs and what the profile declares.
\<close>

theorem accepted_grant_bound:
  assumes "accept_grant X b expect ev = Inr A"
  shows "\<exists>iss c sig sess jws m. issuer_evidence ev = Some iss \<and> proof_evidence ev = Some (c, sig, sess) \<and>
    issuer (accepted_grant A) = closure_did iss \<and>
    acct_text (account (accepted_grant A)) =
      stable_acct_uri X (closure_did iss) (account_authority (expected_profile expect)) \<and>
    device_did (accepted_grant A) = encode_did_key (expected_device_key expect) \<and>
    challenge_application c = app_text (application_id (expected_profile expect)) \<and>
    challenge_account c = acct_text (expected_account expect) \<and>
    challenge_grant_hash c = sha256_digest X b \<and> session c = sess \<and>
    vk_verify_strict X (expected_device_key expect) (proof_input c) sig \<and>
    recognise_jws X b GRANT_JWS [] = Inr jws \<and> m \<in> set (assertion_methods iss) \<and>
    vk_verify_strict X (public_key (method_jwk m)) (signing_input jws) (signature jws) \<and>
    grant_id (accepted_grant A) \<notin> set (revoked_credential_ids iss) \<and>
    set (operation_permissions expect) \<subseteq> set (permissions (accepted_grant A)) \<and>
    set (permissions (accepted_grant A)) \<subseteq> set (allowed_permissions (expected_profile expect))"
proof -
  define g where "g = accepted_grant A"
  obtain iss where i: "issuer_evidence ev = Some iss" and a: "authorised X b expect ev True True iss g"
    using assms by (auto simp: accept_grant_def accept_inner_iff g_def)
  from a obtain jws m where j: "recognise_jws X b GRANT_JWS [] = Inr jws" "asserting_key iss (jws_kid jws) m"
    "vk_verify_strict X (public_key (method_jwk m)) (signing_input jws) (signature jws)"
    "recognise_grant X (payload jws) = Inr g"
    by (auto simp: authorised_def verify_jws_iff)
  have m: "m \<in> set (assertion_methods iss)"
    using j(2) by (auto simp: asserting_key_def find_Some_iff)
  have d: "device_did g = encode_did_key (device_public_key g)"
    using j(4) by (auto simp: recognise_grant_iff grant_ok_def)
  have f: "fields_match X expect iss g" and s: "status_current g expect iss (projection_evidence ev)"
    and p: "permitted g expect" and pr: "proven X b g (proof_evidence ev)"
    using a by (auto simp: authorised_def)
  have ac: "acct_text (account g) = stable_acct_uri X (issuer g) (account_authority (expected_profile expect))"
    using f unfolding fields_match_def by (blast intro: expected_account_stable)
  have e: "issuer g = closure_did iss" "application g = app_text (application_id (expected_profile expect))"
    "acct_text (account g) = acct_text (expected_account expect)" "device_public_key g = expected_device_key expect"
    using f by (simp_all add: fields_match_def)
  have st: "stable_acct_uri X (closure_did iss) (account_authority (expected_profile expect)) =
      acct_text (expected_account expect)"
    using ac e by simp
  obtain c sig sess where c: "proof_evidence ev = Some (c, sig, sess)" "challenge_application c = application g"
    "challenge_account c = acct_text (account g)" "challenge_grant_hash c = sha256_digest X b" "session c = sess"
    "vk_verify_strict X (device_public_key g) (proof_input c) sig"
    using pr by (auto simp: proven_def)
  show ?thesis
    unfolding g_def [symmetric]
    by (rule exI [of _ iss], rule exI [of _ c], rule exI [of _ sig], rule exI [of _ sess],
        rule exI [of _ jws], rule exI [of _ m], insert i c j(1,3) m d e s p st)
       (simp add: status_current_def permitted_def)
qed

theorem accepted_grant_bound_witness:
  "acct_text (account sample_grant) = stable_acct_uri sample_externs ''did:crdt:h'' ''a.example'' \<and>
   device_did sample_grant = encode_did_key sample_device_key"
  using accepted_grant_bound [OF sample_accepted]
  by (auto simp: sample_evidence_def sample_issuer_def sample_expectation_def sample_application_fields)

text \<open>
  C12. Steps eight to thirteen are only reached behind a verified signature: a refusal with one of
  those numbers means that the octets were a well-formed grant JWS, the issuer's closure was usable,
  and an asserting key of that issuer had signed exactly the octets received. No earlier refusal
  depends on a payload that nobody signed.
\<close>

theorem signature_before_fields:
  assumes "accept_grant_inner X b expect ev bind prove = Inl e" "7 < step_number (error_step e)"
  shows "\<exists>jws iss m. recognise_jws X b GRANT_JWS [] = Inr jws \<and> issuer_evidence ev = Some iss \<and>
    issuer_usable iss \<and> asserting_key iss (jws_kid jws) m \<and>
    vk_verify_strict X (public_key (method_jwk m)) (signing_input jws) (signature jws)"
  using assms(1)
proof (cases rule: accept_inner_Inl_cases)
  case (later jws iss m g)
  then show ?thesis by (auto simp: step_iffs verify_jws_iff)
next
  case parse
  then show ?thesis using error_steps(1) assms(2) by fastforce
next
  case (issuer jws)
  then show ?thesis using error_steps(2) assms(2) by fastforce
next
  case (key jws iss)
  then show ?thesis using error_steps(3) assms(2) by fastforce
next
  case (signature jws iss m e')
  then show ?thesis using assms(2) by (simp add: at_step_def)
qed

theorem signature_before_fields_witness:
  "\<exists>jws. recognise_jws sample_externs sample_octets_issued GRANT_JWS [] = Inr jws"
proof -
  let ?ev = "sample_evidence\<lparr>proof_evidence := None\<rparr>"
  have "authorised sample_externs sample_octets_issued sample_expectation sample_evidence True True sample_issuer sample_grant"
    using sample_accepted by (auto simp: accept_grant_def accept_inner_iff sample_evidence_def)
  then have "\<not> is_ok (accept_grant_inner sample_externs sample_octets_issued sample_expectation ?ev True True)"
    and a: "authorised sample_externs sample_octets_issued sample_expectation ?ev True False sample_issuer sample_grant"
    by (auto simp: not_isl_iff accept_inner_iff authorised_def proven_def)
  then obtain e where e: "accept_grant_inner sample_externs sample_octets_issued sample_expectation ?ev True True = Inl e"
    by (auto simp: not_isl_iff) (metis sum.exhaust)
  have r: "accept_grant_inner sample_externs sample_octets_issued sample_expectation ?ev True False =
      Inr \<lparr>accepted_grant = sample_grant, used_bundle_closure = False\<rparr>"
    using a by (simp add: accept_inner_iff sample_evidence_def) (simp add: sample_issuer_def)
  have "error_step e = StepProof"
    using e r unfolding accept_grant_inner_def
    by (auto simp: and_then_Inr_iff check_proof_def at_step_def sample_evidence_def)
  then show ?thesis using signature_before_fields [OF e] by auto
qed

text \<open>
  Revocation only ever removes authority: if a grant is accepted, by any of the entries, with
  an issuer state that revokes more, it is accepted with the one that revokes less, and no entry
  accepts a grant whose identifier is revoked.
\<close>

theorem revocation_antitone:
  assumes "accept_grant_inner X b expect (ev\<lparr>issuer_evidence := Some (iss\<lparr>revoked_credential_ids := larger\<rparr>)\<rparr>)
      bind prove = Inr A"
    and "set smaller \<subseteq> set larger"
  shows "accept_grant_inner X b expect (ev\<lparr>issuer_evidence := Some (iss\<lparr>revoked_credential_ids := smaller\<rparr>)\<rparr>)
      bind prove = Inr A \<and> grant_id (accepted_grant A) \<notin> set larger"
  using assms
  by (auto simp: accept_inner_iff authorised_def issuer_usable_def asserting_key_def fields_match_def
      bound_both_ways_def status_current_def freshness_bound_def)

theorem revocation_antitone_witness:
  "grant_id sample_grant \<notin> set [''did:crdt:h#grant-other'']"
  using revocation_antitone [where X = sample_externs and b = sample_octets_issued and expect = sample_expectation
      and ev = sample_evidence and iss = sample_issuer and larger = "[''did:crdt:h#grant-other'']"
      and smaller = "[]" and bind = True and prove = True
      and A = "\<lparr>accepted_grant = sample_grant, used_bundle_closure = False\<rparr>"] sample_accepted
  by (simp add: accept_grant_def sample_evidence_def sample_issuer_def)

text \<open>
  C13. Acceptance is confined in time: with a clock skew that does not overflow the 64-bit sums, an
  accepted grant has started, has not expired at the very instant \<open>validUntil\<close>, lives at most the
  profile's maximum, and is never accepted later than that maximum after its start; under a
  recognised profile that is 30 days.
\<close>

theorem acceptance_window:
  assumes "accept_grant_inner X b expect ev bind prove = Inr A"
    and "is_i64 (exp_now expect + clock_skew_seconds expect)" "is_i64 (exp_now expect - clock_skew_seconds expect)"
    and "recognise_profile X octs = Inr (expected_profile expect)"
  shows "valid_from (accepted_grant A) - clock_skew_seconds expect \<le> exp_now expect \<and>
    exp_now expect < valid_until (accepted_grant A) + clock_skew_seconds expect \<and>
    valid_until (accepted_grant A) - valid_from (accepted_grant A)
      \<le> max_grant_lifetime_seconds (revocation (expected_profile expect)) \<and>
    exp_now expect < valid_from (accepted_grant A) + 2592000 + clock_skew_seconds expect"
proof -
  define g where "g = accepted_grant A"
  obtain j where w: "in_window g expect" and r: "recognise_grant X j = Inr g"
    using assms(1) by (auto simp: accept_inner_iff authorised_def g_def)
  have l: "lifetime_seconds g = valid_until g - valid_from g"
    using r stamps_sub by (auto simp: recognise_grant_iff grant_ok_def lifetime_seconds_def)
  have "max_grant_lifetime_seconds (revocation (expected_profile expect)) \<le> 2592000"
    using recognise_profile_ok(1) [OF assms(4)] by (simp add: profile_ok_def revocation_ok_def)
  then show ?thesis
    using w assms(2,3) unfolding g_def [symmetric]
    by (simp add: in_window_def l i64_add_exact i64_sub_exact)
qed

theorem acceptance_window_witness:
  "exp_now sample_expectation < valid_until sample_grant + 5"
  using acceptance_window [where octs = sample_octets, OF sample_accepted [unfolded accept_grant_def]]
    recognise_sample
  by (simp add: sample_expectation_def is_i64_def i64_min_def i64_max_def)

text \<open>
  C14. An honest presentation is accepted. A grant issued by a home key that the issuer's usable
  closure lists first, presented in the context it was issued for, in its window, unrevoked, with
  the account bound both ways and the challenge signed by the device, passes all thirteen steps and
  returns the grant that was issued.
\<close>

theorem issued_grant_accepted:
  assumes X: "base64ct X" "ed25519_law X home_key" "ed25519_law X device_sk"
    and i: "issuable X home_did token_octets device_key acct perms from until"
    and utf8: "valid_utf8 home_did" "valid_utf8 (app_text aid)" "\<forall>p \<in> set perms. valid_utf8 p"
    and bounds: "length (canonicalise (grant_header home_did)) \<le> 4096"
      "b = issue_grant X home_key home_did token_octets (encode_did_key device_key) device_key aid acct
         perms from until" "length b \<le> MAX_GRANT_OCTETS"
    and g: "g = issued_grant X home_did token_octets device_key aid acct perms from until"
    and p: "presentation X b device_sk g expect iss c" "status_current g expect iss reading"
      "bound_both_ways g iss reciprocal"
    and m: "home_method X home_key home_did m" "assertion_methods iss = m # ms"
  shows "accept_grant X b expect \<lparr>issuer_evidence = Some iss, jrd_evidence = reciprocal,
      projection_evidence = reading, proof_evidence = Some (c, sign_proof X c device_sk, session c)\<rparr> =
    Inr \<lparr>accepted_grant = g, used_bundle_closure = (source_of iss = BundleOrCache)\<rparr>"
  using assms by (rule honest_presentation)

theorem issued_grant_accepted_witness:
  "accept_grant sample_externs sample_octets_issued sample_expectation sample_evidence =
   Inr \<lparr>accepted_grant = sample_grant, used_bundle_closure = False\<rparr>"
proof -
  have u: "valid_utf8 ''did:crdt:h''" "valid_utf8 (app_text sample_app)"
      "\<forall>p \<in> set [sample_permission]. valid_utf8 p" by (simp_all add: valid_utf8_ascii)
  have "assertion_methods sample_issuer = sample_method # []" by (simp add: sample_issuer_def)
  from issued_grant_accepted [OF rfc4648.base64ct_axioms sample_ed25519_law sample_ed25519_law sample_issuable u
      sample_bounds(1) sample_octets_issued_def sample_bounds(2) sample_grant_def sample_presentation
      sample_status sample_bound sample_home_method this]
  show ?thesis by (simp add: sample_evidence_def sample_issuer_def grant_challenge_def)
qed

end
