(* ===== verification/Revocation.thy ===== *)
theory Revocation
  imports Accept
begin

text \<open>
  Credential revocation and the status projection (\<open>revocation.rs\<close>). The \<open>did:crdt\<close> method is
  third-party code: its documents, deltas and bundles are type parameters and its operations the
  fields of the record \<open>crdt\<close>; \<open>crdt_law\<close> states what the code relies on. The controller's
  submission is a state machine, characterised over all sequences of its events.
\<close>

section \<open>The \<open>did:crdt\<close> method\<close>

text \<open>
  An entry of \<open>Document::verification_methods\<close>: its id, whether \<open>relationships\<close> contains
  \<open>AssertionMethod\<close>, and its key.
\<close>

record method_entry =
  entry_method_id :: rust_str
  asserts :: bool
  public_key_multibase :: rust_str

text \<open>
  \<open>new_revocation\<close> is \<open>SignedDelta::new_with_parents\<close> with the operation \<open>RevokeCredential\<close>: the
  DID, the credential id, the wall clock, the node id, the frontier, the method id and the key.
  \<open>delta_added_key\<close> is the key of an \<open>AddVerificationMethod\<close> and None for any other operation. The
  opaque values of the method (frontiers, node ids) have type 'v.
\<close>

record ('doc, 'delta, 'bundle, 'v) crdt =
  doc_did :: "'doc \<Rightarrow> rust_str"
  doc_frontier :: "'doc \<Rightarrow> 'v"
  is_revoked :: "'doc \<Rightarrow> rust_str \<Rightarrow> bool"
  doc_revoked :: "'doc \<Rightarrow> rust_str list"
  doc_deactivated :: "'doc \<Rightarrow> bool"
  doc_methods :: "'doc \<Rightarrow> method_entry list"
  doc_also_known_as :: "'doc \<Rightarrow> rust_str list"
  doc_new :: "rust_str \<Rightarrow> 'doc option"
  merge_verified_delta :: "'doc \<Rightarrow> 'delta \<Rightarrow> rust_str + 'doc"
  merge_verified_bundle :: "'doc \<Rightarrow> 'bundle \<Rightarrow> rust_str + 'doc"
  bundle_deltas :: "'bundle \<Rightarrow> 'delta list"
  delta_is_root :: "'delta \<Rightarrow> bool"
  delta_added_key :: "'delta \<Rightarrow> rust_str option"
  node_id_from_pubkey :: "octets \<Rightarrow> 'v"
  new_revocation :: "rust_str \<Rightarrow> rust_str \<Rightarrow> nat \<Rightarrow> 'v \<Rightarrow> 'v \<Rightarrow> rust_str \<Rightarrow> octets \<Rightarrow> rust_str + 'delta"

text \<open>
  What the crate relies on: the listed set is the one \<open>is_revoked\<close> reads, admission never clears
  an entry, a delta built to revoke a credential, once admitted, revokes it, and a merged document
  keeps its DID.
\<close>

definition crdt_law :: "('doc, 'delta, 'bundle, 'v) crdt \<Rightarrow> bool" where
  "crdt_law C \<longleftrightarrow>
     (\<forall>D c. is_revoked C D c \<longleftrightarrow> c \<in> set (doc_revoked C D)) \<and>
     (\<forall>D d D' c. merge_verified_delta C D d = Inr D' \<longrightarrow> is_revoked C D c \<longrightarrow> is_revoked C D' c) \<and>
     (\<forall>dd c ms node front mid key d D D'.
        new_revocation C dd c ms node front mid key = Inr d \<longrightarrow> merge_verified_delta C D d = Inr D' \<longrightarrow>
        is_revoked C D' c) \<and>
     (\<forall>D bundle D'. merge_verified_bundle C D bundle = Inr D' \<longrightarrow> doc_did C D' = doc_did C D)"

text \<open>
  An instance: a document is its DID and the deltas it has admitted, a genesis names the root key,
  and admission checks only that the delta is one of the two.
\<close>

datatype sample_delta = SampleGenesis rust_str | SampleRevoke rust_str

definition sample_revoked :: "rust_str \<times> sample_delta list \<Rightarrow> rust_str list" where
  "sample_revoked D = concat (map (\<lambda>d. case d of SampleRevoke c \<Rightarrow> [c] | SampleGenesis k \<Rightarrow> []) (snd D))"

definition sample_crdt :: "(rust_str \<times> sample_delta list, sample_delta, sample_delta list, unit) crdt" where
  "sample_crdt =
     \<lparr>doc_did = fst,
      doc_frontier = (\<lambda>D. ()),
      is_revoked = (\<lambda>D c. List.member (sample_revoked D) c),
      doc_revoked = sample_revoked,
      doc_deactivated = (\<lambda>D. False),
      doc_methods = (\<lambda>D. concat (map (\<lambda>d. case d of SampleRevoke c \<Rightarrow> []
        | SampleGenesis k \<Rightarrow> [\<lparr>entry_method_id = fst D @ ''#m'', asserts = True, public_key_multibase = k\<rparr>]) (snd D))),
      doc_also_known_as = (\<lambda>D. []),
      doc_new = (\<lambda>k. if k = [] then None else Some (''did:crdt:'' @ k, [])),
      merge_verified_delta = (\<lambda>D d. Inr (fst D, snd D @ [d])),
      merge_verified_bundle = (\<lambda>D ds. Inr (fst D, snd D @ ds)),
      bundle_deltas = (\<lambda>ds. ds),
      delta_is_root = (\<lambda>d. case d of SampleGenesis k \<Rightarrow> True | SampleRevoke c \<Rightarrow> False),
      delta_added_key = (\<lambda>d. case d of SampleGenesis k \<Rightarrow> Some k | SampleRevoke c \<Rightarrow> None),
      node_id_from_pubkey = (\<lambda>key. ()),
      new_revocation = (\<lambda>dd c ms node front mid key. Inr (SampleRevoke c))\<rparr>"

lemma sample_crdt_law: "crdt_law sample_crdt"
  by (simp add: crdt_law_def sample_crdt_def sample_revoked_def)

section \<open>Submission\<close>

definition MIN_PROJECTION_ENTRIES :: nat where "MIN_PROJECTION_ENTRIES = 131072"

datatype revocation_error = NotAGrantId | MethodRefused rust_str

datatype submission =
    Pending rust_str "rust_str list"
  | Confirmed rust_str

definition begin_submission :: "rust_str \<Rightarrow> submission" where
  "begin_submission credential_id = Pending credential_id []"

fun acknowledged :: "submission \<Rightarrow> rust_str \<Rightarrow> submission" where
  "acknowledged (Pending credential_id acknowledged_by) rid = Pending credential_id (acknowledged_by @ [rid])"
| "acknowledged (Confirmed credential_id) rid = Confirmed credential_id"

fun observe :: "('doc, 'delta, 'bundle, 'v) crdt \<Rightarrow> submission \<Rightarrow> 'doc \<Rightarrow> submission" where
  "observe C (Pending credential_id acks) closure =
     (if is_revoked C closure credential_id then Confirmed credential_id else Pending credential_id acks)"
| "observe C (Confirmed credential_id) closure = Confirmed credential_id"

fun is_confirmed :: "submission \<Rightarrow> bool" where
  "is_confirmed (Confirmed c) = True"
| "is_confirmed (Pending c acks) = False"

definition revoke_credential ::
  "externs \<Rightarrow> ('doc, 'delta, 'bundle, 'v) crdt \<Rightarrow> 'doc \<Rightarrow> octets \<Rightarrow> rust_str \<Rightarrow> rust_str \<Rightarrow> nat
   \<Rightarrow> revocation_error + 'delta" where
  "revoke_credential X C document home_key home_method_id credential_id now_milliseconds =
     and_then (ok_or NotAGrantId (strip_prefix (doc_did C document @ ''#grant-'') credential_id)) (\<lambda>tok.
     if \<not> is_ok (decode_b64url_32 X tok) then Inl NotAGrantId
     else
       let node = node_id_from_pubkey C (sk_public X home_key) in
       map_err MethodRefused
         (new_revocation C (doc_did C document) credential_id now_milliseconds node
            (doc_frontier C document) home_method_id home_key))"

definition admit_revocation ::
  "('doc, 'delta, 'bundle, 'v) crdt \<Rightarrow> 'doc \<Rightarrow> 'delta \<Rightarrow> revocation_error + 'doc" where
  "admit_revocation C replica delta = map_err MethodRefused (merge_verified_delta C replica delta)"

definition monotonic_operations :: "rust_str list" where
  "monotonic_operations = [''RevokeCredential'', ''RevokeVerificationMethod'', ''Deactivate'']"

section \<open>The projection\<close>

datatype projection_answer = Revoked | NoInformationYet | AnswerUnavailable

definition read_projection ::
  "bool \<Rightarrow> unix_seconds \<Rightarrow> unix_seconds \<Rightarrow> unix_seconds \<Rightarrow> projection_policy \<Rightarrow> projection_answer" where
  "read_projection bit_set from until at policy =
     (if until \<le> from then AnswerUnavailable
      else if i64_sub until from > max_age_seconds policy then AnswerUnavailable
      else if bit_set then Revoked
      else if at < from \<or> at \<ge> until then AnswerUnavailable
      else NoInformationYet)"

definition may_set_bit :: "('doc, 'delta, 'bundle, 'v) crdt \<Rightarrow> 'doc \<Rightarrow> rust_str \<Rightarrow> bool" where
  "may_set_bit C closure credential_id = is_revoked C closure credential_id"

section \<open>The submission as a state machine\<close>

datatype 'doc submission_event = Acked rust_str | Observed 'doc

fun submission_step :: "('doc, 'delta, 'bundle, 'v) crdt \<Rightarrow> submission \<Rightarrow> 'doc submission_event \<Rightarrow> submission" where
  "submission_step C s (Acked rid) = acknowledged s rid"
| "submission_step C s (Observed D) = observe C s D"

definition submission_run :: "('doc, 'delta, 'bundle, 'v) crdt \<Rightarrow> rust_str \<Rightarrow> 'doc submission_event list \<Rightarrow> submission" where
  "submission_run C c evs = foldl (submission_step C) (begin_submission c) evs"

text \<open>The resolvers that acknowledged, in order.\<close>

definition acks :: "'doc submission_event list \<Rightarrow> rust_str list" where
  "acks evs = concat (map (\<lambda>ev. case ev of Acked rid \<Rightarrow> [rid] | Observed D \<Rightarrow> []) evs)"

text \<open>The specification: a closure with the credential revoked has been observed.\<close>

definition revocation_observed :: "('doc, 'delta, 'bundle, 'v) crdt \<Rightarrow> rust_str \<Rightarrow> 'doc submission_event list \<Rightarrow> bool" where
  "revocation_observed C c evs \<longleftrightarrow> (\<exists>D. Observed D \<in> set evs \<and> is_revoked C D c)"

lemma submission_run_snoc: "submission_run C c (evs @ [ev]) = submission_step C (submission_run C c evs) ev"
  by (simp add: submission_run_def)

lemma submission_run_state:
  "submission_run C c evs = (if revocation_observed C c evs then Confirmed c else Pending c (acks evs))"
proof (induction evs rule: rev_induct)
  case Nil
  then show ?case by (simp add: submission_run_def begin_submission_def revocation_observed_def acks_def)
next
  case (snoc ev evs)
  then show ?case
    by (cases ev) (auto simp: submission_run_snoc revocation_observed_def acks_def)
qed

lemma strip_prefix_None_iff: "strip_prefix p s = None \<longleftrightarrow> (\<nexists>r. s = p @ r)"
  by (metis not_None_eq strip_prefix_Some_iff)

lemma recognised_grant_id:
  assumes "recognise_grant X j = Inr g" "issuer g = doc_did C D"
  shows "strip_prefix (doc_did C D @ ''#grant-'') (grant_id g) = Some (token g) \<and> is_ok (decode_b64url_32 X (token g))"
  using assms by (auto simp: recognise_grant_iff grant_ok_def strip_prefix_Some_iff)

lemma revoke_credential_scope:
  assumes "base64ct X"
  shows "revoke_credential X C D home_key mid cid ms =
    (if \<exists>octs. length octs = 32 \<and> cid = doc_did C D @ ''#grant-'' @ b64url X octs
     then map_err MethodRefused (new_revocation C (doc_did C D) cid ms
       (node_id_from_pubkey C (sk_public X home_key)) (doc_frontier C D) mid home_key)
     else Inl NotAGrantId)"
proof -
  have ok: "is_ok (decode_b64url_32 X t) \<longleftrightarrow> (\<exists>octs. length octs = 32 \<and> t = b64url X octs)" for t
    using canonical_codec.dec_ok_iff [OF b64url_codec [OF assms, of 32]] by (simp add: decode_b64url_32_def)
  show ?thesis
  proof (cases "strip_prefix (doc_did C D @ ''#grant-'') cid")
    case None
    then have "\<not> (\<exists>octs. length octs = 32 \<and> cid = doc_did C D @ ''#grant-'' @ b64url X octs)"
      unfolding strip_prefix_None_iff append_assoc by blast
    then show ?thesis using None by (simp only: if_False) (simp add: revoke_credential_def)
  next
    case (Some t)
    then have "(\<exists>octs. length octs = 32 \<and> cid = doc_did C D @ ''#grant-'' @ b64url X octs) \<longleftrightarrow>
        is_ok (decode_b64url_32 X t)"
      unfolding strip_prefix_Some_iff append_assoc ok by simp
    then show ?thesis using Some by (simp only:) (simp add: revoke_credential_def Let_def)
  qed
qed

text \<open>A grant identifier has one \<open>#\<close>, so it has the form of a document's grants for its own issuer only.\<close>

lemma grant_id_scope:
  assumes "base64ct X" "recognise_grant X j = Inr g"
  shows "(\<exists>octs. length octs = 32 \<and> grant_id g = did @ ''#grant-'' @ b64url X octs) \<longleftrightarrow> issuer g = did"
proof -
  have ok: "grant_ok X j g" using assms(2) by (simp add: recognise_grant_iff)
  then have i: "grant_id g = issuer g @ CHR ''#'' # (''grant-'' @ token g)" "CHR ''#'' \<notin> set (issuer g)"
    by (simp_all add: grant_ok_def)
  from ok obtain octs where o: "decode_b64url_32 X (token g) = Inr octs" by (auto simp: grant_ok_def not_isl_iff)
  then have t: "length octs = 32" "token g = b64url X octs"
    using canonical_codec.dec_Inr_iff [OF b64url_codec [OF assms(1), of 32]] by (simp_all add: decode_b64url_32_def)
  show ?thesis
  proof
    assume "\<exists>octs. length octs = 32 \<and> grant_id g = did @ ''#grant-'' @ b64url X octs"
    then obtain os where e: "grant_id g = did @ CHR ''#'' # (''grant-'' @ b64url X os)" by auto
    have once: "CHR ''#'' \<notin> set (token g)"
      using base64ct.encode_alphabet [OF assms(1), of octs]
      by (auto simp: t(2) b64url_def list_all_iff is_b64url_char_def ascii_class_defs)
    have "split_once (CHR ''#'') (grant_id g) = Some (issuer g, ''grant-'' @ token g)"
      using i by (simp add: split_once_Some_iff)
    moreover have "CHR ''#'' \<notin> set did"
    proof
      assume "CHR ''#'' \<in> set did"
      then have "2 \<le> count_list (grant_id g) (CHR ''#'')"
        unfolding e using count_list_0_iff [of did "CHR ''#''"] by simp
      moreover have "count_list (grant_id g) (CHR ''#'') = 1"
        unfolding i(1) using i(2) once by simp
      ultimately show False by simp
    qed
    then have "split_once (CHR ''#'') (grant_id g) = Some (did, ''grant-'' @ b64url X os)"
      using e by (simp add: split_once_Some_iff)
    ultimately show "issuer g = did" by simp
  next
    assume "issuer g = did"
    then show "\<exists>octs. length octs = 32 \<and> grant_id g = did @ ''#grant-'' @ b64url X octs" using i(1) t by auto
  qed
qed

section \<open>Properties\<close>

text \<open>
  C15. A revocation is reported done exactly when a verified closure that contains it has been
  observed: over every sequence of acknowledgements and observations the state is confirmed if and
  only if one of the observed closures revokes the credential, and before that it is pending with
  the resolvers that acknowledged, whose number changes nothing.
\<close>

theorem submission_confirmed_by_observation:
  "submission_run C c evs = (if revocation_observed C c evs then Confirmed c else Pending c (acks evs)) \<and>
   (is_confirmed (submission_run C c evs) \<longleftrightarrow> revocation_observed C c evs)"
  by (simp add: submission_run_state)

text \<open>
  C16. The controller revokes its own grants and nothing else. For every text, whatever the home key and the time, the
  delta of a revocation is built exactly when the text is the document's DID, \<open>#grant-\<close> and the canonical base64url of
  32 octets, and is then the method's own, over the document's frontier and a node id fixed by the public key; any
  other text, a longer or shorter token or a second spelling of one included, is refused before anything is signed. So
  the identifier of a recognised grant is revocable by the document of its issuer, and refused by every other.
\<close>

theorem revocation_scope_exact:
  assumes "base64ct X"
  shows "revoke_credential X C D home_key mid cid ms =
      (if \<exists>octs. length octs = 32 \<and> cid = doc_did C D @ ''#grant-'' @ b64url X octs
       then map_err MethodRefused (new_revocation C (doc_did C D) cid ms
         (node_id_from_pubkey C (sk_public X home_key)) (doc_frontier C D) mid home_key)
       else Inl NotAGrantId)
    \<and> (\<forall>j g. recognise_grant X j = Inr g \<and> cid = grant_id g \<longrightarrow>
         revoke_credential X C D home_key mid cid ms =
           (if issuer g = doc_did C D
            then map_err MethodRefused (new_revocation C (issuer g) cid ms
              (node_id_from_pubkey C (sk_public X home_key)) (doc_frontier C D) mid home_key)
            else Inl NotAGrantId))"
proof (intro conjI allI impI)
  show s: "revoke_credential X C D home_key mid cid ms =
      (if \<exists>octs. length octs = 32 \<and> cid = doc_did C D @ ''#grant-'' @ b64url X octs
       then map_err MethodRefused (new_revocation C (doc_did C D) cid ms
         (node_id_from_pubkey C (sk_public X home_key)) (doc_frontier C D) mid home_key)
       else Inl NotAGrantId)" by (rule revoke_credential_scope [OF assms])
  fix j g assume g: "recognise_grant X j = Inr g \<and> cid = grant_id g"
  show "revoke_credential X C D home_key mid cid ms =
           (if issuer g = doc_did C D
            then map_err MethodRefused (new_revocation C (issuer g) cid ms
              (node_id_from_pubkey C (sk_public X home_key)) (doc_frontier C D) mid home_key)
            else Inl NotAGrantId)"
    using grant_id_scope [OF assms, of j g "doc_did C D"] g s by simp
qed

theorem revocation_scope_exact_witness:
  "revoke_credential sample_externs sample_crdt (''did:crdt:h'', []) ''home-key'' ''m'' (grant_id sample_grant) 1700000000000 =
     Inr (SampleRevoke (grant_id sample_grant))
   \<and> revoke_credential sample_externs sample_crdt (''did:crdt:other'', []) ''home-key'' ''m'' (grant_id sample_grant) 1700000000000 =
     Inl NotAGrantId"
proof -
  obtain j where j: "recognise_grant sample_externs j = Inr sample_grant"
    using sample_accepted by (auto simp: accept_grant_def accept_inner_iff authorised_def)
  have r: "revoke_credential sample_externs sample_crdt D ''home-key'' ''m'' (grant_id sample_grant) 1700000000000 =
      (if issuer sample_grant = doc_did sample_crdt D
       then map_err MethodRefused (new_revocation sample_crdt (issuer sample_grant) (grant_id sample_grant) 1700000000000
         (node_id_from_pubkey sample_crdt (sk_public sample_externs ''home-key'')) (doc_frontier sample_crdt D) ''m'' ''home-key'')
       else Inl NotAGrantId)" for D
    by (rule mp [OF spec [OF spec [OF conjunct2 [OF revocation_scope_exact [OF rfc4648.base64ct_axioms]]]]]) (rule conjI [OF j refl])
  show ?thesis unfolding r by (simp add: sample_grant_fields) (simp add: sample_crdt_def)
qed

text \<open>
  The two values of a projected bit are not symmetric: a set bit in a well-formed window reads
  as revoked at every instant, whereas an unset bit informs only inside its window and only when the
  window is no longer than the profile allows; a malformed or over-long window says nothing at all.
\<close>

lemma read_projection_asymmetric:
  assumes "stamp_range from" "stamp_range until"
  shows "(read_projection bit_on from until at policy = Revoked \<longleftrightarrow>
      bit_on \<and> from < until \<and> until - from \<le> max_age_seconds policy) \<and>
    (read_projection bit_on from until at policy = NoInformationYet \<longleftrightarrow>
      \<not> bit_on \<and> from \<le> at \<and> at < until \<and> until - from \<le> max_age_seconds policy) \<and>
    (read_projection bit_on from until at policy = Revoked) =
      (read_projection bit_on from until later policy = Revoked)"
  using stamps_sub [OF assms(2,1)] by (auto simp: read_projection_def)

end
