(* ===== verification/Path_B.thy ===== *)
theory Path_B
  imports Revocation
begin

text \<open>
  The Path-B adapter (\<open>path_b.rs\<close>): how the observations of several resolvers become one issuer
  state, and how a device grant is established, staged, kept standing and rehydrated on top of the
  acceptance predicate. The lemmas say what the agreement of the resolvers gives and what a verified
  grant may be relied on for.
\<close>

section \<open>The resolver quorum\<close>

definition MINIMUM_RESOLVER_QUORUM :: nat where "MINIMUM_RESOLVER_QUORUM = 1"

record resolver_revocations =
  rr_resolver_id :: rust_str
  rr_revoked :: "rust_str list"

datatype verify_error =
    ResolverQuorum
  | NonResolverClosure
  | GrantRefused accept_error
  | StagingProjection

text \<open>\<open>if !union.contains(id) \{ union.push(id) \}\<close>, over the ids of one observation.\<close>

fun push_new :: "rust_str list \<Rightarrow> rust_str list \<Rightarrow> rust_str list" where
  "push_new acc [] = acc"
| "push_new acc (c # cs) = push_new (if List.member acc c then acc else acc @ [c]) cs"

fun union_loop ::
  "rust_str list \<Rightarrow> rust_str list \<Rightarrow> rust_str list \<Rightarrow> resolver_revocations list
   \<Rightarrow> verify_error + rust_str list \<times> rust_str list" where
  "union_loop declared seen acc [] = Inr (seen, acc)"
| "union_loop declared seen acc (ob # obs) =
     (if \<not> List.member declared (rr_resolver_id ob) \<or> List.member seen (rr_resolver_id ob)
      then Inl ResolverQuorum
      else union_loop declared (seen @ [rr_resolver_id ob]) (push_new acc (rr_revoked ob)) obs)"

definition union_resolver_revocations ::
  "application_profile \<Rightarrow> resolver_revocations list \<Rightarrow> verify_error + rust_str list" where
  "union_resolver_revocations P obs =
     (let declared = map resolver_id (state_resolvers P) in
      if length declared < MINIMUM_RESOLVER_QUORUM then Inl ResolverQuorum
      else
        and_then (union_loop declared [] [] obs) (\<lambda>(seen, acc).
        if length seen < MINIMUM_RESOLVER_QUORUM then Inl ResolverQuorum
        else Inr (sort acc)))"

section \<open>Observations and their agreement\<close>

record closure_assertion_method =
  cm_id :: rust_str
  cm_kind :: rust_str
  cm_public_key :: octets
  cm_has_private_component :: bool

record resolver_observation =
  ob_resolver_id :: rust_str
  ob_did :: rust_str
  ob_did_recomputed_ok :: bool
  ob_deltas_verified :: bool
  ob_locally_closed :: bool
  ob_deactivated :: bool
  ob_assertion_methods :: "closure_assertion_method list"
  ob_revoked :: "rust_str list"
  ob_also_known_as :: "rust_str list"
  ob_fetched_at :: unix_seconds

record agreed_closure =
  ac_did :: rust_str
  ac_did_recomputed_ok :: bool
  ac_deltas_verified :: bool
  ac_locally_closed :: bool
  ac_deactivated :: bool
  ac_assertion_methods :: "closure_assertion_method list"
  ac_revoked :: "rust_str list"
  ac_also_known_as :: "rust_str list"
  ac_oldest_fetched_at :: unix_seconds

text \<open>\<open>Iterator::min\<close>: the first of the least elements, None of no elements.\<close>

definition iter_min :: "int list \<Rightarrow> int option" where
  "iter_min xs = (case xs of [] \<Rightarrow> None | y # ys \<Rightarrow> Some (fold (\<lambda>b a. if b < a then b else a) ys y))"

definition agree_closures :: "application_profile \<Rightarrow> resolver_observation list \<Rightarrow> verify_error + agreed_closure" where
  "agree_closures P obs =
     and_then (ok_or ResolverQuorum (case obs of [] \<Rightarrow> None | ob # _ \<Rightarrow> Some ob)) (\<lambda>first.
     if list_ex (\<lambda>ob. ob_did ob \<noteq> ob_did first
          \<or> ob_did_recomputed_ok ob \<noteq> ob_did_recomputed_ok first
          \<or> ob_deltas_verified ob \<noteq> ob_deltas_verified first
          \<or> ob_locally_closed ob \<noteq> ob_locally_closed first
          \<or> ob_deactivated ob \<noteq> ob_deactivated first
          \<or> ob_assertion_methods ob \<noteq> ob_assertion_methods first
          \<or> ob_also_known_as ob \<noteq> ob_also_known_as first) (drop 1 obs)
     then Inl ResolverQuorum
     else
     and_then (union_resolver_revocations P
       (map (\<lambda>ob. \<lparr>rr_resolver_id = ob_resolver_id ob, rr_revoked = ob_revoked ob\<rparr>) obs)) (\<lambda>revoked.
     and_then (ok_or ResolverQuorum (iter_min (map ob_fetched_at obs))) (\<lambda>oldest.
     Inr \<lparr>ac_did = ob_did first, ac_did_recomputed_ok = ob_did_recomputed_ok first,
       ac_deltas_verified = ob_deltas_verified first, ac_locally_closed = ob_locally_closed first,
       ac_deactivated = ob_deactivated first, ac_assertion_methods = ob_assertion_methods first,
       ac_revoked = revoked, ac_also_known_as = ob_also_known_as first,
       ac_oldest_fetched_at = oldest\<rparr>)))"

text \<open>A fetch stamped in the future, or a difference that does not fit, reads as the greatest age.\<close>

definition closure_age :: "unix_seconds \<Rightarrow> unix_seconds \<Rightarrow> int" where
  "closure_age now oldest =
     (case i64_checked_sub now oldest of Some age \<Rightarrow> if age \<ge> 0 then age else i64_max | None \<Rightarrow> i64_max)"

definition issuer_state_of :: "agreed_closure \<Rightarrow> unix_seconds \<Rightarrow> issuer_state" where
  "issuer_state_of ac now =
     \<lparr>closure_did = ac_did ac, did_recomputed_ok = ac_did_recomputed_ok ac,
      deltas_verified = ac_deltas_verified ac, locally_closed = ac_locally_closed ac,
      deactivated = ac_deactivated ac,
      assertion_methods = map (\<lambda>cm. \<lparr>method_id = cm_id cm, method_kind = cm_kind cm,
        method_jwk = \<lparr>public_key = cm_public_key cm, jwk_x = []\<rparr>,
        has_private_component = cm_has_private_component cm\<rparr>) (ac_assertion_methods ac),
      revoked_credential_ids = ac_revoked ac,
      closure_age_seconds = closure_age now (ac_oldest_fetched_at ac),
      source_of = StateResolver, also_known_as = ac_also_known_as ac\<rparr>"

section \<open>Replaying a resolver's history\<close>

datatype closure_replay_error =
    GenesisCount | GenesisOperation | GenesisRejected | DidMismatch | DeltaRejected
  | AssertionKeyEncoding | AssertionKeyLength

definition asserting_key_of :: "externs \<Rightarrow> rust_str \<Rightarrow> nat \<times> method_entry \<Rightarrow> closure_replay_error + closure_assertion_method" where
  "asserting_key_of X dd = (\<lambda>(index, entry).
     and_then (ok_or AssertionKeyEncoding (strip_prefix ''u'' (public_key_multibase entry))) (\<lambda>encoded.
     and_then (ok_or AssertionKeyEncoding (b64_decode_vec X encoded)) (\<lambda>decoded.
     if length decoded \<noteq> 32 then Inl AssertionKeyLength
     else Inr \<lparr>cm_id = dd @ ''#jwk-'' @ dec_nat index, cm_kind = ''JsonWebKey'', cm_public_key = decoded,
       cm_has_private_component = False\<rparr>)))"

definition replay_resolver_closure ::
  "externs \<Rightarrow> ('doc, 'delta, 'bundle, 'v) crdt \<Rightarrow> 'bundle \<Rightarrow> rust_str \<Rightarrow> rust_str \<Rightarrow> unix_seconds
   \<Rightarrow> closure_replay_error + resolver_observation" where
  "replay_resolver_closure X C bundle expected_did rid fetched_at =
     and_then (case filter (delta_is_root C) (bundle_deltas C bundle) of [root] \<Rightarrow> Inr root | _ \<Rightarrow> Inl GenesisCount) (\<lambda>root.
     and_then (ok_or GenesisOperation (delta_added_key C root)) (\<lambda>multibase.
     and_then (ok_or GenesisRejected (doc_new C multibase)) (\<lambda>fresh.
     if doc_did C fresh \<noteq> expected_did then Inl DidMismatch
     else
     and_then (map_err (\<lambda>_. DeltaRejected) (merge_verified_bundle C fresh bundle)) (\<lambda>document.
     let asserting = sort_key entry_method_id (filter asserts (doc_methods C document)) in
     and_then (try_map (asserting_key_of X (doc_did C document)) (enumerate 0 asserting)) (\<lambda>methods.
     Inr \<lparr>ob_resolver_id = rid, ob_did = doc_did C document, ob_did_recomputed_ok = True,
       ob_deltas_verified = True, ob_locally_closed = True, ob_deactivated = doc_deactivated C document,
       ob_assertion_methods = methods, ob_revoked = doc_revoked C document,
       ob_also_known_as = doc_also_known_as C document, ob_fetched_at = fetched_at\<rparr>)))))"

section \<open>Requests and outcomes\<close>

record grant_request =
  rq_profile :: application_profile
  rq_account :: acct_uri
  rq_device_public_key :: octets
  rq_operation_permissions :: "rust_str list"
  rq_now :: unix_seconds
  rq_clock_skew :: int

record grant_evidence =
  ge_issuer :: issuer_state
  ge_jrd :: jrd
  ge_projection :: "projection_reading option"
  ge_challenge :: challenge
  ge_signature :: octets
  ge_session :: rust_str

record verified_grant =
  vg_account_did :: rust_str
  vg_grant_id :: rust_str
  vg_device_public_key :: octets
  vg_permissions :: "rust_str list"
  vg_valid_until :: unix_seconds
  vg_grant :: device_grant

record inactive_staged_grant =
  sg_account_did :: rust_str
  sg_account :: rust_str
  sg_grant_id :: rust_str
  sg_grant_token :: octets
  sg_device_did :: rust_str
  sg_device_public_key :: octets
  sg_permissions :: "rust_str list"
  sg_valid_until :: unix_seconds

record standing_request =
  sr_profile :: application_profile
  sr_operation_permissions :: "rust_str list"
  sr_now :: unix_seconds
  sr_clock_skew :: int

record standing_evidence =
  se_issuer :: issuer_state
  se_projection :: "projection_reading option"

definition request_freshness :: "grant_request \<Rightarrow> freshness_tier" where
  "request_freshness rq = SessionEstablishment"

text \<open>The expectation every entry builds from its request.\<close>

definition expectation_of :: "grant_request \<Rightarrow> expectation" where
  "expectation_of rq =
     \<lparr>expected_profile = rq_profile rq, expected_account = rq_account rq,
      expected_device_key = rq_device_public_key rq, operation_permissions = rq_operation_permissions rq,
      exp_now = rq_now rq, clock_skew_seconds = rq_clock_skew rq, freshness = SessionEstablishment\<rparr>"

definition evidence_of :: "grant_evidence \<Rightarrow> evidence" where
  "evidence_of ge =
     \<lparr>issuer_evidence = Some (ge_issuer ge), jrd_evidence = Some (ge_jrd ge),
      projection_evidence = ge_projection ge,
      proof_evidence = Some (ge_challenge ge, ge_signature ge, ge_session ge)\<rparr>"

definition verified_of :: "device_grant \<Rightarrow> verified_grant" where
  "verified_of g =
     \<lparr>vg_account_did = issuer g, vg_grant_id = grant_id g, vg_device_public_key = device_public_key g,
      vg_permissions = permissions g, vg_valid_until = valid_until g, vg_grant = g\<rparr>"

section \<open>The entries\<close>

definition verify_session_establishment ::
  "externs \<Rightarrow> grant_request \<Rightarrow> grant_evidence \<Rightarrow> octets \<Rightarrow> verify_error + verified_grant" where
  "verify_session_establishment X rq ge grant_bytes =
     (if source_of (ge_issuer ge) \<noteq> StateResolver then Inl NonResolverClosure
      else
      and_then (map_err GrantRefused (accept_grant X grant_bytes (expectation_of rq) (evidence_of ge))) (\<lambda>A.
      Inr (verified_of (accepted_grant A))))"

definition verify_inactive_staging ::
  "externs \<Rightarrow> grant_request \<Rightarrow> issuer_state \<Rightarrow> projection_reading option \<Rightarrow> octets
   \<Rightarrow> verify_error + inactive_staged_grant" where
  "verify_inactive_staging X rq iss reading grant_bytes =
     (if source_of iss \<noteq> StateResolver then Inl NonResolverClosure
      else
      and_then (map_err GrantRefused (stage_accepted_grant X grant_bytes (expectation_of rq) iss reading)) (\<lambda>A.
      let g = accepted_grant A in
      and_then (map_err (\<lambda>_. StagingProjection) (decode_b64url_32 X (token g))) (\<lambda>grant_token.
      Inr \<lparr>sg_account_did = issuer g, sg_account = acct_text (account g), sg_grant_id = grant_id g,
        sg_grant_token = grant_token, sg_device_did = device_did g,
        sg_device_public_key = device_public_key g, sg_permissions = permissions g,
        sg_valid_until = valid_until g\<rparr>)))"

definition verify_standing ::
  "verified_grant \<Rightarrow> standing_request \<Rightarrow> standing_evidence \<Rightarrow> verify_error + unit" where
  "verify_standing vg sr se =
     (if source_of (se_issuer se) \<noteq> StateResolver then Inl NonResolverClosure
      else
      map_err GrantRefused (check_standing (vg_grant vg)
        \<lparr>expected_profile = sr_profile sr, expected_account = account (vg_grant vg),
         expected_device_key = device_public_key (vg_grant vg),
         operation_permissions = sr_operation_permissions sr, exp_now = sr_now sr,
         clock_skew_seconds = sr_clock_skew sr, freshness = Continuation\<rparr>
        (se_issuer se) (se_projection se)))"

definition rehydrate_verified_grant ::
  "externs \<Rightarrow> grant_request \<Rightarrow> issuer_state \<Rightarrow> jrd \<Rightarrow> projection_reading option \<Rightarrow> octets
   \<Rightarrow> verify_error + verified_grant" where
  "rehydrate_verified_grant X rq iss reciprocal reading grant_bytes =
     (if source_of iss \<noteq> StateResolver then Inl NonResolverClosure
      else
      and_then (map_err GrantRefused (rehydrate_accepted_grant X grant_bytes (expectation_of rq)
        \<lparr>issuer_evidence = Some iss, jrd_evidence = Some reciprocal, projection_evidence = reading,
         proof_evidence = None\<rparr>)) (\<lambda>A.
      Inr (verified_of (accepted_grant A))))"

section \<open>What the union holds\<close>

lemma push_new_set [simp]: "set (push_new acc cs) = set acc \<union> set cs"
  by (induction cs arbitrary: acc) auto

lemma push_new_distinct: "distinct acc \<Longrightarrow> distinct (push_new acc cs)"
  by (induction cs arbitrary: acc) auto

lemma union_loop_iff:
  "union_loop declared seen acc obs = Inr (s, u) \<longleftrightarrow>
     distinct (map rr_resolver_id obs) \<and> rr_resolver_id ` set obs \<subseteq> set declared - set seen \<and>
     s = seen @ map rr_resolver_id obs \<and> u = foldl push_new acc (map rr_revoked obs)"
proof (induction obs arbitrary: seen acc)
  case Nil
  then show ?case by auto
next
  case (Cons ob obs)
  show ?case unfolding union_loop.simps Cons.IH if_distrib [of "\<lambda>r. r = Inr _"] by auto (metis imageI)
qed

lemma union_loop_Inl: "union_loop declared seen acc obs = Inl e \<Longrightarrow> e = ResolverQuorum"
  by (induction obs arbitrary: seen acc) (auto split: if_splits)

lemma foldl_push_new:
  "set (foldl push_new acc css) = set acc \<union> (\<Union>cs \<in> set css. set cs) \<and>
   (distinct acc \<longrightarrow> distinct (foldl push_new acc css))"
  by (induction css arbitrary: acc) (auto simp: push_new_distinct)

definition union_of :: "application_profile \<Rightarrow> resolver_revocations list \<Rightarrow> rust_str list \<Rightarrow> bool" where
  "union_of P obs ids \<longleftrightarrow>
     obs \<noteq> [] \<and> distinct (map rr_resolver_id obs) \<and>
     rr_resolver_id ` set obs \<subseteq> resolver_id ` set (state_resolvers P) \<and>
     sorted ids \<and> distinct ids \<and> set ids = (\<Union>ob \<in> set obs. set (rr_revoked ob))"

lemma union_resolver_revocations_iff:
  "union_resolver_revocations P obs = Inr ids \<longleftrightarrow> union_of P obs ids"
proof -
  let ?u = "foldl push_new [] (map rr_revoked obs)"
  have u: "set ?u = (\<Union>ob \<in> set obs. set (rr_revoked ob))" "distinct ?u"
    using foldl_push_new [of "[]" "map rr_revoked obs"] by simp_all
  have srt: "sort ?u = ids \<longleftrightarrow> sorted ids \<and> distinct ids \<and> set ids = set ?u"
    using u(2) by (metis sorted_sort set_sort distinct_sort sorted_distinct_set_unique)
  have "union_resolver_revocations P obs = Inr ids \<longleftrightarrow>
      obs \<noteq> [] \<and> distinct (map rr_resolver_id obs) \<and>
      rr_resolver_id ` set obs \<subseteq> resolver_id ` set (state_resolvers P) \<and> sort ?u = ids"
    unfolding union_resolver_revocations_def Let_def MINIMUM_RESOLVER_QUORUM_def
    by (auto simp: res_iff union_loop_iff not_less Suc_le_eq split: if_splits prod.splits)
  then show ?thesis unfolding srt union_of_def u(1) .
qed

lemma union_resolver_revocations_Inl: "union_resolver_revocations P obs = Inl e \<Longrightarrow> e = ResolverQuorum"
  by (auto simp: union_resolver_revocations_def Let_def res_iff dest: union_loop_Inl split: if_splits)

section \<open>What agreement gives\<close>

lemma fold_min_least: "fold (\<lambda>b a. if b < a then b else a) ys (y :: int) = Min (insert y (set ys))"
proof -
  have "(\<lambda>b a :: int. if b < a then b else a) = min" by (auto simp: fun_eq_iff)
  then show ?thesis using Min.set_eq_fold [of y ys] by simp
qed

lemma iter_min_iff: "iter_min xs = Some y \<longleftrightarrow> xs \<noteq> [] \<and> y = Min (set xs)"
  by (cases xs) (auto simp: iter_min_def fold_min_least)

definition same_facts :: "resolver_observation \<Rightarrow> agreed_closure \<Rightarrow> bool" where
  "same_facts ob ac \<longleftrightarrow>
     ob_did ob = ac_did ac \<and> ob_did_recomputed_ok ob = ac_did_recomputed_ok ac \<and>
     ob_deltas_verified ob = ac_deltas_verified ac \<and> ob_locally_closed ob = ac_locally_closed ac \<and>
     ob_deactivated ob = ac_deactivated ac \<and> ob_assertion_methods ob = ac_assertion_methods ac \<and>
     ob_also_known_as ob = ac_also_known_as ac"

definition revocations_of :: "resolver_observation list \<Rightarrow> resolver_revocations list" where
  "revocations_of obs = map (\<lambda>ob. \<lparr>rr_resolver_id = ob_resolver_id ob, rr_revoked = ob_revoked ob\<rparr>) obs"

lemma revocations_of_simps [simp]:
  "map rr_resolver_id (revocations_of obs) = map ob_resolver_id obs"
  "rr_resolver_id ` set (revocations_of obs) = ob_resolver_id ` set obs"
  "(\<Union>r \<in> set (revocations_of obs). set (rr_revoked r)) = (\<Union>ob \<in> set obs. set (ob_revoked ob))"
  "revocations_of obs = [] \<longleftrightarrow> obs = []"
  by (auto simp: revocations_of_def comp_def image_image)

lemma agree_closures_iff:
  "agree_closures P obs = Inr ac \<longleftrightarrow>
     union_of P (revocations_of obs) (ac_revoked ac) \<and> (\<forall>ob \<in> set obs. same_facts ob ac) \<and>
     ac_oldest_fetched_at ac = Min (ob_fetched_at ` set obs)"
proof (cases obs)
  case Nil
  then show ?thesis by (simp add: agree_closures_def union_of_def)
next
  case (Cons first rest)
  show ?thesis
    unfolding agree_closures_def Cons list.case ok_or_simps and_then_simps drop_Suc drop_0 list.sel
      revocations_of_def [symmetric]
    by (cases ac) (auto simp: res_iff union_resolver_revocations_iff iter_min_iff same_facts_def list_ex_iff)
qed

lemma closure_age_bounded:
  assumes "closure_age now oldest \<le> bound" "bound < i64_max"
  shows "0 \<le> now - oldest \<and> now - oldest \<le> bound"
  using assms by (auto simp: closure_age_def i64_checked_sub_def split: if_splits)

section \<open>When the entries succeed\<close>

lemma establishment_iff:
  "verify_session_establishment X rq ge b = Inr vg \<longleftrightarrow>
     source_of (ge_issuer ge) = StateResolver \<and>
     (\<exists>g. authorised X b (expectation_of rq) (evidence_of ge) True True (ge_issuer ge) g \<and> vg = verified_of g)"
proof -
  have "issuer_evidence (evidence_of ge) = Some (ge_issuer ge)" by (simp add: evidence_of_def)
  then show ?thesis
    by (auto simp: verify_session_establishment_def res_iff accept_grant_def accept_inner_iff)
       (metis acceptance.select_convs)
qed

lemma rehydrate_iff:
  "rehydrate_verified_grant X rq iss reciprocal reading b = Inr vg \<longleftrightarrow>
     source_of iss = StateResolver \<and>
     (\<exists>g. authorised X b (expectation_of rq) \<lparr>issuer_evidence = Some iss, jrd_evidence = Some reciprocal,
         projection_evidence = reading, proof_evidence = None\<rparr> True False iss g \<and> vg = verified_of g)"
  by (auto simp: rehydrate_verified_grant_def res_iff rehydrate_accepted_grant_def accept_inner_iff)
     (metis acceptance.select_convs)

lemma stage_iff:
  "stage_accepted_grant X b expect iss reading = Inr A \<longleftrightarrow>
     authorised X b expect \<lparr>issuer_evidence = Some iss, jrd_evidence = None,
         projection_evidence = reading, proof_evidence = None\<rparr> False False iss (accepted_grant A) \<and>
     used_bundle_closure A = (source_of iss = BundleOrCache)"
  by (simp add: stage_accepted_grant_def accept_inner_iff)

lemma authorised_token: "authorised X b expect ev bind prove iss g \<Longrightarrow> is_ok (decode_b64url_32 X (token g))"
  by (auto simp: authorised_def recognise_grant_iff grant_ok_def)

lemma authorised_proof_split:
  "authorised X b expect ev bind True iss g \<longleftrightarrow>
     authorised X b expect (ev\<lparr>proof_evidence := None\<rparr>) bind False iss g \<and> proven X b g (proof_evidence ev)"
  by (auto simp: authorised_def)

lemma authorised_status:
  "authorised X b expect ev bind prove iss g \<Longrightarrow> status_current g expect iss (projection_evidence ev)"
  by (simp add: authorised_def)

lemma standing_iff:
  "verify_standing vg sr se = Inr u \<longleftrightarrow>
     source_of (se_issuer se) = StateResolver \<and>
     closure_age_seconds (se_issuer se) \<le> max_closure_age_seconds (revocation (sr_profile sr)) \<and>
     locally_closed (se_issuer se) \<and> se_projection se \<noteq> Some BitSet \<and>
     grant_id (vg_grant vg) \<notin> set (revoked_credential_ids (se_issuer se)) \<and>
     valid_from (vg_grant vg) \<le> i64_add (sr_now sr) (sr_clock_skew sr) \<and>
     i64_sub (sr_now sr) (sr_clock_skew sr) < valid_until (vg_grant vg) \<and>
     lifetime_seconds (vg_grant vg) \<le> max_grant_lifetime_seconds (revocation (sr_profile sr)) \<and>
     set (sr_operation_permissions sr) \<subseteq> set (permissions (vg_grant vg)) \<and>
     set (permissions (vg_grant vg)) \<subseteq> set (allowed_permissions (sr_profile sr))"
  by (auto simp: verify_standing_def res_iff check_standing_iff status_current_def freshness_bound_def
      in_window_def permitted_def)

section \<open>What a replayed closure holds\<close>

lemma try_map_nth: "try_map f xs = Inr ys \<Longrightarrow> i < length xs \<Longrightarrow> f (xs ! i) = Inr (ys ! i)"
  by (induction xs arbitrary: ys i) (auto simp: res_iff nth_Cons split: nat.splits)

definition asserting_entries :: "('doc, 'delta, 'bundle, 'v) crdt \<Rightarrow> 'doc \<Rightarrow> method_entry list" where
  "asserting_entries C D = sort_key entry_method_id (filter asserts (doc_methods C D))"

lemma replay_iff:
  "replay_resolver_closure X C bundle expected_did rid fetched_at = Inr ob \<longleftrightarrow>
   (\<exists>root multibase fresh D methods.
      filter (delta_is_root C) (bundle_deltas C bundle) = [root] \<and> delta_added_key C root = Some multibase \<and>
      doc_new C multibase = Some fresh \<and> doc_did C fresh = expected_did \<and>
      merge_verified_bundle C fresh bundle = Inr D \<and>
      try_map (asserting_key_of X (doc_did C D)) (enumerate 0 (asserting_entries C D)) = Inr methods \<and>
      ob = \<lparr>ob_resolver_id = rid, ob_did = doc_did C D, ob_did_recomputed_ok = True,
        ob_deltas_verified = True, ob_locally_closed = True, ob_deactivated = doc_deactivated C D,
        ob_assertion_methods = methods, ob_revoked = doc_revoked C D,
        ob_also_known_as = doc_also_known_as C D, ob_fetched_at = fetched_at\<rparr>)"
  unfolding replay_resolver_closure_def asserting_entries_def Let_def
  by (auto simp: res_iff split: list.splits if_splits)

lemma replayed_method:
  assumes "try_map (asserting_key_of X dd) (enumerate 0 es) = Inr methods" "i < length es"
  shows "\<exists>encoded key. public_key_multibase (es ! i) = ''u'' @ encoded \<and> b64_decode_vec X encoded = Some key \<and>
    length key = 32 \<and> methods ! i = \<lparr>cm_id = dd @ ''#jwk-'' @ dec_nat i, cm_kind = ''JsonWebKey'',
      cm_public_key = key, cm_has_private_component = False\<rparr>"
  using try_map_nth [OF assms(1), of i] assms(2)
  by (auto simp: asserting_key_of_def nth_enumerate_eq res_iff strip_prefix_Some_iff split: if_splits)

lemma dec_nat_inject: "dec_nat i = dec_nat j \<longleftrightarrow> i = j"
  by (metis dec_value_dec_nat)

text \<open>Step 6 finds, under the fragment \<open>#jwk-i\<close>, the key at place \<open>i\<close> and no other.\<close>

lemma find_numbered:
  assumes "\<And>i. i < length xs \<Longrightarrow> f (xs ! i) = dd @ ''#jwk-'' @ dec_nat i"
  shows "List.find (\<lambda>m. f m = k) xs = Some m \<longleftrightarrow> (\<exists>i < length xs. k = dd @ ''#jwk-'' @ dec_nat i \<and> m = xs ! i)"
proof -
  have d: "f (xs ! i) = f (xs ! j) \<longleftrightarrow> i = j" if "i < length xs" "j < length xs" for i j
    using assms that dec_nat_inject by simp
  show ?thesis
  proof
    assume "List.find (\<lambda>m. f m = k) xs = Some m"
    then obtain i where "i < length xs" "f (xs ! i) = k" "m = xs ! i" by (auto simp: find_Some_iff)
    then show "\<exists>i < length xs. k = dd @ ''#jwk-'' @ dec_nat i \<and> m = xs ! i" using assms by metis
  next
    assume "\<exists>i < length xs. k = dd @ ''#jwk-'' @ dec_nat i \<and> m = xs ! i"
    then obtain i where i: "i < length xs" "k = f (xs ! i)" "m = xs ! i" using assms by metis
    then have "\<forall>j < i. f (xs ! j) \<noteq> k" using d by (metis less_trans nat_neq_iff)
    then show "List.find (\<lambda>m. f m = k) xs = Some m" using i unfolding find_Some_iff by metis
  qed
qed

section \<open>Resolvers to evaluate\<close>

lemma sample_resolvers: "map resolver_id (state_resolvers sample_application) = [''r1'']"
proof -
  define P where "P = projr (profile_from_value sample_externs sample_profile [])"
  have P: "P = sample_application\<lparr>profile_canonical := [], profile_digest := sha256_digest sample_externs []\<rparr>"
    unfolding P_def by (rule sample_application_value)
  have "map resolver_id (state_resolvers P) = [''r1'']" unfolding P_def by code_simp
  then show ?thesis by (simp add: P)
qed

definition sample_observation :: resolver_observation where
  "sample_observation = \<lparr>ob_resolver_id = ''r1'', ob_did = ''did:crdt:h'', ob_did_recomputed_ok = True,
     ob_deltas_verified = True, ob_locally_closed = True, ob_deactivated = False,
     ob_assertion_methods = [\<lparr>cm_id = ''did:crdt:h#jwk-0'', cm_kind = ''JsonWebKey'',
       cm_public_key = sk_public sample_externs ''home-key'', cm_has_private_component = False\<rparr>],
     ob_revoked = [''did:crdt:h#grant-other''], ob_also_known_as = [acct_text sample_account],
     ob_fetched_at = 1700000070\<rparr>"

definition sample_agreed :: agreed_closure where
  "sample_agreed = \<lparr>ac_did = ''did:crdt:h'', ac_did_recomputed_ok = True, ac_deltas_verified = True,
     ac_locally_closed = True, ac_deactivated = False,
     ac_assertion_methods = ob_assertion_methods sample_observation,
     ac_revoked = [''did:crdt:h#grant-other''], ac_also_known_as = [acct_text sample_account],
     ac_oldest_fetched_at = 1700000070\<rparr>"

definition sample_request :: grant_request where
  "sample_request = \<lparr>rq_profile = sample_application, rq_account = sample_account,
     rq_device_public_key = sample_device_key, rq_operation_permissions = [sample_permission],
     rq_now = 1700000100, rq_clock_skew = 5\<rparr>"

definition sample_grant_evidence :: grant_evidence where
  "sample_grant_evidence = \<lparr>ge_issuer = sample_issuer, ge_jrd = sample_jrd, ge_projection = Some BitUnset,
     ge_challenge = grant_challenge, ge_signature = sign_proof sample_externs grant_challenge sample_device_key,
     ge_session = ''s1''\<rparr>"

definition sample_bundle :: "sample_delta list" where
  "sample_bundle = [SampleGenesis (''u'' @ b64_encode_string sample_externs sample_device_key)]"

definition sample_root :: rust_str where
  "sample_root = ''did:crdt:u'' @ b64_encode_string sample_externs sample_device_key"

lemma sample_agreement: "agree_closures sample_application [sample_observation] = Inr sample_agreed"
proof -
  have "resolver_id ` set (state_resolvers sample_application) = {''r1''}"
    using sample_resolvers by (metis list.set_map list.simps(15) empty_set)
  then show ?thesis
    by (simp add: agree_closures_iff union_of_def same_facts_def sample_observation_def sample_agreed_def)
qed

lemma sample_state: "issuer_state_of sample_agreed 1700000100 = sample_issuer"
  by (simp add: issuer_state_of_def sample_agreed_def sample_issuer_def sample_observation_def sample_method_def
      closure_age_def i64_checked_sub_def is_i64_def i64_min_def i64_max_def)

lemma sample_verified:
  "verify_session_establishment sample_externs sample_request sample_grant_evidence sample_octets_issued =
   Inr (verified_of sample_grant)"
proof -
  have "expectation_of sample_request = sample_expectation" "evidence_of sample_grant_evidence = sample_evidence"
    by (simp_all add: expectation_of_def sample_request_def sample_expectation_def evidence_of_def
        sample_grant_evidence_def sample_evidence_def)
  then show ?thesis
    using sample_accepted
    by (simp add: verify_session_establishment_def) (simp add: sample_grant_evidence_def sample_issuer_def)
qed

section \<open>Properties\<close>

text \<open>
  C17. The union of the resolvers' revocations is exact: it is formed when there is an observation,
  every one comes from a different declared resolver, and then it is the sorted list without
  repetition of precisely the ids that some observation reports; in every other case the answer is
  the quorum error.
\<close>

theorem resolver_union_exact:
  "(union_resolver_revocations P obs = Inr ids \<longleftrightarrow>
     obs \<noteq> [] \<and> distinct (map rr_resolver_id obs) \<and>
     rr_resolver_id ` set obs \<subseteq> resolver_id ` set (state_resolvers P) \<and>
     sorted ids \<and> distinct ids \<and> set ids = (\<Union>ob \<in> set obs. set (rr_revoked ob))) \<and>
   (union_resolver_revocations P obs \<in> range Inr \<union> {Inl ResolverQuorum})"
proof -
  have "union_resolver_revocations P obs \<in> range Inr \<union> {Inl ResolverQuorum}"
    by (cases "union_resolver_revocations P obs") (auto dest: union_resolver_revocations_Inl)
  then show ?thesis unfolding union_resolver_revocations_iff union_of_def by simp
qed

text \<open>
  C18. One resolver is enough to revoke: if any observation of an agreed set reports a grant's id as
  revoked, then at every later time, whatever the other resolvers omit, no session is established
  with that grant, it is not staged, and no frame of a session that holds it stands.
\<close>

theorem any_resolver_revokes:
  assumes "agree_closures P obs = Inr ac" "ob \<in> set obs" "grant_id g \<in> set (ob_revoked ob)"
    and "ge_issuer ge = issuer_state_of ac now" "se_issuer se = issuer_state_of ac now"
  shows "verify_session_establishment X rq ge b \<noteq> Inr (verified_of g) \<and>
    \<not> (\<exists>sg. verify_inactive_staging X rq (issuer_state_of ac now) reading b = Inr sg \<and> sg_grant_id sg = grant_id g) \<and>
    verify_standing (verified_of g) sr se \<noteq> Inr ()"
proof -
  have r: "grant_id g \<in> set (revoked_credential_ids (issuer_state_of ac now))"
    using assms(1-3) by (auto simp: agree_closures_iff union_of_def issuer_state_of_def)
  have "verify_session_establishment X rq ge b \<noteq> Inr (verified_of g)"
  proof
    assume "verify_session_establishment X rq ge b = Inr (verified_of g)"
    then obtain g' where "authorised X b (expectation_of rq) (evidence_of ge) True True (ge_issuer ge) g'"
      "verified_of g = verified_of g'" unfolding establishment_iff by blast
    then show False using r assms(4) authorised_status by (auto simp: verified_of_def status_current_def)
  qed
  moreover have "\<not> (\<exists>sg. verify_inactive_staging X rq (issuer_state_of ac now) reading b = Inr sg \<and>
      sg_grant_id sg = grant_id g)"
    using r by (auto simp: verify_inactive_staging_def res_iff Let_def stage_iff status_current_def
        dest!: authorised_status split: if_splits)
  moreover have "verify_standing (verified_of g) sr se \<noteq> Inr ()"
    using r assms(5) by (simp add: standing_iff verified_of_def)
  ultimately show ?thesis by blast
qed

theorem any_resolver_revokes_witness:
  "verify_standing (verified_of (sample_grant\<lparr>grant_id := ''did:crdt:h#grant-other''\<rparr>))
     \<lparr>sr_profile = sample_application, sr_operation_permissions = [], sr_now = 1700000100, sr_clock_skew = 5\<rparr>
     \<lparr>se_issuer = sample_issuer, se_projection = None\<rparr> \<noteq> Inr ()"
proof -
  have "sample_observation \<in> set [sample_observation]"
    and "grant_id (sample_grant\<lparr>grant_id := ''did:crdt:h#grant-other''\<rparr>) \<in> set (ob_revoked sample_observation)"
    and "ge_issuer sample_grant_evidence = issuer_state_of sample_agreed 1700000100"
    and "se_issuer \<lparr>se_issuer = sample_issuer, se_projection = None\<rparr> = issuer_state_of sample_agreed 1700000100"
    by (simp_all add: sample_observation_def sample_state sample_grant_evidence_def)
  from any_resolver_revokes [OF sample_agreement this] show ?thesis by blast
qed

text \<open>
  The age bound covers every resolver that was asked: under a recognised profile, a session is
  established with an agreed closure only when each of its observations was fetched within the last
  300 seconds of the verifier's clock, and the oldest of them not in its future.
\<close>

theorem establishment_fresh:
  assumes "verify_session_establishment X rq ge b = Inr vg"
    and "ge_issuer ge = issuer_state_of ac (rq_now rq)" "agree_closures P obs = Inr ac" "ob \<in> set obs"
    and "recognise_profile X octs = Inr (rq_profile rq)"
  shows "rq_now rq - ob_fetched_at ob \<le> session_establishment_bound (revocation (rq_profile rq)) \<and>
    rq_now rq - ob_fetched_at ob \<le> 300 \<and> Min (ob_fetched_at ` set obs) \<le> rq_now rq"
proof -
  let ?bound = "session_establishment_bound (revocation (rq_profile rq))"
  have "revocation_ok (revocation (rq_profile rq))"
    using recognise_profile_ok(1) [OF assms(5)] by (simp add: profile_ok_def)
  then have b: "?bound \<le> 300" by (auto simp: revocation_ok_def session_establishment_bound_def)
  obtain g where "authorised X b (expectation_of rq) (evidence_of ge) True True (ge_issuer ge) g"
    using assms(1) by (auto simp: establishment_iff)
  then have "closure_age (rq_now rq) (ac_oldest_fetched_at ac) \<le> ?bound"
    using assms(2)
    by (auto dest!: authorised_status simp: status_current_def freshness_bound_def expectation_of_def issuer_state_of_def)
  then have "0 \<le> rq_now rq - ac_oldest_fetched_at ac \<and> rq_now rq - ac_oldest_fetched_at ac \<le> ?bound"
    using b by (intro closure_age_bounded) (simp_all add: i64_max_def)
  moreover have "ac_oldest_fetched_at ac = Min (ob_fetched_at ` set obs)"
    using assms(3) by (simp add: agree_closures_iff)
  moreover have "Min (ob_fetched_at ` set obs) \<le> ob_fetched_at ob" using assms(4) by simp
  ultimately show ?thesis using b by linarith
qed

theorem establishment_fresh_witness: "1700000100 - ob_fetched_at sample_observation \<le> 300"
proof -
  have "ge_issuer sample_grant_evidence = issuer_state_of sample_agreed (rq_now sample_request)"
    "sample_observation \<in> set [sample_observation]"
    "recognise_profile sample_externs sample_octets = Inr (rq_profile sample_request)"
    using recognise_sample by (simp_all add: sample_grant_evidence_def sample_request_def sample_state)
  from establishment_fresh [OF sample_verified this(1) sample_agreement this(2,3)]
  show ?thesis by (simp add: sample_request_def)
qed

text \<open>
  C19. Standing is decided by the current state alone and needs no credential octets: a frame of an
  established session stands exactly when a fresh, closed closure from a state resolver does not
  list the grant's id, the projected bit is not set, the clock is in the grant's window, and the
  permissions lie between what the frame needs and what the profile declares; and the grant is the
  one that was established, for the requested device and account.
\<close>

theorem standing_after_establishment:
  assumes "verify_session_establishment X rq ge b = Inr vg"
  shows "(verify_standing vg sr se = Inr () \<longleftrightarrow>
      source_of (se_issuer se) = StateResolver \<and>
      closure_age_seconds (se_issuer se) \<le> max_closure_age_seconds (revocation (sr_profile sr)) \<and>
      locally_closed (se_issuer se) \<and> se_projection se \<noteq> Some BitSet \<and>
      vg_grant_id vg \<notin> set (revoked_credential_ids (se_issuer se)) \<and>
      valid_from (vg_grant vg) \<le> i64_add (sr_now sr) (sr_clock_skew sr) \<and>
      i64_sub (sr_now sr) (sr_clock_skew sr) < vg_valid_until vg \<and>
      lifetime_seconds (vg_grant vg) \<le> max_grant_lifetime_seconds (revocation (sr_profile sr)) \<and>
      set (sr_operation_permissions sr) \<subseteq> set (vg_permissions vg) \<and>
      set (vg_permissions vg) \<subseteq> set (allowed_permissions (sr_profile sr))) \<and>
    vg_device_public_key vg = rq_device_public_key rq \<and> vg_account_did vg = closure_did (ge_issuer ge) \<and>
    acct_text (account (vg_grant vg)) = acct_text (rq_account rq)"
proof -
  obtain g where "authorised X b (expectation_of rq) (evidence_of ge) True True (ge_issuer ge) g" "vg = verified_of g"
    using assms by (auto simp: establishment_iff)
  then have "fields_match X (expectation_of rq) (ge_issuer ge) g" and vg: "vg = verified_of g"
    by (simp_all add: authorised_def)
  then have "device_public_key g = rq_device_public_key rq" "issuer g = closure_did (ge_issuer ge)"
    "acct_text (account g) = acct_text (rq_account rq)"
    by (simp_all add: fields_match_def expectation_of_def)
  then show ?thesis unfolding standing_iff by (simp add: vg verified_of_def)
qed

theorem standing_after_establishment_witness:
  "verify_standing (verified_of sample_grant)
     \<lparr>sr_profile = sample_application, sr_operation_permissions = [sample_permission], sr_now = 1700000200,
      sr_clock_skew = 5\<rparr> \<lparr>se_issuer = sample_issuer, se_projection = None\<rparr> = Inr ()"
proof -
  have "lifetime_seconds sample_grant = 3600"
    by (simp add: lifetime_seconds_def sample_grant_fields i64_sub_exact is_i64_def i64_min_def i64_max_def)
  moreover have "grant_id sample_grant \<notin> set (revoked_credential_ids sample_issuer)"
    using sample_status by (simp add: status_current_def)
  moreover have "closure_age_seconds sample_issuer = 30" "locally_closed sample_issuer"
      "source_of sample_issuer = StateResolver"
    by (simp_all add: sample_issuer_def)
  moreover note fields = sample_grant_fields(5-7) sample_application_fields(3-5)
  ultimately show ?thesis
    by (subst conjunct1 [OF standing_after_establishment [OF sample_verified]])
       (simp add: verified_of_def fields i64_add_exact i64_sub_exact is_i64_def i64_min_def i64_max_def)
qed

end
