(* ===== verification/Scope.thy ===== *)
theory Scope
  imports Profile Codec
begin

text \<open>
  The opaque account scope (\<open>scope.rs\<close>) and the provider hint (\<open>provider_hint.rs\<close>): two small closed
  values carried by an offer. The lemmas give the exact language of a scope and the exact document
  of a hint.
\<close>

section \<open>Account scopes\<close>

definition SCOPE_OCTETS :: nat where "SCOPE_OCTETS = 32"
definition SCOPE_CHARS :: nat where "SCOPE_CHARS = 43"
definition FINAL_CHARS :: rust_str where "FINAL_CHARS = ''AEIMQUYcgkosw048''"

datatype scope_error =
    ScopeWrongLength | ScopeBadAlphabet | ScopeNotCanonical | ScopeWrongDecodedLength | ScopeUnavailable

record account_scope_id =
  scope_text :: rust_str
  scope_octets :: octets

definition scope_codec_error :: "codec_error \<Rightarrow> scope_error" where
  "scope_codec_error e =
     (case e of
        WrongLength \<Rightarrow> ScopeWrongLength
      | BadAlphabet \<Rightarrow> ScopeBadAlphabet
      | WrongDecodedLength \<Rightarrow> ScopeWrongDecodedLength
      | codec_error.NotCanonical \<Rightarrow> ScopeNotCanonical)"

definition parse_scope :: "externs \<Rightarrow> rust_str \<Rightarrow> scope_error + account_scope_id" where
  "parse_scope X t =
     (if length t \<noteq> SCOPE_CHARS then Inl ScopeWrongLength
      else if \<not> list_all (\<lambda>b. is_ascii_alphanumeric b \<or> b = CHR ''-'' \<or> b = CHR ''_'') t
      then Inl ScopeBadAlphabet
      else if t ! (SCOPE_CHARS - 1) \<notin> set FINAL_CHARS then Inl ScopeNotCanonical
      else
      and_then (map_err scope_codec_error (decode_b64url_32 X t)) (\<lambda>octs.
      Inr \<lparr>scope_text = t, scope_octets = octs\<rparr>))"

definition scope_from_octets :: "externs \<Rightarrow> octets \<Rightarrow> account_scope_id" where
  "scope_from_octets X octs = \<lparr>scope_text = b64url X octs, scope_octets = octs\<rparr>"

definition debug_scope :: "account_scope_id \<Rightarrow> rust_str" where
  "debug_scope s = ''AccountScopeId(<redacted>)''"

text \<open>
  The contract's grammar of the last character is a law of the encoder: two octets in the last group
  leave two pad bits, so its index is divisible by four.
\<close>

locale base64ct_tail = base64ct +
  assumes encode_tail:
    "length bs mod 3 = 2 \<Longrightarrow> b64_encode_string X bs ! (length (b64_encode_string X bs) - 1) \<in> set FINAL_CHARS"
begin

lemma parse_scope_encode:
  assumes "length bs = 32"
  shows "parse_scope X (b64url X bs) = Inr \<lparr>scope_text = b64url X bs, scope_octets = bs\<rparr>"
proof -
  have "decode_b64url_32 X (b64url X bs) = Inr bs"
    using canonical_codec.dec_enc [OF b64url_codec [OF base64ct_axioms, of 32]] assms
    by (simp add: decode_b64url_32_def)
  moreover have "length (b64url X bs) = 43"
    using encode_length [of bs] assms by (simp add: b64url_def unpadded_len_def)
  moreover have "b64url X bs ! 42 \<in> set FINAL_CHARS"
    using encode_tail [of bs] encode_length [of bs] assms by (simp add: b64url_def unpadded_len_def)
  moreover have "list_all (\<lambda>b. is_ascii_alphanumeric b \<or> b = CHR ''-'' \<or> b = CHR ''_'') (b64url X bs)"
    using encode_alphabet [of bs] by (simp add: b64url_def list_all_iff is_b64url_char_def)
  ultimately show ?thesis by (simp add: parse_scope_def SCOPE_CHARS_def)
qed

lemma parse_scope_exact:
  "parse_scope X t = Inr s \<longleftrightarrow> (\<exists>octs. length octs = 32 \<and> s = scope_from_octets X octs \<and> t = scope_text s)"
proof
  assume "parse_scope X t = Inr s"
  then obtain octs where "decode_b64url_32 X t = Inr octs" "s = \<lparr>scope_text = t, scope_octets = octs\<rparr>"
    by (auto simp: parse_scope_def res_iff split: if_splits)
  then show "\<exists>octs. length octs = 32 \<and> s = scope_from_octets X octs \<and> t = scope_text s"
    using canonical_codec.dec_Inr_iff [OF b64url_codec [OF base64ct_axioms, of 32]]
    by (auto simp: decode_b64url_32_def scope_from_octets_def)
next
  assume "\<exists>octs. length octs = 32 \<and> s = scope_from_octets X octs \<and> t = scope_text s"
  then show "parse_scope X t = Inr s" by (auto simp: scope_from_octets_def parse_scope_encode)
qed

end

lemma rfc4648_encode_tail:
  "length bs mod 3 = 2 \<Longrightarrow> rfc4648_encode bs \<noteq> [] \<and> last (rfc4648_encode bs) \<in> set FINAL_CHARS"
proof (induction bs rule: rfc4648_encode.induct)
  case (3 a b)
  have t: "list_all (\<lambda>i. rfc4648_char (i * 4) \<in> set FINAL_CHARS) [0..<16]" by code_simp
  have "code b mod 16 < 16" by simp
  then show ?case using t by (auto simp: list_all_iff)
next
  case (4 a b c r)
  have "length (a # b # c # r) = length r + 3" by simp
  then have "length r mod 3 = 2" using "4.prems" by (simp only: mod_add_self2)
  with "4.IH" show ?case unfolding rfc4648_encode.simps(4) last_append by simp
qed simp_all

interpretation rfc4648_tail: base64ct_tail sample_externs
proof
  fix bs :: octets
  assume "length bs mod 3 = 2"
  from rfc4648_encode_tail [OF this]
  show "b64_encode_string sample_externs bs ! (length (b64_encode_string sample_externs bs) - 1) \<in> set FINAL_CHARS"
    using last_conv_nth [of "rfc4648_encode bs"] by (simp add: sample_externs_def)
qed

section \<open>Provider hints\<close>

record provider_hint =
  hint_application_id :: rust_str
  hint_profile_version :: int
  hint_provider_id :: rust_str
  hint_descriptor_digest :: rust_str
  hint_offer_digest :: rust_str

datatype hint_error =
    HintMalformed | HintUnknownMember | CarriesAccountScope | ApplicationMismatch
  | UnsupportedProfileVersion | UnknownProvider | DescriptorMismatch | HintOfferMismatch

definition HINT_MEMBERS :: "rust_str list" where
  "HINT_MEMBERS = [''applicationId'', ''profileVersion'', ''providerId'', ''descriptorDigest'', ''offerDigest'']"

definition hint_to_json :: "provider_hint \<Rightarrow> json" where
  "hint_to_json h = Object
     [(''applicationId'', String (hint_application_id h)),
      (''profileVersion'', Integer (hint_profile_version h)),
      (''providerId'', String (hint_provider_id h)),
      (''descriptorDigest'', String (hint_descriptor_digest h)),
      (''offerDigest'', String (hint_offer_digest h))]"

definition hint_text :: "json \<Rightarrow> rust_str \<Rightarrow> hint_error + rust_str" where
  "hint_text j name = ok_or HintMalformed (str_of j name)"

definition recognise_hint :: "json \<Rightarrow> hint_error + provider_hint" where
  "recognise_hint j =
     and_then (ok_or HintMalformed (as_object j)) (\<lambda>members.
     and_then (try_each (\<lambda>(name, _).
       if name = ''accountScopeId'' then Inl CarriesAccountScope
       else if name \<notin> set HINT_MEMBERS then Inl HintUnknownMember
       else Inr ()) members) (\<lambda>_.
     and_then (hint_text j ''applicationId'') (\<lambda>application.
     and_then (ok_or HintMalformed (int_of j ''profileVersion'')) (\<lambda>version.
     and_then (hint_text j ''providerId'') (\<lambda>provider.
     and_then (hint_text j ''descriptorDigest'') (\<lambda>descriptor.
     and_then (hint_text j ''offerDigest'') (\<lambda>offer.
     Inr \<lparr>hint_application_id = application, hint_profile_version = version, hint_provider_id = provider,
       hint_descriptor_digest = descriptor, hint_offer_digest = offer\<rparr>)))))))"

definition verify_hint :: "externs \<Rightarrow> provider_hint \<Rightarrow> application_profile \<Rightarrow> rust_str \<Rightarrow> hint_error + unit" where
  "verify_hint X h P expected_offer_digest =
     (if hint_application_id h \<noteq> app_text (application_id P) then Inl ApplicationMismatch
      else if hint_profile_version h \<noteq> PROFILE_VERSION then Inl UnsupportedProfileVersion
      else
      and_then (ok_or UnknownProvider
        (List.find (\<lambda>d. operator_id d = hint_provider_id h) (cbcl_pairing_relays P))) (\<lambda>descriptor.
      if b64url X (descriptor_digest descriptor) \<noteq> hint_descriptor_digest h then Inl DescriptorMismatch
      else if hint_offer_digest h \<noteq> expected_offer_digest then Inl HintOfferMismatch
      else Inr ()))"

lemma recognise_hint_iff:
  "recognise_hint j = Inr h \<longleftrightarrow>
     has_members j HINT_MEMBERS [] \<and> get j ''applicationId'' = Some (String (hint_application_id h)) \<and>
     get j ''profileVersion'' = Some (Integer (hint_profile_version h)) \<and>
     get j ''providerId'' = Some (String (hint_provider_id h)) \<and>
     get j ''descriptorDigest'' = Some (String (hint_descriptor_digest h)) \<and>
     get j ''offerDigest'' = Some (String (hint_offer_digest h))"
proof -
  have c: "(\<exists>members. as_object j = Some members \<and> try_each (\<lambda>(name, _).
       if name = ''accountScopeId'' then Inl CarriesAccountScope
       else if name \<notin> set HINT_MEMBERS then Inl HintUnknownMember else Inr ()) members = Inr ()) \<longleftrightarrow>
     (\<exists>ms. j = Object ms \<and> fst ` set ms \<subseteq> set HINT_MEMBERS)"
  proof -
    have "''accountScopeId'' \<notin> set HINT_MEMBERS" by (simp add: HINT_MEMBERS_def)
    then have "try_each (\<lambda>(name, _). if name = ''accountScopeId'' then Inl CarriesAccountScope
       else if name \<notin> set HINT_MEMBERS then Inl HintUnknownMember else Inr ()) ms = Inr () \<longleftrightarrow>
       fst ` set ms \<subseteq> set HINT_MEMBERS" for ms :: "(rust_str \<times> json) list"
      unfolding try_each_Inr_iff image_subset_iff by (intro ball_cong refl) (auto split: if_splits)
    then show ?thesis by (auto simp: accessor_Some_iff)
  qed
  have all: "set HINT_MEMBERS \<subseteq> fst ` set ms"
    if "get (Object ms) ''applicationId'' \<noteq> None" "get (Object ms) ''profileVersion'' \<noteq> None"
      "get (Object ms) ''providerId'' \<noteq> None" "get (Object ms) ''descriptorDigest'' \<noteq> None"
      "get (Object ms) ''offerDigest'' \<noteq> None" for ms
    using that unfolding get_Object_None HINT_MEMBERS_def by simp
  have "recognise_hint j = Inr h \<longleftrightarrow> (\<exists>ms. j = Object ms \<and> fst ` set ms \<subseteq> set HINT_MEMBERS) \<and>
     get j ''applicationId'' = Some (String (hint_application_id h)) \<and>
     get j ''profileVersion'' = Some (Integer (hint_profile_version h)) \<and>
     get j ''providerId'' = Some (String (hint_provider_id h)) \<and>
     get j ''descriptorDigest'' = Some (String (hint_descriptor_digest h)) \<and>
     get j ''offerDigest'' = Some (String (hint_offer_digest h))"
    unfolding c [symmetric] recognise_hint_def
    by (cases h) (auto simp: res_iff hint_text_def typed_member_iff)
  then show ?thesis using all by (auto simp: has_members_def)
qed

lemma recognise_hint_to_json: "recognise_hint (hint_to_json h) = Inr h"
  unfolding recognise_hint_iff by (simp add: hint_to_json_def has_members_def HINT_MEMBERS_def get_Object)

lemma verify_hint_iff:
  "verify_hint X h P d = Inr u \<longleftrightarrow>
     hint_application_id h = app_text (application_id P) \<and> hint_profile_version h = PROFILE_VERSION \<and>
     (\<exists>relay. List.find (\<lambda>d. operator_id d = hint_provider_id h) (cbcl_pairing_relays P) = Some relay \<and>
        b64url X (descriptor_digest relay) = hint_descriptor_digest h) \<and>
     hint_offer_digest h = d"
  by (auto simp: verify_hint_def res_iff)

end
