(* ===== verification/Ceremony.thy ===== *)
theory Ceremony
  imports Scope Grant
begin

text \<open>
  The two payloads of the pairing ceremony (\<open>ceremony.rs\<close>): the offer a device makes and the bundle
  that answers it. The lemmas give the exact language of both, and show that the digest recomputed
  from the members that were opened is the digest of the recognised offer.
\<close>

section \<open>Constants and types\<close>

definition MAX_PAYLOAD_OCTETS :: nat where "MAX_PAYLOAD_OCTETS = 69607"
definition MAX_PAYLOAD_DEPTH :: nat where "MAX_PAYLOAD_DEPTH = 8"
definition MAX_GRANT_CHARS :: nat where "MAX_GRANT_CHARS = 65536"
definition GRANT_MEDIA_TYPE :: rust_str where "GRANT_MEDIA_TYPE = ''application/vc+jwt''"
definition MAX_OFFER_WINDOW_SECONDS :: int where "MAX_OFFER_WINDOW_SECONDS = 120"

definition OFFER_CORE_MEMBERS :: "rust_str list" where
  "OFFER_CORE_MEMBERS =
     [''payloadVersion'', ''role'', ''ceremonyId'', ''requestId'', ''applicationId'', ''profileVersion'',
      ''profileDigest'', ''accountScopeId'', ''deviceDid'', ''deviceKeyJwk'', ''requestedPermissions'',
      ''issuedAt'', ''expiresAt'']"

definition OFFER_EXCLUDED_MEMBERS :: "rust_str list" where
  "OFFER_EXCLUDED_MEMBERS = [''enrollmentEvidence'', ''providerHint'']"

definition BUNDLE_MEMBERS :: "rust_str list" where
  "BUNDLE_MEMBERS =
     [''payloadVersion'', ''role'', ''ceremonyId'', ''requestId'', ''grantMediaType'', ''grant'', ''issuerClosure'']"

definition DEVICE_JWK_MEMBERS :: "rust_str list" where
  "DEVICE_JWK_MEMBERS = [''kty'', ''crv'', ''alg'', ''x'']"

definition PAYLOAD_LIMITS :: json_limits where
  "PAYLOAD_LIMITS = \<lparr>max_bytes = MAX_PAYLOAD_OCTETS, max_depth = MAX_PAYLOAD_DEPTH\<rparr>"

datatype ceremony_error =
    CeremonyJson json_error
  | CeremonyBadMember rust_str
  | CeremonyUnknownMember rust_str
  | CeremonyBadValue rust_str rust_str
  | PayloadTooLarge
  | OfferMismatch

definition ceremony_bad :: "rust_str \<Rightarrow> rust_str \<Rightarrow> ceremony_error" where
  "ceremony_bad p reason = CeremonyBadValue p reason"

record offer_core =
  oc_ceremony_id :: rust_str
  oc_request_id :: rust_str
  oc_application_id :: rust_str
  oc_profile_version :: int
  oc_profile_digest :: rust_str
  oc_account_scope_id :: rust_str
  oc_device_did :: rust_str
  oc_device_public_key :: octets
  oc_requested_permissions :: "rust_str list"
  oc_issued_at :: unix_seconds
  oc_expires_at :: unix_seconds

record offer_payload =
  op_core :: offer_core
  op_enrollment_evidence :: rust_str
  op_provider_hint :: json
  op_offer_digest :: rust_str

record bundle_payload =
  bp_ceremony_id :: rust_str
  bp_request_id :: rust_str
  bp_grant :: rust_str
  bp_issuer_closure :: "octets option"

section \<open>The offer\<close>

definition device_jwk :: "externs \<Rightarrow> octets \<Rightarrow> json" where
  "device_jwk X key = Object
     [(''kty'', String ''OKP''), (''crv'', String ''Ed25519''), (''alg'', String ''EdDSA''),
      (''x'', String (b64url X key))]"

definition core_to_json :: "externs \<Rightarrow> offer_core \<Rightarrow> json" where
  "core_to_json X c = Object
     [(''payloadVersion'', Integer 1),
      (''role'', String ''offer''),
      (''ceremonyId'', String (oc_ceremony_id c)),
      (''requestId'', String (oc_request_id c)),
      (''applicationId'', String (oc_application_id c)),
      (''profileVersion'', Integer (oc_profile_version c)),
      (''profileDigest'', String (oc_profile_digest c)),
      (''accountScopeId'', String (oc_account_scope_id c)),
      (''deviceDid'', String (oc_device_did c)),
      (''deviceKeyJwk'', device_jwk X (oc_device_public_key c)),
      (''requestedPermissions'', Array (map String (oc_requested_permissions c))),
      (''issuedAt'', String (format_date_time_stamp (oc_issued_at c))),
      (''expiresAt'', String (format_date_time_stamp (oc_expires_at c)))]"

definition offer_digest :: "externs \<Rightarrow> json \<Rightarrow> rust_str" where
  "offer_digest X core = b64url X (sha256_digest X (canonicalise core))"

definition core_digest :: "externs \<Rightarrow> offer_core \<Rightarrow> rust_str" where
  "core_digest X c = offer_digest X (core_to_json X c)"

definition digest_of_received_offer :: "externs \<Rightarrow> json \<Rightarrow> ceremony_error + rust_str" where
  "digest_of_received_offer X j =
     and_then (ok_or (CeremonyBadMember ''<root>'') (as_object j)) (\<lambda>members.
     let core = filter (\<lambda>(name, _). name \<notin> set OFFER_EXCLUDED_MEMBERS) members in
     if length core \<noteq> length OFFER_CORE_MEMBERS
     then Inl (ceremony_bad ''<root>'' ''offer_core does not hold exactly thirteen members'')
     else Inr (offer_digest X (Object core)))"

definition ceremony_text :: "json \<Rightarrow> rust_str \<Rightarrow> ceremony_error + rust_str" where
  "ceremony_text j name = ok_or (CeremonyBadMember name) (str_of j name)"

definition random_id :: "externs \<Rightarrow> rust_str \<Rightarrow> rust_str \<Rightarrow> ceremony_error + rust_str" where
  "random_id X t p =
     and_then (map_err (\<lambda>_. ceremony_bad p ''is not a canonical 32-octet base64url value'')
       (decode_b64url_32 X t)) (\<lambda>_.
     Inr t)"

definition ceremony_stamp :: "rust_str \<Rightarrow> rust_str \<Rightarrow> ceremony_error + unix_seconds" where
  "ceremony_stamp t p =
     map_err (\<lambda>e. case e of
         time_error.Malformed \<Rightarrow> ceremony_bad p ''is not a UTC XML Schema dateTimeStamp''
       | OutOfRange \<Rightarrow> ceremony_bad p ''names a date or time that does not exist'')
       (parse_date_time_stamp t)"

definition offer_members :: "json \<Rightarrow> ceremony_error + unit" where
  "offer_members j =
     and_then (ok_or (CeremonyBadMember ''<root>'') (as_object j)) (\<lambda>members.
     and_then (try_each (\<lambda>(name, _).
       ensure (\<not> (name \<notin> set OFFER_CORE_MEMBERS \<and> name \<notin> set OFFER_EXCLUDED_MEMBERS))
         (CeremonyUnknownMember name)) members) (\<lambda>_.
     try_each (\<lambda>name. ensure (get j name \<noteq> None) (CeremonyBadMember name))
       (OFFER_CORE_MEMBERS @ OFFER_EXCLUDED_MEMBERS)))"

definition recognise_device_jwk :: "externs \<Rightarrow> json \<Rightarrow> ceremony_error + octets" where
  "recognise_device_jwk X j =
     and_then (ok_or (ceremony_bad ''deviceKeyJwk'' ''is not an object'') (as_object j)) (\<lambda>members.
     and_then (try_each (\<lambda>(name, _).
       ensure (name \<in> set DEVICE_JWK_MEMBERS) (CeremonyUnknownMember (''deviceKeyJwk.'' @ name))) members) (\<lambda>_.
     if length members \<noteq> length DEVICE_JWK_MEMBERS
     then Inl (ceremony_bad ''deviceKeyJwk'' ''is not exactly the four declared members'')
     else if str_of j ''kty'' \<noteq> Some ''OKP'' \<or> str_of j ''crv'' \<noteq> Some ''Ed25519''
     then Inl (ceremony_bad ''deviceKeyJwk'' ''is not an OKP/Ed25519 key'')
     else if str_of j ''alg'' \<noteq> Some ALG
     then Inl (ceremony_bad ''deviceKeyJwk'' ''alg is not EdDSA'')
     else
     and_then (ok_or (ceremony_bad ''deviceKeyJwk.x'' ''is absent'') (str_of j ''x'')) (\<lambda>x.
     map_err (\<lambda>_. ceremony_bad ''deviceKeyJwk.x'' ''is not a canonical 32-octet base64url value'')
       (decode_b64url_32 X x))))"

definition recognise_permissions :: "json \<Rightarrow> ceremony_error + rust_str list" where
  "recognise_permissions j =
     and_then (ok_or (CeremonyBadMember ''requestedPermissions'') (array_of j ''requestedPermissions'')) (\<lambda>items.
     if items = [] then Inl (ceremony_bad ''requestedPermissions'' ''must be a non-empty set'')
     else
     and_then (try_map (\<lambda>item. ok_or (ceremony_bad ''requestedPermissions'' ''entry is not a string'')
       (as_str item)) items) (\<lambda>perms.
     if \<not> strictly_ascending perms
     then Inl (ceremony_bad ''requestedPermissions'' ''is unsorted or contains a duplicate'')
     else Inr perms))"

definition recognise_offer_json :: "externs \<Rightarrow> json \<Rightarrow> ceremony_error + offer_payload" where
  "recognise_offer_json X j =
     and_then (offer_members j) (\<lambda>_.
     if int_of j ''payloadVersion'' \<noteq> Some 1
     then Inl (ceremony_bad ''payloadVersion'' ''must be exactly 1'')
     else if str_of j ''role'' \<noteq> Some ''offer''
     then Inl (ceremony_bad ''role'' ''must be exactly `offer`'')
     else
     and_then (ceremony_text j ''ceremonyId'') (\<lambda>t1. and_then (random_id X t1 ''ceremonyId'') (\<lambda>ceremony.
     and_then (ceremony_text j ''requestId'') (\<lambda>t2. and_then (random_id X t2 ''requestId'') (\<lambda>request.
     and_then (ceremony_text j ''profileDigest'') (\<lambda>t3. and_then (random_id X t3 ''profileDigest'') (\<lambda>profile.
     and_then (ceremony_text j ''accountScopeId'') (\<lambda>scope.
     and_then (map_err (\<lambda>_. ceremony_bad ''accountScopeId'' ''is not a canonical account scope'')
       (parse_scope X scope)) (\<lambda>_.
     and_then (ceremony_text j ''deviceDid'') (\<lambda>device.
     and_then (ok_or (CeremonyBadMember ''deviceKeyJwk'') (get j ''deviceKeyJwk'')) (\<lambda>dj.
     and_then (recognise_device_jwk X dj) (\<lambda>key.
     and_then (map_err (\<lambda>_. ceremony_bad ''deviceDid'' ''does not encode deviceKeyJwk'')
       (matches_jwk X device key)) (\<lambda>_.
     and_then (recognise_permissions j) (\<lambda>perms.
     and_then (ceremony_text j ''issuedAt'') (\<lambda>t4. and_then (ceremony_stamp t4 ''issuedAt'') (\<lambda>issued.
     and_then (ceremony_text j ''expiresAt'') (\<lambda>t5. and_then (ceremony_stamp t5 ''expiresAt'') (\<lambda>expires.
     if expires \<le> issued \<or> i64_sub expires issued > MAX_OFFER_WINDOW_SECONDS
     then Inl (ceremony_bad ''expiresAt'' ''is not later than issuedAt by at most 120 seconds'')
     else
     and_then (ceremony_text j ''applicationId'') (\<lambda>aid.
     and_then (ok_or (CeremonyBadMember ''profileVersion'') (int_of j ''profileVersion'')) (\<lambda>version.
     and_then (digest_of_received_offer X j) (\<lambda>digest.
     and_then (ceremony_text j ''enrollmentEvidence'') (\<lambda>enrollment_evidence.
     Inr \<lparr>op_core = \<lparr>oc_ceremony_id = ceremony, oc_request_id = request, oc_application_id = aid,
            oc_profile_version = version, oc_profile_digest = profile, oc_account_scope_id = scope,
            oc_device_did = device, oc_device_public_key = key, oc_requested_permissions = perms,
            oc_issued_at = issued, oc_expires_at = expires\<rparr>,
          op_enrollment_evidence = enrollment_evidence,
          op_provider_hint = (case get j ''providerHint'' of Some v \<Rightarrow> v | None \<Rightarrow> Null),
          op_offer_digest = digest\<rparr>))))))))))))))))))))))"

definition recognise_offer :: "externs \<Rightarrow> octets \<Rightarrow> ceremony_error + offer_payload" where
  "recognise_offer X octs =
     (if length octs > MAX_PAYLOAD_OCTETS then Inl PayloadTooLarge
      else
      and_then (map_err CeremonyJson (recognise_json octs PAYLOAD_LIMITS)) (recognise_offer_json X))"

section \<open>The bundle\<close>

definition bundle_json :: "externs \<Rightarrow> rust_str \<Rightarrow> rust_str \<Rightarrow> rust_str \<Rightarrow> octets option \<Rightarrow> json" where
  "bundle_json X ceremony request g closure = Object
     ([(''payloadVersion'', Integer 1),
       (''role'', String ''bundle''),
       (''ceremonyId'', String ceremony),
       (''requestId'', String request),
       (''grantMediaType'', String GRANT_MEDIA_TYPE),
       (''grant'', String g)] @
      (case closure of Some c \<Rightarrow> [(''issuerClosure'', String (b64url X c))] | None \<Rightarrow> []))"

definition build_bundle ::
  "externs \<Rightarrow> rust_str \<Rightarrow> rust_str \<Rightarrow> rust_str \<Rightarrow> octets option \<Rightarrow> ceremony_error + octets" where
  "build_bundle X ceremony request g closure =
     (if length g > MAX_GRANT_CHARS then Inl PayloadTooLarge
      else
        let octs = canonicalise (bundle_json X ceremony request g closure) in
        if length octs > MAX_PAYLOAD_OCTETS then Inl PayloadTooLarge else Inr octs)"

definition bundle_members :: "json \<Rightarrow> ceremony_error + unit" where
  "bundle_members j =
     and_then (ok_or (CeremonyBadMember ''<root>'') (as_object j)) (\<lambda>members.
     and_then (try_each (\<lambda>(name, _). ensure (name \<in> set BUNDLE_MEMBERS) (CeremonyUnknownMember name)) members) (\<lambda>_.
     try_each (\<lambda>name. ensure (get j name \<noteq> None) (CeremonyBadMember name)) (take 6 BUNDLE_MEMBERS)))"

definition bundle_closure :: "externs \<Rightarrow> json \<Rightarrow> ceremony_error + octets option" where
  "bundle_closure X j =
     (case get j ''issuerClosure'' of
        None \<Rightarrow> Inr None
      | Some v \<Rightarrow>
          and_then (ok_or (ceremony_bad ''issuerClosure'' ''is not a string'') (as_str v)) (\<lambda>t.
          and_then (ok_or (ceremony_bad ''issuerClosure'' ''is not canonical base64url'') (b64_decode_vec X t)) (\<lambda>c.
          Inr (Some c))))"

definition recognise_bundle_json :: "externs \<Rightarrow> json \<Rightarrow> ceremony_error + bundle_payload" where
  "recognise_bundle_json X j =
     and_then (bundle_members j) (\<lambda>_.
     if int_of j ''payloadVersion'' \<noteq> Some 1
     then Inl (ceremony_bad ''payloadVersion'' ''must be exactly 1'')
     else if str_of j ''role'' \<noteq> Some ''bundle''
     then Inl (ceremony_bad ''role'' ''must be exactly `bundle`'')
     else if str_of j ''grantMediaType'' \<noteq> Some GRANT_MEDIA_TYPE
     then Inl (ceremony_bad ''grantMediaType'' ''must be exactly application/vc+jwt'')
     else
     and_then (ceremony_text j ''grant'') (\<lambda>g.
     if length g > MAX_GRANT_CHARS then Inl PayloadTooLarge
     else
     and_then (bundle_closure X j) (\<lambda>closure.
     and_then (ceremony_text j ''ceremonyId'') (\<lambda>t1. and_then (random_id X t1 ''ceremonyId'') (\<lambda>ceremony.
     and_then (ceremony_text j ''requestId'') (\<lambda>t2. and_then (random_id X t2 ''requestId'') (\<lambda>request.
     Inr \<lparr>bp_ceremony_id = ceremony, bp_request_id = request, bp_grant = g, bp_issuer_closure = closure\<rparr>)))))))"

definition recognise_bundle :: "externs \<Rightarrow> octets \<Rightarrow> ceremony_error + bundle_payload" where
  "recognise_bundle X octs =
     (if length octs > MAX_PAYLOAD_OCTETS then Inl PayloadTooLarge
      else
      and_then (map_err CeremonyJson (recognise_json octs PAYLOAD_LIMITS)) (recognise_bundle_json X))"

definition bundle_matches_offer :: "bundle_payload \<Rightarrow> offer_core \<Rightarrow> ceremony_error + unit" where
  "bundle_matches_offer b c =
     (if bp_ceremony_id b \<noteq> oc_ceremony_id c \<or> bp_request_id b \<noteq> oc_request_id c
      then Inl OfferMismatch else Inr ())"

section \<open>The offer, exactly\<close>

lemma ceremony_text_iff: "ceremony_text j name = Inr s \<longleftrightarrow> get j name = Some (String s)"
  by (simp add: ceremony_text_def res_iff typed_member_iff)

lemma random_id_iff: "random_id X t p = Inr s \<longleftrightarrow> s = t \<and> is_ok (decode_b64url_32 X t)"
  by (auto simp: random_id_def res_iff not_isl_iff)

lemma ceremony_stamp_iff:
  "ceremony_stamp t p = Inr v \<longleftrightarrow> stamp_range v \<and> t = format_date_time_stamp v"
  by (simp add: ceremony_stamp_def res_iff stamp.dec_Inr_iff)

text \<open>
  The canonical text of an object depends only on the canonical texts of its members, by name.
\<close>

lemma inj_on_utf16_key:
  assumes "distinct (map fst ms)" "\<forall>(k, v) \<in> set ms. valid_utf8 k"
  shows "inj_on (\<lambda>(k, v). encode_utf16 k) (set ms)"
proof (rule inj_onI)
  fix m n
  assume m: "m \<in> set ms" "n \<in> set ms" and "(case m of (k, v) \<Rightarrow> encode_utf16 k) = (case n of (k, v) \<Rightarrow> encode_utf16 k)"
  then have "fst m = fst n"
    using assms(2) by (auto split: prod.splits intro: encode_utf16_inject)
  then show "m = n" using m assms(1) by (metis (no_types, lifting) distinct_map inj_onD)
qed

lemma utf16_sort_unique:
  assumes "distinct (map fst ms)" "distinct (map fst ns)" "set ms = set ns" "\<forall>(k, v) \<in> set ms. valid_utf8 k"
  shows "utf16_sort ms = utf16_sort ns"
proof -
  let ?key = "\<lambda>(k, v). encode_utf16 k"
  have inj: "inj_on ?key (set ms)" using assms(1,4) by (rule inj_on_utf16_key)
  have "distinct ms" "distinct ns" using assms(1,2) by (simp_all add: distinct_map)
  then have d: "distinct (map ?key (utf16_sort ms))" "distinct (map ?key (utf16_sort ns))"
    using inj assms(3) by (simp_all add: distinct_map utf16_sort_sort_key)
  show ?thesis
    by (rule map_sorted_distinct_set_unique [where f = ?key])
       (use inj assms(3) d in \<open>simp_all add: utf16_sort_sort_key\<close>)
qed

lemma canonicalise_by_members:
  assumes "distinct (map fst ms)" "distinct (map fst ns)" "\<forall>(k, v) \<in> set ms. valid_utf8 k"
    and "\<And>name. map_option canonicalise (map_of ms name) = map_option canonicalise (map_of ns name)"
  shows "canonicalise (Object ms) = canonicalise (Object ns)"
proof -
  let ?w = "\<lambda>(k, v). (k, write_value v)"
  have d: "distinct (map fst (map ?w xs))" if "distinct (map fst xs)" for xs
    using that by (simp add: comp_def case_prod_beta)
  have c: "canonicalise = write_value" by (rule ext) (simp add: canonicalise_def)
  have "map_of (map ?w ms) = map_of (map ?w ns)"
    using assms(4) unfolding c by (simp add: map_of_map fun_eq_iff)
  then have "set (map ?w ms) = set (map ?w ns)"
    using map_of_inject_set [OF d d] assms(1,2) by blast
  moreover have "\<forall>(k, t) \<in> set (map ?w ms). valid_utf8 k" using assms(3) by auto
  ultimately have s: "utf16_sort (map ?w ms) = utf16_sort (map ?w ns)"
    using utf16_sort_unique [OF d d] assms(1,2) by blast
  have m: "map write_member (utf16_sort xs) = map (\<lambda>(k, t). write_string k @ '':'' @ t) (utf16_sort (map ?w xs))" for xs
    unfolding utf16_sort_map map_map by (simp add: comp_def case_prod_beta write_member_def)
  show ?thesis unfolding canonicalise_def write_object m s ..
qed

section \<open>The device key\<close>

definition jwk_members_ok :: "externs \<Rightarrow> json \<Rightarrow> octets \<Rightarrow> bool" where
  "jwk_members_ok X j key \<longleftrightarrow>
     has_members j DEVICE_JWK_MEMBERS [] \<and> get j ''kty'' = Some (String ''OKP'') \<and>
     get j ''crv'' = Some (String ''Ed25519'') \<and> get j ''alg'' = Some (String ''EdDSA'') \<and>
     (\<exists>x. get j ''x'' = Some (String x) \<and> decode_b64url_32 X x = Inr key)"

lemma recognise_device_jwk_iff:
  assumes "json_wf j"
  shows "recognise_device_jwk X j = Inr key \<longleftrightarrow> jwk_members_ok X j key"
proof (cases j)
  case (Object ms)
  have d: "distinct (map fst ms)" using assms Object by simp
  have four: "length (map fst ms) = 4 \<longleftrightarrow> set DEVICE_JWK_MEMBERS \<subseteq> fst ` set ms"
    if "fst ` set ms \<subseteq> set DEVICE_JWK_MEMBERS"
  proof
    have c: "card (set DEVICE_JWK_MEMBERS) = 4" by (simp add: DEVICE_JWK_MEMBERS_def)
    have l: "length (map fst ms) = card (fst ` set ms)" using distinct_card [OF d] by simp
    show "set DEVICE_JWK_MEMBERS \<subseteq> fst ` set ms" if "length (map fst ms) = 4"
      using card_subset_eq [OF _ \<open>fst ` set ms \<subseteq> set DEVICE_JWK_MEMBERS\<close>] that c l by simp
    show "length (map fst ms) = 4" if "set DEVICE_JWK_MEMBERS \<subseteq> fst ` set ms"
      using that \<open>fst ` set ms \<subseteq> set DEVICE_JWK_MEMBERS\<close> c l by simp
  qed
  have "recognise_device_jwk X j = Inr key \<longleftrightarrow>
     fst ` set ms \<subseteq> set DEVICE_JWK_MEMBERS \<and> length (map fst ms) = 4 \<and> get j ''kty'' = Some (String ''OKP'') \<and>
     get j ''crv'' = Some (String ''Ed25519'') \<and> get j ''alg'' = Some (String ''EdDSA'') \<and>
     (\<exists>x. get j ''x'' = Some (String x) \<and> decode_b64url_32 X x = Inr key)"
    unfolding recognise_device_jwk_def typed_member_iff [symmetric] image_subset_iff
    by (auto simp: res_iff Object case_prod_beta ALG_def DEVICE_JWK_MEMBERS_def)
  then show ?thesis using four by (auto simp: jwk_members_ok_def has_members_def Object)
qed (auto simp: recognise_device_jwk_def jwk_members_ok_def has_members_def)

text \<open>The canonical text of a recognised device key is that of the key it decodes to.\<close>

lemma canonicalise_device_jwk:
  assumes "base64ct X" "json_wf j" "jwk_members_ok X j key"
  shows "canonicalise j = canonicalise (device_jwk X key)"
proof -
  obtain ms where ms: "j = Object ms" "fst ` set ms \<subseteq> set DEVICE_JWK_MEMBERS"
    using assms(3) by (auto simp: jwk_members_ok_def has_members_def)
  obtain x where x: "get j ''x'' = Some (String x)" "decode_b64url_32 X x = Inr key"
    using assms(3) by (auto simp: jwk_members_ok_def)
  then have "x = b64url X key"
    using canonical_codec.dec_Inr_iff [OF b64url_codec [OF assms(1), of 32]] by (simp add: decode_b64url_32_def)
  then have g: "map_of ms ''kty'' = Some (String ''OKP'')" "map_of ms ''crv'' = Some (String ''Ed25519'')"
    "map_of ms ''alg'' = Some (String ''EdDSA'')" "map_of ms ''x'' = Some (String (b64url X key))"
    using assms(3) x(1) by (simp_all add: jwk_members_ok_def ms get_Object)
  have "map_of ms name = map_of [(''kty'', String ''OKP''), (''crv'', String ''Ed25519''), (''alg'', String ''EdDSA''),
      (''x'', String (b64url X key))] name" for name
  proof (cases "name \<in> set DEVICE_JWK_MEMBERS")
    case True
    then show ?thesis using g by (auto simp: DEVICE_JWK_MEMBERS_def)
  next
    case False
    then have "map_of ms name = None" using ms(2) by (auto simp: map_of_eq_None_iff)
    with False show ?thesis by (auto simp: DEVICE_JWK_MEMBERS_def)
  qed
  then show ?thesis
    unfolding ms device_jwk_def using assms(2) ms by (intro canonicalise_by_members) auto
qed

section \<open>The offer as a document\<close>

lemma offer_members_iff: "offer_members j = Inr u \<longleftrightarrow> has_members j (OFFER_CORE_MEMBERS @ OFFER_EXCLUDED_MEMBERS) []"
proof (cases j)
  case (Object ms)
  have "(\<forall>name \<in> set (OFFER_CORE_MEMBERS @ OFFER_EXCLUDED_MEMBERS). get j name \<noteq> None) \<longleftrightarrow>
      set (OFFER_CORE_MEMBERS @ OFFER_EXCLUDED_MEMBERS) \<subseteq> fst ` set ms"
    unfolding Object by (simp only: get_Object_None not_not subset_iff Ball_def)
  moreover have "(\<forall>(name, v) \<in> set ms. \<not> (name \<notin> set OFFER_CORE_MEMBERS \<and> name \<notin> set OFFER_EXCLUDED_MEMBERS)) \<longleftrightarrow>
      fst ` set ms \<subseteq> set (OFFER_CORE_MEMBERS @ OFFER_EXCLUDED_MEMBERS)"
    by (auto simp: image_subset_iff)
  ultimately show ?thesis
    unfolding offer_members_def has_members_def Object
    by (simp add: res_iff case_prod_beta) (simp add: image_subset_iff case_prod_beta subset_iff Ball_def, blast)
qed (auto simp: offer_members_def has_members_def)

lemma recognise_permissions_iff:
  "recognise_permissions j = Inr perms \<longleftrightarrow>
     get j ''requestedPermissions'' = Some (Array (map String perms)) \<and> perms \<noteq> [] \<and> sorted_wrt (<) perms"
  unfolding recognise_permissions_def and_then_Inr_iff ok_or_Inr_iff typed_member_iff try_map_strings
    if_Inl_Inr_iff not_not strictly_ascending_iff
  by auto

text \<open>The members of the document and the recognised values, side by side.\<close>

definition offer_ok :: "externs \<Rightarrow> json \<Rightarrow> offer_payload \<Rightarrow> bool" where
  "offer_ok X j p \<longleftrightarrow>
     (let c = op_core p in
      has_members j (OFFER_CORE_MEMBERS @ OFFER_EXCLUDED_MEMBERS) [] \<and>
      get j ''payloadVersion'' = Some (Integer 1) \<and> get j ''role'' = Some (String ''offer'') \<and>
      get j ''ceremonyId'' = Some (String (oc_ceremony_id c)) \<and> is_ok (decode_b64url_32 X (oc_ceremony_id c)) \<and>
      get j ''requestId'' = Some (String (oc_request_id c)) \<and> is_ok (decode_b64url_32 X (oc_request_id c)) \<and>
      get j ''profileDigest'' = Some (String (oc_profile_digest c)) \<and> is_ok (decode_b64url_32 X (oc_profile_digest c)) \<and>
      get j ''accountScopeId'' = Some (String (oc_account_scope_id c)) \<and> is_ok (parse_scope X (oc_account_scope_id c)) \<and>
      get j ''deviceDid'' = Some (String (oc_device_did c)) \<and>
      (\<exists>dj. get j ''deviceKeyJwk'' = Some dj \<and> recognise_device_jwk X dj = Inr (oc_device_public_key c)) \<and>
      is_ok (matches_jwk X (oc_device_did c) (oc_device_public_key c)) \<and>
      get j ''requestedPermissions'' = Some (Array (map String (oc_requested_permissions c))) \<and>
      oc_requested_permissions c \<noteq> [] \<and> sorted_wrt (<) (oc_requested_permissions c) \<and>
      get j ''issuedAt'' = Some (String (format_date_time_stamp (oc_issued_at c))) \<and> stamp_range (oc_issued_at c) \<and>
      get j ''expiresAt'' = Some (String (format_date_time_stamp (oc_expires_at c))) \<and> stamp_range (oc_expires_at c) \<and>
      oc_issued_at c < oc_expires_at c \<and> oc_expires_at c - oc_issued_at c \<le> 120 \<and>
      get j ''applicationId'' = Some (String (oc_application_id c)) \<and>
      get j ''profileVersion'' = Some (Integer (oc_profile_version c)) \<and>
      digest_of_received_offer X j = Inr (op_offer_digest p) \<and>
      get j ''enrollmentEvidence'' = Some (String (op_enrollment_evidence p)) \<and>
      get j ''providerHint'' = Some (op_provider_hint p))"

lemma recognise_offer_json_iff: "recognise_offer_json X j = Inr p \<longleftrightarrow> offer_ok X j p"
proof -
  have sub: "stamp_range a \<Longrightarrow> stamp_range b \<Longrightarrow> i64_sub a b = a - b" for a b
    by (rule i64_sub_exact) (auto simp: stamp_range_def is_i64_def i64_min_def i64_max_def)
  have hint: "get j ''providerHint'' \<noteq> None" if h: "has_members j (OFFER_CORE_MEMBERS @ OFFER_EXCLUDED_MEMBERS) []"
  proof -
    obtain ms where ms: "j = Object ms" and sub: "set (OFFER_CORE_MEMBERS @ OFFER_EXCLUDED_MEMBERS) \<subseteq> fst ` set ms"
      using h by (auto simp: has_members_def)
    have "''providerHint'' \<in> set (OFFER_CORE_MEMBERS @ OFFER_EXCLUDED_MEMBERS)"
      by (simp add: OFFER_EXCLUDED_MEMBERS_def)
    then have "''providerHint'' \<in> fst ` set ms" using sub by blast
    then show ?thesis unfolding ms get_Object_None not_not .
  qed
  show ?thesis
    unfolding recognise_offer_json_def offer_ok_def Let_def and_then_Inr_iff offer_members_iff if_Inl_Inr_iff not_not
      ceremony_text_iff random_id_iff ok_or_Inr_iff map_err_Inr_iff ceremony_stamp_iff recognise_permissions_iff
      typed_member_iff not_isl_iff MAX_OFFER_WINDOW_SECONDS_def
    by (cases p, cases "op_core p") (use hint sub in \<open>auto simp: not_le not_less split: option.splits\<close>)
qed

lemma recognise_offer_iff:
  "recognise_offer X octs = Inr p \<longleftrightarrow>
     length octs \<le> MAX_PAYLOAD_OCTETS \<and> (\<exists>j. recognise_json octs PAYLOAD_LIMITS = Inr j \<and> offer_ok X j p)"
  by (auto simp: recognise_offer_def res_iff recognise_offer_json_iff not_less)

text \<open>The thirteen members of a recognised offer have the canonical texts of \<open>core_to_json\<close>.\<close>

lemma map_of_filter_names:
  "map_of (filter (\<lambda>(name, _). name \<notin> S) ms) name = (if name \<in> S then None else map_of ms name)"
  by (induction ms) auto

lemma core_member_texts:
  assumes "base64ct X" "json_wf j" "offer_ok X j p" "j = Object ms"
  shows "map_option canonicalise (map_of (filter (\<lambda>(name, _). name \<notin> set OFFER_EXCLUDED_MEMBERS) ms) name) =
    map_option canonicalise (get (core_to_json X (op_core p)) name)"
proof -
  let ?c = "op_core p"
  have names: "fst ` set ms \<subseteq> set OFFER_CORE_MEMBERS \<union> set OFFER_EXCLUDED_MEMBERS"
    using assms(3,4) by (auto simp: offer_ok_def Let_def has_members_def)
  obtain dj where dj: "get j ''deviceKeyJwk'' = Some dj" "recognise_device_jwk X dj = Inr (oc_device_public_key ?c)"
    using assms(3) by (auto simp: offer_ok_def Let_def)
  have wf: "json_wf dj" using json_wf_get [OF assms(2) dj(1)] .
  have jwk: "map_option canonicalise (map_of ms ''deviceKeyJwk'') = Some (canonicalise (device_jwk X (oc_device_public_key ?c)))"
    using canonicalise_device_jwk [OF assms(1) wf] dj recognise_device_jwk_iff [OF wf]
    by (simp add: assms(4) get_Object)
  have vals: "map_of ms ''payloadVersion'' = Some (Integer 1)" "map_of ms ''role'' = Some (String ''offer'')"
    "map_of ms ''ceremonyId'' = Some (String (oc_ceremony_id ?c))"
    "map_of ms ''requestId'' = Some (String (oc_request_id ?c))"
    "map_of ms ''applicationId'' = Some (String (oc_application_id ?c))"
    "map_of ms ''profileVersion'' = Some (Integer (oc_profile_version ?c))"
    "map_of ms ''profileDigest'' = Some (String (oc_profile_digest ?c))"
    "map_of ms ''accountScopeId'' = Some (String (oc_account_scope_id ?c))"
    "map_of ms ''deviceDid'' = Some (String (oc_device_did ?c))"
    "map_of ms ''requestedPermissions'' = Some (Array (map String (oc_requested_permissions ?c)))"
    "map_of ms ''issuedAt'' = Some (String (format_date_time_stamp (oc_issued_at ?c)))"
    "map_of ms ''expiresAt'' = Some (String (format_date_time_stamp (oc_expires_at ?c)))"
    using assms(3) by (simp_all add: offer_ok_def Let_def assms(4) get_Object)
  show ?thesis
  proof (cases "name \<in> set OFFER_CORE_MEMBERS")
    case True
    then have "name \<notin> set OFFER_EXCLUDED_MEMBERS" by (auto simp: OFFER_CORE_MEMBERS_def OFFER_EXCLUDED_MEMBERS_def)
    moreover have "map_option canonicalise (map_of ms name) = map_option canonicalise (get (core_to_json X ?c) name)"
      using True unfolding OFFER_CORE_MEMBERS_def set_simps insert_iff empty_iff
      by (elim disjE; simp only: core_to_json_def get_Object map_of.simps vals jwk; simp)
    ultimately show ?thesis by (simp add: map_of_filter_names)
  next
    case False
    then have "map_of (filter (\<lambda>(name, _). name \<notin> set OFFER_EXCLUDED_MEMBERS) ms) name = None"
      using names by (auto simp: map_of_filter_names map_of_eq_None_iff)
    moreover have "get (core_to_json X ?c) name = None"
      using False by (simp add: core_to_json_def get_Object OFFER_CORE_MEMBERS_def)
    ultimately show ?thesis by simp
  qed
qed

lemma received_digest:
  assumes "base64ct X" "json_wf j" "offer_ok X j p"
  shows "op_offer_digest p = core_digest X (op_core p)"
proof -
  obtain ms where ms: "j = Object ms" using assms(3) by (auto simp: offer_ok_def Let_def has_members_def)
  let ?core = "filter (\<lambda>(name, _). name \<notin> set OFFER_EXCLUDED_MEMBERS) ms"
  have "op_offer_digest p = offer_digest X (Object ?core)"
    using assms(3) by (auto simp: offer_ok_def Let_def digest_of_received_offer_def ms split: if_splits)
  moreover obtain ns where ns: "core_to_json X (op_core p) = Object ns" "distinct (map fst ns)"
    by (simp add: core_to_json_def)
  have "canonicalise (Object ?core) = canonicalise (Object ns)"
    using assms(2) core_member_texts [OF assms ms] ns
    by (intro canonicalise_by_members) (auto simp: ms get_Object distinct_map_filter)
  ultimately show ?thesis by (simp add: core_digest_def offer_digest_def ns)
qed

section \<open>Round trips\<close>

lemma has_members_doc: "fst ` set ms = set req \<Longrightarrow> has_members (Object ms) req []"
  by (simp add: has_members_def)

lemma map_sort_String: "map (sort_members \<circ> String) ps = map String ps"
  by simp

lemma device_jwk_ok:
  assumes "base64ct X" "length key = 32"
  shows "json_wf (device_jwk X key) \<Longrightarrow> recognise_device_jwk X (sort_members (device_jwk X key)) = Inr key"
proof -
  assume wf: "json_wf (device_jwk X key)"
  have "decode_b64url_32 X (b64url X key) = Inr key"
    using canonical_codec.dec_enc [OF b64url_codec [OF assms(1), of 32]] assms(2) by (simp add: decode_b64url_32_def)
  then have "jwk_members_ok X (device_jwk X key) key"
    by (simp add: jwk_members_ok_def device_jwk_def get_Object has_members_def DEVICE_JWK_MEMBERS_def)
  then have "jwk_members_ok X (sort_members (device_jwk X key)) key"
    using wf by (auto simp: jwk_members_ok_def has_members_sort_members get_sort_members)
  moreover have "json_wf (sort_members (device_jwk X key))"
    using wf by (auto simp: device_jwk_def distinct_utf16_sort)
  ultimately show ?thesis by (simp add: recognise_device_jwk_iff)
qed

lemma json_wf_sorted: "json_wf j \<Longrightarrow> json_wf (sort_members j)"
  using recognise_canonicalise [of j "\<lparr>max_bytes = length (canonicalise j), max_depth = json_depth j\<rparr>"]
    recognise_json_wf(1) by simp

text \<open>What the device must bring for its offer to be well formed.\<close>

definition core_ok :: "externs \<Rightarrow> offer_core \<Rightarrow> bool" where
  "core_ok X c \<longleftrightarrow>
     is_ok (decode_b64url_32 X (oc_ceremony_id c)) \<and> is_ok (decode_b64url_32 X (oc_request_id c)) \<and>
     is_ok (decode_b64url_32 X (oc_profile_digest c)) \<and> is_ok (parse_scope X (oc_account_scope_id c)) \<and>
     length (oc_device_public_key c) = 32 \<and> usable_key X (oc_device_public_key c) \<and>
     oc_device_did c = encode_did_key (oc_device_public_key c) \<and>
     oc_requested_permissions c \<noteq> [] \<and> sorted_wrt (<) (oc_requested_permissions c) \<and>
     stamp_range (oc_issued_at c) \<and> stamp_range (oc_expires_at c) \<and>
     oc_issued_at c < oc_expires_at c \<and> oc_expires_at c - oc_issued_at c \<le> 120 \<and>
     \<bar>oc_profile_version c\<bar> \<le> MAX_SAFE_INTEGER \<and> valid_utf8 (oc_application_id c) \<and>
     (\<forall>perm \<in> set (oc_requested_permissions c). valid_utf8 perm)"

lemma valid_utf8_id:
  assumes "base64ct X" "is_ok (decode_b64url_32 X t)"
  shows "valid_utf8 t"
proof -
  obtain octs where "decode_b64url_32 X t = Inr octs" using assms(2) by (auto simp: not_isl_iff)
  then have "t = b64url X octs"
    using canonical_codec.dec_Inr_iff [OF b64url_codec [OF assms(1), of 32]] by (simp add: decode_b64url_32_def)
  then show ?thesis using valid_utf8_b64url [OF assms(1)] by simp
qed

lemma parse_scope_decodes: "is_ok (parse_scope X t) \<Longrightarrow> is_ok (decode_b64url_32 X t)"
  by (auto simp: parse_scope_def not_isl_iff res_iff split: if_splits)

lemma core_wf:
  assumes X: "base64ct X" and c: "core_ok X c"
  shows "json_wf (core_to_json X c)" "json_wf (device_jwk X (oc_device_public_key c))"
proof -
  have lit: "valid_utf8 s" if "list_all (\<lambda>c. code c < 0x80) s" for s using that by (rule valid_utf8_ascii)
  show j: "json_wf (device_jwk X (oc_device_public_key c))"
    by (simp add: device_jwk_def lit valid_utf8_b64url [OF X])
  show "json_wf (core_to_json X c)"
    using c j valid_utf8_id [OF X] parse_scope_decodes valid_utf8_stamp valid_utf8_did_key
    by (simp add: core_to_json_def core_ok_def lit MAX_SAFE_INTEGER_def)
qed

text \<open>The complete payload: the core and the two members that carry its digest.\<close>

definition offer_document :: "externs \<Rightarrow> offer_core \<Rightarrow> rust_str \<Rightarrow> json \<Rightarrow> json" where
  "offer_document X c enrollment_evidence hint =
     (case core_to_json X c of Object ms \<Rightarrow>
        Object (ms @ [(''enrollmentEvidence'', String enrollment_evidence), (''providerHint'', hint)])
      | j \<Rightarrow> j)"

lemma offer_document_ok:
  assumes X: "base64ct X" and c: "core_ok X c" and wf: "valid_utf8 enrollment_evidence" "json_wf hint"
  shows "json_wf (offer_document X c enrollment_evidence hint)"
    and "offer_ok X (sort_members (offer_document X c enrollment_evidence hint))
      \<lparr>op_core = c, op_enrollment_evidence = enrollment_evidence, op_provider_hint = sort_members hint,
       op_offer_digest = core_digest X c\<rparr>"
proof -
  let ?j = "offer_document X c enrollment_evidence hint"
  obtain ms where ms: "core_to_json X c = Object ms" by (simp add: core_to_json_def)
  have j: "?j = Object (ms @ [(''enrollmentEvidence'', String enrollment_evidence), (''providerHint'', hint)])"
    by (simp add: offer_document_def ms)
  have names: "map fst ms = OFFER_CORE_MEMBERS"
    using ms by (auto simp: core_to_json_def OFFER_CORE_MEMBERS_def)
  have ev: "valid_utf8 ''enrollmentEvidence''" "valid_utf8 ''providerHint''" by (rule valid_utf8_ascii, simp)+
  have wfc: "json_wf (Object ms)" using core_wf(1) [OF X c] by (simp add: ms)
  have "distinct (map fst ms @ OFFER_EXCLUDED_MEMBERS)"
    unfolding names by (simp add: OFFER_CORE_MEMBERS_def OFFER_EXCLUDED_MEMBERS_def)
  then show wfj: "json_wf ?j"
    using wfc ev wf by (auto simp: j OFFER_EXCLUDED_MEMBERS_def)
  have mem: "has_members ?j (OFFER_CORE_MEMBERS @ OFFER_EXCLUDED_MEMBERS) []"
    unfolding j by (rule has_members_doc) (simp add: names [symmetric] OFFER_EXCLUDED_MEMBERS_def image_Un)
  have g: "get ?j name = (if name \<in> set OFFER_CORE_MEMBERS then get (core_to_json X c) name
      else if name = ''enrollmentEvidence'' then Some (String enrollment_evidence)
      else if name = ''providerHint'' then Some hint else None)" for name
  proof -
    have "map_of ms name = None \<longleftrightarrow> name \<notin> set OFFER_CORE_MEMBERS"
      unfolding names [symmetric] by (simp add: map_of_eq_None_iff)
    then show ?thesis
      unfolding j ms get_Object map_of_append by (auto simp: map_add_def split: option.splits)
  qed
  have gs: "get (sort_members ?j) name = map_option sort_members (get ?j name)" for name
    by (rule get_sort_members [OF wfj])
  have core: "name \<in> set OFFER_CORE_MEMBERS \<Longrightarrow>
      get (sort_members ?j) name = map_option sort_members (get (core_to_json X c) name)" for name
    by (simp add: gs g)
  have dj: "recognise_device_jwk X (sort_members (device_jwk X (oc_device_public_key c))) = Inr (oc_device_public_key c)"
    using c by (intro device_jwk_ok X core_wf(2) [OF X c]) (simp add: core_ok_def)
  let ?p = "\<lparr>op_core = c, op_enrollment_evidence = enrollment_evidence, op_provider_hint = sort_members hint,
       op_offer_digest = projr (digest_of_received_offer X (sort_members ?j))\<rparr>"
  obtain ns where ns: "sort_members ?j = Object ns" by (simp add: j)
  have d: "distinct (map fst ns)" using json_wf_sorted [OF wfj] ns by simp
  have "has_members (Object ns) (OFFER_CORE_MEMBERS @ OFFER_EXCLUDED_MEMBERS) []"
    unfolding ns [symmetric] has_members_sort_members by (rule mem)
  then have "fst ` set ns = set OFFER_CORE_MEMBERS \<union> set OFFER_EXCLUDED_MEMBERS"
    unfolding has_members_def json.inject by auto
  moreover have "fst ` set (filter (\<lambda>(name, _). name \<notin> S) ns) = fst ` set ns - S" for S by force
  moreover have "set OFFER_CORE_MEMBERS \<inter> set OFFER_EXCLUDED_MEMBERS = {}"
    by (simp add: OFFER_CORE_MEMBERS_def OFFER_EXCLUDED_MEMBERS_def)
  ultimately have "fst ` set (filter (\<lambda>(name, _). name \<notin> set OFFER_EXCLUDED_MEMBERS) ns) = set OFFER_CORE_MEMBERS"
    by (metis Diff_triv Un_Diff Diff_cancel sup_bot.right_neutral)
  moreover have "distinct (map fst (filter (\<lambda>(name, _). name \<notin> set OFFER_EXCLUDED_MEMBERS) ns))"
    using d by (rule distinct_map_filter)
  moreover have "card (set OFFER_CORE_MEMBERS) = length OFFER_CORE_MEMBERS"
    by (rule distinct_card) (simp add: OFFER_CORE_MEMBERS_def)
  ultimately have "length (filter (\<lambda>(name, _). name \<notin> set OFFER_EXCLUDED_MEMBERS) ns) = length OFFER_CORE_MEMBERS"
    using distinct_card by (metis (no_types, lifting) length_map list.set_map)
  then have digest: "digest_of_received_offer X (sort_members ?j) = Inr (op_offer_digest ?p)"
    by (simp add: digest_of_received_offer_def ns)
  have gets: "get (sort_members ?j) ''payloadVersion'' = Some (Integer 1)"
    "get (sort_members ?j) ''role'' = Some (String ''offer'')"
    "get (sort_members ?j) ''ceremonyId'' = Some (String (oc_ceremony_id c))"
    "get (sort_members ?j) ''requestId'' = Some (String (oc_request_id c))"
    "get (sort_members ?j) ''applicationId'' = Some (String (oc_application_id c))"
    "get (sort_members ?j) ''profileVersion'' = Some (Integer (oc_profile_version c))"
    "get (sort_members ?j) ''profileDigest'' = Some (String (oc_profile_digest c))"
    "get (sort_members ?j) ''accountScopeId'' = Some (String (oc_account_scope_id c))"
    "get (sort_members ?j) ''deviceDid'' = Some (String (oc_device_did c))"
    "get (sort_members ?j) ''deviceKeyJwk'' = Some (sort_members (device_jwk X (oc_device_public_key c)))"
    "get (sort_members ?j) ''requestedPermissions'' = Some (Array (map String (oc_requested_permissions c)))"
    "get (sort_members ?j) ''issuedAt'' = Some (String (format_date_time_stamp (oc_issued_at c)))"
    "get (sort_members ?j) ''expiresAt'' = Some (String (format_date_time_stamp (oc_expires_at c)))"
    by (subst core; simp add: OFFER_CORE_MEMBERS_def core_to_json_def get_Object)+
  have rest: "get (sort_members ?j) ''enrollmentEvidence'' = Some (String enrollment_evidence)"
    "get (sort_members ?j) ''providerHint'' = Some (sort_members hint)"
    by (simp_all add: gs g OFFER_CORE_MEMBERS_def)
  have "has_members (sort_members ?j) (OFFER_CORE_MEMBERS @ OFFER_EXCLUDED_MEMBERS) []"
    using mem by (simp only: has_members_sort_members)
  then have ok: "offer_ok X (sort_members ?j) ?p"
    unfolding offer_ok_def Let_def gets rest
    using c dj digest by (simp add: core_ok_def matches_jwk_iff not_isl_iff)
  from received_digest [OF X json_wf_sorted [OF wfj] this]
  show "offer_ok X (sort_members ?j)
      \<lparr>op_core = c, op_enrollment_evidence = enrollment_evidence, op_provider_hint = sort_members hint,
       op_offer_digest = core_digest X c\<rparr>"
    using ok by simp
qed

lemma offer_document_depth:
  "json_depth hint \<le> 7 \<Longrightarrow> json_depth (offer_document X c enrollment_evidence hint) \<le> 8"
  by (auto simp: offer_document_def core_to_json_def device_jwk_def)

lemma recognise_offer_document:
  assumes "base64ct X" "core_ok X c" "valid_utf8 enrollment_evidence" "json_wf hint" "json_depth hint \<le> 7"
    and "length (canonicalise (offer_document X c enrollment_evidence hint)) \<le> MAX_PAYLOAD_OCTETS"
  shows "recognise_offer X (canonicalise (offer_document X c enrollment_evidence hint)) =
    Inr \<lparr>op_core = c, op_enrollment_evidence = enrollment_evidence, op_provider_hint = sort_members hint,
      op_offer_digest = core_digest X c\<rparr>"
proof -
  note ok = offer_document_ok [OF assms(1-4)]
  have "recognise_json (canonicalise (offer_document X c enrollment_evidence hint)) PAYLOAD_LIMITS =
      Inr (sort_members (offer_document X c enrollment_evidence hint))"
    using assms(6) offer_document_depth [OF assms(5)]
    by (intro recognise_canonicalise ok(1)) (simp_all add: PAYLOAD_LIMITS_def MAX_PAYLOAD_DEPTH_def)
  then show ?thesis using ok(2) assms(6) unfolding recognise_offer_iff by blast
qed

lemma bundle_members_iff:
  "bundle_members j = Inr u \<longleftrightarrow>
     (\<exists>ms. j = Object ms \<and> fst ` set ms \<subseteq> set BUNDLE_MEMBERS \<and> set (take 6 BUNDLE_MEMBERS) \<subseteq> fst ` set ms)"
proof (cases j)
  case (Object ms)
  have "(\<forall>name \<in> set (take 6 BUNDLE_MEMBERS). get j name \<noteq> None) \<longleftrightarrow> set (take 6 BUNDLE_MEMBERS) \<subseteq> fst ` set ms"
    unfolding Object by (simp only: get_Object_None not_not subset_iff Ball_def)
  then show ?thesis
    by (auto simp: bundle_members_def res_iff Object case_prod_beta simp del: take_Suc_Cons)
qed (auto simp: bundle_members_def)

lemma recognise_built_bundle:
  assumes X: "base64ct X" and b: "build_bundle X ceremony request g closure = Inr octs"
    and ids: "is_ok (decode_b64url_32 X ceremony)" "is_ok (decode_b64url_32 X request)" and utf8: "valid_utf8 g"
  shows "recognise_bundle X octs =
    Inr \<lparr>bp_ceremony_id = ceremony, bp_request_id = request, bp_grant = g, bp_issuer_closure = closure\<rparr>"
proof -
  let ?j = "bundle_json X ceremony request g closure"
  have len: "length g \<le> MAX_GRANT_CHARS" "octs = canonicalise ?j" "length (canonicalise ?j) \<le> MAX_PAYLOAD_OCTETS"
    using b by (auto simp: build_bundle_def Let_def split: if_splits)
  have lit: "valid_utf8 s" if "list_all (\<lambda>c. code c < 0x80) s" for s using that by (rule valid_utf8_ascii)
  have wf: "json_wf ?j"
    using utf8 valid_utf8_id [OF X] ids valid_utf8_b64url [OF X]
    by (cases closure) (simp_all add: bundle_json_def lit GRANT_MEDIA_TYPE_def MAX_SAFE_INTEGER_def)
  have "json_depth ?j \<le> 8" by (cases closure) (simp_all add: bundle_json_def)
  then have r: "recognise_json octs PAYLOAD_LIMITS = Inr (sort_members ?j)"
    unfolding len(2) using len(3)
    by (intro recognise_canonicalise wf) (simp_all add: PAYLOAD_LIMITS_def MAX_PAYLOAD_DEPTH_def)
  have gj: "get ?j ''payloadVersion'' = Some (Integer 1)" "get ?j ''role'' = Some (String ''bundle'')"
    "get ?j ''grantMediaType'' = Some (String GRANT_MEDIA_TYPE)" "get ?j ''grant'' = Some (String g)"
    "get ?j ''ceremonyId'' = Some (String ceremony)" "get ?j ''requestId'' = Some (String request)"
    "get ?j ''issuerClosure'' = map_option (\<lambda>c. String (b64url X c)) closure"
    by (cases closure; simp add: bundle_json_def get_Object)+
  note sorted = get_sort_members [OF wf]
  have gets: "int_of (sort_members ?j) ''payloadVersion'' = Some 1" "str_of (sort_members ?j) ''role'' = Some ''bundle''"
    "str_of (sort_members ?j) ''grantMediaType'' = Some GRANT_MEDIA_TYPE"
    "ceremony_text (sort_members ?j) ''grant'' = Inr g" "ceremony_text (sort_members ?j) ''ceremonyId'' = Inr ceremony"
    "ceremony_text (sort_members ?j) ''requestId'' = Inr request"
    by (simp_all add: ceremony_text_iff typed_member_iff sorted gj)
  have c: "bundle_closure X (sort_members ?j) = Inr closure"
    unfolding bundle_closure_def sorted gj using base64ct.decode_encode [OF X]
    by (simp add: b64url_def split: option.splits)
  have "(\<exists>ms. ?j = Object ms \<and> fst ` set ms \<subseteq> set BUNDLE_MEMBERS \<and> set (take 6 BUNDLE_MEMBERS) \<subseteq> fst ` set ms)"
    by (cases closure) (simp_all add: bundle_json_def BUNDLE_MEMBERS_def)
  then have "bundle_members (sort_members ?j) = Inr ()"
    unfolding bundle_members_iff
    using names_sort_members [of ?j "\<lambda>names. names \<subseteq> set BUNDLE_MEMBERS \<and> set (take 6 BUNDLE_MEMBERS) \<subseteq> names"] by simp
  moreover have "random_id X ceremony p = Inr ceremony" "random_id X request p = Inr request" for p
    using ids by (simp_all add: random_id_iff)
  ultimately show ?thesis
    using len by (simp add: recognise_bundle_def r [unfolded len(2)] recognise_bundle_json_def gets c)
qed

section \<open>An offer to evaluate\<close>

definition sample_id :: "octet \<Rightarrow> rust_str" where "sample_id c = b64url sample_externs (replicate 32 c)"

definition sample_core :: offer_core where
  "sample_core = \<lparr>oc_ceremony_id = sample_id (CHR ''c''), oc_request_id = sample_id (CHR ''r''),
     oc_application_id = ''https://app.example/app'', oc_profile_version = 1,
     oc_profile_digest = sample_id (CHR ''p''), oc_account_scope_id = sample_id (CHR ''s''),
     oc_device_did = encode_did_key sample_device_key, oc_device_public_key = sample_device_key,
     oc_requested_permissions = [sample_permission], oc_issued_at = 1700000000, oc_expires_at = 1700000120\<rparr>"

lemma sample_id_decodes: "decode_b64url_32 sample_externs (sample_id c) = Inr (replicate 32 c)"
  by (simp add: sample_id_def decode_b64url_32_encode [OF rfc4648.base64ct_axioms])

lemma sample_core_ok: "core_ok sample_externs sample_core"
proof -
  have "is_ok (parse_scope sample_externs (sample_id (CHR ''s'')))"
    using rfc4648_tail.parse_scope_encode by (simp add: sample_id_def)
  moreover have "usable_key sample_externs sample_device_key" "length sample_device_key = 32"
    using sample_issuable by (simp_all add: issuable_def sample_device_key_def)
  moreover have "valid_utf8 ''https://app.example/app''" "valid_utf8 sample_permission"
    by (rule valid_utf8_ascii, simp)+
  ultimately show ?thesis
    by (simp add: core_ok_def sample_core_def sample_id_decodes stamp_range_def MAX_SAFE_INTEGER_def)
qed

definition sample_hint :: json where
  "sample_hint = Object [(''providerId'', String ''p''), (''applicationId'', String ''https://app.example/app'')]"

lemma sample_offer_length:
  "length (canonicalise (offer_document sample_externs sample_core ''x.y.z'' sample_hint)) \<le> MAX_PAYLOAD_OCTETS"
proof -
  have k: "length sample_device_key = 32" by (simp add: sample_device_key_def)
  then have l: "length (encode_did_key sample_device_key) \<le> 111"
    "length (b64url sample_externs sample_device_key) = 43" "length (sample_id c) = 43" for c
    by (simp_all add: length_did_key b64url_def rfc4648.encode_length unpadded_len_def sample_id_def)
  have st: "length (format_date_time_stamp 1700000000) = 20" "length (format_date_time_stamp 1700000120) = 20"
    by (simp_all add: length_stamp stamp_range_def)
  have i: "length (dec_int 1) = 1" by code_simp
  have "text_bound (offer_document sample_externs sample_core ''x.y.z'' sample_hint) \<le> 69607"
    using l st i by (simp add: offer_document_def core_to_json_def device_jwk_def sample_core_def sample_hint_def)
  then show ?thesis unfolding MAX_PAYLOAD_OCTETS_def using length_canonicalise le_trans by blast
qed

lemma sample_hint_ok: "json_wf sample_hint" "json_depth sample_hint \<le> 7" "valid_utf8 ''x.y.z''"
proof -
  have lit: "valid_utf8 s" if "list_all (\<lambda>c. code c < 0x80) s" for s using that by (rule valid_utf8_ascii)
  show "json_wf sample_hint" "json_depth sample_hint \<le> 7" "valid_utf8 ''x.y.z''"
    by (simp_all add: sample_hint_def lit)
qed

section \<open>Properties\<close>

text \<open>
  The digest that binds an offer is well defined from both ends: whatever the spelling, the order
  of members and the two excluded members of the octets that were received, the digest recomputed
  from the members actually opened is the digest of the recognised offer, so the backend that signed
  the offer it assembled and the wallet that opened it speak of the same value.
\<close>

theorem received_digest_is_core_digest:
  assumes "base64ct X" "recognise_offer X octs = Inr p"
  shows "op_offer_digest p = core_digest X (op_core p)"
proof -
  obtain j where "recognise_json octs PAYLOAD_LIMITS = Inr j" "offer_ok X j p"
    using assms(2) by (auto simp: recognise_offer_iff)
  then show ?thesis using received_digest [OF assms(1)] recognise_json_wf(1) by blast
qed

theorem received_digest_is_core_digest_witness:
  "\<exists>p. recognise_offer sample_externs
      (canonicalise (offer_document sample_externs sample_core ''x.y.z'' sample_hint)) = Inr p \<and>
    op_offer_digest p = core_digest sample_externs (op_core p)"
proof -
  note r = recognise_offer_document [OF rfc4648.base64ct_axioms sample_core_ok sample_hint_ok(3,1,2) sample_offer_length]
  show ?thesis using received_digest_is_core_digest [OF rfc4648.base64ct_axioms r] r by blast
qed

text \<open>
  C20. The ceremony's payloads arrive as they were made: an offer assembled from a proper core is
  recognised with that core, evidence, hint and digest, and a bundle that could be built at all is
  recognised with the ids, the grant, verbatim, and the closure it was built from.
\<close>

theorem ceremony_roundtrip:
  assumes "base64ct X"
    and "core_ok X c" "valid_utf8 enrollment_evidence" "json_wf hint" "json_depth hint \<le> 7"
    and "length (canonicalise (offer_document X c enrollment_evidence hint)) \<le> MAX_PAYLOAD_OCTETS"
    and "build_bundle X (oc_ceremony_id c) (oc_request_id c) g closure = Inr octs" "valid_utf8 g"
  shows "recognise_offer X (canonicalise (offer_document X c enrollment_evidence hint)) =
      Inr \<lparr>op_core = c, op_enrollment_evidence = enrollment_evidence, op_provider_hint = sort_members hint,
        op_offer_digest = core_digest X c\<rparr> \<and>
    (\<exists>b. recognise_bundle X octs = Inr b \<and> bundle_matches_offer b c = Inr () \<and> bp_grant b = g \<and>
       bp_issuer_closure b = closure)"
  using recognise_offer_document [OF assms(1-6)] recognise_built_bundle [OF assms(1,7) _ _ assms(8)] assms(2)
  by (simp add: core_ok_def bundle_matches_offer_def)

theorem ceremony_roundtrip_witness:
  "\<exists>octs b. build_bundle sample_externs (sample_id (CHR ''c'')) (sample_id (CHR ''r'')) ''a.b.c'' (Some ''closure'') = Inr octs \<and>
     recognise_bundle sample_externs octs = Inr b \<and> bp_grant b = ''a.b.c'' \<and> bp_issuer_closure b = Some ''closure''"
proof -
  have "length (sample_id c) = 43" "length (b64url sample_externs ''closure'') = 10" for c
    by (simp_all add: b64url_def rfc4648.encode_length unpadded_len_def sample_id_def)
  moreover have "length (dec_int 1) = 1" by code_simp
  ultimately have "text_bound (bundle_json sample_externs (sample_id (CHR ''c'')) (sample_id (CHR ''r'')) ''a.b.c''
      (Some ''closure'')) \<le> MAX_PAYLOAD_OCTETS"
    by (simp add: bundle_json_def GRANT_MEDIA_TYPE_def MAX_PAYLOAD_OCTETS_def)
  then have "length (canonicalise (bundle_json sample_externs (sample_id (CHR ''c'')) (sample_id (CHR ''r'')) ''a.b.c''
      (Some ''closure''))) \<le> MAX_PAYLOAD_OCTETS"
    using length_canonicalise le_trans by blast
  then obtain octs where b: "build_bundle sample_externs (oc_ceremony_id sample_core) (oc_request_id sample_core)
      ''a.b.c'' (Some ''closure'') = Inr octs"
    by (simp add: build_bundle_def Let_def MAX_GRANT_CHARS_def sample_core_def)
  have "valid_utf8 ''a.b.c''" by (rule valid_utf8_ascii) simp
  from ceremony_roundtrip [OF rfc4648.base64ct_axioms sample_core_ok sample_hint_ok(3,1,2) sample_offer_length b this] b
  show ?thesis by (auto simp: sample_core_def)
qed

end
