(* ===== verification/Enrollment.thy ===== *)
theory Enrollment
  imports Ceremony
begin

text \<open>
  Application enrollment evidence (\<open>enrollment.rs\<close>): the statement a developer's backend signs over an
  offer, its recogniser, the verification against what the wallet observed, and the ledger of
  consumed request ids. The lemmas give the exact condition of the verification and show that the
  builder and the recogniser are inverse.
\<close>

section \<open>Constants and types\<close>

definition ENROLLMENT_JWS :: jws_policy where
  "ENROLLMENT_JWS = \<lparr>policy_typ = ''selfsame-enrollment+jws'', policy_kid = HttpsFragment, policy_cty = None,
     max_octets = 8192, max_payload_depth = 4, canonical_payload = True\<rparr>"

definition MAX_EVIDENCE_WINDOW_SECONDS :: int where "MAX_EVIDENCE_WINDOW_SECONDS = 120"
definition MAX_ENROLLMENT_KID_OCTETS :: nat where "MAX_ENROLLMENT_KID_OCTETS = max_bytes HEADER_LIMITS"

definition STATEMENT_LIMITS :: json_limits where
  "STATEMENT_LIMITS = \<lparr>max_bytes = max_octets ENROLLMENT_JWS, max_depth = max_payload_depth ENROLLMENT_JWS\<rparr>"

definition STATEMENT_MEMBERS :: "rust_str list" where
  "STATEMENT_MEMBERS =
     [''evidenceVersion'', ''requestId'', ''ceremonyId'', ''applicationId'', ''profileVersion'', ''profileDigest'',
      ''accountScopeId'', ''deviceKeyDigest'', ''requestedPermissions'', ''providerId'', ''descriptorDigest'',
      ''offerDigest'', ''platformBindingId'', ''returnUri'', ''issuedAt'', ''expiresAt'']"

datatype enrollment_error =
    UnverifiedApplication | EnrollmentMalformed | EnrollmentBadSignature | EnrollmentExpired
  | EnrollmentReplay | ProfileMismatch | AccountBindingMismatch | DeviceBindingMismatch
  | PermissionMismatch | ProviderMismatch | EnrollmentOfferMismatch | PlatformBindingMismatch

definition ERROR_TOKENS :: "rust_str list" where
  "ERROR_TOKENS =
     [''UnverifiedApplication'', ''EnrollmentMalformed'', ''EnrollmentBadSignature'', ''EnrollmentExpired'',
      ''EnrollmentReplay'', ''ProfileMismatch'', ''AccountBindingMismatch'', ''DeviceBindingMismatch'',
      ''PermissionMismatch'', ''ProviderMismatch'', ''OfferMismatch'', ''PlatformBindingMismatch'']"

record enrollment_statement =
  st_request_id :: rust_str
  st_ceremony_id :: rust_str
  st_application_id :: rust_str
  st_profile_version :: int
  st_profile_digest :: rust_str
  st_account_scope_id :: rust_str
  st_device_key_digest :: rust_str
  st_requested_permissions :: "rust_str list"
  st_provider_id :: rust_str
  st_descriptor_digest :: rust_str
  st_offer_digest :: rust_str
  st_platform_binding_id :: rust_str
  st_return_uri :: rust_str
  st_issued_at :: unix_seconds
  st_expires_at :: unix_seconds

record observed =
  obs_profile :: application_profile
  obs_offer :: offer_core
  obs_provider_id :: rust_str
  obs_descriptor_digest :: rust_str
  obs_platform_binding_id :: "rust_str option"
  obs_now :: unix_seconds

section \<open>The ledger of request ids\<close>

record request_ledger =
  consumed :: "rust_str list"

definition new_request_ledger :: request_ledger where
  "new_request_ledger = \<lparr>consumed = []\<rparr>"

definition consume_request :: "request_ledger \<Rightarrow> rust_str \<Rightarrow> request_ledger \<times> (enrollment_error + unit)" where
  "consume_request L rid =
     (if list_ex (\<lambda>i. i = rid) (consumed L) then (L, Inl EnrollmentReplay)
      else (\<lparr>consumed = consumed L @ [rid]\<rparr>, Inr ()))"

definition is_consumed :: "request_ledger \<Rightarrow> rust_str \<Rightarrow> bool" where
  "is_consumed L rid = list_ex (\<lambda>i. i = rid) (consumed L)"

definition ledger_len :: "request_ledger \<Rightarrow> nat" where "ledger_len L = length (consumed L)"
definition ledger_is_empty :: "request_ledger \<Rightarrow> bool" where "ledger_is_empty L \<longleftrightarrow> consumed L = []"

section \<open>Building\<close>

text \<open>The source reads the member back from the serialised offer; its \<open>expect\<close> is \<open>the\<close>.\<close>

definition device_key_digest :: "externs \<Rightarrow> offer_core \<Rightarrow> rust_str" where
  "device_key_digest X offer =
     b64url X (sha256_digest X (canonicalise (the (get (core_to_json X offer) ''deviceKeyJwk''))))"

definition build_statement :: "enrollment_statement \<Rightarrow> json" where
  "build_statement s = Object
     [(''evidenceVersion'', Integer 1),
      (''requestId'', String (st_request_id s)),
      (''ceremonyId'', String (st_ceremony_id s)),
      (''applicationId'', String (st_application_id s)),
      (''profileVersion'', Integer (st_profile_version s)),
      (''profileDigest'', String (st_profile_digest s)),
      (''accountScopeId'', String (st_account_scope_id s)),
      (''deviceKeyDigest'', String (st_device_key_digest s)),
      (''requestedPermissions'', Array (map String (st_requested_permissions s))),
      (''providerId'', String (st_provider_id s)),
      (''descriptorDigest'', String (st_descriptor_digest s)),
      (''offerDigest'', String (st_offer_digest s)),
      (''platformBindingId'', String (st_platform_binding_id s)),
      (''returnUri'', String (st_return_uri s)),
      (''issuedAt'', String (format_date_time_stamp (st_issued_at s))),
      (''expiresAt'', String (format_date_time_stamp (st_expires_at s)))]"

definition enrollment_header :: "rust_str \<Rightarrow> json" where
  "enrollment_header k = Object
     [(''alg'', String ALG), (''typ'', String (policy_typ ENROLLMENT_JWS)), (''kid'', String k)]"

definition sign_statement :: "externs \<Rightarrow> enrollment_statement \<Rightarrow> rust_str \<Rightarrow> octets \<Rightarrow> rust_str" where
  "sign_statement X s k backend_key = sign_jws X (enrollment_header k) (build_statement s) backend_key"

section \<open>Recognition\<close>

definition statement_members :: "json \<Rightarrow> enrollment_error + unit" where
  "statement_members j =
     and_then (ok_or EnrollmentMalformed (as_object j)) (\<lambda>members.
     and_then (try_each (\<lambda>(name, _). ensure (name \<in> set STATEMENT_MEMBERS) EnrollmentMalformed) members) (\<lambda>_.
     try_each (\<lambda>name. ensure (get j name \<noteq> None) EnrollmentMalformed) STATEMENT_MEMBERS))"

definition statement_text :: "json \<Rightarrow> rust_str \<Rightarrow> enrollment_error + rust_str" where
  "statement_text j name = ok_or EnrollmentMalformed (str_of j name)"

definition statement_b64_32 :: "externs \<Rightarrow> json \<Rightarrow> rust_str \<Rightarrow> enrollment_error + rust_str" where
  "statement_b64_32 X j name =
     and_then (statement_text j name) (\<lambda>v.
     and_then (map_err (\<lambda>_. EnrollmentMalformed) (decode_b64url_32 X v)) (\<lambda>_.
     Inr v))"

definition statement_stamp :: "json \<Rightarrow> rust_str \<Rightarrow> enrollment_error + unix_seconds" where
  "statement_stamp j name =
     and_then (statement_text j name) (\<lambda>t.
     map_err (\<lambda>e. case e of time_error.Malformed \<Rightarrow> EnrollmentMalformed | OutOfRange \<Rightarrow> EnrollmentMalformed)
       (parse_date_time_stamp t))"

definition statement_permission :: "rust_str \<Rightarrow> json \<Rightarrow> enrollment_error + rust_str" where
  "statement_permission app_origin_text item =
     and_then (ok_or EnrollmentMalformed (as_str item)) (\<lambda>permission.
     and_then (map_err (\<lambda>_. EnrollmentMalformed) (recognise_uri permission FRAGMENT_ID)) (\<lambda>parts.
     if origin parts \<noteq> app_origin_text then Inl EnrollmentMalformed else Inr permission))"

definition statement_permissions :: "json \<Rightarrow> rust_str \<Rightarrow> enrollment_error + rust_str list" where
  "statement_permissions j app_origin_text =
     and_then (ok_or EnrollmentMalformed (array_of j ''requestedPermissions'')) (\<lambda>items.
     if items = [] \<or> length items > MAX_PERMISSIONS then Inl EnrollmentMalformed
     else
     and_then (try_map (statement_permission app_origin_text) items) (\<lambda>perms.
     if \<not> strictly_ascending perms then Inl EnrollmentMalformed else Inr perms))"

definition recognise_platform_binding :: "externs \<Rightarrow> rust_str \<Rightarrow> rust_str \<Rightarrow> enrollment_error + unit" where
  "recognise_platform_binding X i return_origin =
     (case strip_prefix ''android:'' i of
        Some android \<Rightarrow>
          and_then (ok_or EnrollmentMalformed (rsplit_once (CHR '':'') android)) (\<lambda>(package_name, certificate).
          if package_name = [] then Inl EnrollmentMalformed
          else and_then (map_err (\<lambda>_. EnrollmentMalformed) (decode_b64url_32 X certificate)) (\<lambda>_. Inr ()))
      | None \<Rightarrow>
     (case strip_prefix ''web:'' i of
        Some web \<Rightarrow>
          if web \<noteq> return_origin then Inl EnrollmentMalformed
          else and_then (map_err (\<lambda>_. EnrollmentMalformed) (recognise_uri web ORIGIN)) (\<lambda>_. Inr ())
      | None \<Rightarrow>
     (case strip_prefix ''apple:'' i of
        Some apple \<Rightarrow>
          and_then (ok_or EnrollmentMalformed (split_once (CHR '':'') apple)) (\<lambda>(team_id, rest_text).
          and_then (ok_or EnrollmentMalformed (split_once (CHR '':'') rest_text)) (\<lambda>(bundle_id, origin_text).
          if team_id = [] \<or> bundle_id = [] \<or> origin_text \<noteq> return_origin then Inl EnrollmentMalformed
          else and_then (map_err (\<lambda>_. EnrollmentMalformed) (recognise_uri origin_text ORIGIN)) (\<lambda>_. Inr ())))
      | None \<Rightarrow> Inl EnrollmentMalformed)))"

definition recognise_statement :: "externs \<Rightarrow> json \<Rightarrow> enrollment_error + enrollment_statement" where
  "recognise_statement X j =
     and_then (statement_members j) (\<lambda>_.
     if int_of j ''evidenceVersion'' \<noteq> Some 1 then Inl EnrollmentMalformed
     else
     and_then (statement_text j ''applicationId'') (\<lambda>aid.
     and_then (map_err (\<lambda>_. EnrollmentMalformed) (parse_application_id aid)) (\<lambda>parts.
     if int_of j ''profileVersion'' \<noteq> Some PROFILE_VERSION then Inl EnrollmentMalformed
     else
     and_then (statement_permissions j (app_origin parts)) (\<lambda>perms.
     and_then (statement_stamp j ''issuedAt'') (\<lambda>issued.
     and_then (statement_stamp j ''expiresAt'') (\<lambda>expires.
     if expires \<le> issued \<or> i64_sub expires issued > MAX_EVIDENCE_WINDOW_SECONDS then Inl EnrollmentMalformed
     else
     and_then (statement_text j ''providerId'') (\<lambda>provider.
     if \<not> is_provider_id provider then Inl EnrollmentMalformed
     else
     and_then (statement_text j ''returnUri'') (\<lambda>return_text.
     and_then (map_err (\<lambda>_. EnrollmentMalformed) (recognise_uri return_text PROVIDER_URL)) (\<lambda>return_parts.
     if origin return_parts \<noteq> app_origin parts then Inl EnrollmentMalformed
     else
     and_then (statement_text j ''platformBindingId'') (\<lambda>binding.
     and_then (recognise_platform_binding X binding (origin return_parts)) (\<lambda>_.
     and_then (statement_b64_32 X j ''requestId'') (\<lambda>request.
     and_then (statement_b64_32 X j ''ceremonyId'') (\<lambda>ceremony.
     and_then (statement_b64_32 X j ''profileDigest'') (\<lambda>profile.
     and_then (statement_b64_32 X j ''accountScopeId'') (\<lambda>scope.
     and_then (statement_b64_32 X j ''deviceKeyDigest'') (\<lambda>device.
     and_then (statement_b64_32 X j ''descriptorDigest'') (\<lambda>descriptor.
     and_then (statement_b64_32 X j ''offerDigest'') (\<lambda>offer.
     Inr \<lparr>st_request_id = request, st_ceremony_id = ceremony, st_application_id = aid,
          st_profile_version = PROFILE_VERSION, st_profile_digest = profile, st_account_scope_id = scope,
          st_device_key_digest = device, st_requested_permissions = perms, st_provider_id = provider,
          st_descriptor_digest = descriptor, st_offer_digest = offer, st_platform_binding_id = binding,
          st_return_uri = return_text, st_issued_at = issued, st_expires_at = expires\<rparr>))))))))))))))))))"

definition recognise_kid_for_application :: "rust_str \<Rightarrow> rust_str \<Rightarrow> enrollment_error + unit" where
  "recognise_kid_for_application k application_text =
     and_then (map_err (\<lambda>_. EnrollmentMalformed) (parse_application_id application_text)) (\<lambda>app.
     and_then (map_err (\<lambda>_. EnrollmentMalformed) (recognise_uri k FRAGMENT_ID)) (\<lambda>parts.
     if origin parts \<noteq> app_origin app then Inl EnrollmentMalformed else Inr ()))"

definition recognise_enrollment :: "externs \<Rightarrow> rust_str \<Rightarrow> enrollment_error + enrollment_statement \<times> compact_jws" where
  "recognise_enrollment X compact =
     and_then (map_err (\<lambda>_. EnrollmentMalformed) (recognise_jws X compact ENROLLMENT_JWS [])) (\<lambda>signed.
     and_then (recognise_statement X (payload signed)) (\<lambda>s.
     and_then (recognise_kid_for_application (jws_kid signed) (st_application_id s)) (\<lambda>_.
     Inr (s, signed))))"

definition recognise_unsigned_payload :: "externs \<Rightarrow> octets \<Rightarrow> enrollment_error + enrollment_statement" where
  "recognise_unsigned_payload X statement_octets =
     and_then (map_err (\<lambda>_. EnrollmentMalformed) (recognise_json statement_octets STATEMENT_LIMITS)) (\<lambda>j.
     if canonicalise j \<noteq> statement_octets then Inl EnrollmentMalformed
     else
     and_then (recognise_statement X j) (\<lambda>s.
     if canonicalise (build_statement s) \<noteq> statement_octets then Inl EnrollmentMalformed else Inr s))"

definition recognise_unsigned :: "externs \<Rightarrow> octets \<Rightarrow> rust_str \<Rightarrow> enrollment_error + enrollment_statement" where
  "recognise_unsigned X statement_octets k =
     (if length k > MAX_ENROLLMENT_KID_OCTETS then Inl EnrollmentMalformed
      else
      and_then (map_err (\<lambda>_. EnrollmentMalformed) (recognise_json statement_octets STATEMENT_LIMITS)) (\<lambda>j.
      if canonicalise j \<noteq> statement_octets then Inl EnrollmentMalformed
      else
      let protected_octets = canonicalise (enrollment_header k) in
      if length protected_octets > max_bytes HEADER_LIMITS then Inl EnrollmentMalformed
      else
      and_then (map_err (\<lambda>_. EnrollmentMalformed) (recognise_header (enrollment_header k) ENROLLMENT_JWS [])) (\<lambda>_.
      and_then (recognise_statement X j) (\<lambda>s.
      and_then (recognise_kid_for_application k (st_application_id s)) (\<lambda>_.
      if canonicalise (build_statement s) \<noteq> statement_octets then Inl EnrollmentMalformed
      else if length (b64url X protected_octets) + length (b64url X statement_octets)
          + length (b64url X (replicate 64 (CHR 0x00))) + 2 > max_octets ENROLLMENT_JWS
      then Inl EnrollmentMalformed
      else Inr s)))))"

section \<open>Verification\<close>

definition check_profile :: "externs \<Rightarrow> enrollment_statement \<Rightarrow> observed \<Rightarrow> enrollment_error + unit" where
  "check_profile X s obs =
     (if st_application_id s \<noteq> app_text (application_id (obs_profile obs))
        \<or> st_profile_version s \<noteq> PROFILE_VERSION
        \<or> st_profile_digest s \<noteq> b64url X (profile_digest (obs_profile obs))
      then Inl ProfileMismatch else Inr ())"

definition check_offer :: "externs \<Rightarrow> enrollment_statement \<Rightarrow> observed \<Rightarrow> enrollment_error + unit" where
  "check_offer X s obs =
     (let offer = obs_offer obs in
      if st_account_scope_id s \<noteq> oc_account_scope_id offer then Inl AccountBindingMismatch
      else if st_device_key_digest s \<noteq> device_key_digest X offer then Inl DeviceBindingMismatch
      else if st_requested_permissions s \<noteq> oc_requested_permissions offer then Inl PermissionMismatch
      else
      and_then (try_each (\<lambda>permission.
        ensure (list_ex (\<lambda>p. p = permission) (allowed_permissions (obs_profile obs))) PermissionMismatch)
        (st_requested_permissions s)) (\<lambda>_.
      if st_provider_id s \<noteq> obs_provider_id obs \<or> st_descriptor_digest s \<noteq> obs_descriptor_digest obs
      then Inl ProviderMismatch
      else if st_request_id s \<noteq> oc_request_id offer \<or> st_ceremony_id s \<noteq> oc_ceremony_id offer
        \<or> st_application_id s \<noteq> oc_application_id offer \<or> st_profile_version s \<noteq> oc_profile_version offer
        \<or> st_profile_digest s \<noteq> oc_profile_digest offer
      then Inl EnrollmentOfferMismatch
      else if st_offer_digest s \<noteq> core_digest X offer then Inl EnrollmentOfferMismatch
      else if st_issued_at s \<noteq> oc_issued_at offer \<or> st_expires_at s \<noteq> oc_expires_at offer
      then Inl EnrollmentOfferMismatch
      else Inr ()))"

definition check_platform :: "enrollment_statement \<Rightarrow> observed \<Rightarrow> enrollment_error + unit" where
  "check_platform s obs =
     and_then (ok_or PlatformBindingMismatch
       (List.find (\<lambda>b. binding_id b = st_platform_binding_id s) (mobile_bindings (obs_profile obs)))) (\<lambda>binding.
     and_then (case obs_platform_binding_id obs of
         Some i \<Rightarrow>
           if i \<noteq> binding_id binding then Inl PlatformBindingMismatch
           else (case binding of Web _ _ \<Rightarrow> Inl PlatformBindingMismatch | _ \<Rightarrow> Inr ())
       | None \<Rightarrow> (case binding of Android _ _ _ \<Rightarrow> Inl PlatformBindingMismatch | _ \<Rightarrow> Inr ())) (\<lambda>_.
     case binding of
       Apple _ _ _ return_text \<Rightarrow>
         if st_return_uri s \<noteq> return_text then Inl PlatformBindingMismatch else Inr ()
     | _ \<Rightarrow> Inr ()))"

definition verify_enrollment :: "externs \<Rightarrow> rust_str \<Rightarrow> observed \<Rightarrow> enrollment_error + enrollment_statement" where
  "verify_enrollment X compact obs =
     and_then (recognise_enrollment X compact) (\<lambda>(s, signed).
     and_then (ok_or UnverifiedApplication
       (List.find (\<lambda>k. kid k = jws_kid signed) (enrollment_keys (obs_profile obs)))) (\<lambda>key.
     and_then (map_err (\<lambda>_. EnrollmentBadSignature) (verify_jws X signed (public_key (jwk key)))) (\<lambda>_.
     and_then (check_profile X s obs) (\<lambda>_.
     and_then (check_offer X s obs) (\<lambda>_.
     if obs_now obs < st_issued_at s \<or> obs_now obs \<ge> st_expires_at s then Inl EnrollmentExpired
     else
     and_then (check_platform s obs) (\<lambda>_.
     Inr s))))))"

section \<open>Statements, exactly\<close>

lemma statement_text_iff: "statement_text j name = Inr s \<longleftrightarrow> get j name = Some (String s)"
  by (simp add: statement_text_def res_iff typed_member_iff)

lemma statement_b64_32_iff:
  "statement_b64_32 X j name = Inr s \<longleftrightarrow> get j name = Some (String s) \<and> is_ok (decode_b64url_32 X s)"
  by (auto simp: statement_b64_32_def res_iff statement_text_iff not_isl_iff)

lemma statement_stamp_iff:
  "statement_stamp j name = Inr v \<longleftrightarrow> stamp_range v \<and> get j name = Some (String (format_date_time_stamp v))"
  by (auto simp: statement_stamp_def res_iff statement_text_iff stamp.dec_Inr_iff)

lemma statement_members_iff: "statement_members j = Inr u \<longleftrightarrow> has_members j STATEMENT_MEMBERS []"
proof (cases j)
  case (Object ms)
  have "(\<forall>name \<in> set STATEMENT_MEMBERS. get j name \<noteq> None) \<longleftrightarrow> set STATEMENT_MEMBERS \<subseteq> fst ` set ms"
    unfolding Object by (simp only: get_Object_None not_not subset_iff Ball_def)
  then show ?thesis
    by (auto simp: statement_members_def has_members_def res_iff Object case_prod_beta)
qed (auto simp: statement_members_def has_members_def)

text \<open>A permission of the application: a fragment URI of its origin.\<close>

definition own_fragment :: "rust_str \<Rightarrow> rust_str \<Rightarrow> bool" where
  "own_fragment app_origin_text t \<longleftrightarrow> (\<exists>parts. recognise_uri t FRAGMENT_ID = Inr parts \<and> origin parts = app_origin_text)"

lemma statement_permissions_iff:
  "statement_permissions j org = Inr perms \<longleftrightarrow>
     get j ''requestedPermissions'' = Some (Array (map String perms)) \<and> perms \<noteq> [] \<and>
     length perms \<le> MAX_PERMISSIONS \<and> (\<forall>p \<in> set perms. own_fragment org p) \<and> sorted_wrt (<) perms"
proof -
  have item: "statement_permission org item = Inr p \<longleftrightarrow> item = String p \<and> own_fragment org p" for item p
    by (auto simp: statement_permission_def res_iff accessor_Some_iff own_fragment_def)
  have items: "list_all2 (\<lambda>item p. item = String p \<and> own_fragment org p) items perms \<longleftrightarrow>
      items = map String perms \<and> (\<forall>p \<in> set perms. own_fragment org p)" for items perms
    by (induction perms arbitrary: items) (auto simp: list_all2_Cons2)
  show ?thesis
    unfolding statement_permissions_def and_then_Inr_iff ok_or_Inr_iff typed_member_iff try_map_Inr_iff item items
      if_Inl_Inr_iff not_not strictly_ascending_iff
    by auto
qed

text \<open>What a statement is, as a value.\<close>

definition statement_valid :: "externs \<Rightarrow> enrollment_statement \<Rightarrow> bool" where
  "statement_valid X s \<longleftrightarrow>
     (\<exists>app return_parts. parse_application_id (st_application_id s) = Inr app \<and>
        (\<forall>p \<in> set (st_requested_permissions s). own_fragment (app_origin app) p) \<and>
        recognise_uri (st_return_uri s) PROVIDER_URL = Inr return_parts \<and> origin return_parts = app_origin app \<and>
        recognise_platform_binding X (st_platform_binding_id s) (app_origin app) = Inr ()) \<and>
     st_profile_version s = PROFILE_VERSION \<and>
     st_requested_permissions s \<noteq> [] \<and> length (st_requested_permissions s) \<le> MAX_PERMISSIONS \<and>
     sorted_wrt (<) (st_requested_permissions s) \<and>
     stamp_range (st_issued_at s) \<and> stamp_range (st_expires_at s) \<and>
     st_issued_at s < st_expires_at s \<and> st_expires_at s - st_issued_at s \<le> 120 \<and>
     is_provider_id (st_provider_id s) \<and>
     (\<forall>t \<in> {st_request_id s, st_ceremony_id s, st_profile_digest s, st_account_scope_id s,
        st_device_key_digest s, st_descriptor_digest s, st_offer_digest s}. is_ok (decode_b64url_32 X t))"

text \<open>The members of a document are those the builder writes.\<close>

definition statement_ok :: "externs \<Rightarrow> json \<Rightarrow> enrollment_statement \<Rightarrow> bool" where
  "statement_ok X j s \<longleftrightarrow>
     has_members j STATEMENT_MEMBERS [] \<and>
     (\<forall>name \<in> set STATEMENT_MEMBERS. get j name = get (build_statement s) name) \<and> statement_valid X s"

lemma built_members:
  "(\<forall>name \<in> set STATEMENT_MEMBERS. get j name = get (build_statement s) name) \<longleftrightarrow>
     get j ''evidenceVersion'' = Some (Integer 1) \<and>
     get j ''requestId'' = Some (String (st_request_id s)) \<and>
     get j ''ceremonyId'' = Some (String (st_ceremony_id s)) \<and>
     get j ''applicationId'' = Some (String (st_application_id s)) \<and>
     get j ''profileVersion'' = Some (Integer (st_profile_version s)) \<and>
     get j ''profileDigest'' = Some (String (st_profile_digest s)) \<and>
     get j ''accountScopeId'' = Some (String (st_account_scope_id s)) \<and>
     get j ''deviceKeyDigest'' = Some (String (st_device_key_digest s)) \<and>
     get j ''requestedPermissions'' = Some (Array (map String (st_requested_permissions s))) \<and>
     get j ''providerId'' = Some (String (st_provider_id s)) \<and>
     get j ''descriptorDigest'' = Some (String (st_descriptor_digest s)) \<and>
     get j ''offerDigest'' = Some (String (st_offer_digest s)) \<and>
     get j ''platformBindingId'' = Some (String (st_platform_binding_id s)) \<and>
     get j ''returnUri'' = Some (String (st_return_uri s)) \<and>
     get j ''issuedAt'' = Some (String (format_date_time_stamp (st_issued_at s))) \<and>
     get j ''expiresAt'' = Some (String (format_date_time_stamp (st_expires_at s)))"
  unfolding STATEMENT_MEMBERS_def set_simps ball_simps build_statement_def
  by (simp add: get_Object [of "_ # _"] del: set_simps)

lemma recognise_statement_iff: "recognise_statement X j = Inr s \<longleftrightarrow> statement_ok X j s"
proof -
  have sub: "stamp_range a \<Longrightarrow> stamp_range b \<Longrightarrow> i64_sub a b = a - b" for a b
    by (rule stamps_sub)
  show ?thesis
    unfolding recognise_statement_def statement_ok_def built_members statement_valid_def and_then_Inr_iff
      statement_members_iff if_Inl_Inr_iff not_not statement_text_iff statement_stamp_iff statement_b64_32_iff
      map_err_Inr_iff statement_permissions_iff typed_member_iff MAX_EVIDENCE_WINDOW_SECONDS_def
    by (cases s) (use sub in \<open>auto simp: not_le not_less\<close>)
qed

section \<open>Built and recognised statements\<close>

lemma get_outside: "has_members j req [] \<Longrightarrow> name \<notin> set req \<Longrightarrow> get j name = None"
  by (auto simp: has_members_def get_Object_None)

lemma build_statement_members: "has_members (build_statement s) STATEMENT_MEMBERS []"
  by (simp add: build_statement_def has_members_def STATEMENT_MEMBERS_def)

lemma build_statement_object: "\<exists>ns. build_statement s = Object ns \<and> distinct (map fst ns)"
  by (simp add: build_statement_def)

lemma statement_ok_get: "statement_ok X j s \<Longrightarrow> get j name = get (build_statement s) name"
  using get_outside build_statement_members unfolding statement_ok_def by metis

lemma statement_ok_canonical:
  assumes "json_wf j" "statement_ok X j s"
  shows "canonicalise j = canonicalise (build_statement s)"
proof -
  obtain ms where ms: "j = Object ms" using assms(2) by (auto simp: statement_ok_def has_members_def)
  obtain ns where ns: "build_statement s = Object ns" "distinct (map fst ns)" using build_statement_object by blast
  have "map_of ms name = map_of ns name" for name
    using statement_ok_get [OF assms(2), of name] by (simp add: ms ns get_Object)
  then show ?thesis
    unfolding ms ns(1) using assms(1) ns(2) ms by (intro canonicalise_by_members) auto
qed

lemma statement_ok_built: "statement_ok X (build_statement s) s \<longleftrightarrow> statement_valid X s"
  by (simp add: statement_ok_def build_statement_members)

lemma statement_ok_wf:
  assumes "json_wf j" "statement_ok X j s"
  shows "json_wf (build_statement s)"
proof -
  have v: "json_wf v" if "get (build_statement s) name = Some v" for name v
    using json_wf_get [OF assms(1)] statement_ok_get [OF assms(2), of name] that by simp
  have "list_all (list_all (\<lambda>c. code c < 0x80)) STATEMENT_MEMBERS" by code_simp
  then have names: "valid_utf8 n" if "n \<in> set STATEMENT_MEMBERS" for n
    using that valid_utf8_ascii by (metis list.pred_set)
  obtain ns where ns: "build_statement s = Object ns" "distinct (map fst ns)" using build_statement_object by blast
  have "fst ` set ns = set STATEMENT_MEMBERS" using build_statement_members [of s] by (auto simp: ns has_members_def)
  then have k: "valid_utf8 n" if "(n, w) \<in> set ns" for n w using names that by (metis fst_conv image_eqI)
  have "json_wf w" if "(n, w) \<in> set ns" for n w
    using v [of n w] ns that by (simp add: get_Object)
  then show ?thesis using ns k by auto
qed

lemma build_statement_sorted_get:
  "get (build_statement s) name = Some v \<Longrightarrow> sort_members v = v"
proof -
  obtain ns where ns: "build_statement s = Object ns" "distinct (map fst ns)" using build_statement_object by blast
  have "list_all (\<lambda>(n, v). sort_members v = v) ns"
    using ns(1) by (auto simp: build_statement_def o_def)
  then have all: "sort_members w = w" if "(n, w) \<in> set ns" for n w using that by (auto simp: list_all_iff)
  assume "get (build_statement s) name = Some v"
  then show ?thesis using all by (simp add: ns(1) get_Object) (blast dest: map_of_SomeD)
qed

lemma statement_ok_sorted:
  assumes "json_wf j" "statement_ok X j s"
  shows "statement_ok X (sort_members j) s"
proof -
  have "get (sort_members j) name = get (build_statement s) name" for name
    using statement_ok_get [OF assms(2), of name] build_statement_sorted_get [of s name]
    by (cases "get (build_statement s) name") (simp_all add: get_sort_members [OF assms(1)])
  then show ?thesis using assms(2) by (simp add: statement_ok_def has_members_sort_members)
qed

lemma build_statement_depth: "json_depth (build_statement s) \<le> 4"
  by (simp add: build_statement_def)

lemma unsigned_payload_iff:
  "recognise_unsigned_payload X octs = Inr s \<longleftrightarrow>
     statement_valid X s \<and> json_wf (build_statement s) \<and> octs = canonicalise (build_statement s) \<and> length octs \<le> 8192"
proof
  assume "recognise_unsigned_payload X octs = Inr s"
  then obtain j where j: "recognise_json octs STATEMENT_LIMITS = Inr j" "statement_ok X j s"
      "octs = canonicalise (build_statement s)"
    unfolding recognise_unsigned_payload_def and_then_Inr_iff map_err_Inr_iff if_Inl_Inr_iff not_not
      recognise_statement_iff sum.inject by metis
  note wf = recognise_json_wf [OF j(1)]
  from statement_ok_wf [OF wf(1) j(2)] show "statement_valid X s \<and> json_wf (build_statement s) \<and>
      octs = canonicalise (build_statement s) \<and> length octs \<le> 8192"
    using j wf(3) by (simp add: statement_ok_def STATEMENT_LIMITS_def ENROLLMENT_JWS_def)
next
  assume a: "statement_valid X s \<and> json_wf (build_statement s) \<and> octs = canonicalise (build_statement s) \<and> length octs \<le> 8192"
  then have len: "length (canonicalise (build_statement s)) \<le> 8192" by blast
  have "recognise_json (canonicalise (build_statement s)) STATEMENT_LIMITS = Inr (sort_members (build_statement s))"
    using a len recognise_canonicalise [of "build_statement s" STATEMENT_LIMITS] build_statement_depth
    by (simp add: STATEMENT_LIMITS_def ENROLLMENT_JWS_def)
  moreover have "statement_ok X (sort_members (build_statement s)) s"
    using a statement_ok_sorted statement_ok_built by blast
  ultimately show "recognise_unsigned_payload X octs = Inr s"
    using a unfolding recognise_unsigned_payload_def and_then_Inr_iff map_err_Inr_iff if_Inl_Inr_iff not_not
      recognise_statement_iff sum.inject by (metis canonicalise_sort_members)
qed

section \<open>Signing\<close>

text \<open>A key identifier the application's backend may sign under.\<close>

definition own_kid :: "rust_str \<Rightarrow> rust_str \<Rightarrow> bool" where
  "own_kid k application_text \<longleftrightarrow>
     (\<exists>app. parse_application_id application_text = Inr app \<and> own_fragment (app_origin app) k)"

lemma recognise_kid_iff: "recognise_kid_for_application k a = Inr u \<longleftrightarrow> own_kid k a"
  by (auto simp: recognise_kid_for_application_def res_iff own_kid_def own_fragment_def)

lemma enrollment_header_ok:
  assumes "own_kid k a" "valid_utf8 k"
  shows "json_wf (enrollment_header k)" "json_depth (enrollment_header k) \<le> 4"
    "header_ok (enrollment_header k) ENROLLMENT_JWS []"
proof -
  have lit: "valid_utf8 s" if "list_all (\<lambda>c. code c < 0x80) s" for s using that by (rule valid_utf8_ascii)
  show "json_wf (enrollment_header k)"
    using assms(2) by (simp add: enrollment_header_def ENROLLMENT_JWS_def ALG_def lit)
  show "json_depth (enrollment_header k) \<le> 4" by (simp add: enrollment_header_def)
  show "header_ok (enrollment_header k) ENROLLMENT_JWS []"
    using assms(1)
    by (auto simp: header_ok_def enrollment_header_def ENROLLMENT_JWS_def ALG_def typed_member_iff get_Object
        allowed_header_def FORBIDDEN_HEADER_MEMBERS_def kid_shape_def own_kid_def own_fragment_def)
qed

text \<open>The backend's checks before it signs are those under which the wallet will recognise.\<close>

lemma unsigned_iff:
  assumes "base64ct X"
  shows "recognise_unsigned X octs k = Inr s \<longleftrightarrow>
     recognise_unsigned_payload X octs = Inr s \<and> own_kid k (st_application_id s) \<and> length k \<le> 4096 \<and>
     length (canonicalise (enrollment_header k)) \<le> 4096 \<and>
     unpadded_len (length (canonicalise (enrollment_header k))) + unpadded_len (length octs) + 88 \<le> 8192"
proof -
  have h: "recognise_header (enrollment_header k) ENROLLMENT_JWS [] = Inr u \<longleftrightarrow> is_ok (recognise_uri k FRAGMENT_ID)" for u
    by (simp add: recognise_header_iff header_ok_def enrollment_header_def ENROLLMENT_JWS_def ALG_def typed_member_iff
        get_Object allowed_header_def FORBIDDEN_HEADER_MEMBERS_def kid_shape_def)
  have k: "own_kid k a \<Longrightarrow> is_ok (recognise_uri k FRAGMENT_ID)" for a
    by (auto simp: own_kid_def own_fragment_def)
  have l: "length (b64url X bs) = unpadded_len (length bs)" for bs
    by (simp add: b64url_def base64ct.encode_length [OF assms])
  have "unpadded_len 64 = 86" "max_octets ENROLLMENT_JWS = 8192"
    by (simp_all add: unpadded_len_def ENROLLMENT_JWS_def)
  then show ?thesis
    unfolding recognise_unsigned_def recognise_unsigned_payload_def Let_def l
    using k by (auto simp: res_iff h recognise_kid_iff MAX_ENROLLMENT_KID_OCTETS_def HEADER_LIMITS_def
        recognise_statement_iff)
qed

lemma signed_statement_recognised:
  assumes X: "base64ct X" "ed25519_law X key"
    and u: "recognise_unsigned X (canonicalise (build_statement s)) k = Inr s" and utf8: "valid_utf8 k"
  shows "\<exists>signed. recognise_enrollment X (sign_statement X s k key) = Inr (s, signed) \<and> jws_kid signed = k \<and>
    verify_jws X signed (sk_public X key) = Inr ()"
proof -
  have s: "statement_valid X s" "json_wf (build_statement s)" "own_kid k (st_application_id s)"
      "length (canonicalise (enrollment_header k)) \<le> 4096"
      "unpadded_len (length (canonicalise (enrollment_header k))) +
       unpadded_len (length (canonicalise (build_statement s))) + 88 \<le> 8192"
    using u by (simp_all add: unsigned_iff [OF X(1)] unsigned_payload_iff)
  note h = enrollment_header_ok [OF s(3) utf8]
  have vc: "get (build_statement s) ''vc'' = None" by (simp add: build_statement_def get_Object)
  have "length (sign_jws X (enrollment_header k) (build_statement s) key) \<le> max_octets ENROLLMENT_JWS"
    unfolding length_sign_jws [OF X] using s(5) by (simp add: ENROLLMENT_JWS_def)
  then obtain jws where j: "recognise_jws X (sign_statement X s k key) ENROLLMENT_JWS [] = Inr jws"
      "verify_jws X jws (sk_public X key) = Inr ()" "protected_header jws = sort_members (enrollment_header k)"
      "payload jws = sort_members (build_statement s)"
    using sign_recognise_verify_lemma [OF X h(1,2) s(4) h(3) s(2) _ vc] build_statement_depth
    unfolding sign_statement_def ENROLLMENT_JWS_def by auto
  have "jws_kid jws = k"
    using j(1,3) h(1) by (simp add: recognise_jws_iff [OF X(1)] jws_ok_def typed_member_sort_members)
      (simp add: enrollment_header_def typed_member_iff get_Object)
  moreover have "recognise_statement X (payload jws) = Inr s"
    unfolding recognise_statement_iff j(4) using s(1,2) statement_ok_sorted statement_ok_built by blast
  moreover have "recognise_kid_for_application k (st_application_id s) = Inr ()"
    using s(3) by (simp add: recognise_kid_iff)
  ultimately show ?thesis using j by (simp add: recognise_enrollment_def)
qed

section \<open>Verification, exactly\<close>

text \<open>What the platform attributed is what the binding promises: Android always a caller, the web never.\<close>

definition binding_observed :: "mobile_binding \<Rightarrow> rust_str option \<Rightarrow> bool" where
  "binding_observed b seen \<longleftrightarrow>
     (case b of Android i _ _ \<Rightarrow> seen = Some i | Apple i _ _ _ \<Rightarrow> seen = None \<or> seen = Some i | Web _ _ \<Rightarrow> seen = None)"

definition return_declared :: "mobile_binding \<Rightarrow> rust_str \<Rightarrow> bool" where
  "return_declared b u \<longleftrightarrow> (case b of Apple _ _ _ r \<Rightarrow> u = r | _ \<Rightarrow> True)"

text \<open>The one statement the wallet accepts for what it observed: only the return URI is the backend's choice.\<close>

definition attested :: "externs \<Rightarrow> observed \<Rightarrow> mobile_binding \<Rightarrow> rust_str \<Rightarrow> enrollment_statement" where
  "attested X obs b u =
     (let c = obs_offer obs; P = obs_profile obs in
      \<lparr>st_request_id = oc_request_id c, st_ceremony_id = oc_ceremony_id c,
       st_application_id = app_text (application_id P), st_profile_version = PROFILE_VERSION,
       st_profile_digest = b64url X (profile_digest P), st_account_scope_id = oc_account_scope_id c,
       st_device_key_digest = device_key_digest X c, st_requested_permissions = oc_requested_permissions c,
       st_provider_id = obs_provider_id obs, st_descriptor_digest = obs_descriptor_digest obs,
       st_offer_digest = core_digest X c, st_platform_binding_id = binding_id b, st_return_uri = u,
       st_issued_at = oc_issued_at c, st_expires_at = oc_expires_at c\<rparr>)"

text \<open>The offer asks something the profile allows, of the profile itself.\<close>

definition offer_of_profile :: "externs \<Rightarrow> observed \<Rightarrow> bool" where
  "offer_of_profile X obs \<longleftrightarrow>
     oc_application_id (obs_offer obs) = app_text (application_id (obs_profile obs)) \<and>
     oc_profile_version (obs_offer obs) = PROFILE_VERSION \<and>
     oc_profile_digest (obs_offer obs) = b64url X (profile_digest (obs_profile obs)) \<and>
     set (oc_requested_permissions (obs_offer obs)) \<subseteq> set (allowed_permissions (obs_profile obs))"

lemma check_platform_iff:
  "check_platform s obs = Inr u \<longleftrightarrow>
     (\<exists>b. List.find (\<lambda>b. binding_id b = st_platform_binding_id s) (mobile_bindings (obs_profile obs)) = Some b \<and>
        binding_observed b (obs_platform_binding_id obs) \<and> return_declared b (st_return_uri s))"
proof (cases "List.find (\<lambda>b. binding_id b = st_platform_binding_id s) (mobile_bindings (obs_profile obs))")
  case (Some b)
  then show ?thesis
    by (cases b; cases "obs_platform_binding_id obs")
       (auto simp: check_platform_def binding_observed_def return_declared_def)
qed (simp add: check_platform_def)

lemma check_statement_iff:
  "check_profile X s obs = Inr u \<and> check_offer X s obs = Inr w \<and> st_platform_binding_id s = binding_id b \<longleftrightarrow>
     offer_of_profile X obs \<and> s = attested X obs b (st_return_uri s)"
  by (cases s)
     (auto simp: check_profile_def check_offer_def Let_def res_iff list_ex_iff offer_of_profile_def attested_def subset_iff)

lemma verify_enrollment_lemma:
  "verify_enrollment X compact obs = Inr s \<longleftrightarrow>
     (\<exists>signed key b. recognise_enrollment X compact = Inr (s, signed) \<and>
        List.find (\<lambda>k. kid k = jws_kid signed) (enrollment_keys (obs_profile obs)) = Some key \<and>
        verify_jws X signed (public_key (jwk key)) = Inr () \<and>
        List.find (\<lambda>b. binding_id b = st_platform_binding_id s) (mobile_bindings (obs_profile obs)) = Some b \<and>
        binding_observed b (obs_platform_binding_id obs) \<and> return_declared b (st_return_uri s) \<and>
        offer_of_profile X obs \<and> s = attested X obs b (st_return_uri s) \<and>
        obs_now obs \<in> {st_issued_at s ..< st_expires_at s})"
proof -
  have b: "st_platform_binding_id s = binding_id b"
    if "List.find (\<lambda>b. binding_id b = st_platform_binding_id s) bs = Some b" for b bs
    using that by (auto simp: find_Some_iff)
  have "verify_enrollment X compact obs = Inr s \<longleftrightarrow>
     (\<exists>signed key b. recognise_enrollment X compact = Inr (s, signed) \<and>
        List.find (\<lambda>k. kid k = jws_kid signed) (enrollment_keys (obs_profile obs)) = Some key \<and>
        verify_jws X signed (public_key (jwk key)) = Inr () \<and>
        check_profile X s obs = Inr () \<and> check_offer X s obs = Inr () \<and>
        st_issued_at s \<le> obs_now obs \<and> obs_now obs < st_expires_at s \<and>
        List.find (\<lambda>b. binding_id b = st_platform_binding_id s) (mobile_bindings (obs_profile obs)) = Some b \<and>
        binding_observed b (obs_platform_binding_id obs) \<and> return_declared b (st_return_uri s))"
    by (auto simp: verify_enrollment_def res_iff check_platform_iff)
  note exact = this
  have eq: "check_profile X s obs = Inr () \<and> check_offer X s obs = Inr () \<and> st_issued_at s \<le> obs_now obs \<and>
      obs_now obs < st_expires_at s \<longleftrightarrow> offer_of_profile X obs \<and> s = attested X obs b (st_return_uri s) \<and>
      obs_now obs \<in> {st_issued_at s ..< st_expires_at s}"
    if "List.find (\<lambda>b. binding_id b = st_platform_binding_id s) (mobile_bindings (obs_profile obs)) = Some b" for b
    using check_statement_iff [of X s obs "()" "()" b] b [OF that]
    unfolding atLeastLessThan_iff by blast
  show ?thesis
    unfolding exact
    apply (intro ex_cong1)
    subgoal for signed key b using eq [of b] by blast
    done
qed

section \<open>The ledger\<close>

fun consume_all :: "request_ledger \<Rightarrow> rust_str list \<Rightarrow> request_ledger \<times> (enrollment_error + unit) list" where
  "consume_all L [] = (L, [])"
| "consume_all L (i # is) =
     (let (L1, r) = consume_request L i; (L2, rs) = consume_all L1 is in (L2, r # rs))"

lemma consume_all_from:
  "consume_all L ids = (L', rs) \<Longrightarrow>
     set (consumed L') = set (consumed L) \<union> set ids \<and> (distinct (consumed L) \<longrightarrow> distinct (consumed L')) \<and>
     rs = map (\<lambda>n. if ids ! n \<in> set (consumed L) \<union> set (take n ids) then Inl EnrollmentReplay else Inr ()) [0..<length ids]"
proof (induction ids arbitrary: L rs)
  case (Cons i "is")
  obtain L1 r where r: "consume_request L i = (L1, r)" by fastforce
  obtain rs' where rs': "consume_all L1 is = (L', rs')" "rs = r # rs'"
    using Cons.prems r by (auto split: prod.splits)
  have s: "set (consumed L1) = insert i (set (consumed L))" "distinct (consumed L) \<longrightarrow> distinct (consumed L1)"
    "r = (if i \<in> set (consumed L) then Inl EnrollmentReplay else Inr ())"
    using r by (auto simp: consume_request_def list_ex_iff split: if_splits)
  have m: "map f [0..<length (i # is)] = f 0 # map (\<lambda>n. f (Suc n)) [0..<length is]" for f :: "nat \<Rightarrow> enrollment_error + unit"
    by (simp add: map_upt_Suc del: upt_Suc)
  show ?case
    using Cons.IH [OF rs'(1)] s unfolding rs'(2) m by auto
qed auto

section \<open>A signed statement to evaluate\<close>

lemma sample_application_enrollment:
  "app_text (application_id sample_application) = ''https://app.example/app''"
  "allowed_permissions sample_application = [sample_permission]"
  "max_grant_lifetime_seconds (revocation sample_application) = 3600"
  "enrollment_keys sample_application = [\<lparr>kid = ''https://app.example/keys#k1'',
     jwk = \<lparr>public_key = replicate 32 (CHR 0x00), jwk_x = A43\<rparr>\<rparr>]"
  "mobile_bindings sample_application = [Web ''web:https://app.example'' ''https://app.example'']"
proof -
  define P where "P = projr (profile_from_value sample_externs sample_profile [])"
  have P: "P = sample_application\<lparr>profile_canonical := [], profile_digest := sha256_digest sample_externs []\<rparr>"
    unfolding P_def by (rule sample_application_value)
  have "(app_text (application_id P), allowed_permissions P, max_grant_lifetime_seconds (revocation P),
      enrollment_keys P, mobile_bindings P) =
    (''https://app.example/app'', [sample_permission], 3600,
     [\<lparr>kid = ''https://app.example/keys#k1'', jwk = \<lparr>public_key = replicate 32 (CHR 0x00), jwk_x = A43\<rparr>\<rparr>],
     [Web ''web:https://app.example'' ''https://app.example''])"
    unfolding P_def by code_simp
  then show "app_text (application_id sample_application) = ''https://app.example/app''"
    "allowed_permissions sample_application = [sample_permission]"
    "max_grant_lifetime_seconds (revocation sample_application) = 3600"
    "enrollment_keys sample_application = [\<lparr>kid = ''https://app.example/keys#k1'',
       jwk = \<lparr>public_key = replicate 32 (CHR 0x00), jwk_x = A43\<rparr>\<rparr>]"
    "mobile_bindings sample_application = [Web ''web:https://app.example'' ''https://app.example'']"
    by (simp_all add: P)
qed

definition sample_offer_core :: offer_core where
  "sample_offer_core = sample_core\<lparr>oc_profile_digest := b64url sample_externs (profile_digest sample_application)\<rparr>"

definition sample_observed :: observed where
  "sample_observed = \<lparr>obs_profile = sample_application, obs_offer = sample_offer_core, obs_provider_id = ''p'',
     obs_descriptor_digest = sample_id (CHR ''d''), obs_platform_binding_id = None, obs_now = 1700000010\<rparr>"

abbreviation sample_binding :: mobile_binding where
  "sample_binding \<equiv> Web ''web:https://app.example'' ''https://app.example''"

abbreviation sample_kid :: rust_str where "sample_kid \<equiv> ''https://app.example/keys#k1''"

definition sample_statement :: enrollment_statement where
  "sample_statement = attested sample_externs sample_observed sample_binding ''https://app.example/return''"

lemma sample_profile_digest: "length (profile_digest sample_application) = 32"
  using recognise_profile_ok(3) [OF recognise_sample] sample_sha2_law by simp

lemma sample_offer_core_ok: "core_ok sample_externs sample_offer_core"
  using sample_core_ok sample_profile_digest
  by (simp add: core_ok_def sample_offer_core_def decode_b64url_32_encode [OF rfc4648.base64ct_axioms])

lemma sample_decodes:
  "length bs = 32 \<Longrightarrow> is_ok (decode_b64url_32 sample_externs (b64url sample_externs bs))"
  by (simp add: decode_b64url_32_encode [OF rfc4648.base64ct_axioms])

lemma sample_statement_valid: "statement_valid sample_externs sample_statement"
proof -
  have uris: "parse_application_id ''https://app.example/app'' = Inr sample_app"
    "map_option origin (case recognise_uri sample_permission FRAGMENT_ID of Inr u \<Rightarrow> Some u | Inl _ \<Rightarrow> None) = Some ''https://app.example''"
    "map_option origin (case recognise_uri ''https://app.example/return'' PROVIDER_URL of Inr u \<Rightarrow> Some u | Inl _ \<Rightarrow> None) =
       Some ''https://app.example''"
    "recognise_platform_binding sample_externs ''web:https://app.example'' ''https://app.example'' = Inr ()"
    "is_provider_id ''p''"
    by code_simp+
  have r: "own_fragment ''https://app.example'' sample_permission"
    using uris(2) unfolding own_fragment_def by (auto split: sum.splits)
  obtain ret where ret: "recognise_uri ''https://app.example/return'' PROVIDER_URL = Inr ret" "origin ret = ''https://app.example''"
    using uris(3) by (auto split: sum.splits)
  have sha: "length (sha256_digest sample_externs bs) = 32" for bs
    using sample_sha2_law by (simp add: sha2_law_def)
  have d: "is_ok (decode_b64url_32 sample_externs (sample_id c))" for c by (simp add: sample_id_decodes)
  show ?thesis
    unfolding statement_valid_def
    using uris(1,4,5) r ret sample_profile_digest d sha
    by (simp add: sample_statement_def attested_def sample_observed_def sample_application_enrollment Let_def
        sample_offer_core_def sample_core_def MAX_PERMISSIONS_def stamp_range_def sample_decodes device_key_digest_def
        core_digest_def offer_digest_def PROFILE_VERSION_def)
qed

lemma sample_statement_wf: "json_wf (build_statement sample_statement)"
proof -
  have lit: "valid_utf8 s" if "list_all (\<lambda>c. code c < 0x80) s" for s using that by (rule valid_utf8_ascii)
  note ids = valid_utf8_b64url [OF rfc4648.base64ct_axioms]
  show ?thesis
    by (simp add: build_statement_def sample_statement_def attested_def sample_observed_def Let_def
        sample_application_enrollment sample_offer_core_def sample_core_def sample_id_def device_key_digest_def
        core_digest_def offer_digest_def valid_utf8_stamp stamp_range_def ids lit MAX_SAFE_INTEGER_def PROFILE_VERSION_def)
qed

lemma sample_statement_length: "length (canonicalise (build_statement sample_statement)) \<le> 5000"
proof -
  have l: "length (b64url sample_externs bs) = unpadded_len (length bs)" for bs
    by (simp add: b64url_def rfc4648.encode_length)
  have st: "length (format_date_time_stamp 1700000000) = 20" "length (format_date_time_stamp 1700000120) = 20"
    by (simp_all add: length_stamp stamp_range_def)
  have i: "length (dec_int 1) = 1" by code_simp
  have "text_bound (build_statement sample_statement) \<le> 5000"
    using st i sample_profile_digest
    by (simp add: build_statement_def sample_statement_def attested_def sample_observed_def Let_def
        sample_application_enrollment sample_offer_core_def sample_core_def sample_id_def device_key_digest_def
        core_digest_def offer_digest_def l unpadded_len_def sample_sha2_law PROFILE_VERSION_def)
  then show ?thesis using length_canonicalise le_trans by blast
qed

lemma sample_unsigned:
  "recognise_unsigned sample_externs (canonicalise (build_statement sample_statement)) sample_kid = Inr sample_statement"
proof -
  have h: "length (canonicalise (enrollment_header sample_kid)) \<le> 1000" by code_simp
  have k: "own_kid sample_kid (st_application_id sample_statement)"
  proof -
    have "parse_application_id ''https://app.example/app'' = Inr sample_app"
      "map_option origin (case recognise_uri sample_kid FRAGMENT_ID of Inr u \<Rightarrow> Some u | Inl _ \<Rightarrow> None) = Some ''https://app.example''"
      by code_simp+
    then show ?thesis
      by (auto simp: own_kid_def own_fragment_def sample_statement_def attested_def sample_observed_def Let_def
          sample_application_enrollment split: sum.splits)
  qed
  have "unpadded_len n \<le> 6668" if "n \<le> 5000" for n using that by (simp add: unpadded_len_def)
  from this [OF sample_statement_length] have b: "unpadded_len (length (canonicalise (build_statement sample_statement))) \<le> 6668" .
  have "unpadded_len n \<le> 1334" if "n \<le> 1000" for n using that by (simp add: unpadded_len_def)
  from this [OF h] b show ?thesis
    unfolding unsigned_iff [OF rfc4648.base64ct_axioms] unsigned_payload_iff
    using sample_statement_valid sample_statement_wf sample_statement_length k h by simp
qed

section \<open>Properties\<close>

text \<open>
  The recogniser of an unsigned statement, which runs before a backend signs, accepts exactly the
  canonical serialisations of valid statements within the bound, and reads back the statement that
  was built: a valid statement has one spelling.
\<close>

theorem recognise_unsigned_payload_exact:
  "recognise_unsigned_payload X octs = Inr s \<longleftrightarrow>
     statement_valid X s \<and> json_wf (build_statement s) \<and> octs = canonicalise (build_statement s) \<and> length octs \<le> 8192"
  by (rule unsigned_payload_iff)

text \<open>
  What passes the check before signing is recognised after it: the signed statement is
  recognised as the same statement, under the same key name, and verifies under the backend's key,
  so the size bound of the check leaves room for the header and the signature.
\<close>

theorem checked_statement_signs:
  assumes "base64ct X" "ed25519_law X key"
    and "recognise_unsigned X (canonicalise (build_statement s)) k = Inr s" "valid_utf8 k"
  shows "\<exists>signed. recognise_enrollment X (sign_statement X s k key) = Inr (s, signed) \<and> jws_kid signed = k \<and>
    verify_jws X signed (sk_public X key) = Inr ()"
  using assms by (rule signed_statement_recognised)

theorem checked_statement_signs_witness:
  "\<exists>signed. recognise_enrollment sample_externs (sign_statement sample_externs sample_statement sample_kid ''backend-key'') =
      Inr (sample_statement, signed) \<and> jws_kid signed = sample_kid \<and>
    verify_jws sample_externs signed (sk_public sample_externs ''backend-key'') = Inr ()"
  by (rule checked_statement_signs [OF rfc4648.base64ct_axioms sample_ed25519_law sample_unsigned])
     (rule valid_utf8_ascii, simp)

text \<open>
  C21. The verification of enrollment evidence is exactly this: the evidence is a statement signed by
  the profile's own key of its \<open>kid\<close>; it names a binding the profile declares and the platform
  observed; the clock is in its window; the offer asks of the profile itself something the profile
  allows; and the statement, but for the return URI, is the one determined by what the wallet
  observed - member for member, digests included.
\<close>

theorem verify_enrollment_exact:
  "verify_enrollment X compact obs = Inr s \<longleftrightarrow>
     (\<exists>signed key b. recognise_enrollment X compact = Inr (s, signed) \<and>
        List.find (\<lambda>k. kid k = jws_kid signed) (enrollment_keys (obs_profile obs)) = Some key \<and>
        verify_jws X signed (public_key (jwk key)) = Inr () \<and>
        List.find (\<lambda>b. binding_id b = st_platform_binding_id s) (mobile_bindings (obs_profile obs)) = Some b \<and>
        binding_observed b (obs_platform_binding_id obs) \<and> return_declared b (st_return_uri s) \<and>
        offer_of_profile X obs \<and> s = attested X obs b (st_return_uri s) \<and>
        obs_now obs \<in> {st_issued_at s ..< st_expires_at s})"
  by (rule verify_enrollment_lemma)

text \<open>
  A request id is consumed once: over any sequence of requests, each is answered with success at
  its first occurrence and with a replay at every later one, and the ledger holds every id once.
\<close>

theorem request_ids_single_use:
  "consume_all new_request_ledger ids =
     (fst (consume_all new_request_ledger ids),
      map (\<lambda>n. if ids ! n \<in> set (take n ids) then Inl EnrollmentReplay else Inr ()) [0..<length ids]) \<and>
   set (consumed (fst (consume_all new_request_ledger ids))) = set ids \<and>
   distinct (consumed (fst (consume_all new_request_ledger ids)))"
  using consume_all_from [of new_request_ledger ids "fst (consume_all new_request_ledger ids)"
      "snd (consume_all new_request_ledger ids)"]
  by (simp add: new_request_ledger_def prod_eq_iff)

end
