(* ===== verification/Authorise.thy ===== *)
theory Authorise
  imports Enrollment
begin

text \<open>
  The wallet's decision to issue a device grant (\<open>authorise.rs\<close>): profile, ceremony binding, offer,
  provider hint, enrollment evidence and scope, in the order of the source. The lemmas give the exact
  condition of the decision and show that its parameters are those \<open>grant::issue\<close> needs.
\<close>

section \<open>Types\<close>

datatype authorise_error =
    AuthUnverifiedApplication | AuthOfferMalformed | AuthOfferExpired | AuthScopeNotCanonical
  | ProfileNotBound | HintMismatch

record authorised =
  au_profile :: application_profile
  au_offer :: offer_core
  au_scope :: account_scope_id
  au_valid_from :: unix_seconds
  au_valid_until :: unix_seconds

record observation =
  on_profile_digest :: rust_str
  on_provider_id :: rust_str
  on_descriptor_digest :: rust_str
  on_platform_binding_id :: "rust_str option"
  on_now :: unix_seconds

section \<open>The decision\<close>

definition observed_of :: "observation \<Rightarrow> application_profile \<Rightarrow> offer_core \<Rightarrow> observed" where
  "observed_of obs P c =
     \<lparr>obs_profile = P, obs_offer = c, obs_provider_id = on_provider_id obs,
      obs_descriptor_digest = on_descriptor_digest obs, obs_platform_binding_id = on_platform_binding_id obs,
      obs_now = on_now obs\<rparr>"

definition authorise :: "externs \<Rightarrow> octets \<Rightarrow> octets \<Rightarrow> observation \<Rightarrow> authorise_error + authorised" where
  "authorise X offer_octs profile_octs obs =
     and_then (map_err (\<lambda>_. AuthUnverifiedApplication) (recognise_profile X profile_octs)) (\<lambda>P.
     if b64url X (profile_digest P) \<noteq> on_profile_digest obs then Inl ProfileNotBound
     else
     and_then (map_err (\<lambda>_. AuthOfferMalformed) (recognise_offer X offer_octs)) (\<lambda>p.
     let c = op_core p in
     if oc_application_id c \<noteq> app_text (application_id P) then Inl AuthUnverifiedApplication
     else if on_now obs \<ge> oc_expires_at c then Inl AuthOfferExpired
     else
     and_then (map_err (\<lambda>_. HintMismatch) (recognise_hint (op_provider_hint p))) (\<lambda>h.
     if hint_application_id h \<noteq> app_text (application_id P)
       \<or> hint_provider_id h \<noteq> on_provider_id obs
       \<or> hint_descriptor_digest h \<noteq> on_descriptor_digest obs
       \<or> hint_offer_digest h \<noteq> op_offer_digest p
     then Inl HintMismatch
     else
     and_then (map_err (\<lambda>_. AuthUnverifiedApplication)
       (verify_enrollment X (op_enrollment_evidence p) (observed_of obs P c))) (\<lambda>_.
     and_then (map_err (\<lambda>_. AuthScopeNotCanonical) (parse_scope X (oc_account_scope_id c))) (\<lambda>scope.
     let until = i64_add (on_now obs) (max_grant_lifetime_seconds (revocation P)) in
     Inr \<lparr>au_profile = P, au_offer = c, au_scope = scope, au_valid_from = on_now obs, au_valid_until = until\<rparr>)))))"

section \<open>The decision, exactly\<close>

text \<open>The hint names what the wallet observed; its profile version is not compared.\<close>

definition hint_bound :: "observation \<Rightarrow> application_profile \<Rightarrow> rust_str \<Rightarrow> json \<Rightarrow> bool" where
  "hint_bound obs P digest j \<longleftrightarrow>
     (\<exists>version. recognise_hint j = Inr \<lparr>hint_application_id = app_text (application_id P),
        hint_profile_version = version, hint_provider_id = on_provider_id obs,
        hint_descriptor_digest = on_descriptor_digest obs, hint_offer_digest = digest\<rparr>)"

lemma hint_bound_iff:
  "hint_bound obs P digest j \<longleftrightarrow>
     (\<exists>h. recognise_hint j = Inr h \<and> hint_application_id h = app_text (application_id P) \<and>
        hint_provider_id h = on_provider_id obs \<and> hint_descriptor_digest h = on_descriptor_digest obs \<and>
        hint_offer_digest h = digest)"
proof
  assume "\<exists>h. recognise_hint j = Inr h \<and> hint_application_id h = app_text (application_id P) \<and>
        hint_provider_id h = on_provider_id obs \<and> hint_descriptor_digest h = on_descriptor_digest obs \<and>
        hint_offer_digest h = digest"
  then obtain h where h: "recognise_hint j = Inr h" "hint_application_id h = app_text (application_id P)"
    "hint_provider_id h = on_provider_id obs" "hint_descriptor_digest h = on_descriptor_digest obs"
    "hint_offer_digest h = digest" by blast
  then show "hint_bound obs P digest j"
    unfolding hint_bound_def by (intro exI [of _ "hint_profile_version h"]) (cases h, simp)
qed (auto simp: hint_bound_def)

lemma authorise_iff:
  "authorise X offer_octs profile_octs obs = Inr a \<longleftrightarrow>
     (\<exists>p s. recognise_profile X profile_octs = Inr (au_profile a) \<and>
        b64url X (profile_digest (au_profile a)) = on_profile_digest obs \<and>
        recognise_offer X offer_octs = Inr p \<and> op_core p = au_offer a \<and>
        oc_application_id (au_offer a) = app_text (application_id (au_profile a)) \<and>
        on_now obs < oc_expires_at (au_offer a) \<and>
        hint_bound obs (au_profile a) (op_offer_digest p) (op_provider_hint p) \<and>
        verify_enrollment X (op_enrollment_evidence p) (observed_of obs (au_profile a) (au_offer a)) = Inr s \<and>
        parse_scope X (oc_account_scope_id (au_offer a)) = Inr (au_scope a) \<and>
        au_valid_from a = on_now obs \<and>
        au_valid_until a = i64_add (on_now obs) (max_grant_lifetime_seconds (revocation (au_profile a))))"
  unfolding authorise_def Let_def hint_bound_iff
  by (cases a) (auto simp: res_iff not_le)

text \<open>What the enrollment evidence says of an authorised offer.\<close>

definition attested_offer :: "externs \<Rightarrow> rust_str \<Rightarrow> observed \<Rightarrow> bool" where
  "attested_offer X compact obs \<longleftrightarrow>
     (\<exists>s signed key b. recognise_enrollment X compact = Inr (s, signed) \<and>
        key \<in> set (enrollment_keys (obs_profile obs)) \<and> kid key = jws_kid signed \<and>
        verify_jws X signed (public_key (jwk key)) = Inr () \<and>
        b \<in> set (mobile_bindings (obs_profile obs)) \<and> binding_observed b (obs_platform_binding_id obs) \<and>
        return_declared b (st_return_uri s) \<and> s = attested X obs b (st_return_uri s))"

lemma verified_enrollment:
  assumes "verify_enrollment X compact obs = Inr s"
  shows "attested_offer X compact obs" "offer_of_profile X obs"
    "oc_issued_at (obs_offer obs) \<le> obs_now obs" "obs_now obs < oc_expires_at (obs_offer obs)"
proof -
  from assms obtain signed key b where v: "recognise_enrollment X compact = Inr (s, signed)"
      "List.find (\<lambda>k. kid k = jws_kid signed) (enrollment_keys (obs_profile obs)) = Some key"
      "verify_jws X signed (public_key (jwk key)) = Inr ()"
      "List.find (\<lambda>b. binding_id b = st_platform_binding_id s) (mobile_bindings (obs_profile obs)) = Some b"
      "binding_observed b (obs_platform_binding_id obs)" "return_declared b (st_return_uri s)"
      "offer_of_profile X obs" "s = attested X obs b (st_return_uri s)"
      "obs_now obs \<in> {st_issued_at s ..< st_expires_at s}"
    unfolding verify_enrollment_lemma by blast
  have k: "key \<in> set (enrollment_keys (obs_profile obs))" "kid key = jws_kid signed"
    using v(2) by (auto simp: find_Some_iff)
  have b: "b \<in> set (mobile_bindings (obs_profile obs))" using v(4) by (auto simp: find_Some_iff)
  show "attested_offer X compact obs"
    unfolding attested_offer_def
    by (rule exI [of _ s], rule exI [of _ signed], rule exI [of _ key], rule exI [of _ b])
       (intro conjI v(1,3,5,6,8) k b)
  show "offer_of_profile X obs" by fact
  have w: "st_issued_at (attested X obs b u) = oc_issued_at (obs_offer obs)"
    "st_expires_at (attested X obs b u) = oc_expires_at (obs_offer obs)" for u
    by (simp_all add: attested_def Let_def)
  show "oc_issued_at (obs_offer obs) \<le> obs_now obs" "obs_now obs < oc_expires_at (obs_offer obs)"
    using v(9) v(8) w by (metis atLeastLessThan_iff)+
qed

text \<open>A recognised offer has a proper core.\<close>

lemma recognised_core_ok:
  assumes X: "base64ct X" and r: "recognise_offer X octs = Inr p"
  shows "core_ok X (op_core p)"
proof -
  let ?c = "op_core p"
  obtain j where j: "recognise_json octs PAYLOAD_LIMITS = Inr j" and ok: "offer_ok X j p"
    using r by (auto simp: recognise_offer_iff)
  note wf = json_wf_get [OF recognise_json_wf(1) [OF j]]
  have vals: "get j ''applicationId'' = Some (String (oc_application_id ?c))"
    "get j ''profileVersion'' = Some (Integer (oc_profile_version ?c))"
    "get j ''requestedPermissions'' = Some (Array (map String (oc_requested_permissions ?c)))"
    using ok by (simp_all add: offer_ok_def Let_def)
  obtain dj where dj: "get j ''deviceKeyJwk'' = Some dj" "recognise_device_jwk X dj = Inr (oc_device_public_key ?c)"
    using ok by (auto simp: offer_ok_def Let_def)
  have "length (oc_device_public_key ?c) = 32"
    using dj(2) recognise_device_jwk_iff [OF wf [OF dj(1)]] canonical_codec.dec_Inr_iff [OF b64url_codec [OF X, of 32]]
    by (auto simp: jwk_members_ok_def decode_b64url_32_def)
  moreover have "valid_utf8 (oc_application_id ?c)" "\<bar>oc_profile_version ?c\<bar> \<le> MAX_SAFE_INTEGER"
    "\<forall>perm \<in> set (oc_requested_permissions ?c). valid_utf8 perm"
    using wf [OF vals(1)] wf [OF vals(2)] wf [OF vals(3)] by simp_all
  ultimately show ?thesis
    using ok by (simp add: core_ok_def offer_ok_def Let_def matches_jwk_iff not_isl_iff)
qed

lemma authorised_facts:
  assumes X: "base64ct X" and a: "authorise X offer_octs profile_octs obs = Inr a"
  shows "core_ok X (au_offer a)" "profile_ok X (au_profile a)" "offer_of_profile X (observed_of obs (au_profile a) (au_offer a))"
    "oc_issued_at (au_offer a) \<le> au_valid_from a" "au_valid_from a < oc_expires_at (au_offer a)"
    "au_valid_until a = au_valid_from a + max_grant_lifetime_seconds (revocation (au_profile a))"
proof -
  obtain p s where f: "recognise_profile X profile_octs = Inr (au_profile a)" "recognise_offer X offer_octs = Inr p"
      "op_core p = au_offer a"
      "verify_enrollment X (op_enrollment_evidence p) (observed_of obs (au_profile a) (au_offer a)) = Inr s"
      "au_valid_from a = on_now obs"
      "au_valid_until a = i64_add (on_now obs) (max_grant_lifetime_seconds (revocation (au_profile a)))"
    using a unfolding authorise_iff by blast
  show c: "core_ok X (au_offer a)" using recognised_core_ok [OF X f(2)] f(3) by simp
  show P: "profile_ok X (au_profile a)" by (rule recognise_profile_ok(1) [OF f(1)])
  note v = verified_enrollment [OF f(4)]
  show "offer_of_profile X (observed_of obs (au_profile a) (au_offer a))" by (rule v(2))
  show w: "oc_issued_at (au_offer a) \<le> au_valid_from a" "au_valid_from a < oc_expires_at (au_offer a)"
    using v(3,4) f(5) by (simp_all add: observed_of_def)
  have "is_i64 (on_now obs + max_grant_lifetime_seconds (revocation (au_profile a)))"
    using w c P f(5)
    by (simp add: core_ok_def stamp_range_def profile_ok_def revocation_ok_def is_i64_def i64_min_def i64_max_def)
  then show "au_valid_until a = au_valid_from a + max_grant_lifetime_seconds (revocation (au_profile a))"
    by (simp add: f(5,6) i64_add_exact)
qed

lemma authorised_issuable:
  assumes X: "base64ct X" and a: "authorise X offer_octs profile_octs obs = Inr a"
    and home: "starts_with ''did:crdt:'' home_did" "CHR ''#'' \<notin> set home_did" "length token_octets = 32"
    and acct: "parse_acct_uri (acct_text acct) = Inr acct" "is_stable acct"
    and year: "stamp_range (au_valid_until a)"
  shows "issuable X home_did token_octets (oc_device_public_key (au_offer a)) acct
    (oc_requested_permissions (au_offer a)) (au_valid_from a) (au_valid_until a)"
proof -
  note f = authorised_facts [OF X a]
  have "stamp_range (au_valid_from a)" using f(1,4,5) by (simp add: core_ok_def stamp_range_def)
  moreover have "au_valid_from a < au_valid_until a"
    using f(2,6) by (simp add: profile_ok_def revocation_ok_def)
  ultimately show ?thesis using f(1) home acct year by (simp add: issuable_def core_ok_def)
qed

section \<open>An honest offer\<close>

text \<open>What the application's backend and the device put together, for a wallet that observed the same.\<close>

definition honest_hint :: "externs \<Rightarrow> observation \<Rightarrow> application_profile \<Rightarrow> offer_core \<Rightarrow> json" where
  "honest_hint X obs P c = hint_to_json
     \<lparr>hint_application_id = app_text (application_id P), hint_profile_version = PROFILE_VERSION,
      hint_provider_id = on_provider_id obs, hint_descriptor_digest = on_descriptor_digest obs,
      hint_offer_digest = core_digest X c\<rparr>"

definition honest_offer ::
  "externs \<Rightarrow> observation \<Rightarrow> application_profile \<Rightarrow> offer_core \<Rightarrow> mobile_binding \<Rightarrow> rust_str \<Rightarrow> rust_str \<Rightarrow> octets \<Rightarrow> octets"
where
  "honest_offer X obs P c b u k backend_key = canonicalise (offer_document X c
     (sign_statement X (attested X (observed_of obs P c) b u) k backend_key) (honest_hint X obs P c))"

lemma honest_hint_bound:
  assumes "json_wf (honest_hint X obs P c)"
  shows "hint_bound obs P (core_digest X c) (sort_members (honest_hint X obs P c))"
proof -
  have "recognise_hint (honest_hint X obs P c) = Inr \<lparr>hint_application_id = app_text (application_id P),
      hint_profile_version = PROFILE_VERSION, hint_provider_id = on_provider_id obs,
      hint_descriptor_digest = on_descriptor_digest obs, hint_offer_digest = core_digest X c\<rparr>" (is "_ = Inr ?h")
    unfolding honest_hint_def by (rule recognise_hint_to_json)
  then have "recognise_hint (sort_members (honest_hint X obs P c)) = Inr ?h"
    unfolding recognise_hint_iff by (simp add: get_sort_members [OF assms] has_members_sort_members)
  then show ?thesis unfolding hint_bound_def by blast
qed

lemma signed_statement_utf8:
  assumes "base64ct X"
  shows "valid_utf8 (sign_statement X s k backend_key)"
proof -
  have "valid_utf8 ''.''" by (rule valid_utf8_ascii) simp
  then show ?thesis
    unfolding sign_statement_def sign_jws_def Let_def
    using valid_utf8_b64url [OF assms] by (metis valid_utf8_append)
qed

lemma honest_offer_lemma:
  assumes X: "base64ct X" "ed25519_law X backend_key"
    and P: "recognise_profile X profile_octs = Inr P" "on_profile_digest obs = b64url X (profile_digest P)"
    and c: "core_ok X c" "offer_of_profile X (observed_of obs P c)" "on_now obs \<in> {oc_issued_at c ..< oc_expires_at c}"
    and key: "List.find (\<lambda>e. kid e = k) (enrollment_keys P) = Some key" "public_key (jwk key) = sk_public X backend_key"
    and b: "List.find (\<lambda>d. binding_id d = binding_id b) (mobile_bindings P) = Some b"
      "binding_observed b (on_platform_binding_id obs)" "return_declared b u"
    and s: "recognise_unsigned X (canonicalise (build_statement (attested X (observed_of obs P c) b u))) k =
        Inr (attested X (observed_of obs P c) b u)" "valid_utf8 k"
    and wf: "json_wf (honest_hint X obs P c)"
      "length (honest_offer X obs P c b u k backend_key) \<le> MAX_PAYLOAD_OCTETS"
  shows "\<exists>scope. parse_scope X (oc_account_scope_id c) = Inr scope \<and>
    authorise X (honest_offer X obs P c b u k backend_key) profile_octs obs =
      Inr \<lparr>au_profile = P, au_offer = c, au_scope = scope, au_valid_from = on_now obs,
        au_valid_until = on_now obs + max_grant_lifetime_seconds (revocation P)\<rparr>"
proof -
  let ?s = "attested X (observed_of obs P c) b u"
  let ?ev = "sign_statement X ?s k backend_key"
  obtain scope where scope: "parse_scope X (oc_account_scope_id c) = Inr scope"
    using c(1) by (auto simp: core_ok_def not_isl_iff)
  have "json_depth (honest_hint X obs P c) \<le> 7" by (simp add: honest_hint_def hint_to_json_def)
  from recognise_offer_document [OF X(1) c(1) signed_statement_utf8 [OF X(1)] wf(1) this wf(2) [unfolded honest_offer_def]]
  have r: "recognise_offer X (honest_offer X obs P c b u k backend_key) =
      Inr \<lparr>op_core = c, op_enrollment_evidence = ?ev, op_provider_hint = sort_members (honest_hint X obs P c),
        op_offer_digest = core_digest X c\<rparr>"
    by (simp only: honest_offer_def)
  obtain signed where signed: "recognise_enrollment X ?ev = Inr (?s, signed)" "jws_kid signed = k"
      "verify_jws X signed (sk_public X backend_key) = Inr ()"
    using signed_statement_recognised [OF X s] by blast
  have st: "st_platform_binding_id ?s = binding_id b" "st_return_uri ?s = u" "st_issued_at ?s = oc_issued_at c"
    "st_expires_at ?s = oc_expires_at c"
    by (simp_all add: attested_def observed_of_def Let_def)
  have ob: "obs_profile (observed_of obs P c) = P" "obs_platform_binding_id (observed_of obs P c) = on_platform_binding_id obs"
    "obs_now (observed_of obs P c) = on_now obs"
    by (simp_all add: observed_of_def)
  have v: "verify_enrollment X ?ev (observed_of obs P c) = Inr ?s"
    unfolding verify_enrollment_lemma ob st
    by (rule exI [of _ signed], rule exI [of _ key], rule exI [of _ b])
       (use signed key b c in \<open>simp only: simp_thms\<close>)
  have app: "oc_application_id c = app_text (application_id P)"
    using c(2) by (simp add: offer_of_profile_def observed_of_def)
  have "is_i64 (on_now obs + max_grant_lifetime_seconds (revocation P))"
    using c(1,3) recognise_profile_ok(1) [OF P(1)]
    by (simp add: core_ok_def stamp_range_def profile_ok_def revocation_ok_def is_i64_def i64_min_def i64_max_def)
  then show ?thesis
    using P r v app scope c(3) honest_hint_bound [OF wf(1)]
    by (intro exI [of _ scope] conjI scope)
       (simp add: authorise_iff i64_add_exact)
qed

section \<open>A wallet to evaluate\<close>

definition sample_wallet :: observation where
  "sample_wallet = \<lparr>on_profile_digest = b64url sample_externs (profile_digest sample_application), on_provider_id = ''p'',
     on_descriptor_digest = sample_id (CHR ''d''), on_platform_binding_id = None, on_now = 1700000010\<rparr>"

lemma sample_wallet_observes: "observed_of sample_wallet sample_application sample_offer_core = sample_observed"
  by (simp add: observed_of_def sample_wallet_def sample_observed_def)

lemma sample_hint_wf: "json_wf (honest_hint sample_externs sample_wallet sample_application sample_offer_core)"
proof -
  have lit: "valid_utf8 s" if "list_all (\<lambda>c. code c < 0x80) s" for s using that by (rule valid_utf8_ascii)
  show ?thesis
    by (simp add: honest_hint_def hint_to_json_def sample_wallet_def sample_application_enrollment sample_id_def
        core_digest_def offer_digest_def valid_utf8_b64url [OF rfc4648.base64ct_axioms] lit MAX_SAFE_INTEGER_def
        PROFILE_VERSION_def)
qed

abbreviation sample_backend_key :: octets where "sample_backend_key \<equiv> replicate 32 (CHR 0x00)"

definition sample_honest_offer :: octets where
  "sample_honest_offer = honest_offer sample_externs sample_wallet sample_application sample_offer_core sample_binding
     ''https://app.example/return'' sample_kid sample_backend_key"

lemma sample_honest_offer_length: "length sample_honest_offer \<le> MAX_PAYLOAD_OCTETS"
proof -
  let ?ev = "sign_statement sample_externs sample_statement sample_kid sample_backend_key"
  have "length (canonicalise (enrollment_header sample_kid)) \<le> 4096"
    "unpadded_len (length (canonicalise (enrollment_header sample_kid))) +
      unpadded_len (length (canonicalise (build_statement sample_statement))) + 88 \<le> 8192"
    using sample_unsigned unfolding unsigned_iff [OF rfc4648.base64ct_axioms] by blast+
  then have ev: "length ?ev \<le> 8192"
    unfolding sign_statement_def length_sign_jws [OF rfc4648.base64ct_axioms sample_ed25519_law] by simp
  have l: "length (b64url sample_externs bs) = unpadded_len (length bs)" for bs
    by (simp add: b64url_def rfc4648.encode_length)
  have key: "length sample_device_key = 32" by (simp add: sample_device_key_def)
  have st: "length (format_date_time_stamp 1700000000) = 20" "length (format_date_time_stamp 1700000120) = 20"
    by (simp_all add: length_stamp stamp_range_def)
  have i: "length (dec_int 1) = 1" by code_simp
  have "text_bound (offer_document sample_externs sample_offer_core ?ev
      (honest_hint sample_externs sample_wallet sample_application sample_offer_core)) \<le> 69607"
    using ev st i key length_did_key [OF key] sample_profile_digest
    by (simp add: offer_document_def core_to_json_def device_jwk_def sample_offer_core_def sample_core_def
        honest_hint_def hint_to_json_def sample_wallet_def sample_application_enrollment sample_id_def core_digest_def
        offer_digest_def l unpadded_len_def sample_sha2_law PROFILE_VERSION_def)
  then show ?thesis
    unfolding sample_honest_offer_def honest_offer_def sample_wallet_observes sample_statement_def [symmetric]
      MAX_PAYLOAD_OCTETS_def
    using length_canonicalise le_trans by blast
qed

text \<open>The conditions under which the sample offer is honest.\<close>

lemma sample_honest:
  "on_profile_digest sample_wallet = b64url sample_externs (profile_digest sample_application)"
  "core_ok sample_externs sample_offer_core"
  "offer_of_profile sample_externs (observed_of sample_wallet sample_application sample_offer_core)"
  "on_now sample_wallet \<in> {oc_issued_at sample_offer_core ..< oc_expires_at sample_offer_core}"
  "List.find (\<lambda>e. kid e = sample_kid) (enrollment_keys sample_application) =
     Some \<lparr>kid = sample_kid, jwk = \<lparr>public_key = sample_backend_key, jwk_x = A43\<rparr>\<rparr>"
  "public_key (jwk \<lparr>kid = sample_kid, jwk = \<lparr>public_key = sample_backend_key, jwk_x = A43\<rparr>\<rparr>) =
     sk_public sample_externs sample_backend_key"
  "List.find (\<lambda>d. binding_id d = binding_id sample_binding) (mobile_bindings sample_application) = Some sample_binding"
  "binding_observed sample_binding (on_platform_binding_id sample_wallet)"
  "return_declared sample_binding ''https://app.example/return''"
  "recognise_unsigned sample_externs (canonicalise (build_statement (attested sample_externs
      (observed_of sample_wallet sample_application sample_offer_core) sample_binding ''https://app.example/return''))) sample_kid =
    Inr (attested sample_externs (observed_of sample_wallet sample_application sample_offer_core) sample_binding
      ''https://app.example/return'')"
  "valid_utf8 sample_kid"
  "json_wf (honest_hint sample_externs sample_wallet sample_application sample_offer_core)"
  "length (honest_offer sample_externs sample_wallet sample_application sample_offer_core sample_binding
     ''https://app.example/return'' sample_kid sample_backend_key) \<le> MAX_PAYLOAD_OCTETS"
proof -
  show "recognise_unsigned sample_externs (canonicalise (build_statement (attested sample_externs
      (observed_of sample_wallet sample_application sample_offer_core) sample_binding ''https://app.example/return''))) sample_kid =
    Inr (attested sample_externs (observed_of sample_wallet sample_application sample_offer_core) sample_binding
      ''https://app.example/return'')"
    unfolding sample_wallet_observes sample_statement_def [symmetric] by (rule sample_unsigned)
  show "length (honest_offer sample_externs sample_wallet sample_application sample_offer_core sample_binding
     ''https://app.example/return'' sample_kid sample_backend_key) \<le> MAX_PAYLOAD_OCTETS"
    using sample_honest_offer_length unfolding sample_honest_offer_def .
  show "valid_utf8 sample_kid" by (rule valid_utf8_ascii) simp
  show "public_key (jwk \<lparr>kid = sample_kid, jwk = \<lparr>public_key = sample_backend_key, jwk_x = A43\<rparr>\<rparr>) =
     sk_public sample_externs sample_backend_key"
    by (simp add: sample_externs_def zero_pad_def)
  show "core_ok sample_externs sample_offer_core" by (rule sample_offer_core_ok)
  show "json_wf (honest_hint sample_externs sample_wallet sample_application sample_offer_core)" by (rule sample_hint_wf)
qed (simp_all add: sample_wallet_def sample_application_enrollment offer_of_profile_def observed_of_def
    sample_offer_core_def sample_core_def binding_observed_def return_declared_def PROFILE_VERSION_def)

lemma sample_wallet_values:
  "on_now sample_wallet = 1700000010"
  "1700000010 + max_grant_lifetime_seconds (revocation sample_application) = 1700003610"
  by (simp_all add: sample_wallet_def sample_application_enrollment)

lemma sample_authorised:
  "\<exists>a. authorise sample_externs sample_honest_offer sample_octets sample_wallet = Inr a"
  unfolding sample_honest_offer_def
  using honest_offer_lemma [OF rfc4648.base64ct_axioms sample_ed25519_law recognise_sample sample_honest] by blast

section \<open>Properties\<close>

text \<open>
  C22. What the wallet authorises is what it checked: the profile is the one the ceremony is bound to;
  the offer is of that profile, asks only what the profile allows, and is in its window of at most
  120 seconds; the hint names the application, the provider and descriptor the wallet selected, and
  the digest of this very offer; the evidence is signed by a key of the profile over the statement
  that these observations determine; and the lifetime is the profile's, at most 30 days, without
  wrap-around.
\<close>

theorem authorise_sound:
  assumes "base64ct X" "authorise X offer_octs profile_octs obs = Inr a"
  shows "recognise_profile X profile_octs = Inr (au_profile a) \<and>
    b64url X (profile_digest (au_profile a)) = on_profile_digest obs \<and>
    (\<exists>p. recognise_offer X offer_octs = Inr p \<and> op_core p = au_offer a \<and>
       hint_bound obs (au_profile a) (core_digest X (au_offer a)) (op_provider_hint p) \<and>
       attested_offer X (op_enrollment_evidence p) (observed_of obs (au_profile a) (au_offer a))) \<and>
    offer_of_profile X (observed_of obs (au_profile a) (au_offer a)) \<and>
    oc_issued_at (au_offer a) \<le> on_now obs \<and> on_now obs < oc_expires_at (au_offer a) \<and>
    oc_expires_at (au_offer a) \<le> oc_issued_at (au_offer a) + 120 \<and>
    scope_text (au_scope a) = oc_account_scope_id (au_offer a) \<and> au_valid_from a = on_now obs \<and>
    au_valid_until a = on_now obs + max_grant_lifetime_seconds (revocation (au_profile a)) \<and>
    au_valid_until a \<in> {on_now obs <.. on_now obs + 2592000}"
proof -
  obtain p s where f: "recognise_profile X profile_octs = Inr (au_profile a)"
      "b64url X (profile_digest (au_profile a)) = on_profile_digest obs"
      "recognise_offer X offer_octs = Inr p" "op_core p = au_offer a"
      "hint_bound obs (au_profile a) (op_offer_digest p) (op_provider_hint p)"
      "verify_enrollment X (op_enrollment_evidence p) (observed_of obs (au_profile a) (au_offer a)) = Inr s"
      "parse_scope X (oc_account_scope_id (au_offer a)) = Inr (au_scope a)" "au_valid_from a = on_now obs"
    using assms(2) unfolding authorise_iff by blast
  have "op_offer_digest p = core_digest X (au_offer a)"
    using received_digest [OF assms(1)] recognise_json_wf(1) f(3,4) unfolding recognise_offer_iff by metis
  then have p: "\<exists>p. recognise_offer X offer_octs = Inr p \<and> op_core p = au_offer a \<and>
       hint_bound obs (au_profile a) (core_digest X (au_offer a)) (op_provider_hint p) \<and>
       attested_offer X (op_enrollment_evidence p) (observed_of obs (au_profile a) (au_offer a))"
    using f(3-5) verified_enrollment(1) [OF f(6)] by auto
  have "scope_text (au_scope a) = oc_account_scope_id (au_offer a)"
    using f(7) by (auto simp: parse_scope_def res_iff split: if_splits) (metis account_scope_id.select_convs(1))
  then show ?thesis
    using f(1,2,8) p authorised_facts [OF assms]
    by (simp add: core_ok_def profile_ok_def revocation_ok_def)
qed

theorem authorise_sound_witness:
  "\<exists>a. authorise sample_externs sample_honest_offer sample_octets sample_wallet = Inr a \<and>
     au_valid_until a = au_valid_from a + max_grant_lifetime_seconds (revocation (au_profile a))"
proof -
  obtain a where a: "authorise sample_externs sample_honest_offer sample_octets sample_wallet = Inr a"
    using sample_authorised by blast
  then show ?thesis using authorise_sound [OF rfc4648.base64ct_axioms a] by auto
qed

text \<open>
  C23. An honest offer is authorised: when the backend signs, with a key the profile names, the
  statement that the wallet's observations determine, the device wraps it with its hint in an offer
  of the profile, and the clock is in the offer's window, the wallet's decision is positive and hands
  on exactly the offer that was made, with the profile's own lifetime.
\<close>

theorem honest_offer_authorised:
  assumes "base64ct X" "ed25519_law X backend_key"
    and "recognise_profile X profile_octs = Inr P" "on_profile_digest obs = b64url X (profile_digest P)"
    and "core_ok X c" "offer_of_profile X (observed_of obs P c)" "on_now obs \<in> {oc_issued_at c ..< oc_expires_at c}"
    and "List.find (\<lambda>e. kid e = k) (enrollment_keys P) = Some key" "public_key (jwk key) = sk_public X backend_key"
    and "List.find (\<lambda>d. binding_id d = binding_id b) (mobile_bindings P) = Some b"
      "binding_observed b (on_platform_binding_id obs)" "return_declared b u"
    and "recognise_unsigned X (canonicalise (build_statement (attested X (observed_of obs P c) b u))) k =
        Inr (attested X (observed_of obs P c) b u)" "valid_utf8 k"
    and "json_wf (honest_hint X obs P c)" "length (honest_offer X obs P c b u k backend_key) \<le> MAX_PAYLOAD_OCTETS"
  shows "\<exists>scope. parse_scope X (oc_account_scope_id c) = Inr scope \<and>
    authorise X (honest_offer X obs P c b u k backend_key) profile_octs obs =
      Inr \<lparr>au_profile = P, au_offer = c, au_scope = scope, au_valid_from = on_now obs,
        au_valid_until = on_now obs + max_grant_lifetime_seconds (revocation P)\<rparr>"
  using assms by (rule honest_offer_lemma)

theorem honest_offer_authorised_witness:
  "\<exists>scope. authorise sample_externs sample_honest_offer sample_octets sample_wallet =
     Inr \<lparr>au_profile = sample_application, au_offer = sample_offer_core, au_scope = scope, au_valid_from = 1700000010,
       au_valid_until = 1700003610\<rparr>"
proof -
  show ?thesis
    using honest_offer_authorised [OF rfc4648.base64ct_axioms sample_ed25519_law recognise_sample sample_honest]
    unfolding sample_wallet_values sample_honest_offer_def by blast
qed

end
