(* ===== verification/Relay.thy ===== *)
theory Relay
  imports Profile
begin

unbundle bit_operations_syntax

text \<open>
  Relay selection (\<open>cbcl_relay.rs\<close>): the local policy over the relays of an authenticated profile and
  the weighted choice among those of the lowest priority. The lemmas show that a choice is always
  eligible and that each relay of the group is drawn in proportion to its weight.
\<close>

section \<open>Policy\<close>

record relay_policy =
  forbidden_operator_ids :: "rust_str list"
  approved_conformance :: "octets list"
  allow_loopback :: bool

datatype relay_selection_error = NoEligibleRelay | InvitationOrigin

definition ends_with :: "rust_str \<Rightarrow> rust_str \<Rightarrow> bool" where
  "ends_with q s \<longleftrightarrow> strip_suffix q s \<noteq> None"

definition origin_host :: "rust_str \<Rightarrow> rust_str" where
  "origin_host org =
     (let authority = (case strip_prefix ''https://'' org of Some a \<Rightarrow> a | None \<Rightarrow> org) in
      case strip_prefix ''['' authority of
        Some r \<Rightarrow> hd (split_on (CHR '']'') r)
      | None \<Rightarrow> hd (split_on (CHR '':'') authority))"

definition is_octet_text :: "rust_str \<Rightarrow> bool" where
  "is_octet_text part \<longleftrightarrow>
     part \<noteq> [] \<and> length part \<le> 3 \<and> list_all is_ascii_digit part \<and>
     (case parse_u16 part of Some v \<Rightarrow> v \<le> 255 | None \<Rightarrow> False)"

definition is_loopback :: "rust_str \<Rightarrow> bool" where
  "is_loopback org =
     (let h = origin_host org in
      h = ''localhost'' \<or> ends_with ''.localhost'' h \<or> h = ''::1'' \<or>
      (case split_on (CHR ''.'') h of
         [a, b, c, d] \<Rightarrow> a = ''127'' \<and> is_octet_text b \<and> is_octet_text c \<and> is_octet_text d
       | _ \<Rightarrow> False))"

definition eligible :: "cbcl_relay_descriptor \<Rightarrow> relay_policy \<Rightarrow> bool" where
  "eligible d policy \<longleftrightarrow>
     \<not> List.member (forbidden_operator_ids policy) (operator_id d) \<and>
     List.member (approved_conformance policy) (conformance_evidence_digest d) \<and>
     (allow_loopback policy \<or> \<not> is_loopback (relay_origin d))"

section \<open>Selection\<close>

text \<open>\<open>weight as u64\<close>, and the subtraction loop over the group.\<close>

definition weight_u64 :: "cbcl_relay_descriptor \<Rightarrow> 64 word" where
  "weight_u64 d = word_of_int (weight d)"

fun pick :: "cbcl_relay_descriptor list \<Rightarrow> 64 word \<Rightarrow> cbcl_relay_descriptor option" where
  "pick [] point = None"
| "pick (d # ds) point = (if point < weight_u64 d then Some d else pick ds (point - weight_u64 d))"

definition scaled_point :: "64 word \<Rightarrow> 64 word \<Rightarrow> 64 word" where
  "scaled_point random sum_weight = ucast (drop_bit 64 ((ucast random :: 128 word) * ucast sum_weight))"

definition select_relay ::
  "application_profile \<Rightarrow> relay_policy \<Rightarrow> 64 word \<Rightarrow> relay_selection_error + cbcl_relay_descriptor" where
  "select_relay P policy random =
     (let candidates = filter (\<lambda>d. eligible d policy) (cbcl_pairing_relays P) in
      if candidates = [] then Inl NoEligibleRelay
      else
      let lowest = Min (set (map priority candidates));
          group = filter (\<lambda>d. priority d = lowest) candidates;
          sum_weight = sum_list (map weight_u64 group) in
      case pick group (scaled_point random sum_weight) of
        Some d \<Rightarrow> Inr d
      | None \<Rightarrow> if group = [] then Inl NoEligibleRelay else Inr (last group))"

definition verify_invitation_origin ::
  "application_profile \<Rightarrow> relay_policy \<Rightarrow> rust_str \<Rightarrow> relay_selection_error + unit" where
  "verify_invitation_origin P policy org =
     (let matches = filter (\<lambda>d. eligible d policy) (filter (\<lambda>d. relay_origin d = org) (cbcl_pairing_relays P)) in
      case matches of [_] \<Rightarrow> Inr () | _ \<Rightarrow> Inl InvitationOrigin)"

section \<open>Widths\<close>

text \<open>The group from which one is drawn.\<close>

definition relay_group :: "application_profile \<Rightarrow> relay_policy \<Rightarrow> cbcl_relay_descriptor list" where
  "relay_group P policy =
     (let candidates = filter (\<lambda>d. eligible d policy) (cbcl_pairing_relays P) in
      filter (\<lambda>d. priority d = Min (set (map priority candidates))) candidates)"

definition weights :: "cbcl_relay_descriptor list \<Rightarrow> nat" where
  "weights ds = sum_list (map (\<lambda>d. nat (weight d)) ds)"

lemma weights_simps [simp]:
  "weights [] = 0" "weights (d # ds) = nat (weight d) + weights ds" "weights (ds @ es) = weights ds + weights es"
  by (simp_all add: weights_def)

lemma weights_bound: "\<forall>d \<in> set ds. weight d \<le> 65535 \<Longrightarrow> weights ds \<le> 65535 * length ds"
  by (induction ds) auto

lemma unat_weight: "0 \<le> weight d \<Longrightarrow> weight d \<le> 65535 \<Longrightarrow> unat (weight_u64 d) = nat (weight d)"
  by (simp add: weight_u64_def unat_eq_nat_uint uint_word_of_int)

lemma unat_total:
  assumes "\<forall>d \<in> set ds. 0 \<le> weight d \<and> weight d \<le> 65535" "length ds \<le> 16"
  shows "unat (sum_list (map weight_u64 ds)) = weights ds"
  using assms
proof (induction ds)
  case (Cons d ds)
  have "weights ds \<le> 65535 * length ds" "nat (weight d) \<le> 65535"
    using weights_bound Cons.prems by auto
  then have "nat (weight d) + weights ds < 2 ^ 64" using Cons.prems(2) by simp
  then show ?case using Cons unat_weight [of d] by (simp add: unat_word_ariths)
qed simp

lemma unat_scaled_point: "unat (scaled_point r t) = unat r * unat t div 2 ^ 64"
proof -
  have r: "unat r < 2 ^ 64" and t: "unat t < 2 ^ 64" using unsigned_less [of r] unsigned_less [of t] by simp_all
  then have p: "unat r * unat t < 2 ^ 64 * 2 ^ 64" by (intro mult_strict_mono) auto
  have u: "unat (ucast x :: 128 word) = unat x" for x :: "64 word"
  proof -
    have "unat x < 2 ^ 64" using unsigned_less [of x] by simp
    then show ?thesis by (simp add: unsigned_ucast_eq take_bit_nat_eq_self)
  qed
  have m: "unat ((ucast r :: 128 word) * ucast t) = unat r * unat t"
    using p by (simp add: unat_word_ariths u)
  have "unat r * unat t div 2 ^ 64 < 2 ^ 64" using p by (simp add: less_mult_imp_div_less)
  then show ?thesis
    unfolding scaled_point_def unsigned_ucast_eq unat_drop_bit_eq m
    unfolding drop_bit_eq_div by (simp add: take_bit_nat_eq_self)
qed

section \<open>The draw\<close>

text \<open>The subtraction loop finds the relay in whose share of \<open>[0, total)\<close> the point falls.\<close>

lemma pick_Some_iff:
  assumes "\<forall>d \<in> set ds. 0 \<le> weight d \<and> weight d \<le> 65535"
  shows "pick ds point = Some d \<longleftrightarrow>
    (\<exists>i < length ds. ds ! i = d \<and> weights (take i ds) \<le> unat point \<and> unat point < weights (take (Suc i) ds))"
  using assms
proof (induction ds arbitrary: point)
  case (Cons e es)
  have w: "unat (weight_u64 e) = nat (weight e)" using Cons.prems by (simp add: unat_weight)
  show ?case
  proof (cases "point < weight_u64 e")
    case True
    then have p: "unat point < nat (weight e)" using w by (simp add: word_less_nat_alt)
    show ?thesis
      using True p by (auto simp: less_Suc_eq_0_disj intro: exI [of _ 0])
  next
    case False
    then have p: "nat (weight e) \<le> unat point" "unat (point - weight_u64 e) = unat point - nat (weight e)"
      using w by (simp_all add: word_less_nat_alt unat_sub word_le_nat_alt)
    have "pick (e # es) point = Some d \<longleftrightarrow> pick es (point - weight_u64 e) = Some d" using False by simp
    also have "\<dots> \<longleftrightarrow> (\<exists>i < length es. es ! i = d \<and> weights (take i es) \<le> unat point - nat (weight e) \<and>
        unat point - nat (weight e) < weights (take (Suc i) es))"
      unfolding p(2) [symmetric] using Cons.IH Cons.prems by simp
    also have "\<dots> \<longleftrightarrow> (\<exists>i < length (e # es). (e # es) ! i = d \<and> weights (take i (e # es)) \<le> unat point \<and>
        unat point < weights (take (Suc i) (e # es)))"
      using p(1) by (auto simp: less_Suc_eq_0_disj)
    finally show ?thesis .
  qed
qed simp

lemma pick_in_range:
  assumes "\<forall>d \<in> set ds. 0 \<le> weight d \<and> weight d \<le> 65535" "unat point < weights ds"
  shows "pick ds point \<noteq> None"
  using assms
proof (induction ds arbitrary: point)
  case (Cons e es)
  have w: "unat (weight_u64 e) = nat (weight e)" using Cons.prems by (simp add: unat_weight)
  show ?case
  proof (cases "point < weight_u64 e")
    case False
    then have p: "nat (weight e) \<le> unat point" "unat (point - weight_u64 e) = unat point - nat (weight e)"
      using w by (simp_all add: word_less_nat_alt unat_sub word_le_nat_alt)
    then have "unat (point - weight_u64 e) < weights es" using Cons.prems(2) by simp
    then show ?thesis using Cons.IH Cons.prems(1) False by simp
  qed simp
qed simp

text \<open>How many numbers below \<open>n\<close> fall in a share \<open>[a, b)\<close> of \<open>t\<close>.\<close>

lemma share_count:
  fixes a b t n :: nat
  assumes t: "0 < t" and ab: "a \<le> b" "b \<le> t" and n: "0 < n"
  defines "S \<equiv> {r. r < n \<and> a \<le> r * t div n \<and> r * t div n < b}"
  shows "t * card S < n * (b - a) + t" "n * (b - a) < t * card S + t"
proof -
  define up where "up k = (k * n + (t - 1)) div t" for k
  have ge: "k \<le> r * t div n \<longleftrightarrow> up k \<le> r" for k r
  proof -
    have "k \<le> r * t div n \<longleftrightarrow> k * n \<le> r * t" using n by (simp add: less_eq_div_iff_mult_less_eq)
    also have "\<dots> \<longleftrightarrow> k * n + (t - 1) < Suc r * t" using t by auto
    also have "\<dots> \<longleftrightarrow> up k < Suc r" unfolding up_def using t by (simp add: div_less_iff_less_mult)
    finally show ?thesis by (simp only: less_Suc_eq_le)
  qed
  have "up b \<le> n"
  proof -
    have "b * n \<le> t * n" using ab(2) by (rule mult_le_mono1)
    then have "b * n + (t - 1) < Suc n * t" using t unfolding mult_Suc by (simp only: mult.commute [of n t])
    then show ?thesis unfolding up_def using t by (simp add: div_less_iff_less_mult flip: less_Suc_eq_le)
  qed
  have "S = {up a ..< up b}"
    unfolding S_def using ge \<open>up b \<le> n\<close> by (auto simp: not_less [symmetric])
  then have c: "card S = up b - up a" by simp
  have m: "k * n \<le> t * up k" "t * up k \<le> k * n + (t - 1)" for k
    unfolding up_def using t mult_div_mod_eq [of t "k * n + (t - 1)"] mod_less_divisor [OF t, of "k * n + (t - 1)"]
    by linarith+
  have "up a \<le> up b" unfolding up_def using ab(1) by (intro div_le_mono) simp
  then have e: "t * card S = t * up b - t * up a" "t * up a \<le> t * up b" by (simp_all add: c diff_mult_distrib2)
  have "n * (b - a) = b * n - a * n" "a * n \<le> b * n" using ab(1) by (simp_all add: diff_mult_distrib2 mult.commute)
  then show "t * card S < n * (b - a) + t" "n * (b - a) < t * card S + t"
    using e m [of a] m [of b] t by linarith+
qed

text \<open>The group of a recognised profile: what is eligible, of the lowest priority among the eligible.\<close>

lemma relay_group_ok:
  assumes "profile_ok X P"
  shows "\<forall>d \<in> set (relay_group P policy). 0 < weight d \<and> weight d \<le> 65535" "length (relay_group P policy) \<le> 16"
proof -
  have r: "relays_ok X (cbcl_pairing_relays P)" using assms by (simp add: profile_ok_def)
  then show "\<forall>d \<in> set (relay_group P policy). 0 < weight d \<and> weight d \<le> 65535"
    by (auto simp: relay_group_def Let_def relays_ok_def relay_ok_def)
  have "length (relay_group P policy) \<le> length (cbcl_pairing_relays P)"
    unfolding relay_group_def Let_def by (meson le_trans length_filter_le)
  then show "length (relay_group P policy) \<le> 16" using r by (simp add: relays_ok_def)
qed

lemma relay_group_set:
  "d \<in> set (relay_group P policy) \<longleftrightarrow>
     d \<in> set (cbcl_pairing_relays P) \<and> eligible d policy \<and>
     (\<forall>e \<in> set (cbcl_pairing_relays P). eligible e policy \<longrightarrow> priority d \<le> priority e)"
proof -
  let ?c = "{d \<in> set (cbcl_pairing_relays P). eligible d policy}"
  have f: "finite ?c" by simp
  have "d \<in> set (relay_group P policy) \<longleftrightarrow> d \<in> ?c \<and> priority d = Min (priority ` ?c)"
    by (auto simp: relay_group_def Let_def)
  also have "\<dots> \<longleftrightarrow> d \<in> ?c \<and> (\<forall>e \<in> ?c. priority d \<le> priority e)"
  proof -
    have "priority d = Min (priority ` ?c) \<longleftrightarrow> (\<forall>e \<in> ?c. priority d \<le> priority e)" if "d \<in> ?c"
    proof
      assume "priority d = Min (priority ` ?c)"
      then show "\<forall>e \<in> ?c. priority d \<le> priority e" using f by (simp only: Min_le finite_imageI image_eqI) auto
    next
      assume "\<forall>e \<in> ?c. priority d \<le> priority e"
      then show "priority d = Min (priority ` ?c)" using f that by (intro Min_eqI [symmetric]) auto
    qed
    then show ?thesis by blast
  qed
  finally show ?thesis by blast
qed

lemma relay_group_empty:
  "relay_group P policy = [] \<longleftrightarrow> filter (\<lambda>d. eligible d policy) (cbcl_pairing_relays P) = []"
proof
  let ?c = "filter (\<lambda>d. eligible d policy) (cbcl_pairing_relays P)"
  have g: "relay_group P policy = filter (\<lambda>d. priority d = Min (set (map priority ?c))) ?c"
    by (simp only: relay_group_def Let_def)
  show "relay_group P policy = []" if "?c = []" unfolding g that by simp
  show "?c = []" if e: "relay_group P policy = []"
  proof (rule ccontr)
    assume "?c \<noteq> []"
    then have "Min (set (map priority ?c)) \<in> set (map priority ?c)"
      by (intro Min_in) (simp, simp only: set_empty map_is_Nil_conv not_False_eq_True)
    then have "Min (set (map priority ?c)) \<in> priority ` set ?c" by (simp only: list.set_map)
    then obtain d where "d \<in> set ?c" "priority d = Min (set (map priority ?c))" by (metis (no_types, lifting) imageE)
    then have "relay_group P policy \<noteq> []" unfolding g filter_empty_conv by blast
    then show False using e by contradiction
  qed
qed

lemma select_relay_group:
  assumes "profile_ok X P"
  shows "select_relay P policy r =
    (if relay_group P policy = [] then Inl NoEligibleRelay
     else Inr (the (pick (relay_group P policy) (scaled_point r (sum_list (map weight_u64 (relay_group P policy)))))))"
    and "relay_group P policy \<noteq> [] \<Longrightarrow>
      pick (relay_group P policy) (scaled_point r (sum_list (map weight_u64 (relay_group P policy)))) \<noteq> None"
proof -
  let ?g = "relay_group P policy" and ?c = "filter (\<lambda>d. eligible d policy) (cbcl_pairing_relays P)"
  have w: "\<forall>d \<in> set ?g. 0 \<le> weight d \<and> weight d \<le> 65535" using relay_group_ok(1) [OF assms] by fastforce
  have pos: "0 < weights ?g" if "?g \<noteq> []"
    using that relay_group_ok(1) [OF assms, of policy] by (cases ?g) auto
  have p: "unat (scaled_point r (sum_list (map weight_u64 ?g))) < weights ?g" if "?g \<noteq> []"
  proof -
    have "unat r * weights ?g < 2 ^ 64 * weights ?g" using pos [OF that] unsigned_less [of r] by simp
    then show ?thesis
      unfolding unat_scaled_point unat_total [OF w relay_group_ok(2) [OF assms]]
      by (simp add: less_mult_imp_div_less mult.commute)
  qed
  show some: "pick ?g (scaled_point r (sum_list (map weight_u64 ?g))) \<noteq> None" if "?g \<noteq> []"
    using pick_in_range [OF w p [OF that]] .
  have g: "?g = filter (\<lambda>d. priority d = Min (set (map priority ?c))) ?c" by (simp only: relay_group_def Let_def)
  have "?c = [] \<longleftrightarrow> ?g = []" by (simp only: relay_group_empty)
  then show "select_relay P policy r =
    (if ?g = [] then Inl NoEligibleRelay
     else Inr (the (pick ?g (scaled_point r (sum_list (map weight_u64 ?g))))))"
    using some unfolding select_relay_def Let_def g [symmetric]
    by (cases "?g = []") (auto split: option.splits)
qed

lemma relay_drawn_iff:
  assumes P: "profile_ok X P" and g: "relay_group P policy \<noteq> []"
  shows "select_relay P policy r = Inr d \<longleftrightarrow>
    (\<exists>i < length (relay_group P policy). relay_group P policy ! i = d \<and>
       weights (take i (relay_group P policy)) \<le> unat r * weights (relay_group P policy) div 2 ^ 64 \<and>
       unat r * weights (relay_group P policy) div 2 ^ 64 < weights (take (Suc i) (relay_group P policy)))"
proof -
  have w: "\<forall>d \<in> set (relay_group P policy). 0 \<le> weight d \<and> weight d \<le> 65535"
    using relay_group_ok(1) [OF P] by fastforce
  show ?thesis
    using select_relay_group [OF P, of policy r] g
    unfolding pick_Some_iff [OF w, symmetric] unat_scaled_point [symmetric]
      unat_total [OF w relay_group_ok(2) [OF P], symmetric]
      pick_Some_iff [OF w, unfolded unat_scaled_point, symmetric]
    by auto
qed

lemma card_words:
  "card {r :: 64 word. Q (unat r)} = card {n. n < 2 ^ 64 \<and> Q n}"
proof -
  have "unat ` {r :: 64 word. Q (unat r)} = {n. n < 2 ^ 64 \<and> Q n}"
  proof (rule set_eqI, rule iffI)
    fix n assume "n \<in> unat ` {r :: 64 word. Q (unat r)}"
    then obtain r :: "64 word" where "n = unat r" "Q (unat r)" by blast
    then show "n \<in> {n. n < 2 ^ 64 \<and> Q n}" using unsigned_less [of r] by simp
  next
    fix n assume "n \<in> {n. n < 2 ^ 64 \<and> Q n}"
    then have "n = unat (word_of_nat n :: 64 word)" "Q n" by (simp_all add: unsigned_of_nat take_bit_nat_eq_self)
    then show "n \<in> unat ` {r :: 64 word. Q (unat r)}" by (metis (mono_tags, lifting) image_eqI mem_Collect_eq)
  qed
  moreover have "card (unat ` {r :: 64 word. Q (unat r)}) = card {r :: 64 word. Q (unat r)}"
    by (rule card_image) (simp add: inj_on_def word_unat_eq_iff)
  ultimately show ?thesis by simp
qed

lemma relay_draws:
  assumes P: "profile_ok X P" and d: "d \<in> set (relay_group P policy)"
  shows "weights (relay_group P policy) * card {r. select_relay P policy r = Inr d} <
      2 ^ 64 * nat (weight d) + weights (relay_group P policy)"
    and "2 ^ 64 * nat (weight d) <
      weights (relay_group P policy) * card {r. select_relay P policy r = Inr d} + weights (relay_group P policy)"
proof -
  let ?g = "relay_group P policy"
  let ?t = "weights ?g"
  obtain i where i: "i < length ?g" "?g ! i = d" using d by (auto simp: in_set_conv_nth)
  have "distinct (map operator_id (cbcl_pairing_relays P))" using P by (simp add: profile_ok_def relays_ok_def)
  then have "distinct ?g" by (simp add: relay_group_def Let_def distinct_map)
  then have j: "j = i" if "j < length ?g" "?g ! j = d" for j using that i by (metis nth_eq_iff_index_eq)
  have b: "weights (take i ?g) \<le> weights (take (Suc i) ?g)" "weights (take (Suc i) ?g) \<le> ?t"
    "weights (take (Suc i) ?g) - weights (take i ?g) = nat (weight d)"
  proof -
    have s: "weights (take (Suc i) ?g) = weights (take i ?g) + nat (weight d)" using i by (simp add: take_Suc_conv_app_nth)
    have "?t = weights (take (Suc i) ?g) + weights (drop (Suc i) ?g)"
      unfolding weights_simps(3) [symmetric] append_take_drop_id ..
    then show "weights (take (Suc i) ?g) \<le> ?t" by linarith
    show "weights (take i ?g) \<le> weights (take (Suc i) ?g)" "weights (take (Suc i) ?g) - weights (take i ?g) = nat (weight d)"
      using s by linarith+
  qed
  have ne: "?g \<noteq> []" using d by auto
  have t: "0 < ?t" using relay_group_ok(1) [OF P, of policy] ne by (cases ?g) auto
  let ?S = "{r. r < 2 ^ 64 \<and> weights (take i ?g) \<le> r * ?t div 2 ^ 64 \<and> r * ?t div 2 ^ 64 < weights (take (Suc i) ?g)}"
  have "select_relay P policy r = Inr d \<longleftrightarrow> weights (take i ?g) \<le> unat r * ?t div 2 ^ 64 \<and>
      unat r * ?t div 2 ^ 64 < weights (take (Suc i) ?g)" for r
    unfolding relay_drawn_iff [OF P ne] using i j by blast
  then have "{r. select_relay P policy r = Inr d} = {r. weights (take i ?g) \<le> unat r * ?t div 2 ^ 64 \<and>
      unat r * ?t div 2 ^ 64 < weights (take (Suc i) ?g)}" by (simp only:)
  then have c: "card {r. select_relay P policy r = Inr d} = card ?S"
    using card_words [of "\<lambda>n. weights (take i ?g) \<le> n * ?t div 2 ^ 64 \<and> n * ?t div 2 ^ 64 < weights (take (Suc i) ?g)"]
    by (simp only:)
  show "?t * card {r. select_relay P policy r = Inr d} < 2 ^ 64 * nat (weight d) + ?t"
    "2 ^ 64 * nat (weight d) < ?t * card {r. select_relay P policy r = Inr d} + ?t"
    unfolding c using share_count [OF t b(1,2), of "2 ^ 64"] b(3) by simp_all
qed

lemma select_relay_in_group:
  assumes P: "profile_ok X P"
  shows "select_relay P policy r = Inl e \<longleftrightarrow> e = NoEligibleRelay \<and> relay_group P policy = []"
    and "select_relay P policy r = Inr d \<Longrightarrow> d \<in> set (relay_group P policy)"
proof -
  show "select_relay P policy r = Inl e \<longleftrightarrow> e = NoEligibleRelay \<and> relay_group P policy = []"
    using select_relay_group(1) [OF P, of policy r] by auto
  assume s: "select_relay P policy r = Inr d"
  then have "relay_group P policy \<noteq> []" using select_relay_group(1) [OF P, of policy r] by auto
  from relay_drawn_iff [OF P this, of r d] s show "d \<in> set (relay_group P policy)" by auto
qed

lemma distinct_all_equal:
  assumes "distinct xs" "\<And>x y. x \<in> set xs \<Longrightarrow> y \<in> set xs \<Longrightarrow> x = y"
  shows "xs = [] \<or> (\<exists>x. xs = [x])"
  using assms by (metis distinct_length_2_or_more list.exhaust list.set_intros)

lemma invitation_iff:
  assumes P: "profile_ok X P"
  shows "verify_invitation_origin P policy org = Inr u \<longleftrightarrow>
    (\<exists>d \<in> set (cbcl_pairing_relays P). relay_origin d = org \<and> eligible d policy)"
proof -
  let ?ms = "filter (\<lambda>d. eligible d policy) (filter (\<lambda>d. relay_origin d = org) (cbcl_pairing_relays P))"
  have "distinct (map relay_origin (cbcl_pairing_relays P))" using P by (simp add: profile_ok_def relays_ok_def)
  then have inj: "d = e" if "d \<in> set ?ms" "e \<in> set ?ms" for d e
    using that by (auto simp: distinct_map inj_on_def)
  have "distinct ?ms" using \<open>distinct (map relay_origin (cbcl_pairing_relays P))\<close> by (simp add: distinct_map)
  then have one: "?ms = [] \<or> (\<exists>d. ?ms = [d])"
    by (rule distinct_all_equal) (rule inj)
  have "(\<exists>d. ?ms = [d]) \<longleftrightarrow> (\<exists>d \<in> set (cbcl_pairing_relays P). relay_origin d = org \<and> eligible d policy)"
  proof
    assume "\<exists>d. ?ms = [d]"
    then obtain d where "d \<in> set ?ms" by (metis list.set_intros(1))
    then show "\<exists>d \<in> set (cbcl_pairing_relays P). relay_origin d = org \<and> eligible d policy" by auto
  next
    assume "\<exists>d \<in> set (cbcl_pairing_relays P). relay_origin d = org \<and> eligible d policy"
    then have "?ms \<noteq> []" unfolding filter_empty_conv by auto
    then show "\<exists>d. ?ms = [d]" using one by blast
  qed
  moreover have "verify_invitation_origin P policy org = Inr u \<longleftrightarrow> (\<exists>d. ?ms = [d])"
    unfolding verify_invitation_origin_def Let_def by (auto split: list.splits)
  ultimately show ?thesis by simp
qed

text \<open>
  Not every spelling of this machine is refused: the form with a hexadecimal part, which a URL parser
  of the web reads as \<open>127.0.0.1\<close>, is an origin of the grammar (its last label is not all digits)
  and no loopback for the policy.
\<close>

lemma hex_loopback_passes:
  "is_ok (recognise_uri ''https://127.0.0.0x1'' ORIGIN) \<and> \<not> is_loopback ''https://127.0.0.0x1''"
  by code_simp

section \<open>A relay to evaluate\<close>

lemma sample_relay:
  obtains d where "cbcl_pairing_relays sample_application = [d]" "operator_id d = ''op-1''"
    "relay_origin d = ''https://relay.example''" "priority d = 0" "weight d = 1"
    "conformance_evidence_digest d = replicate 32 (CHR 0x00)"
proof -
  define P where "P = projr (profile_from_value sample_externs sample_profile [])"
  have P: "P = sample_application\<lparr>profile_canonical := [], profile_digest := sha256_digest sample_externs []\<rparr>"
    unfolding P_def by (rule sample_application_value)
  have "map (\<lambda>d. (operator_id d, relay_origin d, priority d, weight d, conformance_evidence_digest d)) (cbcl_pairing_relays P) =
      [(''op-1'', ''https://relay.example'', 0, 1, replicate 32 (CHR 0x00))]"
    unfolding P_def by code_simp
  then show thesis by (intro that [of "hd (cbcl_pairing_relays sample_application)"]) (auto simp: P map_eq_Cons_conv)
qed

definition sample_relay_policy :: relay_policy where
  "sample_relay_policy = \<lparr>forbidden_operator_ids = [], approved_conformance = [replicate 32 (CHR 0x00)], allow_loopback = False\<rparr>"

section \<open>Properties\<close>

text \<open>
  C24. Over a recognised profile, the choice fails exactly when no relay passes the policy, always
  falls on an eligible relay of the lowest priority among the eligible, and is fair: of the
  \<open>2 ^ 64\<close> equally likely numbers that the shell may draw, each relay of that group is chosen by its
  share, weight over total weight, up to less than one number. The fallback to the last relay of the
  group is never needed.
\<close>

theorem relay_selection_fair:
  assumes "profile_ok X P" "d \<in> set (cbcl_pairing_relays P)"
  shows "(select_relay P policy r = Inl NoEligibleRelay \<longleftrightarrow>
      (\<forall>e \<in> set (cbcl_pairing_relays P). \<not> eligible e policy)) \<and>
    (select_relay P policy r = Inr d \<longrightarrow> eligible d policy \<and>
      (\<forall>e \<in> set (cbcl_pairing_relays P). eligible e policy \<longrightarrow> priority d \<le> priority e)) \<and>
    (d \<in> set (relay_group P policy) \<longrightarrow>
      \<bar>int (weights (relay_group P policy)) * int (card {r. select_relay P policy r = Inr d}) - 2 ^ 64 * weight d\<bar>
        < int (weights (relay_group P policy)))"
proof (intro conjI impI)
  have e: "relay_group P policy = [] \<longleftrightarrow> (\<forall>e \<in> set (cbcl_pairing_relays P). \<not> eligible e policy)"
    by (simp only: relay_group_empty filter_empty_conv)
  show "select_relay P policy r = Inl NoEligibleRelay \<longleftrightarrow>
      (\<forall>e \<in> set (cbcl_pairing_relays P). \<not> eligible e policy)"
    using select_relay_in_group(1) [OF assms(1)] e by auto
next
  assume "select_relay P policy r = Inr d"
  from select_relay_in_group(2) [OF assms(1) this]
  show "eligible d policy" "\<forall>e \<in> set (cbcl_pairing_relays P). eligible e policy \<longrightarrow> priority d \<le> priority e"
    by (simp_all add: relay_group_set)
next
  assume d: "d \<in> set (relay_group P policy)"
  have w: "0 < weight d" using relay_group_ok(1) [OF assms(1)] d by blast
  have "int (weights (relay_group P policy) * card {r. select_relay P policy r = Inr d}) <
      int (2 ^ 64 * nat (weight d) + weights (relay_group P policy))"
    "int (2 ^ 64 * nat (weight d)) < int (weights (relay_group P policy) * card {r. select_relay P policy r = Inr d} +
      weights (relay_group P policy))"
    using relay_draws [OF assms(1) d] by (simp_all only: of_nat_less_iff)
  then show "\<bar>int (weights (relay_group P policy)) * int (card {r. select_relay P policy r = Inr d}) - 2 ^ 64 * weight d\<bar>
        < int (weights (relay_group P policy))"
    using w by simp
qed

theorem relay_selection_fair_witness:
  "\<exists>d. d \<in> set (cbcl_pairing_relays sample_application) \<and>
     \<bar>int (card {r. select_relay sample_application sample_relay_policy r = Inr d}) - 2 ^ 64\<bar> < 1"
proof -
  obtain d where d: "cbcl_pairing_relays sample_application = [d]" "operator_id d = ''op-1''"
    "relay_origin d = ''https://relay.example''" "weight d = 1" "conformance_evidence_digest d = replicate 32 (CHR 0x00)"
    by (rule sample_relay)
  have "\<not> is_loopback ''https://relay.example''" by code_simp
  then have "eligible d sample_relay_policy" using d by (simp add: eligible_def sample_relay_policy_def)
  then have g: "relay_group sample_application sample_relay_policy = [d]"
    by (simp add: relay_group_def Let_def d(1))
  have "profile_ok sample_externs sample_application" by (rule recognise_profile_ok(1) [OF recognise_sample])
  from relay_selection_fair [OF this, of d sample_relay_policy] d(1,4) g show ?thesis by auto
qed

end
