(* ===== verification/Platform.thy ===== *)
theory Platform
  imports Enrollment
begin

text \<open>
  The platform adapters' decisions (\<open>platform.rs\<close>): what a dispatch may be, which adapter conforms,
  and what a platform's caller evidence says against a declared binding. The lemmas relate the last to
  the check of the enrollment evidence, which states the same rule over its own observation.
\<close>

section \<open>Types\<close>

datatype dispatch_result = Dispatched | DispatchUnavailable | DispatchUnverified

definition burns_attempt :: "dispatch_result \<Rightarrow> bool" where
  "burns_attempt r \<longleftrightarrow> r \<noteq> Dispatched"

definition MIN_ANDROID_API_LEVEL :: nat where "MIN_ANDROID_API_LEVEL = 30"

datatype platform = OnAndroid | OnApple

datatype caller_evidence = Package rust_str | AssociatedOrigin rust_str | Unattributed

datatype platform_error =
    CallerMismatch | UnverifiedWalletTarget | WalletUnavailable | BelowMinimumApiLevel | MalformedBindingId
  | NonConformantAdapter

record adapter_conformance =
  installed_target_authenticated :: bool
  no_network_or_web_fallback :: bool
  one_shot_delivery :: bool
  immutable_result_capability :: bool
  caller_binding_signal :: bool

definition ANDROID :: adapter_conformance where
  "ANDROID = \<lparr>installed_target_authenticated = True, no_network_or_web_fallback = True, one_shot_delivery = True,
     immutable_result_capability = True, caller_binding_signal = True\<rparr>"

definition APPLE :: adapter_conformance where
  "APPLE = \<lparr>installed_target_authenticated = True, no_network_or_web_fallback = True, one_shot_delivery = True,
     immutable_result_capability = True, caller_binding_signal = False\<rparr>"

definition is_conformant :: "adapter_conformance \<Rightarrow> platform \<Rightarrow> platform_error + unit" where
  "is_conformant c p =
     (let required = (case p of OnAndroid \<Rightarrow> ANDROID | OnApple \<Rightarrow> APPLE);
          universal = (installed_target_authenticated c \<and> no_network_or_web_fallback c \<and> one_shot_delivery c \<and>
            immutable_result_capability c) in
      if \<not> universal then Inl NonConformantAdapter
      else if caller_binding_signal required \<and> \<not> caller_binding_signal c then Inl NonConformantAdapter
      else Inr ())"

section \<open>Android\<close>

record android_target =
  target_package_name :: rust_str
  signing_certificates :: "rust_str list"

datatype android_dispatch = ExplicitComponent | Implicit

definition android_select ::
  "android_target list \<Rightarrow> nat \<Rightarrow> rust_str option \<Rightarrow> platform_error + android_target" where
  "android_select candidates api_level person_chose =
     (if api_level < MIN_ANDROID_API_LEVEL then Inl BelowMinimumApiLevel
      else
      case candidates of
        [] \<Rightarrow> Inl WalletUnavailable
      | [c] \<Rightarrow> Inr c
      | _ \<Rightarrow>
          and_then (ok_or UnverifiedWalletTarget person_chose) (\<lambda>chosen.
          ok_or UnverifiedWalletTarget (List.find (\<lambda>c. target_package_name c = chosen) candidates)))"

fun android_may_carry_ceremony :: "android_dispatch \<Rightarrow> platform_error + unit" where
  "android_may_carry_ceremony ExplicitComponent = Inr ()"
| "android_may_carry_ceremony Implicit = Inl UnverifiedWalletTarget"

section \<open>Apple\<close>

datatype universal_link_outcome = Handled | NotHandled

definition apple_dispatch :: "universal_link_outcome \<Rightarrow> bool \<Rightarrow> dispatch_result" where
  "apple_dispatch outcome universal_links_only =
     (if \<not> universal_links_only then DispatchUnverified
      else case outcome of Handled \<Rightarrow> Dispatched | NotHandled \<Rightarrow> DispatchUnavailable)"

section \<open>The caller\<close>

definition caller_matches_binding :: "caller_evidence \<Rightarrow> mobile_binding \<Rightarrow> platform_error + unit" where
  "caller_matches_binding evidence b =
     (case (evidence, b) of
        (Package package, Android _ package_name _) \<Rightarrow>
          if package = package_name then Inr () else Inl CallerMismatch
      | (AssociatedOrigin org, Apple _ _ _ return_text) \<Rightarrow>
          and_then (map_err (\<lambda>_. CallerMismatch) (recognise_uri return_text PROVIDER_URL)) (\<lambda>declared.
          if org = origin declared then Inr () else Inl CallerMismatch)
      | (Unattributed, Apple _ _ _ _) \<Rightarrow> Inr ()
      | (Unattributed, Web _ _) \<Rightarrow> Inr ()
      | (Unattributed, Android _ _ _) \<Rightarrow> Inl CallerMismatch
      | _ \<Rightarrow> Inl CallerMismatch)"

definition binding_platform :: "rust_str \<Rightarrow> platform_error + platform" where
  "binding_platform i =
     (if starts_with ''android:'' i then Inr OnAndroid
      else if starts_with ''apple:'' i then Inr OnApple
      else Inl MalformedBindingId)"

section \<open>One rule in two places\<close>

text \<open>
  The binding id an adapter may report to the enrollment check for what it observed: its own, and only
  when its caller comparison passed; none when the platform attributed nothing.
\<close>

definition reported_id :: "caller_evidence \<Rightarrow> mobile_binding \<Rightarrow> rust_str option" where
  "reported_id evidence b = (case evidence of Unattributed \<Rightarrow> None | _ \<Rightarrow> Some (binding_id b))"

lemma caller_matches_observed:
  "caller_matches_binding evidence b = Inr () \<Longrightarrow> binding_observed b (reported_id evidence b)"
  by (cases evidence; cases b)
     (simp_all add: caller_matches_binding_def binding_observed_def reported_id_def)

lemma unattributed_iff:
  "caller_matches_binding Unattributed b = Inr () \<longleftrightarrow> binding_observed b None"
  by (cases b) (simp_all add: caller_matches_binding_def binding_observed_def)

text \<open>Attributed evidence never passes against a web binding, and never crosses platforms.\<close>

lemma attributed_own_platform:
  assumes "caller_matches_binding evidence b = Inr ()" "evidence \<noteq> Unattributed"
  shows "(\<exists>i p cs. b = Android i p cs \<and> evidence = Package p) \<or>
    (\<exists>i t u r parts. b = Apple i t u r \<and> recognise_uri r PROVIDER_URL = Inr parts \<and>
       evidence = AssociatedOrigin (origin parts))"
  using assms
  by (cases evidence; cases b) (auto simp: caller_matches_binding_def res_iff split: if_splits)

text \<open>The platform prefix of a recognised binding's id is its platform; a web id has none of the two.\<close>

lemma recognised_binding_platform:
  assumes "mobile_binding_of X j aid = Inr b"
  shows "binding_platform (binding_id b) =
    (case b of Android _ _ _ \<Rightarrow> Inr OnAndroid | Apple _ _ _ _ \<Rightarrow> Inr OnApple | Web _ _ \<Rightarrow> Inl MalformedBindingId)"
proof -
  have p: "starts_with ''android:'' (''android:'' @ s)" "\<not> starts_with ''android:'' (''apple:'' @ s)"
    "starts_with ''apple:'' (''apple:'' @ s)" "\<not> starts_with ''android:'' (''web:'' @ s)"
    "\<not> starts_with ''apple:'' (''web:'' @ s)" for s
    by (simp_all add: starts_with_def)
  consider "android_binding X j = Inr b" | "apple_binding j aid = Inr b" | "web_binding j aid = Inr b"
    using assms by (auto simp: mobile_binding_of_def res_iff split: if_splits)
  then show ?thesis
  proof cases
    case 1
    then obtain i pkg cs where b: "b = Android i pkg cs" "starts_with (''android:'' @ pkg @ '':'') i"
      unfolding android_binding_def Let_def by (auto simp: res_iff split: if_splits)
    then obtain r where "i = ''android:'' @ pkg @ '':'' @ r" by (auto simp: starts_with_iff)
    then show ?thesis using p(1) b(1) by (simp add: binding_platform_def)
  next
    case 2
    then obtain t u r where "b = Apple (''apple:'' @ t @ '':'' @ u @ '':'' @ app_origin aid) t u r"
      unfolding apple_binding_def Let_def by (auto simp: res_iff split: if_splits)
    then show ?thesis using p(2,3) by (simp add: binding_platform_def)
  next
    case 3
    then obtain org where "b = Web (''web:'' @ org) org"
      unfolding web_binding_def by (auto simp: res_iff split: if_splits)
    then show ?thesis using p(4,5) by (simp add: binding_platform_def)
  qed
qed

text \<open>A selected target is a candidate, and with several candidates the one the person named.\<close>

lemma android_select_sound:
  assumes "android_select candidates api_level person_chose = Inr t"
  shows "30 \<le> api_level" "t \<in> set candidates"
    "1 < length candidates \<Longrightarrow> person_chose = Some (target_package_name t)"
  using assms
  by (auto simp: android_select_def MIN_ANDROID_API_LEVEL_def res_iff find_Some_iff
      split: if_splits list.splits)

end
