(* ===== verification/Succession.thy ===== *)
theory Succession
  imports Enrollment
begin

text \<open>
  Identity succession (\<open>succession.rs\<close>): the pointer an application publishes, the statement two
  identities sign over the same octets, and the condition under which an outgoing identity may be
  deactivated. The lemmas give the exact condition of both verifications.
\<close>

section \<open>Constants and types\<close>

definition MAX_POINTER_WINDOW_SECONDS :: int where "MAX_POINTER_WINDOW_SECONDS = 7776000"

definition POINTER_PATH :: rust_str where "POINTER_PATH = ''/.well-known/selfsame/succession''"

definition POINTER_JWS :: jws_policy where
  "POINTER_JWS = \<lparr>policy_typ = ''selfsame-application-succession+jws'', policy_kid = HttpsFragment, policy_cty = None,
     max_octets = 4096, max_payload_depth = 3, canonical_payload = True\<rparr>"

definition OUTGOING_JWS :: jws_policy where
  "OUTGOING_JWS = \<lparr>policy_typ = ''selfsame-succession+jws'', policy_kid = DidUrl, policy_cty = None,
     max_octets = 4096, max_payload_depth = 3, canonical_payload = True\<rparr>"

definition COUNTERSIGN_JWS :: jws_policy where
  "COUNTERSIGN_JWS = \<lparr>policy_typ = ''selfsame-succession-countersign+jws'', policy_kid = DidUrl, policy_cty = None,
     max_octets = 4096, max_payload_depth = 3, canonical_payload = True\<rparr>"

definition POINTER_MEMBERS :: "rust_str list" where
  "POINTER_MEMBERS = [''successionVersion'', ''from'', ''to'', ''issuedAt'', ''expiresAt'']"

definition SUCCESSION_MEMBERS :: "rust_str list" where
  "SUCCESSION_MEMBERS =
     [''successionVersion'', ''outgoing'', ''incoming'', ''outgoingApplication'', ''incomingApplication'',
      ''accountScopeId'', ''issuedAt'', ''expiresAt'']"

definition PROHIBITED_PUBLICATION_SITES :: "rust_str list" where
  "PROHIBITED_PUBLICATION_SITES =
     [''alsoKnownAs'', ''webfinger-jrd'', ''status-projection'', ''state-resolver-record'', ''callback'', ''log'', ''analytics'']"

datatype succession_error = SuccessionRejected

record pointer =
  pt_from :: rust_str
  pt_to :: rust_str
  pt_issued_at :: unix_seconds
  pt_expires_at :: unix_seconds

record succession_statement =
  ss_outgoing :: rust_str
  ss_incoming :: rust_str
  ss_outgoing_application :: rust_str
  ss_incoming_application :: rust_str
  ss_account_scope_id :: rust_str
  ss_issued_at :: unix_seconds
  ss_expires_at :: unix_seconds

record succession_expectation =
  se_currently_bound :: rust_str
  se_asked_to_bind :: rust_str
  se_incoming_profile :: application_profile
  se_person_confirmed :: bool
  se_prior_unexpired_incoming :: "rust_str option"
  se_now :: unix_seconds

record grant_status =
  gs_revoked :: bool
  gs_expired :: bool

section \<open>Documents\<close>

definition closed_succession :: "json \<Rightarrow> rust_str list \<Rightarrow> succession_error + unit" where
  "closed_succession j allowed =
     and_then (ok_or SuccessionRejected (as_object j)) (\<lambda>members.
     if length members \<noteq> length allowed then Inl SuccessionRejected
     else try_each (\<lambda>(name, _). ensure (name \<in> set allowed) SuccessionRejected) members)"

definition succession_text :: "json \<Rightarrow> rust_str \<Rightarrow> succession_error + rust_str" where
  "succession_text j name = ok_or SuccessionRejected (str_of j name)"

definition succession_stamp :: "json \<Rightarrow> rust_str \<Rightarrow> succession_error + unix_seconds" where
  "succession_stamp j name =
     and_then (succession_text j name) (\<lambda>t. map_err (\<lambda>_. SuccessionRejected) (parse_date_time_stamp t))"

definition build_succession :: "succession_statement \<Rightarrow> json" where
  "build_succession s = Object
     [(''successionVersion'', Integer 1),
      (''outgoing'', String (ss_outgoing s)),
      (''incoming'', String (ss_incoming s)),
      (''outgoingApplication'', String (ss_outgoing_application s)),
      (''incomingApplication'', String (ss_incoming_application s)),
      (''accountScopeId'', String (ss_account_scope_id s)),
      (''issuedAt'', String (format_date_time_stamp (ss_issued_at s))),
      (''expiresAt'', String (format_date_time_stamp (ss_expires_at s)))]"

definition build_pointer :: "pointer \<Rightarrow> json" where
  "build_pointer p = Object
     [(''successionVersion'', Integer 1),
      (''from'', String (pt_from p)),
      (''to'', String (pt_to p)),
      (''issuedAt'', String (format_date_time_stamp (pt_issued_at p))),
      (''expiresAt'', String (format_date_time_stamp (pt_expires_at p)))]"

section \<open>Verification\<close>

text \<open>\<open>iter().position(..)\<close>, then \<open>get(index)\<close>.\<close>

fun find_position :: "('a \<Rightarrow> bool) \<Rightarrow> 'a list \<Rightarrow> nat option" where
  "find_position Q [] = None"
| "find_position Q (x # xs) = (if Q x then Some 0 else map_option Suc (find_position Q xs))"

definition list_get :: "'a list \<Rightarrow> nat \<Rightarrow> 'a option" where
  "list_get xs i = (if i < length xs then Some (xs ! i) else None)"

definition verify_pointer ::
  "externs \<Rightarrow> rust_str \<Rightarrow> ed25519_jwk list \<Rightarrow> rust_str list \<Rightarrow> unix_seconds \<Rightarrow> succession_error + pointer" where
  "verify_pointer X compact pinned_keys pinned_kids now =
     and_then (map_err (\<lambda>_. SuccessionRejected) (recognise_jws X compact POINTER_JWS [])) (\<lambda>signed.
     and_then (ok_or SuccessionRejected (find_position (\<lambda>k. k = jws_kid signed) pinned_kids)) (\<lambda>index.
     and_then (ok_or SuccessionRejected (list_get pinned_keys index)) (\<lambda>key.
     and_then (map_err (\<lambda>_. SuccessionRejected) (verify_jws X signed (public_key key))) (\<lambda>_.
     and_then (closed_succession (payload signed) POINTER_MEMBERS) (\<lambda>_.
     if int_of (payload signed) ''successionVersion'' \<noteq> Some 1 then Inl SuccessionRejected
     else
     and_then (succession_stamp (payload signed) ''issuedAt'') (\<lambda>issued.
     and_then (succession_stamp (payload signed) ''expiresAt'') (\<lambda>expires.
     if expires \<le> issued \<or> i64_sub expires issued > MAX_POINTER_WINDOW_SECONDS then Inl SuccessionRejected
     else if now < issued \<or> now \<ge> expires then Inl SuccessionRejected
     else
     and_then (succession_text (payload signed) ''from'') (\<lambda>from_text.
     and_then (succession_text (payload signed) ''to'') (\<lambda>to_text.
     Inr \<lparr>pt_from = from_text, pt_to = to_text, pt_issued_at = issued, pt_expires_at = expires\<rparr>)))))))))"

definition recognise_succession :: "json \<Rightarrow> succession_error + succession_statement" where
  "recognise_succession j =
     and_then (closed_succession j SUCCESSION_MEMBERS) (\<lambda>_.
     if int_of j ''successionVersion'' \<noteq> Some 1 then Inl SuccessionRejected
     else
     and_then (succession_text j ''outgoing'') (\<lambda>outgoing.
     and_then (succession_text j ''incoming'') (\<lambda>incoming.
     and_then (succession_text j ''outgoingApplication'') (\<lambda>outgoing_app.
     and_then (succession_text j ''incomingApplication'') (\<lambda>incoming_app.
     and_then (succession_text j ''accountScopeId'') (\<lambda>scope.
     and_then (succession_stamp j ''issuedAt'') (\<lambda>issued.
     and_then (succession_stamp j ''expiresAt'') (\<lambda>expires.
     Inr \<lparr>ss_outgoing = outgoing, ss_incoming = incoming, ss_outgoing_application = outgoing_app,
       ss_incoming_application = incoming_app, ss_account_scope_id = scope, ss_issued_at = issued,
       ss_expires_at = expires\<rparr>))))))))"

definition verify_succession ::
  "externs \<Rightarrow> rust_str \<Rightarrow> rust_str \<Rightarrow> octets \<Rightarrow> octets \<Rightarrow> pointer \<Rightarrow> succession_expectation
     \<Rightarrow> succession_error + succession_statement" where
  "verify_succession X outgoing_compact countersign_compact outgoing_key incoming_key p expect =
     and_then (map_err (\<lambda>_. SuccessionRejected) (recognise_jws X outgoing_compact OUTGOING_JWS [])) (\<lambda>outgoing_jws.
     and_then (map_err (\<lambda>_. SuccessionRejected) (recognise_jws X countersign_compact COUNTERSIGN_JWS [])) (\<lambda>incoming_jws.
     if payload_octets outgoing_jws \<noteq> payload_octets incoming_jws then Inl SuccessionRejected
     else
     and_then (map_err (\<lambda>_. SuccessionRejected) (verify_jws X outgoing_jws outgoing_key)) (\<lambda>_.
     and_then (map_err (\<lambda>_. SuccessionRejected) (verify_jws X incoming_jws incoming_key)) (\<lambda>_.
     and_then (recognise_succession (payload outgoing_jws)) (\<lambda>s.
     if \<not> starts_with (ss_outgoing s) (jws_kid outgoing_jws) \<or> \<not> starts_with (ss_incoming s) (jws_kid incoming_jws)
     then Inl SuccessionRejected
     else if ss_incoming s \<noteq> se_asked_to_bind expect \<or> ss_outgoing s \<noteq> se_currently_bound expect
     then Inl SuccessionRejected
     else if pt_from p \<noteq> ss_outgoing_application s \<or> pt_to p \<noteq> ss_incoming_application s
       \<or> app_text (application_id (se_incoming_profile expect)) \<noteq> pt_to p
     then Inl SuccessionRejected
     else if \<not> se_person_confirmed expect then Inl SuccessionRejected
     else
     let window = i64_sub (ss_expires_at s) (ss_issued_at s) in
     if window \<le> 0 \<or> window > max_grant_lifetime_seconds (revocation (se_incoming_profile expect))
     then Inl SuccessionRejected
     else if se_now expect < ss_issued_at s \<or> se_now expect \<ge> ss_expires_at s then Inl SuccessionRejected
     else if se_prior_unexpired_incoming expect = Some (ss_outgoing s) then Inl SuccessionRejected
     else Inr s)))))"

definition may_deactivate_outgoing :: "grant_status list option \<Rightarrow> bool" where
  "may_deactivate_outgoing outstanding_grants =
     (case outstanding_grants of
        None \<Rightarrow> False
      | Some grants \<Rightarrow> list_all (\<lambda>g. gs_revoked g \<or> gs_expired g) grants)"

section \<open>Documents, exactly\<close>

text \<open>Counting the members closes a document whose names are distinct.\<close>

lemma count_closes:
  assumes "distinct (map fst ms)" "distinct req"
  shows "length ms = length req \<and> fst ` set ms \<subseteq> set req \<longleftrightarrow> fst ` set ms = set req"
proof -
  have l: "length ms = card (fst ` set ms)" "length req = card (set req)"
    using distinct_card [OF assms(1)] distinct_card [OF assms(2)] by simp_all
  show ?thesis unfolding l using card_subset_eq [of "set req" "fst ` set ms"] by auto
qed

lemma closed_succession_iff:
  assumes "json_wf j" "distinct allowed"
  shows "closed_succession j allowed = Inr u \<longleftrightarrow> has_members j allowed []"
proof (cases j)
  case (Object ms)
  have "closed_succession j allowed = Inr u \<longleftrightarrow> length ms = length allowed \<and> fst ` set ms \<subseteq> set allowed"
    by (auto simp: closed_succession_def Object res_iff case_prod_beta)
  also have "\<dots> \<longleftrightarrow> fst ` set ms = set allowed" using assms by (intro count_closes) (simp_all add: Object)
  finally show ?thesis by (auto simp: has_members_def Object)
qed (auto simp: closed_succession_def has_members_def)

lemma succession_text_iff: "succession_text j name = Inr s \<longleftrightarrow> get j name = Some (String s)"
  by (simp add: succession_text_def res_iff typed_member_iff)

lemma succession_stamp_iff:
  "succession_stamp j name = Inr v \<longleftrightarrow> stamp_range v \<and> get j name = Some (String (format_date_time_stamp v))"
  by (auto simp: succession_stamp_def res_iff succession_text_iff stamp.dec_Inr_iff)

lemma distinct_members: "distinct POINTER_MEMBERS" "distinct SUCCESSION_MEMBERS"
  by (simp_all add: POINTER_MEMBERS_def SUCCESSION_MEMBERS_def)

text \<open>A document with exactly the members of another has its canonical text.\<close>

lemma canonicalise_by_get:
  assumes "json_wf j" "has_members j req []" "\<And>name. name \<in> set req \<Longrightarrow> get j name = get (Object ns) name"
    and "distinct (map fst ns)" "fst ` set ns = set req"
  shows "canonicalise j = canonicalise (Object ns)"
proof -
  obtain ms where ms: "j = Object ms" using assms(2) by (auto simp: has_members_def)
  have "get j name = get (Object ns) name" for name
  proof (cases "name \<in> set req")
    case False
    then have "get j name = None" using get_outside [OF assms(2)] by blast
    moreover have "get (Object ns) name = None" using False assms(5) by (simp add: get_Object_None)
    ultimately show ?thesis by simp
  qed (rule assms(3))
  then show ?thesis
    unfolding ms using assms(1,4) ms by (intro canonicalise_by_members) (auto simp: get_Object)
qed

definition succession_ok :: "json \<Rightarrow> succession_statement \<Rightarrow> bool" where
  "succession_ok j s \<longleftrightarrow>
     has_members j SUCCESSION_MEMBERS [] \<and> (\<forall>name \<in> set SUCCESSION_MEMBERS. get j name = get (build_succession s) name) \<and>
     stamp_range (ss_issued_at s) \<and> stamp_range (ss_expires_at s)"

lemma recognise_succession_iff:
  assumes "json_wf j"
  shows "recognise_succession j = Inr s \<longleftrightarrow> succession_ok j s"
proof -
  have m: "(\<forall>name \<in> set SUCCESSION_MEMBERS. get j name = get (build_succession s) name) \<longleftrightarrow>
     get j ''successionVersion'' = Some (Integer 1) \<and> get j ''outgoing'' = Some (String (ss_outgoing s)) \<and>
     get j ''incoming'' = Some (String (ss_incoming s)) \<and>
     get j ''outgoingApplication'' = Some (String (ss_outgoing_application s)) \<and>
     get j ''incomingApplication'' = Some (String (ss_incoming_application s)) \<and>
     get j ''accountScopeId'' = Some (String (ss_account_scope_id s)) \<and>
     get j ''issuedAt'' = Some (String (format_date_time_stamp (ss_issued_at s))) \<and>
     get j ''expiresAt'' = Some (String (format_date_time_stamp (ss_expires_at s)))"
    unfolding SUCCESSION_MEMBERS_def set_simps ball_simps build_succession_def
    by (simp add: get_Object [of "_ # _"] del: set_simps)
  show ?thesis
    unfolding recognise_succession_def succession_ok_def m and_then_Inr_iff closed_succession_iff [OF assms distinct_members(2)]
      if_Inl_Inr_iff not_not succession_text_iff succession_stamp_iff typed_member_iff
    by (cases s) auto
qed

text \<open>The octets of a recognised statement are those its builder writes.\<close>

lemma succession_canonical:
  assumes "json_wf j" "succession_ok j s"
  shows "canonicalise j = canonicalise (build_succession s)"
proof -
  obtain ns where ns: "build_succession s = Object ns" "distinct (map fst ns)" "fst ` set ns = set SUCCESSION_MEMBERS"
    by (simp add: build_succession_def SUCCESSION_MEMBERS_def)
  show ?thesis
    unfolding ns(1)
    by (rule canonicalise_by_get [OF assms(1) _ _ ns(2,3)]) (use assms(2) ns(1) in \<open>auto simp: succession_ok_def\<close>)
qed

section \<open>Verification, exactly\<close>

lemma recognised_payload:
  assumes "base64ct X" "recognise_jws X t policy extra = Inr jws"
  shows "json_wf (payload jws)" "canonical_payload policy \<Longrightarrow> canonicalise (payload jws) = payload_octets jws"
proof -
  have ok: "jws_ok X t policy extra jws" using assms by (simp add: recognise_jws_iff)
  then show "json_wf (payload jws)" unfolding jws_ok_def using recognise_json_wf(1) by blast
  show "canonical_payload policy \<Longrightarrow> canonicalise (payload jws) = payload_octets jws"
    using ok unfolding jws_ok_def by blast
qed

text \<open>What the authority and the incoming application must agree to, of the statement alone.\<close>

definition succession_agreed :: "pointer \<Rightarrow> succession_expectation \<Rightarrow> succession_statement \<Rightarrow> bool" where
  "succession_agreed p expect s \<longleftrightarrow>
     ss_incoming s = se_asked_to_bind expect \<and> ss_outgoing s = se_currently_bound expect \<and>
     ss_outgoing_application s = pt_from p \<and> ss_incoming_application s = pt_to p \<and>
     pt_to p = app_text (application_id (se_incoming_profile expect)) \<and> se_person_confirmed expect \<and>
     0 < ss_expires_at s - ss_issued_at s \<and>
     ss_expires_at s - ss_issued_at s \<le> max_grant_lifetime_seconds (revocation (se_incoming_profile expect)) \<and>
     ss_issued_at s \<le> se_now expect \<and> se_now expect < ss_expires_at s \<and>
     se_prior_unexpired_incoming expect \<noteq> Some (ss_outgoing s)"

lemma verify_succession_iff:
  assumes X: "base64ct X"
  shows "verify_succession X oc cc okey ikey p expect = Inr s \<longleftrightarrow>
    (\<exists>oj ij. recognise_jws X oc OUTGOING_JWS [] = Inr oj \<and> recognise_jws X cc COUNTERSIGN_JWS [] = Inr ij \<and>
       payload_octets oj = payload_octets ij \<and> verify_jws X oj okey = Inr () \<and> verify_jws X ij ikey = Inr () \<and>
       succession_ok (payload oj) s \<and> starts_with (ss_outgoing s) (jws_kid oj) \<and> starts_with (ss_incoming s) (jws_kid ij) \<and>
       succession_agreed p expect s)"
proof -
  have r: "recognise_succession (payload oj) = Inr s \<longleftrightarrow> succession_ok (payload oj) s"
    if "recognise_jws X oc OUTGOING_JWS [] = Inr oj" for oj
    by (rule recognise_succession_iff [OF recognised_payload(1) [OF X that]])
  have w: "i64_sub (ss_expires_at s) (ss_issued_at s) = ss_expires_at s - ss_issued_at s" if "succession_ok j s" for j
    using that by (simp add: succession_ok_def stamps_sub)
  show ?thesis
    unfolding verify_succession_def Let_def and_then_Inr_iff map_err_Inr_iff if_Inl_Inr_iff not_not
    using r w by (auto simp: succession_agreed_def)
qed

lemma verify_pointer_iff:
  assumes X: "base64ct X"
  shows "verify_pointer X compact keys kids now = Inr p \<longleftrightarrow>
    (\<exists>signed i. recognise_jws X compact POINTER_JWS [] = Inr signed \<and>
       find_position (\<lambda>k. k = jws_kid signed) kids = Some i \<and> i < length keys \<and>
       verify_jws X signed (public_key (keys ! i)) = Inr () \<and>
       has_members (payload signed) POINTER_MEMBERS [] \<and> get (payload signed) ''successionVersion'' = Some (Integer 1) \<and>
       get (payload signed) ''from'' = Some (String (pt_from p)) \<and> get (payload signed) ''to'' = Some (String (pt_to p)) \<and>
       get (payload signed) ''issuedAt'' = Some (String (format_date_time_stamp (pt_issued_at p))) \<and>
       get (payload signed) ''expiresAt'' = Some (String (format_date_time_stamp (pt_expires_at p))) \<and>
       stamp_range (pt_issued_at p) \<and> stamp_range (pt_expires_at p) \<and>
       pt_issued_at p < pt_expires_at p \<and> pt_expires_at p - pt_issued_at p \<le> 7776000 \<and>
       pt_issued_at p \<le> now \<and> now < pt_expires_at p)"
proof -
  have c: "closed_succession (payload signed) POINTER_MEMBERS = Inr u \<longleftrightarrow> has_members (payload signed) POINTER_MEMBERS []"
    if "recognise_jws X compact POINTER_JWS [] = Inr signed" for signed u
    by (rule closed_succession_iff [OF recognised_payload(1) [OF X that] distinct_members(1)])
  have g: "list_get keys i = Some key \<longleftrightarrow> i < length keys \<and> key = keys ! i" for i key by (auto simp: list_get_def)
  show ?thesis
    unfolding verify_pointer_def and_then_Inr_iff map_err_Inr_iff if_Inl_Inr_iff not_not ok_or_Inr_iff g
      succession_stamp_iff succession_text_iff typed_member_iff MAX_POINTER_WINDOW_SECONDS_def
    by (cases p) (auto simp: c stamps_sub not_le not_less)
qed

text \<open>
  The two halves are signatures over one document: the statement's own canonical octets.
\<close>

lemma succession_octets:
  assumes X: "base64ct X" and v: "verify_succession X oc cc okey ikey p expect = Inr s"
  shows "\<exists>oj ij. recognise_jws X oc OUTGOING_JWS [] = Inr oj \<and> recognise_jws X cc COUNTERSIGN_JWS [] = Inr ij \<and>
    payload_octets oj = canonicalise (build_succession s) \<and> payload_octets ij = canonicalise (build_succession s) \<and>
    verify_jws X oj okey = Inr () \<and> verify_jws X ij ikey = Inr () \<and>
    starts_with (ss_outgoing s) (jws_kid oj) \<and> starts_with (ss_incoming s) (jws_kid ij) \<and> succession_agreed p expect s"
proof -
  obtain oj ij where j: "recognise_jws X oc OUTGOING_JWS [] = Inr oj" "recognise_jws X cc COUNTERSIGN_JWS [] = Inr ij"
    "payload_octets oj = payload_octets ij" "verify_jws X oj okey = Inr ()" "verify_jws X ij ikey = Inr ()"
    "succession_ok (payload oj) s" "starts_with (ss_outgoing s) (jws_kid oj)" "starts_with (ss_incoming s) (jws_kid ij)"
    "succession_agreed p expect s"
    using v unfolding verify_succession_iff [OF X] by blast
  have "canonicalise (payload oj) = payload_octets oj"
    using recognised_payload(2) [OF X j(1)] by (simp add: OUTGOING_JWS_def)
  then have "payload_octets oj = canonicalise (build_succession s)"
    using succession_canonical [OF recognised_payload(1) [OF X j(1)] j(6)] by simp
  with j show ?thesis by metis
qed

text \<open>An outgoing identity may go only when its grants are known and all of them are revoked or expired.\<close>

lemma may_deactivate_iff:
  "may_deactivate_outgoing outstanding_grants \<longleftrightarrow>
     (\<exists>grants. outstanding_grants = Some grants \<and> (\<forall>g \<in> set grants. gs_revoked g \<or> gs_expired g))"
  by (auto simp: may_deactivate_outgoing_def list_all_iff split: option.splits)

text \<open>
  The identifier test is a prefix test: the key name of a longer DID passes for a shorter one, and
  only the caller's resolution of the two keys keeps them apart.
\<close>

lemma kid_prefix_is_not_equality:
  "starts_with ''did:crdt:home'' ''did:crdt:home-of-another#jwk-0''"
  by (simp add: starts_with_def)

section \<open>A succession to evaluate\<close>

definition sample_pointer :: pointer where
  "sample_pointer = \<lparr>pt_from = ''https://old.example/app'', pt_to = ''https://app.example/app'',
     pt_issued_at = 1700000000, pt_expires_at = 1707776000\<rparr>"

definition sample_succession :: succession_statement where
  "sample_succession = \<lparr>ss_outgoing = ''did:crdt:old'', ss_incoming = ''did:crdt:new'',
     ss_outgoing_application = ''https://old.example/app'', ss_incoming_application = ''https://app.example/app'',
     ss_account_scope_id = ''scope'', ss_issued_at = 1700000000, ss_expires_at = 1700003600\<rparr>"

definition sample_succession_expectation :: succession_expectation where
  "sample_succession_expectation = \<lparr>se_currently_bound = ''did:crdt:old'', se_asked_to_bind = ''did:crdt:new'',
     se_incoming_profile = sample_application, se_person_confirmed = True, se_prior_unexpired_incoming = None,
     se_now = 1700000000\<rparr>"

definition succession_header :: "rust_str \<Rightarrow> rust_str \<Rightarrow> json" where
  "succession_header typ_text k = Object [(''alg'', String ALG), (''typ'', String typ_text), (''kid'', String k)]"

lemma signed_succession:
  assumes X: "base64ct X" "ed25519_law X key"
    and h: "starts_with ''did:'' k" "CHR ''#'' \<in> set k" "valid_utf8 k" "policy \<in> {OUTGOING_JWS, COUNTERSIGN_JWS}"
    and s: "json_wf (build_succession s)" "stamp_range (ss_issued_at s)" "stamp_range (ss_expires_at s)"
    and len: "length (canonicalise (succession_header (policy_typ policy) k)) \<le> 1000"
      "length (canonicalise (build_succession s)) \<le> 1500"
  shows "\<exists>jws. recognise_jws X (sign_jws X (succession_header (policy_typ policy) k) (build_succession s) key) policy [] = Inr jws \<and>
    verify_jws X jws (sk_public X key) = Inr () \<and> jws_kid jws = k \<and>
    payload_octets jws = canonicalise (build_succession s) \<and> succession_ok (payload jws) s"
proof -
  let ?h = "succession_header (policy_typ policy) k" and ?b = "build_succession s"
  have lit: "valid_utf8 t" if "list_all (\<lambda>c. code c < 0x80) t" for t using that by (rule valid_utf8_ascii)
  have wf: "json_wf ?h" using h(3,4) by (auto simp: succession_header_def OUTGOING_JWS_def COUNTERSIGN_JWS_def ALG_def lit)
  have ok: "header_ok ?h policy []"
    using h by (auto simp: header_ok_def succession_header_def OUTGOING_JWS_def COUNTERSIGN_JWS_def ALG_def typed_member_iff
        get_Object allowed_header_def FORBIDDEN_HEADER_MEMBERS_def kid_shape_def)
  have "unpadded_len n \<le> 1334" if "n \<le> 1000" for n using that by (simp add: unpadded_len_def)
  moreover have "unpadded_len n \<le> 2000" if "n \<le> 1500" for n using that by (simp add: unpadded_len_def)
  ultimately have bound: "length (sign_jws X ?h ?b key) \<le> max_octets policy"
    unfolding length_sign_jws [OF X] using len h(4) by (fastforce simp: OUTGOING_JWS_def COUNTERSIGN_JWS_def)
  have d: "json_depth ?h \<le> 4" "json_depth ?b \<le> max_payload_depth policy" "get ?b ''vc'' = None"
    using h(4) by (auto simp: succession_header_def build_succession_def OUTGOING_JWS_def COUNTERSIGN_JWS_def get_Object)
  have "length (canonicalise ?h) \<le> 4096" using len(1) by linarith
  from sign_recognise_verify_lemma [OF X wf d(1) this ok s(1) d(2,3) bound]
  obtain jws where j: "recognise_jws X (sign_jws X ?h ?b key) policy [] = Inr jws" "verify_jws X jws (sk_public X key) = Inr ()"
      "protected_header jws = sort_members ?h" "payload jws = sort_members ?b" "payload_octets jws = canonicalise ?b"
    by blast
  have "jws_kid jws = k"
    using j(1,3) wf by (simp add: recognise_jws_iff [OF X(1)] jws_ok_def typed_member_sort_members)
      (simp add: succession_header_def typed_member_iff get_Object)
  moreover have "succession_ok (sort_members ?b) s"
  proof -
    have "has_members ?b SUCCESSION_MEMBERS []" by (simp add: build_succession_def has_members_def SUCCESSION_MEMBERS_def)
    moreover have "get (sort_members ?b) name = get ?b name" if "name \<in> set SUCCESSION_MEMBERS" for name
      using that unfolding get_sort_members [OF s(1)]
      by (auto simp: SUCCESSION_MEMBERS_def build_succession_def get_Object)
    ultimately show ?thesis using s by (simp add: succession_ok_def has_members_sort_members)
  qed
  ultimately show ?thesis using j by metis
qed

lemma sample_succession_wf: "json_wf (build_succession sample_succession)"
proof -
  have lit: "valid_utf8 t" if "list_all (\<lambda>c. code c < 0x80) t" for t using that by (rule valid_utf8_ascii)
  show ?thesis
    by (simp add: build_succession_def sample_succession_def lit MAX_SAFE_INTEGER_def valid_utf8_stamp stamp_range_def)
qed

lemma sample_succession_length: "length (canonicalise (build_succession sample_succession)) \<le> 1500"
proof -
  have st: "length (format_date_time_stamp 1700000000) = 20" "length (format_date_time_stamp 1700003600) = 20"
    by (simp_all add: length_stamp stamp_range_def)
  have i: "length (dec_int 1) = 1" by code_simp
  have "text_bound (build_succession sample_succession) \<le> 1500"
    using st i by (simp add: build_succession_def sample_succession_def)
  then show ?thesis using length_canonicalise le_trans by blast
qed

definition sample_halves :: "rust_str \<times> rust_str" where
  "sample_halves =
     (sign_jws sample_externs (succession_header ''selfsame-succession+jws'' ''did:crdt:old#key-1'')
        (build_succession sample_succession) ''old-key'',
      sign_jws sample_externs (succession_header ''selfsame-succession-countersign+jws'' ''did:crdt:new#key-1'')
        (build_succession sample_succession) ''new-key'')"

lemma sample_succession_verifies:
  "verify_succession sample_externs (fst sample_halves) (snd sample_halves) (sk_public sample_externs ''old-key'')
     (sk_public sample_externs ''new-key'') sample_pointer sample_succession_expectation = Inr sample_succession"
proof -
  have lit: "valid_utf8 t" if "list_all (\<lambda>c. code c < 0x80) t" for t using that by (rule valid_utf8_ascii)
  have sr: "stamp_range (ss_issued_at sample_succession)" "stamp_range (ss_expires_at sample_succession)"
    by (simp_all add: sample_succession_def stamp_range_def)
  have h: "length (canonicalise (succession_header ''selfsame-succession+jws'' ''did:crdt:old#key-1'')) \<le> 1000"
    "length (canonicalise (succession_header ''selfsame-succession-countersign+jws'' ''did:crdt:new#key-1'')) \<le> 1000"
    by code_simp+
  note signed = signed_succession [OF rfc4648.base64ct_axioms sample_ed25519_law _ _ lit _ sample_succession_wf sr _
      sample_succession_length]
  obtain oj where oj: "recognise_jws sample_externs (fst sample_halves) OUTGOING_JWS [] = Inr oj"
      "verify_jws sample_externs oj (sk_public sample_externs ''old-key'') = Inr ()" "jws_kid oj = ''did:crdt:old#key-1''"
      "payload_octets oj = canonicalise (build_succession sample_succession)" "succession_ok (payload oj) sample_succession"
    using signed [where policy = OUTGOING_JWS and k = "''did:crdt:old#key-1''" and key = "''old-key''"] h(1)
    by (auto simp: sample_halves_def OUTGOING_JWS_def starts_with_def)
  obtain ij where ij: "recognise_jws sample_externs (snd sample_halves) COUNTERSIGN_JWS [] = Inr ij"
      "verify_jws sample_externs ij (sk_public sample_externs ''new-key'') = Inr ()" "jws_kid ij = ''did:crdt:new#key-1''"
      "payload_octets ij = canonicalise (build_succession sample_succession)"
    using signed [where policy = COUNTERSIGN_JWS and k = "''did:crdt:new#key-1''" and key = "''new-key''"] h(2)
    by (auto simp: sample_halves_def COUNTERSIGN_JWS_def starts_with_def)
  have "succession_agreed sample_pointer sample_succession_expectation sample_succession"
    by (simp add: succession_agreed_def sample_pointer_def sample_succession_expectation_def sample_succession_def
        sample_application_enrollment)
  moreover have "starts_with (ss_outgoing sample_succession) (jws_kid oj)" "starts_with (ss_incoming sample_succession) (jws_kid ij)"
    by (simp_all add: oj(3) ij(3) sample_succession_def starts_with_def)
  ultimately show ?thesis unfolding verify_succession_iff [OF rfc4648.base64ct_axioms] using oj ij by metis
qed

section \<open>Properties\<close>

text \<open>
  C25. A verified succession is one document that two identities signed: both halves carry, octet for
  octet, the canonical serialisation of the statement that is returned, each verifies under its key,
  the two identities are the one bound and the one to bind, the applications are those of the pointer
  and of the incoming profile, the person confirmed, the clock is in a window no longer than that
  profile's grant lifetime, and the outgoing identity is not itself a recent incoming one.
\<close>

theorem verified_succession_bound:
  assumes "base64ct X" "verify_succession X oc cc okey ikey p expect = Inr s"
  shows "\<exists>oj ij. recognise_jws X oc OUTGOING_JWS [] = Inr oj \<and> recognise_jws X cc COUNTERSIGN_JWS [] = Inr ij \<and>
    payload_octets oj = canonicalise (build_succession s) \<and> payload_octets ij = canonicalise (build_succession s) \<and>
    verify_jws X oj okey = Inr () \<and> verify_jws X ij ikey = Inr () \<and>
    starts_with (ss_outgoing s) (jws_kid oj) \<and> starts_with (ss_incoming s) (jws_kid ij) \<and> succession_agreed p expect s"
  using assms by (rule succession_octets)

theorem verified_succession_bound_witness:
  "\<exists>oj ij. recognise_jws sample_externs (fst sample_halves) OUTGOING_JWS [] = Inr oj \<and>
    recognise_jws sample_externs (snd sample_halves) COUNTERSIGN_JWS [] = Inr ij \<and>
    payload_octets oj = payload_octets ij \<and> payload_octets oj = canonicalise (build_succession sample_succession)"
  using verified_succession_bound [OF rfc4648.base64ct_axioms sample_succession_verifies] by metis

end
