(* ===== verification/Discovery.thy ===== *)
theory Discovery
  imports Profile Timestamp
begin

text \<open>
  Profile discovery (\<open>discovery.rs\<close>): what of an HTTP response is accepted as the profile of the
  identifier that was dereferenced, how long it may be cached, and the enumeration of an origin's
  applications. The lemmas give the exact condition of each decision.
\<close>

section \<open>Constants and types\<close>

definition PROFILE_MEDIA_TYPE :: rust_str where "PROFILE_MEDIA_TYPE = ''application/selfsame-profile+json''"
definition MAX_BODY_OCTETS :: nat where "MAX_BODY_OCTETS = 65536"
definition MAX_CACHE_SECONDS :: int where "MAX_CACHE_SECONDS = 3600"
definition MAX_ENUMERATED_APPLICATIONS :: nat where "MAX_ENUMERATED_APPLICATIONS = 32"
definition ENUMERATION_PATH :: rust_str where "ENUMERATION_PATH = ''/.well-known/selfsame/applications''"

datatype discovery_error =
    DiscoveryUnverified | NotAuthenticatedHttps | Redirected | BadResponse | DiscoveryProfile profile_error
  | IdentifierMismatch | DigestMismatch | BadEnumeration

record http_response =
  https_validated :: bool
  redirected :: bool
  http_status :: nat
  content_type :: rust_str
  content_encoding :: "rust_str option"
  body :: octets

section \<open>Operations\<close>

definition to_ascii_lowercase :: "octet \<Rightarrow> octet" where
  "to_ascii_lowercase c = (if is_ascii_uppercase c then char_of (code c + 32) else c)"

definition eq_ignore_ascii_case :: "rust_str \<Rightarrow> rust_str \<Rightarrow> bool" where
  "eq_ignore_ascii_case s t \<longleftrightarrow> map to_ascii_lowercase s = map to_ascii_lowercase t"

definition recognise_profile_response ::
  "externs \<Rightarrow> http_response \<Rightarrow> app_id \<Rightarrow> discovery_error + application_profile" where
  "recognise_profile_response X r dereferenced =
     (if \<not> https_validated r then Inl NotAuthenticatedHttps
      else if redirected r then Inl Redirected
      else if http_status r \<noteq> 200
        \<or> content_type r \<noteq> PROFILE_MEDIA_TYPE
        \<or> (case content_encoding r of Some e \<Rightarrow> \<not> eq_ignore_ascii_case e ''identity'' | None \<Rightarrow> False)
        \<or> length (body r) > MAX_BODY_OCTETS
      then Inl BadResponse
      else
      and_then (map_err DiscoveryProfile (recognise_profile X (body r))) (\<lambda>P.
      if app_text (application_id P) \<noteq> app_text dereferenced then Inl IdentifierMismatch else Inr P))"

definition check_record_digest :: "externs \<Rightarrow> application_profile \<Rightarrow> rust_str \<Rightarrow> discovery_error + unit" where
  "check_record_digest X P record_profile_digest =
     (if b64url X (profile_digest P) \<noteq> record_profile_digest then Inl DigestMismatch else Inr ())"

definition cache_is_fresh :: "unix_seconds \<Rightarrow> unix_seconds \<Rightarrow> bool" where
  "cache_is_fresh fetched_at now \<longleftrightarrow> now \<ge> fetched_at \<and> i64_sub now fetched_at \<le> MAX_CACHE_SECONDS"

definition cache_is_usable :: "application_profile \<Rightarrow> unix_seconds \<Rightarrow> unix_seconds \<Rightarrow> bool" where
  "cache_is_usable P fetched_at now = cache_is_fresh fetched_at now"

definition enumerated_application :: "rust_str \<Rightarrow> json \<Rightarrow> discovery_error + app_id" where
  "enumerated_application queried_origin item =
     and_then (ok_or BadEnumeration (as_str item)) (\<lambda>t.
     and_then (map_err (\<lambda>_. BadEnumeration) (parse_application_id t)) (\<lambda>aid.
     if app_origin aid \<noteq> queried_origin then Inl BadEnumeration else Inr aid))"

definition recognise_application_list :: "octets \<Rightarrow> rust_str \<Rightarrow> discovery_error + app_id list" where
  "recognise_application_list octs queried_origin =
     and_then (map_err (\<lambda>_. BadEnumeration) (recognise_json octs \<lparr>max_bytes = 8192, max_depth = 3\<rparr>)) (\<lambda>j.
     and_then (ok_or BadEnumeration (as_object j)) (\<lambda>members.
     if length members \<noteq> 2 then Inl BadEnumeration
     else
     and_then (try_each (\<lambda>(name, _).
       ensure (\<not> (name \<noteq> ''version'' \<and> name \<noteq> ''applications'')) BadEnumeration) members) (\<lambda>_.
     if int_of j ''version'' \<noteq> Some 1 then Inl BadEnumeration
     else
     and_then (ok_or BadEnumeration (array_of j ''applications'')) (\<lambda>items.
     if length items > MAX_ENUMERATED_APPLICATIONS then Inl BadEnumeration
     else try_map (enumerated_application queried_origin) items))))"

definition profile_request_path :: "app_id \<Rightarrow> discovery_error + rust_str" where
  "profile_request_path aid =
     and_then (map_err (\<lambda>_. IdentifierMismatch) (recognise_uri (app_text aid) APPLICATION_ID)) (\<lambda>parts.
     Inr (uri_path parts))"

section \<open>Decisions, exactly\<close>

lemma profile_response_iff:
  "recognise_profile_response X r dereferenced = Inr P \<longleftrightarrow>
     https_validated r \<and> \<not> redirected r \<and> http_status r = 200 \<and> content_type r = PROFILE_MEDIA_TYPE \<and>
     (\<forall>e. content_encoding r = Some e \<longrightarrow> eq_ignore_ascii_case e ''identity'') \<and> length (body r) \<le> 65536 \<and>
     recognise_profile X (body r) = Inr P \<and> app_text (application_id P) = app_text dereferenced"
  by (auto simp: recognise_profile_response_def MAX_BODY_OCTETS_def res_iff not_less split: option.splits)

text \<open>What was served is the pinned document: its digest is a function of the body alone.\<close>

lemma served_profile_pinned:
  assumes "recognise_profile_response X r aid = Inr P" "check_record_digest X P d = Inr u"
  shows "profile_ok X P" "profile_canonical P = body r" "d = b64url X (sha256_digest X (body r))"
  using assms recognise_profile_ok [of X "body r" P]
  by (auto simp: profile_response_iff check_record_digest_def split: if_splits)

text \<open>Inside the timestamps' range the cached age is exact, so a profile outlives its fetch by an hour at most.\<close>

lemma cache_is_fresh_iff:
  assumes "stamp_range fetched_at" "stamp_range now"
  shows "cache_is_fresh fetched_at now \<longleftrightarrow> fetched_at \<le> now \<and> now \<le> fetched_at + 3600"
proof -
  have "is_i64 (now - fetched_at)" using assms by (simp add: stamp_range_def is_i64_def i64_min_def i64_max_def)
  then show ?thesis by (auto simp: cache_is_fresh_def MAX_CACHE_SECONDS_def i64_sub_exact)
qed

text \<open>
  Outside it the subtraction of the release build wraps: a fetch at the lowest instant counts as fresh
  at the highest.
\<close>

lemma cache_freshness_wraps: "cache_is_fresh i64_min i64_max"
  by (simp add: cache_is_fresh_def MAX_CACHE_SECONDS_def i64_sub_def i64_wrap_def i64_min_def i64_max_def)

lemma enumerated_application_iff:
  "enumerated_application org item = Inr aid \<longleftrightarrow>
     item = String (app_text aid) \<and> parse_application_id (app_text aid) = Inr aid \<and> app_origin aid = org"
  by (auto simp: enumerated_application_def res_iff accessor_Some_iff parse_application_id_def)

lemma application_list_sound:
  assumes "recognise_application_list octs org = Inr aids"
  shows "length aids \<le> 32" "\<forall>aid \<in> set aids. app_id_ok aid \<and> app_origin aid = org"
    "\<exists>j. recognise_json octs \<lparr>max_bytes = 8192, max_depth = 3\<rparr> = Inr j \<and> get j ''version'' = Some (Integer 1) \<and>
       get j ''applications'' = Some (Array (map (\<lambda>aid. String (app_text aid)) aids))"
proof -
  obtain j items where j: "recognise_json octs \<lparr>max_bytes = 8192, max_depth = 3\<rparr> = Inr j"
      "get j ''version'' = Some (Integer 1)" "get j ''applications'' = Some (Array items)" "length items \<le> 32"
      "list_all2 (\<lambda>item aid. enumerated_application org item = Inr aid) items aids"
    using assms unfolding recognise_application_list_def MAX_ENUMERATED_APPLICATIONS_def
    by (auto simp: res_iff typed_member_iff)
  have items: "items = map (\<lambda>aid. String (app_text aid)) aids"
    using j(5) by (induction items aids rule: list_all2_induct) (simp_all add: enumerated_application_iff)
  show "length aids \<le> 32" using j(4) items by simp
  show "\<exists>j. recognise_json octs \<lparr>max_bytes = 8192, max_depth = 3\<rparr> = Inr j \<and> get j ''version'' = Some (Integer 1) \<and>
       get j ''applications'' = Some (Array (map (\<lambda>aid. String (app_text aid)) aids))"
    using j(1-3) items by blast
  show "\<forall>aid \<in> set aids. app_id_ok aid \<and> app_origin aid = org"
  proof
    fix aid assume "aid \<in> set aids"
    then have p: "parse_application_id (app_text aid) = Inr aid" "app_origin aid = org"
      using list_all2_set_right [OF j(5)] by (auto simp: enumerated_application_iff)
    then obtain parts where "recognise_uri (app_text aid) APPLICATION_ID = Inr parts"
        "aid = \<lparr>app_text = app_text aid, app_origin = origin parts\<rparr>"
      by (auto simp: parse_application_id_def res_iff)
    then have "app_id_ok aid" by (metis app_id.select_convs(2) app_id_ok_def on_origin_def)
    with p(2) show "app_id_ok aid \<and> app_origin aid = org" by simp
  qed
qed

lemma request_path_spells:
  assumes "app_id_ok aid" "profile_request_path aid = Inr path"
  shows "app_text aid = app_origin aid @ path"
proof -
  obtain parts where p: "recognise_uri (app_text aid) APPLICATION_ID = Inr parts" "uri_path parts = path"
    using assms(2) by (auto simp: profile_request_path_def res_iff)
  then have o: "origin parts = app_origin aid" using assms(1) by (auto simp: app_id_ok_def on_origin_def)
  have "uri_ok APPLICATION_ID parts" "app_text aid = uri_text parts" using recognise_uri_sound [OF p(1)] by simp_all
  then show ?thesis using p(2) o by (simp add: uri_ok_def uri_text_def APPLICATION_ID_def fragment_text_def)
qed

end
