(* ===== verification/Multibase.thy ===== *)
theory Multibase
  imports Codec
begin

unbundle bit_operations_syntax

text \<open>
  \<open>crates/selfsame-core/src/mb.rs\<close>: multibase \<open>u\<close> (base64url without padding), the one binary
  spelling of keys, signatures and deltas. Both directions are the crate's own loops over a
  \<open>u32\<close>. The theory shows that the encoder computes RFC 4648 and that the decoder accepts the
  encoder's output and nothing else, by interpreting the locale of canonical codecs.
\<close>

section \<open>Definitions\<close>

definition MB_PREFIX :: octet where "MB_PREFIX = CHR ''u''"

definition MB_ALPHABET :: rust_str where
  "MB_ALPHABET = ''ABCDEFGHIJKLMNOPQRSTUVWXYZabcdefghijklmnopqrstuvwxyz0123456789-_''"

datatype multibase_error =
    MissingPrefix
  | MbBadAlphabet nat
  | BadLength
  | NonCanonicalTail
  | MbWrongLength nat nat

text \<open>\<open>xs.chunks(n)\<close>: pieces of \<open>n\<close> elements, the last one possibly shorter. The standard
  library panics on \<open>n = 0\<close>, which no caller passes.\<close>

function chunks :: "nat \<Rightarrow> 'a list \<Rightarrow> 'a list list" where
  "chunks n xs = (if n = 0 \<or> xs = [] then [] else take n xs # chunks n (drop n xs))"
  by pat_completeness auto
termination
  by (relation "measure (length \<circ> snd)") auto

declare chunks.simps [simp del]

subsection \<open>encode\<close>

definition encode_chunk :: "octets \<Rightarrow> rust_str" where
  "encode_chunk chunk =
     (let b0 = of_char (chunk ! 0) :: 32 word;
          b1 = (if 1 < length chunk then of_char (chunk ! 1) else 0);
          b2 = (if 2 < length chunk then of_char (chunk ! 2) else 0);
          n = (push_bit 16 b0 OR push_bit 8 b1) OR b2
      in map (\<lambda>i. MB_ALPHABET ! unat (drop_bit (18 - 6 * i) n AND 0x3F)) [0..<length chunk + 1])"

definition mb_encode :: "octets \<Rightarrow> rust_str" where
  "mb_encode bytes = MB_PREFIX # concat (map encode_chunk (chunks 3 bytes))"

subsection \<open>decode\<close>

definition sextet :: "octet \<Rightarrow> nat option" where
  "sextet c =
     (if is_ascii_uppercase c then Some (code c - 65)
      else if is_ascii_lowercase c then Some (code c - 97 + 26)
      else if is_ascii_digit c then Some (code c - 48 + 52)
      else if c = CHR ''-'' then Some 62
      else if c = CHR ''_'' then Some 63
      else None)"

text \<open>\<open>bytes.iter().position(p)\<close>\<close>

fun position_where :: "('a \<Rightarrow> bool) \<Rightarrow> 'a list \<Rightarrow> nat option" where
  "position_where p [] = None"
| "position_where p (x # xs) = (if p x then Some 0 else map_option Suc (position_where p xs))"

text \<open>The inner loop: the accumulator after character \<open>i\<close> of the chunk.\<close>

fun accumulate :: "32 word \<Rightarrow> nat \<Rightarrow> octets \<Rightarrow> 32 word" where
  "accumulate acc i [] = acc"
| "accumulate acc i (c # cs) =
     accumulate (acc OR push_bit (18 - 6 * i) (of_nat (the (sextet c)))) (Suc i) cs"

definition decode_chunk :: "octets \<Rightarrow> multibase_error + octets" where
  "decode_chunk chunk =
     (let acc = accumulate 0 0 chunk;
          whole = length chunk - 1
      in if length chunk < 4 \<and> acc AND drop_bit (whole * 8) 0x00FFFFFF \<noteq> 0
         then Inl NonCanonicalTail
         else Inr (map (\<lambda>i. char_of (unat (drop_bit (16 - 8 * i) acc AND 0xFF))) [0..<whole]))"

definition mb_decode :: "rust_str \<Rightarrow> multibase_error + octets" where
  "mb_decode s =
     and_then (ok_or MissingPrefix (strip_prefix [MB_PREFIX] s)) (\<lambda>bytes.
       case position_where (\<lambda>c. sextet c = None) bytes of
         Some i \<Rightarrow> Inl (MbBadAlphabet i)
       | None \<Rightarrow>
           if length bytes mod 4 = 1 then Inl BadLength
           else and_then (try_map decode_chunk (chunks 4 bytes)) (\<lambda>out. Inr (concat out)))"

definition mb_decode_exact :: "nat \<Rightarrow> rust_str \<Rightarrow> multibase_error + octets" where
  "mb_decode_exact n s =
     and_then (mb_decode s) (\<lambda>v.
       if length v = n then Inr v else Inl (MbWrongLength n (length v)))"

section \<open>Chunks\<close>

lemma chunks_Nil [simp]: "chunks n [] = []"
  by (simp add: chunks.simps)

lemma chunks_append [simp]: "length xs = n \<Longrightarrow> 0 < n \<Longrightarrow> chunks n (xs @ ys) = xs # chunks n ys"
  by (subst chunks.simps) auto

lemma chunks_short [simp]: "xs \<noteq> [] \<Longrightarrow> length xs \<le> n \<Longrightarrow> chunks n xs = [xs]"
  by (cases xs) (subst chunks.simps, auto)+

lemma concat_chunks: "0 < n \<Longrightarrow> concat (chunks n xs) = xs"
  by (induction n xs rule: chunks.induct) (subst chunks.simps, auto)

section \<open>Words built from disjoint pieces\<close>

lemma or_disjoint_nat:
  fixes a b :: nat
  assumes "b < 2 ^ k"
  shows "a * 2 ^ k OR b = a * 2 ^ k + b"
proof -
  have "take_bit k b = b" using assms by (rule take_bit_nat_eq_self)
  then have "\<not> (k \<le> n \<and> bit b n)" for n by (metis bit_take_bit_iff not_le)
  then have "push_bit k a AND b = 0"
    by (intro bit_eqI) (auto simp: bit_and_iff bit_push_bit_iff)
  then have "push_bit k a OR b = push_bit k a + b" by (simp only: disjunctive_add_eq_or)
  then show ?thesis by (simp add: push_bit_eq_mult)
qed

lemma unat_or_disjoint:
  fixes v w :: "32 word"
  assumes "unat v = a * 2 ^ k" "unat w < 2 ^ k"
  shows "unat (v OR w) = a * 2 ^ k + unat w"
  using or_disjoint_nat [OF assms(2), of a] by (simp add: unsigned_or_eq assms(1))

lemma unat_push_bit_small:
  fixes w :: "32 word"
  assumes "unat w * 2 ^ k < 2 ^ 32"
  shows "unat (push_bit k w) = unat w * 2 ^ k"
proof -
  have "unat (push_bit k w) = take_bit 32 (push_bit k (unat w))"
    by (simp add: unsigned_push_bit_eq)
  then show ?thesis
    using assms by (simp only: push_bit_eq_mult take_bit_nat_eq_self)
qed

lemma unat_field:
  fixes w :: "32 word"
  shows "unat (drop_bit k w AND mask n) = (unat w div 2 ^ k) mod 2 ^ n"
proof -
  have "unat (drop_bit k w AND mask n) = unat (take_bit n (drop_bit k w))"
    by (simp add: take_bit_eq_mask)
  also have "\<dots> = take_bit n (drop_bit k (unat w))"
    by (simp add: unsigned_take_bit_eq unat_drop_bit_eq)
  finally show ?thesis by (simp add: take_bit_eq_mod drop_bit_eq_div)
qed

lemma unat_of_octet: "unat (of_char c :: 32 word) = code c"
proof -
  have "code c < 2 ^ 32" by (rule less_trans [OF code_bound]) simp
  then have "unat (of_nat (code c) :: 32 word) = code c"
    by (simp add: unsigned_of_nat take_bit_nat_eq_self del: of_nat_of_char)
  then show ?thesis by (simp only: of_nat_of_char)
qed

lemma unat_of_sextet: "i < 64 \<Longrightarrow> unat (of_nat i :: 32 word) = i"
  by (simp add: unsigned_of_nat take_bit_nat_eq_self)

lemma masks:
  "(0x3F :: 32 word) = mask 6" "(0xFF :: 32 word) = mask 8"
  "drop_bit 8 (0x00FFFFFF :: 32 word) = mask 16" "drop_bit 16 (0x00FFFFFF :: 32 word) = mask 8"
  by code_simp+

section \<open>Digits in radix 64 and 256\<close>

lemma radix_digits:
  fixes x d b :: nat
  assumes "d < b"
  shows "(x * b + d) div b = x" "(x * b + d) mod b = d"
  using assms by simp_all

lemma sextets_of:
  fixes p q r s :: nat
  assumes "p < 64" "q < 64" "r < 64" "s < 64" "n = ((p * 64 + q) * 64 + r) * 64 + s"
  shows "n div 2 ^ 18 mod 2 ^ 6 = p" "n div 2 ^ 12 mod 2 ^ 6 = q" "n div 2 ^ 6 mod 2 ^ 6 = r" "n div 2 ^ 0 mod 2 ^ 6 = s"
proof -
  have d: "n div 2 ^ 6 = (p * 64 + q) * 64 + r"
    using radix_digits [OF assms(4), of "(p * 64 + q) * 64 + r"] by (simp add: assms(5))
  have "n div 2 ^ 12 = n div 2 ^ 6 div 64" by (simp add: div_mult2_eq [symmetric])
  then have e: "n div 2 ^ 12 = p * 64 + q" unfolding d radix_digits [OF assms(3)] .
  have "n div 2 ^ 18 = n div 2 ^ 12 div 64" by (simp add: div_mult2_eq [symmetric])
  then have f: "n div 2 ^ 18 = p" unfolding e radix_digits [OF assms(2)] .
  show "n div 2 ^ 18 mod 2 ^ 6 = p" "n div 2 ^ 12 mod 2 ^ 6 = q" "n div 2 ^ 6 mod 2 ^ 6 = r"
    unfolding d e f using radix_digits [OF assms(2), of p] radix_digits [OF assms(3), of "p * 64 + q"] assms(1)
    by simp_all
  show "n div 2 ^ 0 mod 2 ^ 6 = s"
    using radix_digits [OF assms(4), of "(p * 64 + q) * 64 + r"] by (simp add: assms(5))
qed

lemma octets_of:
  fixes a b c :: nat
  assumes "a < 256" "b < 256" "c < 256" "n = (a * 256 + b) * 256 + c"
  shows "n div 2 ^ 16 mod 2 ^ 8 = a" "n div 2 ^ 8 mod 2 ^ 8 = b" "n div 2 ^ 0 mod 2 ^ 8 = c"
    "n mod 2 ^ 8 = c" "n mod 2 ^ 16 = b * 256 + c"
proof -
  have d: "n div 2 ^ 8 = a * 256 + b"
    using radix_digits [OF assms(3), of "a * 256 + b"] by (simp add: assms(4))
  have "n div 2 ^ 16 = n div 2 ^ 8 div 256" by (simp add: div_mult2_eq [symmetric])
  then have e: "n div 2 ^ 16 = a" unfolding d radix_digits [OF assms(2)] .
  show "n div 2 ^ 16 mod 2 ^ 8 = a" "n div 2 ^ 8 mod 2 ^ 8 = b"
    unfolding d e using radix_digits [OF assms(2), of a] assms(1) by simp_all
  show "n div 2 ^ 0 mod 2 ^ 8 = c" "n mod 2 ^ 8 = c"
    using radix_digits [OF assms(3), of "a * 256 + b"] by (simp_all add: assms(4))
  have "n = a * 2 ^ 16 + (b * 256 + c)" by (simp add: assms(4))
  moreover have "b * 256 + c < 2 ^ 16" using assms(2,3) by simp
  ultimately show "n mod 2 ^ 16 = b * 256 + c" by simp
qed

text \<open>The same number of 24 bits as four sextets and as three octets.\<close>

lemma regroup:
  fixes a b c :: nat
  shows "(a * 256 + b) * 256 + c
    = ((a div 4 * 64 + (a mod 4 * 16 + b div 16)) * 64 + (b mod 16 * 4 + c div 64)) * 64 + c mod 64"
proof -
  have "((4 * a1 + a0) * 256 + (16 * b1 + b0)) * 256 + (64 * c1 + c0)
    = ((a1 * 64 + (a0 * 16 + b1)) * 64 + (b0 * 4 + c1)) * 64 + c0" for a1 a0 b1 b0 c1 c0 :: nat by simp
  from this [of "a div 4" "a mod 4" "b div 16" "b mod 16" "c div 64" "c mod 64"] show ?thesis by simp
qed

lemma regroup':
  fixes p q r s :: nat
  shows "((p * 64 + q) * 64 + r) * 64 + s
    = ((p * 4 + q div 16) * 256 + (q mod 16 * 16 + r div 4)) * 256 + (r mod 4 * 64 + s)"
proof -
  have "((p * 64 + (16 * q1 + q0)) * 64 + (4 * r1 + r0)) * 64 + s
    = ((p * 4 + q1) * 256 + (q0 * 16 + r1)) * 256 + (r0 * 64 + s)" for q1 q0 r1 r0 :: nat by simp
  from this [of "q div 16" "q mod 16" "r div 4" "r mod 4"] show ?thesis by simp
qed

section \<open>The encoder computes RFC 4648\<close>

lemma join_octets:
  "unat ((push_bit 16 (of_char a) OR push_bit 8 (of_char b)) OR of_char c :: 32 word)
   = (code a * 256 + code b) * 256 + code c"
proof -
  have "x * 2 ^ 16 < 2 ^ 32" "x * 2 ^ 8 < 2 ^ 16" "x < 2 ^ 8" if "x < 256" for x :: nat
    using that by simp_all
  note le = this(1) [OF code_bound, of a] and le2 = this(2) [OF code_bound, of b]
    and le3 = this(3) [OF code_bound, of c]
  have a: "unat (push_bit 16 (of_char a) :: 32 word) = code a * 2 ^ 16"
    using unat_push_bit_small [of "of_char a" 16] le by (simp only: unat_of_octet)
  have b: "unat (push_bit 8 (of_char b) :: 32 word) = code b * 2 ^ 8"
    using unat_push_bit_small [of "of_char b" 8] less_trans [OF le2, of "2 ^ 32"] by (simp add: unat_of_octet)
  have ab: "unat (push_bit 16 (of_char a) OR push_bit 8 (of_char b) :: 32 word) = (code a * 2 ^ 8 + code b) * 2 ^ 8"
    using unat_or_disjoint [OF a, of "push_bit 8 (of_char b)"] le2 by (simp add: b)
  show ?thesis
    using unat_or_disjoint [OF ab, of "of_char c"] le3 by (simp add: unat_of_octet)
qed

lemma octet_fields:
  assumes "n = (push_bit 16 (of_char a) OR push_bit 8 (of_char b)) OR (of_char c :: 32 word)"
  shows "unat (drop_bit 18 n AND 0x3F) = code a div 4"
    "unat (drop_bit 12 n AND 0x3F) = code a mod 4 * 16 + code b div 16"
    "unat (drop_bit 6 n AND 0x3F) = code b mod 16 * 4 + code c div 64"
    "unat (drop_bit 0 n AND 0x3F) = code c mod 64"
proof -
  have "unat n = ((code a div 4 * 64 + (code a mod 4 * 16 + code b div 16)) * 64
      + (code b mod 16 * 4 + code c div 64)) * 64 + code c mod 64"
    unfolding assms join_octets by (rule regroup)
  from sextets_of [OF _ _ _ _ this] show
    "unat (drop_bit 18 n AND 0x3F) = code a div 4"
    "unat (drop_bit 12 n AND 0x3F) = code a mod 4 * 16 + code b div 16"
    "unat (drop_bit 6 n AND 0x3F) = code b mod 16 * 4 + code c div 64"
    "unat (drop_bit 0 n AND 0x3F) = code c mod 64"
    unfolding masks unat_field by (simp_all only: octet_div sextet_pair sextet_pair' mod_less_divisor zero_less_numeral)
qed

lemma MB_ALPHABET_char: "MB_ALPHABET ! i = rfc4648_char i"
  by (simp add: MB_ALPHABET_def rfc4648_char_def rfc4648_alphabet_def)

lemma of_char_NUL: "(of_char (char_of (0 :: nat)) :: 32 word) = 0"
  by code_simp

lemma encode_chunk_rfc4648:
  "encode_chunk [a] = rfc4648_encode [a]"
  "encode_chunk [a, b] = rfc4648_encode [a, b]"
  "encode_chunk [a, b, c] = rfc4648_encode [a, b, c]"
proof -
  let ?z = "char_of (0 :: nat)"
  note z = of_char_NUL
  note f1 = octet_fields [of _ a ?z ?z, unfolded z, OF refl]
  note f2 = octet_fields [of _ a b ?z, unfolded z, OF refl]
  note f3 = octet_fields [of _ a b c, OF refl]
  show "encode_chunk [a] = rfc4648_encode [a]"
    unfolding encode_chunk_def Let_def using f1 by (simp add: MB_ALPHABET_char upt_rec)
  show "encode_chunk [a, b] = rfc4648_encode [a, b]"
    unfolding encode_chunk_def Let_def using f2 by (simp add: MB_ALPHABET_char upt_rec)
  show "encode_chunk [a, b, c] = rfc4648_encode [a, b, c]"
    unfolding encode_chunk_def Let_def using f3 by (simp add: MB_ALPHABET_char upt_rec)
qed

lemma encode_chunks_rfc4648: "concat (map encode_chunk (chunks 3 bs)) = rfc4648_encode bs"
proof (induction bs rule: rfc4648_encode.induct)
  case (4 a b c r)
  have "chunks 3 (a # b # c # r) = [a, b, c] # chunks 3 r"
    using chunks_append [of "[a, b, c]" 3 r] by simp
  with 4 show ?case by (simp add: encode_chunk_rfc4648)
qed (simp_all add: encode_chunk_rfc4648)

lemma mb_encode_rfc4648: "mb_encode bs = MB_PREFIX # rfc4648_encode bs"
  by (simp add: mb_encode_def encode_chunks_rfc4648)

section \<open>The decoder inverts it\<close>

lemma sextet_ranges:
  "list_all (\<lambda>i. rfc4648_char i = char_of (65 + i)) [0..<26]"
  "list_all (\<lambda>i. rfc4648_char (i + 26) = char_of (97 + i)) [0..<26]"
  "list_all (\<lambda>i. rfc4648_char (i + 52) = char_of (48 + i)) [0..<10]"
  "rfc4648_char 62 = CHR ''-''" "rfc4648_char 63 = CHR ''_''"
  by code_simp+

lemma sextet_char [simp]: "i < 64 \<Longrightarrow> sextet (rfc4648_char i) = Some i"
proof -
  assume i: "i < 64"
  have r: "sextet (rfc4648_char i) = Some i" if "rfc4648_char i = char_of (65 + i)" "i < 26" for i
    unfolding that(1) using that(2) by (simp add: sextet_def ascii_class_defs)
  have l: "sextet (rfc4648_char (i + 26)) = Some (i + 26)" if "rfc4648_char (i + 26) = char_of (97 + i)" "i < 26" for i
    unfolding that(1) using that(2) by (simp add: sextet_def ascii_class_defs)
  have d: "sextet (rfc4648_char (i + 52)) = Some (i + 52)" if "rfc4648_char (i + 52) = char_of (48 + i)" "i < 10" for i
    unfolding that(1) using that(2) by (simp add: sextet_def ascii_class_defs)
  consider "i < 26" | "26 \<le> i" "i - 26 < 26" | "52 \<le> i" "i - 52 < 10" | "i = 62" | "i = 63" using i by linarith
  then show ?thesis
  proof cases
    case 1 then show ?thesis using r [of i] sextet_ranges(1) by (simp add: list_all_iff)
  next
    case 2
    then obtain j where "i = j + 26" "j < 26" by (metis le_add_diff_inverse2)
    then show ?thesis using l [of j] sextet_ranges(2) unfolding list_all_iff by simp
  next
    case 3
    then obtain j where "i = j + 52" "j < 10" by (metis le_add_diff_inverse2)
    then show ?thesis using d [of j] sextet_ranges(3) unfolding list_all_iff by simp
  qed (simp_all add: sextet_ranges sextet_def ascii_class_defs)
qed

lemma sextet_Some: "sextet c = Some i \<Longrightarrow> i < 64 \<and> rfc4648_char i = c"
proof -
  assume s: "sextet c = Some i"
  consider (upper) "is_ascii_uppercase c" "i = code c - 65" | (lower) "is_ascii_lowercase c" "i = code c - 97 + 26"
    | (digit) "is_ascii_digit c" "i = code c - 48 + 52" | (dash) "c = CHR ''-''" "i = 62" | (under) "c = CHR ''_''" "i = 63"
    using s by (auto simp: sextet_def split: if_splits)
  then show ?thesis
  proof cases
    case upper
    then have "code c - 65 < 26" "65 + (code c - 65) = code c" by (auto simp: is_ascii_uppercase_def)
    with sextet_ranges(1) upper show ?thesis by (auto simp: list_all_iff)
  next
    case lower
    then have "code c - 97 < 26" "97 + (code c - 97) = code c" by (auto simp: is_ascii_lowercase_def)
    moreover have "rfc4648_char (code c - 97 + 26) = char_of (97 + (code c - 97))"
      using sextet_ranges(2) \<open>code c - 97 < 26\<close> unfolding list_all_iff by auto
    ultimately show ?thesis using lower(2) by simp
  next
    case digit
    then have "code c - 48 < 10" "48 + (code c - 48) = code c" by (auto simp: is_ascii_digit_def)
    moreover have "rfc4648_char (code c - 48 + 52) = char_of (48 + (code c - 48))"
      using sextet_ranges(3) \<open>code c - 48 < 10\<close> unfolding list_all_iff by auto
    ultimately show ?thesis using digit(2) by simp
  qed (simp_all add: sextet_ranges)
qed

lemma accumulate_sextets:
  assumes "p < 64" "q < 64" "r < 64" "s < 64"
  shows "unat (accumulate 0 0 (map rfc4648_char [p, q])) = ((p * 64 + q) * 64 + 0) * 64 + 0"
    "unat (accumulate 0 0 (map rfc4648_char [p, q, r])) = ((p * 64 + q) * 64 + r) * 64 + 0"
    "unat (accumulate 0 0 (map rfc4648_char [p, q, r, s])) = ((p * 64 + q) * 64 + r) * 64 + s"
proof -
  let ?p = "push_bit 18 (of_nat p) :: 32 word" and ?q = "push_bit 12 (of_nat q) :: 32 word"
    and ?r = "push_bit 6 (of_nat r) :: 32 word" and ?s = "of_nat s :: 32 word"
  have le: "p * 2 ^ 18 < 2 ^ 32" "q * 2 ^ 12 < 2 ^ 18" "r * 2 ^ 6 < 2 ^ 12" "s < 2 ^ 6"
    using assms by simp_all
  have p: "unat ?p = p * 2 ^ 18"
    using unat_push_bit_small [of "of_nat p" 18] le(1) by (simp only: unat_of_sextet [OF assms(1)])
  have q: "unat ?q = q * 2 ^ 12" 
    using unat_push_bit_small [of "of_nat q" 12] less_trans [OF le(2), of "2 ^ 32"]
    by (simp add: unat_of_sextet [OF assms(2)])
  have r: "unat ?r = r * 2 ^ 6" 
    using unat_push_bit_small [of "of_nat r" 6] less_trans [OF le(3), of "2 ^ 32"]
    by (simp add: unat_of_sextet [OF assms(3)])
  have pq: "unat (?p OR ?q) = (p * 2 ^ 6 + q) * 2 ^ 12"
    using unat_or_disjoint [OF p, of ?q] le(2) by (simp add: q)
  have pqr: "unat ((?p OR ?q) OR ?r) = ((p * 2 ^ 6 + q) * 2 ^ 6 + r) * 2 ^ 6"
    using unat_or_disjoint [OF pq, of ?r] le(3) by (simp add: r)
  have pqrs: "unat (((?p OR ?q) OR ?r) OR ?s) = ((p * 2 ^ 6 + q) * 2 ^ 6 + r) * 2 ^ 6 + s"
    using unat_or_disjoint [OF pqr, of ?s] le(4) by (simp add: unat_of_sextet [OF assms(4)])
  show "unat (accumulate 0 0 (map rfc4648_char [p, q])) = ((p * 64 + q) * 64 + 0) * 64 + 0"
    using pq assms by simp
  show "unat (accumulate 0 0 (map rfc4648_char [p, q, r])) = ((p * 64 + q) * 64 + r) * 64 + 0"
    using pqr assms by simp
  show "unat (accumulate 0 0 (map rfc4648_char [p, q, r, s])) = ((p * 64 + q) * 64 + r) * 64 + s"
    using pqrs assms by simp
qed

lemma masks_tail: "drop_bit (1 * 8) (0x00FFFFFF :: 32 word) = mask 16" "drop_bit (2 * 8) (0x00FFFFFF :: 32 word) = mask 8"
  by code_simp+

lemma decode_chunk_shapes:
  "length chunk = 2 \<Longrightarrow> accumulate 0 0 chunk = acc \<Longrightarrow> decode_chunk chunk =
    (if unat (acc AND mask 16) \<noteq> 0 then Inl NonCanonicalTail else Inr [char_of (unat (drop_bit 16 acc AND 0xFF))])"
  "length chunk = 3 \<Longrightarrow> accumulate 0 0 chunk = acc \<Longrightarrow> decode_chunk chunk =
    (if unat (acc AND mask 8) \<noteq> 0 then Inl NonCanonicalTail
     else Inr [char_of (unat (drop_bit 16 acc AND 0xFF)), char_of (unat (drop_bit 8 acc AND 0xFF))])"
  "length chunk = 4 \<Longrightarrow> accumulate 0 0 chunk = acc \<Longrightarrow> decode_chunk chunk =
    Inr [char_of (unat (drop_bit 16 acc AND 0xFF)), char_of (unat (drop_bit 8 acc AND 0xFF)),
      char_of (unat (drop_bit 0 acc AND 0xFF))]"
proof -
  have z: "w = 0 \<longleftrightarrow> unat w = 0" for w :: "32 word" by (simp add: unat_eq_0)
  have u: "[0..<1] = [0 :: nat]" "[0..<2] = [0 :: nat, 1]" "[0..<3] = [0 :: nat, 1, 2]" by (simp_all add: upt_rec)
  have l: "2 - 1 = (1 :: nat)" "3 - 1 = (2 :: nat)" "4 - 1 = (3 :: nat)" "16 - 8 * 0 = (16 :: nat)"
    "16 - 8 * 1 = (8 :: nat)" "16 - 8 * 2 = (0 :: nat)" by simp_all
  have less: "2 < (4 :: nat)" "3 < (4 :: nat)" "\<not> 4 < (4 :: nat)" by simp_all
  show "length chunk = 2 \<Longrightarrow> accumulate 0 0 chunk = acc \<Longrightarrow> decode_chunk chunk =
    (if unat (acc AND mask 16) \<noteq> 0 then Inl NonCanonicalTail else Inr [char_of (unat (drop_bit 16 acc AND 0xFF))])"
    by (simp only: decode_chunk_def Let_def l less masks_tail u z list.map simp_thms)
  show "length chunk = 3 \<Longrightarrow> accumulate 0 0 chunk = acc \<Longrightarrow> decode_chunk chunk =
    (if unat (acc AND mask 8) \<noteq> 0 then Inl NonCanonicalTail
     else Inr [char_of (unat (drop_bit 16 acc AND 0xFF)), char_of (unat (drop_bit 8 acc AND 0xFF))])"
    by (simp only: decode_chunk_def Let_def l less masks_tail u z list.map simp_thms)
  show "length chunk = 4 \<Longrightarrow> accumulate 0 0 chunk = acc \<Longrightarrow> decode_chunk chunk =
    Inr [char_of (unat (drop_bit 16 acc AND 0xFF)), char_of (unat (drop_bit 8 acc AND 0xFF)),
      char_of (unat (drop_bit 0 acc AND 0xFF))]"
    by (simp only: decode_chunk_def Let_def l less u list.map simp_thms if_False)
qed

lemma word_fields:
  assumes "p < 64" "q < 64" "r < 64" "s < 64" "unat w = ((p * 64 + q) * 64 + r) * 64 + s"
  shows "unat (drop_bit 16 (w :: 32 word) AND 0xFF) = p * 4 + q div 16"
    "unat (drop_bit 8 w AND 0xFF) = q mod 16 * 16 + r div 4"
    "unat (drop_bit 0 w AND 0xFF) = r mod 4 * 64 + s"
    "unat (w AND mask 8) = r mod 4 * 64 + s"
    "unat (w AND mask 16) = (q mod 16 * 16 + r div 4) * 256 + (r mod 4 * 64 + s)"
proof -
  have lt: "p * 4 + q div 16 < 256" "q mod 16 * 16 + r div 4 < 256" "r mod 4 * 64 + s < 256"
    using assms(1-4) by linarith+
  note o = octets_of [OF lt assms(5) [unfolded regroup']]
  have m: "unat (w AND mask n) = unat w mod 2 ^ n" for n using unat_field [of 0 w n] by simp
  show "unat (drop_bit 16 w AND 0xFF) = p * 4 + q div 16"
    "unat (drop_bit 8 w AND 0xFF) = q mod 16 * 16 + r div 4"
    "unat (drop_bit 0 w AND 0xFF) = r mod 4 * 64 + s"
    "unat (w AND mask 8) = r mod 4 * 64 + s"
    "unat (w AND mask 16) = (q mod 16 * 16 + r div 4) * 256 + (r mod 4 * 64 + s)"
    unfolding masks unat_field m by (rule o)+
qed

lemma decode_chunk_sextets:
  assumes "p < 64" "q < 64" "r < 64" "s < 64"
  shows "decode_chunk (map rfc4648_char [p, q]) =
      (if q mod 16 \<noteq> 0 then Inl NonCanonicalTail else Inr [char_of (p * 4 + q div 16)])"
    "decode_chunk (map rfc4648_char [p, q, r]) =
      (if r mod 4 \<noteq> 0 then Inl NonCanonicalTail else Inr [char_of (p * 4 + q div 16), char_of (q mod 16 * 16 + r div 4)])"
    "decode_chunk (map rfc4648_char [p, q, r, s]) =
      Inr [char_of (p * 4 + q div 16), char_of (q mod 16 * 16 + r div 4), char_of (r mod 4 * 64 + s)]"
proof -
  note a = accumulate_sextets [OF assms]
  have zero: "(0 :: nat) < 64" by simp
  note f1 = word_fields [OF assms(1,2) zero zero a(1)] and f2 = word_fields [OF assms(1,2,3) zero a(2)]
    and f3 = word_fields [OF assms a(3)]
  show "decode_chunk (map rfc4648_char [p, q]) =
      (if q mod 16 \<noteq> 0 then Inl NonCanonicalTail else Inr [char_of (p * 4 + q div 16)])"
    using decode_chunk_shapes(1) [OF _ refl, of "map rfc4648_char [p, q]"]
    unfolding f1 by (simp del: accumulate.simps list.map)
  show "decode_chunk (map rfc4648_char [p, q, r]) =
      (if r mod 4 \<noteq> 0 then Inl NonCanonicalTail else Inr [char_of (p * 4 + q div 16), char_of (q mod 16 * 16 + r div 4)])"
    using decode_chunk_shapes(2) [OF _ refl, of "map rfc4648_char [p, q, r]"]
    unfolding f2 by (simp del: accumulate.simps list.map)
  show "decode_chunk (map rfc4648_char [p, q, r, s]) =
      Inr [char_of (p * 4 + q div 16), char_of (q mod 16 * 16 + r div 4), char_of (r mod 4 * 64 + s)]"
    using decode_chunk_shapes(3) [OF _ refl, of "map rfc4648_char [p, q, r, s]"]
    unfolding f3 by (simp del: accumulate.simps list.map)
qed

lemma indices_of_octets:
  assumes "p < 64" "q < 64" "r < 64" "s < 64"
  shows "q mod 16 = 0 \<Longrightarrow> rfc4648_indices [char_of (p * 4 + q div 16)] = [p, q]"
    "r mod 4 = 0 \<Longrightarrow> rfc4648_indices [char_of (p * 4 + q div 16), char_of (q mod 16 * 16 + r div 4)] = [p, q, r]"
    "rfc4648_indices (char_of (p * 4 + q div 16) # char_of (q mod 16 * 16 + r div 4) # char_of (r mod 4 * 64 + s) # t)
      = [p, q, r, s] @ rfc4648_indices t"
proof -
  have lt: "p * 4 + q div 16 < 256" "q mod 16 * 16 + r div 4 < 256" "r mod 4 * 64 + s < 256"
    using assms by linarith+
  have h: "(p * 4 + q div 16) div 4 = p" "(p * 4 + q div 16) mod 4 = q div 16"
    "(q mod 16 * 16 + r div 4) div 16 = q mod 16" "(q mod 16 * 16 + r div 4) mod 16 = r div 4"
    "(r mod 4 * 64 + s) div 64 = r mod 4" "(r mod 4 * 64 + s) mod 64 = s"
    using assms by (simp_all add: less_mult_imp_div_less)
  note eqs = code_char_of [OF lt(1)] code_char_of [OF lt(2)] code_char_of [OF lt(3)] h
  have m: "x div k * k + x mod k = x" for x k :: nat by simp
  show "q mod 16 = 0 \<Longrightarrow> rfc4648_indices [char_of (p * 4 + q div 16)] = [p, q]"
    unfolding rfc4648_indices.simps eqs using m [of q 16] by simp
  show "r mod 4 = 0 \<Longrightarrow> rfc4648_indices [char_of (p * 4 + q div 16), char_of (q mod 16 * 16 + r div 4)] = [p, q, r]"
    unfolding rfc4648_indices.simps eqs m using m [of r 4] by simp
  show "rfc4648_indices (char_of (p * 4 + q div 16) # char_of (q mod 16 * 16 + r div 4) # char_of (r mod 4 * 64 + s) # t)
      = [p, q, r, s] @ rfc4648_indices t"
    unfolding rfc4648_indices.simps eqs m by simp
qed

lemma decode_chunks_canonical:
  "list_all (\<lambda>i. i < 64) is \<Longrightarrow> length is mod 4 \<noteq> 1 \<Longrightarrow>
   try_map decode_chunk (chunks 4 (map rfc4648_char is)) = Inr out \<Longrightarrow> rfc4648_indices (concat out) = is"
proof (induction "is" arbitrary: out rule: rfc4648_octets.induct)
  case 1
  then show ?case by simp
next
  case (3 p q)
  then have "decode_chunk (map rfc4648_char [p, q]) = Inr (concat out)"
    by (auto simp: list_all2_Cons1 res_iff)
  then have "q mod 16 = 0 \<and> concat out = [char_of (p * 4 + q div 16)]"
    using decode_chunk_sextets(1) [of p q 0 0] 3(1) by (simp del: list.map split: if_splits)
  with 3(1) show ?case using indices_of_octets(1) [of p q 0 0] by simp
next
  case (4 p q r)
  then have "decode_chunk (map rfc4648_char [p, q, r]) = Inr (concat out)"
    by (auto simp: list_all2_Cons1 res_iff)
  then have "r mod 4 = 0 \<and> concat out = [char_of (p * 4 + q div 16), char_of (q mod 16 * 16 + r div 4)]"
    using decode_chunk_sextets(2) [of p q r 0] 4(1) by (simp del: list.map split: if_splits)
  with 4(1) show ?case using indices_of_octets(2) [of p q r 0] by simp
next
  case (5 p q r s t)
  have "chunks 4 (map rfc4648_char (p # q # r # s # t)) = map rfc4648_char [p, q, r, s] # chunks 4 (map rfc4648_char t)"
    using chunks_append [of "map rfc4648_char [p, q, r, s]" 4 "map rfc4648_char t"] by simp
  then obtain o1 os where o: "out = o1 # os" "decode_chunk (map rfc4648_char [p, q, r, s]) = Inr o1"
    "try_map decode_chunk (chunks 4 (map rfc4648_char t)) = Inr os"
    using 5(4) by (auto simp: list_all2_Cons1 res_iff simp del: list.map)
  have "length t mod 4 \<noteq> 1" using 5(3) by simp
  then have "rfc4648_indices (concat os) = t" using 5 o(3) by simp
  moreover have lt: "p < 64" "q < 64" "r < 64" "s < 64" using 5(2) by simp_all
  ultimately show ?case
    using o(2) unfolding decode_chunk_sextets(3) [OF lt] o(1) by (auto simp: indices_of_octets(3) [OF lt] simp del: rfc4648_indices.simps)
qed simp

lemma decode_chunk_octets:
  "decode_chunk (rfc4648_encode [a]) = Inr [a]"
  "decode_chunk (rfc4648_encode [a, b]) = Inr [a, b]"
  "decode_chunk (rfc4648_encode [a, b, c]) = Inr [a, b, c]"
proof -
  have lt: "code a div 4 < 64" "code a mod 4 * 16 < 64" "code a mod 4 * 16 + code b div 16 < 64" "code b mod 16 * 4 < 64"
    "code b mod 16 * 4 + code c div 64 < 64" "code c mod 64 < 64"
    using octet_div by (simp_all add: sextet_pair sextet_pair')
  have z: "(0 :: nat) < 64" by simp
  show "decode_chunk (rfc4648_encode [a]) = Inr [a]"
    unfolding rfc4648_encode.simps decode_chunk_sextets(1) [OF lt(1,2) z z] using octet_rejoin(2) by simp
  show "decode_chunk (rfc4648_encode [a, b]) = Inr [a, b]"
    unfolding rfc4648_encode.simps decode_chunk_sextets(2) [OF lt(1,3,4) z] using octet_rejoin(1,4) by simp
  show "decode_chunk (rfc4648_encode [a, b, c]) = Inr [a, b, c]"
    using decode_chunk_sextets(3) [OF lt(1,3,5,6)] octet_rejoin(1,3,5) by simp
qed

lemma decode_chunks_encode: "try_map decode_chunk (chunks 4 (rfc4648_encode bs)) = Inr (chunks 3 bs)"
proof (induction bs rule: rfc4648_encode.induct)
  case (4 a b c r)
  have "chunks 4 (rfc4648_encode (a # b # c # r)) = rfc4648_encode [a, b, c] # chunks 4 (rfc4648_encode r)"
    using chunks_append [of "rfc4648_encode [a, b, c]" 4 "rfc4648_encode r"] by simp
  moreover have "chunks 3 (a # b # c # r) = [a, b, c] # chunks 3 r"
    using chunks_append [of "[a, b, c]" 3 r] by simp
  ultimately show ?case using 4 by (simp add: decode_chunk_octets del: rfc4648_encode.simps)
next
  case (2 a)
  then show ?case using decode_chunk_octets(1) by simp
next
  case (3 a b)
  then show ?case using decode_chunk_octets(2) by simp
qed simp

lemma position_where_None: "position_where p xs = None \<longleftrightarrow> list_all (\<lambda>x. \<not> p x) xs"
  by (induction xs) auto

lemma sextets_indices: "list_all (\<lambda>c. sextet c \<noteq> None) t \<longleftrightarrow> (\<exists>is. list_all (\<lambda>i. i < 64) is \<and> t = map rfc4648_char is)"
proof
  assume "list_all (\<lambda>c. sextet c \<noteq> None) t"
  then have "list_all (\<lambda>i. i < 64) (map (the \<circ> sextet) t) \<and> t = map rfc4648_char (map (the \<circ> sextet) t)"
    using sextet_Some by (induction t) fastforce+
  then show "\<exists>is. list_all (\<lambda>i. i < 64) is \<and> t = map rfc4648_char is" by blast
qed (auto simp: list_all_iff)

lemma encode_length_mod: "length (rfc4648_encode bs) mod 4 \<noteq> 1"
  by (induction bs rule: rfc4648_encode.induct) simp_all

lemma mb_decode_encode: "mb_decode (mb_encode bs) = Inr bs"
proof -
  have "list_all (\<lambda>c. sextet c \<noteq> None) (rfc4648_encode bs)"
    using rfc4648_indices_bound [of bs] sextets_indices [of "rfc4648_encode bs"] rfc4648_encode_indices [of bs] by blast
  then have "position_where (\<lambda>c. sextet c = None) (rfc4648_encode bs) = None"
    by (simp only: position_where_None)
  moreover have "strip_prefix [MB_PREFIX] (mb_encode bs) = Some (rfc4648_encode bs)"
    by (simp add: mb_encode_rfc4648 strip_prefix_Some_iff)
  ultimately show ?thesis
    using encode_length_mod [of bs] by (simp add: mb_decode_def decode_chunks_encode concat_chunks)
qed

lemma mb_decode_canonical: "mb_decode s = Inr bs \<Longrightarrow> mb_encode bs = s"
proof -
  assume d: "mb_decode s = Inr bs"
  then obtain t out where s: "s = MB_PREFIX # t" and a: "list_all (\<lambda>c. sextet c \<noteq> None) t"
    and m: "length t mod 4 \<noteq> 1" and o: "try_map decode_chunk (chunks 4 t) = Inr out" "bs = concat out"
    by (auto simp: mb_decode_def and_then_Inr_iff ok_or_Inr_iff strip_prefix_Some_iff position_where_None list_all_iff split: option.splits if_splits)
  from a obtain "is" where i: "list_all (\<lambda>i. i < 64) is" "t = map rfc4648_char is" unfolding sextets_indices by blast
  have "rfc4648_indices bs = is"
    using decode_chunks_canonical [OF i(1) _ o(1) [unfolded i(2)]] m by (simp add: i(2) o(2))
  then show ?thesis by (simp add: mb_encode_rfc4648 rfc4648_encode_indices s i(2))
qed

interpretation multibase: canonical_codec "\<lambda>_. True" mb_encode mb_decode
  by unfold_locales (simp_all add: mb_decode_encode mb_decode_canonical)

interpretation multibase_exact: canonical_codec "\<lambda>v. length v = n" mb_encode "mb_decode_exact n" for n
  by unfold_locales (auto simp: mb_decode_exact_def multibase.dec_Inr_iff res_iff)

section \<open>Refusals\<close>

lemma sextet_None: "sextet c = None \<longleftrightarrow> \<not> is_b64url_char c"
  by (simp add: sextet_def is_b64url_char_def ascii_class_defs)

lemma mb_decode_no_prefix: "\<not> (\<exists>t. s = MB_PREFIX # t) \<Longrightarrow> mb_decode s = Inl MissingPrefix"
proof -
  assume "\<not> (\<exists>t. s = MB_PREFIX # t)"
  then have "strip_prefix [MB_PREFIX] s = None"
    using strip_prefix_Some_iff [of "[MB_PREFIX]" s] by (cases "strip_prefix [MB_PREFIX] s") auto
  then show ?thesis by (simp add: mb_decode_def)
qed

lemma mb_decode_prefix:
  "mb_decode (MB_PREFIX # t) =
     (case position_where (\<lambda>c. \<not> is_b64url_char c) t of
        Some i \<Rightarrow> Inl (MbBadAlphabet i)
      | None \<Rightarrow> if length t mod 4 = 1 then Inl BadLength
                else and_then (try_map decode_chunk (chunks 4 t)) (\<lambda>out. Inr (concat out)))"
proof -
  have "strip_prefix [MB_PREFIX] (MB_PREFIX # t) = Some t" by (simp add: strip_prefix_Some_iff)
  then show ?thesis unfolding mb_decode_def sextet_None by simp
qed

text \<open>The loop over the chunks refuses for one reason only.\<close>

lemma chunks_refusal: "and_then (try_map decode_chunk cs) (\<lambda>out. Inr (concat out)) = Inl e \<Longrightarrow> e = NonCanonicalTail"
  by (induction cs) (auto simp: and_then_Inl_iff decode_chunk_def Let_def split: if_splits)

lemma mb_decode_refusals:
  "mb_decode (MB_PREFIX # t) \<noteq> Inl MissingPrefix"
  "mb_decode (MB_PREFIX # t) = Inl (MbBadAlphabet i) \<longleftrightarrow> position_where (\<lambda>c. \<not> is_b64url_char c) t = Some i"
  "mb_decode (MB_PREFIX # t) = Inl BadLength \<longleftrightarrow> list_all is_b64url_char t \<and> length t mod 4 = 1"
proof -
  have l: "list_all is_b64url_char t \<longleftrightarrow> position_where (\<lambda>c. \<not> is_b64url_char c) t = None"
    by (simp add: position_where_None)
  define r where "r = and_then (try_map decode_chunk (chunks 4 t)) (\<lambda>out. Inr (concat out))"
  have r: "r \<noteq> Inl MissingPrefix" "r \<noteq> Inl (MbBadAlphabet i)" "r \<noteq> Inl BadLength"
    using chunks_refusal [of "chunks 4 t"] unfolding r_def by blast+
  show "mb_decode (MB_PREFIX # t) \<noteq> Inl MissingPrefix"
    unfolding mb_decode_prefix r_def [symmetric] using r by (simp split: option.split)
  show "mb_decode (MB_PREFIX # t) = Inl (MbBadAlphabet i) \<longleftrightarrow> position_where (\<lambda>c. \<not> is_b64url_char c) t = Some i"
    unfolding mb_decode_prefix r_def [symmetric] using r by (simp split: option.split)
  show "mb_decode (MB_PREFIX # t) = Inl BadLength \<longleftrightarrow> list_all is_b64url_char t \<and> length t mod 4 = 1"
    unfolding mb_decode_prefix r_def [symmetric] l using r by (simp split: option.split)
qed

section \<open>Properties\<close>

text \<open>
  The multibase spelling is exact. The encoder writes \<open>u\<close> and the RFC 4648 encoding, the
  decoder accepts that spelling of an octet string and no other text, and a refusal names the first
  rule broken: the prefix, the first character outside the alphabet, the length, the unused bits.
\<close>

theorem multibase_decode_exact:
  "(mb_decode s = Inr bs \<longleftrightarrow> s = CHR ''u'' # rfc4648_encode bs)
   \<and> (mb_decode s = Inl MissingPrefix \<longleftrightarrow> \<not> (\<exists>t. s = CHR ''u'' # t))
   \<and> (mb_decode s = Inl (MbBadAlphabet i) \<longleftrightarrow>
       (\<exists>t. s = CHR ''u'' # t \<and> position_where (\<lambda>c. \<not> is_b64url_char c) t = Some i))
   \<and> (mb_decode s = Inl BadLength \<longleftrightarrow>
       (\<exists>t. s = CHR ''u'' # t \<and> list_all is_b64url_char t \<and> length t mod 4 = 1))
   \<and> (mb_decode_exact n s = Inr bs \<longleftrightarrow> s = CHR ''u'' # rfc4648_encode bs \<and> length bs = n)"
proof (cases "\<exists>t. s = MB_PREFIX # t")
  case True
  then obtain t where s: "s = MB_PREFIX # t" ..
  show ?thesis
    unfolding multibase.dec_Inr_iff multibase_exact.dec_Inr_iff mb_encode_rfc4648 s mb_decode_refusals(2,3)
    using mb_decode_refusals(1) by (auto simp: MB_PREFIX_def)
next
  case False
  then have "mb_decode s = Inl MissingPrefix" by (rule mb_decode_no_prefix)
  moreover from this have "mb_decode_exact n s \<noteq> Inr bs" by (simp add: mb_decode_exact_def)
  ultimately show ?thesis using False by (auto simp: MB_PREFIX_def)
qed

end
