(* ===== verification/Core_Externs.thy ===== *)
theory Core_Externs
  imports Multibase
begin

text \<open>
  The third-party code \<open>selfsame-core\<close> calls, as parameters. Three records: the primitives
  (\<open>blake3\<close>, \<open>hkdf\<close>, \<open>chacha20poly1305\<close>, \<open>ed25519_dalek\<close>, \<open>bc_lifehash\<close>, \<open>bech32\<close>, \<open>base64ct\<close>),
  the CBCL reader and printer (\<open>cbcl_core\<close>, \<open>cbcl_parser\<close>), and \<open>did_crdt\<close>. What the code relies
  on is stated as named laws.
\<close>

section \<open>Primitives\<close>

text \<open>
  \<open>aead_seal\<close> takes key, nonce, associated data and message, \<open>aead_open\<close> the sealed octets in the
  last place. \<open>ed_verify\<close> is \<open>Verifier::verify\<close> on the public key, the message and the signature.
  \<open>bech32m_decode\<close> is \<open>CheckedHrpstring::new::<Bech32m>\<close> followed by \<open>hrp().as_str()\<close> and
  \<open>byte_iter()\<close>.
\<close>

record core_externs =
  blake3_hash :: "octets \<Rightarrow> octets"
  hkdf_sha256 :: "octets \<Rightarrow> octets \<Rightarrow> nat \<Rightarrow> octets"
  aead_seal :: "octets \<Rightarrow> octets \<Rightarrow> octets \<Rightarrow> octets \<Rightarrow> octets"
  aead_open :: "octets \<Rightarrow> octets \<Rightarrow> octets \<Rightarrow> octets \<Rightarrow> octets option"
  ed_public :: "octets \<Rightarrow> octets"
  ed_sign :: "octets \<Rightarrow> octets \<Rightarrow> octets"
  ed_key_ok :: "octets \<Rightarrow> bool"
  ed_verify :: "octets \<Rightarrow> octets \<Rightarrow> octets \<Rightarrow> bool"
  lifehash_v2 :: "octets \<Rightarrow> octets"
  base64_padded :: "octets \<Rightarrow> rust_str"
  bech32m_encode :: "rust_str \<Rightarrow> octets \<Rightarrow> rust_str"
  bech32m_decode :: "rust_str \<Rightarrow> (rust_str \<times> octets) option"

definition blake3_law :: "core_externs \<Rightarrow> bool" where
  "blake3_law C \<longleftrightarrow> (\<forall>bs. length (blake3_hash C bs) = 32)"

definition hkdf_law :: "core_externs \<Rightarrow> bool" where
  "hkdf_law C \<longleftrightarrow> (\<forall>ikm info n. length (hkdf_sha256 C ikm info n) = n)"

text \<open>An AEAD opens what it sealed, and what opens under some associated data was sealed under it.\<close>

definition aead_law :: "core_externs \<Rightarrow> bool" where
  "aead_law C \<longleftrightarrow> (\<forall>k n ad m. aead_open C k n ad (aead_seal C k n ad m) = Some m)"

definition aead_bound :: "core_externs \<Rightarrow> bool" where
  "aead_bound C \<longleftrightarrow>
     (\<forall>k n ad m k' n' ad' m'. aead_open C k' n' ad' (aead_seal C k n ad m) = Some m' \<longrightarrow> k' = k \<and> n' = n \<and> ad' = ad \<and> m' = m)"

definition ed_law :: "core_externs \<Rightarrow> octets \<Rightarrow> bool" where
  "ed_law C sk \<longleftrightarrow>
     length (ed_public C sk) = 32 \<and> ed_key_ok C (ed_public C sk)
     \<and> (\<forall>m. length (ed_sign C sk m) = 64 \<and> ed_verify C (ed_public C sk) m (ed_sign C sk m))"

definition bech32m_law :: "core_externs \<Rightarrow> bool" where
  "bech32m_law C \<longleftrightarrow> (\<forall>h p. bech32m_decode C (bech32m_encode C h p) = Some (h, p))"

lemma length_blake3 [simp]: "blake3_law C \<Longrightarrow> length (blake3_hash C bs) = 32"
  by (simp add: blake3_law_def)

lemma length_hkdf [simp]: "hkdf_law C \<Longrightarrow> length (hkdf_sha256 C ikm info n) = n"
  by (simp add: hkdf_law_def)

lemma aead_open_seal [simp]: "aead_law C \<Longrightarrow> aead_open C k n ad (aead_seal C k n ad m) = Some m"
  by (simp add: aead_law_def)

lemma aead_boundD:
  "aead_bound C \<Longrightarrow> aead_open C k' n' ad' (aead_seal C k n ad m) = Some m' \<Longrightarrow> k' = k \<and> n' = n \<and> ad' = ad \<and> m' = m"
  unfolding aead_bound_def by blast

lemma ed_lawD:
  "ed_law C sk \<Longrightarrow> length (ed_public C sk) = 32" "ed_law C sk \<Longrightarrow> ed_key_ok C (ed_public C sk)"
  "ed_law C sk \<Longrightarrow> length (ed_sign C sk m) = 64" "ed_law C sk \<Longrightarrow> ed_verify C (ed_public C sk) m (ed_sign C sk m)"
  by (simp_all add: ed_law_def)

section \<open>CBCL\<close>

text \<open>
  The atoms of \<open>cbcl_core::sexpr\<close>, as the documentation of \<open>mb.rs\<close> lists them; a number is an
  \<open>i64\<close>, read with \<open>sint\<close>.
\<close>

datatype atom = Symbol rust_str | Str rust_str | Num "64 word" | Bool bool | Keyword rust_str
datatype sexpr = Atom atom | List "sexpr list"

text \<open>
  \<open>canonical_encode\<close>, \<open>SExpr::to_string\<close>, \<open>cbcl_parser::parse\<close>, and the shape checker:
  \<open>shape_check\<close> is \<open>parse_shape\<close> on the parsed clause and then \<open>constraint.check\<close>, \<open>None\<close> when the clause is no shape.
\<close>

record cbcl_externs =
  canonical_encode :: "sexpr \<Rightarrow> octets"
  sexpr_to_string :: "sexpr \<Rightarrow> rust_str"
  cbcl_parse :: "rust_str \<Rightarrow> sexpr option"
  shape_check :: "sexpr \<Rightarrow> sexpr \<Rightarrow> bool option"

section \<open>did:crdt\<close>

datatype suite_type = Ed25519Signature2020 | OtherSuite
datatype relationship = Authentication | AssertionMethod | OtherRelationship rust_str

datatype delta_op =
    AddVerificationMethod rust_str rust_str suite_type "relationship list"
  | RevokeVerificationMethod rust_str
  | SetDocumentData rust_str rust_str
  | SetAlsoKnownAs "rust_str list"
  | OtherOp octets

record hlc_timestamp =
  wall_ms :: nat
  logical :: nat
  node_id :: octets

text \<open>The fields of a \<open>SignedDelta\<close> the crates read.\<close>

record signed_delta =
  delta_did :: rust_str
  delta_op_of :: delta_op
  delta_time :: hlc_timestamp
  delta_parents :: "octets list"
  proof_method :: rust_str
  proof_suite :: suite_type
  proof_value :: rust_str

text \<open>
  A resolved document, as far as it is read: methods with their identifier, type and key, the
  assertion methods given by reference, and the extra data (a string value, or \<open>None\<close> for any
  other JSON value).
\<close>

record resolved_method =
  vm_id :: rust_str
  vm_type :: rust_str
  vm_multibase :: "rust_str option"

record resolved_document =
  vms :: "resolved_method list"
  assertion_refs :: "rust_str option list"
  doc_extra :: "(rust_str \<times> rust_str option) list"

text \<open>\<open>DeltaPending\<close> is the one merge error the code tells apart.\<close>

datatype merge_error = DeltaPending | MergeRefused rust_str

text \<open>
  The constructors and methods of \<open>did_crdt\<close> the crates call. A fallible call returns a sum with
  the text of the error; a merge returns the document it leaves behind in either case.
\<close>

record 'doc did_crdt =
  document_new :: "rust_str \<Rightarrow> rust_str + ('doc \<times> signed_delta)"
  doc_did :: "'doc \<Rightarrow> rust_str"
  doc_frontier :: "'doc \<Rightarrow> octets list"
  doc_merge :: "'doc \<Rightarrow> signed_delta \<Rightarrow> 'doc \<times> merge_error option"
  doc_merge_verified :: "'doc \<Rightarrow> signed_delta \<Rightarrow> 'doc \<times> merge_error option"
  doc_resolve :: "'doc \<Rightarrow> rust_str + resolved_document option"
  content_hash :: "signed_delta \<Rightarrow> rust_str + octets"
  delta_signing_input :: "signed_delta \<Rightarrow> rust_str + octets"
  new_genesis :: "rust_str \<Rightarrow> delta_op \<Rightarrow> hlc_timestamp \<Rightarrow> rust_str \<Rightarrow> octets \<Rightarrow> rust_str + signed_delta"
  new_with_parents ::
    "rust_str \<Rightarrow> delta_op \<Rightarrow> hlc_timestamp \<Rightarrow> octets list \<Rightarrow> rust_str \<Rightarrow> octets \<Rightarrow> rust_str + signed_delta"
  node_id_from_pubkey :: "octets \<Rightarrow> octets"
  default_relationships :: "relationship list"
  hlc_default :: hlc_timestamp
  delta_from_json :: "octets \<Rightarrow> signed_delta option"

section \<open>Externals to evaluate\<close>

text \<open>
  Placeholders of the right shape: hashes and signatures pad with zero octets, sealing is the identity,
  a message is read as the one expression given.
\<close>

definition sample_core_externs :: core_externs where
  "sample_core_externs =
     \<lparr>blake3_hash = zero_pad 32, hkdf_sha256 = (\<lambda>ikm info n. zero_pad n ikm),
      aead_seal = (\<lambda>k n ad m. m), aead_open = (\<lambda>k n ad s. Some s),
      ed_public = zero_pad 32, ed_sign = (\<lambda>k m. zero_pad 64 (zero_pad 32 k @ m)),
      ed_key_ok = (\<lambda>k. True), ed_verify = (\<lambda>k m s. s = zero_pad 64 (k @ m)),
      lifehash_v2 = zero_pad 3072, base64_padded = (\<lambda>bs. []),
      bech32m_encode = (\<lambda>h p. []), bech32m_decode = (\<lambda>s. None)\<rparr>"

definition sample_cbcl :: "sexpr \<Rightarrow> cbcl_externs" where
  "sample_cbcl message = \<lparr>canonical_encode = (\<lambda>e. []), sexpr_to_string = (\<lambda>e. []),
     cbcl_parse = (\<lambda>s. Some message), shape_check = (\<lambda>c e. Some True)\<rparr>"

lemma sample_ed_law: "ed_law sample_core_externs sk"
  by (simp add: ed_law_def sample_core_externs_def)

end
