(* ===== verification/Identity.thy ===== *)
theory Identity
  imports Core_Externs Utf8
begin

text \<open>
  \<open>crates/selfsame-core/src/identity.rs\<close>: the signed deltas that make up an identity, built with
  \<open>did_crdt\<close> (a parameter). A signing key is its seed; \<open>C\<close> gives its public key. The lemmas say which
  operation each constructor signs, and under which method, parents and node identifier.
\<close>

section \<open>Definitions\<close>

definition PROFILE_KEY :: rust_str where "PROFILE_KEY = ''profile''"
definition PROFILE_VALUE :: rust_str where "PROFILE_VALUE = ''anuna-ssi/v1/single-controller''"
definition MAX_DEVICE_LABEL_CHARS :: nat where "MAX_DEVICE_LABEL_CHARS = 64"
definition ROOT_FRAGMENT :: rust_str where "ROOT_FRAGMENT = ''#key-0''"

datatype identity_error = LabelTooLong | UpstreamIdentity rust_str

definition key_multibase :: "octets \<Rightarrow> rust_str" where
  "key_multibase public_key = mb_encode public_key"

definition bootstrap :: "'doc did_crdt \<Rightarrow> octets \<Rightarrow> identity_error + ('doc \<times> signed_delta)" where
  "bootstrap D root_public_key = map_err UpstreamIdentity (document_new D (key_multibase root_public_key))"

definition derive_did :: "'doc did_crdt \<Rightarrow> octets \<Rightarrow> identity_error + rust_str" where
  "derive_did D root_public_key = and_then (bootstrap D root_public_key) (\<lambda>(doc, _). Inr (doc_did D doc))"

definition root_method_id :: "rust_str \<Rightarrow> rust_str" where
  "root_method_id did = did @ ROOT_FRAGMENT"

definition sign_genesis :: "core_externs \<Rightarrow> 'doc did_crdt \<Rightarrow> octets \<Rightarrow> identity_error + ('doc \<times> signed_delta)" where
  "sign_genesis C D root =
     and_then (bootstrap D (ed_public C root)) (\<lambda>(doc, unsigned).
       and_then (map_err UpstreamIdentity
         (new_genesis D (delta_did unsigned) (delta_op_of unsigned) (hlc_default D) (root_method_id (delta_did unsigned)) root))
         (\<lambda>signed. Inr (doc, signed)))"

definition sign_on_frontier ::
  "core_externs \<Rightarrow> 'doc did_crdt \<Rightarrow> 'doc \<Rightarrow> octets \<Rightarrow> delta_op \<Rightarrow> nat \<Rightarrow> identity_error + signed_delta" where
  "sign_on_frontier C D doc root op now_ms =
     (let timestamp = \<lparr>wall_ms = now_ms, logical = 0, node_id = node_id_from_pubkey D (ed_public C root)\<rparr>
      in map_err UpstreamIdentity
           (new_with_parents D (doc_did D doc) op timestamp (doc_frontier D doc) (root_method_id (doc_did D doc)) root))"

definition declare_profile ::
  "core_externs \<Rightarrow> 'doc did_crdt \<Rightarrow> 'doc \<Rightarrow> octets \<Rightarrow> nat \<Rightarrow> identity_error + signed_delta" where
  "declare_profile C D doc root now_ms =
     sign_on_frontier C D doc root (SetDocumentData PROFILE_KEY PROFILE_VALUE) now_ms"

definition add_assertion_method ::
  "core_externs \<Rightarrow> 'doc did_crdt \<Rightarrow> 'doc \<Rightarrow> octets \<Rightarrow> rust_str \<Rightarrow> nat \<Rightarrow> identity_error + signed_delta" where
  "add_assertion_method C D doc controller fragment now_ms =
     sign_on_frontier C D doc controller
       (AddVerificationMethod (doc_did D doc @ ''#'' @ fragment) (key_multibase (ed_public C controller))
          Ed25519Signature2020 [AssertionMethod]) now_ms"

definition set_also_known_as ::
  "core_externs \<Rightarrow> 'doc did_crdt \<Rightarrow> 'doc \<Rightarrow> octets \<Rightarrow> rust_str \<Rightarrow> nat \<Rightarrow> identity_error + signed_delta" where
  "set_also_known_as C D doc controller acct_uri now_ms =
     sign_on_frontier C D doc controller (SetAlsoKnownAs [acct_uri]) now_ms"

definition add_device ::
  "core_externs \<Rightarrow> 'doc did_crdt \<Rightarrow> 'doc \<Rightarrow> octets \<Rightarrow> octets \<Rightarrow> rust_str \<Rightarrow> nat \<Rightarrow> identity_error + signed_delta" where
  "add_device C D doc root device_public_key fragment now_ms =
     sign_on_frontier C D doc root
       (AddVerificationMethod (doc_did D doc @ ''#'' @ fragment) (key_multibase device_public_key)
          Ed25519Signature2020 (default_relationships D)) now_ms"

definition set_device_label ::
  "core_externs \<Rightarrow> 'doc did_crdt \<Rightarrow> 'doc \<Rightarrow> octets \<Rightarrow> rust_str \<Rightarrow> rust_str \<Rightarrow> nat \<Rightarrow> identity_error + signed_delta" where
  "set_device_label C D doc root method_id label now_ms =
     (if length (str_chars label) > MAX_DEVICE_LABEL_CHARS then Inl LabelTooLong
      else sign_on_frontier C D doc root (SetDocumentData method_id label) now_ms)"

definition revoke_device ::
  "core_externs \<Rightarrow> 'doc did_crdt \<Rightarrow> 'doc \<Rightarrow> octets \<Rightarrow> rust_str \<Rightarrow> nat \<Rightarrow> identity_error + signed_delta" where
  "revoke_device C D doc root method_id now_ms =
     sign_on_frontier C D doc root (RevokeVerificationMethod method_id) now_ms"

definition device_label :: "'doc did_crdt \<Rightarrow> 'doc \<Rightarrow> rust_str \<Rightarrow> rust_str option" where
  "device_label D doc method_id =
     (case doc_resolve D doc of
        Inl _ \<Rightarrow> None
      | Inr None \<Rightarrow> None
      | Inr (Some resolved) \<Rightarrow> Option.bind (map_of (doc_extra resolved) method_id) (\<lambda>v. v))"

section \<open>What the constructors sign\<close>

text \<open>
  The law of the constructors: what is passed in comes out in the fields, under the Ed25519 suite, with
  a signature over the delta's own signing input.
\<close>

definition delta_law :: "core_externs \<Rightarrow> 'doc did_crdt \<Rightarrow> bool" where
  "delta_law C D \<longleftrightarrow>
     (\<forall>did op t parents method sk d. new_with_parents D did op t parents method sk = Inr d \<longrightarrow>
        delta_did d = did \<and> delta_op_of d = op \<and> delta_time d = t \<and> delta_parents d = parents
        \<and> proof_method d = method \<and> proof_suite d = Ed25519Signature2020
        \<and> (\<exists>input. delta_signing_input D d = Inr input \<and> proof_value d = mb_encode (ed_sign C sk input)))"

lemma sign_on_frontier_fields:
  assumes "delta_law C D" "sign_on_frontier C D doc root op now_ms = Inr d"
  shows "delta_did d = doc_did D doc" "delta_op_of d = op" "delta_parents d = doc_frontier D doc"
    "node_id (delta_time d) = node_id_from_pubkey D (ed_public C root)" "proof_method d = root_method_id (doc_did D doc)"
    "proof_suite d = Ed25519Signature2020"
    "\<exists>input. delta_signing_input D d = Inr input \<and> proof_value d = mb_encode (ed_sign C root input)"
proof -
  let ?t = "\<lparr>wall_ms = now_ms, logical = 0, node_id = node_id_from_pubkey D (ed_public C root)\<rparr>"
  have "new_with_parents D (doc_did D doc) op ?t (doc_frontier D doc) (root_method_id (doc_did D doc)) root = Inr d"
    using assms(2) by (simp add: sign_on_frontier_def Let_def map_err_Inr_iff)
  from assms(1) [unfolded delta_law_def, rule_format, OF this]
  show "delta_did d = doc_did D doc" "delta_op_of d = op" "delta_parents d = doc_frontier D doc"
    "node_id (delta_time d) = node_id_from_pubkey D (ed_public C root)" "proof_method d = root_method_id (doc_did D doc)"
    "proof_suite d = Ed25519Signature2020"
    "\<exists>input. delta_signing_input D d = Inr input \<and> proof_value d = mb_encode (ed_sign C root input)"
    by simp_all
qed

lemma derive_did_Inr_iff:
  "derive_did D pk = Inr did \<longleftrightarrow> (\<exists>doc g. document_new D (mb_encode pk) = Inr (doc, g) \<and> did = doc_did D doc)"
  by (auto simp: derive_did_def bootstrap_def key_multibase_def res_iff)

end
