(* ===== verification/Hierarchy.thy ===== *)
theory Hierarchy
  imports Possession Scope Identity
begin

text \<open>
  The application-account key hierarchy (\<open>hierarchy.rs\<close>): the labelled key derivation, the nodes
  below the sealed root, and the keys at its leaves. The primitives (HKDF-SHA-512, SHA-512, the BIP-39
  seed and the Ed25519 key) are parameters, as is \<open>did_crdt\<close> below \<open>selfsame_core\<close>'s derivation of the identifier; zeroisation has no counterpart in a
  model of values. The lemmas show the domain separation of the derivation's inputs and the
  phrase-free path.
\<close>

section \<open>Primitives\<close>

record 'm kdf_externs =
  hkdf_sha512 :: "octets option \<Rightarrow> octets \<Rightarrow> octets \<Rightarrow> nat \<Rightarrow> octets"
  sha512_digest :: "octets \<Rightarrow> octets"
  mnemonic_seed :: "'m \<Rightarrow> octets"
  signing_public :: "octets \<Rightarrow> octets"

section \<open>Constants and types\<close>

definition SALT_LABEL :: octets where "SALT_LABEL = ''selfsame/application-account-key-hierarchy/v2''"
definition LABEL_APPLICATION :: rust_str where "LABEL_APPLICATION = ''application''"
definition LABEL_ACCOUNT :: rust_str where "LABEL_ACCOUNT = ''account''"
definition LABEL_HOME_SIGNING_KEY :: rust_str where "LABEL_HOME_SIGNING_KEY = ''home-signing-key''"
definition LABEL_ARCHIVE :: rust_str where "LABEL_ARCHIVE = ''archive-recovery-hpke-v1''"
definition PERSONA :: nat where "PERSONA = 0"
definition ROOT_INFO_PREFIX :: octets where "ROOT_INFO_PREFIX = ''selfsame/v2/hierarchy-root/''"

datatype hierarchy_root = HierarchyRoot octets
datatype application_node = ApplicationNode octets
datatype account_node = AccountNode octets
datatype archive_recovery_seed = ArchiveRecoverySeed octets

record home_key =
  home_seed :: octets

datatype hierarchy_error = DidDerivation

fun root_from_octets :: "octets \<Rightarrow> hierarchy_root" where "root_from_octets octs = HierarchyRoot octs"
fun root_expose :: "hierarchy_root \<Rightarrow> octets" where "root_expose (HierarchyRoot octs) = octs"
fun application_node_bytes :: "application_node \<Rightarrow> octets" where "application_node_bytes (ApplicationNode octs) = octs"
fun account_node_bytes :: "account_node \<Rightarrow> octets" where "account_node_bytes (AccountNode octs) = octs"
fun for_wallet_hpke :: "archive_recovery_seed \<Rightarrow> octets" where "for_wallet_hpke (ArchiveRecoverySeed octs) = octs"

definition debug_home_key :: "home_key \<Rightarrow> rust_str" where "debug_home_key k = ''HomeKey(<redacted>)''"
definition debug_root :: "hierarchy_root \<Rightarrow> rust_str" where "debug_root r = ''HierarchyRoot(<redacted>)''"
definition debug_application_node :: "application_node \<Rightarrow> rust_str" where
  "debug_application_node n = ''ApplicationNode(<redacted>)''"
definition debug_account_node :: "account_node \<Rightarrow> rust_str" where "debug_account_node n = ''AccountNode(<redacted>)''"
definition debug_archive_seed :: "archive_recovery_seed \<Rightarrow> rust_str" where
  "debug_archive_seed s = ''ArchiveRecoverySeed(<redacted>)''"

section \<open>The derivation\<close>

definition kdf_salt :: "'m kdf_externs \<Rightarrow> octets" where
  "kdf_salt K = sha512_digest K SALT_LABEL"

definition kdf_info :: "rust_str \<Rightarrow> rust_str \<Rightarrow> octets" where
  "kdf_info label ctxt = length_prefixed label @ length_prefixed ctxt"

definition expand :: "'m kdf_externs \<Rightarrow> octets \<Rightarrow> rust_str \<Rightarrow> rust_str \<Rightarrow> nat \<Rightarrow> octets" where
  "expand K ikm label ctxt len = hkdf_sha512 K (Some (kdf_salt K)) ikm (kdf_info label ctxt) len"

definition kdf64 :: "'m kdf_externs \<Rightarrow> octets \<Rightarrow> rust_str \<Rightarrow> rust_str \<Rightarrow> octets" where
  "kdf64 K ikm label ctxt = expand K ikm label ctxt 64"

definition hierarchy_root_of :: "'m kdf_externs \<Rightarrow> 'm \<Rightarrow> hierarchy_root" where
  "hierarchy_root_of K mnemonic =
     HierarchyRoot (hkdf_sha512 K None (mnemonic_seed K mnemonic) (ROOT_INFO_PREFIX @ u32_be_bytes PERSONA) 64)"

definition application_node_of :: "'m kdf_externs \<Rightarrow> hierarchy_root \<Rightarrow> app_id \<Rightarrow> application_node" where
  "application_node_of K root app = ApplicationNode (kdf64 K (root_expose root) LABEL_APPLICATION (app_text app))"

definition account_node_of :: "'m kdf_externs \<Rightarrow> application_node \<Rightarrow> account_scope_id \<Rightarrow> account_node" where
  "account_node_of K node scope = AccountNode (kdf64 K (application_node_bytes node) LABEL_ACCOUNT (scope_text scope))"

definition home_key_of :: "'m kdf_externs \<Rightarrow> account_node \<Rightarrow> home_key" where
  "home_key_of K node = \<lparr>home_seed = expand K (account_node_bytes node) LABEL_HOME_SIGNING_KEY [] 32\<rparr>"

definition archive_recovery_seed_of :: "'m kdf_externs \<Rightarrow> account_node \<Rightarrow> archive_recovery_seed" where
  "archive_recovery_seed_of K node = ArchiveRecoverySeed (expand K (account_node_bytes node) LABEL_ARCHIVE [] 32)"

definition derive_home :: "'m kdf_externs \<Rightarrow> hierarchy_root \<Rightarrow> app_id \<Rightarrow> account_scope_id \<Rightarrow> home_key" where
  "derive_home K root app scope = home_key_of K (account_node_of K (application_node_of K root app) scope)"

definition derive_from_mnemonic :: "'m kdf_externs \<Rightarrow> 'm \<Rightarrow> app_id \<Rightarrow> account_scope_id \<Rightarrow> home_key" where
  "derive_from_mnemonic K mnemonic app scope = derive_home K (hierarchy_root_of K mnemonic) app scope"

definition home_public_key :: "'m kdf_externs \<Rightarrow> home_key \<Rightarrow> octets" where
  "home_public_key K k = signing_public K (home_seed k)"

definition home_did :: "'m kdf_externs \<Rightarrow> 'doc did_crdt \<Rightarrow> home_key \<Rightarrow> hierarchy_error + rust_str" where
  "home_did K D k = map_err (\<lambda>_. DidDerivation) (derive_did D (home_public_key K k))"

section \<open>Domain separation\<close>

text \<open>
  The octets given to the derivation determine label and context: no label can be continued into a
  context, whatever the two strings are.
\<close>

lemma kdf_info_inject:
  assumes "length l < 2 ^ 32" "length l' < 2 ^ 32" "length c < 2 ^ 32" "length c' < 2 ^ 32"
    and "kdf_info l c = kdf_info l' c'"
  shows "l = l' \<and> c = c'"
proof -
  have "l = l' \<and> length_prefixed c = length_prefixed c'"
    using length_prefixed_inject [OF assms(1,2)] assms(5) by (simp add: kdf_info_def)
  moreover from this have "c = c'"
    using length_prefixed_inject [OF assms(3,4), of "[]" "[]"] by simp
  ultimately show ?thesis by simp
qed

text \<open>Below one node, two applications, two accounts and the two leaf keys have different derivations.\<close>

lemma application_info_inject:
  assumes "length (app_text a) < 2 ^ 32" "length (app_text b) < 2 ^ 32"
  shows "kdf_info LABEL_APPLICATION (app_text a) = kdf_info LABEL_APPLICATION (app_text b) \<longleftrightarrow> app_text a = app_text b"
  using kdf_info_inject [OF _ _ assms, of LABEL_APPLICATION LABEL_APPLICATION] by (auto simp: LABEL_APPLICATION_def)

lemma account_info_inject:
  assumes "parse_scope X t = Inr a" "parse_scope X u = Inr b"
  shows "kdf_info LABEL_ACCOUNT (scope_text a) = kdf_info LABEL_ACCOUNT (scope_text b) \<longleftrightarrow> t = u"
proof -
  have "scope_text a = t" "scope_text b = u" "length t = 43" "length u = 43"
    using assms by (auto simp: parse_scope_def SCOPE_CHARS_def res_iff split: if_splits)
  then show ?thesis
    using kdf_info_inject [of LABEL_ACCOUNT LABEL_ACCOUNT t u] by (auto simp: LABEL_ACCOUNT_def)
qed

lemma labels_separate:
  "distinct [kdf_info LABEL_APPLICATION c, kdf_info LABEL_ACCOUNT d, kdf_info LABEL_HOME_SIGNING_KEY [],
     kdf_info LABEL_ARCHIVE []]"
proof -
  have "u32_be_bytes (length LABEL_APPLICATION) = map char_of [0 :: nat, 0, 0, 11]"
    "u32_be_bytes (length LABEL_ACCOUNT) = map char_of [0 :: nat, 0, 0, 7]"
    "u32_be_bytes (length LABEL_HOME_SIGNING_KEY) = map char_of [0 :: nat, 0, 0, 16]"
    "u32_be_bytes (length LABEL_ARCHIVE) = map char_of [0 :: nat, 0, 0, 24]"
    by code_simp+
  then have "take 4 (kdf_info LABEL_APPLICATION c) = map char_of [0 :: nat, 0, 0, 11]"
    "take 4 (kdf_info LABEL_ACCOUNT d) = map char_of [0 :: nat, 0, 0, 7]"
    "take 4 (kdf_info LABEL_HOME_SIGNING_KEY []) = map char_of [0 :: nat, 0, 0, 16]"
    "take 4 (kdf_info LABEL_ARCHIVE []) = map char_of [0 :: nat, 0, 0, 24]"
    by (simp_all add: kdf_info_def length_prefixed_def)
  then have t: "map (take 4) [kdf_info LABEL_APPLICATION c, kdf_info LABEL_ACCOUNT d, kdf_info LABEL_HOME_SIGNING_KEY [],
      kdf_info LABEL_ARCHIVE []] =
    map (map char_of) [[0 :: nat, 0, 0, 11], [0, 0, 0, 7], [0, 0, 0, 16], [0, 0, 0, 24]]" by simp
  have "distinct (map (map char_of) [[0 :: nat, 0, 0, 11], [0, 0, 0, 7], [0, 0, 0, 16], [0, 0, 0, 24]])" by code_simp
  then show ?thesis unfolding t [symmetric] distinct_map by blast
qed

text \<open>A custodian of the sealed root derives what the phrase derives.\<close>

lemma phrase_free_derivation:
  "derive_from_mnemonic K mnemonic app scope =
     derive_home K (root_from_octets (root_expose (hierarchy_root_of K mnemonic))) app scope"
  by (simp add: derive_from_mnemonic_def hierarchy_root_of_def)

text \<open>The home key is an expansion along the path of the two identifiers; nothing else enters.\<close>

lemma derive_home_path:
  "home_seed (derive_home K (root_from_octets octs) app scope) =
     expand K (kdf64 K (kdf64 K octs LABEL_APPLICATION (app_text app)) LABEL_ACCOUNT (scope_text scope))
       LABEL_HOME_SIGNING_KEY [] 32"
  by (simp add: derive_home_def home_key_of_def account_node_of_def application_node_of_def)

end
