(* ===== verification/Issuer.thy ===== *)
theory Issuer
  imports Identity Alias
begin

text \<open>
  \<open>crates/selfsame-app-identity/src/issuer.rs\<close>: the application-account identity in its three deltas:
  the genesis, the alias computed from the identifier the genesis gives, and the method that may assert.
  The lemmas show the order of the stages and that the flag is the question a verifier asks.
\<close>

section \<open>Definitions\<close>

definition ASSERTION_FRAGMENT :: rust_str where "ASSERTION_FRAGMENT = ''key-1''"
definition GRANT_METHOD_FRAGMENT :: rust_str where "GRANT_METHOD_FRAGMENT = ''#jwk-0''"
definition JSON_WEB_KEY_TYPE :: rust_str where "JSON_WEB_KEY_TYPE = ''JsonWebKey''"

record closure_bundle =
  cb_target :: octets
  cb_deltas :: "signed_delta list"

record issuer_identity =
  ii_did :: rust_str
  ii_acct_uri :: rust_str
  ii_deltas :: "signed_delta list"
  ii_authorises_grants :: bool
  ii_closure :: closure_bundle

datatype issuer_error = Construction

text \<open>The question \<open>CON-206\<close> step 6 asks of a resolved document.\<close>

definition authorises_grants :: "resolved_document \<Rightarrow> rust_str \<Rightarrow> bool" where
  "authorises_grants d did \<longleftrightarrow>
     (let expected = did @ GRANT_METHOD_FRAGMENT in
      list_ex (\<lambda>r. r = Some expected) (assertion_refs d) \<and>
      list_ex (\<lambda>m. vm_id m = expected \<and> vm_type m = JSON_WEB_KEY_TYPE) (vms d))"

text \<open>
  \<open>doc.merge_verified_delta(..).ok()\<close> discards the error of the merge and goes on with the document it
  leaves. \<open>now_ms + 1\<close> wraps at \<open>2 ^ 64\<close> in the release profile.
\<close>

definition create_issuer ::
  "externs \<Rightarrow> core_externs \<Rightarrow> 'doc did_crdt \<Rightarrow> octets \<Rightarrow> rust_str \<Rightarrow> nat \<Rightarrow> issuer_error + issuer_identity" where
  "create_issuer X C D home_key authority now_ms =
     and_then (map_err (\<lambda>_. Construction) (sign_genesis C D home_key)) (\<lambda>(doc, genesis).
       let did = doc_did D doc;
           acct_uri = stable_acct_uri X did authority;
           doc = fst (doc_merge_verified D doc genesis)
       in and_then (map_err (\<lambda>_. Construction) (set_also_known_as C D doc home_key acct_uri now_ms)) (\<lambda>alias_delta.
       let doc = fst (doc_merge_verified D doc alias_delta)
       in and_then (map_err (\<lambda>_. Construction)
            (add_assertion_method C D doc home_key ASSERTION_FRAGMENT ((now_ms + 1) mod 2 ^ 64))) (\<lambda>assertion_delta.
       and_then (map_err (\<lambda>_. Construction) (content_hash D assertion_delta)) (\<lambda>target.
       let deltas = [genesis, alias_delta, assertion_delta];
           doc = fst (doc_merge_verified D doc assertion_delta);
           flag = (case doc_resolve D doc of Inr (Some d) \<Rightarrow> authorises_grants d did | _ \<Rightarrow> False)
       in Inr \<lparr>ii_did = did, ii_acct_uri = acct_uri, ii_deltas = deltas, ii_authorises_grants = flag,
               ii_closure = \<lparr>cb_target = target, cb_deltas = deltas\<rparr>\<rparr>))))"

section \<open>Stages\<close>

text \<open>
  The identifier is the one the home key derives; the alias is a function of it; the second and third
  delta are signed by the home key over that identifier, and set the alias and the asserting method.
\<close>

lemma created_issuer:
  assumes "delta_law C D" "create_issuer X C D home_key authority now_ms = Inr I"
    and stable: "\<And>doc d. doc_did D (fst (doc_merge_verified D doc d)) = doc_did D doc"
  obtains genesis aka assertion where
    "ii_deltas I = [genesis, aka, assertion]" "cb_deltas (ii_closure I) = ii_deltas I"
    "content_hash D assertion = Inr (cb_target (ii_closure I))"
    "derive_did D (ed_public C home_key) = Inr (ii_did I)" "ii_acct_uri I = stable_acct_uri X (ii_did I) authority"
    "delta_op_of aka = SetAlsoKnownAs [ii_acct_uri I]" "delta_did aka = ii_did I"
    "delta_op_of assertion = AddVerificationMethod (ii_did I @ ''#key-1'') (mb_encode (ed_public C home_key))
       Ed25519Signature2020 [AssertionMethod]" "delta_did assertion = ii_did I"
proof -
  from assms(2) obtain doc genesis alias_delta assertion target where
    g: "sign_genesis C D home_key = Inr (doc, genesis)" and
    a: "set_also_known_as C D (fst (doc_merge_verified D doc genesis)) home_key
          (stable_acct_uri X (doc_did D doc) authority) now_ms = Inr alias_delta" and
    s: "add_assertion_method C D (fst (doc_merge_verified D (fst (doc_merge_verified D doc genesis)) alias_delta)) home_key
          ASSERTION_FRAGMENT ((now_ms + 1) mod 2 ^ 64) = Inr assertion" and
    t: "content_hash D assertion = Inr target" and
    I: "ii_did I = doc_did D doc" "ii_acct_uri I = stable_acct_uri X (doc_did D doc) authority"
      "ii_deltas I = [genesis, alias_delta, assertion]" "ii_closure I = \<lparr>cb_target = target, cb_deltas = [genesis, alias_delta, assertion]\<rparr>"
    by (auto simp: create_issuer_def Let_def and_then_Inr_iff map_err_Inr_iff)
  have "derive_did D (ed_public C home_key) = Inr (doc_did D doc)"
    using g by (auto simp: sign_genesis_def derive_did_def and_then_Inr_iff)
  moreover note f = sign_on_frontier_fields [OF assms(1) a [unfolded set_also_known_as_def]]
  moreover note h = sign_on_frontier_fields [OF assms(1) s [unfolded add_assertion_method_def]]
  ultimately show thesis
    using I t stable by (intro that [of genesis alias_delta assertion]) (simp_all add: ASSERTION_FRAGMENT_def key_multibase_def)
qed

end
