(* ===== verification/Fingerprint.thy ===== *)
theory Fingerprint
  imports Core_Externs
begin

text \<open>
  \<open>crates/selfsame-core/src/fingerprint.rs\<close>: the 48-bit fingerprint of a key or of a DID, with its
  renderings. The hexadecimal one is the value people compare, so it is shown to determine the
  fingerprint; the nickname is a function of it that forgets.
\<close>

section \<open>Definitions\<close>

datatype fingerprint = Fp octets

definition FINGERPRINT_BITS :: nat where "FINGERPRINT_BITS = 48"
definition KEY_DOMAIN :: octets where "KEY_DOMAIN = ''anuna-ssi/v1/fp/key''"
definition DID_DOMAIN :: octets where "DID_DOMAIN = ''anuna-ssi/v1/fp/did''"
definition LIFEHASH_SIDE :: nat where "LIFEHASH_SIDE = 32"
definition LIFEHASH_RGB_LEN :: nat where "LIFEHASH_RGB_LEN = LIFEHASH_SIDE * LIFEHASH_SIDE * 3"

definition ADJECTIVES :: "rust_str list" where
  "ADJECTIVES =
    [''amber'', ''arctic'', ''ashen'', ''auburn'', ''azure'', ''basalt'', ''brass'', ''bronze'', ''cedar'', ''cobalt'',
     ''copper'', ''coral'', ''cotton'', ''crimson'', ''dusty'', ''ember'', ''fallow'', ''flint'', ''frosted'', ''garnet'',
     ''gilded'', ''glacial'', ''granite'', ''hazel'', ''indigo'', ''ivory'', ''jade'', ''lilac'', ''linen'', ''marble'',
     ''mauve'', ''misty'', ''mossy'', ''olive'', ''onyx'', ''opal'', ''pearl'', ''pewter'', ''quartz'', ''russet'',
     ''saffron'', ''sage'', ''salt'', ''sandy'', ''scarlet'', ''shale'', ''silver'', ''slate'', ''smoky'', ''spruce'',
     ''steel'', ''storm'', ''teal'', ''thistle'', ''tidal'', ''topaz'', ''umber'', ''velvet'', ''verdant'', ''walnut'',
     ''wheaten'', ''willow'', ''winter'', ''wren'']"

definition NOUNS :: "rust_str list" where
  "NOUNS =
    [''adder'', ''alder'', ''badger'', ''beacon'', ''bittern'', ''bramble'', ''cairn'', ''chough'', ''cormorant'',
     ''curlew'', ''dipper'', ''dunlin'', ''eider'', ''fallow'', ''ferret'', ''finch'', ''gannet'', ''godwit'',
     ''grebe'', ''harrier'', ''heron'', ''hobby'', ''ibis'', ''jackdaw'', ''kestrel'', ''lapwing'', ''linnet'',
     ''lynx'', ''marten'', ''merlin'', ''mussel'', ''nuthatch'', ''osprey'', ''otter'', ''ouzel'', ''petrel'',
     ''pintail'', ''pipit'', ''plover'', ''pochard'', ''puffin'', ''quarry'', ''raven'', ''redwing'', ''roebuck'',
     ''sanderling'', ''sandpiper'', ''scoter'', ''shelduck'', ''siskin'', ''skylark'', ''smew'', ''snipe'',
     ''stoat'', ''swift'', ''teal'', ''tern'', ''turnstone'', ''twite'', ''vole'', ''wagtail'', ''weasel'',
     ''wheatear'', ''widgeon'']"

fun fp_bytes :: "fingerprint \<Rightarrow> octets" where "fp_bytes (Fp bs) = bs"

definition HEX_UPPER :: rust_str where "HEX_UPPER = ''0123456789ABCDEF''"

text \<open>\<open>{b:02X}\<close>, the pairs joined by a space.\<close>

definition hex_pair :: "octet \<Rightarrow> rust_str" where
  "hex_pair b = [HEX_UPPER ! (code b div 16), HEX_UPPER ! (code b mod 16)]"

definition fp_hex :: "fingerprint \<Rightarrow> rust_str" where
  "fp_hex f = join_with '' '' (map hex_pair (fp_bytes f))"

text \<open>\<open>u64::from_be_bytes\<close> of the six octets after two zero octets; the sum stays below \<open>2 ^ 48\<close>.\<close>

definition fp_number :: "fingerprint \<Rightarrow> nat" where
  "fp_number f = foldl (\<lambda>n b. n * 256 + code b) 0 (fp_bytes f)"

definition fp_label :: "fingerprint \<Rightarrow> rust_str" where
  "fp_label f =
     (let n = fp_number f;
          adjective = ADJECTIVES ! (n mod length ADJECTIVES);
          noun = NOUNS ! ((n div length ADJECTIVES) mod length NOUNS);
          number = (n div (length ADJECTIVES * length NOUNS)) mod 100
      in adjective @ ''-'' @ noun @ ''-'' @ pad_zero 2 (dec_nat number))"

definition display_fingerprint :: "fingerprint \<Rightarrow> rust_str" where "display_fingerprint f = fp_hex f"

text \<open>The picture; \<open>None\<close> is the panic of the conversion when the image has another size.\<close>

datatype life_hash = LifeHash octets

definition fp_lifehash :: "core_externs \<Rightarrow> fingerprint \<Rightarrow> life_hash option" where
  "fp_lifehash C f =
     (let image = lifehash_v2 C (fp_bytes f) in if length image = LIFEHASH_RGB_LEN then Some (LifeHash image) else None)"

fun lh_rgb :: "life_hash \<Rightarrow> octets" where "lh_rgb (LifeHash rgb) = rgb"

definition lh_pixel :: "life_hash \<Rightarrow> nat \<Rightarrow> nat \<Rightarrow> (octet \<times> octet \<times> octet) option" where
  "lh_pixel h x y =
     (if x < LIFEHASH_SIDE \<and> y < LIFEHASH_SIDE
      then let i = (y * LIFEHASH_SIDE + x) * 3 in Some (lh_rgb h ! i, lh_rgb h ! (i + 1), lh_rgb h ! (i + 2))
      else None)"

definition lh_base64 :: "core_externs \<Rightarrow> life_hash \<Rightarrow> rust_str" where
  "lh_base64 C h = base64_padded C (lh_rgb h)"

definition fp_digest :: "core_externs \<Rightarrow> octets \<Rightarrow> octets \<Rightarrow> fingerprint" where
  "fp_digest C domain input = Fp (take 6 (blake3_hash C (domain @ input)))"

definition fingerprint_key :: "core_externs \<Rightarrow> octets \<Rightarrow> fingerprint" where
  "fingerprint_key C public_key = fp_digest C KEY_DOMAIN public_key"

definition fingerprint_did :: "core_externs \<Rightarrow> rust_str \<Rightarrow> fingerprint" where
  "fingerprint_did C did = fp_digest C DID_DOMAIN did"

section \<open>The comparison value determines the fingerprint\<close>

lemma hex_upper_table: "list_all (\<lambda>i. list_all (\<lambda>j. HEX_UPPER ! i = HEX_UPPER ! j \<longrightarrow> i = j) [0..<16]) [0..<16]"
  by code_simp

lemma hex_upper_inject: "i < 16 \<Longrightarrow> j < 16 \<Longrightarrow> HEX_UPPER ! i = HEX_UPPER ! j \<Longrightarrow> i = j"
  using hex_upper_table by (simp add: list_all_iff)

lemma hex_pair_inject: "hex_pair a = hex_pair b \<longleftrightarrow> a = b"
proof
  assume "hex_pair a = hex_pair b"
  then have "code a div 16 = code b div 16 \<and> code a mod 16 = code b mod 16"
    by (auto simp: hex_pair_def intro!: hex_upper_inject octet_div(2))
  then have "code a = code b" by (metis div_mult_mod_eq)
  then show "a = b" by (simp add: code_inject)
qed simp

lemma length_hex_pair [simp]: "length (hex_pair b) = 2"
  by (simp add: hex_pair_def)

lemma join_pairs_inject:
  "length xs = length ys \<Longrightarrow> join_with '' '' (map hex_pair xs) = join_with '' '' (map hex_pair ys) \<Longrightarrow> xs = ys"
proof (induction xs ys rule: list_induct2)
  case (Cons x xs y ys)
  show ?case
  proof (cases xs)
    case Nil
    with Cons show ?thesis by (simp add: hex_pair_inject)
  next
    case (Cons x' xs')
    with \<open>length xs = length ys\<close> obtain y' ys' where ys: "ys = y' # ys'" by (cases ys) auto
    have "hex_pair x @ '' '' @ join_with '' '' (map hex_pair xs) = hex_pair y @ '' '' @ join_with '' '' (map hex_pair ys)"
      using Cons.prems by (simp add: Cons ys)
    then have "hex_pair x = hex_pair y" "join_with '' '' (map hex_pair xs) = join_with '' '' (map hex_pair ys)"
      by (simp_all add: append_eq_append_conv)
    with Cons.IH show ?thesis by (simp add: hex_pair_inject)
  qed
qed simp

lemma fp_hex_inject: "length (fp_bytes f) = length (fp_bytes g) \<Longrightarrow> fp_hex f = fp_hex g \<longleftrightarrow> f = g"
  unfolding fp_hex_def using join_pairs_inject by (cases f; cases g) auto

lemma length_fp_digest: "blake3_law C \<Longrightarrow> length (fp_bytes (fp_digest C d i)) = 6"
  by (simp add: fp_digest_def)

section \<open>Two functions over two inputs\<close>

text \<open>No key and no DID give the hash the same input.\<close>

lemma domains_separate: "KEY_DOMAIN @ k \<noteq> DID_DOMAIN @ d"
proof
  assume "KEY_DOMAIN @ k = DID_DOMAIN @ d"
  then have "take 19 (KEY_DOMAIN @ k) = take 19 (DID_DOMAIN @ d)" by simp
  then show False by (simp add: KEY_DOMAIN_def DID_DOMAIN_def)
qed

section \<open>Bounds\<close>

lemma word_lists: "length ADJECTIVES = 64" "length NOUNS = 64"
  by (simp_all add: ADJECTIVES_def NOUNS_def)

lemma fp_number_bound: "length (fp_bytes f) = 6 \<Longrightarrow> fp_number f < 2 ^ 48"
proof -
  have "foldl (\<lambda>n b. n * 256 + code b) a bs < (a + 1) * 256 ^ length bs" for a :: nat and bs
  proof (induction bs arbitrary: a)
    case (Cons b bs)
    have "1 + c \<le> 256" if "c < 256" for c :: nat using that by simp
    from this [OF code_bound, of b] have le: "a * 256 + code b + 1 \<le> (a + 1) * 256" by simp
    have "foldl (\<lambda>n b. n * 256 + code b) a (b # bs) < (a * 256 + code b + 1) * 256 ^ length bs"
      using Cons [of "a * 256 + code b"] by simp
    also have "\<dots> \<le> (a + 1) * 256 * 256 ^ length bs" using le by (rule mult_le_mono1)
    finally show ?case by (simp add: algebra_simps)
  qed simp
  from this [of 0 "fp_bytes f"] show "length (fp_bytes f) = 6 \<Longrightarrow> fp_number f < 2 ^ 48" by (simp add: fp_number_def)
qed

lemma lh_pixel_total:
  assumes "fp_lifehash C f = Some h" "x < LIFEHASH_SIDE" "y < LIFEHASH_SIDE"
  shows "(y * LIFEHASH_SIDE + x) * 3 + 2 < length (lh_rgb h)"
proof -
  have "length (lh_rgb h) = 3072"
    using assms(1) by (auto simp: fp_lifehash_def Let_def LIFEHASH_RGB_LEN_def LIFEHASH_SIDE_def split: if_splits)
  then show ?thesis using assms(2,3) by (simp add: LIFEHASH_SIDE_def)
qed

end
