(* ===== verification/Confirm.thy ===== *)
theory Confirm
  imports Fingerprint
begin

text \<open>
  \<open>crates/selfsame-app-identity/src/confirm.rs\<close>: the human confirmation of the issuer at an account's
  first enrollment. The lemmas say that no first enrollment proceeds without a confirmation and that
  an unknown authority is never read as a first use.
\<close>

datatype authority_state = NoBinding | Bound | Unknown

record display =
  display_fp :: fingerprint

datatype applicability = Required display | NotRequired | FailClosed

definition comparison_value :: "display \<Rightarrow> rust_str" where
  "comparison_value d = fp_hex (display_fp d)"

definition recognition_aid :: "display \<Rightarrow> fingerprint" where
  "recognition_aid d = display_fp d"

definition decide_confirmation :: "core_externs \<Rightarrow> authority_state \<Rightarrow> rust_str \<Rightarrow> applicability" where
  "decide_confirmation C authority home_did =
     (case authority of
        NoBinding \<Rightarrow> Required \<lparr>display_fp = fingerprint_did C home_did\<rparr>
      | Bound \<Rightarrow> NotRequired
      | Unknown \<Rightarrow> FailClosed)"

datatype response = Confirmed_by_person | Rejected_by_person | TimedOut

record confirm_outcome =
  may_proceed :: bool
  burn_ceremony :: bool
  should_revoke :: bool

definition confirm_outcome_of :: "response \<Rightarrow> confirm_outcome" where
  "confirm_outcome_of r =
     (case r of
        Confirmed_by_person \<Rightarrow> \<lparr>may_proceed = True, burn_ceremony = False, should_revoke = False\<rparr>
      | Rejected_by_person \<Rightarrow> \<lparr>may_proceed = False, burn_ceremony = True, should_revoke = True\<rparr>
      | TimedOut \<Rightarrow> \<lparr>may_proceed = False, burn_ceremony = True, should_revoke = True\<rparr>)"

definition fingerprints_agree :: "core_externs \<Rightarrow> rust_str \<Rightarrow> rust_str \<Rightarrow> bool" where
  "fingerprints_agree C wallet_home_did grant_issuer \<longleftrightarrow>
     fingerprint_did C wallet_home_did = fingerprint_did C grant_issuer"

lemma decide_cases:
  "decide_confirmation C a did = NotRequired \<longleftrightarrow> a = Bound"
  "decide_confirmation C a did = FailClosed \<longleftrightarrow> a = Unknown"
  "(\<exists>d. decide_confirmation C a did = Required d) \<longleftrightarrow> a = NoBinding"
  by (cases a; simp add: decide_confirmation_def)+

lemma outcome_cases:
  "may_proceed (confirm_outcome_of r) \<longleftrightarrow> r = Confirmed_by_person"
  "burn_ceremony (confirm_outcome_of r) \<longleftrightarrow> r \<noteq> Confirmed_by_person"
  "should_revoke (confirm_outcome_of r) \<longleftrightarrow> r \<noteq> Confirmed_by_person"
  by (cases r; simp add: confirm_outcome_of_def)+

text \<open>The two screens show one comparison value exactly when the two fingerprints agree.\<close>

lemma compared_values_agree:
  assumes "blake3_law C" "decide_confirmation C NoBinding wallet = Required d" "decide_confirmation C NoBinding grant = Required e"
  shows "comparison_value d = comparison_value e \<longleftrightarrow> fingerprints_agree C wallet grant"
proof -
  have "display_fp d = fingerprint_did C wallet" "display_fp e = fingerprint_did C grant"
    using assms(2,3) by (auto simp: decide_confirmation_def)
  then show ?thesis
    using fp_hex_inject [of "display_fp d" "display_fp e"] length_fp_digest [OF assms(1)]
    by (simp add: comparison_value_def fingerprints_agree_def fingerprint_did_def)
qed

end
