(* ===== verification/Signer_Profile.thy ===== *)
theory Signer_Profile
  imports Identity
begin

text \<open>
  \<open>crates/selfsame-core/src/profile.rs\<close>: the single-controller profile. A closure is checked delta by
  delta against the genesis key and then merged in rounds until nothing is pending. The loop is shown
  to stop; the lemmas say what a resolved closure has passed, and what is dropped on the way.
\<close>

section \<open>Definitions\<close>

datatype signer_error =
    ForeignSigner
  | WrongDid
  | WrongSuite
  | BadDeltaSignature
  | UnboundNodeId
  | NotExactlyOneGenesis
  | UpstreamProfile rust_str

definition check_delta ::
  "core_externs \<Rightarrow> 'doc did_crdt \<Rightarrow> signed_delta \<Rightarrow> rust_str \<Rightarrow> octets \<Rightarrow> signer_error + unit" where
  "check_delta C D d did root_public_key =
     (if delta_did d \<noteq> did then Inl WrongDid
      else if proof_method d \<noteq> root_method_id did then Inl ForeignSigner
      else if proof_suite d \<noteq> Ed25519Signature2020 then Inl WrongSuite
      else if delta_parents d \<noteq> [] \<and> node_id (delta_time d) \<noteq> node_id_from_pubkey D root_public_key then Inl UnboundNodeId
      else and_then (map_err (\<lambda>_. BadDeltaSignature) (mb_decode_exact 64 (proof_value d))) (\<lambda>signature.
        if \<not> ed_key_ok C root_public_key then Inl BadDeltaSignature
        else and_then (map_err UpstreamProfile (delta_signing_input D d)) (\<lambda>input.
          if ed_verify C root_public_key input signature then Inr () else Inl BadDeltaSignature)))"

text \<open>The first loop: every delta is checked, and the ones with the genesis hash are counted.\<close>

fun check_closure ::
  "core_externs \<Rightarrow> 'doc did_crdt \<Rightarrow> rust_str \<Rightarrow> octets \<Rightarrow> octets \<Rightarrow> nat \<Rightarrow> signed_delta list \<Rightarrow> signer_error + nat" where
  "check_closure C D did root_public_key genesis_hash seen [] = Inr seen"
| "check_closure C D did root_public_key genesis_hash seen (d # ds) =
     and_then (check_delta C D d did root_public_key) (\<lambda>_.
     and_then (map_err UpstreamProfile (content_hash D d)) (\<lambda>h.
       check_closure C D did root_public_key genesis_hash (if h = genesis_hash then seen + 1 else seen) ds))"

text \<open>\<open>pending.retain(..)\<close>: one round of merges, keeping the deltas that wait for a parent.\<close>

fun merge_round :: "'doc did_crdt \<Rightarrow> 'doc \<Rightarrow> signed_delta list \<Rightarrow> 'doc \<times> signed_delta list" where
  "merge_round D doc [] = (doc, [])"
| "merge_round D doc (d # ds) =
     (let (doc', r) = doc_merge D doc d;
          (doc'', kept) = merge_round D doc' ds
      in (doc'', case r of None \<Rightarrow> kept | Some DeltaPending \<Rightarrow> d # kept | Some (MergeRefused _) \<Rightarrow> kept))"

lemma merge_round_shrinks: "merge_round D doc ds = (doc', kept) \<Longrightarrow> length kept \<le> length ds"
  by (induction ds arbitrary: doc doc' kept) (fastforce simp: Let_def split: prod.splits option.splits merge_error.splits)+

definition not_causally_closed :: rust_str where
  "not_causally_closed = ''closure is not causally closed: a parent delta is missing''"

function merge_pending :: "'doc did_crdt \<Rightarrow> 'doc \<Rightarrow> signed_delta list \<Rightarrow> signer_error + 'doc" where
  "merge_pending D doc pending =
     (if pending = [] then Inr doc
      else let (doc', kept) = merge_round D doc pending in
        if length kept = length pending then Inl (UpstreamProfile not_causally_closed)
        else merge_pending D doc' kept)"
  by pat_completeness auto
termination
proof (relation "measure (\<lambda>(D, doc, pending). length pending)")
  fix D :: "'doc did_crdt" and doc pending x doc' kept
  assume x: "x = merge_round D doc pending" "(doc', kept) = x" "length kept \<noteq> length pending"
  from x(1,2) have "merge_round D doc pending = (doc', kept)" by simp
  from merge_round_shrinks [OF this] x(3)
  show "((D, doc', kept), (D, doc, pending)) \<in> measure (\<lambda>(D, doc, pending). length pending)" by simp
qed simp

declare merge_pending.simps [simp del]

definition resolve_closure ::
  "core_externs \<Rightarrow> 'doc did_crdt \<Rightarrow> signed_delta list \<Rightarrow> octets \<Rightarrow> signer_error + 'doc" where
  "resolve_closure C D deltas root_public_key =
     and_then (map_err (\<lambda>e. UpstreamProfile (case e of UpstreamIdentity t \<Rightarrow> ''did:crdt error: '' @ t
                 | LabelTooLong \<Rightarrow> ''device label exceeds 64 characters'')) (bootstrap D root_public_key)) (\<lambda>(doc, genesis).
     and_then (map_err UpstreamProfile (content_hash D genesis)) (\<lambda>genesis_hash.
     and_then (check_closure C D (doc_did D doc) root_public_key genesis_hash 0 deltas) (\<lambda>seen_genesis.
       if seen_genesis \<noteq> 1 then Inl NotExactlyOneGenesis
       else merge_pending D doc (filter (\<lambda>d. delta_parents d \<noteq> []) deltas))))"

section \<open>What a checked delta is\<close>

text \<open>The rule over the signer: the operation does not enter.\<close>

definition root_signed :: "core_externs \<Rightarrow> 'doc did_crdt \<Rightarrow> rust_str \<Rightarrow> octets \<Rightarrow> signed_delta \<Rightarrow> bool" where
  "root_signed C D did root d \<longleftrightarrow>
     delta_did d = did \<and> proof_method d = root_method_id did \<and> proof_suite d = Ed25519Signature2020
     \<and> (delta_parents d \<noteq> [] \<longrightarrow> node_id (delta_time d) = node_id_from_pubkey D root) \<and> ed_key_ok C root
     \<and> (\<exists>signature input. length signature = 64 \<and> proof_value d = mb_encode signature
          \<and> delta_signing_input D d = Inr input \<and> ed_verify C root input signature)"

lemma check_delta_Inr_iff: "check_delta C D d did root = Inr u \<longleftrightarrow> root_signed C D did root d"
  unfolding check_delta_def root_signed_def res_iff multibase_exact.dec_Inr_iff by auto

lemma check_closure_Inr_iff:
  "check_closure C D did root g seen ds = Inr n \<longleftrightarrow>
     (\<forall>d \<in> set ds. root_signed C D did root d \<and> is_ok (content_hash D d)) \<and>
     n = seen + length (filter (\<lambda>d. content_hash D d = Inr g) ds)"
proof (induction ds arbitrary: seen)
  case (Cons d ds)
  then show ?case
    by (cases "content_hash D d") (auto simp: and_then_Inr_iff check_delta_Inr_iff)
qed auto

text \<open>A root-signed delta on a document's frontier passes.\<close>

lemma own_delta_checks:
  assumes "delta_law C D" "ed_law C root" "sign_on_frontier C D doc root op now_ms = Inr d"
  shows "check_delta C D d (doc_did D doc) (ed_public C root) = Inr ()"
proof -
  note f = sign_on_frontier_fields [OF assms(1,3)]
  from f(7) obtain input where "delta_signing_input D d = Inr input" "proof_value d = mb_encode (ed_sign C root input)" by blast
  then show ?thesis
    unfolding check_delta_Inr_iff root_signed_def using f(1-6) ed_lawD [OF assms(2)] by metis
qed

section \<open>What a resolved closure has passed\<close>

text \<open>The documents the merges go through, and what each merge said.\<close>

inductive merged :: "'doc did_crdt \<Rightarrow> 'doc \<Rightarrow> signed_delta list \<Rightarrow> 'doc \<Rightarrow> bool" for D where
  merged_Nil: "merged D doc [] doc"
| merged_step: "doc_merge D doc d = (doc', r) \<Longrightarrow> merged D doc' ds doc'' \<Longrightarrow> merged D doc (d # ds) doc''"

inductive_cases merged_NilE: "merged D doc [] doc'"
inductive_cases merged_ConsE: "merged D doc (d # ds) doc'"

lemma merged_append: "merged D doc xs doc' \<Longrightarrow> merged D doc' ys doc'' \<Longrightarrow> merged D doc (xs @ ys) doc''"
  by (induction rule: merged.induct) (auto intro: merged_step)

lemma merge_round_merged: "merge_round D doc ds = (doc', kept) \<Longrightarrow> merged D doc ds doc' \<and> set kept \<subseteq> set ds"
proof (induction ds arbitrary: doc doc' kept)
  case (Cons d ds)
  obtain doc1 r where m: "doc_merge D doc d = (doc1, r)" by fastforce
  obtain doc2 k where k: "merge_round D doc1 ds = (doc2, k)" by fastforce
  have "doc' = doc2" "set kept \<subseteq> insert d (set k)"
    using Cons.prems by (auto simp: m k split: option.splits merge_error.splits)
  then show ?case using Cons.IH [OF k] merged_step [OF m] by auto
qed (simp add: merged_Nil)

text \<open>Every pending delta was offered to the document; nothing else was.\<close>

lemma merge_pending_merged:
  "merge_pending D doc ds = Inr doc' \<Longrightarrow> \<exists>order. merged D doc order doc' \<and> set order = set ds"
proof (induction D doc ds rule: merge_pending.induct)
  case (1 D doc ds)
  show ?case
  proof (cases "ds = []")
    case True
    with 1(2) show ?thesis by (subst (asm) merge_pending.simps) (auto intro: merged_Nil)
  next
    case False
    obtain doc1 kept where r: "merge_round D doc ds = (doc1, kept)" by fastforce
    have "length kept \<noteq> length ds" "merge_pending D doc1 kept = Inr doc'"
      using 1(2) False by (subst (asm) merge_pending.simps; simp add: r split: if_splits)+
    from 1(1) [OF False r [symmetric] refl this(1) this(2)] obtain order where
      o: "merged D doc1 order doc'" "set order = set kept" by blast
    have "merged D doc (ds @ order) doc'" "set (ds @ order) = set ds"
      using merge_round_merged [OF r] o merged_append by auto
    then show ?thesis by blast
  qed
qed

lemma resolve_closure_sound:
  assumes "resolve_closure C D ds root = Inr doc"
  obtains doc0 genesis h where "document_new D (mb_encode root) = Inr (doc0, genesis)" "content_hash D genesis = Inr h"
    "\<forall>d \<in> set ds. root_signed C D (doc_did D doc0) root d" "length (filter (\<lambda>d. content_hash D d = Inr h) ds) = 1"
    "\<exists>order. merged D doc0 order doc \<and> set order = {d \<in> set ds. delta_parents d \<noteq> []}"
proof -
  from assms obtain doc0 genesis h where b: "document_new D (mb_encode root) = Inr (doc0, genesis)" "content_hash D genesis = Inr h"
    and c: "check_closure C D (doc_did D doc0) root h 0 ds = Inr 1"
    and m: "merge_pending D doc0 (filter (\<lambda>d. delta_parents d \<noteq> []) ds) = Inr doc"
    by (auto simp: resolve_closure_def bootstrap_def key_multibase_def and_then_Inr_iff map_err_Inr_iff split: if_splits)
  show thesis
    using b c merge_pending_merged [OF m] by (intro that [of doc0 genesis h]) (auto simp: check_closure_Inr_iff)
qed

section \<open>What is dropped without an error\<close>

text \<open>
  A delta that the document refuses, and a root-signed delta without parents that is not the genesis,
  leave no trace in the result.
\<close>

lemma refused_delta_dropped:
  "doc_merge D doc d = (doc', Some (MergeRefused e)) \<Longrightarrow> merge_pending D doc [d] = Inr doc'"
  by (subst merge_pending.simps) (simp, subst merge_pending.simps, simp)

lemma parentless_delta_ignored:
  assumes "delta_parents d = []" "root_signed C D did root d" "content_hash D d = Inr h" "h \<noteq> g"
  shows "check_closure C D did root g n (ds @ [d]) = check_closure C D did root g n ds"
    "filter (\<lambda>d. delta_parents d \<noteq> []) (ds @ [d]) = filter (\<lambda>d. delta_parents d \<noteq> []) ds"
proof -
  have "check_delta C D d did root = Inr ()" using assms(2) by (simp add: check_delta_Inr_iff)
  then show "check_closure C D did root g n (ds @ [d]) = check_closure C D did root g n ds"
    using assms(3,4) by (induction ds arbitrary: n) (auto intro!: and_then_cong)
qed (simp add: assms(1))

end
