(* ===== verification/Link_Seal.thy ===== *)
theory Link_Seal
  imports Core_Externs
begin

text \<open>
  \<open>crates/selfsame-core/src/seal.rs\<close>: the sealed slots of the blind rendezvous. The cipher, the key
  derivation and the hash are parameters; the lemmas say what the fixed nonces and the associated
  data of each slot separate, given an AEAD that authenticates them.
\<close>

section \<open>Definitions\<close>

definition KDF_INFO :: octets where "KDF_INFO = ''anuna-ssi/v1/link''"
definition SLOT_DOMAIN :: octets where "SLOT_DOMAIN = ''anuna-ssi/v1/slot/''"
definition AD_OFFER :: octets where "AD_OFFER = ''anuna-ssi/v1/offer''"
definition AD_BUNDLE :: octets where "AD_BUNDLE = ''anuna-ssi/v1/bundle''"
definition AD_ANNOUNCE :: octets where "AD_ANNOUNCE = ''anuna-ssi/v1/announce''"
definition AD_AT_REST :: octets where "AD_AT_REST = ''anuna-ssi/v1/at-rest''"

datatype role = OfferSlot | BundleSlot | AnnounceSlot

definition role_as_str :: "role \<Rightarrow> rust_str" where
  "role_as_str r = (case r of OfferSlot \<Rightarrow> ''offer'' | BundleSlot \<Rightarrow> ''bundle'' | AnnounceSlot \<Rightarrow> ''announce'')"

definition role_nonce :: "role \<Rightarrow> octets" where
  "role_nonce r =
     (replicate 12 (char_of (0 :: nat)))[11 := char_of (case r of OfferSlot \<Rightarrow> 1 :: nat | BundleSlot \<Rightarrow> 2 | AnnounceSlot \<Rightarrow> 3)]"

datatype seal_error = SealError

definition derive_key :: "core_externs \<Rightarrow> octets \<Rightarrow> octets" where
  "derive_key C secret = hkdf_sha256 C secret KDF_INFO 32"

definition seal_transcript :: "core_externs \<Rightarrow> octets \<Rightarrow> octets" where
  "seal_transcript C offer_plaintext = blake3_hash C offer_plaintext"

text \<open>\<open>base32_lower\<close> repeats the loop of \<open>codec.rs\<close> statement by statement, over the same alphabet.\<close>

definition base32_lower :: "octets \<Rightarrow> rust_str" where
  "base32_lower bytes =
     (let s = foldl base32_octet \<lparr>accumulator = 0, bits = 0, out32 = []\<rparr> bytes
      in if 0 < bits s
         then out32 s @ [BASE32_LOWER ! unat (and (push_bit (5 - bits s) (accumulator s)) 0x1F)]
         else out32 s)"

definition slot :: "core_externs \<Rightarrow> role \<Rightarrow> octets \<Rightarrow> rust_str" where
  "slot C r secret = base32_lower (take 16 (blake3_hash C (SLOT_DOMAIN @ role_as_str r @ secret)))"

definition bundle_ad :: "octets \<Rightarrow> octets" where "bundle_ad tr = AD_BUNDLE @ tr"
definition announce_ad :: "octets \<Rightarrow> octets" where "announce_ad tr = AD_ANNOUNCE @ tr"

definition seal_offer :: "core_externs \<Rightarrow> octets \<Rightarrow> octets \<Rightarrow> octets" where
  "seal_offer C key plain = aead_seal C key (role_nonce OfferSlot) AD_OFFER plain"

definition open_offer :: "core_externs \<Rightarrow> octets \<Rightarrow> octets \<Rightarrow> seal_error + octets" where
  "open_offer C key sealed = ok_or SealError (aead_open C key (role_nonce OfferSlot) AD_OFFER sealed)"

definition seal_bundle :: "core_externs \<Rightarrow> octets \<Rightarrow> octets \<Rightarrow> octets \<Rightarrow> octets" where
  "seal_bundle C key plain tr = aead_seal C key (role_nonce BundleSlot) (bundle_ad tr) plain"

definition open_sealed_bundle :: "core_externs \<Rightarrow> octets \<Rightarrow> octets \<Rightarrow> octets \<Rightarrow> seal_error + octets" where
  "open_sealed_bundle C key sealed tr = ok_or SealError (aead_open C key (role_nonce BundleSlot) (bundle_ad tr) sealed)"

definition seal_announce :: "core_externs \<Rightarrow> octets \<Rightarrow> octets \<Rightarrow> octets \<Rightarrow> octets" where
  "seal_announce C key plain tr = aead_seal C key (role_nonce AnnounceSlot) (announce_ad tr) plain"

definition open_announce :: "core_externs \<Rightarrow> octets \<Rightarrow> octets \<Rightarrow> octets \<Rightarrow> seal_error + octets" where
  "open_announce C key sealed tr = ok_or SealError (aead_open C key (role_nonce AnnounceSlot) (announce_ad tr) sealed)"

definition seal_at_rest :: "core_externs \<Rightarrow> octets \<Rightarrow> octets \<Rightarrow> octets \<Rightarrow> octets" where
  "seal_at_rest C key n plain = aead_seal C key n AD_AT_REST plain"

definition open_at_rest :: "core_externs \<Rightarrow> octets \<Rightarrow> octets \<Rightarrow> octets \<Rightarrow> seal_error + octets" where
  "open_at_rest C key n sealed = ok_or SealError (aead_open C key n AD_AT_REST sealed)"

section \<open>Separation\<close>

lemma role_nonce_inject: "role_nonce r = role_nonce q \<longleftrightarrow> r = q"
proof -
  have n: "code (role_nonce r ! 11) = (case r of OfferSlot \<Rightarrow> 1 | BundleSlot \<Rightarrow> 2 | AnnounceSlot \<Rightarrow> 3)" for r
    by (cases r) (simp_all add: role_nonce_def)
  have "r = q" if "role_nonce r = role_nonce q"
    using n [of r] n [of q] unfolding that by (cases r; cases q) simp_all
  then show ?thesis by blast
qed

text \<open>The input of the slot hash determines the role and the secret.\<close>

lemma slot_input_inject:
  assumes "length s = 16" "length t = 16" "SLOT_DOMAIN @ role_as_str r @ s = SLOT_DOMAIN @ role_as_str q @ t"
  shows "r = q \<and> s = t"
proof -
  have "role_as_str r @ s = role_as_str q @ t" using assms(3) by simp
  then have "role_as_str r = role_as_str q" "s = t" using assms(1,2) by (simp_all add: append_eq_append_conv)
  moreover have "role_as_str r = role_as_str q \<Longrightarrow> r = q" by (cases r; cases q) (simp_all add: role_as_str_def)
  ultimately show ?thesis by simp
qed

lemma base32_lower_codec: "base32_lower bytes = base32_lower_nopad bytes"
  by (simp add: base32_lower_def base32_lower_nopad_def)

lemma ads_separate:
  "bundle_ad t \<noteq> announce_ad u" "bundle_ad t \<noteq> AD_OFFER" "announce_ad t \<noteq> AD_OFFER"
  "bundle_ad t \<noteq> AD_AT_REST" "announce_ad t \<noteq> AD_AT_REST" "AD_OFFER \<noteq> AD_AT_REST"
  by (auto simp: bundle_ad_def announce_ad_def AD_BUNDLE_def AD_ANNOUNCE_def AD_OFFER_def AD_AT_REST_def)

section \<open>Round trips and the transcript\<close>

lemma open_seal:
  assumes "aead_law C"
  shows "open_offer C k (seal_offer C k m) = Inr m" "open_sealed_bundle C k (seal_bundle C k m t) t = Inr m"
    "open_announce C k (seal_announce C k m t) t = Inr m" "open_at_rest C k n (seal_at_rest C k n m) = Inr m"
  using assms by (simp_all add: open_offer_def seal_offer_def open_sealed_bundle_def seal_bundle_def open_announce_def
    seal_announce_def open_at_rest_def seal_at_rest_def)

text \<open>What another transcript, another key or another slot sealed does not open as a bundle.\<close>

lemma bundle_binds:
  assumes "aead_bound C"
  shows "open_sealed_bundle C k (seal_bundle C k' m t') t = Inr m' \<Longrightarrow> k' = k \<and> t' = t \<and> m' = m"
    "\<not> is_ok (open_sealed_bundle C k (seal_offer C k' m) t)"
    "\<not> is_ok (open_sealed_bundle C k (seal_announce C k' m t') t)"
    "\<not> is_ok (open_sealed_bundle C k (seal_at_rest C k' n m) t)"
proof -
  note d = aead_boundD [OF assms]
  show "open_sealed_bundle C k (seal_bundle C k' m t') t = Inr m' \<Longrightarrow> k' = k \<and> t' = t \<and> m' = m"
    unfolding open_sealed_bundle_def seal_bundle_def res_iff by (drule d) (simp add: bundle_ad_def)
  show "\<not> is_ok (open_sealed_bundle C k (seal_offer C k' m) t)"
    unfolding open_sealed_bundle_def seal_offer_def not_isl_iff res_iff using d ads_separate by metis
  show "\<not> is_ok (open_sealed_bundle C k (seal_announce C k' m t') t)"
    unfolding open_sealed_bundle_def seal_announce_def not_isl_iff res_iff using d ads_separate by metis
  show "\<not> is_ok (open_sealed_bundle C k (seal_at_rest C k' n m) t)"
    unfolding open_sealed_bundle_def seal_at_rest_def not_isl_iff res_iff using d ads_separate by metis
qed

end
