(* ===== verification/Link_Record.thy ===== *)
theory Link_Record
  imports Link_Seal Utf8
begin

text \<open>
  \<open>crates/selfsame-core/src/record.rs\<close>: the offer and the grant of the linking ceremony, their CBCL
  forms and recognisers. The reader, the printer, the canonical encoder and the shape checker of
  CBCL are parameters; the order of the rules, the closed field list, the depth filter in front of the
  reader and the signature over the unsigned form are modelled.
\<close>

section \<open>The applications\<close>

datatype link_application = CbclChat

definition id_byte :: "link_application \<Rightarrow> octet" where
  "id_byte a = (case a of CbclChat \<Rightarrow> char_of (1 :: nat))"

definition from_id_byte :: "octet \<Rightarrow> link_application option" where
  "from_id_byte b = (if code b = 1 then Some CbclChat else None)"

definition app_slug :: "link_application \<Rightarrow> rust_str" where
  "app_slug a = (case a of CbclChat \<Rightarrow> ''cbcl-chat'')"

definition from_slug :: "rust_str \<Rightarrow> link_application option" where
  "from_slug s = (if s = ''cbcl-chat'' then Some CbclChat else None)"

definition app_purpose :: "link_application \<Rightarrow> rust_str" where
  "app_purpose a = (case a of CbclChat \<Rightarrow> ''chat-device'')"

section \<open>Constants\<close>

definition WIRE_VERSION :: "64 word" where "WIRE_VERSION = 1"
definition OFFER_TTL_SECONDS :: nat where "OFFER_TTL_SECONDS = 300"
definition SLOT_TTL_SECONDS :: nat where "SLOT_TTL_SECONDS = 600"
definition MAX_SEALED_BYTES :: nat where "MAX_SEALED_BYTES = 4096"
definition MAX_DEVICE_DESCRIPTION_CHARS :: nat where "MAX_DEVICE_DESCRIPTION_CHARS = 64"
definition OFFER_DOMAIN :: octets where "OFFER_DOMAIN = ''anuna-ssi/v1/offer''"
definition MAX_RECORD_BYTES :: nat where "MAX_RECORD_BYTES = 4096"
definition MAX_RECORD_DEPTH :: nat where "MAX_RECORD_DEPTH = 6"

definition OFFER_SHAPE :: rust_str where
  "OFFER_SHAPE = ''(shape offer (require :v number) (require :app string) (require :purpose string) (require :key string) (require :desc string) (require :exp number) (require :sig string) (max-depth 2))''"

definition GRANT_SHAPE :: rust_str where
  "GRANT_SHAPE = ''(shape grant (require :v number) (require :did string) (require :deltas list) (max-depth 3))''"

section \<open>The depth filter\<close>

record scan_state =
  scan_depth :: nat
  in_string :: bool
  escaped :: bool

definition scan_octet :: "scan_state \<Rightarrow> octet \<Rightarrow> scan_state option" where
  "scan_octet s b =
     (if in_string s then
        (if escaped s then Some (s\<lparr>escaped := False\<rparr>)
         else if b = CHR 0x5C then Some (s\<lparr>escaped := True\<rparr>)
         else if b = CHR 0x22 then Some (s\<lparr>in_string := False\<rparr>)
         else Some s)
      else if b = CHR 0x22 then Some (s\<lparr>in_string := True\<rparr>)
      else if b = CHR ''('' then
        (if scan_depth s + 1 > MAX_RECORD_DEPTH then None else Some (s\<lparr>scan_depth := scan_depth s + 1\<rparr>))
      else if b = CHR '')'' then Some (s\<lparr>scan_depth := scan_depth s - 1\<rparr>)
      else Some s)"

fun scan_octets :: "scan_state \<Rightarrow> octets \<Rightarrow> scan_state option" where
  "scan_octets s [] = Some s"
| "scan_octets s (b # bs) = Option.bind (scan_octet s b) (\<lambda>s'. scan_octets s' bs)"

definition within_resource_bounds :: "rust_str \<Rightarrow> bool" where
  "within_resource_bounds input \<longleftrightarrow>
     length input \<le> MAX_RECORD_BYTES
     \<and> scan_octets \<lparr>scan_depth = 0, in_string = False, escaped = False\<rparr> input \<noteq> None"

section \<open>Errors and recognition helpers\<close>

datatype record_error =
    Unrecognised
  | WrongShape rust_str
  | UnsupportedVersion
  | UnknownApplication
  | UnknownPurpose
  | Multibase multibase_error
  | MalformedDid
  | DescriptionTooLong
  | DeltaArity
  | BadRecordSignature

definition is_lower_hex :: "octet \<Rightarrow> bool" where
  "is_lower_hex b \<longleftrightarrow> is_ascii_digit b \<or> 97 \<le> code b \<and> code b \<le> 102"

definition is_well_formed_did :: "rust_str \<Rightarrow> bool" where
  "is_well_formed_did s =
     (case strip_prefix ''did:crdt:'' s of Some hex \<Rightarrow> length hex = 64 \<and> list_all is_lower_hex hex | None \<Rightarrow> False)"

definition check_shape :: "cbcl_externs \<Rightarrow> rust_str \<Rightarrow> sexpr \<Rightarrow> bool" where
  "check_shape B src e =
     (case cbcl_parse B src of None \<Rightarrow> False | Some clause \<Rightarrow> shape_check B clause e = Some True)"

definition is_symbol :: "rust_str \<Rightarrow> sexpr \<Rightarrow> bool" where
  "is_symbol h e \<longleftrightarrow> e = Atom (Symbol h)"

text \<open>The loop over the keywords: element \<open>1 + 2 i\<close> is the keyword, the next one its value.\<close>

fun keyword_values :: "sexpr list \<Rightarrow> rust_str list \<Rightarrow> sexpr list option" where
  "keyword_values (k # v # items) (expected # ks) =
     (if k = Atom (Keyword expected) then map_option (\<lambda>vs. v # vs) (keyword_values items ks) else None)"
| "keyword_values items [] = Some []"
| "keyword_values _ _ = None"

definition keyword_fields :: "sexpr \<Rightarrow> rust_str \<Rightarrow> rust_str list \<Rightarrow> sexpr list option" where
  "keyword_fields e head ks =
     (case e of
        Atom _ \<Rightarrow> None
      | sexpr.List items \<Rightarrow>
          if length items \<noteq> 1 + length ks * 2 \<or> \<not> is_symbol head (items ! 0) then None
          else keyword_values (tl items) ks)"

definition text_of :: "sexpr \<Rightarrow> rust_str option" where
  "text_of e = (case e of Atom (Str s) \<Rightarrow> Some s | _ \<Rightarrow> None)"

definition num_of :: "sexpr \<Rightarrow> 64 word option" where
  "num_of e = (case e of Atom (Num n) \<Rightarrow> Some n | _ \<Rightarrow> None)"

section \<open>The offer\<close>

text \<open>
  \<open>expiry\<close> is a \<open>u64\<close>. \<open>expiry as i64\<close> keeps its 64 bits, so it is the same word; \<open>try_into\<close> on the
  way back refuses a negative reading.
\<close>

record offer =
  offer_application :: link_application
  offer_purpose :: rust_str
  device_key :: octets
  device_description :: rust_str
  expiry :: "64 word"
  offer_signature :: octets

definition offer_items :: "offer \<Rightarrow> sexpr list" where
  "offer_items f =
     [Atom (Symbol ''offer''),
      Atom (Keyword ''v''), Atom (Num WIRE_VERSION),
      Atom (Keyword ''app''), Atom (Str (app_slug (offer_application f))),
      Atom (Keyword ''purpose''), Atom (Str (offer_purpose f)),
      Atom (Keyword ''key''), Atom (Str (mb_encode (device_key f))),
      Atom (Keyword ''desc''), Atom (Str (device_description f)),
      Atom (Keyword ''exp''), Atom (Num (expiry f))]"

definition to_sexpr_unsigned :: "offer \<Rightarrow> sexpr" where
  "to_sexpr_unsigned f = sexpr.List (offer_items f)"

definition offer_signing_bytes :: "cbcl_externs \<Rightarrow> offer \<Rightarrow> octets" where
  "offer_signing_bytes B f = OFFER_DOMAIN @ canonical_encode B (to_sexpr_unsigned f)"

definition offer_to_sexpr :: "offer \<Rightarrow> sexpr" where
  "offer_to_sexpr f =
     sexpr.List (offer_items f @ [Atom (Keyword ''sig''), Atom (Str (mb_encode (offer_signature f)))])"

definition offer_to_bytes :: "cbcl_externs \<Rightarrow> offer \<Rightarrow> octets" where
  "offer_to_bytes B f = sexpr_to_string B (offer_to_sexpr f)"

definition offer_transcript :: "core_externs \<Rightarrow> cbcl_externs \<Rightarrow> offer \<Rightarrow> octets" where
  "offer_transcript C B f = seal_transcript C (canonical_encode B (offer_to_sexpr f))"

definition sign_offer ::
  "core_externs \<Rightarrow> cbcl_externs \<Rightarrow> link_application \<Rightarrow> octets \<Rightarrow> rust_str \<Rightarrow> 64 word \<Rightarrow> offer" where
  "sign_offer C B app signing_key description exp =
     (let f = \<lparr>offer_application = app, offer_purpose = app_purpose app, device_key = ed_public C signing_key,
               device_description = encode_all (take MAX_DEVICE_DESCRIPTION_CHARS (str_chars description)), expiry = exp,
               offer_signature = replicate 64 (char_of (0 :: nat))\<rparr>
      in f\<lparr>offer_signature := ed_sign C signing_key (offer_signing_bytes B f)\<rparr>)"

definition offer_keywords :: "rust_str list" where
  "offer_keywords = [''v'', ''app'', ''purpose'', ''key'', ''desc'', ''exp'', ''sig'']"

text \<open>\<open>text_of(&vs[i]).ok_or(WrongShape(..))?\<close> and its numeric sibling; \<open>mb::decode_exact(..)?\<close>.\<close>

definition field_text :: "rust_str \<Rightarrow> sexpr list \<Rightarrow> nat \<Rightarrow> record_error + rust_str" where
  "field_text name vs i = ok_or (WrongShape name) (text_of (vs ! i))"

definition field_num :: "rust_str \<Rightarrow> sexpr list \<Rightarrow> nat \<Rightarrow> record_error + 64 word" where
  "field_num name vs i = ok_or (WrongShape name) (num_of (vs ! i))"

definition parse_offer :: "core_externs \<Rightarrow> cbcl_externs \<Rightarrow> octets \<Rightarrow> record_error + offer" where
  "parse_offer C B bytes =
     (if \<not> valid_utf8 bytes then Inl Unrecognised
      else if \<not> within_resource_bounds bytes then Inl Unrecognised
      else and_then (ok_or Unrecognised (cbcl_parse B bytes)) (\<lambda>e.
        if \<not> check_shape B OFFER_SHAPE e then Inl (WrongShape ''offer'')
        else and_then (ok_or (WrongShape ''offer'') (keyword_fields e ''offer'' offer_keywords)) (\<lambda>vs.
        and_then (field_num ''offer'' vs 0) (\<lambda>version.
        if version \<noteq> WIRE_VERSION then Inl UnsupportedVersion
        else and_then (field_text ''offer'' vs 1) (\<lambda>slug.
        and_then (ok_or UnknownApplication (from_slug slug)) (\<lambda>app.
        and_then (field_text ''offer'' vs 2) (\<lambda>purpose.
        if purpose \<noteq> app_purpose app then Inl UnknownPurpose
        else and_then (field_text ''offer'' vs 3) (\<lambda>key_text.
        and_then (map_err Multibase (mb_decode_exact 32 key_text)) (\<lambda>key.
        and_then (field_text ''offer'' vs 4) (\<lambda>desc.
        if length (str_chars desc) > MAX_DEVICE_DESCRIPTION_CHARS then Inl DescriptionTooLong
        else and_then (field_num ''offer'' vs 5) (\<lambda>expiry_raw.
        if sint expiry_raw < 0 then Inl (WrongShape ''offer'')
        else and_then (field_text ''offer'' vs 6) (\<lambda>sig_text.
        and_then (map_err Multibase (mb_decode_exact 64 sig_text)) (\<lambda>sig.
          let f = \<lparr>offer_application = app, offer_purpose = app_purpose app, device_key = key,
                   device_description = desc, expiry = expiry_raw, offer_signature = sig\<rparr>
          in if \<not> ed_key_ok C key then Inl BadRecordSignature
             else if \<not> ed_verify C key (offer_signing_bytes B f) sig then Inl BadRecordSignature
             else Inr f)))))))))))))"

section \<open>The grant\<close>

record link_grant =
  link_did :: rust_str
  link_deltas :: "octets list"

definition grant_to_sexpr :: "link_grant \<Rightarrow> sexpr" where
  "grant_to_sexpr g =
     sexpr.List [Atom (Symbol ''grant''),
       Atom (Keyword ''v''), Atom (Num WIRE_VERSION),
       Atom (Keyword ''did''), Atom (Str (link_did g)),
       Atom (Keyword ''deltas''), sexpr.List (map (\<lambda>d. Atom (Str (mb_encode d))) (link_deltas g))]"

definition grant_to_bytes :: "cbcl_externs \<Rightarrow> link_grant \<Rightarrow> octets" where
  "grant_to_bytes B g = sexpr_to_string B (grant_to_sexpr g)"

definition grant_delta :: "sexpr \<Rightarrow> record_error + octets" where
  "grant_delta item =
     and_then (ok_or (WrongShape ''grant'') (text_of item)) (\<lambda>s. map_err Multibase (mb_decode s))"

definition parse_link_grant :: "cbcl_externs \<Rightarrow> octets \<Rightarrow> record_error + link_grant" where
  "parse_link_grant B bytes =
     (if \<not> valid_utf8 bytes then Inl Unrecognised
      else if \<not> within_resource_bounds bytes then Inl Unrecognised
      else and_then (ok_or Unrecognised (cbcl_parse B bytes)) (\<lambda>e.
        if \<not> check_shape B GRANT_SHAPE e then Inl (WrongShape ''grant'')
        else and_then (ok_or (WrongShape ''grant'') (keyword_fields e ''grant'' [''v'', ''did'', ''deltas''])) (\<lambda>vs.
        and_then (field_num ''grant'' vs 0) (\<lambda>version.
        if version \<noteq> WIRE_VERSION then Inl UnsupportedVersion
        else and_then (field_text ''grant'' vs 1) (\<lambda>did.
        if \<not> is_well_formed_did did then Inl MalformedDid
        else (case vs ! 2 of
            Atom _ \<Rightarrow> Inl (WrongShape ''grant'')
          | sexpr.List items \<Rightarrow>
              if \<not> (2 \<le> length items \<and> length items \<le> 3) then Inl DeltaArity
              else and_then (try_map grant_delta items) (\<lambda>deltas.
                Inr \<lparr>link_did = did, link_deltas = deltas\<rparr>)))))))"

section \<open>The depth filter bounds the nesting\<close>

lemma scan_octets_append:
  "scan_octets s (xs @ ys) = Option.bind (scan_octets s xs) (\<lambda>s'. scan_octets s' ys)"
  by (induction xs arbitrary: s) (auto split: Option.bind_split)

lemma scan_octet_depth: "scan_octet s b = Some s' \<Longrightarrow> scan_depth s \<le> MAX_RECORD_DEPTH \<Longrightarrow> scan_depth s' \<le> MAX_RECORD_DEPTH"
  by (auto simp: scan_octet_def split: if_splits)

lemma scan_octets_depth: "scan_octets s bs = Some s' \<Longrightarrow> scan_depth s \<le> MAX_RECORD_DEPTH \<Longrightarrow> scan_depth s' \<le> MAX_RECORD_DEPTH"
  by (induction bs arbitrary: s) (auto simp: bind_eq_Some_conv dest: scan_octet_depth)

lemma within_bounds_prefix:
  assumes "within_resource_bounds (xs @ ys)"
  shows "\<exists>s. scan_octets \<lparr>scan_depth = 0, in_string = False, escaped = False\<rparr> xs = Some s \<and> scan_depth s \<le> 6"
proof -
  obtain s where "scan_octets \<lparr>scan_depth = 0, in_string = False, escaped = False\<rparr> xs = Some s"
    using assms by (auto simp: within_resource_bounds_def scan_octets_append bind_eq_Some_conv)
  with scan_octets_depth [OF this] show ?thesis by (simp add: MAX_RECORD_DEPTH_def)
qed

section \<open>Recognition is exact\<close>

lemma text_of_Some_iff [simp]: "text_of e = Some s \<longleftrightarrow> e = Atom (Str s)"
  by (auto simp: text_of_def split: sexpr.splits atom.splits)

lemma num_of_Some_iff [simp]: "num_of e = Some n \<longleftrightarrow> e = Atom (Num n)"
  by (auto simp: num_of_def split: sexpr.splits atom.splits)

fun keyword_items :: "rust_str list \<Rightarrow> sexpr list \<Rightarrow> sexpr list" where
  "keyword_items (k # ks) (v # vs) = Atom (Keyword k) # v # keyword_items ks vs"
| "keyword_items _ _ = []"

lemma keyword_values_Some:
  "keyword_values items ks = Some vs \<Longrightarrow> length items = 2 * length ks \<Longrightarrow> length vs = length ks \<and> items = keyword_items ks vs"
  by (induction items ks arbitrary: vs rule: keyword_values.induct) (auto split: if_splits)

lemma keyword_values_items: "length vs = length ks \<Longrightarrow> keyword_values (keyword_items ks vs) ks = Some vs"
  by (induction ks vs rule: keyword_items.induct) auto

lemma length_keyword_items: "length vs = length ks \<Longrightarrow> length (keyword_items ks vs) = 2 * length ks"
  by (induction ks vs rule: keyword_items.induct) auto

lemma keyword_fields_Some_iff:
  "keyword_fields e head ks = Some vs \<longleftrightarrow> length vs = length ks \<and> e = sexpr.List (Atom (Symbol head) # keyword_items ks vs)"
proof
  assume k: "keyword_fields e head ks = Some vs"
  then obtain items where e: "e = sexpr.List items" "length items = 1 + length ks * 2" "items ! 0 = Atom (Symbol head)"
      "keyword_values (tl items) ks = Some vs"
    by (auto simp: keyword_fields_def is_symbol_def split: sexpr.splits if_splits)
  then obtain rest where items: "items = Atom (Symbol head) # rest" "length rest = 2 * length ks" by (cases items) auto
  show "length vs = length ks \<and> e = sexpr.List (Atom (Symbol head) # keyword_items ks vs)"
    using keyword_values_Some [of rest ks vs] e items by simp
next
  assume "length vs = length ks \<and> e = sexpr.List (Atom (Symbol head) # keyword_items ks vs)"
  then show "keyword_fields e head ks = Some vs"
    using keyword_values_items [of vs ks] by (simp add: keyword_fields_def is_symbol_def length_keyword_items)
qed

text \<open>The offers a recogniser can return.\<close>

definition link_offer_ok :: "core_externs \<Rightarrow> cbcl_externs \<Rightarrow> offer \<Rightarrow> bool" where
  "link_offer_ok C B f \<longleftrightarrow>
     offer_purpose f = app_purpose (offer_application f) \<and> length (device_key f) = 32 \<and> length (offer_signature f) = 64
     \<and> length (str_chars (device_description f)) \<le> 64 \<and> 0 \<le> sint (expiry f)
     \<and> ed_key_ok C (device_key f) \<and> ed_verify C (device_key f) (offer_signing_bytes B f) (offer_signature f)"

definition message_of :: "cbcl_externs \<Rightarrow> rust_str \<Rightarrow> octets \<Rightarrow> sexpr \<Rightarrow> bool" where
  "message_of B shape bytes e \<longleftrightarrow>
     valid_utf8 bytes \<and> within_resource_bounds bytes \<and> cbcl_parse B bytes = Some e \<and> check_shape B shape e"

lemma from_slug_Some: "from_slug s = Some a \<longleftrightarrow> s = app_slug a"
  by (cases a) (auto simp: from_slug_def app_slug_def)

lemma list_of_seven: "length vs = 7 \<Longrightarrow> vs = [vs ! 0, vs ! 1, vs ! 2, vs ! 3, vs ! 4, vs ! 5, vs ! 6]"
  by (auto simp: numeral_eq_Suc length_Suc_conv)

lemma parse_offer_exact:
  "parse_offer C B bytes = Inr f \<longleftrightarrow> message_of B OFFER_SHAPE bytes (offer_to_sexpr f) \<and> link_offer_ok C B f"
proof
  assume p: "parse_offer C B bytes = Inr f"
  then obtain e vs version slug app purpose key_text key desc exp sig_text sig where
    m: "valid_utf8 bytes" "within_resource_bounds bytes" "cbcl_parse B bytes = Some e" "check_shape B OFFER_SHAPE e" and
    k: "keyword_fields e ''offer'' offer_keywords = Some vs" and
    f: "vs ! 0 = Atom (Num version)" "version = WIRE_VERSION" "vs ! 1 = Atom (Str slug)" "slug = app_slug app"
      "vs ! 2 = Atom (Str purpose)" "purpose = app_purpose app" "vs ! 3 = Atom (Str key_text)"
      "mb_decode_exact 32 key_text = Inr key" "vs ! 4 = Atom (Str desc)" "length (str_chars desc) \<le> 64"
      "vs ! 5 = Atom (Num exp)" "0 \<le> sint exp" "vs ! 6 = Atom (Str sig_text)" "mb_decode_exact 64 sig_text = Inr sig"
      "ed_key_ok C key" and
    v: "ed_verify C key (offer_signing_bytes B \<lparr>offer_application = app, offer_purpose = app_purpose app, device_key = key,
          device_description = desc, expiry = exp, offer_signature = sig\<rparr>) sig" and
    r: "\<lparr>offer_application = app, offer_purpose = app_purpose app, device_key = key,
          device_description = desc, expiry = exp, offer_signature = sig\<rparr> = f"
    unfolding parse_offer_def Let_def field_text_def field_num_def and_then_Inr_iff if_Inl_Inr_iff not_not
      ok_or_Inr_iff map_err_Inr_iff text_of_Some_iff num_of_Some_iff from_slug_Some not_less MAX_DEVICE_DESCRIPTION_CHARS_def
      sum.inject by (elim exE conjE) (rule that)
  have "length vs = 7" "e = sexpr.List (Atom (Symbol ''offer'') # keyword_items offer_keywords vs)"
    using k by (simp_all add: keyword_fields_Some_iff offer_keywords_def)
  moreover have "key_text = mb_encode key" "length key = 32" "sig_text = mb_encode sig" "length sig = 64"
    using f(8,14) multibase_exact.dec_Inr_iff by blast+
  ultimately have "e = offer_to_sexpr f"
    using list_of_seven [of vs] f by (simp add: offer_to_sexpr_def offer_items_def r [symmetric] offer_keywords_def)
  then show "message_of B OFFER_SHAPE bytes (offer_to_sexpr f) \<and> link_offer_ok C B f"
    using m v f \<open>length key = 32\<close> \<open>length sig = 64\<close> by (simp add: link_offer_ok_def message_of_def r [symmetric])
next
  assume m: "message_of B OFFER_SHAPE bytes (offer_to_sexpr f) \<and> link_offer_ok C B f"
  then obtain a k d x sg where f: "f = \<lparr>offer_application = a, offer_purpose = app_purpose a, device_key = k,
      device_description = d, expiry = x, offer_signature = sg\<rparr>"
    by (cases f) (simp add: link_offer_ok_def)
  let ?vs = "[Atom (Num WIRE_VERSION), Atom (Str (app_slug a)), Atom (Str (app_purpose a)),
    Atom (Str (mb_encode k)), Atom (Str d), Atom (Num x), Atom (Str (mb_encode sg))]"
  have "keyword_fields (offer_to_sexpr f) ''offer'' offer_keywords = Some ?vs"
    by (simp add: keyword_fields_Some_iff offer_keywords_def offer_to_sexpr_def offer_items_def f)
  moreover have "length k = 32 \<and> length sg = 64" using m by (simp add: link_offer_ok_def f)
  then have "mb_decode_exact 32 (mb_encode k) = Inr k" "mb_decode_exact 64 (mb_encode sg) = Inr sg"
    using multibase_exact.dec_enc by blast+
  ultimately show "parse_offer C B bytes = Inr f"
    using m by (simp add: parse_offer_def message_of_def link_offer_ok_def field_num_def field_text_def
      from_slug_Some [THEN iffD2] MAX_DEVICE_DESCRIPTION_CHARS_def text_of_def num_of_def f)
qed

lemma grant_delta_Inr_iff: "grant_delta item = Inr d \<longleftrightarrow> item = Atom (Str (mb_encode d))"
  by (auto simp: grant_delta_def res_iff multibase.dec_Inr_iff)

lemma grant_deltas_Inr_iff: "try_map grant_delta items = Inr ds \<longleftrightarrow> items = map (\<lambda>d. Atom (Str (mb_encode d))) ds"
  unfolding try_map_Inr_iff grant_delta_Inr_iff by (induction items arbitrary: ds) (auto simp: list_all2_Cons1 Cons_eq_map_conv)

lemma parse_link_grant_exact:
  "parse_link_grant B bytes = Inr g \<longleftrightarrow>
     message_of B GRANT_SHAPE bytes (grant_to_sexpr g) \<and> is_well_formed_did (link_did g)
     \<and> 2 \<le> length (link_deltas g) \<and> length (link_deltas g) \<le> 3"
proof
  assume p: "parse_link_grant B bytes = Inr g"
  then obtain e vs version did where
    m: "valid_utf8 bytes" "within_resource_bounds bytes" "cbcl_parse B bytes = Some e" "check_shape B GRANT_SHAPE e" and
    k: "keyword_fields e ''grant'' [''v'', ''did'', ''deltas''] = Some vs" and
    d: "vs ! 0 = Atom (Num version)" "version = WIRE_VERSION" "vs ! 1 = Atom (Str did)" "is_well_formed_did did" and
    rest: "(case vs ! 2 of Atom a \<Rightarrow> Inl (WrongShape ''grant'') | sexpr.List items \<Rightarrow>
        if \<not> (2 \<le> length items \<and> length items \<le> 3) then Inl DeltaArity
        else and_then (try_map grant_delta items) (\<lambda>deltas. Inr \<lparr>link_did = did, link_deltas = deltas\<rparr>)) = Inr g"
    unfolding parse_link_grant_def field_text_def field_num_def and_then_Inr_iff if_Inl_Inr_iff not_not
      ok_or_Inr_iff text_of_Some_iff num_of_Some_iff by (elim exE conjE) (rule that)
  from rest obtain items where items: "vs ! 2 = sexpr.List items" "2 \<le> length items" "length items \<le> 3"
      "try_map grant_delta items = Inr (link_deltas g)" "did = link_did g"
    by (cases "vs ! 2") (auto simp: and_then_Inr_iff split: if_splits)
  then have f: "vs ! 0 = Atom (Num WIRE_VERSION)" "vs ! 1 = Atom (Str (link_did g))" "is_well_formed_did (link_did g)"
      "vs ! 2 = sexpr.List (map (\<lambda>d. Atom (Str (mb_encode d))) (link_deltas g))"
      "2 \<le> length (link_deltas g)" "length (link_deltas g) \<le> 3"
    using d by (auto simp: grant_deltas_Inr_iff)
  have v: "length vs = 3" "e = sexpr.List (Atom (Symbol ''grant'') # keyword_items [''v'', ''did'', ''deltas''] vs)"
    using k by (simp_all add: keyword_fields_Some_iff)
  from v(1) have "vs = [vs ! 0, vs ! 1, vs ! 2]" by (auto simp: numeral_eq_Suc length_Suc_conv)
  then obtain a b c where abc: "vs = [a, b, c]" by blast
  have "e = grant_to_sexpr g" using f v(2) unfolding abc by (simp add: grant_to_sexpr_def)
  then show "message_of B GRANT_SHAPE bytes (grant_to_sexpr g) \<and> is_well_formed_did (link_did g)
     \<and> 2 \<le> length (link_deltas g) \<and> length (link_deltas g) \<le> 3" using m f by (simp add: message_of_def)
next
  assume m: "message_of B GRANT_SHAPE bytes (grant_to_sexpr g) \<and> is_well_formed_did (link_did g)
     \<and> 2 \<le> length (link_deltas g) \<and> length (link_deltas g) \<le> 3"
  let ?vs = "[Atom (Num WIRE_VERSION), Atom (Str (link_did g)), sexpr.List (map (\<lambda>d. Atom (Str (mb_encode d))) (link_deltas g))]"
  have "keyword_fields (grant_to_sexpr g) ''grant'' [''v'', ''did'', ''deltas''] = Some ?vs"
    by (simp add: keyword_fields_Some_iff grant_to_sexpr_def)
  moreover have "try_map grant_delta (map (\<lambda>d. Atom (Str (mb_encode d))) (link_deltas g)) = Inr (link_deltas g)"
    by (simp add: grant_deltas_Inr_iff)
  ultimately show "parse_link_grant B bytes = Inr g"
    using m by (simp add: parse_link_grant_def message_of_def field_num_def field_text_def text_of_def num_of_def)
qed

text \<open>What \<open>sign_offer\<close> builds is what the recogniser accepts, once the carrier delivers it.\<close>

lemma signed_link_offer_ok:
  assumes "ed_law C sk" "0 \<le> sint e"
  shows "link_offer_ok C B (sign_offer C B app sk d e)"
proof -
  let ?f = "sign_offer C B app sk d e"
  have "list_all is_scalar (take 64 (str_chars d))" using str_chars_scalar [of d] by (auto simp: list_all_iff dest: in_set_takeD)
  then have "length (str_chars (device_description ?f)) \<le> 64"
    by (simp add: sign_offer_def Let_def MAX_DEVICE_DESCRIPTION_CHARS_def)
  moreover have "offer_signature ?f = ed_sign C sk (offer_signing_bytes B ?f)"
    by (simp add: sign_offer_def Let_def offer_signing_bytes_def to_sexpr_unsigned_def offer_items_def)
  moreover have "device_key ?f = ed_public C sk" "offer_application ?f = app" "offer_purpose ?f = app_purpose app" "expiry ?f = e"
    by (simp_all add: sign_offer_def Let_def)
  ultimately show ?thesis
    using ed_lawD [OF assms(1)] assms(2) unfolding link_offer_ok_def by metis
qed

section \<open>Properties\<close>

text \<open>
  C26. Offer recognition is exact. The recogniser returns an offer exactly when the carrier delivers the
  CBCL form of that very offer, within the size and depth bounds and the declared shape, with a
  description of at most 64 characters, a non-negative expiry and a signature by the key it names;
  so the fields come in the declared order and one spelling. What \<open>Offer::sign\<close> builds is such an offer.
\<close>

theorem offer_recognition_exact:
  assumes "ed_law C sk" "0 \<le> sint e"
  shows "(parse_offer C B bytes = Inr f \<longleftrightarrow>
      valid_utf8 bytes \<and> within_resource_bounds bytes \<and> cbcl_parse B bytes = Some (offer_to_sexpr f)
      \<and> check_shape B OFFER_SHAPE (offer_to_sexpr f) \<and> link_offer_ok C B f)
    \<and> (message_of B OFFER_SHAPE bytes (offer_to_sexpr (sign_offer C B app sk d e)) \<longrightarrow>
      parse_offer C B bytes = Inr (sign_offer C B app sk d e))"
  using parse_offer_exact signed_link_offer_ok [OF assms, of B app d] unfolding message_of_def by blast

lemma offer_recognition_exact_witness:
  "\<exists>m f. parse_offer sample_core_externs (sample_cbcl m) [] = Inr f \<and> expiry f = 300 \<and> device_description f = ''d''"
proof -
  define f where "f = sign_offer sample_core_externs (sample_cbcl (Atom (Bool True))) CbclChat (replicate 32 CHR ''k'') ''d'' 300"
  have f: "f = sign_offer sample_core_externs (sample_cbcl m) CbclChat (replicate 32 CHR ''k'') ''d'' 300" for m
    by (simp add: f_def sign_offer_def Let_def offer_signing_bytes_def sample_cbcl_def)
  have "message_of (sample_cbcl (offer_to_sexpr f)) OFFER_SHAPE [] (offer_to_sexpr f)"
    by (simp add: message_of_def sample_cbcl_def within_resource_bounds_def check_shape_def)
  moreover have "0 \<le> sint (300 :: 64 word)" by simp
  ultimately have "parse_offer sample_core_externs (sample_cbcl (offer_to_sexpr f)) [] = Inr f"
    using offer_recognition_exact [OF sample_ed_law] f [of "offer_to_sexpr f"] by metis
  moreover have "''d'' = encode_utf8 100" by code_simp
  then have "str_chars ''d'' = [100]" using str_chars_encode_all [of "[100]"] by (simp add: is_scalar_def)
  then have "expiry f = 300 \<and> device_description f = ''d''"
    using \<open>''d'' = encode_utf8 100\<close> by (simp add: f_def sign_offer_def Let_def MAX_DEVICE_DESCRIPTION_CHARS_def)
  ultimately show ?thesis by blast
qed

end
