(* ===== verification/Link_Accept.thy ===== *)
theory Link_Accept
  imports Signer_Profile Link_Record Fingerprint
begin

text \<open>
  \<open>crates/selfsame-core/src/accept.rs\<close>: the acceptance predicate of the linking ceremony. It is a
  function of the sealed octets, of what the client holds, and of the time. The theory states its
  post-conditions as one specification and shows the function to compute exactly that.
\<close>

section \<open>Definitions\<close>

record link_context =
  ctx_secret :: octets
  ctx_offer :: offer

definition own_key :: "link_context \<Rightarrow> octets" where "own_key ctx = device_key (ctx_offer ctx)"
definition deadline :: "link_context \<Rightarrow> 64 word" where "deadline ctx = expiry (ctx_offer ctx)"

record accepted_identity =
  ai_did :: rust_str
  ai_fingerprint :: fingerprint
  ai_root_public_key :: octets
  ai_own_method_id :: rust_str
  ai_deltas :: "octets list"
  ai_device_labels :: "rust_str \<rightharpoonup> rust_str"
  ai_declared_profile :: "rust_str option"
  ai_dropped :: "rust_str list"

datatype reject_reason =
  TranscriptMismatch | OfferExpired | DidMismatch | ForeignSignerReject | OwnKeyNotAuthorised | UnrecognisedBundle

text \<open>The loop over the parentless deltas; \<open>found\<close> is the variable of the source.\<close>

fun genesis_loop :: "octets option \<Rightarrow> signed_delta list \<Rightarrow> octets option" where
  "genesis_loop found [] = found"
| "genesis_loop found (d # ds) =
     (if delta_parents d \<noteq> [] then genesis_loop found ds
      else (case delta_op_of d of
          AddVerificationMethod _ key_text _ _ \<Rightarrow>
            (case mb_decode_exact 32 key_text of
               Inl _ \<Rightarrow> None
             | Inr key \<Rightarrow> if found \<noteq> None then None else genesis_loop (Some key) ds)
        | _ \<Rightarrow> None))"

definition genesis_root_key :: "signed_delta list \<Rightarrow> octets option" where
  "genesis_root_key deltas = genesis_loop None deltas"

definition reject_of_profile :: "signer_error \<Rightarrow> reject_reason" where
  "reject_of_profile e =
     (case e of
        ForeignSigner \<Rightarrow> ForeignSignerReject | BadDeltaSignature \<Rightarrow> ForeignSignerReject | WrongSuite \<Rightarrow> ForeignSignerReject
      | UnboundNodeId \<Rightarrow> ForeignSignerReject | WrongDid \<Rightarrow> ForeignSignerReject
      | NotExactlyOneGenesis \<Rightarrow> UnrecognisedBundle | UpstreamProfile _ \<Rightarrow> UnrecognisedBundle)"

definition find_own_method :: "resolved_document \<Rightarrow> rust_str \<Rightarrow> rust_str option" where
  "find_own_method resolved own_multibase =
     map_option vm_id (find (\<lambda>m. vm_multibase m = Some own_multibase) (vms resolved))"

text \<open>The partition of the document data: labels, the declared profile, and what is dropped.\<close>

record data_partition =
  dp_labels :: "rust_str \<rightharpoonup> rust_str"
  dp_profile :: "rust_str option"
  dp_dropped :: "rust_str list"

definition partition_step :: "rust_str list \<Rightarrow> data_partition \<Rightarrow> rust_str \<times> rust_str option \<Rightarrow> data_partition" where
  "partition_step method_ids p kv =
     (let (k, v) = kv in
      if k = PROFILE_KEY then p\<lparr>dp_profile := v\<rparr>
      else if List.member method_ids k then
        (case v of
           Some label \<Rightarrow> p\<lparr>dp_labels := (dp_labels p)(k \<mapsto> label)\<rparr>
         | None \<Rightarrow> p\<lparr>dp_dropped := dp_dropped p @ [k]\<rparr>)
      else p\<lparr>dp_dropped := dp_dropped p @ [k]\<rparr>)"

definition partition_data :: "rust_str list \<Rightarrow> (rust_str \<times> rust_str option) list \<Rightarrow> data_partition" where
  "partition_data method_ids extra =
     foldl (partition_step method_ids) \<lparr>dp_labels = Map.empty, dp_profile = None, dp_dropped = []\<rparr> extra"

definition link_accept ::
  "core_externs \<Rightarrow> cbcl_externs \<Rightarrow> 'doc did_crdt \<Rightarrow> octets \<Rightarrow> link_context \<Rightarrow> 64 word \<Rightarrow> reject_reason + accepted_identity" where
  "link_accept C B D sealed ctx now =
     (if length sealed > MAX_SEALED_BYTES then Inl UnrecognisedBundle
      else and_then (map_err (\<lambda>_. TranscriptMismatch)
        (open_sealed_bundle C (derive_key C (ctx_secret ctx)) sealed (offer_transcript C B (ctx_offer ctx)))) (\<lambda>grant_bytes.
      if now > deadline ctx then Inl OfferExpired
      else and_then (map_err (\<lambda>_. UnrecognisedBundle) (parse_link_grant B grant_bytes)) (\<lambda>g.
      and_then (try_map (\<lambda>bs. ok_or UnrecognisedBundle (delta_from_json D bs)) (link_deltas g)) (\<lambda>deltas.
      and_then (ok_or UnrecognisedBundle (genesis_root_key deltas)) (\<lambda>root.
      and_then (map_err (\<lambda>_. UnrecognisedBundle) (derive_did D root)) (\<lambda>derived.
      if derived \<noteq> link_did g then Inl DidMismatch
      else and_then (map_err reject_of_profile (resolve_closure C D deltas root)) (\<lambda>doc.
      and_then (map_err (\<lambda>_. UnrecognisedBundle) (doc_resolve D doc)) (\<lambda>r.
      and_then (ok_or UnrecognisedBundle r) (\<lambda>resolved.
      and_then (ok_or OwnKeyNotAuthorised (find_own_method resolved (mb_encode (own_key ctx)))) (\<lambda>own_method_id.
        let p = partition_data (map vm_id (vms resolved)) (doc_extra resolved) in
        Inr \<lparr>ai_did = link_did g, ai_fingerprint = fingerprint_did C (link_did g), ai_root_public_key = root,
             ai_own_method_id = own_method_id, ai_deltas = link_deltas g, ai_device_labels = dp_labels p,
             ai_declared_profile = dp_profile p, ai_dropped = dp_dropped p\<rparr>))))))))))"

section \<open>The genesis of a closure\<close>

definition genesis_key_of :: "signed_delta \<Rightarrow> octets \<Rightarrow> bool" where
  "genesis_key_of d key \<longleftrightarrow>
     (\<exists>i s r. delta_op_of d = AddVerificationMethod i (mb_encode key) s r) \<and> length key = 32"

lemma genesis_loop_Some:
  "genesis_loop f ds = Some key \<longleftrightarrow>
     (let gs = filter (\<lambda>d. delta_parents d = []) ds in
      (gs = [] \<and> f = Some key) \<or> (f = None \<and> (\<exists>g. gs = [g] \<and> genesis_key_of g key)))"
proof (induction ds arbitrary: f)
  case (Cons d ds)
  show ?case
  proof (cases "delta_parents d = []")
    case True
    show ?thesis
    proof (cases "\<exists>k. genesis_key_of d k")
      case True
      then obtain k where k: "genesis_key_of d k" ..
      then obtain i s r where op: "delta_op_of d = AddVerificationMethod i (mb_encode k) s r" "length k = 32"
        by (auto simp: genesis_key_of_def)
      then have "mb_decode_exact 32 (mb_encode k) = Inr k" using multibase_exact.dec_enc by blast
      moreover have "genesis_key_of d k' \<longleftrightarrow> k' = k" for k'
        using op multibase.enc_inject by (auto simp: genesis_key_of_def)
      ultimately show ?thesis using Cons.IH [of "Some k"] \<open>delta_parents d = []\<close> op by (auto simp: Let_def)
    next
      case False
      then have "genesis_loop f (d # ds) = None"
        using \<open>delta_parents d = []\<close> multibase_exact.dec_Inr_iff [of 32]
        by (auto simp: genesis_key_of_def split: delta_op.splits sum.splits)
      then show ?thesis using False \<open>delta_parents d = []\<close> by (auto simp: Let_def)
    qed
  next
    case False
    then show ?thesis using Cons.IH by simp
  qed
qed (auto simp: Let_def)

lemma genesis_root_key_Some:
  "genesis_root_key ds = Some key \<longleftrightarrow> (\<exists>g. filter (\<lambda>d. delta_parents d = []) ds = [g] \<and> genesis_key_of g key)"
  by (auto simp: genesis_root_key_def genesis_loop_Some Let_def)

section \<open>The partition of the document data\<close>

text \<open>
  Every key of the document data is the profile, a labelled method, or dropped; nothing else of the
  data reaches the result.
\<close>

lemma partition_data_snoc:
  "partition_data ms (kvs @ [kv]) = partition_step ms (partition_data ms kvs) kv"
  by (simp add: partition_data_def)

lemma partition_labels: "dp_labels (partition_data ms kvs) k = Some l \<Longrightarrow> k \<in> set ms \<and> (k, Some l) \<in> set kvs \<and> k \<noteq> PROFILE_KEY"
  by (induction kvs rule: rev_induct)
     (auto simp: partition_data_snoc partition_step_def List.member_iff partition_data_def [of ms "[]"]
        split: if_splits option.splits prod.splits)

lemma partition_dropped:
  "set (dp_dropped (partition_data ms kvs)) = {k. \<exists>v. (k, v) \<in> set kvs \<and> k \<noteq> PROFILE_KEY \<and> (k \<in> set ms \<longrightarrow> v = None)}"
  by (induction kvs rule: rev_induct)
     (auto simp: partition_data_snoc partition_step_def List.member_iff partition_data_def [of ms "[]"]
        split: if_splits option.splits prod.splits)

lemma partition_profile: "dp_profile (partition_data ms kvs) = Some v \<Longrightarrow> (PROFILE_KEY, Some v) \<in> set kvs"
  by (induction kvs rule: rev_induct)
     (auto simp: partition_data_snoc partition_step_def List.member_iff partition_data_def [of ms "[]"]
        split: if_splits option.splits prod.splits)

section \<open>The post-conditions\<close>

text \<open>
  What the table at the head of the file names: the octets are a reply to this offer, in time; the
  grant's DID commits to the one genesis key of the closure; the closure resolves under the profile;
  the resolved document authorises this client's key.
\<close>

definition transcript_ok :: "core_externs \<Rightarrow> cbcl_externs \<Rightarrow> octets \<Rightarrow> link_context \<Rightarrow> link_grant \<Rightarrow> bool" where
  "transcript_ok C B sealed ctx g \<longleftrightarrow>
     length sealed \<le> 4096 \<and>
     (\<exists>plain. aead_open C (derive_key C (ctx_secret ctx)) (role_nonce BundleSlot)
        (bundle_ad (offer_transcript C B (ctx_offer ctx))) sealed = Some plain \<and> parse_link_grant B plain = Inr g)"

definition closure_ok :: "core_externs \<Rightarrow> 'doc did_crdt \<Rightarrow> link_grant \<Rightarrow> octets \<Rightarrow> resolved_document \<Rightarrow> bool" where
  "closure_ok C D g root resolved \<longleftrightarrow>
     (\<exists>deltas doc. map (delta_from_json D) (link_deltas g) = map Some deltas \<and> genesis_root_key deltas = Some root
        \<and> derive_did D root = Inr (link_did g) \<and> resolve_closure C D deltas root = Inr doc
        \<and> doc_resolve D doc = Inr (Some resolved))"

definition accepted_ok ::
  "core_externs \<Rightarrow> cbcl_externs \<Rightarrow> 'doc did_crdt \<Rightarrow> octets \<Rightarrow> link_context \<Rightarrow> 64 word \<Rightarrow> accepted_identity \<Rightarrow> bool" where
  "accepted_ok C B D sealed ctx now A \<longleftrightarrow>
     (\<exists>g resolved. transcript_ok C B sealed ctx g \<and> now \<le> expiry (ctx_offer ctx)
        \<and> closure_ok C D g (ai_root_public_key A) resolved
        \<and> find_own_method resolved (mb_encode (device_key (ctx_offer ctx))) = Some (ai_own_method_id A)
        \<and> ai_did A = link_did g \<and> ai_deltas A = link_deltas g \<and> ai_fingerprint A = fingerprint_did C (link_did g)
        \<and> (let p = partition_data (map vm_id (vms resolved)) (doc_extra resolved)
           in ai_device_labels A = dp_labels p \<and> ai_declared_profile A = dp_profile p \<and> ai_dropped A = dp_dropped p))"

lemma deltas_from_json:
  "try_map (\<lambda>bs. ok_or e (delta_from_json D bs)) bss = Inr ds \<longleftrightarrow> map (delta_from_json D) bss = map Some ds"
  unfolding try_map_Inr_iff ok_or_Inr_iff by (induction bss arbitrary: ds) (auto simp: list_all2_Cons1 Cons_eq_map_conv)

lemma link_accept_exact: "link_accept C B D sealed ctx now = Inr A \<longleftrightarrow> accepted_ok C B D sealed ctx now A"
proof
  assume "link_accept C B D sealed ctx now = Inr A"
  then obtain plain g deltas root derived doc r resolved own where a:
    "length sealed \<le> 4096"
    "aead_open C (derive_key C (ctx_secret ctx)) (role_nonce BundleSlot) (bundle_ad (offer_transcript C B (ctx_offer ctx))) sealed = Some plain"
    "now \<le> deadline ctx" "parse_link_grant B plain = Inr g" "map (delta_from_json D) (link_deltas g) = map Some deltas"
    "genesis_root_key deltas = Some root" "derive_did D root = Inr derived" "derived = link_did g"
    "resolve_closure C D deltas root = Inr doc" "doc_resolve D doc = Inr r" "r = Some resolved"
    "find_own_method resolved (mb_encode (own_key ctx)) = Some own"
    "\<lparr>ai_did = link_did g, ai_fingerprint = fingerprint_did C (link_did g), ai_root_public_key = root,
       ai_own_method_id = own, ai_deltas = link_deltas g,
       ai_device_labels = dp_labels (partition_data (map vm_id (vms resolved)) (doc_extra resolved)),
       ai_declared_profile = dp_profile (partition_data (map vm_id (vms resolved)) (doc_extra resolved)),
       ai_dropped = dp_dropped (partition_data (map vm_id (vms resolved)) (doc_extra resolved))\<rparr> = A"
    unfolding link_accept_def Let_def and_then_Inr_iff if_Inl_Inr_iff not_not map_err_Inr_iff ok_or_Inr_iff not_less
      open_sealed_bundle_def deltas_from_json MAX_SEALED_BYTES_def sum.inject by (elim exE conjE) (rule that)
  have "transcript_ok C B sealed ctx g" unfolding transcript_ok_def using a(1,2,4) by blast
  moreover have "closure_ok C D g root resolved" unfolding closure_ok_def using a(5-11) by blast
  ultimately show "accepted_ok C B D sealed ctx now A"
    unfolding accepted_ok_def a(13) [symmetric] using a(3,12)
    by (intro exI [of _ g] exI [of _ resolved]) (simp add: deadline_def own_key_def Let_def)
next
  assume "accepted_ok C B D sealed ctx now A"
  then obtain g resolved where t0: "transcript_ok C B sealed ctx g" and n0: "now \<le> expiry (ctx_offer ctx)" and
    c0: "closure_ok C D g (ai_root_public_key A) resolved" and
    o0: "find_own_method resolved (mb_encode (device_key (ctx_offer ctx))) = Some (ai_own_method_id A)" and
    r: "ai_did A = link_did g" "ai_deltas A = link_deltas g" "ai_fingerprint A = fingerprint_did C (link_did g)"
      "ai_device_labels A = dp_labels (partition_data (map vm_id (vms resolved)) (doc_extra resolved))"
      "ai_declared_profile A = dp_profile (partition_data (map vm_id (vms resolved)) (doc_extra resolved))"
      "ai_dropped A = dp_dropped (partition_data (map vm_id (vms resolved)) (doc_extra resolved))"
    unfolding accepted_ok_def Let_def by blast
  from t0 obtain plain where
    t: "length sealed \<le> 4096" "aead_open C (derive_key C (ctx_secret ctx)) (role_nonce BundleSlot)
        (bundle_ad (offer_transcript C B (ctx_offer ctx))) sealed = Some plain" "parse_link_grant B plain = Inr g"
    unfolding transcript_ok_def by blast
  from c0 obtain deltas doc where
    c: "map (delta_from_json D) (link_deltas g) = map Some deltas" "genesis_root_key deltas = Some (ai_root_public_key A)"
      "derive_did D (ai_root_public_key A) = Inr (link_did g)" "resolve_closure C D deltas (ai_root_public_key A) = Inr doc"
      "doc_resolve D doc = Inr (Some resolved)"
    unfolding closure_ok_def by blast
  have n: "\<not> now > deadline ctx" using n0 by (simp add: deadline_def not_less)
  have o: "find_own_method resolved (mb_encode (own_key ctx)) = Some (ai_own_method_id A)" using o0 by (simp add: own_key_def)
  have d: "try_map (\<lambda>bs. ok_or UnrecognisedBundle (delta_from_json D bs)) (link_deltas g) = Inr deltas"
    using c(1) by (simp add: deltas_from_json)
  let ?p = "partition_data (map vm_id (vms resolved)) (doc_extra resolved)"
  have A: "\<lparr>ai_did = link_did g, ai_fingerprint = fingerprint_did C (link_did g), ai_root_public_key = ai_root_public_key A,
       ai_own_method_id = ai_own_method_id A, ai_deltas = link_deltas g, ai_device_labels = dp_labels ?p,
       ai_declared_profile = dp_profile ?p, ai_dropped = dp_dropped ?p\<rparr> = A"
    using r by (cases A) simp
  have "link_accept C B D sealed ctx now = Inr \<lparr>ai_did = link_did g, ai_fingerprint = fingerprint_did C (link_did g),
       ai_root_public_key = ai_root_public_key A, ai_own_method_id = ai_own_method_id A, ai_deltas = link_deltas g,
       ai_device_labels = dp_labels ?p, ai_declared_profile = dp_profile ?p, ai_dropped = dp_dropped ?p\<rparr>"
    using t n c(2-5) o by (simp add: link_accept_def open_sealed_bundle_def MAX_SEALED_BYTES_def d Let_def)
  then show "link_accept C B D sealed ctx now = Inr A" unfolding A .
qed

section \<open>A closure to evaluate\<close>

definition sample_link_did :: rust_str where
  "sample_link_did = ''did:crdt:'' @ replicate 64 CHR ''a''"

definition sample_root_key :: octets where "sample_root_key = replicate 32 CHR ''r''"
definition sample_device :: octets where "sample_device = replicate 32 CHR ''d''"

definition sample_signed_delta :: "octets list \<Rightarrow> rust_str \<Rightarrow> octets \<Rightarrow> signed_delta" where
  "sample_signed_delta parents fragment key =
     \<lparr>delta_did = sample_link_did,
      delta_op_of = AddVerificationMethod (sample_link_did @ fragment) (mb_encode key) Ed25519Signature2020 [Authentication],
      delta_time = \<lparr>wall_ms = 0, logical = 0, node_id = []\<rparr>, delta_parents = parents,
      proof_method = root_method_id sample_link_did, proof_suite = Ed25519Signature2020,
      proof_value = mb_encode (zero_pad 64 sample_root_key)\<rparr>"

definition sample_genesis :: signed_delta where "sample_genesis = sample_signed_delta [] ''#key-0'' sample_root_key"
definition sample_addition :: signed_delta where "sample_addition = sample_signed_delta [[CHR 0x00]] ''#dev-1'' sample_device"

definition sample_resolved :: resolved_document where
  "sample_resolved =
     \<lparr>vms = [\<lparr>vm_id = sample_link_did @ ''#dev-1'', vm_type = ''Ed25519VerificationKey2020'', vm_multibase = Some (mb_encode sample_device)\<rparr>],
      assertion_refs = [],
      doc_extra = [(PROFILE_KEY, Some PROFILE_VALUE), (sample_link_did @ ''#dev-1'', Some ''laptop''), (''capability'', Some ''admin'')]\<rparr>"

definition sample_did_crdt :: "signed_delta list did_crdt" where
  "sample_did_crdt =
     \<lparr>document_new = (\<lambda>k. Inr ([], sample_genesis)), doc_did = (\<lambda>doc. sample_link_did), doc_frontier = (\<lambda>doc. [[CHR 0x00]]),
      doc_merge = (\<lambda>doc d. (doc @ [d], None)), doc_merge_verified = (\<lambda>doc d. (doc @ [d], None)),
      doc_resolve = (\<lambda>doc. Inr (Some sample_resolved)),
      content_hash = (\<lambda>d. Inr (if delta_parents d = [] then [CHR 0x00] else [CHR 0x01])),
      delta_signing_input = (\<lambda>d. Inr []),
      new_genesis = (\<lambda>did op t m sk. Inr sample_genesis), new_with_parents = (\<lambda>did op t ps m sk. Inr sample_addition),
      node_id_from_pubkey = (\<lambda>k. []), default_relationships = [Authentication],
      hlc_default = \<lparr>wall_ms = 0, logical = 0, node_id = []\<rparr>,
      delta_from_json = (\<lambda>bs. if bs = [CHR 0x01] then Some sample_genesis else if bs = [CHR 0x02] then Some sample_addition else None)\<rparr>"

definition sample_link_grant :: link_grant where
  "sample_link_grant = \<lparr>link_did = sample_link_did, link_deltas = [[CHR 0x01], [CHR 0x02]]\<rparr>"

definition sample_context :: link_context where
  "sample_context =
     \<lparr>ctx_secret = zero_pad 16 [],
      ctx_offer = \<lparr>offer_application = CbclChat, offer_purpose = app_purpose CbclChat, device_key = sample_device,
        device_description = [], expiry = 1000, offer_signature = zero_pad 64 []\<rparr>\<rparr>"

lemma sample_transcript_ok: "transcript_ok sample_core_externs (sample_cbcl (grant_to_sexpr sample_link_grant)) [] sample_context sample_link_grant"
proof -
  have "strip_prefix ''did:crdt:'' sample_link_did = Some (replicate 64 CHR ''a'')"
    unfolding sample_link_did_def by (rule strip_prefix_append)
  then have "is_well_formed_did sample_link_did" by (simp add: is_well_formed_did_def list_all_iff is_lower_hex_def)
  then have "parse_link_grant (sample_cbcl (grant_to_sexpr sample_link_grant)) [] = Inr sample_link_grant"
    unfolding parse_link_grant_exact message_of_def
    by (simp add: sample_cbcl_def within_resource_bounds_def check_shape_def sample_link_grant_def)
  then show ?thesis unfolding transcript_ok_def by (simp add: sample_core_externs_def)
qed

lemma sample_root_signed:
  "root_signed sample_core_externs sample_did_crdt sample_link_did sample_root_key sample_genesis"
  "root_signed sample_core_externs sample_did_crdt sample_link_did sample_root_key sample_addition"
  unfolding root_signed_def sample_genesis_def sample_addition_def sample_signed_delta_def
  by (simp_all add: sample_core_externs_def sample_did_crdt_def)

lemma sample_closure_ok: "closure_ok sample_core_externs sample_did_crdt sample_link_grant sample_root_key sample_resolved"
proof -
  let ?ds = "[sample_genesis, sample_addition]"
  have p: "delta_parents sample_genesis = []" "delta_parents sample_addition \<noteq> []"
    by (simp_all add: sample_genesis_def sample_addition_def sample_signed_delta_def)
  have "genesis_key_of sample_genesis sample_root_key"
    by (simp add: genesis_key_of_def sample_genesis_def sample_signed_delta_def sample_root_key_def)
  then have "genesis_root_key ?ds = Some sample_root_key" unfolding genesis_root_key_Some using p by simp
  moreover have "check_closure sample_core_externs sample_did_crdt sample_link_did sample_root_key [CHR 0x00] 0 ?ds = Inr 1"
    unfolding check_closure_Inr_iff using sample_root_signed p by (simp add: sample_did_crdt_def)
  moreover have "merge_pending sample_did_crdt [] [sample_addition] = Inr [sample_addition]"
    by (subst merge_pending.simps, simp add: sample_did_crdt_def, subst merge_pending.simps, simp)
  ultimately show ?thesis
    unfolding closure_ok_def resolve_closure_def bootstrap_def
    by (intro exI [of _ ?ds] exI [of _ "[sample_addition]"])
       (simp add: sample_link_grant_def sample_did_crdt_def derive_did_def bootstrap_def p)
qed

lemma sample_link_accepted: "is_ok (link_accept sample_core_externs (sample_cbcl (grant_to_sexpr sample_link_grant)) sample_did_crdt [] sample_context 1000)"
proof -
  let ?p = "partition_data (map vm_id (vms sample_resolved)) (doc_extra sample_resolved)"
  have "find_own_method sample_resolved (mb_encode (device_key (ctx_offer sample_context))) = Some (sample_link_did @ ''#dev-1'')"
    by (simp add: find_own_method_def sample_resolved_def sample_context_def)
  then have "accepted_ok sample_core_externs (sample_cbcl (grant_to_sexpr sample_link_grant)) sample_did_crdt [] sample_context 1000
    \<lparr>ai_did = sample_link_did, ai_fingerprint = fingerprint_did sample_core_externs sample_link_did, ai_root_public_key = sample_root_key,
     ai_own_method_id = sample_link_did @ ''#dev-1'', ai_deltas = link_deltas sample_link_grant,
     ai_device_labels = dp_labels ?p, ai_declared_profile = dp_profile ?p, ai_dropped = dp_dropped ?p\<rparr>"
    unfolding accepted_ok_def Let_def
    using sample_transcript_ok sample_closure_ok
    by (intro exI [of _ sample_link_grant] exI [of _ sample_resolved]) (simp add: sample_context_def sample_link_grant_def)
  then have "link_accept sample_core_externs (sample_cbcl (grant_to_sexpr sample_link_grant)) sample_did_crdt [] sample_context 1000 = Inr
    \<lparr>ai_did = sample_link_did, ai_fingerprint = fingerprint_did sample_core_externs sample_link_did, ai_root_public_key = sample_root_key,
     ai_own_method_id = sample_link_did @ ''#dev-1'', ai_deltas = link_deltas sample_link_grant,
     ai_device_labels = dp_labels ?p, ai_declared_profile = dp_profile ?p, ai_dropped = dp_dropped ?p\<rparr>"
    by (simp only: link_accept_exact)
  then show ?thesis by simp
qed

section \<open>Properties\<close>

text \<open>
  C27. A device that accepts a bundle has received a reply to its own offer, before the offer's
  expiry; the identity it joins is the one the closure's genesis key derives; every delta it keeps is
  signed by that key under the identity's root method; the document they resolve to authorises the
  device's own key under the method it records; and no document data outside the labels of authorised
  methods becomes a label.
\<close>

theorem linked_identity_bound:
  assumes "link_accept C B D sealed ctx now = Inr A"
  shows "now \<le> expiry (ctx_offer ctx)
    \<and> (\<exists>plain. open_sealed_bundle C (derive_key C (ctx_secret ctx)) sealed (offer_transcript C B (ctx_offer ctx)) = Inr plain
        \<and> parse_link_grant B plain = Inr \<lparr>link_did = ai_did A, link_deltas = ai_deltas A\<rparr>)
    \<and> derive_did D (ai_root_public_key A) = Inr (ai_did A)
    \<and> list_all (\<lambda>bs. case delta_from_json D bs of None \<Rightarrow> False
        | Some d \<Rightarrow> root_signed C D (ai_did A) (ai_root_public_key A) d) (ai_deltas A)
    \<and> (\<exists>doc0 order doc resolved m.
        doc_did D doc0 = ai_did A \<and> merged D doc0 order doc
        \<and> set order = {d. Some d \<in> delta_from_json D ` set (ai_deltas A) \<and> delta_parents d \<noteq> []}
        \<and> doc_resolve D doc = Inr (Some resolved) \<and> m \<in> set (vms resolved) \<and> vm_id m = ai_own_method_id A
        \<and> vm_multibase m = Some (mb_encode (device_key (ctx_offer ctx)))
        \<and> dom (ai_device_labels A) \<subseteq> vm_id ` set (vms resolved) - {PROFILE_KEY})"
proof -
  from assms [unfolded link_accept_exact accepted_ok_def Let_def] obtain g resolved where
    t: "transcript_ok C B sealed ctx g" and n: "now \<le> expiry (ctx_offer ctx)" and
    c: "closure_ok C D g (ai_root_public_key A) resolved" and
    o: "find_own_method resolved (mb_encode (device_key (ctx_offer ctx))) = Some (ai_own_method_id A)" and
    r: "ai_did A = link_did g" "ai_deltas A = link_deltas g"
      "ai_device_labels A = dp_labels (partition_data (map vm_id (vms resolved)) (doc_extra resolved))"
    by blast
  have g: "g = \<lparr>link_did = ai_did A, link_deltas = ai_deltas A\<rparr>" using r by simp
  from c obtain deltas doc where d: "map (delta_from_json D) (ai_deltas A) = map Some deltas"
    "derive_did D (ai_root_public_key A) = Inr (ai_did A)" "resolve_closure C D deltas (ai_root_public_key A) = Inr doc"
    "doc_resolve D doc = Inr (Some resolved)"
    unfolding closure_ok_def r by blast
  from d(3) obtain doc0 genesis order where
    s: "document_new D (mb_encode (ai_root_public_key A)) = Inr (doc0, genesis)"
      "\<forall>x \<in> set deltas. root_signed C D (doc_did D doc0) (ai_root_public_key A) x"
      "merged D doc0 order doc" "set order = {x \<in> set deltas. delta_parents x \<noteq> []}"
    by (elim resolve_closure_sound) blast
  have did: "doc_did D doc0 = ai_did A" using d(2) s(1) by (simp add: derive_did_Inr_iff)
  have json: "Some ` set deltas = delta_from_json D ` set (ai_deltas A)" using arg_cong [OF d(1), of set] by simp
  have "list_all (\<lambda>bs. case delta_from_json D bs of None \<Rightarrow> False
      | Some x \<Rightarrow> root_signed C D (ai_did A) (ai_root_public_key A) x) (ai_deltas A)"
    unfolding list_all_iff
  proof
    fix bs assume "bs \<in> set (ai_deltas A)"
    then obtain x where "x \<in> set deltas" "delta_from_json D bs = Some x" using json by (metis imageE imageI)
    then show "case delta_from_json D bs of None \<Rightarrow> False | Some x \<Rightarrow> root_signed C D (ai_did A) (ai_root_public_key A) x"
      using s(2) by (simp add: did)
  qed
  moreover have "set order = {x. Some x \<in> delta_from_json D ` set (ai_deltas A) \<and> delta_parents x \<noteq> []}"
    unfolding s(4) json [symmetric] by auto
  moreover obtain m where "m \<in> set (vms resolved)" "vm_id m = ai_own_method_id A"
      "vm_multibase m = Some (mb_encode (device_key (ctx_offer ctx)))"
    using o by (auto simp: find_own_method_def find_Some_iff intro: nth_mem)
  moreover have "dom (ai_device_labels A) \<subseteq> vm_id ` set (vms resolved) - {PROFILE_KEY}"
    unfolding r(3) by (auto dest!: partition_labels)
  moreover have "\<exists>plain. open_sealed_bundle C (derive_key C (ctx_secret ctx)) sealed (offer_transcript C B (ctx_offer ctx)) = Inr plain
        \<and> parse_link_grant B plain = Inr \<lparr>link_did = ai_did A, link_deltas = ai_deltas A\<rparr>"
    using t unfolding transcript_ok_def open_sealed_bundle_def ok_or_Inr_iff g [symmetric] by blast
  ultimately show ?thesis using n d(2,4) did s(3) by blast
qed

lemma linked_identity_bound_witness:
  "\<exists>A. link_accept sample_core_externs (sample_cbcl (grant_to_sexpr sample_link_grant)) sample_did_crdt [] sample_context 1000 = Inr A
     \<and> derive_did sample_did_crdt (ai_root_public_key A) = Inr (ai_did A)"
proof -
  obtain A where A: "link_accept sample_core_externs (sample_cbcl (grant_to_sexpr sample_link_grant)) sample_did_crdt [] sample_context 1000 = Inr A"
    using sample_link_accepted by (auto simp: not_isl_iff)
  with linked_identity_bound [OF A] show ?thesis by blast
qed

end
