(* ===== verification/Text_Std.thy ===== *)
theory Text_Std
  imports Utf8
begin

text \<open>
  The character-level part of \<open>str\<close> that the linking crate calls: Unicode white space
  (\<open>char::is_whitespace\<close>), \<open>trim\<close>, \<open>split_whitespace\<close>, and ASCII case folding.
\<close>

definition is_whitespace :: "nat \<Rightarrow> bool" where
  "is_whitespace n \<longleftrightarrow>
     (9 \<le> n \<and> n \<le> 13) \<or> n = 0x20 \<or> n = 0x85 \<or> n = 0xA0 \<or> n = 0x1680 \<or> (0x2000 \<le> n \<and> n \<le> 0x200A)
     \<or> n = 0x2028 \<or> n = 0x2029 \<or> n = 0x202F \<or> n = 0x205F \<or> n = 0x3000"

definition trim_chars :: "nat list \<Rightarrow> nat list" where
  "trim_chars ns = rev (dropWhile is_whitespace (rev (dropWhile is_whitespace ns)))"

definition str_trim :: "rust_str \<Rightarrow> rust_str" where
  "str_trim s = encode_all (trim_chars (str_chars s))"

text \<open>Pieces between white space, the empty ones left out.\<close>

fun split_chars :: "nat list \<Rightarrow> nat list \<Rightarrow> nat list list" where
  "split_chars acc [] = (if acc = [] then [] else [rev acc])"
| "split_chars acc (n # ns) =
     (if is_whitespace n then (if acc = [] then split_chars [] ns else rev acc # split_chars [] ns)
      else split_chars (n # acc) ns)"

definition split_whitespace :: "rust_str \<Rightarrow> rust_str list" where
  "split_whitespace s = map encode_all (split_chars [] (str_chars s))"

definition ascii_lower :: "octet \<Rightarrow> octet" where
  "ascii_lower c = (if is_ascii_uppercase c then char_of (code c + 32) else c)"

definition str_eq_ignore_ascii_case :: "rust_str \<Rightarrow> rust_str \<Rightarrow> bool" where
  "str_eq_ignore_ascii_case s t \<longleftrightarrow> map ascii_lower s = map ascii_lower t"

section \<open>Facts\<close>

lemma dropWhile_hd: "ns = [] \<or> \<not> p (hd ns) \<Longrightarrow> dropWhile p ns = ns"
  by (cases ns) auto

lemma trim_chars_id: "ns = [] \<or> \<not> is_whitespace (hd ns) \<and> \<not> is_whitespace (last ns) \<Longrightarrow> trim_chars ns = ns"
  using dropWhile_hd [of ns is_whitespace] dropWhile_hd [of "rev ns" is_whitespace]
  by (cases "ns = []") (simp_all add: trim_chars_def hd_rev)

text \<open>A text of ASCII letters and digits is its own trimming.\<close>

lemma str_trim_alnum: "list_all is_ascii_alphanumeric s \<Longrightarrow> str_trim s = s"
proof -
  assume s: "list_all is_ascii_alphanumeric s"
  have ch: "encode_all (map code t) = t \<and> list_all is_scalar (map code t)" if "list_all is_ascii_alphanumeric t" for t
    using that by (induction t) (auto simp: encode_utf8_def is_scalar_def ascii_class_defs)
  then have c: "str_chars s = map code s" using str_chars_encode_all ch [OF s] by metis
  have "\<not> is_whitespace (code x)" if "x \<in> set s" for x
    using s that by (auto simp: list_all_iff is_whitespace_def ascii_class_defs)
  then have "trim_chars (map code s) = map code s"
    by (intro trim_chars_id) (cases s, auto simp: hd_map last_map)
  then show ?thesis using ch [OF s] by (simp add: str_trim_def c)
qed

lemma str_eq_ignore_ascii_case_refl [simp]: "str_eq_ignore_ascii_case s s"
  by (simp add: str_eq_ignore_ascii_case_def)

lemma split_chars_words:
  "list_all (\<lambda>n. \<not> is_whitespace n) acc \<Longrightarrow>
   list_all (\<lambda>w. w \<noteq> [] \<and> list_all (\<lambda>n. \<not> is_whitespace n) w) (split_chars acc ns)"
proof (induction acc ns rule: split_chars.induct)
  case (2 acc n ns)
  show ?case
  proof (cases "is_whitespace n")
    case True
    with 2 show ?thesis by (cases acc) (simp_all add: list_all_rev)
  next
    case False
    with 2 show ?thesis by simp
  qed
qed (simp add: list_all_rev)

end
