(* ===== verification/Link_Code.thy ===== *)
theory Link_Code
  imports Link_Record Text_Std
begin

text \<open>
  \<open>crates/selfsame-core/src/code.rs\<close>: the link code shown by a client and read by the phone. Bech32m
  is a parameter. A recognised code has exactly one payload, and what is rendered is recognised.
\<close>

datatype link_secret = LinkSecret octets

fun secret_bytes :: "link_secret \<Rightarrow> octets" where "secret_bytes (LinkSecret bs) = bs"

definition debug_link_secret :: "link_secret \<Rightarrow> rust_str" where
  "debug_link_secret s = ''LinkSecret(<redacted>)''"

definition HRP :: rust_str where "HRP = ''anuna''"
definition CODE_VERSION :: octet where "CODE_VERSION = char_of (1 :: nat)"
definition PAYLOAD_BYTES :: nat where "PAYLOAD_BYTES = 18"
definition CODE_CHARS :: nat where "CODE_CHARS = 41"

record link_code =
  code_application :: link_application
  code_secret :: link_secret

datatype link_code_error = Malformed | WrongHrp | WrongPayloadLength | UnsupportedCodeVersion | UnknownCodeApplication

definition render_code :: "core_externs \<Rightarrow> link_code \<Rightarrow> rust_str" where
  "render_code C c =
     bech32m_encode C HRP (CODE_VERSION # id_byte (code_application c) # secret_bytes (code_secret c))"

definition parse_code :: "core_externs \<Rightarrow> rust_str \<Rightarrow> link_code_error + link_code" where
  "parse_code C input =
     and_then (ok_or Malformed (bech32m_decode C (str_trim input))) (\<lambda>(hrp, payload).
       if \<not> str_eq_ignore_ascii_case hrp HRP then Inl WrongHrp
       else if length payload \<noteq> PAYLOAD_BYTES then Inl WrongPayloadLength
       else if payload ! 0 \<noteq> CODE_VERSION then Inl UnsupportedCodeVersion
       else and_then (ok_or UnknownCodeApplication (from_id_byte (payload ! 1))) (\<lambda>app.
         Inr \<lparr>code_application = app, code_secret = LinkSecret (drop 2 payload)\<rparr>))"

section \<open>The payload of a recognised code\<close>

lemma from_id_byte_Some: "from_id_byte b = Some a \<longleftrightarrow> b = id_byte a"
  using char_of_eq_iff' [of 1 b] by (cases a) (auto simp: from_id_byte_def id_byte_def)

text \<open>A code is recognised exactly when its payload is the one \<open>render\<close> writes for the result.\<close>

lemma parse_code_exact:
  "parse_code C input = Inr c \<longleftrightarrow>
     length (secret_bytes (code_secret c)) = 16 \<and>
     (\<exists>hrp. str_eq_ignore_ascii_case hrp HRP \<and>
        bech32m_decode C (str_trim input) = Some (hrp, CODE_VERSION # id_byte (code_application c) # secret_bytes (code_secret c)))"
proof
  assume "parse_code C input = Inr c"
  then obtain hrp p where d: "bech32m_decode C (str_trim input) = Some (hrp, p)" "str_eq_ignore_ascii_case hrp HRP"
      "length p = 18" "p ! 0 = CODE_VERSION" "from_id_byte (p ! 1) = Some (code_application c)"
      "code_secret c = LinkSecret (drop 2 p)"
    by (auto simp: parse_code_def res_iff PAYLOAD_BYTES_def split: if_splits)
  then obtain a b r where "p = a # b # r" by (cases p; cases "tl p") auto
  with d show "length (secret_bytes (code_secret c)) = 16 \<and>
     (\<exists>hrp. str_eq_ignore_ascii_case hrp HRP \<and>
        bech32m_decode C (str_trim input) = Some (hrp, CODE_VERSION # id_byte (code_application c) # secret_bytes (code_secret c)))"
    by (auto simp: from_id_byte_Some)
next
  assume "length (secret_bytes (code_secret c)) = 16 \<and>
     (\<exists>hrp. str_eq_ignore_ascii_case hrp HRP \<and>
        bech32m_decode C (str_trim input) = Some (hrp, CODE_VERSION # id_byte (code_application c) # secret_bytes (code_secret c)))"
  then show "parse_code C input = Inr c"
    by (cases c; cases "code_secret c")
       (auto simp: parse_code_def PAYLOAD_BYTES_def from_id_byte_Some [THEN iffD2])
qed

lemma rendered_code_recognised:
  assumes "bech32m_law C" "length (secret_bytes (code_secret c)) = 16" "str_trim (render_code C c) = render_code C c"
  shows "parse_code C (render_code C c) = Inr c"
proof -
  have "bech32m_decode C (render_code C c) =
      Some (HRP, CODE_VERSION # id_byte (code_application c) # secret_bytes (code_secret c))"
    using assms(1) by (simp add: bech32m_law_def render_code_def)
  then show ?thesis unfolding parse_code_exact using assms(2,3) by auto
qed

text \<open>The length of a code: prefix, separator, 29 characters for 18 octets, and the checksum.\<close>

lemma code_chars: "CODE_CHARS = length HRP + 1 + div_ceil (PAYLOAD_BYTES * 8) 5 + 6"
  by (simp add: CODE_CHARS_def HRP_def div_ceil_def PAYLOAD_BYTES_def)

end
