(* ===== verification/Root_Derive.thy ===== *)
theory Root_Derive
  imports Text_Std
begin

text \<open>
  \<open>crates/selfsame-core/src/derive.rs\<close>: recovery phrases, the root seed of a persona, and the backup
  confirmation. BIP-39, HKDF-SHA-512, Ed25519 and the case folding of non-ASCII letters are
  parameters.
\<close>

record 'm bip39_externs =
  from_entropy :: "octets \<Rightarrow> 'm"
  parse_normalized :: "rust_str \<Rightarrow> 'm option"
  phrase_words :: "'m \<Rightarrow> rust_str list"
  to_seed :: "'m \<Rightarrow> octets"
  lowercase :: "rust_str \<Rightarrow> rust_str"
  root_hkdf_sha512 :: "octets \<Rightarrow> octets \<Rightarrow> nat \<Rightarrow> octets"

definition ROOT_KEY_INFO_PREFIX :: octets where "ROOT_KEY_INFO_PREFIX = ''anuna-ssi/v1/root-key/''"
definition PERSONA_ZERO :: nat where "PERSONA_ZERO = 0"
definition MNEMONIC_WORDS :: nat where "MNEMONIC_WORDS = 12"
definition CONFIRMATION_WORDS :: nat where "CONFIRMATION_WORDS = 3"

datatype derive_error = InvalidMnemonic | IndexOutOfRange

definition mnemonic_from_entropy :: "'m bip39_externs \<Rightarrow> octets \<Rightarrow> 'm" where
  "mnemonic_from_entropy M entropy = from_entropy M entropy"

definition parse_mnemonic :: "'m bip39_externs \<Rightarrow> rust_str \<Rightarrow> derive_error + 'm" where
  "parse_mnemonic M phrase =
     (let normalised = lowercase M (join_with '' '' (split_whitespace phrase))
      in if length (split_on CHR '' '' normalised) \<noteq> MNEMONIC_WORDS then Inl InvalidMnemonic
         else ok_or InvalidMnemonic (parse_normalized M normalised))"

definition root_seed :: "'m bip39_externs \<Rightarrow> 'm \<Rightarrow> nat \<Rightarrow> octets" where
  "root_seed M mnemonic persona =
     root_hkdf_sha512 M (to_seed M mnemonic) (ROOT_KEY_INFO_PREFIX @ u32_be_bytes persona) 32"

text \<open>A signing key is its seed.\<close>

definition root_signing_key :: "'m bip39_externs \<Rightarrow> 'm \<Rightarrow> nat \<Rightarrow> octets" where
  "root_signing_key M mnemonic persona = root_seed M mnemonic persona"

text \<open>\<open>all_correct &= ..\<close> over every answer; a position outside the phrase stops with an error.\<close>

fun confirm_answers :: "rust_str list \<Rightarrow> bool \<Rightarrow> (nat \<times> rust_str) list \<Rightarrow> derive_error + bool" where
  "confirm_answers ws all_correct [] = Inr all_correct"
| "confirm_answers ws all_correct ((index, answer) # rest) =
     (if index < length ws
      then confirm_answers ws (all_correct \<and> str_eq_ignore_ascii_case (str_trim answer) (ws ! index)) rest
      else Inl IndexOutOfRange)"

definition confirm_backup :: "'m bip39_externs \<Rightarrow> 'm \<Rightarrow> (nat \<times> rust_str) list \<Rightarrow> derive_error + bool" where
  "confirm_backup M mnemonic answers =
     (if length answers \<noteq> CONFIRMATION_WORDS then Inr False
      else confirm_answers (phrase_words M mnemonic) True answers)"

section \<open>Facts\<close>

lemma confirm_answers_Inr_iff:
  "confirm_answers ws a answers = Inr b \<longleftrightarrow>
     (\<forall>(i, w) \<in> set answers. i < length ws) \<and>
     (b \<longleftrightarrow> a \<and> (\<forall>(i, w) \<in> set answers. str_eq_ignore_ascii_case (str_trim w) (ws ! i)))"
  by (induction ws a answers rule: confirm_answers.induct) auto

text \<open>The confirmation passes exactly on three answers, all in range and all right.\<close>

lemma confirm_backup_passes:
  "confirm_backup M m answers = Inr True \<longleftrightarrow>
     length answers = 3 \<and>
     (\<forall>(i, w) \<in> set answers. i < length (phrase_words M m) \<and> str_eq_ignore_ascii_case (str_trim w) (phrase_words M m ! i))"
  by (auto simp: confirm_backup_def CONFIRMATION_WORDS_def confirm_answers_Inr_iff)

text \<open>A wrong answer anywhere gives the same result: which word was wrong does not show.\<close>

lemma confirm_backup_no_oracle:
  assumes "length answers = 3" "\<forall>(i, w) \<in> set answers. i < length (phrase_words M m)"
    "(i, w) \<in> set answers" "\<not> str_eq_ignore_ascii_case (str_trim w) (phrase_words M m ! i)"
  shows "confirm_backup M m answers = Inr False"
  using assms by (auto simp: confirm_backup_def CONFIRMATION_WORDS_def confirm_answers_Inr_iff)

lemma root_info_inject:
  assumes "p < 2 ^ 32" "q < 2 ^ 32"
  shows "ROOT_KEY_INFO_PREFIX @ u32_be_bytes p = ROOT_KEY_INFO_PREFIX @ u32_be_bytes q \<longleftrightarrow> p = q"
  using u32_be_bytes_inject [OF assms] by auto

end
