(* ===== verification/Rendezvous.thy ===== *)
theory Rendezvous
  imports Signer_Profile Link_Seal Alias
begin

text \<open>
  \<open>crates/selfsame-rendezvous/src/lib.rs\<close>: the blind mailbox and the publication of signed closures.
  The service is one state and a handler per route; a request carries the time the handler reads.
  Over every reachable state, a slot is read at most once per write and a stored closure begins with
  a delta whose key derives its identifier. The last section records what the genesis route does not
  check.
\<close>

section \<open>Definitions\<close>

definition MAX_SLOT_BYTES :: nat where "MAX_SLOT_BYTES = 4096"
definition RENDEZVOUS_TTL_SECONDS :: nat where "RENDEZVOUS_TTL_SECONDS = 600"

record mailbox_slot =
  ciphertext :: octets
  stored_at :: nat
  slot_read :: bool

text \<open>\<open>Inner\<close>: documents and published values per identifier; a value is a \<open>serde_json::Value\<close>.\<close>

record ('doc, 'v) service =
  slots :: "rust_str \<rightharpoonup> mailbox_slot"
  documents :: "rust_str \<rightharpoonup> 'doc"
  closures :: "rust_str \<rightharpoonup> 'v list"

definition new_service :: "('doc, 'v) service" where
  "new_service = \<lparr>slots = Map.empty, documents = Map.empty, closures = Map.empty\<rparr>"

text \<open>
  \<open>str::parse::<Did>\<close>, \<open>MAX_DELTA_SIZE\<close>, \<open>serde_json::from_slice\<close> and \<open>from_value\<close>, and
  \<open>Document::is_deactivated\<close>, beside the operations of \<open>did_crdt\<close>.
\<close>

record ('doc, 'v) service_externs =
  parse_did :: "rust_str \<Rightarrow> rust_str option"
  max_delta_size :: nat
  value_from_slice :: "octets \<Rightarrow> 'v option"
  delta_from_value :: "'v \<Rightarrow> signed_delta option"
  is_deactivated :: "'doc \<Rightarrow> bool"

datatype status = CREATED | CONFLICT | BAD_REQUEST | ACCEPTED | NOT_FOUND | GONE

text \<open>\<open>retain\<close>; \<open>saturating_sub\<close> is the subtraction of \<^typ>\<open>nat\<close>.\<close>

definition sweep :: "nat \<Rightarrow> ('doc, 'v) service \<Rightarrow> ('doc, 'v) service" where
  "sweep now S =
     S\<lparr>slots := (\<lambda>k. case slots S k of
        Some e \<Rightarrow> if now - stored_at e < RENDEZVOUS_TTL_SECONDS then Some e else None
      | None \<Rightarrow> None)\<rparr>"

definition is_well_formed_slot :: "rust_str \<Rightarrow> bool" where
  "is_well_formed_slot k \<longleftrightarrow> length k = 26 \<and> list_all (\<lambda>b. is_ascii_lowercase b \<or> 50 \<le> code b \<and> code b \<le> 55) k"

definition put_slot :: "nat \<Rightarrow> rust_str \<Rightarrow> octets \<Rightarrow> ('doc, 'v) service \<Rightarrow> ('doc, 'v) service \<times> status" where
  "put_slot now k bytes S =
     (if \<not> is_well_formed_slot k \<or> bytes = [] \<or> length bytes > MAX_SLOT_BYTES then (S, BAD_REQUEST)
      else
        let S = sweep now S in
        if slots S k \<noteq> None then (S, CONFLICT)
        else (S\<lparr>slots := (slots S)(k \<mapsto> \<lparr>ciphertext = bytes, stored_at = now, slot_read = False\<rparr>)\<rparr>, CREATED))"

definition get_slot :: "nat \<Rightarrow> rust_str \<Rightarrow> ('doc, 'v) service \<Rightarrow> ('doc, 'v) service \<times> (status + octets)" where
  "get_slot now k S =
     (if \<not> is_well_formed_slot k then (S, Inl NOT_FOUND)
      else
        let S = sweep now S in
        case slots S k of
          Some e \<Rightarrow>
            if slot_read e then (S, Inl NOT_FOUND)
            else (S\<lparr>slots := (slots S)(k \<mapsto> e\<lparr>slot_read := True\<rparr>)\<rparr>, Inr (ciphertext e))
        | None \<Rightarrow> (S, Inl NOT_FOUND))"

definition closure_contains :: "'doc did_crdt \<Rightarrow> ('doc, 'v) service_externs \<Rightarrow> 'v list \<Rightarrow> octets \<Rightarrow> bool" where
  "closure_contains D E vs h \<longleftrightarrow>
     list_ex (\<lambda>v. case delta_from_value E v of
        Some d \<Rightarrow> (case content_hash D d of Inr h' \<Rightarrow> h' = h | Inl _ \<Rightarrow> False)
      | None \<Rightarrow> False) vs"

text \<open>The two halves of \<open>publish_delta\<close> after recognition: a genesis, and any other delta.\<close>

definition publish_genesis ::
  "'doc did_crdt \<Rightarrow> rust_str \<Rightarrow> 'v \<Rightarrow> signed_delta \<Rightarrow> ('doc, 'v) service \<Rightarrow> ('doc, 'v) service \<times> status" where
  "publish_genesis D did v d S =
     (case delta_op_of d of
        AddVerificationMethod _ key_text _ _ \<Rightarrow>
          (case mb_decode_exact 32 key_text of
             Inl _ \<Rightarrow> (S, BAD_REQUEST)
           | Inr root_pk \<Rightarrow>
               (case derive_did D root_pk of
                  Inl _ \<Rightarrow> (S, BAD_REQUEST)
                | Inr derived \<Rightarrow>
                    if derived \<noteq> did then (S, BAD_REQUEST)
                    else if documents S did \<noteq> None then (S, CONFLICT)
                    else (case bootstrap D root_pk of
                        Inl _ \<Rightarrow> (S, BAD_REQUEST)
                      | Inr (doc, _) \<Rightarrow>
                          (S\<lparr>documents := (documents S)(did \<mapsto> doc), closures := (closures S)(did \<mapsto> [v])\<rparr>, ACCEPTED))))
      | _ \<Rightarrow> (S, BAD_REQUEST))"

definition publish_successor ::
  "'doc did_crdt \<Rightarrow> ('doc, 'v) service_externs \<Rightarrow> rust_str \<Rightarrow> 'v \<Rightarrow> signed_delta \<Rightarrow> ('doc, 'v) service
   \<Rightarrow> ('doc, 'v) service \<times> status" where
  "publish_successor D E did v d S =
     (case documents S did of
        None \<Rightarrow> (S, CONFLICT)
      | Some doc \<Rightarrow>
          (case content_hash D d of
             Inl _ \<Rightarrow> (S, BAD_REQUEST)
           | Inr h \<Rightarrow>
               if (case closures S did of Some vs \<Rightarrow> closure_contains D E vs h | None \<Rightarrow> False) then (S, CONFLICT)
               else
                 let (doc', r) = doc_merge_verified D doc d; S' = S\<lparr>documents := (documents S)(did \<mapsto> doc')\<rparr> in
                 (case r of
                    None \<Rightarrow>
                      (S'\<lparr>closures := (closures S')(did \<mapsto> (case closures S' did of Some vs \<Rightarrow> vs | None \<Rightarrow> []) @ [v])\<rparr>, ACCEPTED)
                  | Some DeltaPending \<Rightarrow> (S', CONFLICT)
                  | Some (MergeRefused _) \<Rightarrow> (S', BAD_REQUEST))))"

definition publish_delta ::
  "'doc did_crdt \<Rightarrow> ('doc, 'v) service_externs \<Rightarrow> rust_str \<Rightarrow> octets \<Rightarrow> ('doc, 'v) service
   \<Rightarrow> ('doc, 'v) service \<times> status" where
  "publish_delta D E did_text bytes S =
     (case parse_did E did_text of
        None \<Rightarrow> (S, BAD_REQUEST)
      | Some did \<Rightarrow>
          if length bytes > max_delta_size E then (S, BAD_REQUEST)
          else (case value_from_slice E bytes of
              None \<Rightarrow> (S, BAD_REQUEST)
            | Some v \<Rightarrow>
                (case delta_from_value E v of
                   None \<Rightarrow> (S, BAD_REQUEST)
                 | Some d \<Rightarrow>
                     if delta_did d \<noteq> did then (S, BAD_REQUEST)
                     else if delta_parents d = [] then publish_genesis D did v d S
                     else publish_successor D E did v d S)))"

record 'v closure_response =
  cr_did :: rust_str
  cr_deltas :: "'v list"

definition get_closure ::
  "('doc, 'v) service_externs \<Rightarrow> rust_str \<Rightarrow> ('doc, 'v) service \<Rightarrow> status + 'v closure_response" where
  "get_closure E did_text S =
     and_then (ok_or NOT_FOUND (parse_did E did_text)) (\<lambda>did.
     and_then (ok_or NOT_FOUND (documents S did)) (\<lambda>doc.
       if is_deactivated E doc then Inl GONE
       else Inr \<lparr>cr_did = did, cr_deltas = (case closures S did of Some vs \<Rightarrow> vs | None \<Rightarrow> [])\<rparr>))"

section \<open>Requests and histories\<close>

datatype request = PutSlot rust_str octets | GetSlot rust_str | PublishDelta rust_str octets | GetClosure rust_str
datatype 'v reply = Status status | Body octets | Closure "'v closure_response"

definition handle ::
  "'doc did_crdt \<Rightarrow> ('doc, 'v) service_externs \<Rightarrow> nat \<Rightarrow> request \<Rightarrow> ('doc, 'v) service \<Rightarrow> ('doc, 'v) service \<times> 'v reply" where
  "handle D E now q S =
     (case q of
        PutSlot k bytes \<Rightarrow> (let (S', st) = put_slot now k bytes S in (S', Status st))
      | GetSlot k \<Rightarrow> (let (S', r) = get_slot now k S in (S', case r of Inl st \<Rightarrow> Status st | Inr bs \<Rightarrow> Body bs))
      | PublishDelta did bytes \<Rightarrow> (let (S', st) = publish_delta D E did bytes S in (S', Status st))
      | GetClosure did \<Rightarrow> (S, case get_closure E did S of Inl st \<Rightarrow> Status st | Inr c \<Rightarrow> Closure c))"

text \<open>States with the requests that led there, the latest first. The clock may do anything.\<close>

inductive reach :: "'doc did_crdt \<Rightarrow> ('doc, 'v) service_externs \<Rightarrow> ('doc, 'v) service \<Rightarrow> (request \<times> 'v reply) list \<Rightarrow> bool"
  for D E where
  reach_new: "reach D E new_service []"
| reach_step: "reach D E S h \<Longrightarrow> handle D E now q S = (S', r) \<Longrightarrow> reach D E S' ((q, r) # h)"

text \<open>The body of the latest accepted write of a slot, and whether it has been read since.\<close>

fun last_put :: "rust_str \<Rightarrow> (request \<times> 'v reply) list \<Rightarrow> octets option" where
  "last_put k [] = None"
| "last_put k ((PutSlot k' b, Status CREATED) # h) = (if k' = k then Some b else last_put k h)"
| "last_put k (_ # h) = last_put k h"

fun read_since :: "rust_str \<Rightarrow> (request \<times> 'v reply) list \<Rightarrow> bool" where
  "read_since k [] = False"
| "read_since k ((PutSlot k' b, Status CREATED) # h) = (k' \<noteq> k \<and> read_since k h)"
| "read_since k ((GetSlot k', Body b) # h) = (k' = k \<or> read_since k h)"
| "read_since k (_ # h) = read_since k h"

section \<open>The mailbox\<close>

lemma sweep_slots: "slots (sweep now S) k = Some e \<longleftrightarrow> slots S k = Some e \<and> now - stored_at e < 600"
  by (auto simp: sweep_def RENDEZVOUS_TTL_SECONDS_def split: option.splits if_splits)

lemma sweep_rest [simp]: "documents (sweep now S) = documents S" "closures (sweep now S) = closures S"
  by (simp_all add: sweep_def)

text \<open>What each request does to one slot.\<close>

lemma put_slot_slots:
  assumes "put_slot now k b S = (S', st)" "slots S' j = Some e"
  shows "(st = CREATED \<and> j = k \<and> ciphertext e = b \<and> \<not> slot_read e \<and> b \<noteq> [] \<and> length b \<le> 4096 \<and> is_well_formed_slot k)
     \<or> (slots S j = Some e \<and> (st = CREATED \<longrightarrow> j \<noteq> k))"
  using assms by (auto simp: put_slot_def Let_def sweep_slots MAX_SLOT_BYTES_def split: if_splits)

lemma get_slot_slots:
  assumes "get_slot now k S = (S', r)" "slots S' j = Some e"
  shows "(\<exists>e'. is_ok r \<and> j = k \<and> slots S j = Some e' \<and> e = e'\<lparr>slot_read := True\<rparr>) \<or> (slots S j = Some e \<and> (is_ok r \<longrightarrow> j \<noteq> k))"
  using assms by (auto simp: get_slot_def Let_def sweep_slots split: if_splits option.splits)

lemma publish_slots: "publish_delta D E did b S = (S', st) \<Longrightarrow> slots S' = slots S"
  by (auto simp: publish_delta_def publish_genesis_def publish_successor_def Let_def
      split: option.splits if_splits delta_op.splits sum.splits prod.splits merge_error.splits)

definition slot_inv :: "('doc, 'v) service \<Rightarrow> (request \<times> 'v reply) list \<Rightarrow> bool" where
  "slot_inv S h \<longleftrightarrow>
     (\<forall>k e. slots S k = Some e \<longrightarrow>
        is_well_formed_slot k \<and> ciphertext e \<noteq> [] \<and> length (ciphertext e) \<le> 4096
        \<and> last_put k h = Some (ciphertext e) \<and> (\<not> slot_read e \<longrightarrow> \<not> read_since k h))"

lemma slot_inv_put:
  assumes "slot_inv S h" "put_slot now k b S = (S', st)"
  shows "slot_inv S' ((PutSlot k b, Status st) # h)"
  unfolding slot_inv_def
proof (intro allI impI)
  fix j e assume "slots S' j = Some e"
  from put_slot_slots [OF assms(2) this] assms(1) show
    "is_well_formed_slot j \<and> ciphertext e \<noteq> [] \<and> length (ciphertext e) \<le> 4096
        \<and> last_put j ((PutSlot k b, Status st) # h) = Some (ciphertext e)
        \<and> (\<not> slot_read e \<longrightarrow> \<not> read_since j ((PutSlot k b, Status st) # h))"
    by (cases st) (auto simp: slot_inv_def)
qed

lemma slot_inv_get:
  assumes "slot_inv S h" "get_slot now k S = (S', r)"
  shows "slot_inv S' ((GetSlot k, case r of Inl st \<Rightarrow> Status st | Inr bs \<Rightarrow> Body bs) # h)"
  unfolding slot_inv_def
proof (intro allI impI)
  fix j e assume "slots S' j = Some e"
  from get_slot_slots [OF assms(2) this] assms(1) show
    "is_well_formed_slot j \<and> ciphertext e \<noteq> [] \<and> length (ciphertext e) \<le> 4096
        \<and> last_put j ((GetSlot k, case r of Inl st \<Rightarrow> Status st | Inr bs \<Rightarrow> Body bs) # h) = Some (ciphertext e)
        \<and> (\<not> slot_read e \<longrightarrow> \<not> read_since j ((GetSlot k, case r of Inl st \<Rightarrow> Status st | Inr bs \<Rightarrow> Body bs) # h))"
    by (cases r) (auto simp: slot_inv_def)
qed

lemma slot_inv_other:
  assumes "slot_inv S h" "slots S' = slots S"
  shows "slot_inv S' ((PublishDelta did b, r) # h)" "slot_inv S' ((GetClosure did, r) # h)"
  using assms by (simp_all add: slot_inv_def)

lemma reach_slot_inv: "reach D E S h \<Longrightarrow> slot_inv S h"
proof (induction rule: reach.induct)
  case reach_new
  then show ?case by (simp add: slot_inv_def new_service_def)
next
  case (reach_step S h now q S' r)
  show ?case
  proof (cases q)
    case (PutSlot k b)
    then show ?thesis using reach_step slot_inv_put [OF reach_step(3)]
      by (auto simp: handle_def split: prod.splits)
  next
    case (GetSlot k)
    then show ?thesis using reach_step slot_inv_get [OF reach_step(3)]
      by (auto simp: handle_def split: prod.splits)
  next
    case (PublishDelta did b)
    with reach_step(2) obtain st where p: "publish_delta D E did b S = (S', st)" "r = Status st"
      by (auto simp: handle_def split: prod.splits)
    from slot_inv_other(1) [OF reach_step(3) publish_slots [OF p(1)]] show ?thesis unfolding PublishDelta p(2) .
  next
    case (GetClosure did)
    then show ?thesis using reach_step slot_inv_other(2) [OF reach_step(3)] by (auto simp: handle_def)
  qed
qed

section \<open>The closures\<close>

text \<open>A stored closure starts with a delta of its identifier whose key derives that identifier; no
  later value repeats a content hash.\<close>

definition genesis_value :: "'doc did_crdt \<Rightarrow> ('doc, 'v) service_externs \<Rightarrow> rust_str \<Rightarrow> 'v \<Rightarrow> bool" where
  "genesis_value D E did v \<longleftrightarrow>
     (\<exists>d i key s r. delta_from_value E v = Some d \<and> delta_did d = did \<and> delta_parents d = []
        \<and> delta_op_of d = AddVerificationMethod i (mb_encode key) s r \<and> length key = 32 \<and> derive_did D key = Inr did)"

definition value_hash :: "'doc did_crdt \<Rightarrow> ('doc, 'v) service_externs \<Rightarrow> 'v \<Rightarrow> octets option" where
  "value_hash D E v =
     (case delta_from_value E v of None \<Rightarrow> None | Some d \<Rightarrow> (case content_hash D d of Inl _ \<Rightarrow> None | Inr h \<Rightarrow> Some h))"

definition successor_value :: "'doc did_crdt \<Rightarrow> ('doc, 'v) service_externs \<Rightarrow> rust_str \<Rightarrow> 'v \<Rightarrow> bool" where
  "successor_value D E did v \<longleftrightarrow>
     (\<exists>d. delta_from_value E v = Some d \<and> delta_did d = did \<and> delta_parents d \<noteq> [] \<and> value_hash D E v \<noteq> None)"

definition closure_inv :: "'doc did_crdt \<Rightarrow> ('doc, 'v) service_externs \<Rightarrow> ('doc, 'v) service \<Rightarrow> bool" where
  "closure_inv D E S \<longleftrightarrow> dom (closures S) = dom (documents S) \<and>
     (\<forall>did vs. closures S did = Some vs \<longrightarrow>
        (\<exists>g rest. vs = g # rest \<and> genesis_value D E did g \<and> (\<forall>v \<in> set rest. successor_value D E did v)
           \<and> distinct (map (value_hash D E) vs)))"

lemma closure_contains_iff: "closure_contains D E vs h \<longleftrightarrow> Some h \<in> value_hash D E ` set vs"
  by (auto simp: closure_contains_def value_hash_def list_ex_iff image_iff split: option.splits sum.splits) 

lemma key_decodes: "length key = n \<Longrightarrow> mb_decode_exact n (mb_encode key) = Inr key"
  by (rule multibase_exact.dec_enc)

lemma publish_genesis_accepts:
  "publish_genesis D did v d S = (S', ACCEPTED) \<longleftrightarrow>
     (\<exists>i key s r doc g. delta_op_of d = AddVerificationMethod i (mb_encode key) s r \<and> length key = 32
        \<and> document_new D (mb_encode key) = Inr (doc, g) \<and> doc_did D doc = did \<and> documents S did = None
        \<and> S' = S\<lparr>documents := (documents S)(did \<mapsto> doc), closures := (closures S)(did \<mapsto> [v])\<rparr>)"
  unfolding publish_genesis_def
  by (cases "delta_op_of d")
     (auto simp: derive_did_def bootstrap_def key_multibase_def multibase_exact.dec_Inr_iff map_err_Inr_iff and_then_Inr_iff
        key_decodes split: sum.splits if_splits)

lemma publish_genesis_refuses: "publish_genesis D did v d S = (S', st) \<Longrightarrow> st \<noteq> ACCEPTED \<Longrightarrow> S' = S"
  unfolding publish_genesis_def by (auto split: delta_op.splits sum.splits if_splits prod.splits)

lemma publish_successor_accepts:
  assumes "publish_successor D E did v d S = (S', ACCEPTED)"
  shows "\<exists>doc doc' h. documents S did = Some doc \<and> content_hash D d = Inr h \<and> doc_merge_verified D doc d = (doc', None)
     \<and> (\<forall>vs. closures S did = Some vs \<longrightarrow> \<not> closure_contains D E vs h)
     \<and> documents S' = (documents S)(did \<mapsto> doc')
     \<and> closures S' = (closures S)(did \<mapsto> (case closures S did of Some vs \<Rightarrow> vs | None \<Rightarrow> []) @ [v])"
  using assms unfolding publish_successor_def
  by (auto simp: Let_def split: option.splits sum.splits if_splits prod.splits merge_error.splits)

lemma publish_successor_refuses:
  assumes "publish_successor D E did v d S = (S', st)" "st \<noteq> ACCEPTED"
  shows "closures S' = closures S \<and> dom (documents S') = dom (documents S)"
  using assms unfolding publish_successor_def
  by (auto simp: Let_def split: option.splits sum.splits if_splits prod.splits merge_error.splits)

lemma publish_delta_cases:
  assumes "publish_delta D E t b S = (S', st)"
  obtains "S' = S" "st \<noteq> ACCEPTED"
  | did v d where "parse_did E t = Some did" "value_from_slice E b = Some v" "delta_from_value E v = Some d" "delta_did d = did"
      "delta_parents d = []" "publish_genesis D did v d S = (S', st)"
  | did v d where "parse_did E t = Some did" "value_from_slice E b = Some v" "delta_from_value E v = Some d" "delta_did d = did"
      "delta_parents d \<noteq> []" "publish_successor D E did v d S = (S', st)"
  using assms by (auto simp: publish_delta_def split: option.splits if_splits)

lemma closure_inv_genesis:
  assumes "closure_inv D E S" "publish_genesis D did v d S = (S', ACCEPTED)"
    and "delta_from_value E v = Some d" "delta_did d = did" "delta_parents d = []"
  shows "closure_inv D E S'"
proof -
  from assms(2) obtain i key s r doc g where p: "delta_op_of d = AddVerificationMethod i (mb_encode key) s r" "length key = 32"
      "document_new D (mb_encode key) = Inr (doc, g)" "doc_did D doc = did"
      "S' = S\<lparr>documents := (documents S)(did \<mapsto> doc), closures := (closures S)(did \<mapsto> [v])\<rparr>"
    unfolding publish_genesis_accepts by blast
  then have "derive_did D key = Inr did" unfolding derive_did_Inr_iff by blast
  then have "genesis_value D E did v" unfolding genesis_value_def using p assms(3-5) by blast
  then show ?thesis using assms(1) by (simp add: closure_inv_def p(5))
qed

lemma closure_inv_successor:
  assumes "closure_inv D E S" "publish_successor D E did v d S = (S', ACCEPTED)"
    and "delta_from_value E v = Some d" "delta_did d = did" "delta_parents d \<noteq> []"
  shows "closure_inv D E S'"
proof -
  from publish_successor_accepts [OF assms(2)] obtain doc doc' h where p: "documents S did = Some doc" "content_hash D d = Inr h"
      "\<forall>vs. closures S did = Some vs \<longrightarrow> \<not> closure_contains D E vs h" "documents S' = (documents S)(did \<mapsto> doc')"
      "closures S' = (closures S)(did \<mapsto> (case closures S did of Some vs \<Rightarrow> vs | None \<Rightarrow> []) @ [v])"
    by blast
  have dom: "dom (closures S) = dom (documents S)" using assms(1) by (simp add: closure_inv_def)
  with p(1) obtain vs where vs: "closures S did = Some vs" by blast
  with assms(1) obtain g rest where g: "vs = g # rest" "genesis_value D E did g" "\<forall>v \<in> set rest. successor_value D E did v"
      "distinct (map (value_hash D E) vs)"
    unfolding closure_inv_def by blast
  have h: "value_hash D E v = Some h" using assms(3) p(2) by (simp add: value_hash_def)
  have "successor_value D E did v" using assms(3-5) h by (simp add: successor_value_def)
  moreover have "value_hash D E v \<notin> set (map (value_hash D E) vs)"
    using p(3) vs unfolding h closure_contains_iff by auto
  ultimately have "\<exists>g' rest'. vs @ [v] = g' # rest' \<and> genesis_value D E did g' \<and> (\<forall>v \<in> set rest'. successor_value D E did v)
      \<and> distinct (map (value_hash D E) (vs @ [v]))"
    using g by (auto simp: image_iff)
  then show ?thesis using assms(1) dom p(1) vs by (auto simp: closure_inv_def p(4,5))
qed

lemma reach_closure_inv: "reach D E S h \<Longrightarrow> closure_inv D E S"
proof (induction rule: reach.induct)
  case reach_new
  then show ?case by (simp add: closure_inv_def new_service_def)
next
  case (reach_step S h now q S' r)
  have same: "closure_inv D E S'" if "closures S' = closures S" "dom (documents S') = dom (documents S)"
    using reach_step(3) that by (simp add: closure_inv_def)
  show ?case
  proof (cases q)
    case (PublishDelta t b)
    with reach_step(2) obtain st where p: "publish_delta D E t b S = (S', st)" by (auto simp: handle_def split: prod.splits)
    then show ?thesis
    proof (cases rule: publish_delta_cases)
      case 1
      then show ?thesis using reach_step(3) by simp
    next
      case (2 did v d)
      have "st = ACCEPTED \<Longrightarrow> ?thesis" by (rule closure_inv_genesis [OF reach_step(3) _ 2(3,4,5)]) (use 2(6) in simp)
      moreover have "st \<noteq> ACCEPTED \<Longrightarrow> S' = S" by (rule publish_genesis_refuses [OF 2(6)])
      ultimately show ?thesis using reach_step(3) by (cases "st = ACCEPTED") simp_all
    next
      case (3 did v d)
      have "st = ACCEPTED \<Longrightarrow> ?thesis" by (rule closure_inv_successor [OF reach_step(3) _ 3(3,4,5)]) (use 3(6) in simp)
      moreover have "st \<noteq> ACCEPTED \<Longrightarrow> ?thesis" using publish_successor_refuses [OF 3(6)] same by simp
      ultimately show ?thesis by (cases "st = ACCEPTED") simp_all
    qed
  next
    case (PutSlot k b)
    then show ?thesis using reach_step(2) same
      by (auto simp: handle_def put_slot_def Let_def split: prod.splits if_splits)
  next
    case (GetSlot k)
    then show ?thesis using reach_step(2) same
      by (auto simp: handle_def get_slot_def Let_def split: prod.splits if_splits option.splits)
  next
    case (GetClosure did)
    then show ?thesis using reach_step(2) same by (auto simp: handle_def)
  qed
qed

section \<open>What the genesis route does not check\<close>

text \<open>
  The signature of a submitted genesis is not verified, nor is anything of its operation but the key:
  whoever knows the public key can publish a genesis of the identifier first. The owner's own genesis
  is then refused, and every closure the service hands out fails the signer profile.
\<close>

lemma unsigned_genesis_accepted:
  assumes "parse_did E t = Some did" "length b \<le> max_delta_size E" "value_from_slice E b = Some v"
    "delta_from_value E v = Some d" "delta_did d = did" "delta_parents d = []"
    "delta_op_of d = AddVerificationMethod i (mb_encode key) s r" "length key = 32"
    "document_new D (mb_encode key) = Inr (doc, g)" "doc_did D doc = did" "documents S did = None"
  shows "publish_delta D E t b S =
      (S\<lparr>documents := (documents S)(did \<mapsto> doc), closures := (closures S)(did \<mapsto> [v])\<rparr>, ACCEPTED)"
proof -
  have "publish_genesis D did v d S =
      (S\<lparr>documents := (documents S)(did \<mapsto> doc), closures := (closures S)(did \<mapsto> [v])\<rparr>, ACCEPTED)"
    unfolding publish_genesis_accepts using assms(7-11) by blast
  then show ?thesis using assms(1-6) by (simp add: publish_delta_def)
qed

lemma second_genesis_refused:
  assumes "documents S did \<noteq> None" "delta_parents d = []"
  shows "snd (publish_genesis D did v d S) \<in> {CONFLICT, BAD_REQUEST} \<and> fst (publish_genesis D did v d S) = S"
  using assms by (auto simp: publish_genesis_def split: delta_op.splits sum.splits)

text \<open>A closure with a delta whose signature does not verify does not resolve.\<close>

lemma poisoned_closure_unresolvable:
  assumes "d \<in> set ds" "\<And>did. \<not> root_signed C D did root d"
  shows "\<not> is_ok (resolve_closure C D ds root)"
proof
  assume "is_ok (resolve_closure C D ds root)"
  then obtain doc where "resolve_closure C D ds root = Inr doc" by (auto simp: not_isl_iff)
  then show False using assms by (elim resolve_closure_sound) blast
qed

section \<open>Slots of the linking crate\<close>

text \<open>Every address \<open>seal::slot\<close> derives is well formed.\<close>

lemma slot_alphabet: "c \<in> set BASE32_LOWER \<Longrightarrow> is_ascii_lowercase c \<or> 50 \<le> code c \<and> code c \<le> 55"
  by (auto simp: BASE32_LOWER_def is_ascii_lowercase_def)

lemma derived_slot_well_formed:
  assumes "blake3_law C" shows "is_well_formed_slot (slot C r secret)"
  using assms by (auto simp: is_well_formed_slot_def slot_def base32_lower_codec length_base32 list_all_iff
      dest!: base32_alphabet slot_alphabet)

lemma put_then_get:
  assumes "is_well_formed_slot k" "slots (sweep t S) k = None" "b \<noteq> []" "length b \<le> MAX_SLOT_BYTES"
    and "u - t < RENDEZVOUS_TTL_SECONDS" "put_slot t k b S = (S', st)"
  shows "st = CREATED \<and> snd (get_slot u k S') = Inr b"
  using assms by (auto simp: put_slot_def get_slot_def Let_def sweep_def split: if_splits)

lemma put_conflict:
  assumes "slots (sweep t S) k \<noteq> None"
  shows "snd (put_slot t k b S) \<in> {CONFLICT, BAD_REQUEST}"
  using assms by (auto simp: put_slot_def Let_def)

lemma get_then_get:
  assumes "get_slot t k S = (S', Inr b)" shows "snd (get_slot u k S') = Inl NOT_FOUND"
  using assms by (auto simp: get_slot_def Let_def sweep_def split: if_splits option.splits)

section \<open>Properties\<close>

text \<open>
  C28. The rendezvous is a read-once mailbox in every history of requests: what a read returns is the body
  of the latest accepted write of that slot, between 1 and 4096 octets, not read before since that write;
  any further read is refused.
\<close>

theorem slot_read_once:
  assumes "reach D E S h" "handle D E now (GetSlot k) S = (S', Body b)"
  shows "last_put k h = Some b \<and> \<not> read_since k h \<and> b \<noteq> [] \<and> length b \<le> MAX_SLOT_BYTES \<and> is_well_formed_slot k
    \<and> snd (handle D E later (GetSlot k) S') = Status NOT_FOUND"
proof -
  from assms(2) have g: "get_slot now k S = (S', Inr b)" by (auto simp: handle_def split: prod.splits sum.splits)
  from g obtain e where "slots S k = Some e" "\<not> slot_read e" "ciphertext e = b"
    by (auto simp: get_slot_def Let_def sweep_slots split: if_splits option.splits)
  with reach_slot_inv [OF assms(1)] get_then_get [OF g, of later] show ?thesis
    by (auto simp: slot_inv_def MAX_SLOT_BYTES_def handle_def split: prod.splits)
qed

text \<open>
  C29. What the rendezvous resolves is a closure whose first delta is a genesis of the identifier asked for,
  signed for or not, with a key that derives that identifier, followed by deltas of that identifier with parents,
  no two of one content hash: a retried publication never grows it.
\<close>

theorem closure_served:
  assumes "reach D E S h" "handle D E now (GetClosure t) S = (S', Closure c)"
  shows "S' = S \<and> parse_did E t = Some (cr_did c) \<and>
    (\<exists>g rest. cr_deltas c = g # rest \<and> genesis_value D E (cr_did c) g \<and> (\<forall>v \<in> set rest. successor_value D E (cr_did c) v)
       \<and> distinct (map (value_hash D E) (cr_deltas c)))"
proof -
  from assms(2) have g: "get_closure E t S = Inr c" "S' = S" by (auto simp: handle_def split: sum.splits)
  then obtain did doc where d: "parse_did E t = Some did" "documents S did = Some doc"
      "c = \<lparr>cr_did = did, cr_deltas = (case closures S did of Some vs \<Rightarrow> vs | None \<Rightarrow> [])\<rparr>"
    unfolding get_closure_def and_then_Inr_iff ok_or_Inr_iff if_Inl_Inr_iff sum.inject by blast
  from reach_closure_inv [OF assms(1)] have inv: "closure_inv D E S" .
  then obtain vs where "closures S did = Some vs" using d(2) unfolding closure_inv_def by blast
  with inv d g(2) show ?thesis unfolding closure_inv_def by auto
qed

text \<open>
  An offer sealed for the rendezvous is delivered: written under its derived address when no unexpired
  entry holds that address, the write is accepted, a read within the lifetime returns the sealed octets, and
  they open to the offer.
\<close>

theorem slot_delivers:
  assumes "blake3_law C" "aead_law C" "sealed = seal_offer C key offer_octets" "k = slot C OfferSlot secret"
    and "slots (sweep t S) k = None" "sealed \<noteq> []" "length sealed \<le> MAX_SLOT_BYTES" "u - t < RENDEZVOUS_TTL_SECONDS"
  shows "\<exists>S1 S2. handle D E t (PutSlot k sealed) S = (S1, Status CREATED)
    \<and> handle D E u (GetSlot k) S1 = (S2, Body sealed) \<and> open_offer C key sealed = Inr offer_octets"
proof -
  obtain S1 st where p: "put_slot t k sealed S = (S1, st)" by (cases "put_slot t k sealed S") blast
  from derived_slot_well_formed [OF assms(1)] assms(4) have "is_well_formed_slot k" by simp
  from put_then_get [OF this assms(5-8) p] p open_seal(1) [OF assms(2)] show ?thesis
    by (cases "get_slot u k S1") (simp add: handle_def assms(3))
qed

section \<open>Witnesses\<close>

definition sample_delta :: signed_delta where
  "sample_delta = \<lparr>delta_did = [], delta_op_of = AddVerificationMethod [] (mb_encode (zero_pad 32 [])) Ed25519Signature2020 [],
     delta_time = \<lparr>wall_ms = 0, logical = 0, node_id = []\<rparr>, delta_parents = [], proof_method = [],
     proof_suite = Ed25519Signature2020, proof_value = []\<rparr>"

definition sample_did_crdt :: "unit did_crdt" where
  "sample_did_crdt = \<lparr>document_new = (\<lambda>k. Inr ((), sample_delta)), doc_did = (\<lambda>_. []), doc_frontier = (\<lambda>_. []),
     doc_merge = (\<lambda>d _. (d, None)), doc_merge_verified = (\<lambda>d _. (d, None)), doc_resolve = (\<lambda>_. Inr None),
     content_hash = (\<lambda>d. Inr (proof_value d)), delta_signing_input = (\<lambda>d. Inr []),
     new_genesis = (\<lambda>_ _ _ _ _. Inr sample_delta), new_with_parents = (\<lambda>_ _ _ _ _ _. Inr sample_delta),
     node_id_from_pubkey = (\<lambda>k. []), default_relationships = [], hlc_default = \<lparr>wall_ms = 0, logical = 0, node_id = []\<rparr>,
     delta_from_json = (\<lambda>b. Some sample_delta)\<rparr>"

definition sample_service_externs :: "(unit, unit) service_externs" where
  "sample_service_externs = \<lparr>parse_did = (\<lambda>t. Some []), max_delta_size = 1000, value_from_slice = (\<lambda>b. Some ()),
     delta_from_value = (\<lambda>v. Some sample_delta), is_deactivated = (\<lambda>d. False)\<rparr>"

definition sample_slot :: rust_str where "sample_slot = ''aaaaaaaaaaaaaaaaaaaaaaaaaa''"

lemma sample_slot_put:
  "handle D E 0 (PutSlot sample_slot ''x'') new_service
     = (new_service\<lparr>slots := [sample_slot \<mapsto> \<lparr>ciphertext = ''x'', stored_at = 0, slot_read = False\<rparr>]\<rparr>, Status CREATED)"
  by (simp add: handle_def put_slot_def is_well_formed_slot_def sample_slot_def is_ascii_lowercase_def
      MAX_SLOT_BYTES_def sweep_def new_service_def)

lemma sample_slot_get:
  "handle D E 5 (GetSlot sample_slot) (new_service\<lparr>slots := [sample_slot \<mapsto> \<lparr>ciphertext = ''x'', stored_at = 0, slot_read = False\<rparr>]\<rparr>)
     = (new_service\<lparr>slots := [sample_slot \<mapsto> \<lparr>ciphertext = ''x'', stored_at = 0, slot_read = True\<rparr>]\<rparr>, Body ''x'')"
  by (simp add: handle_def get_slot_def is_well_formed_slot_def sample_slot_def is_ascii_lowercase_def
      RENDEZVOUS_TTL_SECONDS_def sweep_def new_service_def fun_eq_iff)

theorem slot_read_once_witness:
  "last_put sample_slot [(PutSlot sample_slot ''x'', Status CREATED :: unit reply)] = Some ''x''
   \<and> \<not> read_since sample_slot [(PutSlot sample_slot ''x'', Status CREATED :: unit reply)]"
  using slot_read_once [OF reach_step [OF reach_new [of sample_did_crdt sample_service_externs] sample_slot_put] sample_slot_get]
  by blast

lemma sample_publish:
  "handle sample_did_crdt sample_service_externs 0 (PublishDelta ''d'' ''x'') new_service
     = (new_service\<lparr>documents := [[] \<mapsto> ()], closures := [[] \<mapsto> [()]]\<rparr>, Status ACCEPTED)"
proof -
  have g: "publish_genesis sample_did_crdt [] () sample_delta (new_service :: (unit, unit) service)
      = (new_service\<lparr>documents := [[] \<mapsto> ()], closures := [[] \<mapsto> [()]]\<rparr>, ACCEPTED)"
    unfolding publish_genesis_accepts by (simp add: sample_delta_def sample_did_crdt_def new_service_def) (rule exI [of _ "zero_pad 32 []"], simp)
  have "publish_delta sample_did_crdt sample_service_externs ''d'' ''x'' new_service
      = publish_genesis sample_did_crdt [] () sample_delta (new_service :: (unit, unit) service)"
    by (simp add: publish_delta_def sample_service_externs_def) (simp add: sample_delta_def)
  with g show ?thesis by (simp add: handle_def)
qed

theorem closure_served_witness:
  "genesis_value sample_did_crdt sample_service_externs [] ()"
proof -
  have c: "handle sample_did_crdt sample_service_externs 1 (GetClosure ''d'')
      (new_service\<lparr>documents := [[] \<mapsto> ()], closures := [[] \<mapsto> [()]]\<rparr>)
    = (new_service\<lparr>documents := [[] \<mapsto> ()], closures := [[] \<mapsto> [()]]\<rparr>, Closure \<lparr>cr_did = [], cr_deltas = [()]\<rparr>)"
    by (simp add: handle_def get_closure_def sample_service_externs_def)
  from closure_served [OF reach_step [OF reach_new sample_publish] c] show ?thesis by auto
qed

text \<open>A hash that returns 32 zero octets, and sealing as the identity.\<close>

theorem slot_delivers_witness:
  "\<exists>S1 S2. handle sample_did_crdt sample_service_externs 0 (PutSlot (slot sample_core_externs OfferSlot []) ''x'') new_service
       = (S1, Status CREATED)
     \<and> handle sample_did_crdt sample_service_externs 599 (GetSlot (slot sample_core_externs OfferSlot [])) S1 = (S2, Body ''x'')
     \<and> open_offer sample_core_externs [] ''x'' = Inr ''x''"
  by (rule slot_delivers)
    (simp_all add: blake3_law_def aead_law_def sample_core_externs_def seal_offer_def sweep_def new_service_def
      MAX_SLOT_BYTES_def RENDEZVOUS_TTL_SECONDS_def)

end
