(* ===== verification/Net_Http.thy ===== *)
theory Net_Http
  imports Discovery Alias Text_Std
begin

text \<open>
  \<open>crates/selfsame-app-identity-net/src/lib.rs\<close> and \<open>pairing_status.rs\<close>: the one client, the bound on a
  response body and the reading of its headers. The network (\<open>reqwest\<close>) is a parameter; a response is its
  status, its headers in the order received and its chunks. The lemmas say exactly which bodies are
  returned.
\<close>

section \<open>The network\<close>

text \<open>
  A client is its deadline, the number of redirects it follows (\<open>None\<close>: none are followed) and
  \<open>https_only\<close>. A chunk is an error or octets.
\<close>

record http_client =
  deadline_ms :: nat
  follow :: "nat option"
  https_only :: bool

datatype http_method = GET | POST

record http_request =
  req_method :: http_method
  req_url :: rust_str
  req_headers :: "(rust_str \<times> rust_str) list"
  req_body :: "octets option"

record net_response =
  status_code :: nat
  header_map :: "(rust_str \<times> octets) list"
  content_length :: "nat option"
  chunks :: "(rust_str + octets) list"

datatype send_error = SendTimeout | SendFailed

text \<open>
  \<open>builder.build()\<close>, \<open>RequestBuilder::send\<close> and \<open>HeaderValue::to_str\<close>. What a request meets may differ each
  time it is sent: the number counts the requests of one operation.
\<close>

record network =
  build_ok :: "http_client \<Rightarrow> bool"
  send :: "nat \<Rightarrow> http_client \<Rightarrow> http_request \<Rightarrow> send_error + net_response"
  header_to_str :: "octets \<Rightarrow> rust_str option"

text \<open>The classes of \<open>http::StatusCode\<close>.\<close>

definition is_success :: "nat \<Rightarrow> bool" where "is_success n \<longleftrightarrow> 200 \<le> n \<and> n < 300"
definition is_redirection :: "nat \<Rightarrow> bool" where "is_redirection n \<longleftrightarrow> 300 \<le> n \<and> n < 400"

section \<open>Definitions\<close>

text \<open>The text of a transport or a recognition error is only ever displayed, and left out.\<close>

datatype net_error = Transport | Refused rust_str | NotFound | TooLarge | Timeout | Recognition

definition build_client :: "network \<Rightarrow> http_client \<Rightarrow> net_error + http_client" where
  "build_client N c = (if build_ok N c then Inr c else Inl Transport)"

definition client_builder :: "nat \<Rightarrow> http_client" where
  "client_builder deadline = \<lparr>deadline_ms = deadline, follow = None, https_only = True\<rparr>"

definition client :: "network \<Rightarrow> nat \<Rightarrow> net_error + http_client" where
  "client N deadline = build_client N (client_builder deadline)"

definition of_send_error :: "send_error \<Rightarrow> net_error" where
  "of_send_error e = (case e of SendTimeout \<Rightarrow> Timeout | SendFailed \<Rightarrow> Transport)"

definition join_url :: "rust_str \<Rightarrow> rust_str \<Rightarrow> rust_str" where
  "join_url base path = (case strip_suffix ''/'' base of Some b \<Rightarrow> b | None \<Rightarrow> base) @ path"

fun read_chunks :: "nat \<Rightarrow> octets \<Rightarrow> (rust_str + octets) list \<Rightarrow> net_error + octets" where
  "read_chunks max_octets acc [] = Inr acc"
| "read_chunks max_octets acc (Inl e # cs) = Inl Transport"
| "read_chunks max_octets acc (Inr c # cs) =
     (if length acc + length c > max_octets then Inl TooLarge else read_chunks max_octets (acc @ c) cs)"

definition bounded_body :: "net_response \<Rightarrow> nat \<Rightarrow> net_error + octets" where
  "bounded_body r max_octets =
     (if (case content_length r of Some n \<Rightarrow> n > max_octets | None \<Rightarrow> False) then Inl TooLarge
      else read_chunks max_octets [] (chunks r))"

definition get_all :: "net_response \<Rightarrow> rust_str \<Rightarrow> octets list" where
  "get_all r name = map snd (filter (\<lambda>(n, v). n = name) (header_map r))"

definition get_header :: "net_response \<Rightarrow> rust_str \<Rightarrow> octets option" where
  "get_header r name = (case get_all r name of [] \<Rightarrow> None | v # vs \<Rightarrow> Some v)"

definition has_content_encoding :: "network \<Rightarrow> net_response \<Rightarrow> bool" where
  "has_content_encoding N r =
     list_ex (\<lambda>v. case header_to_str N v of
         Some t \<Rightarrow> \<not> str_eq_ignore_ascii_case (str_trim t) ''identity''
       | None \<Rightarrow> True) (get_all r ''content-encoding'')"

definition media_type :: "network \<Rightarrow> net_response \<Rightarrow> rust_str" where
  "media_type N r =
     (let text = (case Option.bind (get_header r ''content-type'') (header_to_str N) of Some t \<Rightarrow> t | None \<Rightarrow> [])
      in map ascii_lower (str_trim (hd (split_on CHR '';'' text))))"

definition carried_cookies :: "net_response \<Rightarrow> bool" where
  "carried_cookies r \<longleftrightarrow> get_all r ''set-cookie'' \<noteq> []"

section \<open>The final-status transport\<close>

definition RECOVERY_PATH :: rust_str where "RECOVERY_PATH = ''/selfsame/pairing/v2/status''"
definition RECOVERY_MEDIA_TYPE :: rust_str where "RECOVERY_MEDIA_TYPE = ''application/cbor''"
definition MAX_REQUEST_OCTETS :: nat where "MAX_REQUEST_OCTETS = 2304"
definition MAX_RESPONSE_OCTETS :: nat where "MAX_RESPONSE_OCTETS = 9216"
definition STATUS_DEADLINE :: nat where "STATUS_DEADLINE = 15000"

datatype pairing_http_status = Terminal | InProgress | Unknown | Unavailable

record pairing_http_response =
  ph_status :: pairing_http_status
  ph_body :: octets

definition pairing_status_of :: "nat \<Rightarrow> net_error + pairing_http_status" where
  "pairing_status_of n =
     (if n = 200 then Inr Terminal else if n = 202 then Inr InProgress else if n = 404 then Inr Unknown
      else if n = 503 then Inr Unavailable else Inl (Refused ''invalid pairing-status response status''))"

definition inspect_response :: "network \<Rightarrow> net_response \<Rightarrow> net_error + pairing_http_response" where
  "inspect_response N r =
     (if is_redirection (status_code r) \<or> has_content_encoding N r \<or> carried_cookies r
      then Inl (Refused ''invalid pairing-status response policy'')
      else
      and_then (pairing_status_of (status_code r)) (\<lambda>status.
      if status = Unavailable then
        (if (case content_length r of Some n \<Rightarrow> n \<noteq> 0 | None \<Rightarrow> False)
         then Inl (Refused ''pairing-status unavailability carried a body'')
         else and_then (bounded_body r 0) (\<lambda>b. Inr \<lparr>ph_status = status, ph_body = b\<rparr>))
      else if media_type N r \<noteq> RECOVERY_MEDIA_TYPE then Inl (Refused ''invalid pairing-status media type'')
      else if map_option str_trim (Option.bind (get_header r ''cache-control'') (header_to_str N)) \<noteq> Some ''no-store''
        then Inl (Refused ''pairing-status response is cacheable'')
      else and_then (bounded_body r MAX_RESPONSE_OCTETS) (\<lambda>b.
        if b = [] then Inl (Refused ''empty pairing-status response'')
        else Inr \<lparr>ph_status = status, ph_body = b\<rparr>)))"

definition post_status :: "network \<Rightarrow> app_id \<Rightarrow> octets \<Rightarrow> net_error + pairing_http_response" where
  "post_status N aid request =
     (if request = [] \<or> length request > MAX_REQUEST_OCTETS then Inl (Refused ''invalid pairing-status request size'')
      else
      and_then (client N STATUS_DEADLINE) (\<lambda>http.
      and_then (map_err of_send_error (send N 0 http
        \<lparr>req_method = POST, req_url = app_origin aid @ RECOVERY_PATH,
         req_headers = [(''content-type'', RECOVERY_MEDIA_TYPE), (''accept'', RECOVERY_MEDIA_TYPE), (''accept-encoding'', ''identity'')],
         req_body = Some request\<rparr>))
      (inspect_response N)))"

section \<open>Bodies\<close>

lemma read_chunks_Inr_iff:
  "read_chunks m acc cs = Inr b \<longleftrightarrow> (\<exists>ps. cs = map Inr ps \<and> b = acc @ concat ps \<and> (ps \<noteq> [] \<longrightarrow> length b \<le> m))"
proof (induction m acc cs rule: read_chunks.induct)
  case (3 m acc c cs)
  show ?case
  proof (cases "length acc + length c > m")
    case True
    then show ?thesis by (auto simp: Cons_eq_map_conv)
  next
    case False
    then show ?thesis using 3 by (auto simp: Cons_eq_map_conv not_less) 
  qed
qed auto

lemma bounded_body_iff:
  "bounded_body r m = Inr b \<longleftrightarrow>
     (\<forall>n. content_length r = Some n \<longrightarrow> n \<le> m) \<and> (\<exists>ps. chunks r = map Inr ps \<and> b = concat ps) \<and> length b \<le> m"
  by (auto simp: bounded_body_def read_chunks_Inr_iff not_less split: option.splits)

lemma client_Inr_iff: "client N d = Inr c \<longleftrightarrow> c = \<lparr>deadline_ms = d, follow = None, https_only = True\<rparr> \<and> build_ok N c"
  by (auto simp: client_def client_builder_def build_client_def)

text \<open>Joining never adds or drops a separator but the one at the boundary.\<close>

lemma join_url_slash: "join_url (b @ ''/'') p = b @ p"
  by (simp add: join_url_def)

lemma join_url_plain: "\<not> (\<exists>b. base = b @ ''/'') \<Longrightarrow> join_url base p = base @ p"
  by (auto simp: join_url_def strip_suffix_Some_iff split: option.splits)

text \<open>Any second encoding, and any encoding that is not text, counts.\<close>

lemma no_content_encoding_iff:
  "\<not> has_content_encoding N r \<longleftrightarrow>
     (\<forall>(n, v) \<in> set (header_map r). n = ''content-encoding'' \<longrightarrow>
        (\<exists>t. header_to_str N v = Some t \<and> str_eq_ignore_ascii_case (str_trim t) ''identity''))"
  by (auto simp: has_content_encoding_def get_all_def list_ex_iff split: option.splits)

lemma inspected_status:
  assumes "inspect_response N r = Inr s"
  shows "status_code r \<in> {200, 202, 404, 503} \<and> \<not> has_content_encoding N r \<and> \<not> carried_cookies r
    \<and> pairing_status_of (status_code r) = Inr (ph_status s) \<and> (\<exists>ps. chunks r = map Inr ps \<and> ph_body s = concat ps)
    \<and> (if ph_status s = Unavailable then ph_body s = []
       else ph_body s \<noteq> [] \<and> length (ph_body s) \<le> 9216 \<and> media_type N r = RECOVERY_MEDIA_TYPE)"
  using assms
  by (auto simp: inspect_response_def pairing_status_of_def res_iff bounded_body_iff MAX_RESPONSE_OCTETS_def split: if_splits)

end
