(* ===== verification/Net_Fetch.thy ===== *)
theory Net_Fetch
  imports Net_Http
begin

text \<open>
  The fetches of \<open>crates/selfsame-app-identity-net\<close> that end in one recogniser: \<open>profile.rs\<close>,
  \<open>webfinger.rs\<close> and \<open>projection.rs\<close>. The lemmas say what the response was when a fetch succeeds, and
  where every request goes.
\<close>

section \<open>Profiles\<close>

definition FETCH_DEADLINE :: nat where "FETCH_DEADLINE = 5000"

record fetched_profile =
  fp_profile :: application_profile
  fp_octets :: octets
  fp_fetched_at :: unix_seconds

definition get_request :: "rust_str \<Rightarrow> (rust_str \<times> rust_str) list \<Rightarrow> http_request" where
  "get_request url headers = \<lparr>req_method = GET, req_url = url, req_headers = headers, req_body = None\<rparr>"

definition fetch_profile :: "externs \<Rightarrow> network \<Rightarrow> app_id \<Rightarrow> unix_seconds \<Rightarrow> net_error + fetched_profile" where
  "fetch_profile X N aid now =
     and_then (client N FETCH_DEADLINE) (\<lambda>http.
     and_then (map_err of_send_error (send N 0 http
       (get_request (app_text aid) [(''accept'', PROFILE_MEDIA_TYPE), (''accept-encoding'', ''identity'')]))) (\<lambda>response.
       let status = status_code response;
           redirected = is_redirection (status_code response);
           encoded = has_content_encoding N response;
           ctype = media_type N response
       in and_then (bounded_body response MAX_BODY_OCTETS) (\<lambda>b.
       let observed = \<lparr>https_validated = True, redirected = redirected, http_status = status, content_type = ctype,
             content_encoding = (if encoded then Some ''compressed'' else None), body = b\<rparr>
       in and_then (map_err (\<lambda>_. Recognition) (recognise_profile_response X observed aid)) (\<lambda>P.
       Inr \<lparr>fp_profile = P, fp_octets = b, fp_fetched_at = now\<rparr>))))"

text \<open>The equality of identifiers compares text and origin.\<close>

definition fetch_or_cached ::
  "externs \<Rightarrow> network \<Rightarrow> app_id \<Rightarrow> fetched_profile option \<Rightarrow> unix_seconds \<Rightarrow> net_error + fetched_profile" where
  "fetch_or_cached X N aid cached now =
     (case cached of
        Some held \<Rightarrow>
          if cache_is_usable (fp_profile held) (fp_fetched_at held) now \<and> application_id (fp_profile held) = aid
          then Inr held else fetch_profile X N aid now
      | None \<Rightarrow> fetch_profile X N aid now)"

definition enumerate_applications :: "network \<Rightarrow> rust_str \<Rightarrow> unix_seconds \<Rightarrow> net_error + app_id list" where
  "enumerate_applications N typed_origin now =
     and_then (map_err (\<lambda>_. Refused ''the typed value is not an HTTPS origin'') (recognise_uri typed_origin PROVIDER_URL)) (\<lambda>parts.
     if uri_path parts \<noteq> [] \<and> uri_path parts \<noteq> ''/'' then Inl (Refused ''origin enumeration takes an origin, not a path'')
     else
     let typed_origin = origin parts; url = typed_origin @ ENUMERATION_PATH in
     and_then (client N FETCH_DEADLINE) (\<lambda>http.
     and_then (map_err of_send_error (send N 0 http (get_request url [(''accept-encoding'', ''identity'')]))) (\<lambda>response.
     if is_redirection (status_code response) then Inl (Refused ''origin enumeration was redirected'')
     else if \<not> is_success (status_code response) then Inl (Refused ''origin enumeration did not succeed'')
     else
     and_then (bounded_body response 8192) (\<lambda>b.
     map_err (\<lambda>_. Recognition) (recognise_application_list b typed_origin)))))"

section \<open>WebFinger\<close>

definition MAX_REDIRECTS :: nat where "MAX_REDIRECTS = 3"
definition JRD_MEDIA_TYPE :: rust_str where "JRD_MEDIA_TYPE = ''application/jrd+json''"

definition webfinger_client :: "network \<Rightarrow> net_error + http_client" where
  "webfinger_client N = build_client N \<lparr>deadline_ms = FETCH_DEADLINE, follow = Some MAX_REDIRECTS, https_only = True\<rparr>"

definition webfinger_request :: "acct_uri \<Rightarrow> http_request" where
  "webfinger_request acct =
     get_request (''https://'' @ acct_authority acct @ webfinger_query acct)
       [(''accept'', JRD_MEDIA_TYPE), (''accept-encoding'', ''identity'')]"

definition fetch_jrd :: "network \<Rightarrow> acct_uri \<Rightarrow> net_error + jrd" where
  "fetch_jrd N acct =
     and_then (webfinger_client N) (\<lambda>http.
     and_then (map_err of_send_error (send N 0 http (webfinger_request acct))) (\<lambda>response.
     if \<not> is_success (status_code response) then
       (if status_code response = 404 then Inl NotFound else Inl (Refused ''the account authority returned no record''))
     else if has_content_encoding N response then Inl (Refused ''the JRD response carried a content encoding'')
     else
     let ctype = media_type N response in
     if ctype \<noteq> JRD_MEDIA_TYPE \<and> ctype \<noteq> ''application/json'' then Inl (Refused ''the JRD response is not application/jrd+json'')
     else
     and_then (bounded_body response MAX_JRD_OCTETS) (\<lambda>b. map_err (\<lambda>_. Recognition) (recognise_jrd b))))"

definition fetch_and_verify :: "network \<Rightarrow> acct_uri \<Rightarrow> rust_str \<Rightarrow> rust_str list \<Rightarrow> net_error + jrd" where
  "fetch_and_verify N acct home also_known_as =
     and_then (fetch_jrd N acct) (\<lambda>jrd.
     and_then (map_err (\<lambda>_. Recognition) (verify_reciprocal_binding jrd acct home also_known_as)) (\<lambda>_. Inr jrd))"

definition absence_is_an_answer :: "nat \<Rightarrow> bool" where "absence_is_an_answer status \<longleftrightarrow> status = 404"

definition fetch_reciprocal_bytes ::
  "network \<Rightarrow> acct_uri \<Rightarrow> rust_str \<Rightarrow> rust_str list \<Rightarrow> bool \<Rightarrow> net_error + octets option" where
  "fetch_reciprocal_bytes N acct home also_known_as absence_is_answerable =
     and_then (webfinger_client N) (\<lambda>http.
     and_then (map_err of_send_error (send N 0 http (webfinger_request acct))) (\<lambda>response.
     if absence_is_answerable \<and> absence_is_an_answer (status_code response) then Inr None
     else if \<not> is_success (status_code response) \<or> has_content_encoding N response
       \<or> (media_type N response \<noteq> JRD_MEDIA_TYPE \<and> media_type N response \<noteq> ''application/json'')
     then Inl (Refused ''the JRD response was not acceptable'')
     else
     and_then (bounded_body response MAX_JRD_OCTETS) (\<lambda>b.
     and_then (map_err (\<lambda>_. Recognition) (recognise_jrd b)) (\<lambda>jrd.
     and_then (map_err (\<lambda>_. Recognition) (verify_reciprocal_binding jrd acct home also_known_as)) (\<lambda>_.
     Inr (Some b))))))"

definition fetch_and_verify_bytes :: "network \<Rightarrow> acct_uri \<Rightarrow> rust_str \<Rightarrow> rust_str list \<Rightarrow> net_error + octets" where
  "fetch_and_verify_bytes N acct home also_known_as =
     and_then (fetch_reciprocal_bytes N acct home also_known_as False) (\<lambda>b. Inr (case b of Some b \<Rightarrow> b | None \<Rightarrow> []))"

definition fetch_reciprocal_or_absent :: "network \<Rightarrow> acct_uri \<Rightarrow> rust_str \<Rightarrow> rust_str list \<Rightarrow> net_error + octets option" where
  "fetch_reciprocal_or_absent N acct home also_known_as = fetch_reciprocal_bytes N acct home also_known_as True"

section \<open>The status projection\<close>

text \<open>
  \<open>reqwest::Url::parse\<close> and the accessors of the parsed value, and \<open>serde_json::Value\<close>, as parameters: a
  parsed URL is its scheme, origin, path, query, fragment and serialisation.
\<close>

record parsed_url =
  url_scheme :: rust_str
  url_origin :: rust_str
  url_path :: rust_str
  url_query :: "rust_str option"
  url_fragment :: "rust_str option"
  url_text :: rust_str

record 'j serde =
  json_from_slice :: "octets \<Rightarrow> 'j option"
  json_get :: "'j \<Rightarrow> rust_str \<Rightarrow> 'j option"
  json_as_str :: "'j \<Rightarrow> rust_str option"
  json_to_vec :: "'j \<Rightarrow> octets option"

type_synonym url_parser = "rust_str \<Rightarrow> parsed_url option"

definition PROJECTION_DEADLINE :: nat where "PROJECTION_DEADLINE = 3000"
definition MAX_PROJECTION_OCTETS :: nat where "MAX_PROJECTION_OCTETS = 1048576"

record fetched_projection =
  fj_octets :: octets
  fj_source :: rust_str

record allocation =
  status_list_credential :: rust_str
  status_list_index :: rust_str

definition trim_end_slashes :: "rust_str \<Rightarrow> rust_str" where
  "trim_end_slashes s = rev (dropWhile (\<lambda>c. c = CHR ''/'') (rev s))"

definition contained_url :: "url_parser \<Rightarrow> rust_str \<Rightarrow> rust_str \<Rightarrow> net_error + rust_str" where
  "contained_url parse base declared =
     and_then (ok_or (Refused ''the profile's credentialBaseUrl is not a URL'') (parse base)) (\<lambda>base.
     and_then (ok_or (Refused ''statusListCredential is not an absolute HTTPS URL'') (parse declared)) (\<lambda>url.
     if url_scheme url \<noteq> ''https'' then Inl (Refused ''statusListCredential is not an absolute HTTPS URL'')
     else if url_fragment url \<noteq> None \<or> url_query url \<noteq> None then Inl (Refused ''statusListCredential is not a canonical URL'')
     else if url_origin url \<noteq> url_origin base then Inl (Refused ''statusListCredential names a host the profile never declared'')
     else
       let boundary = trim_end_slashes (url_path base) @ ''/'' in
       if \<not> starts_with boundary (url_path url) \<or> length (url_path url) \<le> length boundary
       then Inl (Refused ''statusListCredential names a host the profile never declared'')
       else Inr (url_text url)))"

definition fetch_projection :: "network \<Rightarrow> url_parser \<Rightarrow> projection_policy \<Rightarrow> rust_str \<Rightarrow> net_error + fetched_projection" where
  "fetch_projection N parse policy declared =
     and_then (contained_url parse (credential_base_url policy) declared) (\<lambda>url.
     and_then (client N PROJECTION_DEADLINE) (\<lambda>http.
     and_then (map_err of_send_error (send N 0 http
       (get_request url [(''accept'', ''application/vc+jwt, application/json''), (''accept-encoding'', ''identity'')]))) (\<lambda>response.
     if is_redirection (status_code response) then Inl (Refused ''the projection host redirected'')
     else if \<not> is_success (status_code response) then Inl (Refused ''the projection is unavailable'')
     else and_then (bounded_body response MAX_PROJECTION_OCTETS) (\<lambda>octets.
       Inr \<lparr>fj_octets = octets, fj_source = url\<rparr>))))"

definition recognise_allocation :: "'j serde \<Rightarrow> url_parser \<Rightarrow> projection_policy \<Rightarrow> octets \<Rightarrow> net_error + allocation" where
  "recognise_allocation J parse policy octets =
     and_then (ok_or Recognition (json_from_slice J octets)) (\<lambda>v.
     and_then (ok_or (Refused ''the allocation named no credential'')
       (Option.bind (json_get J v ''statusListCredential'') (json_as_str J))) (\<lambda>credential.
     and_then (ok_or (Refused ''the allocation named no index'')
       (Option.bind (json_get J v ''statusListIndex'') (json_as_str J))) (\<lambda>index.
     if index = [] \<or> \<not> list_all is_ascii_digit index \<or> (length index > 1 \<and> starts_with ''0'' index)
     then Inl (Refused ''the allocated index is not a canonical integer'')
     else and_then (contained_url parse (credential_base_url policy) credential) (\<lambda>url.
       Inr \<lparr>status_list_credential = url, status_list_index = index\<rparr>))))"

definition allocate :: "'j serde \<Rightarrow> network \<Rightarrow> url_parser \<Rightarrow> projection_policy \<Rightarrow> net_error + allocation" where
  "allocate J N parse policy =
     and_then (client N PROJECTION_DEADLINE) (\<lambda>http.
     and_then (map_err of_send_error (send N 0 http
       \<lparr>req_method = POST, req_url = allocation_url policy, req_headers = [(''accept'', ''application/json'')], req_body = None\<rparr>))
     (\<lambda>response.
     if \<not> is_success (status_code response) then Inl (Refused ''the allocation host refused'')
     else and_then (bounded_body response 8192) (recognise_allocation J parse policy)))"

section \<open>What a successful fetch saw\<close>

lemma send_Inr_iff: "map_err of_send_error r = Inr x \<longleftrightarrow> r = Inr x"
  by (simp add: res_iff)

lemma fetch_profile_iff:
  "fetch_profile X N aid now = Inr F \<longleftrightarrow>
     (\<exists>http r. client N FETCH_DEADLINE = Inr http
        \<and> send N 0 http (get_request (app_text aid) [(''accept'', PROFILE_MEDIA_TYPE), (''accept-encoding'', ''identity'')]) = Inr r
        \<and> status_code r = 200 \<and> media_type N r = PROFILE_MEDIA_TYPE \<and> \<not> has_content_encoding N r
        \<and> bounded_body r MAX_BODY_OCTETS = Inr (fp_octets F)
        \<and> recognise_profile X (fp_octets F) = Inr (fp_profile F) \<and> app_text (application_id (fp_profile F)) = app_text aid
        \<and> F = \<lparr>fp_profile = fp_profile F, fp_octets = fp_octets F, fp_fetched_at = now\<rparr>)"
  (is "?l = ?r")
proof
  assume ?l
  then obtain http r b P where s: "client N FETCH_DEADLINE = Inr http"
      "send N 0 http (get_request (app_text aid) [(''accept'', PROFILE_MEDIA_TYPE), (''accept-encoding'', ''identity'')]) = Inr r"
      "bounded_body r MAX_BODY_OCTETS = Inr b"
      "recognise_profile_response X \<lparr>https_validated = True, redirected = is_redirection (status_code r), http_status = status_code r,
         content_type = media_type N r, content_encoding = (if has_content_encoding N r then Some ''compressed'' else None), body = b\<rparr> aid = Inr P"
      "F = \<lparr>fp_profile = P, fp_octets = b, fp_fetched_at = now\<rparr>"
    unfolding fetch_profile_def Let_def res_iff sum.inject by metis
  have "\<not> eq_ignore_ascii_case ''compressed'' ''identity''" by code_simp
  with s show ?r by (auto simp: profile_response_iff split: if_splits)
next
  assume ?r
  then obtain http r where s: "client N FETCH_DEADLINE = Inr http"
      "send N 0 http (get_request (app_text aid) [(''accept'', PROFILE_MEDIA_TYPE), (''accept-encoding'', ''identity'')]) = Inr r"
      "status_code r = 200" "media_type N r = PROFILE_MEDIA_TYPE" "\<not> has_content_encoding N r"
      "bounded_body r MAX_BODY_OCTETS = Inr (fp_octets F)" "recognise_profile X (fp_octets F) = Inr (fp_profile F)"
      "app_text (application_id (fp_profile F)) = app_text aid"
      "F = \<lparr>fp_profile = fp_profile F, fp_octets = fp_octets F, fp_fetched_at = now\<rparr>"
    by blast
  have l: "length (fp_octets F) \<le> 65536" using s(6) by (auto simp: bounded_body_iff MAX_BODY_OCTETS_def)
  have "recognise_profile_response X \<lparr>https_validated = True, redirected = is_redirection (status_code r), http_status = status_code r,
         content_type = media_type N r, content_encoding = (if has_content_encoding N r then Some ''compressed'' else None),
         body = fp_octets F\<rparr> aid = Inr (fp_profile F)"
    unfolding profile_response_iff using s l by (simp add: is_redirection_def)
  then show ?l using s by (simp add: fetch_profile_def Let_def)
qed

text \<open>
  A cached profile is used for its own identifier only, no longer than an hour; anything else is fetched anew.
\<close>

lemma cached_or_fetched:
  assumes "stamp_range now" "\<And>held. cached = Some held \<Longrightarrow> stamp_range (fp_fetched_at held)"
    and "fetch_or_cached X N aid cached now = Inr F"
  shows "(cached = Some F \<and> application_id (fp_profile F) = aid \<and> fp_fetched_at F \<le> now \<and> now \<le> fp_fetched_at F + 3600)
    \<or> fetch_profile X N aid now = Inr F"
  using assms cache_is_fresh_iff
  by (auto simp: fetch_or_cached_def cache_is_usable_def split: option.splits if_splits)

lemma enumerated_on_origin:
  assumes "enumerate_applications N typed now = Inr aids"
  shows "\<exists>parts. recognise_uri typed PROVIDER_URL = Inr parts \<and> (uri_path parts = [] \<or> uri_path parts = ''/'')
    \<and> length aids \<le> 32 \<and> (\<forall>aid \<in> set aids. app_id_ok aid \<and> app_origin aid = origin parts)"
proof -
  from assms obtain parts b where p: "recognise_uri typed PROVIDER_URL = Inr parts" "uri_path parts = [] \<or> uri_path parts = ''/''"
      "recognise_application_list b (origin parts) = Inr aids"
    unfolding enumerate_applications_def Let_def res_iff sum.inject by blast
  with application_list_sound [OF p(3)] show ?thesis by blast
qed

text \<open>
  Only a 404 is read as absence, and only where the caller may treat it so; what is returned has passed
  the reciprocal binding.
\<close>

lemma reciprocal_bytes_iff:
  "fetch_reciprocal_bytes N acct home aka answerable = Inr out \<longleftrightarrow>
     (\<exists>http r. webfinger_client N = Inr http \<and> send N 0 http (webfinger_request acct) = Inr r \<and>
        (if answerable \<and> status_code r = 404 then out = None
         else is_success (status_code r) \<and> \<not> has_content_encoding N r
           \<and> (media_type N r = JRD_MEDIA_TYPE \<or> media_type N r = ''application/json'')
           \<and> (\<exists>b j. bounded_body r MAX_JRD_OCTETS = Inr b \<and> recognise_jrd b = Inr j
                \<and> verify_reciprocal_binding j acct home aka = Inr () \<and> out = Some b)))"
  unfolding fetch_reciprocal_bytes_def absence_is_an_answer_def by (auto simp: res_iff)

lemma jrd_iff:
  "fetch_and_verify N acct home aka = Inr j \<longleftrightarrow>
     (\<exists>b. fetch_reciprocal_bytes N acct home aka False = Inr (Some b) \<and> recognise_jrd b = Inr j)"
  unfolding fetch_and_verify_def fetch_jrd_def reciprocal_bytes_iff Let_def by (auto simp: res_iff)

text \<open>The URL of a projection stays on the origin and below the path its policy declares.\<close>

lemma contained_url_iff:
  "contained_url parse base declared = Inr url \<longleftrightarrow>
     (\<exists>b u rest. parse base = Some b \<and> parse declared = Some u \<and> url = url_text u \<and> url_scheme u = ''https''
        \<and> url_fragment u = None \<and> url_query u = None \<and> url_origin u = url_origin b
        \<and> url_path u = trim_end_slashes (url_path b) @ ''/'' @ rest \<and> rest \<noteq> [])"
  unfolding contained_url_def Let_def by (auto simp: res_iff starts_with_iff not_le)

lemma canonical_decimal:
  "list_all is_ascii_digit s \<Longrightarrow> s \<noteq> [] \<Longrightarrow> length s = 1 \<or> hd s \<noteq> CHR ''0'' \<Longrightarrow> dec_nat (dec_value s) = s"
proof (induction s rule: rev_induct)
  case (snoc c s)
  have c: "code c - 48 < 10" "48 \<le> code c" using snoc.prems(1) by (auto simp: is_ascii_digit_def)
  then have dig: "dec_digit (code c - 48) = c" by (simp add: dec_digit_def char_of_eq_iff' code_bound)
  show ?case
  proof (cases "s = []")
    case True
    then show ?thesis using c dig by (simp add: dec_value_def)
  next
    case False
    then have h: "hd s \<noteq> CHR ''0''" using snoc.prems(3) by (auto simp: hd_append)
    then have ih: "dec_nat (dec_value s) = s" using snoc False by simp
    have "dec_value s \<noteq> 0"
    proof
      assume "dec_value s = 0"
      with ih have "s = [dec_digit 0]" by simp
      then show False using h by (simp add: dec_digit_def char_of_eq_iff')
    qed
    moreover define d where "d = code c - 48"
    moreover have "dec_value (s @ [c]) = 10 * dec_value s + d" by (simp add: dec_value_snoc d_def)
    ultimately show ?thesis using c(1) dig ih dec_nat_big [of "10 * dec_value s + d"] by simp
  qed
qed simp

lemma allocation_sound:
  assumes "recognise_allocation J parse policy octets = Inr a"
  shows "\<exists>declared. contained_url parse (credential_base_url policy) declared = Inr (status_list_credential a)"
    "dec_nat (dec_value (status_list_index a)) = status_list_index a"
proof -
  from assms obtain i d where a: "contained_url parse (credential_base_url policy) d = Inr (status_list_credential a)"
      "status_list_index a = i" "i \<noteq> []" "list_all is_ascii_digit i" "\<not> (length i > 1 \<and> starts_with ''0'' i)"
    unfolding recognise_allocation_def by (auto simp: res_iff)
  from a(1) show "\<exists>declared. contained_url parse (credential_base_url policy) declared = Inr (status_list_credential a)" ..
  have "length i = 1 \<or> hd i \<noteq> CHR ''0''" using a(3,5) by (cases i) (auto simp: starts_with_def)
  with canonical_decimal [OF a(4,3)] a(2) show "dec_nat (dec_value (status_list_index a)) = status_list_index a" by simp
qed

end
