(* ===== verification/Net_State.thy ===== *)
theory Net_State
  imports Net_Fetch Path_B Issuer
begin

text \<open>
  \<open>crates/selfsame-app-identity-net/src/state.rs\<close>: where a closure comes from, how it is replayed, and the
  publication of deltas to the roster of resolvers. The network, the DID method and \<open>serde_json\<close> are
  parameters. The lemmas say which answer of a resolver lets a bundled closure stand in for it, that an
  acknowledgement confirms nothing, and that the closure facts are those of \<open>path_b.rs\<close>.
\<close>

section \<open>Definitions\<close>

definition RESOLVER_DEADLINE :: nat where "RESOLVER_DEADLINE = 3000"
definition MAX_CLOSURE_OCTETS :: nat where "MAX_CLOSURE_OCTETS = 1048576"
definition RESOLUTION_PATH :: rust_str where "RESOLUTION_PATH = ''/''"
definition CLOSURE_OPTION :: rust_str where "CLOSURE_OPTION = ''?includeClosure=true''"

definition submission_path :: "rust_str \<Rightarrow> rust_str" where
  "submission_path did = ''/dids/'' @ did @ ''/deltas''"

text \<open>
  What the module calls beside the documents of the method (\<open>crdt\<close>): whether a text parses as a \<open>Did\<close>,
  \<open>serde_json\<close> on values, closures and deltas, and what it reads of a delta.
\<close>

record ('delta, 'bundle, 'j) wire =
  did_parses :: "rust_str \<Rightarrow> bool"
  json :: "'j serde"
  bundle_from_slice :: "octets \<Rightarrow> 'bundle option"
  delta_to_vec :: "'delta \<Rightarrow> octets option"
  delta_revokes :: "'delta \<Rightarrow> rust_str option"
  delta_subject :: "'delta \<Rightarrow> rust_str"
  create_request :: "rust_str \<Rightarrow> octets option"

datatype acceptance = First | Repeat
datatype resolver_outcome = Resolved | Reached rust_str | Unreachable

record 'doc resolved_closure =
  rc_document :: 'doc
  rc_source :: closure_source
  rc_resolver_id :: "rust_str option"
  rc_outcomes :: "(rust_str \<times> resolver_outcome) list"

definition recognise_did :: "('delta, 'bundle, 'j) wire \<Rightarrow> rust_str \<Rightarrow> net_error + unit" where
  "recognise_did W did = ensure (did_parses W did) (Refused ''the issuer is not a did:crdt identifier'')"

definition outcome_of :: "net_error \<Rightarrow> resolver_outcome" where
  "outcome_of e =
     (case e of
        Transport \<Rightarrow> Unreachable
      | Timeout \<Rightarrow> Unreachable
      | Refused why \<Rightarrow> Reached why
      | NotFound \<Rightarrow> Reached ''the resolver holds no closure''
      | net_error.TooLarge \<Rightarrow> Reached ''the closure exceeded its octet bound''
      | Recognition \<Rightarrow> Reached ''the closure did not verify'')"

fun is_reached :: "resolver_outcome \<Rightarrow> bool" where
  "is_reached (Reached why) = True"
| "is_reached _ = False"

definition bundle_is_admissible :: "(rust_str \<times> resolver_outcome) list \<Rightarrow> acceptance \<Rightarrow> net_error + unit" where
  "bundle_is_admissible outcomes acc =
     (if list_ex (\<lambda>(_, o'). is_reached o') outcomes
      then Inl (Refused ''a declared resolver was reachable and returned no usable closure; the issuer's own bundled state cannot stand in for it'')
      else if acc = Repeat
      then Inl (Refused ''no declared resolver answered, and this grant has been accepted before, so a bundled closure is not admissible'')
      else Inr ())"

definition closure_from_resolution :: "'j serde \<Rightarrow> octets \<Rightarrow> net_error + octets" where
  "closure_from_resolution J octets =
     and_then (ok_or Recognition (json_from_slice J octets)) (\<lambda>envelope.
     and_then (ok_or (Refused ''the resolver returned no signedClosure; it cannot supply evidence for this DID'')
       (Option.bind (json_get J envelope ''didDocumentMetadata'') (\<lambda>m. json_get J m ''signedClosure''))) (\<lambda>closure.
     ok_or Recognition (json_to_vec J closure)))"

definition replay_closure ::
  "('doc, 'delta, 'bundle, 'v) crdt \<Rightarrow> ('delta, 'bundle, 'j) wire \<Rightarrow> octets \<Rightarrow> rust_str \<Rightarrow> net_error + 'doc" where
  "replay_closure C W octets expected_did =
     and_then (ok_or Recognition (bundle_from_slice W octets)) (\<lambda>closure.
     and_then (case filter (delta_is_root C) (bundle_deltas C closure) of [root] \<Rightarrow> Inr root | _ \<Rightarrow> Inl Recognition) (\<lambda>root.
     and_then (ok_or Recognition (delta_added_key C root)) (\<lambda>multibase.
     and_then (ok_or Recognition (doc_new C multibase)) (\<lambda>document.
     if Revocation.doc_did C document \<noteq> expected_did then Inl Recognition
     else map_err (\<lambda>_. Recognition) (merge_verified_bundle C document closure)))))"

definition fetch_closure ::
  "('doc, 'delta, 'bundle, 'v) crdt \<Rightarrow> ('delta, 'bundle, 'j) wire \<Rightarrow> network \<Rightarrow> nat \<Rightarrow> state_resolver \<Rightarrow> rust_str \<Rightarrow> net_error + 'doc" where
  "fetch_closure C W N i resolver did =
     (let url = join_url (resolver_url resolver) (RESOLUTION_PATH @ did @ CLOSURE_OPTION) in
      and_then (client N RESOLVER_DEADLINE) (\<lambda>http.
      and_then (map_err of_send_error (send N i http
        (get_request url [(''accept'', ''application/json''), (''accept-encoding'', ''identity'')]))) (\<lambda>response.
      if \<not> is_success (status_code response) then Inl (Refused ''the resolver returned no closure'')
      else
      and_then (bounded_body response MAX_CLOSURE_OCTETS) (\<lambda>b.
      and_then (closure_from_resolution (json W) b) (\<lambda>c. replay_closure C W c did)))))"

text \<open>The loop over the roster: the first document ends it, every error is recorded.\<close>

fun ask_resolvers ::
  "(nat \<Rightarrow> state_resolver \<Rightarrow> net_error + 'doc) \<Rightarrow> nat \<Rightarrow> state_resolver list \<Rightarrow> (rust_str \<times> resolver_outcome) list
   \<Rightarrow> (rust_str \<times> resolver_outcome) list \<times> ('doc \<times> rust_str) option" where
  "ask_resolvers ask i [] outcomes = (outcomes, None)"
| "ask_resolvers ask i (r # rs) outcomes =
     (case ask i r of
        Inr document \<Rightarrow> (outcomes @ [(resolver_id r, Resolved)], Some (document, resolver_id r))
      | Inl e \<Rightarrow> ask_resolvers ask (i + 1) rs (outcomes @ [(resolver_id r, outcome_of e)]))"

definition resolve_issuer ::
  "('doc, 'delta, 'bundle, 'v) crdt \<Rightarrow> ('delta, 'bundle, 'j) wire \<Rightarrow> network \<Rightarrow> application_profile \<Rightarrow> rust_str
   \<Rightarrow> octets option \<Rightarrow> acceptance \<Rightarrow> net_error + 'doc resolved_closure" where
  "resolve_issuer C W N P did bundled acc =
     and_then (recognise_did W did) (\<lambda>_.
     case ask_resolvers (\<lambda>i r. fetch_closure C W N i r did) 0 (state_resolvers P) [] of
       (outcomes, Some (document, rid)) \<Rightarrow>
         Inr \<lparr>rc_document = document, rc_source = StateResolver, rc_resolver_id = Some rid, rc_outcomes = outcomes\<rparr>
     | (outcomes, None) \<Rightarrow>
         and_then (bundle_is_admissible outcomes acc) (\<lambda>_.
         and_then (ok_or (Refused ''no declared resolver answered and no closure was bundled'') bundled) (\<lambda>octets.
         and_then (replay_closure C W octets did) (\<lambda>document.
         Inr \<lparr>rc_document = document, rc_source = BundleOrCache, rc_resolver_id = None, rc_outcomes = outcomes\<rparr>))))"

section \<open>The Path-B quorum\<close>

definition path_b_union_revocations :: "application_profile \<Rightarrow> resolver_revocations list \<Rightarrow> net_error + rust_str list" where
  "path_b_union_revocations P observations =
     map_err (\<lambda>_. Refused ''Path-B resolver quorum was not independently established'') (union_resolver_revocations P observations)"

record 'doc resolver_quorum =
  rq_closures :: "(rust_str \<times> 'doc) list"
  rq_outcomes :: "(rust_str \<times> resolver_outcome) list"

text \<open>\<open>PathBClosureFacts\<close> has the members of the observation of \<open>path_b.rs\<close>, and is written as one.\<close>

definition nif_key_of :: "externs \<Rightarrow> rust_str \<Rightarrow> nat \<times> method_entry \<Rightarrow> net_error + closure_assertion_method" where
  "nif_key_of X did = (\<lambda>(index, entry).
     and_then (ok_or (Refused ''Path-B assertion key is not base64url multibase'') (strip_prefix ''u'' (public_key_multibase entry))) (\<lambda>t.
     and_then (ok_or (Refused ''Path-B assertion key is malformed'') (b64_decode_vec X t)) (\<lambda>raw.
     if length raw \<noteq> 32 then Inl (Refused ''Path-B assertion key is not Ed25519 length'')
     else Inr \<lparr>cm_id = did @ ''#jwk-'' @ dec_nat index, cm_kind = ''JsonWebKey'', cm_public_key = raw,
       cm_has_private_component = False\<rparr>)))"

definition nif_closure ::
  "externs \<Rightarrow> ('doc, 'delta, 'bundle, 'v) crdt \<Rightarrow> unix_seconds \<Rightarrow> rust_str \<times> 'doc \<Rightarrow> net_error + resolver_observation" where
  "nif_closure X C fetched_at = (\<lambda>(rid, document).
     let asserting = sort_key entry_method_id (filter asserts (doc_methods C document)) in
     and_then (try_map (nif_key_of X (Revocation.doc_did C document)) (enumerate 0 asserting)) (\<lambda>methods.
     Inr \<lparr>ob_resolver_id = rid, ob_did = Revocation.doc_did C document, ob_did_recomputed_ok = True,
       ob_deltas_verified = True, ob_locally_closed = True, ob_deactivated = doc_deactivated C document,
       ob_assertion_methods = methods, ob_revoked = doc_revoked C document,
       ob_also_known_as = doc_also_known_as C document, ob_fetched_at = fetched_at\<rparr>))"

definition nif_closures ::
  "externs \<Rightarrow> ('doc, 'delta, 'bundle, 'v) crdt \<Rightarrow> 'doc resolver_quorum \<Rightarrow> unix_seconds \<Rightarrow> net_error + resolver_observation list" where
  "nif_closures X C Q fetched_at = try_map (nif_closure X C fetched_at) (rq_closures Q)"

fun ask_all ::
  "(nat \<Rightarrow> state_resolver \<Rightarrow> net_error + 'doc) \<Rightarrow> nat \<Rightarrow> state_resolver list
   \<Rightarrow> (rust_str \<times> 'doc) list \<times> (rust_str \<times> resolver_outcome) list" where
  "ask_all ask i [] = ([], [])"
| "ask_all ask i (r # rs) =
     (let (closures, outcomes) = ask_all ask (i + 1) rs in
      case ask i r of
        Inr document \<Rightarrow> ((resolver_id r, document) # closures, (resolver_id r, Resolved) # outcomes)
      | Inl e \<Rightarrow> (closures, (resolver_id r, outcome_of e) # outcomes))"

definition resolve_path_b_quorum ::
  "('doc, 'delta, 'bundle, 'v) crdt \<Rightarrow> ('delta, 'bundle, 'j) wire \<Rightarrow> network \<Rightarrow> application_profile \<Rightarrow> rust_str
   \<Rightarrow> net_error + 'doc resolver_quorum" where
  "resolve_path_b_quorum C W N P did =
     and_then (recognise_did W did) (\<lambda>_.
     if length (state_resolvers P) < MINIMUM_RESOLVER_QUORUM
     then Inl (Refused ''Path-B profile declares too few state resolvers for the quorum'')
     else
     let (closures, outcomes) = ask_all (\<lambda>i r. fetch_closure C W N i r did) 0 (state_resolvers P) in
     if length closures < MINIMUM_RESOLVER_QUORUM then Inl (Refused ''Path-B resolver quorum was not established'')
     else Inr \<lparr>rq_closures = closures, rq_outcomes = outcomes\<rparr>)"
section \<open>Publication and submission\<close>

text \<open>
  \<open>join_all\<close>: a future is what each poll of it returns, \<open>None\<close> while it is pending; a round polls every
  future without a result. The fuel counts the rounds.
\<close>

definition poll_round :: "nat \<Rightarrow> (nat \<Rightarrow> 'a option) list \<Rightarrow> 'a option list \<Rightarrow> 'a option list" where
  "poll_round n futures results = map (\<lambda>(f, r). case r of None \<Rightarrow> f n | Some v \<Rightarrow> Some v) (zip futures results)"

fun join_rounds :: "nat \<Rightarrow> nat \<Rightarrow> (nat \<Rightarrow> 'a option) list \<Rightarrow> 'a option list \<Rightarrow> 'a list option" where
  "join_rounds 0 n futures results = None"
| "join_rounds (Suc fuel) n futures results =
     (let results = poll_round n futures results in
      if list_all (\<lambda>r. r \<noteq> None) results then Some (map the results) else join_rounds fuel (n + 1) futures results)"

definition join_all :: "nat \<Rightarrow> (nat \<Rightarrow> 'a option) list \<Rightarrow> 'a list option" where
  "join_all fuel futures = join_rounds fuel 0 futures (replicate (length futures) None)"

text \<open>The futures of the roster, each on a network of its own, and their results in its order.\<close>

definition fan_out :: "(network \<Rightarrow> state_resolver \<Rightarrow> bool) \<Rightarrow> (nat \<Rightarrow> network) \<Rightarrow> state_resolver list \<Rightarrow> (state_resolver \<times> bool) list" where
  "fan_out f Ns rs = map (\<lambda>(i, r). (r, f (Ns i) r)) (enumerate 0 rs)"

definition acknowledging :: "(state_resolver \<times> bool) list \<Rightarrow> rust_str list" where
  "acknowledging results = map (\<lambda>(r, ok). resolver_id r) (filter (\<lambda>(r, ok). ok) results)"

definition not_acknowledging :: "(state_resolver \<times> bool) list \<Rightarrow> rust_str list" where
  "not_acknowledging results = map (\<lambda>(r, ok). resolver_id r) (filter (\<lambda>(r, ok). \<not> ok) results)"

record publication_plan =
  pp_did :: rust_str
  pp_create_body :: octets
  pp_later_deltas :: "octets list"

definition later_delta_body :: "(signed_delta, 'bundle, 'j) wire \<Rightarrow> rust_str \<Rightarrow> signed_delta \<Rightarrow> net_error + octets" where
  "later_delta_body W did d =
     (if delta_did d \<noteq> did then Inl (Refused ''an issuer delta targets another DID'')
      else and_then (ok_or (Refused ''an issuer delta is not serialisable'') (delta_to_vec W d)) (\<lambda>b.
        if b = [] \<or> length b > 65536 then Inl (Refused ''an issuer delta exceeds the service bound'') else Inr b))"

definition issuer_publication_plan ::
  "'doc did_crdt \<Rightarrow> (signed_delta, 'bundle, 'j) wire \<Rightarrow> issuer_identity \<Rightarrow> net_error + publication_plan" where
  "issuer_publication_plan D W I =
     and_then (recognise_did W (ii_did I)) (\<lambda>_.
     case ii_deltas I of
       [] \<Rightarrow> Inl (Refused ''the issuer closure is empty'')
     | genesis # later \<Rightarrow>
         and_then (case delta_op_of genesis of AddVerificationMethod _ k _ _ \<Rightarrow> Inr k
                   | _ \<Rightarrow> Inl (Refused ''the issuer closure has no genesis'')) (\<lambda>multibase.
         if delta_parents genesis \<noteq> [] \<or> delta_did genesis \<noteq> ii_did I
         then Inl (Refused ''the issuer genesis binding is invalid'')
         else
         and_then (map_err (\<lambda>_. Refused ''the issuer genesis key is invalid'') (document_new D multibase)) (\<lambda>(derived, derived_genesis).
         if Core_Externs.doc_did D derived \<noteq> ii_did I
           \<or> (case content_hash D derived_genesis of Inr h \<Rightarrow> Some h | Inl _ \<Rightarrow> None)
             \<noteq> (case content_hash D genesis of Inr h \<Rightarrow> Some h | Inl _ \<Rightarrow> None)
         then Inl (Refused ''the issuer genesis does not derive its DID'')
         else
         and_then (ok_or (Refused ''the issuer create request is not serialisable'') (create_request W multibase)) (\<lambda>create_body.
         and_then (try_map (later_delta_body W (ii_did I)) later) (\<lambda>later_deltas.
         Inr \<lparr>pp_did = ii_did I, pp_create_body = create_body, pp_later_deltas = later_deltas\<rparr>)))))"

definition is_acknowledgement :: "nat \<Rightarrow> bool" where "is_acknowledgement status \<longleftrightarrow> status = 202"

definition post_json :: "rust_str \<Rightarrow> bool \<Rightarrow> octets \<Rightarrow> http_request" where
  "post_json url identity b =
     \<lparr>req_method = POST, req_url = url,
      req_headers = (''content-type'', ''application/json'') # (if identity then [(''accept-encoding'', ''identity'')] else []),
      req_body = Some b\<rparr>"

fun post_deltas :: "network \<Rightarrow> http_client \<Rightarrow> nat \<Rightarrow> rust_str \<Rightarrow> octets list \<Rightarrow> bool" where
  "post_deltas N http i url [] = True"
| "post_deltas N http i url (d # ds) =
     (case send N i http (post_json url True d) of
        Inr response \<Rightarrow> is_acknowledgement (status_code response) \<and> post_deltas N http (i + 1) url ds
      | Inl _ \<Rightarrow> False)"

definition publish_issuer_to_one :: "'j serde \<Rightarrow> publication_plan \<Rightarrow> network \<Rightarrow> state_resolver \<Rightarrow> bool" where
  "publish_issuer_to_one J plan N resolver =
     (case client N RESOLVER_DEADLINE of
        Inl _ \<Rightarrow> False
      | Inr http \<Rightarrow>
          (case send N 0 http (post_json (join_url (resolver_url resolver) ''/dids'') True (pp_create_body plan)) of
             Inl _ \<Rightarrow> False
           | Inr create \<Rightarrow>
               (status_code create = 201 \<or> status_code create = 200) \<and>
               (case bounded_body create 65536 of
                  Inl _ \<Rightarrow> False
                | Inr b \<Rightarrow>
                    (case json_from_slice J b of
                       None \<Rightarrow> False
                     | Some response \<Rightarrow>
                         Option.bind (json_get J response ''did'') (json_as_str J) = Some (pp_did plan) \<and>
                         post_deltas N http 1 (join_url (resolver_url resolver) (submission_path (pp_did plan)))
                           (pp_later_deltas plan)))))"

record publication_report =
  pr_acknowledged :: "rust_str list"
  pr_unreachable :: "rust_str list"

definition publish_issuer_identity ::
  "'doc did_crdt \<Rightarrow> (signed_delta, 'bundle, 'j) wire \<Rightarrow> (nat \<Rightarrow> network) \<Rightarrow> application_profile \<Rightarrow> issuer_identity
   \<Rightarrow> net_error + publication_report" where
  "publish_issuer_identity D W Ns P I =
     and_then (issuer_publication_plan D W I) (\<lambda>plan.
       let results = fan_out (publish_issuer_to_one (json W) plan) Ns (state_resolvers P) in
       Inr \<lparr>pr_acknowledged = acknowledging results, pr_unreachable = not_acknowledging results\<rparr>)"

definition revoked_credential_id :: "('delta, 'bundle, 'j) wire \<Rightarrow> 'delta \<Rightarrow> net_error + rust_str" where
  "revoked_credential_id W d = ok_or (Refused ''the delta is not a RevokeCredential operation'') (delta_revokes W d)"

definition submit_one :: "rust_str \<Rightarrow> octets \<Rightarrow> network \<Rightarrow> state_resolver \<Rightarrow> bool" where
  "submit_one did b N resolver =
     (case client N RESOLVER_DEADLINE of
        Inl _ \<Rightarrow> False
      | Inr http \<Rightarrow>
          (case send N 0 http (post_json (join_url (resolver_url resolver) (submission_path did)) False b) of
             Inr response \<Rightarrow> is_acknowledgement (status_code response)
           | Inl _ \<Rightarrow> False))"

record submission_report =
  sr_submission :: submission
  sr_acknowledged :: "rust_str list"
  sr_unreachable :: "rust_str list"

definition submit_revocation ::
  "('delta, 'bundle, 'j) wire \<Rightarrow> (nat \<Rightarrow> network) \<Rightarrow> application_profile \<Rightarrow> 'delta \<Rightarrow> net_error + submission_report" where
  "submit_revocation W Ns P d =
     and_then (revoked_credential_id W d) (\<lambda>credential_id.
     case delta_to_vec W d of
       None \<Rightarrow> Inr \<lparr>sr_submission = begin_submission credential_id, sr_acknowledged = [],
         sr_unreachable = map resolver_id (state_resolvers P)\<rparr>
     | Some b \<Rightarrow>
         let results = fan_out (submit_one (delta_subject W d) b) Ns (state_resolvers P);
             acks = acknowledging results
         in Inr \<lparr>sr_submission = foldl acknowledged (begin_submission credential_id) acks, sr_acknowledged = acks,
              sr_unreachable = not_acknowledging results\<rparr>)"

definition confirm_revocation ::
  "('doc, 'delta, 'bundle, 'v) crdt \<Rightarrow> ('delta, 'bundle, 'j) wire \<Rightarrow> network \<Rightarrow> application_profile \<Rightarrow> rust_str
   \<Rightarrow> submission \<Rightarrow> net_error + submission" where
  "confirm_revocation C W N P did s =
     and_then (resolve_issuer C W N P did None Repeat) (\<lambda>resolved. Inr (observe C s (rc_document resolved)))"

section \<open>Where a closure comes from\<close>

lemma recognise_did_iff [simp]: "recognise_did W did = Inr u \<longleftrightarrow> did_parses W did"
  by (simp add: recognise_did_def res_iff)

lemma admissible_iff: "bundle_is_admissible outs acc = Inr u \<longleftrightarrow> list_all (\<lambda>(_, out). \<not> is_reached out) outs \<and> acc = First"
  by (cases acc) (auto simp: bundle_is_admissible_def list_ex_iff list_all_iff)

lemma unreachable_iff: "\<not> is_reached (outcome_of e) \<longleftrightarrow> e = Transport \<or> e = Timeout"
  by (cases e) (simp_all add: outcome_of_def)

lemma ask_resolvers_None:
  "ask_resolvers ask i rs acc = (outs, None) \<longleftrightarrow>
     (\<forall>j < length rs. \<not> is_ok (ask (i + j) (rs ! j)))
     \<and> outs = acc @ map (\<lambda>(j, r). (resolver_id r, outcome_of (projl (ask j r)))) (enumerate i rs)"
proof (induction rs arbitrary: i acc)
  case (Cons r rs)
  show ?case
  proof (cases "ask i r")
    case (Inl e)
    then show ?thesis by (auto simp: Cons.IH All_less_Suc2)
  next
    case (Inr d)
    then show ?thesis by (auto simp: All_less_Suc2)
  qed
qed auto

lemma ask_resolvers_Some:
  "ask_resolvers ask i rs acc = (outs, Some (d, rid)) \<longleftrightarrow>
     (\<exists>j < length rs. (\<forall>k < j. \<not> is_ok (ask (i + k) (rs ! k))) \<and> ask (i + j) (rs ! j) = Inr d \<and> rid = resolver_id (rs ! j)
        \<and> outs = acc @ map (\<lambda>(k, r). (resolver_id r, outcome_of (projl (ask k r)))) (enumerate i (take j rs)) @ [(rid, Resolved)])"
proof (induction rs arbitrary: i acc)
  case (Cons r rs)
  show ?case
  proof (cases "ask i r")
    case (Inl e)
    then show ?thesis by (auto simp: Cons.IH Ex_less_Suc2 All_less_Suc2)
  next
    case (Inr d)
    then show ?thesis by (auto simp: Ex_less_Suc2 All_less_Suc2)
  qed
qed auto

text \<open>The record a failed roster leaves, when no resolver was reached.\<close>

lemma roster_silent:
  assumes "ask_resolvers ask 0 rs [] = (outs, None)"
  shows "list_all (\<lambda>(_, out). \<not> is_reached out) outs \<longleftrightarrow> (\<forall>j < length rs. ask j (rs ! j) \<in> {Inl Transport, Inl Timeout})"
    "list_all (\<lambda>(_, out). \<not> is_reached out) outs \<Longrightarrow> outs = map (\<lambda>r. (resolver_id r, Unreachable)) rs"
proof -
  from assms have a: "\<forall>j < length rs. \<not> is_ok (ask j (rs ! j))"
      "outs = map (\<lambda>(j, r). (resolver_id r, outcome_of (projl (ask j r)))) (enumerate 0 rs)"
    unfolding ask_resolvers_None by simp_all
  have l: "list_all (\<lambda>(_, out). \<not> is_reached out) outs \<longleftrightarrow> (\<forall>j < length rs. \<not> is_reached (outcome_of (projl (ask j (rs ! j)))))"
    unfolding a(2) by (simp add: list_all_length nth_enumerate_eq)
  have e: "\<not> is_reached (outcome_of (projl (ask j (rs ! j)))) \<longleftrightarrow> ask j (rs ! j) \<in> {Inl Transport, Inl Timeout}"
    if "j < length rs" for j
    using a(1) that by (cases "ask j (rs ! j)") (auto simp: unreachable_iff)
  from l e show "list_all (\<lambda>(_, out). \<not> is_reached out) outs \<longleftrightarrow> (\<forall>j < length rs. ask j (rs ! j) \<in> {Inl Transport, Inl Timeout})"
    by blast
  show "outs = map (\<lambda>r. (resolver_id r, Unreachable)) rs" if "list_all (\<lambda>(_, out). \<not> is_reached out) outs"
  proof (rule nth_equalityI)
    fix j assume "j < length outs"
    then have j: "j < length rs" by (simp add: a(2))
    with that l e have "ask j (rs ! j) \<in> {Inl Transport, Inl Timeout}" by blast
    with j show "outs ! j = map (\<lambda>r. (resolver_id r, Unreachable)) rs ! j"
      by (auto simp: a(2) nth_enumerate_eq outcome_of_def)
  qed (simp add: a(2))
qed

text \<open>Confirmation passes no bundle and calls itself a repeat, so only a resolver's closure confirms.\<close>

lemma repeat_needs_resolver:
  assumes "resolve_issuer C W N P did bundled Repeat = Inr R"
  shows "rc_source R = StateResolver \<and> (\<exists>j < length (state_resolvers P).
    fetch_closure C W N j (state_resolvers P ! j) did = Inr (rc_document R))"
  using assms
  by (auto simp: resolve_issuer_def res_iff admissible_iff ask_resolvers_Some split: prod.splits option.splits)

lemma fetched_closure:
  assumes "fetch_closure C W N i r did = Inr doc"
  shows "\<exists>http resp b c. client N RESOLVER_DEADLINE = Inr http
    \<and> send N i http (get_request (join_url (resolver_url r) (''/'' @ did @ ''?includeClosure=true''))
        [(''accept'', ''application/json''), (''accept-encoding'', ''identity'')]) = Inr resp
    \<and> is_success (status_code resp) \<and> bounded_body resp 1048576 = Inr b
    \<and> closure_from_resolution (json W) b = Inr c \<and> replay_closure C W c did = Inr doc"
  using assms unfolding fetch_closure_def Let_def RESOLUTION_PATH_def CLOSURE_OPTION_def MAX_CLOSURE_OCTETS_def
  by (auto simp: res_iff)

section \<open>The replay\<close>

lemma single_iff: "(case xs of [x] \<Rightarrow> Inr x | _ \<Rightarrow> Inl e) = Inr y \<longleftrightarrow> xs = [y]"
  by (auto split: list.splits)

lemma replay_closure_iff:
  "replay_closure C W octets did = Inr doc \<longleftrightarrow>
     (\<exists>b root multibase fresh. bundle_from_slice W octets = Some b \<and> filter (delta_is_root C) (bundle_deltas C b) = [root]
        \<and> delta_added_key C root = Some multibase \<and> doc_new C multibase = Some fresh \<and> Revocation.doc_did C fresh = did
        \<and> merge_verified_bundle C fresh b = Inr doc)"
  unfolding replay_closure_def by (simp add: res_iff single_iff)

lemma nif_key_iff: "nif_key_of X did e = Inr m \<longleftrightarrow> asserting_key_of X did e = Inr m"
  by (auto simp: nif_key_of_def asserting_key_of_def res_iff split: prod.splits)

lemma nif_closure_iff:
  "nif_closure X C t (rid, doc) = Inr ob \<longleftrightarrow>
     (\<exists>methods. try_map (asserting_key_of X (Revocation.doc_did C doc)) (enumerate 0 (asserting_entries C doc)) = Inr methods
        \<and> ob = \<lparr>ob_resolver_id = rid, ob_did = Revocation.doc_did C doc, ob_did_recomputed_ok = True,
          ob_deltas_verified = True, ob_locally_closed = True, ob_deactivated = doc_deactivated C doc,
          ob_assertion_methods = methods, ob_revoked = doc_revoked C doc,
          ob_also_known_as = doc_also_known_as C doc, ob_fetched_at = t\<rparr>)"
  unfolding nif_closure_def asserting_entries_def Let_def by (auto simp: try_map_Inr_iff nif_key_iff res_iff)

section \<open>The roster\<close>

lemma ask_all_closures:
  "(rid, doc) \<in> set (fst (ask_all ask i rs)) \<longleftrightarrow> (\<exists>j < length rs. rid = resolver_id (rs ! j) \<and> ask (i + j) (rs ! j) = Inr doc)"
  by (induction rs arbitrary: i) (auto simp: case_prod_beta Ex_less_Suc2 split: sum.splits)

lemma ask_all_outcomes: "map fst (snd (ask_all ask i rs)) = map resolver_id rs"
  by (induction rs arbitrary: i) (auto simp: case_prod_beta split: sum.splits)

lemma quorum_iff:
  "resolve_path_b_quorum C W N P did = Inr Q \<longleftrightarrow> did_parses W did \<and> rq_closures Q \<noteq> []
     \<and> (rq_closures Q, rq_outcomes Q) = ask_all (\<lambda>i r. fetch_closure C W N i r did) 0 (state_resolvers P)"
  by (cases Q) (auto simp: resolve_path_b_quorum_def res_iff MINIMUM_RESOLVER_QUORUM_def less_Suc_eq_le not_less Suc_le_eq
      split: prod.splits)

section \<open>Fan-out\<close>

lemma set_fan_out: "(r, ok) \<in> set (fan_out f Ns rs) \<longleftrightarrow> (\<exists>j < length rs. r = rs ! j \<and> ok = f (Ns j) (rs ! j))"
proof -
  have "fan_out f Ns rs = map (\<lambda>j. (rs ! j, f (Ns j) (rs ! j))) [0..<length rs]"
    by (rule nth_equalityI) (simp_all add: fan_out_def nth_enumerate_eq)
  then show ?thesis by (auto simp: image_iff)
qed

lemma acknowledging_iff:
  "rid \<in> set (acknowledging (fan_out f Ns rs)) \<longleftrightarrow> (\<exists>j < length rs. rid = resolver_id (rs ! j) \<and> f (Ns j) (rs ! j))"
proof -
  have "rid \<in> set (acknowledging (fan_out f Ns rs)) \<longleftrightarrow> (\<exists>r. rid = resolver_id r \<and> (r, True) \<in> set (fan_out f Ns rs))"
    unfolding acknowledging_def by (auto simp: image_iff)
  then show ?thesis unfolding set_fan_out by blast
qed

lemma not_acknowledging_iff:
  "rid \<in> set (not_acknowledging (fan_out f Ns rs)) \<longleftrightarrow> (\<exists>j < length rs. rid = resolver_id (rs ! j) \<and> \<not> f (Ns j) (rs ! j))"
proof -
  have "rid \<in> set (not_acknowledging (fan_out f Ns rs)) \<longleftrightarrow> (\<exists>r. rid = resolver_id r \<and> (r, False) \<in> set (fan_out f Ns rs))"
    unfolding not_acknowledging_def by (auto simp: image_iff)
  then show ?thesis unfolding set_fan_out by blast
qed

lemma fan_out_covers:
  "set (acknowledging (fan_out f Ns rs)) \<union> set (not_acknowledging (fan_out f Ns rs)) = resolver_id ` set rs"
  by (auto simp: acknowledging_iff not_acknowledging_iff) (metis imageI in_set_conv_nth)

lemma acknowledged_pending:
  "foldl acknowledged (Pending c a) xs = Pending c (a @ xs)"
  by (induction xs arbitrary: a) simp_all

text \<open>\<open>join_all\<close> returns, in order, the value of each future's first ready poll, once all are ready.\<close>

definition ready_at :: "(nat \<Rightarrow> 'a option) \<Rightarrow> nat \<Rightarrow> 'a \<Rightarrow> bool" where
  "ready_at f t v \<longleftrightarrow> f t = Some v \<and> (\<forall>k < t. f k = None)"

lemma poll_round_nth:
  "length results = length futures \<Longrightarrow> i < length futures \<Longrightarrow>
    poll_round n futures results ! i = (case results ! i of None \<Rightarrow> (futures ! i) n | Some v \<Rightarrow> Some v)"
  by (simp add: poll_round_def)

lemma join_rounds_ready:
  assumes "length results = length futures" "list_all2 (\<lambda>f (t, v). ready_at f t v) futures tvs"
    and "\<And>i. i < length futures \<Longrightarrow> results ! i = (if fst (tvs ! i) < n then Some (snd (tvs ! i)) else None)"
    and "\<And>i. i < length futures \<Longrightarrow> fst (tvs ! i) < n + fuel" "0 < fuel"
  shows "join_rounds fuel n futures results = Some (map snd tvs)"
  using assms
proof (induction fuel arbitrary: n results)
  case (Suc fuel)
  let ?r = "poll_round n futures results"
  have len: "length tvs = length futures" using Suc.prems(2) by (simp add: list_all2_lengthD)
  have ready: "ready_at (futures ! i) (fst (tvs ! i)) (snd (tvs ! i))" if "i < length futures" for i
    using Suc.prems(2) that by (auto simp: list_all2_conv_all_nth case_prod_beta)
  have nth: "?r ! i = (if fst (tvs ! i) < n + 1 then Some (snd (tvs ! i)) else None)" if "i < length futures" for i
    using poll_round_nth [OF Suc.prems(1) that, of n] Suc.prems(3) [OF that] ready [OF that]
    by (auto simp: ready_at_def less_Suc_eq not_less_less_Suc_eq)
  have lr: "length ?r = length futures" using Suc.prems(1) by (simp add: poll_round_def)
  show ?case
  proof (cases "list_all (\<lambda>r. r \<noteq> None) ?r")
    case True
    then have "map the ?r = map snd tvs"
      using nth len lr by (intro nth_equalityI) (auto simp: list_all_length split: if_splits)
    with True show ?thesis by simp
  next
    case False
    then obtain i where i: "i < length futures" "?r ! i = None" using lr by (auto simp: list_all_length)
    then have "n + 1 \<le> fst (tvs ! i)" using nth by (auto split: if_splits)
    with Suc.prems(4) [OF i(1)] have "0 < fuel" by simp
    moreover have "fst (tvs ! j) < (n + 1) + fuel" if "j < length futures" for j using Suc.prems(4) [OF that] by simp
    ultimately have "join_rounds fuel (n + 1) futures ?r = Some (map snd tvs)"
      by (intro Suc.IH lr Suc.prems(2) nth)
    with False show ?thesis by simp
  qed
qed simp

lemma post_deltas_iff:
  "post_deltas N http i url ds \<longleftrightarrow>
     (\<forall>k < length ds. \<exists>r. send N (i + k) http (post_json url True (ds ! k)) = Inr r \<and> status_code r = 202)"
  by (induction ds arbitrary: i) (auto simp: All_less_Suc2 is_acknowledgement_def split: sum.splits)

text \<open>
  A resolver counts as holding a new issuer only when it named the identifier back and answered 202 to
  every later delta, each sent after the answer to the one before.
\<close>

lemma published_to:
  assumes "publish_issuer_to_one J plan N r"
  shows "\<exists>http c. client N RESOLVER_DEADLINE = Inr http
    \<and> send N 0 http (post_json (join_url (resolver_url r) ''/dids'') True (pp_create_body plan)) = Inr c \<and> status_code c \<in> {200, 201}
    \<and> (\<forall>k < length (pp_later_deltas plan). \<exists>a. status_code a = 202 \<and>
         send N (1 + k) http (post_json (join_url (resolver_url r) (submission_path (pp_did plan))) True (pp_later_deltas plan ! k)) = Inr a)"
  using assms unfolding publish_issuer_to_one_def post_deltas_iff
  by (auto split: sum.splits option.splits)

lemma plan_binds:
  assumes "issuer_publication_plan D W I = Inr plan"
  shows "pp_did plan = ii_did I \<and> (\<exists>genesis later m k s r doc g. ii_deltas I = genesis # later
    \<and> delta_op_of genesis = AddVerificationMethod m k s r \<and> delta_parents genesis = [] \<and> delta_did genesis = ii_did I
    \<and> document_new D k = Inr (doc, g) \<and> Core_Externs.doc_did D doc = ii_did I
    \<and> list_all2 (\<lambda>d b. delta_did d = ii_did I \<and> delta_to_vec W d = Some b \<and> b \<noteq> [] \<and> length b \<le> 65536) later (pp_later_deltas plan))"
proof -
  have later: "later_delta_body W did d = Inr b \<longleftrightarrow> delta_did d = did \<and> delta_to_vec W d = Some b \<and> b \<noteq> [] \<and> length b \<le> 65536" for did d b
    by (auto simp: later_delta_body_def res_iff)
  from assms show ?thesis unfolding issuer_publication_plan_def
    by (auto simp: res_iff later split: list.splits delta_op.splits)
qed

text \<open>
  When a resolver counts as silent: no request could be made, no response came, or a successful one broke off in its
  body, which \<open>bounded_body\<close> reports as a failure of the transport.
\<close>

definition no_answer :: "network \<Rightarrow> nat \<Rightarrow> state_resolver \<Rightarrow> rust_str \<Rightarrow> bool" where
  "no_answer N i r did \<longleftrightarrow>
     (case client N RESOLVER_DEADLINE of
        Inl e \<Rightarrow> e = Transport \<or> e = Timeout
      | Inr http \<Rightarrow>
          (case send N i http (get_request (join_url (resolver_url r) (''/'' @ did @ ''?includeClosure=true''))
               [(''accept'', ''application/json''), (''accept-encoding'', ''identity'')]) of
             Inl e \<Rightarrow> True
           | Inr resp \<Rightarrow> is_success (status_code resp) \<and> bounded_body resp MAX_CLOSURE_OCTETS = Inl Transport))"

lemma read_chunks_errors: "read_chunks m acc cs = Inl e \<Longrightarrow> e = Transport \<or> e = net_error.TooLarge"
  by (induction m acc cs rule: read_chunks.induct) (auto split: if_splits)

lemma replay_closure_errors: "replay_closure C W octets did = Inl e \<Longrightarrow> e = Recognition"
  by (auto simp: replay_closure_def and_then_def ok_or_def map_err_def split: sum.splits option.splits list.splits if_splits)

lemma closure_from_resolution_errors: "closure_from_resolution J octets = Inl e \<Longrightarrow> e \<noteq> Transport \<and> e \<noteq> Timeout"
  by (auto simp: closure_from_resolution_def res_iff)

lemma silent_iff: "fetch_closure C W N i r did \<in> {Inl Transport, Inl Timeout} \<longleftrightarrow> no_answer N i r did"
proof (cases "client N RESOLVER_DEADLINE")
  case (Inr http)
  let ?req = "get_request (join_url (resolver_url r) (''/'' @ did @ ''?includeClosure=true''))
    [(''accept'', ''application/json''), (''accept-encoding'', ''identity'')]"
  show ?thesis
  proof (cases "send N i http ?req")
    case (Inl e)
    then show ?thesis using Inr
      by (cases e) (simp_all add: fetch_closure_def no_answer_def Let_def RESOLUTION_PATH_def CLOSURE_OPTION_def of_send_error_def)
  next
    case resp: (Inr resp)
    show ?thesis
    proof (cases "is_success (status_code resp)")
      case True
      have f: "fetch_closure C W N i r did = and_then (bounded_body resp MAX_CLOSURE_OCTETS)
          (\<lambda>b. and_then (closure_from_resolution (json W) b) (\<lambda>c. replay_closure C W c did))"
        using Inr resp True by (simp add: fetch_closure_def Let_def RESOLUTION_PATH_def CLOSURE_OPTION_def)
      have n: "no_answer N i r did \<longleftrightarrow> bounded_body resp MAX_CLOSURE_OCTETS = Inl Transport"
        using Inr resp True by (simp add: no_answer_def)
      show ?thesis
        unfolding f n using read_chunks_errors replay_closure_errors closure_from_resolution_errors
        by (cases "bounded_body resp MAX_CLOSURE_OCTETS") (fastforce simp: and_then_def bounded_body_def split: sum.splits if_splits)+
    next
      case False
      then show ?thesis
        using Inr resp by (simp add: fetch_closure_def no_answer_def Let_def RESOLUTION_PATH_def CLOSURE_OPTION_def)
    qed
  qed
qed (auto simp: fetch_closure_def no_answer_def Let_def)

section \<open>Properties\<close>

text \<open>
  C30. A closure is resolved exactly when the identifier parses and either some declared resolver delivers a
  closure that replays, the earlier ones in the roster having failed, or every declared resolver was silent, the
  grant is accepted for the first time, and the bundled closure replays. Silent is: no request could be made, none was
  answered before its deadline, or a successful response broke off within its bound while its body was read. So any
  other status, an oversized body, and a whole body that does not parse, verify or replay close the bundle path; a
  response that breaks off does not, although the comments count every answer as one that closes it.
\<close>

theorem closure_source_exact:
  "resolve_issuer C W N P did bundled acc = Inr R \<longleftrightarrow> did_parses W did \<and>
     ((\<exists>j < length (state_resolvers P).
         (\<forall>k < j. \<not> is_ok (fetch_closure C W N k (state_resolvers P ! k) did))
         \<and> fetch_closure C W N j (state_resolvers P ! j) did = Inr (rc_document R) \<and> rc_source R = StateResolver
         \<and> rc_resolver_id R = Some (resolver_id (state_resolvers P ! j))
         \<and> rc_outcomes R = map (\<lambda>(k, r). (resolver_id r, outcome_of (projl (fetch_closure C W N k r did))))
             (enumerate 0 (take j (state_resolvers P))) @ [(resolver_id (state_resolvers P ! j), Resolved)])
      \<or> ((\<forall>j < length (state_resolvers P). no_answer N j (state_resolvers P ! j) did)
         \<and> acc = First \<and> (\<exists>octets. bundled = Some octets \<and> replay_closure C W octets did = Inr (rc_document R))
         \<and> rc_source R = BundleOrCache \<and> rc_resolver_id R = None
         \<and> rc_outcomes R = map (\<lambda>r. (resolver_id r, Unreachable)) (state_resolvers P)))"
  (is "?l \<longleftrightarrow> did_parses W did \<and> (?resolver \<or> ?bundle)")
proof -
  let ?ask = "\<lambda>i r. fetch_closure C W N i r did"
  obtain outs res where a: "ask_resolvers ?ask 0 (state_resolvers P) [] = (outs, res)" by (rule prod.exhaust)
  show ?thesis
  proof (cases res)
    case (Some dr)
    then obtain d rid where a': "ask_resolvers ?ask 0 (state_resolvers P) [] = (outs, Some (d, rid))" using a by (cases dr) simp
    then obtain j where j: "j < length (state_resolvers P)" "?ask j (state_resolvers P ! j) = Inr d" "rid = resolver_id (state_resolvers P ! j)"
        "\<forall>k < j. \<not> is_ok (?ask k (state_resolvers P ! k))"
        "outs = map (\<lambda>(k, r). (resolver_id r, outcome_of (projl (?ask k r)))) (enumerate 0 (take j (state_resolvers P))) @ [(rid, Resolved)]"
      unfolding ask_resolvers_Some by auto
    have unique: "i = j" if "i < length (state_resolvers P)" "is_ok (?ask i (state_resolvers P ! i))"
        "\<forall>k < i. \<not> is_ok (?ask k (state_resolvers P ! k))" for i
      using j(2,4) that by (metis linorder_neqE_nat sum.disc(2))
    have "\<not> no_answer N j (state_resolvers P ! j) did"
      using j(2) silent_iff [of C W N j "state_resolvers P ! j" did] by simp
    then have "\<not> ?bundle" using j(1) by blast
    moreover have "?l \<longleftrightarrow> did_parses W did \<and>
        R = \<lparr>rc_document = d, rc_source = StateResolver, rc_resolver_id = Some rid, rc_outcomes = outs\<rparr>"
      by (auto simp: resolve_issuer_def res_iff a')
    moreover have "?resolver \<longleftrightarrow> R = \<lparr>rc_document = d, rc_source = StateResolver, rc_resolver_id = Some rid, rc_outcomes = outs\<rparr>"
    proof
      assume ?resolver
      then obtain i where i: "i < length (state_resolvers P)" "\<forall>k < i. \<not> is_ok (?ask k (state_resolvers P ! k))"
          "?ask i (state_resolvers P ! i) = Inr (rc_document R)" "rc_source R = StateResolver"
          "rc_resolver_id R = Some (resolver_id (state_resolvers P ! i))"
          "rc_outcomes R = map (\<lambda>(k, r). (resolver_id r, outcome_of (projl (?ask k r)))) (enumerate 0 (take i (state_resolvers P)))
             @ [(resolver_id (state_resolvers P ! i), Resolved)]"
        by blast
      then have "i = j" by (intro unique) simp_all
      with i j show "R = \<lparr>rc_document = d, rc_source = StateResolver, rc_resolver_id = Some rid, rc_outcomes = outs\<rparr>"
        by (cases R) simp
    next
      assume "R = \<lparr>rc_document = d, rc_source = StateResolver, rc_resolver_id = Some rid, rc_outcomes = outs\<rparr>"
      with j show ?resolver by (intro exI [of _ j]) simp
    qed
    ultimately show ?thesis by blast
  next
    case None
    then have n: "ask_resolvers ?ask 0 (state_resolvers P) [] = (outs, None)" using a by simp
    note silent = roster_silent [OF n]
    have "\<not> ?resolver" using n unfolding ask_resolvers_None by (metis add_0 sum.disc(2))
    moreover have "?l \<longleftrightarrow> did_parses W did \<and> list_all (\<lambda>(_, out). \<not> is_reached out) outs \<and> acc = First
        \<and> (\<exists>octets doc. bundled = Some octets \<and> replay_closure C W octets did = Inr doc
           \<and> R = \<lparr>rc_document = doc, rc_source = BundleOrCache, rc_resolver_id = None, rc_outcomes = outs\<rparr>)"
      unfolding resolve_issuer_def n by (auto simp: res_iff admissible_iff)
    moreover have "\<dots> \<longleftrightarrow> did_parses W did \<and> ?bundle"
    proof (cases "list_all (\<lambda>(_, out). \<not> is_reached out) outs")
      case True
      then have "\<forall>j < length (state_resolvers P). no_answer N j (state_resolvers P ! j) did"
        using silent(1) unfolding silent_iff by blast
      then have "?bundle \<longleftrightarrow> acc = First \<and> (\<exists>octets. bundled = Some octets \<and> replay_closure C W octets did = Inr (rc_document R))
         \<and> rc_source R = BundleOrCache \<and> rc_resolver_id R = None \<and> rc_outcomes R = outs"
        unfolding silent(2) [OF True] by blast
      with True show ?thesis by (cases R) auto
    next
      case False
      then have "\<not> ?bundle" using silent(1) unfolding silent_iff by blast
      with False show ?thesis by blast
    qed
    ultimately show ?thesis by blast
  qed
qed

text \<open>
  C31. Submitting a revocation leaves it pending whatever the resolvers answer, and reports every one of them as
  acknowledging or not; it is confirmed only by a closure that a declared resolver delivered for the
  identifier, that replays, and that revokes the credential the delta names.
\<close>

theorem revocation_confirmed_by_closure:
  assumes "submit_revocation W Ns P d = Inr S" "confirm_revocation C W N P did (sr_submission S) = Inr s"
  shows "\<exists>c. delta_revokes W d = Some c \<and> sr_submission S = Pending c (sr_acknowledged S)
    \<and> set (sr_acknowledged S) \<union> set (sr_unreachable S) = resolver_id ` set (state_resolvers P)
    \<and> (\<exists>j doc. j < length (state_resolvers P) \<and> fetch_closure C W N j (state_resolvers P ! j) did = Inr doc
        \<and> s = (if is_revoked C doc c then Confirmed c else Pending c (sr_acknowledged S)))"
proof -
  from assms(1) obtain c where c: "delta_revokes W d = Some c" "sr_submission S = Pending c (sr_acknowledged S)"
      "set (sr_acknowledged S) \<union> set (sr_unreachable S) = resolver_id ` set (state_resolvers P)"
  proof -
    from assms(1) obtain c where c: "delta_revokes W d = Some c" by (auto simp: submit_revocation_def revoked_credential_id_def res_iff)
    from assms(1) c have "sr_submission S = Pending c (sr_acknowledged S)"
      "set (sr_acknowledged S) \<union> set (sr_unreachable S) = resolver_id ` set (state_resolvers P)"
      unfolding submit_revocation_def revoked_credential_id_def begin_submission_def Let_def acknowledged_pending
      by (cases "delta_to_vec W d"; clarsimp simp: fan_out_covers res_iff)+
    with c that show thesis by blast
  qed
  from assms(2) obtain R where R: "resolve_issuer C W N P did None Repeat = Inr R" "s = observe C (sr_submission S) (rc_document R)"
    by (auto simp: confirm_revocation_def res_iff)
  from repeat_needs_resolver [OF R(1)] obtain j where j: "j < length (state_resolvers P)"
      "fetch_closure C W N j (state_resolvers P ! j) did = Inr (rc_document R)" by blast
  from R(2) c(2) have "s = (if is_revoked C (rc_document R) c then Confirmed c else Pending c (sr_acknowledged S))" by simp
  with c j show ?thesis by blast
qed

text \<open>
  C32. The shell and the core read one history alike: the facts the network crate projects from a closure it
  replayed are exactly those \<open>path_b.rs\<close> computes from the same closure, and exist for the same closures.
\<close>

theorem replays_agree:
  "and_then (replay_closure C W octets did) (\<lambda>doc. nif_closure X C t (rid, doc)) = Inr ob \<longleftrightarrow>
     (\<exists>b. bundle_from_slice W octets = Some b \<and> replay_resolver_closure X C b did rid t = Inr ob)"
  unfolding and_then_Inr_iff replay_closure_iff nif_closure_iff replay_iff by blast

text \<open>
  Waiting for the whole roster returns: when every future becomes ready, at rounds below the fuel, the
  result holds each one's first value, in the order of the roster.
\<close>

theorem join_all_values:
  assumes "list_all2 (\<lambda>f (t, v). ready_at f t v) futures tvs" "list_all (\<lambda>(t, v). t < fuel) tvs" "0 < fuel"
  shows "join_all fuel futures = Some (map snd tvs)"
  unfolding join_all_def
  using assms list_all2_lengthD [OF assms(1)] by (intro join_rounds_ready) (auto simp: list_all_length case_prod_beta)

section \<open>Witnesses\<close>

definition sample_network :: network where
  "sample_network = \<lparr>build_ok = (\<lambda>c. True), send = (\<lambda>i c r. Inr \<lparr>status_code = 202, header_map = [], content_length = None, chunks = []\<rparr>),
     header_to_str = (\<lambda>v. Some v)\<rparr>"

definition silent_network :: network where
  "silent_network = sample_network\<lparr>send := (\<lambda>i c r. Inl SendTimeout)\<rparr>"

definition sample_wire :: "(sample_delta, sample_delta list, octets) wire" where
  "sample_wire = \<lparr>did_parses = (\<lambda>t. True),
     json = \<lparr>json_from_slice = Some, json_get = (\<lambda>j m. Some j), json_as_str = Some, json_to_vec = Some\<rparr>,
     bundle_from_slice = (\<lambda>b. Some sample_bundle), delta_to_vec = (\<lambda>d. Some ''delta''),
     delta_revokes = (\<lambda>d. case d of SampleRevoke c \<Rightarrow> Some c | SampleGenesis k \<Rightarrow> None), delta_subject = (\<lambda>d. sample_root),
     create_request = Some\<rparr>"

lemma sample_replay: "replay_closure sample_crdt sample_wire octets sample_root = Inr (sample_root, sample_bundle)"
  by (simp add: replay_closure_iff sample_crdt_def sample_wire_def sample_bundle_def sample_root_def)

lemma sample_did: "recognise_did sample_wire did = Inr ()"
  by (simp add: sample_wire_def)

lemma silent_fetch: "fetch_closure sample_crdt sample_wire silent_network i r did = Inl Timeout"
  by (simp add: fetch_closure_def client_def client_builder_def build_client_def silent_network_def sample_network_def of_send_error_def)

theorem closure_source_exact_witness:
  "resolve_issuer sample_crdt sample_wire silent_network sample_application sample_root (Some ''bundle'') First =
     Inr \<lparr>rc_document = (sample_root, sample_bundle), rc_source = BundleOrCache, rc_resolver_id = None,
       rc_outcomes = map (\<lambda>r. (resolver_id r, Unreachable)) (state_resolvers sample_application)\<rparr>"
  unfolding closure_source_exact by (simp add: silent_iff [of sample_crdt sample_wire, symmetric] silent_fetch sample_replay) (simp add: sample_wire_def)

lemma sample_fetch:
  "fetch_closure sample_crdt sample_wire sample_network i r sample_root = Inr (sample_root, sample_bundle)"
  by (simp add: fetch_closure_def client_def client_builder_def build_client_def sample_network_def is_success_def
      bounded_body_def closure_from_resolution_def sample_replay) (simp add: sample_wire_def)

theorem revocation_confirmed_by_closure_witness:
  "\<exists>S. submit_revocation sample_wire (\<lambda>i. sample_network) sample_application (SampleRevoke ''c'') = Inr S
     \<and> sr_submission S = Pending ''c'' (sr_acknowledged S)"
proof -
  obtain S where S: "submit_revocation sample_wire (\<lambda>i. sample_network) sample_application (SampleRevoke ''c'') = Inr S"
    by (simp add: submit_revocation_def revoked_credential_id_def Let_def sample_wire_def)
  have "state_resolvers sample_application \<noteq> []" using sample_resolvers by auto
  then have "resolve_issuer sample_crdt sample_wire sample_network sample_application sample_root None Repeat =
      Inr \<lparr>rc_document = (sample_root, sample_bundle), rc_source = StateResolver,
        rc_resolver_id = Some (resolver_id (hd (state_resolvers sample_application))),
        rc_outcomes = [(resolver_id (hd (state_resolvers sample_application)), Resolved)]\<rparr>"
    by (cases "state_resolvers sample_application")
       (simp_all add: resolve_issuer_def sample_fetch sample_did and_then_def)
  then have "\<exists>s. confirm_revocation sample_crdt sample_wire sample_network sample_application sample_root (sr_submission S) = Inr s"
    by (simp add: confirm_revocation_def)
  then obtain s where "confirm_revocation sample_crdt sample_wire sample_network sample_application sample_root (sr_submission S) = Inr s" ..
  from revocation_confirmed_by_closure [OF S this] S show ?thesis by (auto simp: sample_wire_def)
qed

theorem join_all_values_witness:
  "join_all 3 [\<lambda>n. if n = 2 then Some ''a'' else None, \<lambda>n. Some ''b''] = Some [''a'', ''b'']"
  by (rule join_all_values [of _ "[(2, ''a''), (0, ''b'')]", simplified]) (simp_all add: ready_at_def)

end
