(* ===== verification/Pair_Externs.thy ===== *)
theory Pair_Externs
  imports Profile Did_Key "HOL-Library.Multiset"
begin

text \<open>
  What \<open>selfsame-pairing\<close> calls of third parties beside the primitives of \<open>Externals\<close>: CBOR (\<open>ciborium\<close>
  and \<open>cbor2\<close>), Ed25519 verification, and the \<open>cbcl_pairing\<close> crate, as parameters with named laws.
\<close>

section \<open>CBOR\<close>

text \<open>\<open>ciborium::Value\<close> and its accessors. \<open>CFloat\<close> is the bits of the number.\<close>

datatype cbor =
    CInteger int | CBytes octets | CFloat nat | CText rust_str | CBool bool | CNull
  | CTag nat cbor | CArray "cbor list" | CMap "(cbor \<times> cbor) list"

fun cbor_as_text :: "cbor \<Rightarrow> rust_str option" where
  "cbor_as_text (CText t) = Some t"
| "cbor_as_text _ = None"

fun cbor_as_bytes :: "cbor \<Rightarrow> octets option" where
  "cbor_as_bytes (CBytes b) = Some b"
| "cbor_as_bytes _ = None"

fun cbor_as_array :: "cbor \<Rightarrow> cbor list option" where
  "cbor_as_array (CArray xs) = Some xs"
| "cbor_as_array _ = None"

fun cbor_as_map :: "cbor \<Rightarrow> (cbor \<times> cbor) list option" where
  "cbor_as_map (CMap es) = Some es"
| "cbor_as_map _ = None"

lemma cbor_as_iff:
  "cbor_as_text v = Some t \<longleftrightarrow> v = CText t" "cbor_as_bytes v = Some b \<longleftrightarrow> v = CBytes b"
  "cbor_as_array v = Some xs \<longleftrightarrow> v = CArray xs" "cbor_as_map v = Some es \<longleftrightarrow> v = CMap es"
  by (cases v; auto)+

section \<open>cbcl_pairing\<close>

text \<open>
  The kinds and errors of the endpoint, an object, and the facts of an offer. A \<open>CredentialV2Transition\<close>
  is what \<open>as_path_a_to_b\<close> makes of it.
\<close>

datatype v2_kind =
    OfferKind | AccountSelect | IntentApprove | IntentDecline | Preparation | ComparisonConfirmed
  | BindingConfirmed | RefusalKind | FinalApprove | FinalDecline | PayloadKind | ReceiptKind

datatype v2_error =
    V2Schema | V2Profile | V2Phase | V2Size | V2MalformedCbor | V2TrailingBytes | V2NonDeterministic
  | V2DuplicateKey | V2Terminal | V2Other rust_str

record v2_object =
  obj_kind :: v2_kind
  obj_intent :: octets
  obj_body :: octets

record path_a_to_b =
  pt_handle :: rust_str
  pt_key_digest :: octets
  pt_rooms :: "rust_str list"
  pt_room_digest :: octets
  pt_snapshot_digest :: octets
  pt_nonce :: octets

record intent_claims =
  ic_application_id :: rust_str
  ic_https_origin :: rust_str
  ic_relay_origin :: rust_str
  ic_ceremony :: octets
  ic_principal :: octets
  ic_scope :: octets
  ic_permissions :: "rust_str list"
  ic_device_did :: rust_str
  ic_device_digest :: octets
  ic_transition :: "path_a_to_b option"
  ic_core_digest :: octets

record v2_carrier =
  ca_application_context :: rust_str
  ca_relay_origin :: rust_str
  ca_ceremony :: octets
  ca_digest :: octets
  ca_allocator_key :: "octets option"

text \<open>
  \<open>vk_verify\<close> is \<open>Verifier::verify\<close> on key, message and signature; \<open>cbor_read\<close> is \<open>from_reader\<close> with the
  position it leaves, \<open>cbor_canonical\<close> is \<open>to_canonical_vec\<close>. The \<open>_ok\<close> fields say when a checked
  constructor accepts its arguments.
\<close>

record pair_externs =
  vk_verify :: "octets \<Rightarrow> octets \<Rightarrow> octets \<Rightarrow> bool"
  cbor_read :: "octets \<Rightarrow> (cbor \<times> nat) option"
  cbor_canonical :: "cbor \<Rightarrow> octets option"
  intent_digest_of :: "octets \<Rightarrow> octets"
  object_new :: "v2_kind \<Rightarrow> octets \<Rightarrow> octets \<Rightarrow> v2_error + v2_object"
  content_hash_of :: "v2_object \<Rightarrow> octets"
  device_binding_ok :: "rust_str \<Rightarrow> octets \<Rightarrow> bool"
  transition_ok :: "path_a_to_b \<Rightarrow> bool"
  claims_ok :: "intent_claims \<Rightarrow> bool"
  crdt_did_ok :: "rust_str \<Rightarrow> bool"

section \<open>Laws\<close>

definition verify_law :: "externs \<Rightarrow> pair_externs \<Rightarrow> octets \<Rightarrow> bool" where
  "verify_law X G sk \<longleftrightarrow> ed25519_law X sk \<and> (\<forall>m. vk_verify G (sk_public X sk) m (sk_sign X sk m))"

fun map_free :: "cbor \<Rightarrow> bool" where
  "map_free (CMap es) = False"
| "map_free (CArray xs) = list_all map_free xs"
| "map_free (CTag n v) = map_free v"
| "map_free _ = True"

text \<open>
  The canonical encoding is not empty and reads back: a value without maps as itself, a map with distinct keys as its
  entries in some order, with the same encoding.
\<close>

definition cbor_law :: "pair_externs \<Rightarrow> bool" where
  "cbor_law G \<longleftrightarrow>
     (\<forall>v b. cbor_canonical G v = Some b \<longrightarrow> b \<noteq> []) \<and>
     (\<forall>v b. map_free v \<longrightarrow> cbor_canonical G v = Some b \<longrightarrow> cbor_read G b = Some (v, length b)) \<and>
     (\<forall>es b. distinct (map fst es) \<longrightarrow> list_all (\<lambda>(k, v). map_free k \<and> map_free v) es \<longrightarrow>
        cbor_canonical G (CMap es) = Some b \<longrightarrow>
        (\<exists>es'. mset es' = mset es \<and> cbor_read G b = Some (CMap es', length b) \<and> cbor_canonical G (CMap es') = Some b))"

definition object_law :: "pair_externs \<Rightarrow> bool" where
  "object_law G \<longleftrightarrow> (\<forall>k i b obj. object_new G k i b = Inr obj \<longrightarrow> obj_kind obj = k \<and> obj_intent obj = i \<and> obj_body obj = b)"

lemma cbor_law_nonempty: "cbor_law G \<Longrightarrow> cbor_canonical G v = Some b \<Longrightarrow> b \<noteq> []"
  unfolding cbor_law_def by blast

lemma cbor_law_array: "cbor_law G \<Longrightarrow> map_free v \<Longrightarrow> cbor_canonical G v = Some b \<Longrightarrow> cbor_read G b = Some (v, length b)"
  by (simp add: cbor_law_def)

lemma cbor_law_map:
  assumes "cbor_law G" "cbor_canonical G (CMap es) = Some b" "distinct (map fst es)"
    "list_all (\<lambda>(k, v). map_free k \<and> map_free v) es"
  obtains es' where "mset es' = mset es" "cbor_read G b = Some (CMap es', length b)" "cbor_canonical G (CMap es') = Some b"
  using assms unfolding cbor_law_def by blast

lemma object_lawD: "object_law G \<Longrightarrow> object_new G k i b = Inr obj \<Longrightarrow> obj_kind obj = k \<and> obj_intent obj = i \<and> obj_body obj = b"
  by (simp add: object_law_def)

section \<open>Externals to evaluate\<close>

text \<open>
  The encoder of a table of values: one that is listed has the octets beside it, any other fails. Every
  constructor accepts, a hash is a constant, a signature verifies when the signing of \<open>sample_externs\<close> gives it.
\<close>

definition table_externs :: "(cbor \<times> octets) list \<Rightarrow> pair_externs" where
  "table_externs table =
     \<lparr>vk_verify = (\<lambda>k m s. vk_verify_strict sample_externs k m s),
      cbor_read = (\<lambda>b. map_option (\<lambda>v. (v, length b)) (map_of (map (\<lambda>(v, b). (b, v)) table) b)),
      cbor_canonical = map_of table, intent_digest_of = (\<lambda>d. d),
      object_new = (\<lambda>k i b. Inr \<lparr>obj_kind = k, obj_intent = i, obj_body = b\<rparr>),
      content_hash_of = (\<lambda>obj. replicate 32 CHR 0x07), device_binding_ok = (\<lambda>did d. True), transition_ok = (\<lambda>t. True),
      claims_ok = (\<lambda>c. True), crdt_did_ok = (\<lambda>d. True)\<rparr>"

lemma table_cbor_law:
  assumes "distinct (map snd table)" "[] \<notin> snd ` set table"
  shows "cbor_law (table_externs table)"
proof -
  have "map_of (map (\<lambda>(v, b). (b, v)) table) b = Some v" if "map_of table v = Some b" for v b
  proof -
    have "(b, v) \<in> set (map (\<lambda>(v, b). (b, v)) table)" using map_of_SomeD [OF that] by force
    moreover have "distinct (map fst (map (\<lambda>(v, b). (b, v)) table))" using assms(1) by (simp add: comp_def case_prod_beta)
    ultimately show ?thesis by (simp add: map_of_is_SomeI)
  qed
  moreover have "b \<noteq> []" if "map_of table v = Some b" for v b using map_of_SomeD [OF that] assms(2) by force
  ultimately show ?thesis unfolding cbor_law_def table_externs_def by fastforce
qed

lemma table_object_law: "object_law (table_externs table)"
  by (simp add: object_law_def table_externs_def)

lemma table_verify_law: "ed25519_law sample_externs sk \<Longrightarrow> verify_law sample_externs (table_externs table) sk"
  by (simp add: verify_law_def table_externs_def ed25519_law_def)

end
