(* ===== verification/Pair_Offer.thy ===== *)
theory Pair_Offer
  imports Pair_Externs
begin

text \<open>
  The signed offers of \<open>crates/selfsame-pairing/src/credential_v2.rs\<close>: building an offer core from the hub's
  snapshot, recognising and verifying a core and its signed envelope, the proof of possession that guards
  the signing key, and the wallet's verdict on a received offer. The statuses of the same file are in
  \<open>Pair_Status\<close>.
\<close>

section \<open>Constants and types\<close>

definition SIGNED_OFFER_DOMAIN :: rust_str where "SIGNED_OFFER_DOMAIN = ''selfsame credential/v2 signed offer v1''"
definition OFFER_SIGNATURE_DOMAIN :: octets where
  "OFFER_SIGNATURE_DOMAIN = ''selfsame credential/v2 offer signature'' @ [CHR 0x00]"
definition DEVICE_POSSESSION_DOMAIN :: octets where
  "DEVICE_POSSESSION_DOMAIN = ''cbcl-chat credential/v2 device possession proof v1'' @ [CHR 0x00]"
definition ACCOUNT_PRINCIPAL_DOMAIN :: rust_str where
  "ACCOUNT_PRINCIPAL_DOMAIN = ''selfsame-application-account-principal/v1''"
definition LEGACY_KEY_DOMAIN :: octets where "LEGACY_KEY_DOMAIN = ''cbcl-chat credential/v2 legacy key v1'' @ [CHR 0x00]"
definition ROOM_SET_DOMAIN :: octets where "ROOM_SET_DOMAIN = ''cbcl-chat credential/v2 room set v1'' @ [CHR 0x00]"
definition SNAPSHOT_DOMAIN :: octets where
  "SNAPSHOT_DOMAIN = ''cbcl-chat credential/v2 migration snapshot v1'' @ [CHR 0x00]"
definition MIGRATION_CONFIRMATION_DOMAIN :: octets where
  "MIGRATION_CONFIRMATION_DOMAIN = ''cbcl-chat credential/v2 migration confirmation v2'' @ [CHR 0x00]"
definition MAX_OFFER_CORE_BYTES :: nat where "MAX_OFFER_CORE_BYTES = 56000"
definition MAX_SIGNED_OFFER_BYTES :: nat where "MAX_SIGNED_OFFER_BYTES = 56640"

datatype room_provenance = Standing | Invite

record room_snapshot =
  rs_raw_primary_key :: octets
  rs_room :: rust_str
  rs_legacy_handle :: rust_str
  rs_enrolled_key :: octets
  rs_granted :: nat
  rs_provenance :: room_provenance
  rs_since :: "nat option"

record offer_input =
  oi_request_id :: octets
  oi_transcript_hash :: octets
  oi_application_account_id :: octets
  oi_account_scope_id :: octets
  oi_device_public_key :: octets
  oi_requested_permissions :: "rust_str list"
  oi_intent_nonce :: octets
  oi_issued_at :: nat
  oi_expires_at :: nat
  oi_legacy_handle :: rust_str
  oi_enrolled_key :: octets
  oi_snapshot_rows :: "room_snapshot list"
  oi_snapshot_nonce :: octets

record prepared_offer =
  po_offer_core :: octets
  po_offer_core_digest :: octets
  po_intent_digest :: octets
  po_account_principal_digest :: octets
  po_device_did :: rust_str
  po_device_key_digest :: octets
  po_legacy_key_digest :: octets
  po_room_set_digest :: octets
  po_migration_snapshot_digest :: octets

text \<open>The private field of \<open>VerifiedPreparedCredentialV2Offer\<close>, and what signing adds to a prepared offer.\<close>

record verified_offer =
  vo_prepared :: prepared_offer

record built_offer =
  bo_prepared :: prepared_offer
  bo_signed_offer :: octets
  bo_kid :: rust_str

record recognised_offer =
  ro_signed_offer :: octets
  ro_offer_core :: octets
  ro_kid :: rust_str
  ro_claims :: intent_claims
  ro_request_id :: octets
  ro_profile_digest :: octets
  ro_descriptor_digest :: octets
  ro_carrier_digest :: octets
  ro_intent_nonce :: octets
  ro_transcript_hash :: octets
  ro_expires_at :: nat

datatype offer_error = OfferRefused

abbreviation or_refuse :: "'a option \<Rightarrow> offer_error + 'a" where "or_refuse \<equiv> ok_or OfferRefused"
abbreviation refuse_err :: "'e + 'a \<Rightarrow> offer_error + 'a" where "refuse_err \<equiv> map_err (\<lambda>_. OfferRefused)"

section \<open>Members and hashes\<close>

definition j_text :: "json \<Rightarrow> rust_str \<Rightarrow> offer_error + rust_str" where
  "j_text j name = or_refuse (Option.bind (get j name) as_str)"

definition j_integer :: "json \<Rightarrow> rust_str \<Rightarrow> offer_error + nat" where
  "j_integer j name =
     or_refuse (Option.bind (Option.bind (get j name) as_i64) (\<lambda>n. if 0 \<le> n then Some (nat n) else None))"

definition j_fixed :: "externs \<Rightarrow> nat \<Rightarrow> json \<Rightarrow> rust_str \<Rightarrow> offer_error + octets" where
  "j_fixed X n j name =
     and_then (j_text j name) (\<lambda>t.
     and_then (refuse_err (decode_b64url_exact X t n)) (\<lambda>b.
     if length b \<noteq> n then Inl OfferRefused else Inr b))"

definition j_strings :: "json \<Rightarrow> rust_str \<Rightarrow> offer_error + rust_str list" where
  "j_strings j name =
     and_then (or_refuse (Option.bind (get j name) as_array)) (\<lambda>items.
     try_map (\<lambda>v. or_refuse (as_str v)) items)"

definition labelled_hash :: "externs \<Rightarrow> octets \<Rightarrow> octets \<Rightarrow> octets" where
  "labelled_hash X label v = sha256_digest X (label @ v)"

definition signing_key_declared :: "externs \<Rightarrow> application_profile \<Rightarrow> rust_str \<Rightarrow> octets \<Rightarrow> offer_error + unit" where
  "signing_key_declared X P k sk =
     and_then (or_refuse (List.find (\<lambda>c. kid c = k) (enrollment_keys P))) (\<lambda>declared.
     if public_key (jwk declared) \<noteq> sk_public X sk then Inl OfferRefused else Inr ())"

definition valid_bound_did :: "rust_str \<Rightarrow> bool" where
  "valid_bound_did v \<longleftrightarrow>
     length v > length ''did:crdt:'' \<and> length v \<le> 512 \<and> starts_with ''did:crdt:'' v \<and> CHR ''#'' \<notin> set v
     \<and> list_all (\<lambda>b. 0x21 \<le> code b \<and> code b \<le> 0x7e) v"

text \<open>Reading one CBOR value that fills its octets and is their canonical form.\<close>

definition exact_cbor :: "pair_externs \<Rightarrow> octets \<Rightarrow> offer_error + cbor" where
  "exact_cbor G bytes =
     and_then (or_refuse (cbor_read G bytes)) (\<lambda>(v, pos).
     if pos \<noteq> length bytes then Inl OfferRefused
     else and_then (or_refuse (cbor_canonical G v)) (\<lambda>b. if b \<noteq> bytes then Inl OfferRefused else Inr v))"

definition verify_with :: "externs \<Rightarrow> pair_externs \<Rightarrow> octets \<Rightarrow> octets \<Rightarrow> octets \<Rightarrow> offer_error + unit" where
  "verify_with X G key msg sig =
     (if \<not> vk_from_bytes X key then Inl OfferRefused else if \<not> vk_verify G key msg sig then Inl OfferRefused else Inr ())"

section \<open>The hub's snapshot\<close>

fun snapshot_rooms :: "rust_str \<Rightarrow> octets \<Rightarrow> octets option \<Rightarrow> room_snapshot list \<Rightarrow> offer_error + rust_str list" where
  "snapshot_rooms handle key prior [] = Inr []"
| "snapshot_rooms handle key prior (row # rows) =
     (if length (rs_room row) \<ge> 2 ^ 32 then Inl OfferRefused
      else
        let expected_key = u32_be_bytes (length (rs_room row)) @ rs_room row @ handle in
        if rs_legacy_handle row \<noteq> handle \<or> rs_enrolled_key row \<noteq> key \<or> rs_raw_primary_key row \<noteq> expected_key
          \<or> (case prior of Some p \<Rightarrow> p \<ge> rs_raw_primary_key row | None \<Rightarrow> False)
        then Inl OfferRefused
        else and_then (snapshot_rooms handle key (Some (rs_raw_primary_key row)) rows) (\<lambda>rooms. Inr (rs_room row # rooms)))"

definition validate_snapshot :: "pair_externs \<Rightarrow> offer_input \<Rightarrow> offer_error + rust_str list" where
  "validate_snapshot G i =
     (let h = oi_legacy_handle i in
      if length h < 2 \<or> length h > 33 \<or> \<not> starts_with ''@'' h
        \<or> \<not> list_all (\<lambda>b. is_ascii_lowercase b \<or> is_ascii_digit b \<or> b = CHR ''_'' \<or> b = CHR ''-'') (drop 1 h)
        \<or> length (oi_snapshot_rows i) > 256
      then Inl OfferRefused
      else
      and_then (snapshot_rooms h (oi_enrolled_key i) None (oi_snapshot_rows i)) (\<lambda>rooms.
      if \<not> strictly_ascending rooms then Inl OfferRefused
      else if \<not> transition_ok G \<lparr>pt_handle = h, pt_key_digest = replicate 32 CHR 0x00, pt_rooms = rooms,
          pt_room_digest = replicate 32 CHR 0x00, pt_snapshot_digest = replicate 32 CHR 0x00, pt_nonce = oi_snapshot_nonce i\<rparr>
      then Inl OfferRefused
      else Inr rooms))"

definition room_set_digest :: "externs \<Rightarrow> pair_externs \<Rightarrow> rust_str list \<Rightarrow> offer_error + octets" where
  "room_set_digest X G rooms =
     and_then (or_refuse (cbor_canonical G (CArray (map CBytes rooms)))) (\<lambda>b. Inr (labelled_hash X ROOM_SET_DOMAIN b))"

definition snapshot_row :: "room_snapshot \<Rightarrow> cbor" where
  "snapshot_row row =
     CArray [CText ''cbcl-roommember'', CBytes (rs_raw_primary_key row), CBytes (rs_room row), CBytes (rs_legacy_handle row),
       CBytes (rs_enrolled_key row), CInteger (int (rs_granted row)),
       CText (case rs_provenance row of Standing \<Rightarrow> ''standing'' | Invite \<Rightarrow> ''invite''),
       (case rs_since row of None \<Rightarrow> CNull | Some n \<Rightarrow> CInteger (int n))]"

definition migration_snapshot_digest :: "externs \<Rightarrow> pair_externs \<Rightarrow> offer_input \<Rightarrow> offer_error + octets" where
  "migration_snapshot_digest X G i =
     (let member = CArray [CText ''cbcl-member'', CBytes (oi_legacy_handle i), CBytes (oi_enrolled_key i)] in
      and_then (or_refuse (cbor_canonical G (CArray [member, CArray (map snapshot_row (oi_snapshot_rows i))]))) (\<lambda>b.
      Inr (labelled_hash X SNAPSHOT_DOMAIN b)))"

definition account_principal_digest :: "externs \<Rightarrow> pair_externs \<Rightarrow> rust_str \<Rightarrow> octets \<Rightarrow> offer_error + octets" where
  "account_principal_digest X G aid account =
     and_then (or_refuse (cbor_canonical G (CArray [CText ACCOUNT_PRINCIPAL_DOMAIN, CText aid, CBytes account]))) (\<lambda>b.
     Inr (sha256_digest X b))"

definition transition_json :: "externs \<Rightarrow> rust_str \<Rightarrow> octets \<Rightarrow> rust_str list \<Rightarrow> octets \<Rightarrow> octets \<Rightarrow> octets \<Rightarrow> json" where
  "transition_json X handle key_digest rooms room_digest snapshot_digest nonce =
     Object [(''kind'', String ''path-a-to-b''), (''legacyHandle'', String handle),
       (''legacyKeyDigest'', String (b64url X key_digest)), (''migrationRooms'', Array (map String rooms)),
       (''migrationSnapshotDigest'', String (b64url X snapshot_digest)), (''roomSetDigest'', String (b64url X room_digest)),
       (''snapshotNonce'', String (b64url X nonce))]"

definition v2_device_jwk :: "externs \<Rightarrow> octets \<Rightarrow> json" where
  "v2_device_jwk X key = Object [(''crv'', String ''Ed25519''), (''kty'', String ''OKP''), (''x'', String (b64url X key))]"

section \<open>Selection\<close>

definition selected_descriptor :: "application_profile \<Rightarrow> v2_carrier \<Rightarrow> offer_error + cbcl_relay_descriptor" where
  "selected_descriptor P ca =
     (if app_text (application_id P) \<noteq> ca_application_context ca then Inl OfferRefused
      else (case filter (\<lambda>d. relay_origin d = ca_relay_origin ca) (cbcl_pairing_relays P) of
          [d] \<Rightarrow> Inr d
        | _ \<Rightarrow> Inl OfferRefused))"

definition v2_permissions :: "application_profile \<Rightarrow> rust_str list \<Rightarrow> offer_error + unit" where
  "v2_permissions P values =
     (if values = [] \<or> length values > 4
        \<or> list_ex (\<lambda>v. v = [] \<or> length v > 128 \<or> v \<notin> set (allowed_permissions P)) values
        \<or> \<not> strictly_ascending values
      then Inl OfferRefused else Inr ())"

section \<open>Building a core\<close>

definition offer_core_json ::
  "externs \<Rightarrow> application_profile \<Rightarrow> cbcl_relay_descriptor \<Rightarrow> v2_carrier \<Rightarrow> offer_input \<Rightarrow> octets \<Rightarrow> json \<Rightarrow> json" where
  "offer_core_json X P descriptor ca i principal_digest transition =
     Object [(''payloadVersion'', Integer 2), (''role'', String ''offer''),
       (''carrierCeremonyId'', String (b64url X (ca_ceremony ca))), (''requestId'', String (b64url X (oi_request_id i))),
       (''applicationId'', String (app_text (application_id P))), (''profileVersion'', Integer 2),
       (''profileDigest'', String (b64url X (profile_digest P))),
       (''descriptorDigest'', String (b64url X (descriptor_digest descriptor))),
       (''relayOrigin'', String (relay_origin descriptor)), (''carrierDigest'', String (b64url X (ca_digest ca))),
       (''transcriptHash'', String (b64url X (oi_transcript_hash i))),
       (''accountPrincipalDigest'', String (b64url X principal_digest)),
       (''accountScopeId'', String (b64url X (oi_account_scope_id i))),
       (''deviceDid'', String (encode_did_key (oi_device_public_key i))),
       (''deviceKeyJwk'', v2_device_jwk X (oi_device_public_key i)),
       (''requestedPermissions'', Array (map String (oi_requested_permissions i))),
       (''intentNonce'', String (b64url X (oi_intent_nonce i))),
       (''issuedAt'', Integer (int (oi_issued_at i))), (''expiresAt'', Integer (int (oi_expires_at i))),
       (''accountTransition'', transition)]"

definition prepare_offer_core ::
  "externs \<Rightarrow> pair_externs \<Rightarrow> application_profile \<Rightarrow> v2_carrier \<Rightarrow> offer_input \<Rightarrow> offer_error + prepared_offer" where
  "prepare_offer_core X G P ca i =
     and_then (selected_descriptor P ca) (\<lambda>descriptor.
     if ca_allocator_key ca \<noteq> Some (oi_device_public_key i) \<or> oi_expires_at i \<le> oi_issued_at i
       \<or> \<not> (300 \<le> oi_expires_at i - oi_issued_at i \<and> oi_expires_at i - oi_issued_at i \<le> 600)
     then Inl OfferRefused
     else
     and_then (v2_permissions P (oi_requested_permissions i)) (\<lambda>_.
     and_then (validate_snapshot G i) (\<lambda>rooms.
     let legacy_key_digest = labelled_hash X LEGACY_KEY_DOMAIN (oi_enrolled_key i) in
     and_then (room_set_digest X G rooms) (\<lambda>rooms_digest.
     and_then (migration_snapshot_digest X G i) (\<lambda>snapshot_digest.
     let transition = transition_json X (oi_legacy_handle i) legacy_key_digest rooms rooms_digest snapshot_digest (oi_snapshot_nonce i) in
     and_then (account_principal_digest X G (app_text (application_id P)) (oi_application_account_id i)) (\<lambda>principal_digest.
     let device_key_digest = sha256_digest X (canonicalise (v2_device_jwk X (oi_device_public_key i))) in
     if \<not> is_i64 (int (oi_issued_at i)) \<or> \<not> is_i64 (int (oi_expires_at i)) then Inl OfferRefused
     else
     let offer_core = canonicalise (offer_core_json X P descriptor ca i principal_digest transition) in
     if offer_core = [] \<or> length offer_core > MAX_OFFER_CORE_BYTES then Inl OfferRefused
     else
     let digest = sha256_digest X offer_core in
     Inr \<lparr>po_offer_core = offer_core, po_offer_core_digest = digest, po_intent_digest = intent_digest_of G digest,
       po_account_principal_digest = principal_digest, po_device_did = encode_did_key (oi_device_public_key i),
       po_device_key_digest = device_key_digest, po_legacy_key_digest = legacy_key_digest,
       po_room_set_digest = rooms_digest, po_migration_snapshot_digest = snapshot_digest\<rparr>))))))"

section \<open>Recognising a core\<close>

definition parse_transition :: "externs \<Rightarrow> pair_externs \<Rightarrow> json \<Rightarrow> offer_error + path_a_to_b" where
  "parse_transition X G v =
     (if member_names v \<noteq> [''kind'', ''legacyHandle'', ''legacyKeyDigest'', ''migrationRooms'', ''migrationSnapshotDigest'',
          ''roomSetDigest'', ''snapshotNonce''] then Inl OfferRefused
      else
      and_then (j_text v ''kind'') (\<lambda>kind.
      if kind \<noteq> ''path-a-to-b'' then Inl OfferRefused
      else
      and_then (j_text v ''legacyHandle'') (\<lambda>handle.
      and_then (j_fixed X 32 v ''legacyKeyDigest'') (\<lambda>key_digest.
      and_then (j_strings v ''migrationRooms'') (\<lambda>rooms.
      and_then (j_fixed X 32 v ''roomSetDigest'') (\<lambda>room_digest.
      and_then (j_fixed X 32 v ''migrationSnapshotDigest'') (\<lambda>snapshot_digest.
      and_then (j_fixed X 32 v ''snapshotNonce'') (\<lambda>nonce.
      let t = \<lparr>pt_handle = handle, pt_key_digest = key_digest, pt_rooms = rooms, pt_room_digest = room_digest,
                pt_snapshot_digest = snapshot_digest, pt_nonce = nonce\<rparr>
      in if transition_ok G t then Inr t else Inl OfferRefused))))))))"

definition parse_device_jwk :: "externs \<Rightarrow> json \<Rightarrow> offer_error + octets" where
  "parse_device_jwk X v =
     (if member_names v \<noteq> [''crv'', ''kty'', ''x''] then Inl OfferRefused
      else
      and_then (j_text v ''crv'') (\<lambda>crv. if crv \<noteq> ''Ed25519'' then Inl OfferRefused else
      and_then (j_text v ''kty'') (\<lambda>kty. if kty \<noteq> ''OKP'' then Inl OfferRefused else
      and_then (j_text v ''x'') (\<lambda>x. refuse_err (decode_b64url_32 X x)))))"

definition OFFER_MEMBERS :: "rust_str list" where
  "OFFER_MEMBERS = [''accountPrincipalDigest'', ''accountScopeId'', ''accountTransition'', ''applicationId'', ''carrierCeremonyId'',
     ''carrierDigest'', ''descriptorDigest'', ''deviceDid'', ''deviceKeyJwk'', ''expiresAt'', ''intentNonce'', ''issuedAt'',
     ''payloadVersion'', ''profileDigest'', ''profileVersion'', ''relayOrigin'', ''requestId'', ''requestedPermissions'',
     ''role'', ''transcriptHash'']"

text \<open>The checks up to the descriptor, the claims, and the window with the rest of the members.\<close>

definition parse_core_head :: "externs \<Rightarrow> application_profile \<Rightarrow> json \<Rightarrow> offer_error + cbcl_relay_descriptor" where
  "parse_core_head X P core =
     (if member_names core \<noteq> OFFER_MEMBERS then Inl OfferRefused
      else
      and_then (j_integer core ''payloadVersion'') (\<lambda>v. if v \<noteq> 2 then Inl OfferRefused else
      and_then (j_integer core ''profileVersion'') (\<lambda>v. if v \<noteq> 2 then Inl OfferRefused else
      and_then (j_text core ''role'') (\<lambda>role. if role \<noteq> ''offer'' then Inl OfferRefused else
      and_then (j_text core ''applicationId'') (\<lambda>aid. if aid \<noteq> app_text (application_id P) then Inl OfferRefused else
      and_then (j_fixed X 32 core ''profileDigest'') (\<lambda>d. if d \<noteq> profile_digest P then Inl OfferRefused else
      and_then (j_text core ''relayOrigin'') (\<lambda>relay.
      and_then (or_refuse (List.find (\<lambda>c. relay_origin c = relay) (cbcl_pairing_relays P))) (\<lambda>descriptor.
      and_then (j_fixed X 32 core ''descriptorDigest'') (\<lambda>d.
      if d \<noteq> descriptor_digest descriptor then Inl OfferRefused else Inr descriptor)))))))))"

definition parse_claims ::
  "externs \<Rightarrow> pair_externs \<Rightarrow> application_profile \<Rightarrow> octets \<Rightarrow> json \<Rightarrow> rust_str \<Rightarrow> offer_error + intent_claims" where
  "parse_claims X G P digest core relay =
     and_then (or_refuse (get core ''deviceKeyJwk'')) (\<lambda>device_jwk.
     and_then (parse_device_jwk X device_jwk) (\<lambda>device_key.
     and_then (j_text core ''deviceDid'') (\<lambda>device_did.
     and_then (refuse_err (matches_jwk X device_did device_key)) (\<lambda>_.
     and_then (j_strings core ''requestedPermissions'') (\<lambda>permissions.
     and_then (v2_permissions P permissions) (\<lambda>_.
     and_then (or_refuse (get core ''accountTransition'')) (\<lambda>t.
     and_then (parse_transition X G t) (\<lambda>transition.
     and_then (j_fixed X 32 core ''carrierCeremonyId'') (\<lambda>ceremony.
     and_then (j_fixed X 32 core ''accountScopeId'') (\<lambda>scope.
     and_then (j_fixed X 32 core ''accountPrincipalDigest'') (\<lambda>principal_digest.
     let device_digest = sha256_digest X (canonicalise device_jwk) in
     if \<not> device_binding_ok G device_did device_digest then Inl OfferRefused
     else
     let claims = \<lparr>ic_application_id = app_text (application_id P), ic_https_origin = app_origin (application_id P),
           ic_relay_origin = relay, ic_ceremony = ceremony, ic_principal = principal_digest, ic_scope = scope,
           ic_permissions = permissions, ic_device_did = device_did, ic_device_digest = device_digest,
           ic_transition = Some transition, ic_core_digest = digest\<rparr>
     in if claims_ok G claims then Inr claims else Inl OfferRefused)))))))))))"

definition parse_core ::
  "externs \<Rightarrow> pair_externs \<Rightarrow> application_profile \<Rightarrow> octets \<Rightarrow> octets \<Rightarrow> rust_str \<Rightarrow> octets \<Rightarrow> json
   \<Rightarrow> offer_error + recognised_offer" where
  "parse_core X G P signed_offer offer_core k digest core =
     and_then (parse_core_head X P core) (\<lambda>descriptor.
     and_then (parse_claims X G P digest core (relay_origin descriptor)) (\<lambda>claims.
     and_then (j_integer core ''issuedAt'') (\<lambda>issued_at.
     and_then (j_integer core ''expiresAt'') (\<lambda>expires_at.
     if expires_at \<le> issued_at \<or> \<not> (300 \<le> expires_at - issued_at \<and> expires_at - issued_at \<le> 600) then Inl OfferRefused
     else
     and_then (j_fixed X 32 core ''requestId'') (\<lambda>request_id.
     and_then (j_fixed X 32 core ''profileDigest'') (\<lambda>pdigest.
     and_then (j_fixed X 32 core ''carrierDigest'') (\<lambda>carrier_digest.
     and_then (j_fixed X 32 core ''intentNonce'') (\<lambda>intent_nonce.
     and_then (j_fixed X 64 core ''transcriptHash'') (\<lambda>transcript.
     Inr \<lparr>ro_signed_offer = signed_offer, ro_offer_core = offer_core, ro_kid = k, ro_claims = claims,
       ro_request_id = request_id, ro_profile_digest = pdigest, ro_descriptor_digest = descriptor_digest descriptor,
       ro_carrier_digest = carrier_digest, ro_intent_nonce = intent_nonce, ro_transcript_hash = transcript,
       ro_expires_at = expires_at\<rparr>)))))))))"

definition recognise_core_with_envelope ::
  "externs \<Rightarrow> pair_externs \<Rightarrow> application_profile \<Rightarrow> octets \<Rightarrow> octets \<Rightarrow> rust_str \<Rightarrow> octets \<Rightarrow> offer_error + recognised_offer" where
  "recognise_core_with_envelope X G P signed_offer offer_core k digest =
     and_then (refuse_err (recognise_json offer_core \<lparr>max_bytes = MAX_OFFER_CORE_BYTES, max_depth = 4\<rparr>)) (\<lambda>core.
     if canonicalise core \<noteq> offer_core then Inl OfferRefused
     else parse_core X G P signed_offer offer_core k digest core)"

definition recognise_offer_core :: "externs \<Rightarrow> pair_externs \<Rightarrow> application_profile \<Rightarrow> octets \<Rightarrow> offer_error + recognised_offer" where
  "recognise_offer_core X G P offer_core = recognise_core_with_envelope X G P [] offer_core [] (sha256_digest X offer_core)"

definition recognise_prepared_offer :: "externs \<Rightarrow> pair_externs \<Rightarrow> application_profile \<Rightarrow> octets \<Rightarrow> offer_error + prepared_offer" where
  "recognise_prepared_offer X G P offer_core =
     and_then (recognise_offer_core X G P offer_core) (\<lambda>r.
     and_then (or_refuse (ic_transition (ro_claims r))) (\<lambda>t.
     let c = ro_claims r in
     Inr \<lparr>po_offer_core = offer_core, po_offer_core_digest = ic_core_digest c,
       po_intent_digest = intent_digest_of G (ic_core_digest c), po_account_principal_digest = ic_principal c,
       po_device_did = ic_device_did c, po_device_key_digest = ic_device_digest c,
       po_legacy_key_digest = pt_key_digest t, po_room_set_digest = pt_room_digest t,
       po_migration_snapshot_digest = pt_snapshot_digest t\<rparr>))"

text \<open>The four members of the envelope: the domain, the core, the kid and the signature.\<close>

definition recognise_envelope ::
  "externs \<Rightarrow> pair_externs \<Rightarrow> application_profile \<Rightarrow> octets \<Rightarrow> cbor list \<Rightarrow> offer_error + recognised_offer" where
  "recognise_envelope X G P bytes members =
     (case members of
        [domain, core, k, sig] \<Rightarrow>
          if cbor_as_text domain \<noteq> Some SIGNED_OFFER_DOMAIN then Inl OfferRefused
          else
          and_then (or_refuse (cbor_as_bytes core)) (\<lambda>offer_core.
          and_then (or_refuse (cbor_as_text k)) (\<lambda>k.
          and_then (or_refuse (cbor_as_bytes sig)) (\<lambda>sig.
          if length sig \<noteq> 64 then Inl OfferRefused
          else
          and_then (or_refuse (List.find (\<lambda>c. kid c = k) (enrollment_keys P))) (\<lambda>key.
          let digest = sha256_digest X offer_core in
          and_then (verify_with X G (public_key (jwk key)) (OFFER_SIGNATURE_DOMAIN @ digest) sig) (\<lambda>_.
          recognise_core_with_envelope X G P bytes offer_core k digest)))))
      | _ \<Rightarrow> Inl OfferRefused)"

definition recognise_signed_offer :: "externs \<Rightarrow> pair_externs \<Rightarrow> application_profile \<Rightarrow> octets \<Rightarrow> offer_error + recognised_offer" where
  "recognise_signed_offer X G P bytes =
     (if bytes = [] \<or> length bytes > MAX_SIGNED_OFFER_BYTES then Inl OfferRefused
      else
      and_then (exact_cbor G bytes) (\<lambda>v.
      and_then (or_refuse (cbor_as_array v)) (\<lambda>members. recognise_envelope X G P bytes members)))"

section \<open>Possession, then signing\<close>

definition device_possession_proof_input :: "externs \<Rightarrow> pair_externs \<Rightarrow> octets \<Rightarrow> octets \<Rightarrow> octets \<Rightarrow> offer_error + octets" where
  "device_possession_proof_input X G socket_generation ceremony core_digest =
     and_then (or_refuse (cbor_canonical G (CArray [CBytes socket_generation, CBytes ceremony, CBytes core_digest]))) (\<lambda>b.
     Inr (labelled_hash X DEVICE_POSSESSION_DOMAIN b))"

definition verify_prepared_offer_device_proof ::
  "externs \<Rightarrow> pair_externs \<Rightarrow> application_profile \<Rightarrow> prepared_offer \<Rightarrow> octets \<Rightarrow> octets \<Rightarrow> octets \<Rightarrow> octets
   \<Rightarrow> offer_error + verified_offer" where
  "verify_prepared_offer_device_proof X G P p socket_generation ceremony key proof_octets =
     and_then (recognise_offer_core X G P (po_offer_core p)) (\<lambda>r.
     let expected_digest = sha256_digest X (canonicalise (v2_device_jwk X key)) in
     and_then (recognise_prepared_offer X G P (po_offer_core p)) (\<lambda>p'.
     if p' \<noteq> p \<or> ic_ceremony (ro_claims r) \<noteq> ceremony \<or> ic_device_did (ro_claims r) \<noteq> encode_did_key key
       \<or> ic_device_digest (ro_claims r) \<noteq> expected_digest
     then Inl OfferRefused
     else
     and_then (device_possession_proof_input X G socket_generation ceremony (po_offer_core_digest p)) (\<lambda>proof_input.
     and_then (verify_with X G key proof_input proof_octets) (\<lambda>_. Inr \<lparr>vo_prepared = p\<rparr>))))"

definition sign_verified_offer ::
  "externs \<Rightarrow> pair_externs \<Rightarrow> application_profile \<Rightarrow> prepared_offer \<Rightarrow> rust_str \<Rightarrow> octets \<Rightarrow> offer_error + built_offer" where
  "sign_verified_offer X G P p k sk =
     and_then (signing_key_declared X P k sk) (\<lambda>_.
     and_then (recognise_prepared_offer X G P (po_offer_core p)) (\<lambda>p'.
     if p' \<noteq> p then Inl OfferRefused
     else
     let sig = sk_sign X sk (OFFER_SIGNATURE_DOMAIN @ po_offer_core_digest p) in
     and_then (or_refuse (cbor_canonical G (CArray [CText SIGNED_OFFER_DOMAIN, CBytes (po_offer_core p), CText k, CBytes sig]))) (\<lambda>signed_offer.
     if length signed_offer > MAX_SIGNED_OFFER_BYTES then Inl OfferRefused
     else Inr \<lparr>bo_prepared = p, bo_signed_offer = signed_offer, bo_kid = k\<rparr>)))"

definition finalize_verified_offer ::
  "externs \<Rightarrow> pair_externs \<Rightarrow> application_profile \<Rightarrow> verified_offer \<Rightarrow> rust_str \<Rightarrow> octets \<Rightarrow> offer_error + built_offer" where
  "finalize_verified_offer X G P v k sk = sign_verified_offer X G P (vo_prepared v) k sk"

definition migration_confirmation_digest_parts ::
  "externs \<Rightarrow> octets \<Rightarrow> rust_str \<Rightarrow> octets \<Rightarrow> octets \<Rightarrow> octets \<Rightarrow> octets \<Rightarrow> octets \<Rightarrow> v2_error + octets" where
  "migration_confirmation_digest_parts X core_digest did key_digest room_digest snapshot_digest nonce device_digest =
     (if length did \<ge> 2 ^ 32 then Inl V2Size
      else Inr (sha256_digest X (MIGRATION_CONFIRMATION_DOMAIN @ core_digest @ u32_be_bytes (length did) @ did @ key_digest
        @ room_digest @ snapshot_digest @ nonce @ device_digest)))"

definition migration_confirmation_digest :: "externs \<Rightarrow> pair_externs \<Rightarrow> recognised_offer \<Rightarrow> rust_str \<Rightarrow> offer_error + octets" where
  "migration_confirmation_digest X G r did =
     (if \<not> valid_bound_did did \<or> \<not> crdt_did_ok G did then Inl OfferRefused
      else
      and_then (or_refuse (ic_transition (ro_claims r))) (\<lambda>t.
      refuse_err (migration_confirmation_digest_parts X (ic_core_digest (ro_claims r)) did (pt_key_digest t)
        (pt_room_digest t) (pt_snapshot_digest t) (pt_nonce t) (ic_device_digest (ro_claims r)))))"

section \<open>Reading members\<close>

lemma j_text_iff: "j_text j name = Inr t \<longleftrightarrow> get j name = Some (String t)"
  by (auto simp: j_text_def res_iff bind_eq_Some_conv accessor_Some_iff)

lemma j_integer_iff: "j_integer j name = Inr n \<longleftrightarrow> get j name = Some (Integer (int n))"
proof -
  have "m = n" if "nat y = n" "0 \<le> y" "y = int m" for y m using that by simp
  then show ?thesis
    by (auto simp: j_integer_def res_iff bind_eq_Some_conv accessor_Some_iff split: if_splits intro!: exI [of _ "int n"])
qed

lemma list_all2_String: "list_all2 (\<lambda>x y. x = String y) vs ts \<longleftrightarrow> vs = map String ts"
  by (induction vs arbitrary: ts) (auto simp: list_all2_Cons1 Cons_eq_map_conv)

lemma j_strings_iff: "j_strings j name = Inr ts \<longleftrightarrow> get j name = Some (Array (map String ts))"
  by (auto simp: j_strings_def res_iff bind_eq_Some_conv accessor_Some_iff try_map_Inr_iff list_all2_String)

lemma j_fixed_iff:
  assumes "base64ct X"
  shows "j_fixed X n j name = Inr b \<longleftrightarrow> get j name = Some (String (b64url X b)) \<and> length b = n"
  using canonical_codec.dec_Inr_iff [OF b64url_codec [OF assms, of n]]
  by (auto simp: j_fixed_def res_iff j_text_iff)

lemma map_fst_sort_utf16: "map fst (sort_key (\<lambda>a. encode_utf16 (fst a)) (xs :: (rust_str \<times> json) list)) = sort_key encode_utf16 (map fst xs)"
proof (induction xs)
  case (Cons x xs)
  have "map fst (insort_key (\<lambda>a. encode_utf16 (fst a)) x ys) = insort_key encode_utf16 (fst x) (map fst ys)"
    for ys :: "(rust_str \<times> json) list"
    by (induction ys) simp_all
  with Cons show ?case by simp
qed simp

lemma member_names_sort: "member_names (sort_members (Object ms)) = sort_key encode_utf16 (map fst ms)"
proof -
  have "map fst (map (\<lambda>(k, v). (k, sort_members v)) ms) = map fst ms" by (induction ms) auto
  then show ?thesis
    by (simp add: member_names_def utf16_sort_sort_key case_prod_beta' map_fst_sort_utf16 del: map_map)
qed

lemma exact_cbor_iff:
  "exact_cbor G bytes = Inr v \<longleftrightarrow> cbor_read G bytes = Some (v, length bytes) \<and> cbor_canonical G v = Some bytes"
  by (auto simp: exact_cbor_def res_iff)

lemma exact_cbor_array:
  assumes "cbor_law G" "map_free v" "cbor_canonical G v = Some b"
  shows "exact_cbor G b = Inr v"
  using cbor_law_array [OF assms] assms(3) by (simp add: exact_cbor_iff)

lemma verify_with_iff: "verify_with X G key msg sig = Inr u \<longleftrightarrow> vk_from_bytes X key \<and> vk_verify G key msg sig"
  by (simp add: verify_with_def)

lemma recognise_envelope_iff:
  "recognise_envelope X G P bytes members = Inr r \<longleftrightarrow>
     (\<exists>c k sig e. members = [CText SIGNED_OFFER_DOMAIN, CBytes c, CText k, CBytes sig] \<and> length sig = 64
        \<and> List.find (\<lambda>c. kid c = k) (enrollment_keys P) = Some e \<and> vk_from_bytes X (public_key (jwk e))
        \<and> vk_verify G (public_key (jwk e)) (OFFER_SIGNATURE_DOMAIN @ sha256_digest X c) sig
        \<and> recognise_core_with_envelope X G P bytes c k (sha256_digest X c) = Inr r)"
proof (cases "length members = 4")
  case True
  then obtain d c k s where "members = [d, c, k, s]" by (auto simp: numeral_eq_Suc length_Suc_conv)
  then show ?thesis by (auto simp: recognise_envelope_def Let_def res_iff cbor_as_iff verify_with_iff)
next
  case False
  then show ?thesis by (auto simp: recognise_envelope_def split: list.splits)
qed

lemma declared_iff:
  "signing_key_declared X P k sk = Inr u \<longleftrightarrow> (\<exists>e. List.find (\<lambda>c. kid c = k) (enrollment_keys P) = Some e \<and> public_key (jwk e) = sk_public X sk)"
  by (auto simp: signing_key_declared_def res_iff)

section \<open>What a recognised core says\<close>

lemma v2_permissions_iff:
  "v2_permissions P ps = Inr u \<longleftrightarrow> ps \<noteq> [] \<and> length ps \<le> 4 \<and> sorted_wrt (<) ps
     \<and> (\<forall>p \<in> set ps. p \<noteq> [] \<and> length p \<le> 128 \<and> p \<in> set (allowed_permissions P))"
  unfolding v2_permissions_def by (auto simp: list_ex_iff strictly_ascending_iff not_less dest: leD)

lemma selected_descriptor_iff:
  "selected_descriptor P ca = Inr d \<longleftrightarrow> app_text (application_id P) = ca_application_context ca
     \<and> filter (\<lambda>d. relay_origin d = ca_relay_origin ca) (cbcl_pairing_relays P) = [d]"
  by (auto simp: selected_descriptor_def split: list.splits)

lemma parse_head_iff:
  assumes "base64ct X"
  shows "parse_core_head X P core = Inr d \<longleftrightarrow> member_names core = OFFER_MEMBERS
     \<and> get core ''payloadVersion'' = Some (Integer 2) \<and> get core ''profileVersion'' = Some (Integer 2)
     \<and> get core ''role'' = Some (String ''offer'') \<and> get core ''applicationId'' = Some (String (app_text (application_id P)))
     \<and> get core ''profileDigest'' = Some (String (b64url X (profile_digest P))) \<and> length (profile_digest P) = 32
     \<and> (\<exists>relay. get core ''relayOrigin'' = Some (String relay) \<and> List.find (\<lambda>c. relay_origin c = relay) (cbcl_pairing_relays P) = Some d)
     \<and> get core ''descriptorDigest'' = Some (String (b64url X (descriptor_digest d))) \<and> length (descriptor_digest d) = 32"
  unfolding parse_core_head_def by (auto simp: res_iff j_text_iff j_integer_iff j_fixed_iff [OF assms])

lemma parse_device_jwk_iff:
  assumes "base64ct X"
  shows "parse_device_jwk X v = Inr key \<longleftrightarrow> member_names v = [''crv'', ''kty'', ''x''] \<and> get v ''crv'' = Some (String ''Ed25519'')
     \<and> get v ''kty'' = Some (String ''OKP'') \<and> get v ''x'' = Some (String (b64url X key)) \<and> length key = 32"
  unfolding parse_device_jwk_def
  using canonical_codec.dec_Inr_iff [OF b64url_codec [OF assms, of 32]]
  by (auto simp: res_iff j_text_iff decode_b64url_32_def)

lemma parse_transition_iff:
  assumes "base64ct X"
  shows "parse_transition X G v = Inr t \<longleftrightarrow>
     member_names v = [''kind'', ''legacyHandle'', ''legacyKeyDigest'', ''migrationRooms'', ''migrationSnapshotDigest'',
          ''roomSetDigest'', ''snapshotNonce'']
     \<and> get v ''kind'' = Some (String ''path-a-to-b'') \<and> get v ''legacyHandle'' = Some (String (pt_handle t))
     \<and> get v ''legacyKeyDigest'' = Some (String (b64url X (pt_key_digest t))) \<and> length (pt_key_digest t) = 32
     \<and> get v ''migrationRooms'' = Some (Array (map String (pt_rooms t)))
     \<and> get v ''roomSetDigest'' = Some (String (b64url X (pt_room_digest t))) \<and> length (pt_room_digest t) = 32
     \<and> get v ''migrationSnapshotDigest'' = Some (String (b64url X (pt_snapshot_digest t))) \<and> length (pt_snapshot_digest t) = 32
     \<and> get v ''snapshotNonce'' = Some (String (b64url X (pt_nonce t))) \<and> length (pt_nonce t) = 32
     \<and> transition_ok G t"
  (is "?l \<longleftrightarrow> ?r")
proof
  assume ?l
  then show ?r unfolding parse_transition_def Let_def
    by (auto simp: res_iff j_text_iff j_strings_iff j_fixed_iff [OF assms])
next
  assume ?r
  then show ?l unfolding parse_transition_def Let_def
    by (cases t) (simp add: res_iff j_text_iff j_strings_iff j_fixed_iff [OF assms])
qed

lemma parse_claims_iff:
  assumes "base64ct X"
  shows "parse_claims X G P digest core relay = Inr c \<longleftrightarrow>
     (\<exists>jwk key t. get core ''deviceKeyJwk'' = Some jwk \<and> parse_device_jwk X jwk = Inr key
        \<and> matches_jwk X (ic_device_did c) key = Inr () \<and> ic_device_digest c = sha256_digest X (canonicalise jwk)
        \<and> get core ''accountTransition'' = Some t \<and> (\<exists>tr. parse_transition X G t = Inr tr \<and> ic_transition c = Some tr))
     \<and> get core ''deviceDid'' = Some (String (ic_device_did c))
     \<and> get core ''requestedPermissions'' = Some (Array (map String (ic_permissions c))) \<and> v2_permissions P (ic_permissions c) = Inr ()
     \<and> get core ''carrierCeremonyId'' = Some (String (b64url X (ic_ceremony c))) \<and> length (ic_ceremony c) = 32
     \<and> get core ''accountScopeId'' = Some (String (b64url X (ic_scope c))) \<and> length (ic_scope c) = 32
     \<and> get core ''accountPrincipalDigest'' = Some (String (b64url X (ic_principal c))) \<and> length (ic_principal c) = 32
     \<and> ic_application_id c = app_text (application_id P) \<and> ic_https_origin c = app_origin (application_id P)
     \<and> ic_relay_origin c = relay \<and> ic_core_digest c = digest
     \<and> device_binding_ok G (ic_device_did c) (ic_device_digest c) \<and> claims_ok G c"
  (is "?l \<longleftrightarrow> ?r")
proof
  assume ?l
  then show ?r unfolding parse_claims_def Let_def
    by (auto simp: res_iff j_text_iff j_strings_iff j_fixed_iff [OF assms])
next
  assume r: ?r
  then obtain jwk key t tr where "get core ''deviceKeyJwk'' = Some jwk" "parse_device_jwk X jwk = Inr key"
      "matches_jwk X (ic_device_did c) key = Inr ()" "ic_device_digest c = sha256_digest X (canonicalise jwk)"
      "get core ''accountTransition'' = Some t" "parse_transition X G t = Inr tr" "ic_transition c = Some tr"
    by blast
  with r show ?l unfolding parse_claims_def Let_def
    by (cases c) (simp add: res_iff j_text_iff j_strings_iff j_fixed_iff [OF assms])
qed

end
