(* ===== verification/Pair_Sign.thy ===== *)
theory Pair_Sign
  imports Pair_Offer Grant
begin

text \<open>
  What the operations of \<open>Pair_Offer\<close> promise together: a recognised offer is bound to the profile, a declared
  key and a bounded window; an offer the hub prepares is recognised as prepared; one it signs is recognised as
  signed; and the signing key is used only after the device's proof of possession.
\<close>

section \<open>A prepared offer\<close>

lemma snapshot_rooms_map: "snapshot_rooms h k prior rows = Inr rooms \<Longrightarrow> rooms = map rs_room rows"
  by (induction rows arbitrary: prior rooms) (auto simp: res_iff Let_def split: if_splits)

lemma validate_snapshot_iff:
  "validate_snapshot G i = Inr rooms \<Longrightarrow> rooms = map rs_room (oi_snapshot_rows i) \<and> valid_utf8 (oi_legacy_handle i)"
proof -
  assume a: "validate_snapshot G i = Inr rooms"
  then have r: "rooms = map rs_room (oi_snapshot_rows i)"
    unfolding validate_snapshot_def Let_def by (auto simp: res_iff dest: snapshot_rooms_map)
  have h: "starts_with ''@'' (oi_legacy_handle i)"
    "list_all (\<lambda>b. is_ascii_lowercase b \<or> is_ascii_digit b \<or> b = CHR ''_'' \<or> b = CHR ''-'') (drop 1 (oi_legacy_handle i))"
    using a unfolding validate_snapshot_def Let_def by (auto simp: res_iff)
  from h(1) obtain t where t: "oi_legacy_handle i = CHR ''@'' # t" by (cases "oi_legacy_handle i") (auto simp: starts_with_def)
  have "code c < 0x80" if "c \<in> set t" for c
    using h(2) that by (auto simp: t list_all_iff ascii_class_defs)
  then have "valid_utf8 (oi_legacy_handle i)" unfolding t by (intro valid_utf8_if) auto
  with r show ?thesis by simp
qed

text \<open>What the types of the Rust code guarantee of the arguments: array lengths and \<open>str\<close>.\<close>

definition offer_typed :: "application_profile \<Rightarrow> v2_carrier \<Rightarrow> offer_input \<Rightarrow> bool" where
  "offer_typed P ca i \<longleftrightarrow>
     list_all (\<lambda>b. length b = 32) [oi_request_id i, oi_account_scope_id i, oi_device_public_key i, oi_intent_nonce i,
       oi_snapshot_nonce i, ca_ceremony ca, ca_digest ca, profile_digest P]
     \<and> length (oi_transcript_hash i) = 64 \<and> valid_utf8 (app_text (application_id P))
     \<and> list_all (\<lambda>d. valid_utf8 (relay_origin d) \<and> length (descriptor_digest d) = 32) (cbcl_pairing_relays P)
     \<and> list_all valid_utf8 (oi_requested_permissions i) \<and> list_all (\<lambda>row. valid_utf8 (rs_room row)) (oi_snapshot_rows i)"

text \<open>The claims a recogniser makes of a prepared offer.\<close>

definition prepared_transition :: "offer_input \<Rightarrow> prepared_offer \<Rightarrow> path_a_to_b" where
  "prepared_transition i p =
     \<lparr>pt_handle = oi_legacy_handle i, pt_key_digest = po_legacy_key_digest p, pt_rooms = map rs_room (oi_snapshot_rows i),
      pt_room_digest = po_room_set_digest p, pt_snapshot_digest = po_migration_snapshot_digest p, pt_nonce = oi_snapshot_nonce i\<rparr>"

definition prepared_claims :: "application_profile \<Rightarrow> v2_carrier \<Rightarrow> offer_input \<Rightarrow> prepared_offer \<Rightarrow> intent_claims" where
  "prepared_claims P ca i p =
     \<lparr>ic_application_id = app_text (application_id P), ic_https_origin = app_origin (application_id P),
      ic_relay_origin = ca_relay_origin ca, ic_ceremony = ca_ceremony ca, ic_principal = po_account_principal_digest p,
      ic_scope = oi_account_scope_id i, ic_permissions = oi_requested_permissions i, ic_device_did = po_device_did p,
      ic_device_digest = po_device_key_digest p, ic_transition = Some (prepared_transition i p),
      ic_core_digest = po_offer_core_digest p\<rparr>"

definition constructors_accept :: "pair_externs \<Rightarrow> application_profile \<Rightarrow> v2_carrier \<Rightarrow> offer_input \<Rightarrow> prepared_offer \<Rightarrow> bool" where
  "constructors_accept G P ca i p \<longleftrightarrow> transition_ok G (prepared_transition i p)
     \<and> device_binding_ok G (po_device_did p) (po_device_key_digest p) \<and> claims_ok G (prepared_claims P ca i p)"

text \<open>What a recogniser asks of a prepared offer that the builder does not.\<close>

definition offer_accepted :: "externs \<Rightarrow> pair_externs \<Rightarrow> application_profile \<Rightarrow> v2_carrier \<Rightarrow> offer_input \<Rightarrow> prepared_offer \<Rightarrow> bool" where
  "offer_accepted X G P ca i p \<longleftrightarrow> usable_key X (oi_device_public_key i) \<and> constructors_accept G P ca i p"

definition prepared_view :: "application_profile \<Rightarrow> v2_carrier \<Rightarrow> offer_input \<Rightarrow> cbcl_relay_descriptor \<Rightarrow> prepared_offer
    \<Rightarrow> octets \<Rightarrow> rust_str \<Rightarrow> recognised_offer" where
  "prepared_view P ca i d p signed_offer k =
     \<lparr>ro_signed_offer = signed_offer, ro_offer_core = po_offer_core p, ro_kid = k, ro_claims = prepared_claims P ca i p,
      ro_request_id = oi_request_id i, ro_profile_digest = profile_digest P, ro_descriptor_digest = descriptor_digest d,
      ro_carrier_digest = ca_digest ca, ro_intent_nonce = oi_intent_nonce i, ro_transcript_hash = oi_transcript_hash i,
      ro_expires_at = oi_expires_at i\<rparr>"

lemma prepare_offer_core_cases:
  assumes "prepare_offer_core X G P ca i = Inr p"
  obtains d where "selected_descriptor P ca = Inr d" "ca_allocator_key ca = Some (oi_device_public_key i)"
    "oi_issued_at i < oi_expires_at i" "300 \<le> oi_expires_at i - oi_issued_at i" "oi_expires_at i - oi_issued_at i \<le> 600"
    "v2_permissions P (oi_requested_permissions i) = Inr ()" "validate_snapshot G i = Inr (map rs_room (oi_snapshot_rows i))"
    "room_set_digest X G (map rs_room (oi_snapshot_rows i)) = Inr (po_room_set_digest p)"
    "migration_snapshot_digest X G i = Inr (po_migration_snapshot_digest p)"
    "account_principal_digest X G (app_text (application_id P)) (oi_application_account_id i) = Inr (po_account_principal_digest p)"
    "po_offer_core p = canonicalise (offer_core_json X P d ca i (po_account_principal_digest p)
       (transition_json X (oi_legacy_handle i) (po_legacy_key_digest p) (map rs_room (oi_snapshot_rows i)) (po_room_set_digest p)
         (po_migration_snapshot_digest p) (oi_snapshot_nonce i)))"
    "length (po_offer_core p) \<le> MAX_OFFER_CORE_BYTES" "po_offer_core_digest p = sha256_digest X (po_offer_core p)"
    "po_intent_digest p = intent_digest_of G (po_offer_core_digest p)" "po_device_did p = encode_did_key (oi_device_public_key i)"
    "po_device_key_digest p = sha256_digest X (canonicalise (v2_device_jwk X (oi_device_public_key i)))"
    "po_legacy_key_digest p = labelled_hash X LEGACY_KEY_DOMAIN (oi_enrolled_key i)"
proof -
  from assms obtain d rooms where d: "selected_descriptor P ca = Inr d" and r: "validate_snapshot G i = Inr rooms"
    unfolding prepare_offer_core_def Let_def by (auto simp: res_iff)
  have rooms: "rooms = map rs_room (oi_snapshot_rows i)" using validate_snapshot_iff [OF r] by simp
  show ?thesis
    using assms r
    by (intro that [OF d]; simp add: prepare_offer_core_def Let_def d r rooms res_iff; clarsimp)
qed

lemma labelled_hash_length: "sha2_law X \<Longrightarrow> length (labelled_hash X l v) = 32"
  by (simp add: labelled_hash_def)

lemma digests_length:
  assumes "sha2_law X"
  shows "room_set_digest X G rooms = Inr b \<Longrightarrow> length b = 32"
    "migration_snapshot_digest X G i = Inr b \<Longrightarrow> length b = 32"
    "account_principal_digest X G aid a = Inr b \<Longrightarrow> length b = 32"
  using assms by (auto simp: room_set_digest_def migration_snapshot_digest_def account_principal_digest_def res_iff
      labelled_hash_length)

lemma utf8_literal: "list_all (\<lambda>c. code c < 0x80) s \<Longrightarrow> valid_utf8 s"
  by (rule valid_utf8_ascii)

lemma device_jwk_parses:
  assumes X: "base64ct X" and "length key = 32"
  shows "json_wf (v2_device_jwk X key)" "json_depth (v2_device_jwk X key) \<le> 1"
    "parse_device_jwk X (sort_members (v2_device_jwk X key)) = Inr key"
proof -
  show wf: "json_wf (v2_device_jwk X key)"
    using valid_utf8_b64url [OF X, of key] by (simp add: v2_device_jwk_def valid_utf8_ascii)
  show "json_depth (v2_device_jwk X key) \<le> 1" by (simp add: v2_device_jwk_def)
  have "member_names (sort_members (v2_device_jwk X key)) = sort_key encode_utf16 [''crv'', ''kty'', ''x'']"
    unfolding v2_device_jwk_def member_names_sort by simp
  also have "\<dots> = [''crv'', ''kty'', ''x'']" by code_simp
  finally show "parse_device_jwk X (sort_members (v2_device_jwk X key)) = Inr key"
    using assms(2) by (simp add: parse_device_jwk_iff [OF X] get_sort_members [OF wf]) (simp add: v2_device_jwk_def get_Object)
qed

lemma transition_parses:
  assumes X: "base64ct X" and "valid_utf8 h" "\<forall>r \<in> set rooms. valid_utf8 r"
    "length kd = 32" "length rd = 32" "length sd = 32" "length n = 32"
  shows "json_wf (transition_json X h kd rooms rd sd n)" "json_depth (transition_json X h kd rooms rd sd n) \<le> 2"
    "parse_transition X G (sort_members (transition_json X h kd rooms rd sd n)) = Inr t \<longleftrightarrow>
     t = \<lparr>pt_handle = h, pt_key_digest = kd, pt_rooms = rooms, pt_room_digest = rd, pt_snapshot_digest = sd, pt_nonce = n\<rparr>
     \<and> transition_ok G t"
proof -
  show wf: "json_wf (transition_json X h kd rooms rd sd n)"
    using assms(2,3) valid_utf8_b64url [OF X] by (simp add: transition_json_def valid_utf8_ascii)
  show "json_depth (transition_json X h kd rooms rd sd n) \<le> 2" by (auto simp: transition_json_def)
  have "member_names (sort_members (transition_json X h kd rooms rd sd n)) =
      sort_key encode_utf16 [''kind'', ''legacyHandle'', ''legacyKeyDigest'', ''migrationRooms'', ''migrationSnapshotDigest'',
          ''roomSetDigest'', ''snapshotNonce'']"
    unfolding transition_json_def member_names_sort by simp
  also have "\<dots> = [''kind'', ''legacyHandle'', ''legacyKeyDigest'', ''migrationRooms'', ''migrationSnapshotDigest'',
          ''roomSetDigest'', ''snapshotNonce'']" by code_simp
  finally show "parse_transition X G (sort_members (transition_json X h kd rooms rd sd n)) = Inr t \<longleftrightarrow>
     t = \<lparr>pt_handle = h, pt_key_digest = kd, pt_rooms = rooms, pt_room_digest = rd, pt_snapshot_digest = sd, pt_nonce = n\<rparr>
     \<and> transition_ok G t"
    using assms(4-7) base64ct.encode_inject [OF X] unfolding parse_transition_iff [OF X] get_sort_members [OF wf]
    by (cases t) (auto simp: transition_json_def get_Object sort_map_String b64url_def inj_map_eq_map inj_def simp del: map_map)
qed

lemma utf8_names: "list_all (\<lambda>s. list_all (\<lambda>c. code c < 0x80) s) OFFER_MEMBERS"
  by code_simp

lemma find_filter: "filter Q xs = x # ys \<Longrightarrow> List.find Q xs = Some x"
  by (induction xs) (auto split: if_splits)

section \<open>Recognising a prepared offer\<close>

lemma offer_core_parses:
  assumes X: "base64ct X" and S: "sha2_law X" and T: "offer_typed P ca i"
    and e: "int (oi_expires_at i) \<le> MAX_SAFE_INTEGER" and p: "prepare_offer_core X G P ca i = Inr p"
    and d: "selected_descriptor P ca = Inr d"
  defines "t \<equiv> transition_json X (oi_legacy_handle i) (po_legacy_key_digest p) (map rs_room (oi_snapshot_rows i))
      (po_room_set_digest p) (po_migration_snapshot_digest p) (oi_snapshot_nonce i)"
  defines "core \<equiv> offer_core_json X P d ca i (po_account_principal_digest p) t"
  shows "json_wf core" "json_depth core \<le> 4"
    "parse_core X G P s (po_offer_core p) k (po_offer_core_digest p) (sort_members core) = Inr r \<longleftrightarrow>
     usable_key X (oi_device_public_key i) \<and> constructors_accept G P ca i p \<and> r = prepared_view P ca i d p s k"
proof -
  from p obtain d' where "selected_descriptor P ca = Inr d'"
    and w: "oi_issued_at i < oi_expires_at i" "300 \<le> oi_expires_at i - oi_issued_at i" "oi_expires_at i - oi_issued_at i \<le> 600"
    and perms: "v2_permissions P (oi_requested_permissions i) = Inr ()"
    and snap: "validate_snapshot G i = Inr (map rs_room (oi_snapshot_rows i))"
    and ds: "room_set_digest X G (map rs_room (oi_snapshot_rows i)) = Inr (po_room_set_digest p)"
      "migration_snapshot_digest X G i = Inr (po_migration_snapshot_digest p)"
      "account_principal_digest X G (app_text (application_id P)) (oi_application_account_id i) = Inr (po_account_principal_digest p)"
    and dev: "po_device_did p = encode_did_key (oi_device_public_key i)"
      "po_device_key_digest p = sha256_digest X (canonicalise (v2_device_jwk X (oi_device_public_key i)))"
      "po_legacy_key_digest p = labelled_hash X LEGACY_KEY_DOMAIN (oi_enrolled_key i)"
    by (rule prepare_offer_core_cases) blast
  note len = digests_length(1) [OF S ds(1)] digests_length(2) [OF S ds(2)] digests_length(3) [OF S ds(3)]
  have lk: "length (po_legacy_key_digest p) = 32" by (simp add: dev labelled_hash_length [OF S])
  have typed: "length (oi_request_id i) = 32" "length (oi_account_scope_id i) = 32" "length (oi_device_public_key i) = 32"
    "length (oi_intent_nonce i) = 32" "length (oi_snapshot_nonce i) = 32" "length (ca_ceremony ca) = 32" "length (ca_digest ca) = 32"
    "length (profile_digest P) = 32" "length (oi_transcript_hash i) = 64" "valid_utf8 (app_text (application_id P))"
    "\<forall>r \<in> set (map rs_room (oi_snapshot_rows i)). valid_utf8 r" "\<forall>p \<in> set (oi_requested_permissions i). valid_utf8 p"
    using T by (auto simp: offer_typed_def list_all_iff)
  from d have fd: "filter (\<lambda>d. relay_origin d = ca_relay_origin ca) (cbcl_pairing_relays P) = [d]"
    by (simp add: selected_descriptor_iff)
  then have "d \<in> set (filter (\<lambda>d. relay_origin d = ca_relay_origin ca) (cbcl_pairing_relays P))" by simp
  then have dm: "d \<in> set (cbcl_pairing_relays P)" "relay_origin d = ca_relay_origin ca" by auto
  with T have dt: "valid_utf8 (relay_origin d)" "length (descriptor_digest d) = 32" by (auto simp: offer_typed_def list_all_iff)
  have find: "List.find (\<lambda>c. relay_origin c = relay_origin d) (cbcl_pairing_relays P) = Some d"
    unfolding dm(2) by (rule find_filter [OF fd])
  have h: "valid_utf8 (oi_legacy_handle i)" using validate_snapshot_iff [OF snap] by simp
  note t = transition_parses [OF X h typed(11) lk len(1,2) typed(5), folded t_def]
  note j = device_jwk_parses [OF X typed(3)]
  show wf: "json_wf core"
    using t(1) j(1) typed dt(1) valid_utf8_b64url [OF X] valid_utf8_did_key w(1) e
    by (simp add: core_def offer_core_json_def valid_utf8_ascii MAX_SAFE_INTEGER_def)
  show "json_depth core \<le> 4" using t(2) j(2) by (auto simp: core_def offer_core_json_def)
  have "member_names (sort_members core) = sort_key encode_utf16 (map fst
      (case offer_core_json X P d ca i [] Null of Object ms \<Rightarrow> ms))"
    unfolding core_def offer_core_json_def member_names_sort by simp
  also have "\<dots> = sort_key encode_utf16 [''payloadVersion'', ''role'', ''carrierCeremonyId'', ''requestId'', ''applicationId'',
      ''profileVersion'', ''profileDigest'', ''descriptorDigest'', ''relayOrigin'', ''carrierDigest'', ''transcriptHash'',
      ''accountPrincipalDigest'', ''accountScopeId'', ''deviceDid'', ''deviceKeyJwk'', ''requestedPermissions'', ''intentNonce'',
      ''issuedAt'', ''expiresAt'', ''accountTransition'']"
    by (simp add: offer_core_json_def)
  also have "\<dots> = OFFER_MEMBERS" by code_simp
  finally have names: "member_names (sort_members core) = OFFER_MEMBERS" .
  note g = get_sort_members [OF wf]
  have head: "parse_core_head X P (sort_members core) = Inr d"
    unfolding parse_head_iff [OF X] names g
    using typed dt find by (simp add: core_def offer_core_json_def get_Object)
  have claims: "parse_claims X G P (po_offer_core_digest p) (sort_members core) (relay_origin d) = Inr c \<longleftrightarrow>
      usable_key X (oi_device_public_key i) \<and> constructors_accept G P ca i p \<and> c = prepared_claims P ca i p" for c
    unfolding parse_claims_iff [OF X] g
    using typed j(3) perms len dev dm(2) base64ct.encode_inject [OF X]
    by (cases c) (auto simp: core_def offer_core_json_def get_Object prepared_claims_def prepared_transition_def constructors_accept_def
        matches_jwk_iff sort_map_String b64url_def inj_map_eq_map inj_def t(3) simp del: map_map)
  show "parse_core X G P s (po_offer_core p) k (po_offer_core_digest p) (sort_members core) = Inr r \<longleftrightarrow>
     usable_key X (oi_device_public_key i) \<and> constructors_accept G P ca i p \<and> r = prepared_view P ca i d p s k"
    unfolding parse_core_def head and_then_simps
    using typed dt w base64ct.encode_inject [OF X]
    by (simp add: res_iff j_integer_iff j_fixed_iff [OF X] g claims)
       (auto simp: core_def offer_core_json_def get_Object prepared_view_def b64url_def)
qed

lemma prepared_core_recognised:
  assumes "base64ct X" "sha2_law X" "offer_typed P ca i" "int (oi_expires_at i) \<le> MAX_SAFE_INTEGER"
    and p: "prepare_offer_core X G P ca i = Inr p" and d: "selected_descriptor P ca = Inr d"
  shows "recognise_core_with_envelope X G P s (po_offer_core p) k (po_offer_core_digest p) = Inr r \<longleftrightarrow>
    usable_key X (oi_device_public_key i) \<and> constructors_accept G P ca i p \<and> r = prepared_view P ca i d p s k"
proof -
  note core = offer_core_parses [OF assms]
  from p d have c: "po_offer_core p = canonicalise (offer_core_json X P d ca i (po_account_principal_digest p)
       (transition_json X (oi_legacy_handle i) (po_legacy_key_digest p) (map rs_room (oi_snapshot_rows i)) (po_room_set_digest p)
         (po_migration_snapshot_digest p) (oi_snapshot_nonce i)))"
    and l: "length (po_offer_core p) \<le> MAX_OFFER_CORE_BYTES"
    by (auto elim: prepare_offer_core_cases)
  have "recognise_json (po_offer_core p) \<lparr>max_bytes = MAX_OFFER_CORE_BYTES, max_depth = 4\<rparr> =
      Inr (sort_members (offer_core_json X P d ca i (po_account_principal_digest p)
       (transition_json X (oi_legacy_handle i) (po_legacy_key_digest p) (map rs_room (oi_snapshot_rows i)) (po_room_set_digest p)
         (po_migration_snapshot_digest p) (oi_snapshot_nonce i))))"
    unfolding c using core(1,2) l [unfolded c] by (intro recognise_canonicalise) simp_all
  then show ?thesis using core(3) by (simp add: recognise_core_with_envelope_def c [symmetric])
qed

text \<open>The recogniser of a prepared offer accepts this core exactly when it returns what was prepared.\<close>

lemma prepared_recognised:
  assumes "base64ct X" "sha2_law X" "offer_typed P ca i" "int (oi_expires_at i) \<le> MAX_SAFE_INTEGER"
    and p: "prepare_offer_core X G P ca i = Inr p"
  shows "recognise_prepared_offer X G P (po_offer_core p) = Inr q \<longleftrightarrow>
    usable_key X (oi_device_public_key i) \<and> constructors_accept G P ca i p \<and> q = p"
proof -
  from p obtain d where d: "selected_descriptor P ca = Inr d"
    and g: "po_offer_core_digest p = sha256_digest X (po_offer_core p)" "po_intent_digest p = intent_digest_of G (po_offer_core_digest p)"
    by (rule prepare_offer_core_cases)
  have "recognise_offer_core X G P (po_offer_core p) = Inr r \<longleftrightarrow>
      usable_key X (oi_device_public_key i) \<and> constructors_accept G P ca i p \<and> r = prepared_view P ca i d p [] []" for r
    unfolding recognise_offer_core_def g(1) [symmetric] by (rule prepared_core_recognised [OF assms(1-5) d])
  then have "recognise_prepared_offer X G P (po_offer_core p) = Inr q \<longleftrightarrow> usable_key X (oi_device_public_key i) \<and>
      constructors_accept G P ca i p \<and> Inr q = (Inr (p\<lparr>po_intent_digest := intent_digest_of G (po_offer_core_digest p)\<rparr>)
        :: offer_error + prepared_offer)"
    by (simp add: recognise_prepared_offer_def Let_def and_then_Inr_iff) (cases p; auto simp: prepared_view_def prepared_claims_def prepared_transition_def)
  also have "p\<lparr>po_intent_digest := intent_digest_of G (po_offer_core_digest p)\<rparr> = p" by (cases p) (use g(2) in simp)
  finally show ?thesis by simp
qed

section \<open>Signing\<close>

lemma sign_verified_iff:
  "sign_verified_offer X G P p k sk = Inr b \<longleftrightarrow>
     signing_key_declared X P k sk = Inr () \<and> recognise_prepared_offer X G P (po_offer_core p) = Inr p
     \<and> cbor_canonical G (CArray [CText SIGNED_OFFER_DOMAIN, CBytes (po_offer_core p), CText k,
          CBytes (sk_sign X sk (OFFER_SIGNATURE_DOMAIN @ po_offer_core_digest p))]) = Some (bo_signed_offer b)
     \<and> length (bo_signed_offer b) \<le> MAX_SIGNED_OFFER_BYTES \<and> bo_prepared b = p \<and> bo_kid b = k"
  by (cases b) (auto simp: sign_verified_offer_def Let_def res_iff)

lemma recognise_prepared_core_digest:
  assumes "recognise_prepared_offer X G P c = Inr p"
  shows "po_offer_core p = c" "po_offer_core_digest p = sha256_digest X c"
proof -
  have "ic_core_digest (ro_claims r) = g" if "recognise_core_with_envelope X G P s c k g = Inr r" for s k g r
    using that unfolding recognise_core_with_envelope_def parse_core_def parse_claims_def Let_def by (auto simp: res_iff)
  then show "po_offer_core p = c" "po_offer_core_digest p = sha256_digest X c"
    using assms unfolding recognise_prepared_offer_def recognise_offer_core_def Let_def by (auto simp: res_iff)
qed

lemma signed_envelope:
  assumes C: "cbor_law G" and V: "verify_law X G sk" and s: "sign_verified_offer X G P p k sk = Inr b"
  shows "recognise_signed_offer X G P (bo_signed_offer b) =
     recognise_core_with_envelope X G P (bo_signed_offer b) (po_offer_core p) k (sha256_digest X (po_offer_core p))"
proof -
  let ?sig = "sk_sign X sk (OFFER_SIGNATURE_DOMAIN @ po_offer_core_digest p)"
  let ?v = "CArray [CText SIGNED_OFFER_DOMAIN, CBytes (po_offer_core p), CText k, CBytes ?sig]"
  from s [unfolded sign_verified_iff] have dec: "signing_key_declared X P k sk = Inr ()"
    and rec: "recognise_prepared_offer X G P (po_offer_core p) = Inr p"
    and enc: "cbor_canonical G ?v = Some (bo_signed_offer b)" and len: "length (bo_signed_offer b) \<le> MAX_SIGNED_OFFER_BYTES"
    by blast+
  from dec [unfolded declared_iff] obtain e where e: "List.find (\<lambda>c. kid c = k) (enrollment_keys P) = Some e"
    "public_key (jwk e) = sk_public X sk" by blast
  note g = recognise_prepared_core_digest(2) [OF rec]
  have x: "exact_cbor G (bo_signed_offer b) = Inr ?v" by (rule exact_cbor_array [OF C _ enc]) simp
  have ne: "bo_signed_offer b \<noteq> []" using cbor_law_nonempty [OF C enc] .
  show ?thesis
    using V e len ne by (simp add: recognise_signed_offer_def recognise_envelope_def x e verify_with_def verify_law_def ed25519_law_def g)
qed

lemma device_proof_iff:
  "verify_prepared_offer_device_proof X G P p g ceremony key s = Inr v \<longleftrightarrow>
     (\<exists>r input. recognise_offer_core X G P (po_offer_core p) = Inr r \<and> recognise_prepared_offer X G P (po_offer_core p) = Inr p
        \<and> ic_ceremony (ro_claims r) = ceremony \<and> ic_device_did (ro_claims r) = encode_did_key key
        \<and> ic_device_digest (ro_claims r) = sha256_digest X (canonicalise (v2_device_jwk X key))
        \<and> device_possession_proof_input X G g ceremony (po_offer_core_digest p) = Inr input
        \<and> vk_from_bytes X key \<and> vk_verify G key input s)
     \<and> vo_prepared v = p"
  by (cases v) (auto simp: verify_prepared_offer_device_proof_def Let_def res_iff verify_with_iff)

text \<open>The envelope changes nothing of what is recognised but the octets and the kid of the envelope.\<close>

lemma core_with_envelope:
  "recognise_core_with_envelope X G P s c k g = Inr r \<longleftrightarrow>
     (\<exists>r'. recognise_core_with_envelope X G P [] c [] g = Inr r' \<and> r = r'\<lparr>ro_signed_offer := s, ro_kid := k\<rparr>)"
  unfolding recognise_core_with_envelope_def parse_core_def by (auto simp: res_iff)

lemma recognised_core_octets: "recognise_core_with_envelope X G P s c k g = Inr r \<Longrightarrow> ro_offer_core r = c"
  unfolding recognise_core_with_envelope_def parse_core_def by (auto simp: res_iff)

text \<open>What the device signs: the digest of its domain and of one triple.\<close>

lemma possession_input_iff:
  assumes "cbor_law G"
  shows "device_possession_proof_input X G g c d = Inr input \<longleftrightarrow>
    (\<exists>octets. cbor_canonical G (CArray [CBytes g, CBytes c, CBytes d]) = Some octets
      \<and> input = sha256_digest X (DEVICE_POSSESSION_DOMAIN @ octets)
      \<and> (\<forall>g' c' d'. cbor_canonical G (CArray [CBytes g', CBytes c', CBytes d']) = Some octets \<longrightarrow> g' = g \<and> c' = c \<and> d' = d))"
proof -
  have "g' = g \<and> c' = c \<and> d' = d" if "cbor_canonical G (CArray [CBytes g, CBytes c, CBytes d]) = Some octets"
      "cbor_canonical G (CArray [CBytes g', CBytes c', CBytes d']) = Some octets" for octets g' c' d'
    using cbor_law_array [OF assms _ that(1)] cbor_law_array [OF assms _ that(2)] by simp
  moreover have "device_possession_proof_input X G g c d = Inr input \<longleftrightarrow>
      (\<exists>octets. cbor_canonical G (CArray [CBytes g, CBytes c, CBytes d]) = Some octets \<and> input = sha256_digest X (DEVICE_POSSESSION_DOMAIN @ octets))"
    by (auto simp: device_possession_proof_input_def labelled_hash_def res_iff)
  ultimately show ?thesis by blast
qed

section \<open>Concrete offers\<close>

definition sample_v2_profile :: application_profile where
  "sample_v2_profile =
     \<lparr>profile_canonical = [], profile_digest = replicate 32 CHR ''p'',
      application_id = \<lparr>app_text = ''https://app.example/app'', app_origin = ''https://app.example''\<rparr>,
      account_authority = ''a.example'', allowed_permissions = [''chat'', ''read''],
      enrollment_keys = [\<lparr>kid = ''k'', jwk = \<lparr>public_key = replicate 32 CHR ''h'', jwk_x = []\<rparr>\<rparr>], mobile_bindings = [],
      cbcl_pairing_relays = [\<lparr>operator_id = ''o'', relay_origin = ''https://r.example'', priority = 0, weight = 1,
        privacy_policy_digest = replicate 32 CHR ''q'', conformance_evidence_digest = replicate 32 CHR ''e'',
        descriptor_digest = replicate 32 CHR ''d''\<rparr>],
      state_resolvers = [],
      revocation = \<lparr>revocation_method = ''m'', max_grant_lifetime_seconds = 1, max_closure_age_seconds = 1,
        propagation_sla_seconds = 1, projection = None\<rparr>,
      capabilities = []\<rparr>"

definition sample_v2_carrier :: v2_carrier where
  "sample_v2_carrier =
     \<lparr>ca_application_context = ''https://app.example/app'', ca_relay_origin = ''https://r.example'', ca_ceremony = replicate 32 CHR ''c'',
      ca_digest = replicate 32 CHR ''g'', ca_allocator_key = Some (replicate 32 CHR ''v'')\<rparr>"

definition sample_row :: room_snapshot where
  "sample_row =
     \<lparr>rs_raw_primary_key = u32_be_bytes 5 @ ''lobby'' @ ''@ann'', rs_room = ''lobby'', rs_legacy_handle = ''@ann'',
      rs_enrolled_key = replicate 32 CHR ''l'', rs_granted = 7, rs_provenance = Invite, rs_since = Some 9\<rparr>"

definition sample_v2_input :: offer_input where
  "sample_v2_input =
     \<lparr>oi_request_id = replicate 32 CHR ''r'', oi_transcript_hash = replicate 64 CHR ''t'',
      oi_application_account_id = ''ann'', oi_account_scope_id = replicate 32 CHR ''s'',
      oi_device_public_key = replicate 32 CHR ''v'', oi_requested_permissions = [''chat''],
      oi_intent_nonce = replicate 32 CHR ''n'', oi_issued_at = 1000, oi_expires_at = 1600, oi_legacy_handle = ''@ann'',
      oi_enrolled_key = replicate 32 CHR ''l'', oi_snapshot_rows = [sample_row], oi_snapshot_nonce = replicate 32 CHR ''o''\<rparr>"

definition sample_transition :: json where
  "sample_transition =
     transition_json sample_externs ''@ann'' (labelled_hash sample_externs LEGACY_KEY_DOMAIN (replicate 32 CHR ''l'')) [''lobby'']
       (labelled_hash sample_externs ROOM_SET_DOMAIN ''A'') (labelled_hash sample_externs SNAPSHOT_DOMAIN ''B'') (replicate 32 CHR ''o'')"

definition sample_offer_octets :: octets where
  "sample_offer_octets =
     canonicalise (offer_core_json sample_externs sample_v2_profile (hd (cbcl_pairing_relays sample_v2_profile)) sample_v2_carrier
       sample_v2_input (sha256_digest sample_externs ''C'') sample_transition)"

definition sample_v2_digest :: octets where
  "sample_v2_digest = sha256_digest sample_externs sample_offer_octets"

definition sample_table :: "(cbor \<times> octets) list" where
  "sample_table =
     [(CArray [CBytes ''lobby''], ''A''),
      (CArray [CArray [CText ''cbcl-member'', CBytes ''@ann'', CBytes (replicate 32 CHR ''l'')], CArray [snapshot_row sample_row]], ''B''),
      (CArray [CText ACCOUNT_PRINCIPAL_DOMAIN, CText ''https://app.example/app'', CBytes ''ann''], ''C''),
      (CArray [CText SIGNED_OFFER_DOMAIN, CBytes sample_offer_octets, CText ''k'',
         CBytes (sk_sign sample_externs (replicate 32 CHR ''h'') (OFFER_SIGNATURE_DOMAIN @ sample_v2_digest))], ''D''),
      (CArray [CBytes (replicate 32 CHR ''z''), CBytes (replicate 32 CHR ''c''), CBytes sample_v2_digest], ''E'')]"

abbreviation sample_pair :: pair_externs where "sample_pair \<equiv> table_externs sample_table"

definition sample_prepared :: prepared_offer where
  "sample_prepared =
     \<lparr>po_offer_core = sample_offer_octets, po_offer_core_digest = sample_v2_digest, po_intent_digest = sample_v2_digest,
      po_account_principal_digest = sha256_digest sample_externs ''C'', po_device_did = encode_did_key (replicate 32 CHR ''v''),
      po_device_key_digest = sha256_digest sample_externs (canonicalise (v2_device_jwk sample_externs (replicate 32 CHR ''v''))),
      po_legacy_key_digest = labelled_hash sample_externs LEGACY_KEY_DOMAIN (replicate 32 CHR ''l''),
      po_room_set_digest = labelled_hash sample_externs ROOM_SET_DOMAIN ''A'',
      po_migration_snapshot_digest = labelled_hash sample_externs SNAPSHOT_DOMAIN ''B''\<rparr>"

lemma sample_encodings:
  "cbor_canonical sample_pair (CArray [CBytes ''lobby'']) = Some ''A''"
  "cbor_canonical sample_pair (CArray [CArray [CText ''cbcl-member'', CBytes ''@ann'', CBytes (replicate 32 CHR ''l'')],
     CArray [snapshot_row sample_row]]) = Some ''B''"
  "cbor_canonical sample_pair (CArray [CText ACCOUNT_PRINCIPAL_DOMAIN, CText ''https://app.example/app'', CBytes ''ann'']) = Some ''C''"
  "cbor_canonical sample_pair (CArray [CText SIGNED_OFFER_DOMAIN, CBytes sample_offer_octets, CText ''k'',
     CBytes (sk_sign sample_externs (replicate 32 CHR ''h'') (OFFER_SIGNATURE_DOMAIN @ sample_v2_digest))]) = Some ''D''"
  "cbor_canonical sample_pair (CArray [CBytes (replicate 32 CHR ''z''), CBytes (replicate 32 CHR ''c''), CBytes sample_v2_digest]) = Some ''E''"
  by (simp_all add: table_externs_def sample_table_def)

lemma sample_selected: "selected_descriptor sample_v2_profile sample_v2_carrier = Inr (hd (cbcl_pairing_relays sample_v2_profile))"
  by (simp add: selected_descriptor_def sample_v2_profile_def sample_v2_carrier_def)

lemma sample_snapshot: "validate_snapshot sample_pair sample_v2_input = Inr [''lobby'']"
  by (simp add: validate_snapshot_def sample_v2_input_def sample_row_def starts_with_def table_externs_def ascii_class_defs u32_be_bytes_def)

lemma length_b64_32: "length (b64url sample_externs bs) = unpadded_len (length bs)"
  by (simp add: b64url_def rfc4648.encode_length)

lemma sample_core_length: "length sample_offer_octets \<le> MAX_OFFER_CORE_BYTES"
proof -
  have n: "length (dec_int 2) = 1" "length (dec_int 1000) = 4" "length (dec_int 1600) = 4" by code_simp+
  have "length sample_offer_octets \<le> text_bound (offer_core_json sample_externs sample_v2_profile
      (hd (cbcl_pairing_relays sample_v2_profile)) sample_v2_carrier sample_v2_input (sha256_digest sample_externs ''C'') sample_transition)"
    unfolding sample_offer_octets_def by (rule length_canonicalise)
  also have "\<dots> \<le> MAX_OFFER_CORE_BYTES"
    using n length_did_key [of "replicate 32 CHR ''v''", simplified]
    by (simp add: offer_core_json_def sample_transition_def transition_json_def v2_device_jwk_def length_b64_32
        sample_v2_profile_def sample_v2_carrier_def sample_v2_input_def sample_sha2_law unpadded_len_def
        labelled_hash_length MAX_OFFER_CORE_BYTES_def)
  finally show ?thesis .
qed

lemma sample_prepares: "prepare_offer_core sample_externs sample_pair sample_v2_profile sample_v2_carrier sample_v2_input = Inr sample_prepared"
proof -
  let ?d = "hd (cbcl_pairing_relays sample_v2_profile)"
  have ne: "sample_offer_octets \<noteq> []" by (simp add: sample_offer_octets_def canonicalise_def offer_core_json_def)
  have digests: "room_set_digest sample_externs sample_pair [''lobby''] = Inr (labelled_hash sample_externs ROOM_SET_DOMAIN ''A'')"
    "migration_snapshot_digest sample_externs sample_pair sample_v2_input = Inr (labelled_hash sample_externs SNAPSHOT_DOMAIN ''B'')"
    "account_principal_digest sample_externs sample_pair ''https://app.example/app'' ''ann'' = Inr (sha256_digest sample_externs ''C'')"
    using sample_encodings
    by (simp_all add: room_set_digest_def migration_snapshot_digest_def account_principal_digest_def sample_v2_input_def)
  have perms: "v2_permissions sample_v2_profile [''chat''] = Inr ()"
    by (simp add: v2_permissions_def sample_v2_profile_def)
  have f: "oi_legacy_handle sample_v2_input = ''@ann''" "oi_snapshot_nonce sample_v2_input = replicate 32 CHR ''o''"
    "app_text (application_id sample_v2_profile) = ''https://app.example/app''" "oi_application_account_id sample_v2_input = ''ann''"
    "oi_requested_permissions sample_v2_input = [''chat'']" "oi_issued_at sample_v2_input = 1000" "oi_expires_at sample_v2_input = 1600"
    "oi_device_public_key sample_v2_input = replicate 32 CHR ''v''" "ca_allocator_key sample_v2_carrier = Some (replicate 32 CHR ''v'')"
    "oi_enrolled_key sample_v2_input = replicate 32 CHR ''l''" "intent_digest_of sample_pair = (\<lambda>d. d)"
    by (simp_all add: sample_v2_input_def sample_v2_profile_def sample_v2_carrier_def table_externs_def)
  have j: "canonicalise (offer_core_json sample_externs sample_v2_profile ?d sample_v2_carrier sample_v2_input
      (sha256_digest sample_externs ''C'') sample_transition) = sample_offer_octets"
    by (simp add: sample_offer_octets_def)
  show ?thesis
    unfolding prepare_offer_core_def sample_selected sample_snapshot f digests and_then_simps perms Let_def sample_transition_def [symmetric] j
    using ne sample_core_length by (simp add: is_i64_def i64_min_def i64_max_def sample_prepared_def sample_v2_digest_def)
qed

lemma sample_typed: "offer_typed sample_v2_profile sample_v2_carrier sample_v2_input"
proof -
  have "list_all valid_utf8 [''https://app.example/app'', ''https://r.example'', ''chat'', ''lobby'']" by (simp add: valid_utf8_ascii)
  then show ?thesis by (simp add: offer_typed_def sample_v2_profile_def sample_v2_carrier_def sample_v2_input_def sample_row_def)
qed

lemma sample_accepts: "constructors_accept sample_pair sample_v2_profile sample_v2_carrier sample_v2_input sample_prepared"
  by (simp add: constructors_accept_def table_externs_def)

lemma sample_laws: "cbor_law sample_pair" "verify_law sample_externs sample_pair sk" "usable_key sample_externs (replicate 32 k)"
  "base64ct sample_externs" "sha2_law sample_externs"
proof -
  show "cbor_law sample_pair" by (rule table_cbor_law; simp add: sample_table_def)
  show "verify_law sample_externs sample_pair sk" by (rule table_verify_law [OF sample_ed25519_law])
  show "usable_key sample_externs (replicate 32 k)" by (simp add: usable_key_def sample_externs_def)
qed (rule rfc4648.base64ct_axioms, rule sample_sha2_law)

lemma sample_signs:
  "sign_verified_offer sample_externs sample_pair sample_v2_profile sample_prepared ''k'' (replicate 32 CHR ''h'') =
     Inr \<lparr>bo_prepared = sample_prepared, bo_signed_offer = ''D'', bo_kid = ''k''\<rparr>"
proof -
  have "int (oi_expires_at sample_v2_input) \<le> MAX_SAFE_INTEGER" "usable_key sample_externs (oi_device_public_key sample_v2_input)"
    using sample_laws(3) by (simp_all add: sample_v2_input_def MAX_SAFE_INTEGER_def)
  with sample_accepts prepared_recognised [OF sample_laws(4,5) sample_typed _ sample_prepares]
  have r: "recognise_prepared_offer sample_externs sample_pair sample_v2_profile (po_offer_core sample_prepared) = Inr sample_prepared"
    by simp
  have "signing_key_declared sample_externs sample_v2_profile ''k'' (replicate 32 CHR ''h'') = Inr ()"
    by (simp add: signing_key_declared_def sample_v2_profile_def sample_externs_def zero_pad_def)
  with r sample_encodings(4) show ?thesis
    by (simp add: sign_verified_iff) (simp add: sample_prepared_def MAX_SIGNED_OFFER_BYTES_def)
qed

lemma sample_offer_recognised:
  "recognise_signed_offer sample_externs sample_pair sample_v2_profile ''D'' =
     Inr (prepared_view sample_v2_profile sample_v2_carrier sample_v2_input (hd (cbcl_pairing_relays sample_v2_profile))
       sample_prepared ''D'' ''k'')"
proof -
  have "int (oi_expires_at sample_v2_input) \<le> MAX_SAFE_INTEGER" "usable_key sample_externs (oi_device_public_key sample_v2_input)"
    using sample_laws(3) by (simp_all add: sample_v2_input_def MAX_SAFE_INTEGER_def)
  with sample_accepts prepared_core_recognised [OF sample_laws(4,5) sample_typed _ sample_prepares sample_selected]
  have "recognise_core_with_envelope sample_externs sample_pair sample_v2_profile s (po_offer_core sample_prepared) k
      (po_offer_core_digest sample_prepared) =
    Inr (prepared_view sample_v2_profile sample_v2_carrier sample_v2_input (hd (cbcl_pairing_relays sample_v2_profile)) sample_prepared s k)"
    for s k by simp
  then show ?thesis using signed_envelope [OF sample_laws(1,2) sample_signs] by (simp add: sample_prepared_def sample_v2_digest_def)
qed

section \<open>Properties\<close>

text \<open>
  C36. What a hub prepares is what everyone recognises. For arguments of the types the code gives them and an expiry
  within the integers of JSON (up to 2^53 - 1), an offer the builder returns is recognised exactly when the device key
  is a usable Ed25519 key and the third-party constructors of the transition, the device binding and the claims accept
  it; it is then recognised as itself, it is signed under every declared key whose envelope encodes within its bound,
  and whatever was signed is recognised, from the envelope alone, with the account, the device, the room snapshot, the
  nonces and the expiry that went into it.
\<close>

theorem prepared_offer_recognised:
  assumes "base64ct X" "sha2_law X" "cbor_law G" "verify_law X G sk" "offer_typed P ca i"
    "int (oi_expires_at i) \<le> MAX_SAFE_INTEGER" "prepare_offer_core X G P ca i = Inr p"
  shows "(is_ok (recognise_prepared_offer X G P (po_offer_core p)) \<longleftrightarrow> offer_accepted X G P ca i p)
    \<and> (offer_accepted X G P ca i p \<longrightarrow> recognise_prepared_offer X G P (po_offer_core p) = Inr p)
    \<and> (offer_accepted X G P ca i p \<and> signing_key_declared X P k sk = Inr () \<and> length signed_offer \<le> MAX_SIGNED_OFFER_BYTES
         \<and> cbor_canonical G (CArray [CText SIGNED_OFFER_DOMAIN, CBytes (po_offer_core p), CText k,
             CBytes (sk_sign X sk (OFFER_SIGNATURE_DOMAIN @ po_offer_core_digest p))]) = Some signed_offer \<longrightarrow>
       sign_verified_offer X G P p k sk = Inr \<lparr>bo_prepared = p, bo_signed_offer = signed_offer, bo_kid = k\<rparr>)
    \<and> (\<forall>b. sign_verified_offer X G P p k sk = Inr b \<longrightarrow> offer_accepted X G P ca i p
         \<and> (\<exists>d. selected_descriptor P ca = Inr d
              \<and> recognise_signed_offer X G P (bo_signed_offer b) = Inr (prepared_view P ca i d p (bo_signed_offer b) k)))"
proof (intro conjI)
  note known = prepared_recognised [OF assms(1,2,5-7)]
  show "is_ok (recognise_prepared_offer X G P (po_offer_core p)) \<longleftrightarrow> offer_accepted X G P ca i p"
    using known by (cases "recognise_prepared_offer X G P (po_offer_core p)") (auto simp: offer_accepted_def)
  show "offer_accepted X G P ca i p \<longrightarrow> recognise_prepared_offer X G P (po_offer_core p) = Inr p" by (simp add: known offer_accepted_def)
  then show "offer_accepted X G P ca i p \<and> signing_key_declared X P k sk = Inr () \<and> length signed_offer \<le> MAX_SIGNED_OFFER_BYTES
         \<and> cbor_canonical G (CArray [CText SIGNED_OFFER_DOMAIN, CBytes (po_offer_core p), CText k,
             CBytes (sk_sign X sk (OFFER_SIGNATURE_DOMAIN @ po_offer_core_digest p))]) = Some signed_offer \<longrightarrow>
       sign_verified_offer X G P p k sk = Inr \<lparr>bo_prepared = p, bo_signed_offer = signed_offer, bo_kid = k\<rparr>"
    by (simp add: sign_verified_iff)
  from assms(7) obtain d where d: "selected_descriptor P ca = Inr d"
    and g: "po_offer_core_digest p = sha256_digest X (po_offer_core p)" by (rule prepare_offer_core_cases)
  show "\<forall>b. sign_verified_offer X G P p k sk = Inr b \<longrightarrow> offer_accepted X G P ca i p
         \<and> (\<exists>d. selected_descriptor P ca = Inr d
              \<and> recognise_signed_offer X G P (bo_signed_offer b) = Inr (prepared_view P ca i d p (bo_signed_offer b) k))"
  proof (intro allI impI)
    fix b assume b: "sign_verified_offer X G P p k sk = Inr b"
    then have "offer_accepted X G P ca i p" using known by (simp add: sign_verified_iff offer_accepted_def)
    moreover from this have "recognise_signed_offer X G P (bo_signed_offer b) = Inr (prepared_view P ca i d p (bo_signed_offer b) k)"
      using signed_envelope [OF assms(3,4) b] prepared_core_recognised [OF assms(1,2,5-7) d] by (simp add: g offer_accepted_def)
    ultimately show "offer_accepted X G P ca i p \<and> (\<exists>d. selected_descriptor P ca = Inr d
        \<and> recognise_signed_offer X G P (bo_signed_offer b) = Inr (prepared_view P ca i d p (bo_signed_offer b) k))"
      using d by blast
  qed
qed

theorem prepared_offer_recognised_witness:
  "recognise_prepared_offer sample_externs sample_pair sample_v2_profile sample_offer_octets = Inr sample_prepared
   \<and> sign_verified_offer sample_externs sample_pair sample_v2_profile sample_prepared ''k'' (replicate 32 CHR ''h'') =
     Inr \<lparr>bo_prepared = sample_prepared, bo_signed_offer = ''D'', bo_kid = ''k''\<rparr>
   \<and> recognise_signed_offer sample_externs sample_pair sample_v2_profile ''D'' =
     Inr (prepared_view sample_v2_profile sample_v2_carrier sample_v2_input (hd (cbcl_pairing_relays sample_v2_profile))
       sample_prepared ''D'' ''k'')"
proof -
  have "int (oi_expires_at sample_v2_input) \<le> MAX_SAFE_INTEGER" by (simp add: sample_v2_input_def MAX_SAFE_INTEGER_def)
  note t = prepared_offer_recognised [OF sample_laws(4,5,1,2) sample_typed this sample_prepares,
      where sk = "replicate 32 CHR ''h''" and k = "''k''"]
  have a: "usable_key sample_externs (oi_device_public_key sample_v2_input)
      \<and> constructors_accept sample_pair sample_v2_profile sample_v2_carrier sample_v2_input sample_prepared"
    using sample_laws(3) sample_accepts by (simp add: sample_v2_input_def)
  show ?thesis
    using t a sample_signs sample_selected by (auto simp: sample_prepared_def)
qed

text \<open>
  C35. A signed offer that is recognised is the canonical envelope of a canonical core under the key the profile
  declares for its kid, and the core is bound: to the profile's digest and application, to one of its relay
  descriptors, to a device key whose encoding is the device identifier and whose document the core carries and the digest covers, to
  permissions the profile allows in strict order, and to a window of five to ten minutes.
\<close>

theorem recognised_offer_bound:
  assumes "base64ct X" "recognise_signed_offer X G P bytes = Inr r"
  shows "\<exists>e d sig core issued device key. List.find (\<lambda>c. kid c = ro_kid r) (enrollment_keys P) = Some e
    \<and> length bytes \<le> MAX_SIGNED_OFFER_BYTES \<and> length sig = 64
    \<and> cbor_canonical G (CArray [CText SIGNED_OFFER_DOMAIN, CBytes (ro_offer_core r), CText (ro_kid r), CBytes sig]) = Some bytes
    \<and> vk_verify G (public_key (jwk e)) (OFFER_SIGNATURE_DOMAIN @ sha256_digest X (ro_offer_core r)) sig
    \<and> canonicalise core = ro_offer_core r \<and> member_names core = OFFER_MEMBERS
    \<and> get core ''applicationId'' = Some (String (app_text (application_id P))) \<and> ro_profile_digest r = profile_digest P
    \<and> d \<in> set (cbcl_pairing_relays P) \<and> relay_origin d = ic_relay_origin (ro_claims r) \<and> ro_descriptor_digest r = descriptor_digest d
    \<and> usable_key X key \<and> ic_device_did (ro_claims r) = encode_did_key key
    \<and> get core ''deviceKeyJwk'' = Some device \<and> parse_device_jwk X device = Inr key
    \<and> ic_device_digest (ro_claims r) = sha256_digest X (canonicalise device)
    \<and> ic_core_digest (ro_claims r) = sha256_digest X (ro_offer_core r)
    \<and> set (ic_permissions (ro_claims r)) \<subseteq> set (allowed_permissions P) \<and> sorted_wrt (<) (ic_permissions (ro_claims r))
    \<and> get core ''issuedAt'' = Some (Integer (int issued)) \<and> issued + 300 \<le> ro_expires_at r \<and> ro_expires_at r \<le> issued + 600"
proof -
  from assms(2) obtain members where l: "length bytes \<le> MAX_SIGNED_OFFER_BYTES"
    and x: "exact_cbor G bytes = Inr (CArray members)" and m: "recognise_envelope X G P bytes members = Inr r"
    unfolding recognise_signed_offer_def by (auto simp: res_iff cbor_as_iff)
  from m obtain c k sig e where ms: "members = [CText SIGNED_OFFER_DOMAIN, CBytes c, CText k, CBytes sig]" and s: "length sig = 64"
    and e: "List.find (\<lambda>c. kid c = k) (enrollment_keys P) = Some e"
    and v: "vk_verify G (public_key (jwk e)) (OFFER_SIGNATURE_DOMAIN @ sha256_digest X c) sig"
    and rec: "recognise_core_with_envelope X G P bytes c k (sha256_digest X c) = Inr r"
    unfolding recognise_envelope_iff by blast
  from rec obtain core where c: "canonicalise core = c" and pc: "parse_core X G P bytes c k (sha256_digest X c) core = Inr r"
    by (auto simp: recognise_core_with_envelope_def res_iff)
  from pc obtain d claims issued where hd: "parse_core_head X P core = Inr d"
    and cl: "parse_claims X G P (sha256_digest X c) core (relay_origin d) = Inr claims"
    and w: "get core ''issuedAt'' = Some (Integer (int issued))" "issued < ro_expires_at r" "300 \<le> ro_expires_at r - issued"
      "ro_expires_at r - issued \<le> 600"
    and r: "ro_kid r = k" "ro_offer_core r = c" "ro_claims r = claims" "ro_descriptor_digest r = descriptor_digest d"
      "j_fixed X 32 core ''profileDigest'' = Inr (ro_profile_digest r)"
    unfolding parse_core_def by (auto simp: res_iff j_integer_iff)
  note h = hd [unfolded parse_head_iff [OF assms(1)]]
  note q = cl [unfolded parse_claims_iff [OF assms(1)]]
  from h have d: "d \<in> set (cbcl_pairing_relays P)" by (auto simp: find_Some_iff)
  have pd: "ro_profile_digest r = profile_digest P"
    using h r(5) base64ct.encode_inject [OF assms(1)] by (auto simp: j_fixed_iff [OF assms(1)] b64url_def)
  from q obtain device key where key: "usable_key X key" "ic_device_did claims = encode_did_key key"
      "get core ''deviceKeyJwk'' = Some device" "parse_device_jwk X device = Inr key"
      "ic_device_digest claims = sha256_digest X (canonicalise device)" by (auto simp: matches_jwk_iff)
  have cb: "cbor_canonical G (CArray [CText SIGNED_OFFER_DOMAIN, CBytes (ro_offer_core r), CText (ro_kid r), CBytes sig]) = Some bytes"
    using x by (simp add: exact_cbor_iff ms r)
  have e': "List.find (\<lambda>c. kid c = ro_kid r) (enrollment_keys P) = Some e" using e by (simp add: r)
  have v': "vk_verify G (public_key (jwk e)) (OFFER_SIGNATURE_DOMAIN @ sha256_digest X (ro_offer_core r)) sig"
    "canonicalise core = ro_offer_core r" using v c by (simp_all add: r)
  have h': "member_names core = OFFER_MEMBERS" "get core ''applicationId'' = Some (String (app_text (application_id P)))"
    using h by blast+
  have q': "relay_origin d = ic_relay_origin (ro_claims r)" "ic_device_did (ro_claims r) = encode_did_key key"
    "ic_device_digest (ro_claims r) = sha256_digest X (canonicalise device)"
    "ic_core_digest (ro_claims r) = sha256_digest X (ro_offer_core r)"
    using q key by (simp_all add: r)
  have p': "set (ic_permissions (ro_claims r)) \<subseteq> set (allowed_permissions P)" "sorted_wrt (<) (ic_permissions (ro_claims r))"
    using q by (auto simp: r v2_permissions_iff)
  have w': "issued + 300 \<le> ro_expires_at r" "ro_expires_at r \<le> issued + 600" using w by linarith+
  show ?thesis by (intro exI conjI) (fact e' l s cb v' h' pd d q' r(4) key(1,3,4) p' w(1) w')+
qed

theorem recognised_offer_bound_witness:
  "\<exists>core issued. canonicalise core = sample_offer_octets \<and> member_names core = OFFER_MEMBERS
     \<and> get core ''issuedAt'' = Some (Integer (int issued)) \<and> issued + 300 \<le> 1600 \<and> 1600 \<le> issued + 600"
  using recognised_offer_bound [OF sample_laws(4) sample_offer_recognised]
  by (auto simp: prepared_view_def sample_prepared_def sample_v2_input_def)

text \<open>
  C37. The hub's signing key answers a device's proof only. An offer is verified and then finalised exactly when its
  core is recognised as the prepared offer and the device's key signs the digest of the possession domain and of the
  triple of the live socket generation, the ceremony and the core's digest, encoded so that no other triple has these
  octets, and the key the hub signs with is the one the profile declares for its kid. The envelope that results is
  recognised, from its octets alone, as that core under that kid, for the ceremony of the proof and the very device
  that gave it.
\<close>

theorem signature_needs_device_proof:
  assumes "cbor_law G" "verify_law X G sk"
  shows "(\<exists>v. verify_prepared_offer_device_proof X G P p g ceremony key s = Inr v \<and> finalize_verified_offer X G P v k sk = Inr b) \<longleftrightarrow>
     recognise_prepared_offer X G P (po_offer_core p) = Inr p
     \<and> (\<exists>octets. cbor_canonical G (CArray [CBytes g, CBytes ceremony, CBytes (sha256_digest X (po_offer_core p))]) = Some octets
        \<and> (\<forall>g' c' d'. cbor_canonical G (CArray [CBytes g', CBytes c', CBytes d']) = Some octets \<longrightarrow>
             g' = g \<and> c' = ceremony \<and> d' = sha256_digest X (po_offer_core p))
        \<and> vk_from_bytes X key \<and> vk_verify G key (sha256_digest X (DEVICE_POSSESSION_DOMAIN @ octets)) s)
     \<and> (\<exists>e. List.find (\<lambda>c. kid c = k) (enrollment_keys P) = Some e \<and> public_key (jwk e) = sk_public X sk)
     \<and> cbor_canonical G (CArray [CText SIGNED_OFFER_DOMAIN, CBytes (po_offer_core p), CText k,
          CBytes (sk_sign X sk (OFFER_SIGNATURE_DOMAIN @ sha256_digest X (po_offer_core p)))]) = Some (bo_signed_offer b)
     \<and> length (bo_signed_offer b) \<le> MAX_SIGNED_OFFER_BYTES \<and> bo_prepared b = p \<and> bo_kid b = k
     \<and> (\<exists>r. recognise_signed_offer X G P (bo_signed_offer b) = Inr r \<and> ro_offer_core r = po_offer_core p \<and> ro_kid r = k
        \<and> ic_ceremony (ro_claims r) = ceremony \<and> ic_device_did (ro_claims r) = encode_did_key key
        \<and> ic_device_digest (ro_claims r) = sha256_digest X (canonicalise (v2_device_jwk X key)))"
  (is "?signed \<longleftrightarrow> ?prepared \<and> ?proof \<and> ?declared \<and> ?envelope \<and> ?bound \<and> ?kept \<and> ?kid \<and> ?seen")
proof -
  let ?core = "\<lambda>r. recognise_offer_core X G P (po_offer_core p) = Inr r \<and> ic_ceremony (ro_claims r) = ceremony
    \<and> ic_device_did (ro_claims r) = encode_did_key key \<and> ic_device_digest (ro_claims r) = sha256_digest X (canonicalise (v2_device_jwk X key))"
  have input: "device_possession_proof_input X G g ceremony (sha256_digest X (po_offer_core p)) = Inr input \<longleftrightarrow>
      (\<exists>octets. cbor_canonical G (CArray [CBytes g, CBytes ceremony, CBytes (sha256_digest X (po_offer_core p))]) = Some octets
        \<and> input = sha256_digest X (DEVICE_POSSESSION_DOMAIN @ octets)
        \<and> (\<forall>g' c' d'. cbor_canonical G (CArray [CBytes g', CBytes c', CBytes d']) = Some octets \<longrightarrow>
             g' = g \<and> c' = ceremony \<and> d' = sha256_digest X (po_offer_core p)))" for input
    by (rule possession_input_iff [OF assms(1)])
  have verified: "verify_prepared_offer_device_proof X G P p g ceremony key s = Inr v \<longleftrightarrow> ?prepared \<and> (\<exists>r. ?core r) \<and> ?proof \<and> vo_prepared v = p"
    for v
  proof (cases "?prepared")
    case True
    then have g: "po_offer_core_digest p = sha256_digest X (po_offer_core p)" by (rule recognise_prepared_core_digest(2))
    show ?thesis unfolding device_proof_iff g input by blast
  qed (simp add: device_proof_iff)
  have signed: "sign_verified_offer X G P p k sk = Inr b \<longleftrightarrow> ?prepared \<and> ?declared \<and> ?envelope \<and> ?bound \<and> ?kept \<and> ?kid"
  proof (cases "?prepared")
    case True
    then have g: "po_offer_core_digest p = sha256_digest X (po_offer_core p)" by (rule recognise_prepared_core_digest(2))
    show ?thesis unfolding sign_verified_iff declared_iff g by blast
  qed (simp add: sign_verified_iff)
  have seen: "(\<exists>r. ?core r) \<longleftrightarrow> ?seen" if "sign_verified_offer X G P p k sk = Inr b"
    unfolding signed_envelope [OF assms that] recognise_offer_core_def core_with_envelope [of X G P "bo_signed_offer b" _ k]
    by (auto dest: recognised_core_octets)
  have "?signed \<longleftrightarrow> ?prepared \<and> (\<exists>r. ?core r) \<and> ?proof \<and> sign_verified_offer X G P p k sk = Inr b"
  proof
    assume "?prepared \<and> (\<exists>r. ?core r) \<and> ?proof \<and> sign_verified_offer X G P p k sk = Inr b"
    then show ?signed using verified [of "\<lparr>vo_prepared = p\<rparr>"]
      by (intro exI [of _ "\<lparr>vo_prepared = p\<rparr>"]) (simp only: finalize_verified_offer_def verified_offer.select_convs)
  qed (auto simp only: finalize_verified_offer_def verified)
  then show ?thesis using seen unfolding signed by blast
qed

definition sample_possession :: octets where
  "sample_possession = sk_sign sample_externs (replicate 32 CHR ''v'') (sha256_digest sample_externs (DEVICE_POSSESSION_DOMAIN @ ''E''))"

lemma sample_proof:
  "verify_prepared_offer_device_proof sample_externs sample_pair sample_v2_profile sample_prepared (replicate 32 CHR ''z'')
     (replicate 32 CHR ''c'') (replicate 32 CHR ''v'') sample_possession = Inr \<lparr>vo_prepared = sample_prepared\<rparr>"
proof -
  have i: "int (oi_expires_at sample_v2_input) \<le> MAX_SAFE_INTEGER" "usable_key sample_externs (oi_device_public_key sample_v2_input)"
    using sample_laws(3) by (simp_all add: sample_v2_input_def MAX_SAFE_INTEGER_def)
  have g: "po_offer_core_digest sample_prepared = sha256_digest sample_externs (po_offer_core sample_prepared)"
    by (simp add: sample_prepared_def sample_v2_digest_def)
  have r: "recognise_offer_core sample_externs sample_pair sample_v2_profile (po_offer_core sample_prepared) =
      Inr (prepared_view sample_v2_profile sample_v2_carrier sample_v2_input (hd (cbcl_pairing_relays sample_v2_profile)) sample_prepared [] [])"
    unfolding recognise_offer_core_def g [symmetric]
    using prepared_core_recognised [OF sample_laws(4,5) sample_typed i(1) sample_prepares sample_selected] i(2) sample_accepts by simp
  have q: "recognise_prepared_offer sample_externs sample_pair sample_v2_profile (po_offer_core sample_prepared) = Inr sample_prepared"
    using prepared_recognised [OF sample_laws(4,5) sample_typed i(1) sample_prepares] i(2) sample_accepts by simp
  have d: "device_possession_proof_input sample_externs sample_pair (replicate 32 CHR ''z'') (replicate 32 CHR ''c'')
      (po_offer_core_digest sample_prepared) = Inr (sha256_digest sample_externs (DEVICE_POSSESSION_DOMAIN @ ''E''))"
    using sample_encodings(5) by (simp add: device_possession_proof_input_def labelled_hash_def sample_prepared_def)
  show ?thesis
    unfolding device_proof_iff
    by (intro conjI exI; (rule r q d)?)
       (simp_all add: prepared_view_def prepared_claims_def sample_prepared_def sample_v2_carrier_def table_externs_def
          sample_possession_def sample_externs_def zero_pad_def)
qed

theorem signature_needs_device_proof_witness:
  "\<exists>octets r. cbor_canonical sample_pair (CArray [CBytes (replicate 32 CHR ''z''), CBytes (replicate 32 CHR ''c''),
       CBytes (sha256_digest sample_externs sample_offer_octets)]) = Some octets
     \<and> vk_verify sample_pair (replicate 32 CHR ''v'') (sha256_digest sample_externs (DEVICE_POSSESSION_DOMAIN @ octets)) sample_possession
     \<and> recognise_signed_offer sample_externs sample_pair sample_v2_profile ''D'' = Inr r
     \<and> ic_device_did (ro_claims r) = encode_did_key (replicate 32 CHR ''v'')"
proof -
  have o: "po_offer_core sample_prepared = sample_offer_octets" by (simp add: sample_prepared_def)
  have "\<exists>v. verify_prepared_offer_device_proof sample_externs sample_pair sample_v2_profile sample_prepared (replicate 32 CHR ''z'')
      (replicate 32 CHR ''c'') (replicate 32 CHR ''v'') sample_possession = Inr v
      \<and> finalize_verified_offer sample_externs sample_pair sample_v2_profile v ''k'' (replicate 32 CHR ''h'') =
        Inr \<lparr>bo_prepared = sample_prepared, bo_signed_offer = ''D'', bo_kid = ''k''\<rparr>"
    using sample_proof sample_signs by (simp add: finalize_verified_offer_def)
  then show ?thesis
    unfolding signature_needs_device_proof [OF sample_laws(1,2)] o built_offer.select_convs by blast
qed

end
