(* ===== verification/Pair_Status.thy ===== *)
theory Pair_Status
  imports Pair_Sign
begin

text \<open>
  The statuses of \<open>crates/selfsame-pairing/src/credential_v2.rs\<close>: the hub's signed answer on a reciprocal
  alias, the browser's staging receipt, and the final status both sides keep. Each recogniser is shown to accept
  exactly what its builder writes for the expected facts, under any signature that verifies.
\<close>

section \<open>Types\<close>

definition AUTHORITY_STATUS_DOMAIN :: rust_str where "AUTHORITY_STATUS_DOMAIN = ''cbcl-chat credential/v2 authority status v1''"
definition AUTHORITY_SIGNATURE_DOMAIN :: octets where
  "AUTHORITY_SIGNATURE_DOMAIN = ''cbcl-chat credential/v2 authority status signature v1'' @ [CHR 0x00]"
definition BROWSER_STAGING_DOMAIN :: rust_str where
  "BROWSER_STAGING_DOMAIN = ''cbcl-chat credential/v2 browser staging receipt v1''"
definition BROWSER_STAGING_SIGNATURE_DOMAIN :: octets where
  "BROWSER_STAGING_SIGNATURE_DOMAIN = ''cbcl-chat credential/v2 browser staging receipt signature v1'' @ [CHR 0x00]"
definition MAX_BROWSER_STAGING_RECEIPT_BYTES :: nat where "MAX_BROWSER_STAGING_RECEIPT_BYTES = 4608"
definition FINAL_STATUS_TYPE :: rust_str where "FINAL_STATUS_TYPE = ''selfsame-pairing-final-status+jws''"
definition MAX_FINAL_STATUS_CORE_BYTES :: nat where "MAX_FINAL_STATUS_CORE_BYTES = 4096"
definition MAX_FINAL_STATUS_JWS_BYTES :: nat where "MAX_FINAL_STATUS_JWS_BYTES = 8192"
definition MAX_JSON_SAFE_INTEGER :: nat where "MAX_JSON_SAFE_INTEGER = 9007199254740991"

datatype authority_status = NoBinding | BoundTo rust_str

record built_authority =
  ba_response :: octets
  ba_digest :: octets
  ba_kid :: rust_str

record staging_input =
  si_application_id :: rust_str
  si_ceremony :: octets
  si_principal :: octets
  si_scope :: octets
  si_device_did :: rust_str
  si_core_digest :: octets
  si_payload_digest :: octets
  si_grant_id :: octets
  si_issuer_did :: rust_str
  si_profile_digest :: octets
  si_commitment :: octets

record final_status_input =
  fi_application_id :: rust_str
  fi_ceremony :: octets
  fi_request_id :: octets
  fi_principal :: octets
  fi_scope :: octets
  fi_device_did :: rust_str
  fi_core_digest :: octets
  fi_payload_digest :: octets
  fi_grant_id :: octets
  fi_issuer_did :: rust_str
  fi_commitment :: octets
  fi_finalized_at :: nat

record built_status =
  bs_core :: octets
  bs_jws :: rust_str
  bs_digest :: octets
  bs_kid :: rust_str

section \<open>The authority's answer\<close>

definition status_members :: "authority_status \<Rightarrow> offer_error + rust_str \<times> cbor" where
  "status_members st =
     (case st of
        NoBinding \<Rightarrow> Inr (''no-binding'', CNull)
      | BoundTo did \<Rightarrow> if valid_bound_did did then Inr (''bound'', CText did) else Inl OfferRefused)"

definition authority_members :: "octets \<Rightarrow> octets \<Rightarrow> rust_str \<times> cbor \<Rightarrow> cbor list" where
  "authority_members ceremony core_digest m =
     [CText AUTHORITY_STATUS_DOMAIN, CBytes ceremony, CBytes core_digest, CText (fst m), snd m]"

definition build_authority_status_response ::
  "externs \<Rightarrow> pair_externs \<Rightarrow> application_profile \<Rightarrow> octets \<Rightarrow> octets \<Rightarrow> authority_status \<Rightarrow> rust_str \<Rightarrow> octets
   \<Rightarrow> offer_error + built_authority" where
  "build_authority_status_response X G P ceremony core_digest st k sk =
     and_then (signing_key_declared X P k sk) (\<lambda>_.
     and_then (status_members st) (\<lambda>m.
     let unsigned = authority_members ceremony core_digest m in
     and_then (or_refuse (cbor_canonical G (CArray unsigned))) (\<lambda>unsigned_bytes.
     let sig = sk_sign X sk (labelled_hash X AUTHORITY_SIGNATURE_DOMAIN unsigned_bytes) in
     and_then (or_refuse (cbor_canonical G (CArray (unsigned @ [CBytes sig])))) (\<lambda>response.
     if response = [] \<or> length response > 768 then Inl OfferRefused
     else Inr \<lparr>ba_response = response, ba_digest = sha256_digest X response, ba_kid = k\<rparr>))))"

definition authority_status_of :: "cbor \<Rightarrow> cbor \<Rightarrow> offer_error + authority_status" where
  "authority_status_of status did =
     (case (cbor_as_text status, did) of
        (Some t, CNull) \<Rightarrow> if t = ''no-binding'' then Inr NoBinding else Inl OfferRefused
      | (Some t, CText d) \<Rightarrow> if t = ''bound'' \<and> valid_bound_did d then Inr (BoundTo d) else Inl OfferRefused
      | _ \<Rightarrow> Inl OfferRefused)"

definition recognise_authority_members ::
  "externs \<Rightarrow> pair_externs \<Rightarrow> application_profile \<Rightarrow> cbor list \<Rightarrow> rust_str \<Rightarrow> octets \<Rightarrow> octets \<Rightarrow> offer_error + authority_status" where
  "recognise_authority_members X G P members k ceremony core_digest =
     (case members of
        [d, c, offer_digest, status, did, sig] \<Rightarrow>
          if cbor_as_text d \<noteq> Some AUTHORITY_STATUS_DOMAIN \<or> cbor_as_bytes c \<noteq> Some ceremony
            \<or> cbor_as_bytes offer_digest \<noteq> Some core_digest
          then Inl OfferRefused
          else
          and_then (authority_status_of status did) (\<lambda>recognised.
          and_then (or_refuse (cbor_as_bytes sig)) (\<lambda>sig.
          if length sig \<noteq> 64 then Inl OfferRefused
          else
          and_then (or_refuse (cbor_canonical G (CArray (take 5 members)))) (\<lambda>unsigned_bytes.
          and_then (or_refuse (List.find (\<lambda>c. kid c = k) (enrollment_keys P))) (\<lambda>declared.
          and_then (verify_with X G (public_key (jwk declared)) (labelled_hash X AUTHORITY_SIGNATURE_DOMAIN unsigned_bytes) sig) (\<lambda>_.
          Inr recognised)))))
      | _ \<Rightarrow> Inl OfferRefused)"

definition recognise_authority_status_response ::
  "externs \<Rightarrow> pair_externs \<Rightarrow> application_profile \<Rightarrow> octets \<Rightarrow> rust_str \<Rightarrow> octets \<Rightarrow> octets \<Rightarrow> offer_error + authority_status" where
  "recognise_authority_status_response X G P response k ceremony core_digest =
     (if response = [] \<or> length response > 768 then Inl OfferRefused
      else
      and_then (exact_cbor G response) (\<lambda>v.
      and_then (or_refuse (cbor_as_array v)) (\<lambda>members. recognise_authority_members X G P members k ceremony core_digest)))"

section \<open>The browser's staging receipt\<close>

definition browser_staging_members :: "externs \<Rightarrow> staging_input \<Rightarrow> offer_error + cbor list" where
  "browser_staging_members X i =
     and_then (refuse_err (parse_application_id (si_application_id i))) (\<lambda>aid.
     if app_text aid \<noteq> si_application_id i \<or> length (si_application_id i) > 2048 \<or> length (si_device_did i) \<noteq> 56
       \<or> isl (decode_did_key X (si_device_did i)) \<or> \<not> valid_bound_did (si_issuer_did i)
     then Inl OfferRefused
     else Inr [CText BROWSER_STAGING_DOMAIN, CText (si_application_id i), CBytes (si_ceremony i), CBytes (si_principal i),
       CBytes (si_scope i), CText (si_device_did i), CBytes (si_core_digest i), CBytes (si_payload_digest i),
       CBytes (si_grant_id i), CText (si_issuer_did i), CBytes (si_profile_digest i), CBytes (si_commitment i)])"

definition browser_staging_signature_input :: "externs \<Rightarrow> pair_externs \<Rightarrow> staging_input \<Rightarrow> offer_error + octets" where
  "browser_staging_signature_input X G i =
     and_then (browser_staging_members X i) (\<lambda>ms.
     and_then (or_refuse (cbor_canonical G (CArray ms))) (\<lambda>unsigned.
     Inr (labelled_hash X BROWSER_STAGING_SIGNATURE_DOMAIN unsigned)))"

definition build_browser_staging_receipt ::
  "externs \<Rightarrow> pair_externs \<Rightarrow> staging_input \<Rightarrow> octets \<Rightarrow> octets \<Rightarrow> offer_error + octets" where
  "build_browser_staging_receipt X G i key sig =
     and_then (refuse_err (matches_jwk X (si_device_did i) key)) (\<lambda>_.
     and_then (browser_staging_signature_input X G i) (\<lambda>input.
     and_then (verify_with X G key input sig) (\<lambda>_.
     and_then (browser_staging_members X i) (\<lambda>ms.
     and_then (or_refuse (cbor_canonical G (CArray (ms @ [CBytes sig])))) (\<lambda>receipt.
     if receipt = [] \<or> length receipt > MAX_BROWSER_STAGING_RECEIPT_BYTES then Inl OfferRefused else Inr receipt)))))"

definition c_text :: "cbor \<Rightarrow> offer_error + rust_str" where
  "c_text v = or_refuse (cbor_as_text v)"

definition c_fixed :: "nat \<Rightarrow> cbor \<Rightarrow> offer_error + octets" where
  "c_fixed n v = and_then (or_refuse (cbor_as_bytes v)) (\<lambda>b. if length b \<noteq> n then Inl OfferRefused else Inr b)"

definition parse_staging :: "cbor list \<Rightarrow> offer_error + staging_input \<times> octets" where
  "parse_staging members =
     (case members of
        [d, aid, ceremony, pr, scope, device, offer, pay, grant, iss, profile, commitment, sig] \<Rightarrow>
          if cbor_as_text d \<noteq> Some BROWSER_STAGING_DOMAIN then Inl OfferRefused
          else
          and_then (c_text aid) (\<lambda>aid. and_then (c_fixed 32 ceremony) (\<lambda>ceremony. and_then (c_fixed 32 pr) (\<lambda>pr.
          and_then (c_fixed 32 scope) (\<lambda>scope. and_then (c_text device) (\<lambda>device. and_then (c_fixed 32 offer) (\<lambda>offer.
          and_then (c_fixed 32 pay) (\<lambda>pay. and_then (c_fixed 32 grant) (\<lambda>grant. and_then (c_text iss) (\<lambda>iss.
          and_then (c_fixed 32 profile) (\<lambda>profile. and_then (c_fixed 32 commitment) (\<lambda>commitment.
          and_then (c_fixed 64 sig) (\<lambda>sig.
          Inr (\<lparr>si_application_id = aid, si_ceremony = ceremony, si_principal = pr, si_scope = scope, si_device_did = device,
            si_core_digest = offer, si_payload_digest = pay, si_grant_id = grant, si_issuer_did = iss,
            si_profile_digest = profile, si_commitment = commitment\<rparr>, sig)))))))))))))
      | _ \<Rightarrow> Inl OfferRefused)"

definition recognise_browser_staging_receipt ::
  "externs \<Rightarrow> pair_externs \<Rightarrow> octets \<Rightarrow> staging_input \<Rightarrow> octets \<Rightarrow> offer_error + unit" where
  "recognise_browser_staging_receipt X G receipt expected key =
     (if receipt = [] \<or> length receipt > MAX_BROWSER_STAGING_RECEIPT_BYTES then Inl OfferRefused
      else
      and_then (exact_cbor G receipt) (\<lambda>v.
      and_then (or_refuse (cbor_as_array v)) (\<lambda>members.
      and_then (parse_staging members) (\<lambda>(parsed, sig).
      if parsed \<noteq> expected then Inl OfferRefused
      else
      and_then (build_browser_staging_receipt X G parsed key sig) (\<lambda>built.
      if built \<noteq> receipt then Inl OfferRefused else Inr ())))))"

section \<open>The final status\<close>

definition final_status_json :: "externs \<Rightarrow> final_status_input \<Rightarrow> json" where
  "final_status_json X i =
     Object [(''payloadVersion'', Integer 2), (''role'', String ''final-status''),
       (''applicationId'', String (fi_application_id i)), (''carrierCeremonyId'', String (b64url X (fi_ceremony i))),
       (''requestId'', String (b64url X (fi_request_id i))), (''accountPrincipalDigest'', String (b64url X (fi_principal i))),
       (''accountScopeId'', String (b64url X (fi_scope i))), (''deviceDid'', String (fi_device_did i)),
       (''offerCoreDigest'', String (b64url X (fi_core_digest i))), (''payloadDigest'', String (b64url X (fi_payload_digest i))),
       (''grantId'', String (b64url X (fi_grant_id i))), (''issuerDid'', String (fi_issuer_did i)),
       (''receiptRecoveryCommitment'', String (b64url X (fi_commitment i))), (''status'', String ''accepted''),
       (''finalizedAt'', Integer (int (fi_finalized_at i)))]"

definition final_status_core :: "externs \<Rightarrow> application_profile \<Rightarrow> final_status_input \<Rightarrow> offer_error + octets" where
  "final_status_core X P i =
     and_then (refuse_err (parse_application_id (fi_application_id i))) (\<lambda>aid.
     if app_text aid \<noteq> fi_application_id i \<or> app_text (application_id P) \<noteq> fi_application_id i
       \<or> length (fi_application_id i) > 2048 \<or> length (fi_device_did i) \<noteq> 56 \<or> isl (decode_did_key X (fi_device_did i))
       \<or> \<not> valid_bound_did (fi_issuer_did i) \<or> fi_finalized_at i > MAX_JSON_SAFE_INTEGER
     then Inl OfferRefused
     else
     let core = canonicalise (final_status_json X i) in
     if core = [] \<or> length core > MAX_FINAL_STATUS_CORE_BYTES then Inl OfferRefused else Inr core)"

definition decode_canonical_b64 :: "externs \<Rightarrow> rust_str \<Rightarrow> offer_error + octets" where
  "decode_canonical_b64 X v =
     and_then (or_refuse (b64_decode_vec X v)) (\<lambda>decoded. if b64url X decoded \<noteq> v then Inl OfferRefused else Inr decoded)"

definition compact_jws_payload_digest :: "externs \<Rightarrow> rust_str \<Rightarrow> offer_error + octets" where
  "compact_jws_payload_digest X jws =
     (case split_on CHR ''.'' jws of
        [_, p, _] \<Rightarrow> and_then (decode_canonical_b64 X p) (\<lambda>pay. Inr (sha256_digest X pay))
      | _ \<Rightarrow> Inl OfferRefused)"

text \<open>The compact form both status signers write, and the checks both recognisers make of it.\<close>

definition status_header :: "rust_str \<Rightarrow> rust_str \<Rightarrow> json" where
  "status_header typ k = Object [(''alg'', String ''EdDSA''), (''kid'', String k), (''typ'', String typ)]"

definition status_signing_input :: "externs \<Rightarrow> rust_str \<Rightarrow> rust_str \<Rightarrow> octets \<Rightarrow> rust_str" where
  "status_signing_input X typ k core = b64url X (canonicalise (status_header typ k)) @ ''.'' @ b64url X core"

definition signed_status :: "externs \<Rightarrow> rust_str \<Rightarrow> rust_str \<Rightarrow> octets \<Rightarrow> octets \<Rightarrow> rust_str" where
  "signed_status X typ k core sk =
     (let input = status_signing_input X typ k core in input @ ''.'' @ b64url X (sk_sign X sk input))"

definition verify_status ::
  "externs \<Rightarrow> pair_externs \<Rightarrow> application_profile \<Rightarrow> rust_str \<Rightarrow> rust_str \<Rightarrow> octets \<Rightarrow> offer_error + octets \<Rightarrow> rust_str
   \<Rightarrow> offer_error + unit" where
  "verify_status X G P typ jws expected_digest expected_core k =
     (case split_on CHR ''.'' jws of
        [h, p, s] \<Rightarrow>
          if h = [] \<or> p = [] \<or> s = [] then Inl OfferRefused
          else
          and_then (decode_canonical_b64 X h) (\<lambda>protected.
          and_then (decode_canonical_b64 X p) (\<lambda>core.
          and_then (decode_canonical_b64 X s) (\<lambda>sig.
          if length sig \<noteq> 64 then Inl OfferRefused
          else
          and_then (refuse_err (recognise_json protected \<lparr>max_bytes = 1024, max_depth = 1\<rparr>)) (\<lambda>header.
          if canonicalise header \<noteq> protected \<or> member_names header \<noteq> [''alg'', ''kid'', ''typ''] then Inl OfferRefused
          else
          and_then (j_text header ''alg'') (\<lambda>alg. if alg \<noteq> ''EdDSA'' then Inl OfferRefused else
          and_then (j_text header ''kid'') (\<lambda>k'. if k' \<noteq> k then Inl OfferRefused else
          and_then (j_text header ''typ'') (\<lambda>t. if t \<noteq> typ then Inl OfferRefused
          else if sha256_digest X core \<noteq> expected_digest then Inl OfferRefused
          else
          and_then expected_core (\<lambda>e. if core \<noteq> e then Inl OfferRefused
          else
          and_then (or_refuse (List.find (\<lambda>c. kid c = k) (enrollment_keys P))) (\<lambda>declared.
          verify_with X G (public_key (jwk declared)) (h @ ''.'' @ p) sig)))))))))
      | _ \<Rightarrow> Inl OfferRefused)"

definition build_final_status ::
  "externs \<Rightarrow> application_profile \<Rightarrow> final_status_input \<Rightarrow> rust_str \<Rightarrow> octets \<Rightarrow> offer_error + built_status" where
  "build_final_status X P i k sk =
     and_then (signing_key_declared X P k sk) (\<lambda>_.
     and_then (final_status_core X P i) (\<lambda>core.
     let jws = signed_status X FINAL_STATUS_TYPE k core sk in
     if length jws > MAX_FINAL_STATUS_JWS_BYTES then Inl OfferRefused
     else Inr \<lparr>bs_core = core, bs_jws = jws, bs_digest = sha256_digest X core, bs_kid = k\<rparr>))"

definition is_ascii_str :: "rust_str \<Rightarrow> bool" where
  "is_ascii_str s \<longleftrightarrow> list_all (\<lambda>c. code c < 0x80) s"

definition recognise_final_status ::
  "externs \<Rightarrow> pair_externs \<Rightarrow> application_profile \<Rightarrow> rust_str \<Rightarrow> octets \<Rightarrow> final_status_input \<Rightarrow> rust_str \<Rightarrow> offer_error + unit" where
  "recognise_final_status X G P jws expected_digest expected k =
     (if jws = [] \<or> length jws > MAX_FINAL_STATUS_JWS_BYTES \<or> \<not> is_ascii_str jws then Inl OfferRefused
      else verify_status X G P FINAL_STATUS_TYPE jws expected_digest (final_status_core X P expected) k)"

text \<open>The payload of a status, before its signature is looked at.\<close>

definition status_candidate :: "externs \<Rightarrow> rust_str \<Rightarrow> offer_error + json" where
  "status_candidate X jws =
     (if jws = [] \<or> length jws > MAX_FINAL_STATUS_JWS_BYTES \<or> \<not> is_ascii_str jws then Inl OfferRefused
      else
      (case split_on CHR ''.'' jws of
         [_, p, _] \<Rightarrow>
           and_then (decode_canonical_b64 X p) (\<lambda>core.
           refuse_err (recognise_json core \<lparr>max_bytes = MAX_FINAL_STATUS_CORE_BYTES, max_depth = 1\<rparr>))
       | _ \<Rightarrow> Inl OfferRefused))"

definition recognise_final_status_with_embedded_time ::
  "externs \<Rightarrow> pair_externs \<Rightarrow> application_profile \<Rightarrow> rust_str \<Rightarrow> octets \<Rightarrow> (nat \<Rightarrow> final_status_input) \<Rightarrow> rust_str
   \<Rightarrow> offer_error + nat" where
  "recognise_final_status_with_embedded_time X G P jws expected_digest expected k =
     and_then (status_candidate X jws) (\<lambda>candidate.
     and_then (j_integer candidate ''finalizedAt'') (\<lambda>finalized_at.
     and_then (recognise_final_status X G P jws expected_digest (expected finalized_at) k) (\<lambda>_. Inr finalized_at)))"

section \<open>The length of a device identifier\<close>

lemma be_value_Cons: "be_value b (d # ds) = d * b ^ length ds + be_value b ds"
  by (simp add: be_value_rev le_value_append)

lemma did_key_length: "length key = 32 \<Longrightarrow> length (encode_did_key key) = 56"
proof -
  assume l: "length key = 32"
  define bs where "bs = MULTICODEC_ED25519_PUB @ key"
  define ds where "ds = foldl encode_octet [] bs"
  have v: "be_value 256 (map code bs) = 0xed * 256 ^ 33 + 256 ^ 32 + be_value 256 (map code key)"
    by (simp add: bs_def MULTICODEC_ED25519_PUB_def be_value_Cons l)
  have "be_value 256 (map code key) < 256 ^ 32"
    using be_value_bound [of "map code key" 256] by (simp add: code_bound l)
  with v have b: "58 ^ 46 \<le> be_value 256 (map code bs)" "be_value 256 (map code bs) < 58 ^ 47" by simp_all
  have ds: "numeral_digits 58 ds" "le_value 58 ds = be_value 256 (map code bs)"
    using encode_octets_be [of bs] by (simp_all add: ds_def)
  have "ds \<noteq> []" using ds(2) b(1) by auto
  with numeral_digits_lower [OF ds(1)] ds(2) b(2) have "(58::nat) ^ (length ds - 1) < 58 ^ 47" by simp
  then have "length ds - 1 < 47" by (subst (asm) power_strict_increasing_iff) simp_all
  moreover have "(58::nat) ^ 46 < 58 ^ length ds"
    using le_value_bound [of 58 ds] ds b(1) by (simp add: numeral_digits_def)
  then have "46 < length ds" by (subst (asm) power_strict_increasing_iff) simp_all
  ultimately have "length ds = 47" by simp
  moreover have "takeWhile (\<lambda>b. code b = 0) bs = []" by (simp add: bs_def MULTICODEC_ED25519_PUB_def)
  ultimately have "length (base58btc bs) = 47" by (simp add: base58btc_def ds_def)
  then show ?thesis by (simp add: encode_did_key_def bs_def MULTIBASE_BASE58BTC_def)
qed

lemma decoded_did_length: "\<not> isl (decode_did_key X did) \<Longrightarrow> length did = 56"
  by (cases "decode_did_key X did") (auto simp: did_key.dec_Inr_iff usable_key_def did_key_length)

section \<open>CBOR answers\<close>

lemma status_of_members: "authority_status_of s d = Inr st \<longleftrightarrow> (\<exists>t. s = CText t \<and> status_members st = Inr (t, d))"
proof (cases s)
  case (CText t)
  then show ?thesis by (cases st; cases d) (auto simp: authority_status_of_def status_members_def)
qed (simp_all add: authority_status_of_def)

lemma authority_members_iff:
  "recognise_authority_members X G P members k ceremony g = Inr st \<longleftrightarrow>
     (\<exists>m sig unsigned e. status_members st = Inr m \<and> members = authority_members ceremony g m @ [CBytes sig] \<and> length sig = 64
        \<and> cbor_canonical G (CArray (authority_members ceremony g m)) = Some unsigned
        \<and> List.find (\<lambda>c. kid c = k) (enrollment_keys P) = Some e \<and> vk_from_bytes X (public_key (jwk e))
        \<and> vk_verify G (public_key (jwk e)) (labelled_hash X AUTHORITY_SIGNATURE_DOMAIN unsigned) sig)"
proof (cases "length members = 6")
  case True
  then obtain d c o' s t sig where m: "members = [d, c, o', s, t, sig]" by (auto simp: numeral_eq_Suc length_Suc_conv)
  show ?thesis unfolding m
    by (auto simp: recognise_authority_members_def authority_members_def res_iff cbor_as_iff verify_with_iff
        status_of_members)
next
  case False
  then show ?thesis by (auto simp: recognise_authority_members_def authority_members_def split: list.splits)
qed

lemma recognise_authority_iff:
  assumes "cbor_law G"
  shows "recognise_authority_status_response X G P response k ceremony g = Inr st \<longleftrightarrow>
     (\<exists>m sig unsigned e. status_members st = Inr m \<and> length sig = 64 \<and> length response \<le> 768
        \<and> cbor_canonical G (CArray (authority_members ceremony g m @ [CBytes sig])) = Some response
        \<and> cbor_canonical G (CArray (authority_members ceremony g m)) = Some unsigned
        \<and> List.find (\<lambda>c. kid c = k) (enrollment_keys P) = Some e \<and> vk_from_bytes X (public_key (jwk e))
        \<and> vk_verify G (public_key (jwk e)) (labelled_hash X AUTHORITY_SIGNATURE_DOMAIN unsigned) sig)" (is "?l \<longleftrightarrow> ?r")
proof
  assume ?l
  then show ?r unfolding recognise_authority_status_response_def
    by (auto simp: res_iff cbor_as_iff exact_cbor_iff authority_members_iff)
next
  assume ?r
  then obtain m sig unsigned e where r: "status_members st = Inr m" "length sig = 64" "length response \<le> 768"
      "cbor_canonical G (CArray (authority_members ceremony g m @ [CBytes sig])) = Some response"
      "cbor_canonical G (CArray (authority_members ceremony g m)) = Some unsigned"
      "List.find (\<lambda>c. kid c = k) (enrollment_keys P) = Some e" "vk_from_bytes X (public_key (jwk e))"
      "vk_verify G (public_key (jwk e)) (labelled_hash X AUTHORITY_SIGNATURE_DOMAIN unsigned) sig" by blast
  have "map_free (snd m)" using r(1) by (cases st) (auto simp: status_members_def split: if_splits)
  then have "exact_cbor G response = Inr (CArray (authority_members ceremony g m @ [CBytes sig]))"
    by (intro exact_cbor_array [OF assms _ r(4)]) (simp add: authority_members_def)
  then show ?l using r cbor_law_nonempty [OF assms r(4)]
    by (simp add: recognise_authority_status_response_def authority_members_iff)
qed

lemma staging_members_iff:
  "browser_staging_members X i = Inr ms \<longleftrightarrow>
     \<not> isl (parse_application_id (si_application_id i)) \<and> length (si_application_id i) \<le> 2048 \<and> length (si_device_did i) = 56
     \<and> \<not> isl (decode_did_key X (si_device_did i)) \<and> valid_bound_did (si_issuer_did i)
     \<and> ms = [CText BROWSER_STAGING_DOMAIN, CText (si_application_id i), CBytes (si_ceremony i), CBytes (si_principal i),
       CBytes (si_scope i), CText (si_device_did i), CBytes (si_core_digest i), CBytes (si_payload_digest i),
       CBytes (si_grant_id i), CText (si_issuer_did i), CBytes (si_profile_digest i), CBytes (si_commitment i)]"
proof (cases "parse_application_id (si_application_id i)")
  case (Inr a)
  then have "app_text a = si_application_id i" by (auto simp: parse_application_id_def res_iff)
  with Inr show ?thesis by (auto simp: browser_staging_members_def)
qed (simp add: browser_staging_members_def)

definition staging_typed :: "staging_input \<Rightarrow> bool" where
  "staging_typed i \<longleftrightarrow> list_all (\<lambda>b. length b = 32) [si_ceremony i, si_principal i, si_scope i, si_core_digest i,
     si_payload_digest i, si_grant_id i, si_profile_digest i, si_commitment i]"

lemma parse_staging_members:
  assumes "browser_staging_members X i = Inr ms" "staging_typed i" "length sig = 64"
  shows "parse_staging (ms @ [CBytes sig]) = Inr (i, sig)"
  using assms unfolding staging_members_iff
  by (cases i) (simp add: parse_staging_def c_text_def c_fixed_def staging_typed_def)

lemma build_staging_iff:
  "build_browser_staging_receipt X G i key sig = Inr receipt \<longleftrightarrow>
     (\<exists>ms unsigned. browser_staging_members X i = Inr ms \<and> usable_key X key \<and> si_device_did i = encode_did_key key
        \<and> cbor_canonical G (CArray ms) = Some unsigned
        \<and> vk_verify G key (labelled_hash X BROWSER_STAGING_SIGNATURE_DOMAIN unsigned) sig
        \<and> cbor_canonical G (CArray (ms @ [CBytes sig])) = Some receipt \<and> receipt \<noteq> []
        \<and> length receipt \<le> MAX_BROWSER_STAGING_RECEIPT_BYTES)"
  by (auto simp: build_browser_staging_receipt_def browser_staging_signature_input_def res_iff verify_with_iff matches_jwk_iff
      usable_key_def)

lemma parse_staging_typed: "parse_staging members = Inr (i, sig) \<Longrightarrow> staging_typed i \<and> length sig = 64"
  by (auto simp: parse_staging_def c_text_def c_fixed_def res_iff staging_typed_def split: list.splits)

lemma recognise_staging_iff:
  assumes C: "cbor_law G"
  shows "recognise_browser_staging_receipt X G receipt i key = Inr u \<longleftrightarrow>
     staging_typed i \<and> (\<exists>sig. length sig = 64 \<and> build_browser_staging_receipt X G i key sig = Inr receipt)" (is "?l \<longleftrightarrow> ?r")
proof
  assume ?l
  then show ?r unfolding recognise_browser_staging_receipt_def by (auto simp: res_iff dest: parse_staging_typed)
next
  assume ?r
  then obtain sig where t: "staging_typed i" "length sig = 64" and b: "build_browser_staging_receipt X G i key sig = Inr receipt"
    by blast
  from b [unfolded build_staging_iff] obtain ms where ms: "browser_staging_members X i = Inr ms"
    and e: "cbor_canonical G (CArray (ms @ [CBytes sig])) = Some receipt"
    and l: "receipt \<noteq> []" "length receipt \<le> MAX_BROWSER_STAGING_RECEIPT_BYTES" by blast
  have "list_all map_free ms" using ms by (auto simp: staging_members_iff)
  then have "exact_cbor G receipt = Inr (CArray (ms @ [CBytes sig]))" by (intro exact_cbor_array [OF C _ e]) simp
  then show ?l using b l parse_staging_members [OF ms t] by (simp add: recognise_browser_staging_receipt_def)
qed

section \<open>Compact statuses\<close>

lemma decode_canonical_iff: "base64ct X \<Longrightarrow> decode_canonical_b64 X v = Inr b \<longleftrightarrow> v = b64url X b"
  using base64ct.decode_encode [of X] by (auto simp: decode_canonical_b64_def b64url_def res_iff)

lemma header_facts:
  assumes "valid_utf8 typ" "valid_utf8 k" and "length (canonicalise (status_header typ k)) \<le> 1024"
  defines "h \<equiv> sort_members (status_header typ k)"
  shows "recognise_json (canonicalise (status_header typ k)) \<lparr>max_bytes = 1024, max_depth = 1\<rparr> = Inr h"
    "member_names h = [''alg'', ''kid'', ''typ'']" "canonicalise h = canonicalise (status_header typ k)"
    "get h ''alg'' = Some (String ''EdDSA'')" "get h ''kid'' = Some (String k)" "get h ''typ'' = Some (String typ)"
proof -
  have wf: "json_wf (status_header typ k)" using assms by (simp add: status_header_def valid_utf8_ascii)
  show "recognise_json (canonicalise (status_header typ k)) \<lparr>max_bytes = 1024, max_depth = 1\<rparr> = Inr h"
    unfolding h_def using wf assms(3) by (intro recognise_canonicalise) (simp_all add: status_header_def)
  have "member_names h = sort_key encode_utf16 [''alg'', ''kid'', ''typ'']"
    unfolding h_def status_header_def member_names_sort by simp
  also have "\<dots> = [''alg'', ''kid'', ''typ'']" by code_simp
  finally show "member_names h = [''alg'', ''kid'', ''typ'']" .
  show "canonicalise h = canonicalise (status_header typ k)" by (simp add: h_def)
  show "get h ''alg'' = Some (String ''EdDSA'')" "get h ''kid'' = Some (String k)" "get h ''typ'' = Some (String typ)"
    unfolding h_def get_sort_members [OF wf] by (simp_all add: status_header_def get_Object)
qed

lemma header_exact:
  assumes "member_names h = [''alg'', ''kid'', ''typ'']" "get h ''alg'' = Some (String ''EdDSA'')" "get h ''kid'' = Some (String k)"
    "get h ''typ'' = Some (String typ)"
  shows "h = status_header typ k"
  using assms by (cases h) (auto simp: member_names_def map_eq_Cons_conv status_header_def get_Object)

lemma b64url_Nil_iff: "base64ct X \<Longrightarrow> b64url X b = [] \<longleftrightarrow> b = []"
  using base64ct.encode_Nil_iff [of X b] by (simp add: b64url_def)

lemma verify_status_iff:
  assumes B: "base64ct X" and "valid_utf8 typ" "valid_utf8 k" "length (canonicalise (status_header typ k)) \<le> 1024"
  shows "verify_status X G P typ jws g expected k = Inr u \<longleftrightarrow>
     (\<exists>core sig e. expected = Inr core \<and> core \<noteq> [] \<and> jws = status_signing_input X typ k core @ ''.'' @ b64url X sig \<and> length sig = 64
        \<and> g = sha256_digest X core \<and> List.find (\<lambda>c. kid c = k) (enrollment_keys P) = Some e
        \<and> vk_from_bytes X (public_key (jwk e)) \<and> vk_verify G (public_key (jwk e)) (status_signing_input X typ k core) sig)"
    (is "?l \<longleftrightarrow> ?r")
proof
  assume l: ?l
  then obtain h p s where sp: "split_on CHR ''.'' jws = [h, p, s]"
    unfolding verify_status_def by (auto split: list.splits)
  then have j: "jws = h @ ''.'' @ p @ ''.'' @ s" using join_split_on [of "CHR ''.''" jws] by simp
  from l sp obtain prot core sig hd e where d: "h = b64url X prot" "p = b64url X core" "s = b64url X sig" "length sig = 64" "p \<noteq> []"
    and r: "canonicalise hd = prot" "member_names hd = [''alg'', ''kid'', ''typ'']" "get hd ''alg'' = Some (String ''EdDSA'')"
      "get hd ''kid'' = Some (String k)" "get hd ''typ'' = Some (String typ)"
    and g: "sha256_digest X core = g" "expected = Inr core" "List.find (\<lambda>c. kid c = k) (enrollment_keys P) = Some e"
      "vk_from_bytes X (public_key (jwk e))" "vk_verify G (public_key (jwk e)) (h @ ''.'' @ p) sig"
    unfolding verify_status_def by (auto simp: res_iff decode_canonical_iff [OF B] j_text_iff verify_with_iff)
  have "core \<noteq> []" using d(2,5) by (simp add: b64url_Nil_iff [OF B])
  then show ?r using j d r(1) g unfolding header_exact [OF r(2-5), symmetric] status_signing_input_def by auto
next
  assume ?r
  then obtain core sig e where r: "expected = Inr core" "core \<noteq> []" "jws = status_signing_input X typ k core @ ''.'' @ b64url X sig"
      "length sig = 64" "g = sha256_digest X core" "List.find (\<lambda>c. kid c = k) (enrollment_keys P) = Some e"
      "vk_from_bytes X (public_key (jwk e))" "vk_verify G (public_key (jwk e)) (status_signing_input X typ k core) sig" by blast
  let ?h = "b64url X (canonicalise (status_header typ k))"
  have ne: "canonicalise (status_header typ k) \<noteq> []" by (simp add: canonicalise_def status_header_def)
  have sp: "split_on CHR ''.'' jws = [?h, b64url X core, b64url X sig]"
    using b64url_no_dot [OF B] by (simp add: r(3) status_signing_input_def split_on_append split_on_no_sep)
  have "?h \<noteq> []" "b64url X core \<noteq> []" "b64url X sig \<noteq> []"
    unfolding b64url_Nil_iff [OF B] using ne r(2,4) by (simp_all, metis list.size(3) zero_neq_numeral)
  moreover have dc: "decode_canonical_b64 X (b64url X b) = Inr b" for b by (simp add: decode_canonical_iff [OF B])
  have jt: "j_text h n = Inr t" if "get h n = Some (String t)" for h n t using that by (simp add: j_text_iff)
  note h = header_facts [OF assms(2-4)]
  have v: "verify_with X G (public_key (jwk e)) (?h @ ''.'' @ b64url X core) sig = Inr ()"
    using r(7,8) by (simp add: verify_with_iff status_signing_input_def)
  have "verify_status X G P typ jws g expected k = Inr ()"
    unfolding verify_status_def sp list.case dc and_then_simps h(1) map_err_simps h(2,3) jt [OF h(4)] jt [OF h(5)] jt [OF h(6)]
      r(1,5,6) ok_or_simps v
    using calculation r(4) by simp
  then show ?l by simp
qed

lemma signing_input_ascii: "base64ct X \<Longrightarrow> is_ascii_str (status_signing_input X typ k core @ ''.'' @ b64url X sig)"
proof -
  assume X: "base64ct X"
  have "is_ascii_str (b64url X b)" for b
    using base64ct.encode_alphabet [OF X, of b]
    by (auto simp: is_ascii_str_def b64url_def list_all_iff is_b64url_char_def dest!: ascii_alnum_code)
  then show ?thesis by (simp add: is_ascii_str_def status_signing_input_def)
qed

lemma final_core_nonempty: "final_status_core X P i = Inr core \<Longrightarrow> core \<noteq> []"
  by (auto simp: final_status_core_def res_iff Let_def)

lemma recognise_final_iff:
  assumes B: "base64ct X" and "valid_utf8 k" "length (canonicalise (status_header FINAL_STATUS_TYPE k)) \<le> 1024"
  shows "recognise_final_status X G P jws g i k = Inr u \<longleftrightarrow>
     (\<exists>core sig e. final_status_core X P i = Inr core \<and> jws = status_signing_input X FINAL_STATUS_TYPE k core @ ''.'' @ b64url X sig
        \<and> length sig = 64 \<and> length jws \<le> MAX_FINAL_STATUS_JWS_BYTES \<and> g = sha256_digest X core
        \<and> List.find (\<lambda>c. kid c = k) (enrollment_keys P) = Some e
        \<and> vk_from_bytes X (public_key (jwk e))
        \<and> vk_verify G (public_key (jwk e)) (status_signing_input X FINAL_STATUS_TYPE k core) sig)"
proof -
  have t: "valid_utf8 FINAL_STATUS_TYPE" by (simp add: FINAL_STATUS_TYPE_def valid_utf8_ascii)
  have "\<not> (jws = [] \<or> length jws > MAX_FINAL_STATUS_JWS_BYTES \<or> \<not> is_ascii_str jws) \<longleftrightarrow> length jws \<le> MAX_FINAL_STATUS_JWS_BYTES"
    if "jws = status_signing_input X FINAL_STATUS_TYPE k core @ ''.'' @ b64url X sig" for core sig
    using signing_input_ascii [OF B, of FINAL_STATUS_TYPE k core sig] that by auto
  then show ?thesis
    unfolding recognise_final_status_def verify_status_iff [OF B t assms(2,3)] if_Inl_Inr_iff
    using final_core_nonempty by blast
qed

lemma build_final_iff:
  "build_final_status X P i k sk = Inr b \<longleftrightarrow>
     signing_key_declared X P k sk = Inr () \<and> final_status_core X P i = Inr (bs_core b)
     \<and> bs_jws b = signed_status X FINAL_STATUS_TYPE k (bs_core b) sk \<and> length (bs_jws b) \<le> MAX_FINAL_STATUS_JWS_BYTES
     \<and> bs_digest b = sha256_digest X (bs_core b) \<and> bs_kid b = k"
  by (cases b) (auto simp: build_final_status_def Let_def res_iff)

lemma final_status_roundtrip:
  assumes "base64ct X" "verify_law X G sk" "valid_utf8 k" "length (canonicalise (status_header FINAL_STATUS_TYPE k)) \<le> 1024"
    and b: "build_final_status X P i k sk = Inr b"
  shows "recognise_final_status X G P (bs_jws b) (bs_digest b) i k = Inr ()"
proof -
  from b [unfolded build_final_iff declared_iff] obtain e where "List.find (\<lambda>c. kid c = k) (enrollment_keys P) = Some e"
    "public_key (jwk e) = sk_public X sk" by blast
  then show ?thesis
    using b assms(2) unfolding build_final_iff recognise_final_iff [OF assms(1,3,4)]
    by (auto simp: signed_status_def Let_def verify_law_def ed25519_law_def
        intro!: exI [of _ "sk_sign X sk (status_signing_input X FINAL_STATUS_TYPE k (bs_core b))"])
qed

section \<open>The time a status carries\<close>

lemma valid_bound_ascii: "valid_bound_did d \<Longrightarrow> valid_utf8 d"
  by (rule valid_utf8_if) (auto simp: valid_bound_did_def list_all_iff)

lemma final_core_recognised:
  assumes "base64ct X" "valid_utf8 (fi_application_id i)" "final_status_core X P i = Inr core"
  shows "recognise_json core \<lparr>max_bytes = MAX_FINAL_STATUS_CORE_BYTES, max_depth = 1\<rparr> = Inr (sort_members (final_status_json X i))"
    "j_integer (sort_members (final_status_json X i)) ''finalizedAt'' = Inr (fi_finalized_at i)"
proof -
  have c: "core = canonicalise (final_status_json X i)" "length core \<le> MAX_FINAL_STATUS_CORE_BYTES"
    "valid_bound_did (fi_issuer_did i)" "\<not> isl (decode_did_key X (fi_device_did i))" "fi_finalized_at i \<le> MAX_JSON_SAFE_INTEGER"
    using assms(3) by (auto simp: final_status_core_def Let_def res_iff)
  from c(4) obtain key where "fi_device_did i = encode_did_key key"
    by (cases "decode_did_key X (fi_device_did i)") (auto simp: did_key.dec_Inr_iff)
  then have wf: "json_wf (final_status_json X i)"
    using c(3,5) assms(1,2) valid_bound_ascii valid_utf8_did_key
    by (simp add: final_status_json_def valid_utf8_b64url valid_utf8_ascii MAX_SAFE_INTEGER_def MAX_JSON_SAFE_INTEGER_def)
  show "recognise_json core \<lparr>max_bytes = MAX_FINAL_STATUS_CORE_BYTES, max_depth = 1\<rparr> = Inr (sort_members (final_status_json X i))"
    using wf c(1,2) by (simp only: c(1), intro recognise_canonicalise) (simp_all add: final_status_json_def)
  show "j_integer (sort_members (final_status_json X i)) ''finalizedAt'' = Inr (fi_finalized_at i)"
    by (simp add: j_integer_iff get_sort_members [OF wf]) (simp add: final_status_json_def get_Object)
qed

lemma candidate_of_recognised:
  assumes B: "base64ct X" and "valid_utf8 k" "length (canonicalise (status_header FINAL_STATUS_TYPE k)) \<le> 1024"
    and "valid_utf8 (fi_application_id i)" and r: "recognise_final_status X G P jws g i k = Inr u"
  shows "status_candidate X jws = Inr (sort_members (final_status_json X i))"
proof -
  from r [unfolded recognise_final_iff [OF assms(1-3)]] obtain core sig where c: "final_status_core X P i = Inr core"
    and j: "jws = status_signing_input X FINAL_STATUS_TYPE k core @ ''.'' @ b64url X sig" and l: "length jws \<le> MAX_FINAL_STATUS_JWS_BYTES"
    by blast
  have "split_on CHR ''.'' jws = [b64url X (canonicalise (status_header FINAL_STATUS_TYPE k)), b64url X core, b64url X sig]"
    using b64url_no_dot [OF B] by (simp add: j status_signing_input_def split_on_append split_on_no_sep)
  moreover have "decode_canonical_b64 X (b64url X core) = Inr core" by (simp add: decode_canonical_iff [OF B])
  moreover have "is_ascii_str jws" "jws \<noteq> []" using signing_input_ascii [OF B] j by auto
  ultimately show ?thesis
    using l final_core_recognised(1) [OF B assms(4) c] by (simp add: status_candidate_def)
qed

section \<open>Concrete statuses\<close>

lemma sample_app_id: "parse_application_id ''https://app.example/app'' =
    Inr \<lparr>app_text = ''https://app.example/app'', app_origin = ''https://app.example''\<rparr>"
proof -
  define r where "r = parse_application_id ''https://app.example/app''"
  have "\<not> isl r" "app_text (projr r) = ''https://app.example/app''" "app_origin (projr r) = ''https://app.example''"
    unfolding r_def by code_simp+
  then show ?thesis unfolding r_def [symmetric] by (cases r) auto
qed

lemma sample_bound_did: "valid_bound_did ''did:crdt:h''"
  by code_simp

definition sample_final :: "nat \<Rightarrow> final_status_input" where
  "sample_final t =
     \<lparr>fi_application_id = ''https://app.example/app'', fi_ceremony = replicate 32 CHR ''c'', fi_request_id = replicate 32 CHR ''r'',
      fi_principal = replicate 32 CHR ''p'', fi_scope = replicate 32 CHR ''s'', fi_device_did = encode_did_key (replicate 32 CHR ''v''),
      fi_core_digest = replicate 32 CHR ''o'', fi_payload_digest = replicate 32 CHR ''y'', fi_grant_id = replicate 32 CHR ''g'',
      fi_issuer_did = ''did:crdt:h'', fi_commitment = replicate 32 CHR ''m'', fi_finalized_at = t\<rparr>"

lemma sample_final_facts:
  "fi_finalized_at (sample_final t) = t" "valid_utf8 (fi_application_id (sample_final t))" "valid_utf8 ''k''"
  by (simp_all add: sample_final_def valid_utf8_ascii)

lemma length_b64_sample: "3 * length (b64url sample_externs bs) \<le> 4 * length bs + 2"
  by (simp add: length_b64_32 unpadded_len_def)

lemma sample_header_length: "length (canonicalise (status_header FINAL_STATUS_TYPE ''k'')) \<le> 350"
proof -
  have "text_bound (status_header FINAL_STATUS_TYPE ''k'') \<le> 350" by (simp add: status_header_def FINAL_STATUS_TYPE_def)
  then show ?thesis using length_canonicalise le_trans by blast
qed

lemma sample_final_length: "length (canonicalise (final_status_json sample_externs (sample_final 1700000000))) \<le> 4096"
proof -
  have n: "length (dec_int 2) = 1" "length (dec_int 1700000000) = 10" by code_simp+
  have "text_bound (final_status_json sample_externs (sample_final 1700000000)) \<le> 4096"
    by (simp add: final_status_json_def sample_final_def length_b64_32 unpadded_len_def did_key_length n)
  then show ?thesis using length_canonicalise le_trans by blast
qed

lemma sample_builds: "\<exists>b. build_final_status sample_externs sample_v2_profile (sample_final 1700000000) ''k'' (replicate 32 CHR ''h'') = Inr b"
proof -
  let ?core = "canonicalise (final_status_json sample_externs (sample_final 1700000000))"
  have d: "\<not> isl (decode_did_key sample_externs (encode_did_key (replicate 32 CHR ''v'')))"
    using sample_laws(3) by (simp add: decode_encode_did_key)
  have ne: "?core \<noteq> []" by (simp add: canonicalise_def final_status_json_def)
  have f: "fi_application_id (sample_final t) = ''https://app.example/app''" "fi_device_did (sample_final t) = encode_did_key (replicate 32 CHR ''v'')"
    "fi_issuer_did (sample_final t) = ''did:crdt:h''" "app_text (application_id sample_v2_profile) = ''https://app.example/app''" for t
    by (simp_all add: sample_final_def sample_v2_profile_def)
  have core: "final_status_core sample_externs sample_v2_profile (sample_final 1700000000) = Inr ?core"
    unfolding final_status_core_def f sample_app_id Let_def
    using d ne sample_bound_did sample_final_length
    by (simp add: did_key_length sample_final_facts(1) MAX_JSON_SAFE_INTEGER_def MAX_FINAL_STATUS_CORE_BYTES_def)
  have s: "length (sk_sign sample_externs sk m) = 64" for sk m by (simp add: sample_externs_def)
  have k: "signing_key_declared sample_externs sample_v2_profile ''k'' (replicate 32 CHR ''h'') = Inr ()"
    by (simp add: signing_key_declared_def sample_v2_profile_def sample_externs_def zero_pad_def)
  have "length (signed_status sample_externs FINAL_STATUS_TYPE ''k'' ?core (replicate 32 CHR ''h'')) \<le> MAX_FINAL_STATUS_JWS_BYTES"
    using sample_final_length sample_header_length length_b64_sample [of ?core]
      length_b64_sample [of "canonicalise (status_header FINAL_STATUS_TYPE ''k'')"]
    by (simp add: signed_status_def Let_def status_signing_input_def length_b64_32 [of "sk_sign _ _ _"] s unpadded_len_def
        MAX_FINAL_STATUS_JWS_BYTES_def)
  then show ?thesis unfolding build_final_status_def k core and_then_simps Let_def by simp
qed

section \<open>Properties\<close>

text \<open>
  C38. The final status both sides keep: what the hub builds under a kid whose protected header is at most 1024 octets,
  the recogniser's bound on it, is recognised, and the time inside it decides nothing on its own. Reading the time from the payload and checking every other fact against it accepts exactly the
  statuses that the ordinary check accepts at that time.
\<close>

theorem embedded_time_agrees:
  assumes "base64ct X" "valid_utf8 k" "length (canonicalise (status_header FINAL_STATUS_TYPE k)) \<le> 1024"
    "\<And>t. fi_finalized_at (expected t) = t \<and> valid_utf8 (fi_application_id (expected t))" "verify_law X G sk"
  shows "(recognise_final_status_with_embedded_time X G P jws g expected k = Inr t \<longleftrightarrow>
       recognise_final_status X G P jws g (expected t) k = Inr ())
     \<and> (build_final_status X P (expected t) k sk = Inr b \<longrightarrow>
       recognise_final_status_with_embedded_time X G P (bs_jws b) (bs_digest b) expected k = Inr t)"
proof -
  have main: "recognise_final_status_with_embedded_time X G P jws g expected k = Inr t \<longleftrightarrow>
     recognise_final_status X G P jws g (expected t) k = Inr ()" for jws g
  proof
    assume r: "recognise_final_status X G P jws g (expected t) k = Inr ()"
    note c = candidate_of_recognised [OF assms(1-3) conjunct2 [OF assms(4)] r]
    have "j_integer (sort_members (final_status_json X (expected t))) ''finalizedAt'' = Inr t"
      using r [unfolded recognise_final_iff [OF assms(1-3)]] final_core_recognised(2) [OF assms(1) conjunct2 [OF assms(4)]] assms(4)
      by fastforce
    then show "recognise_final_status_with_embedded_time X G P jws g expected k = Inr t"
      using c r by (simp add: recognise_final_status_with_embedded_time_def)
  qed (auto simp: recognise_final_status_with_embedded_time_def res_iff)
  then show ?thesis using final_status_roundtrip [OF assms(1,5,2,3)] by blast
qed

theorem embedded_time_agrees_witness:
  "\<exists>b :: built_status. recognise_final_status_with_embedded_time sample_externs sample_pair sample_v2_profile (bs_jws b) (bs_digest b) sample_final ''k''
     = Inr 1700000000"
proof -
  obtain b where b: "build_final_status sample_externs sample_v2_profile (sample_final 1700000000) ''k'' (replicate 32 CHR ''h'') = Inr b"
    using sample_builds by blast
  have l: "length (canonicalise (status_header FINAL_STATUS_TYPE ''k'')) \<le> 1024" using sample_header_length by simp
  have e: "fi_finalized_at (sample_final t) = t \<and> valid_utf8 (fi_application_id (sample_final t))" for t
    using sample_final_facts by simp
  have "recognise_final_status_with_embedded_time sample_externs sample_pair sample_v2_profile (bs_jws b) (bs_digest b) sample_final ''k''
      = Inr 1700000000"
    using embedded_time_agrees [OF sample_laws(4) sample_final_facts(3) l e sample_laws(2) [of "replicate 32 CHR ''h''"],
        of sample_v2_profile "[]" "[]" 1700000000 b] b by simp
  then show ?thesis ..
qed

text \<open>
  The authority's answer and the browser's staging receipt are each one canonical sequence: a recogniser accepts
  octets exactly when they are what the builder of the expected facts writes around a signature that verifies under
  the declared key, or the device's key.
\<close>

theorem signed_answers_exact:
  assumes "cbor_law G"
  shows "(recognise_authority_status_response X G P response k ceremony g = Inr st \<longleftrightarrow>
      (\<exists>m sig unsigned e. status_members st = Inr m \<and> length sig = 64 \<and> length response \<le> 768
        \<and> cbor_canonical G (CArray (authority_members ceremony g m @ [CBytes sig])) = Some response
        \<and> cbor_canonical G (CArray (authority_members ceremony g m)) = Some unsigned
        \<and> List.find (\<lambda>c. kid c = k) (enrollment_keys P) = Some e \<and> vk_from_bytes X (public_key (jwk e))
        \<and> vk_verify G (public_key (jwk e)) (labelled_hash X AUTHORITY_SIGNATURE_DOMAIN unsigned) sig))
    \<and> (recognise_browser_staging_receipt X G receipt i key = Inr u \<longleftrightarrow>
      staging_typed i \<and> (\<exists>sig. length sig = 64 \<and> build_browser_staging_receipt X G i key sig = Inr receipt))"
  using recognise_authority_iff [OF assms] recognise_staging_iff [OF assms] by blast

theorem signed_answers_exact_witness:
  "recognise_authority_status_response sample_externs sample_pair sample_v2_profile ''D'' ''k'' [] [] \<noteq> Inr NoBinding"
  using signed_answers_exact [OF sample_laws(1), where X = sample_externs and P = sample_v2_profile and response = "''D''" and k = "''k''"
      and ceremony = "[]" and g = "[]" and st = NoBinding and receipt = "[]" and u = "()"]
  by (auto simp: table_externs_def sample_table_def status_members_def authority_members_def split: if_splits)

end
