(* ===== verification/Pair_Bodies.thy ===== *)
theory Pair_Bodies
  imports Pair_Status
begin

text \<open>
  The successor bodies of a pairing (\<open>crates/selfsame-pairing/src/credential_v2/bodies.rs\<close>): the one-attempt
  authority a verified offer binds, the builder of every successor object, the verifier the endpoint calls, and the
  checkpoint of the authority. The shared slot \<open>Arc<Mutex<Option<BoundBodyAuthority>>>\<close> is a value of type
  \<open>bound_authority option\<close>; its mutex is not poisoned, as no code panics while it holds the lock.
\<close>

section \<open>Types\<close>

datatype intent_decision = ApproveIntent | DeclineIntent
datatype final_decision = ApproveFinal | DeclineFinal

datatype refusal_reason =
  AuthorityUnknown | BindingMismatch | HubUnavailable | OfferExpired | PersonCancelled | ProtocolFailure

fun reason_str :: "refusal_reason \<Rightarrow> rust_str" where
  "reason_str AuthorityUnknown = ''authority-unknown''"
| "reason_str BindingMismatch = ''binding-mismatch''"
| "reason_str HubUnavailable = ''hub-unavailable''"
| "reason_str OfferExpired = ''expired''"
| "reason_str PersonCancelled = ''cancelled''"
| "reason_str ProtocolFailure = ''protocol-error''"

definition recognise_reason :: "rust_str \<Rightarrow> v2_error + refusal_reason" where
  "recognise_reason v =
     (if v = ''authority-unknown'' then Inr AuthorityUnknown
      else if v = ''binding-mismatch'' then Inr BindingMismatch
      else if v = ''hub-unavailable'' then Inr HubUnavailable
      else if v = ''expired'' then Inr OfferExpired
      else if v = ''cancelled'' then Inr PersonCancelled
      else if v = ''protocol-error'' then Inr ProtocolFailure
      else Inl V2Schema)"

record preview =
  pv_did :: rust_str
  pv_digest :: octets

record retained_payload =
  rp_offer_core_digest :: octets
  rp_preview_did :: rust_str
  rp_preview_digest :: octets
  rp_principal :: octets
  rp_scope :: octets
  rp_device_did :: rust_str
  rp_grant_id :: octets
  rp_grant :: rust_str
  rp_confirmation :: octets

record bound_authority =
  bd_profile :: application_profile
  bd_kid :: rust_str
  bd_ceremony :: octets
  bd_intent :: octets
  bd_core_digest :: octets
  bd_principal :: octets
  bd_scope :: octets
  bd_device_did :: rust_str
  bd_device_digest :: octets
  bd_legacy_digest :: octets
  bd_room_digest :: octets
  bd_snapshot_digest :: octets
  bd_nonce :: octets
  bd_preview :: "preview option"
  bd_payload :: "retained_payload option"

record logical_body =
  lb_ceremony :: octets
  lb_kind :: v2_kind
  lb_bytes :: octets

record receipt_input =
  rc_jws :: rust_str
  rc_status_digest :: octets

abbreviation or_schema :: "'a option \<Rightarrow> v2_error + 'a" where "or_schema \<equiv> ok_or V2Schema"

section \<open>Fields of a body\<close>

definition body_entries :: "pair_externs \<Rightarrow> octets \<Rightarrow> v2_error + (cbor \<times> cbor) list" where
  "body_entries G bytes =
     and_then (ok_or V2MalformedCbor (cbor_read G bytes)) (\<lambda>(v, pos).
     if pos \<noteq> length bytes then Inl V2NonDeterministic
     else
     and_then (ok_or V2NonDeterministic (cbor_canonical G v)) (\<lambda>b.
     if b \<noteq> bytes then Inl V2NonDeterministic else or_schema (cbor_as_map v)))"

definition v_field :: "(cbor \<times> cbor) list \<Rightarrow> rust_str \<Rightarrow> v2_error + cbor" where
  "v_field entries name =
     (case map snd (filter (\<lambda>(k, v). cbor_as_text k = Some name) entries) of
        [] \<Rightarrow> Inl V2Schema
      | [v] \<Rightarrow> Inr v
      | _ \<Rightarrow> Inl V2DuplicateKey)"

definition exact_fields :: "(cbor \<times> cbor) list \<Rightarrow> rust_str list \<Rightarrow> v2_error + unit" where
  "exact_fields entries names =
     (if length entries \<noteq> length names \<or> list_ex (\<lambda>name. isl (v_field entries name)) names then Inl V2Schema else Inr ())"

definition fixed_field :: "nat \<Rightarrow> (cbor \<times> cbor) list \<Rightarrow> rust_str \<Rightarrow> v2_error + octets" where
  "fixed_field n entries name =
     and_then (v_field entries name) (\<lambda>v.
     and_then (or_schema (cbor_as_bytes v)) (\<lambda>b. if length b \<noteq> n then Inl V2Schema else Inr b))"

definition bytes_field :: "(cbor \<times> cbor) list \<Rightarrow> rust_str \<Rightarrow> v2_error + octets" where
  "bytes_field entries name = and_then (v_field entries name) (\<lambda>v. or_schema (cbor_as_bytes v))"

definition text_field :: "(cbor \<times> cbor) list \<Rightarrow> rust_str \<Rightarrow> v2_error + rust_str" where
  "text_field entries name = and_then (v_field entries name) (\<lambda>v. or_schema (cbor_as_text v))"

definition expect_fixed :: "(cbor \<times> cbor) list \<Rightarrow> rust_str \<Rightarrow> octets \<Rightarrow> v2_error + unit" where
  "expect_fixed entries name expected =
     and_then (fixed_field (length expected) entries name) (\<lambda>b. if b \<noteq> expected then Inl V2Profile else Inr ())"

definition expect_text :: "(cbor \<times> cbor) list \<Rightarrow> rust_str \<Rightarrow> rust_str \<Rightarrow> v2_error + unit" where
  "expect_text entries name expected =
     and_then (text_field entries name) (\<lambda>t. if t \<noteq> expected then Inl V2Profile else Inr ())"

definition optional_fixed_field :: "nat \<Rightarrow> (cbor \<times> cbor) list \<Rightarrow> rust_str \<Rightarrow> v2_error + octets option" where
  "optional_fixed_field n entries name =
     and_then (v_field entries name) (\<lambda>v.
     case v of
       CNull \<Rightarrow> Inr None
     | CBytes b \<Rightarrow> if length b = n then Inr (Some b) else Inl V2Schema
     | _ \<Rightarrow> Inl V2Schema)"

definition optional_text_field :: "(cbor \<times> cbor) list \<Rightarrow> rust_str \<Rightarrow> v2_error + rust_str option" where
  "optional_text_field entries name =
     and_then (v_field entries name) (\<lambda>v.
     case v of CNull \<Rightarrow> Inr None | CText t \<Rightarrow> Inr (Some t) | _ \<Rightarrow> Inl V2Schema)"

definition valid_compact_jws :: "rust_str \<Rightarrow> bool" where
  "valid_compact_jws v \<longleftrightarrow>
     (let parts = split_on CHR ''.'' v in
      length parts = 3 \<and> list_all (\<lambda>part. part \<noteq> [] \<and> list_all is_b64url_char part) parts)"

section \<open>Shared checks\<close>

definition recognise_preview :: "externs \<Rightarrow> pair_externs \<Rightarrow> rust_str \<Rightarrow> octets option \<Rightarrow> v2_error + preview" where
  "recognise_preview X G did claimed =
     (if did = [] \<or> length did > 512 \<or> \<not> is_ascii_str did \<or> \<not> crdt_did_ok G did then Inl V2Schema
      else
      let digest = sha256_digest X did in
      if (case claimed of Some c \<Rightarrow> c \<noteq> digest | None \<Rightarrow> False) then Inl V2Profile
      else Inr \<lparr>pv_did = did, pv_digest = digest\<rparr>)"

definition retain_preview :: "bound_authority \<Rightarrow> preview \<Rightarrow> v2_error + bound_authority" where
  "retain_preview b p =
     (case bd_preview b of
        None \<Rightarrow> Inr (b\<lparr>bd_preview := Some p\<rparr>)
      | Some retained \<Rightarrow> if retained = p then Inr b else Inl V2Profile)"

definition retain_payload :: "bound_authority \<Rightarrow> retained_payload \<Rightarrow> v2_error + bound_authority" where
  "retain_payload b p =
     (case bd_payload b of
        None \<Rightarrow> Inr (b\<lparr>bd_payload := Some p\<rparr>)
      | Some retained \<Rightarrow> if retained = p then Inr b else Inl V2Profile)"

definition require_predecessor :: "bound_authority \<Rightarrow> v2_object \<Rightarrow> v2_kind list \<Rightarrow> v2_error + unit" where
  "require_predecessor b predecessor kinds =
     (if obj_intent predecessor \<noteq> bd_intent b \<or> obj_kind predecessor \<notin> set kinds then Inl V2Phase else Inr ())"

definition b_bytes :: "rust_str \<Rightarrow> octets \<Rightarrow> cbor \<times> cbor" where "b_bytes name v = (CText name, CBytes v)"
definition b_text :: "rust_str \<Rightarrow> rust_str \<Rightarrow> cbor \<times> cbor" where "b_text name v = (CText name, CText v)"

definition build_object :: "pair_externs \<Rightarrow> bound_authority \<Rightarrow> v2_object \<Rightarrow> v2_kind \<Rightarrow> (cbor \<times> cbor) list \<Rightarrow> v2_error + v2_object" where
  "build_object G b predecessor kind members =
     and_then (or_schema (cbor_canonical G (CMap (members @ [b_bytes ''carrierCeremonyId'' (bd_ceremony b),
         b_bytes ''predecessorDigest'' (content_hash_of G predecessor)])))) (\<lambda>bytes.
     object_new G kind (bd_intent b) bytes)"

definition comparison_status ::
  "externs \<Rightarrow> pair_externs \<Rightarrow> bound_authority \<Rightarrow> octets \<Rightarrow> preview \<Rightarrow> v2_error + v2_kind \<times> rust_str" where
  "comparison_status X G b response p =
     and_then (map_err (\<lambda>_. V2Profile)
       (recognise_authority_status_response X G (bd_profile b) response (bd_kid b) (bd_ceremony b) (bd_core_digest b))) (\<lambda>st.
     case st of
       NoBinding \<Rightarrow> Inr (ComparisonConfirmed, ''no-binding-person-compared'')
     | BoundTo did \<Rightarrow> if did = pv_did p then Inr (BindingConfirmed, ''bound-same-did'') else Inl V2Profile)"

definition body_migration_digest :: "externs \<Rightarrow> bound_authority \<Rightarrow> preview \<Rightarrow> v2_error + octets" where
  "body_migration_digest X b p =
     migration_confirmation_digest_parts X (bd_core_digest b) (pv_did p) (bd_legacy_digest b) (bd_room_digest b)
       (bd_snapshot_digest b) (bd_nonce b) (bd_device_digest b)"

definition recognised_retained_preview ::
  "externs \<Rightarrow> pair_externs \<Rightarrow> (cbor \<times> cbor) list \<Rightarrow> bound_authority \<Rightarrow> v2_error + preview" where
  "recognised_retained_preview X G entries b =
     and_then (ok_or V2Phase (bd_preview b)) (\<lambda>retained.
     and_then (text_field entries ''previewIssuerDid'') (\<lambda>did.
     and_then (fixed_field 32 entries ''previewFingerprintDigest'') (\<lambda>digest.
     and_then (recognise_preview X G did (Some digest)) (\<lambda>found.
     if found \<noteq> retained then Inl V2Profile else Inr retained))))"

section \<open>Binding an offer\<close>

definition bind_offer :: "pair_externs \<Rightarrow> application_profile \<Rightarrow> recognised_offer \<Rightarrow> bound_authority option
    \<Rightarrow> v2_error + bound_authority option" where
  "bind_offer G P offer slot =
     (if ro_signed_offer offer = [] \<or> ro_kid offer = [] \<or> ro_profile_digest offer \<noteq> profile_digest P
        \<or> ic_application_id (ro_claims offer) \<noteq> app_text (application_id P)
      then Inl V2Profile
      else
      and_then (ok_or V2Profile (ic_transition (ro_claims offer))) (\<lambda>t.
      if slot \<noteq> None then Inl V2Phase
      else
      let c = ro_claims offer in
      Inr (Some \<lparr>bd_profile = P, bd_kid = ro_kid offer, bd_ceremony = ic_ceremony c,
        bd_intent = intent_digest_of G (ic_core_digest c), bd_core_digest = ic_core_digest c, bd_principal = ic_principal c,
        bd_scope = ic_scope c, bd_device_did = ic_device_did c, bd_device_digest = ic_device_digest c,
        bd_legacy_digest = pt_key_digest t, bd_room_digest = pt_room_digest t, bd_snapshot_digest = pt_snapshot_digest t,
        bd_nonce = pt_nonce t, bd_preview = None, bd_payload = None\<rparr>)))"

definition bound_of :: "bound_authority option \<Rightarrow> v2_error + bound_authority" where
  "bound_of slot = ok_or V2Phase slot"

definition require_bound_offer :: "pair_externs \<Rightarrow> application_profile \<Rightarrow> recognised_offer \<Rightarrow> bound_authority option
    \<Rightarrow> v2_error + unit" where
  "require_bound_offer G P offer slot =
     and_then (bound_of slot) (\<lambda>b.
     and_then (ok_or V2Profile (ic_transition (ro_claims offer))) (\<lambda>t.
     let c = ro_claims offer in
     if profile_digest (bd_profile b) \<noteq> profile_digest P \<or> bd_kid b \<noteq> ro_kid offer \<or> bd_ceremony b \<noteq> ic_ceremony c
       \<or> bd_intent b \<noteq> intent_digest_of G (ic_core_digest c) \<or> bd_core_digest b \<noteq> ic_core_digest c
       \<or> bd_principal b \<noteq> ic_principal c \<or> bd_scope b \<noteq> ic_scope c \<or> bd_device_did b \<noteq> ic_device_did c
       \<or> bd_device_digest b \<noteq> ic_device_digest c \<or> bd_legacy_digest b \<noteq> pt_key_digest t \<or> bd_room_digest b \<noteq> pt_room_digest t
       \<or> bd_snapshot_digest b \<noteq> pt_snapshot_digest t \<or> bd_nonce b \<noteq> pt_nonce t
     then Inl V2Profile
     else Inr ()))"

definition retained_preview :: "bound_authority option \<Rightarrow> v2_error + preview" where
  "retained_preview slot = and_then (bound_of slot) (\<lambda>b. ok_or V2Phase (bd_preview b))"

definition retained_payload_of :: "bound_authority option \<Rightarrow> v2_error + retained_payload" where
  "retained_payload_of slot = and_then (bound_of slot) (\<lambda>b. ok_or V2Phase (bd_payload b))"

section \<open>Building successors\<close>

definition decision_name :: "bool \<Rightarrow> rust_str" where "decision_name approved = (if approved then ''approve'' else ''decline'')"

definition intent_decision_object ::
  "pair_externs \<Rightarrow> bound_authority option \<Rightarrow> v2_object \<Rightarrow> intent_decision \<Rightarrow> v2_error + v2_object" where
  "intent_decision_object G slot predecessor d =
     and_then (bound_of slot) (\<lambda>b.
     and_then (require_predecessor b predecessor [OfferKind]) (\<lambda>_.
     let (kind, name) = (case d of ApproveIntent \<Rightarrow> (IntentApprove, ''approve'') | DeclineIntent \<Rightarrow> (IntentDecline, ''decline'')) in
     build_object G b predecessor kind [b_bytes ''offerCoreDigest'' (bd_core_digest b), b_text ''decision'' name]))"

text \<open>The preview is kept even when the object that shows it cannot be built.\<close>

definition preparation_object ::
  "externs \<Rightarrow> pair_externs \<Rightarrow> bound_authority option \<Rightarrow> v2_object \<Rightarrow> rust_str
   \<Rightarrow> (v2_error + v2_object) \<times> bound_authority option" where
  "preparation_object X G slot predecessor did =
     (case and_then (recognise_preview X G did None) (\<lambda>p.
           and_then (bound_of slot) (\<lambda>b.
           and_then (require_predecessor b predecessor [IntentApprove]) (\<lambda>_.
           and_then (retain_preview b p) (\<lambda>b'. Inr (p, b'))))) of
        Inl e \<Rightarrow> (Inl e, slot)
      | Inr (p, b) \<Rightarrow>
          (build_object G b predecessor Preparation
             [b_bytes ''offerCoreDigest'' (bd_core_digest b), b_text ''previewIssuerDid'' (pv_did p),
              b_bytes ''previewFingerprintDigest'' (pv_digest p)], Some b))"

definition comparison_object ::
  "externs \<Rightarrow> pair_externs \<Rightarrow> bound_authority option \<Rightarrow> v2_object \<Rightarrow> octets \<Rightarrow> v2_error + v2_object" where
  "comparison_object X G slot predecessor response =
     and_then (bound_of slot) (\<lambda>b.
     and_then (require_predecessor b predecessor [Preparation]) (\<lambda>_.
     and_then (ok_or V2Phase (bd_preview b)) (\<lambda>p.
     and_then (comparison_status X G b response p) (\<lambda>(kind, verdict).
     build_object G b predecessor kind
       [b_text ''result'' verdict, b_text ''previewIssuerDid'' (pv_did p), b_bytes ''previewFingerprintDigest'' (pv_digest p),
        b_bytes ''authorityStatusResponse'' response, b_bytes ''authorityStatusDigest'' (sha256_digest X response)]))))"

definition final_decision_object ::
  "pair_externs \<Rightarrow> bound_authority option \<Rightarrow> v2_object \<Rightarrow> final_decision \<Rightarrow> v2_error + v2_object" where
  "final_decision_object G slot predecessor d =
     and_then (bound_of slot) (\<lambda>b.
     and_then (require_predecessor b predecessor [ComparisonConfirmed, BindingConfirmed]) (\<lambda>_.
     and_then (ok_or V2Phase (bd_preview b)) (\<lambda>p.
     let (kind, name) = (case d of ApproveFinal \<Rightarrow> (FinalApprove, ''approve'') | DeclineFinal \<Rightarrow> (FinalDecline, ''decline'')) in
     build_object G b predecessor kind
       [b_text ''previewIssuerDid'' (pv_did p), b_bytes ''previewFingerprintDigest'' (pv_digest p), b_text ''decision'' name])))"

definition refusal_object ::
  "pair_externs \<Rightarrow> bound_authority option \<Rightarrow> v2_object \<Rightarrow> refusal_reason \<Rightarrow> v2_error + v2_object" where
  "refusal_object G slot predecessor reason =
     and_then (bound_of slot) (\<lambda>b.
     and_then (require_predecessor b predecessor
         [OfferKind, IntentApprove, Preparation, ComparisonConfirmed, BindingConfirmed, FinalApprove]) (\<lambda>_.
     build_object G b predecessor RefusalKind [b_text ''reason'' (reason_str reason)]))"

text \<open>The payload is kept only once its object is built.\<close>

definition payload_object ::
  "externs \<Rightarrow> pair_externs \<Rightarrow> bound_authority option \<Rightarrow> v2_object \<Rightarrow> octets \<Rightarrow> rust_str
   \<Rightarrow> v2_error + v2_object \<times> bound_authority option" where
  "payload_object X G slot predecessor gid grant =
     (if \<not> valid_compact_jws grant \<or> length grant > 49152 then Inl V2Schema
      else
      and_then (bound_of slot) (\<lambda>b.
      and_then (require_predecessor b predecessor [FinalApprove]) (\<lambda>_.
      and_then (ok_or V2Phase (bd_preview b)) (\<lambda>p.
      and_then (body_migration_digest X b p) (\<lambda>confirmation.
      let retained = \<lparr>rp_offer_core_digest = bd_core_digest b, rp_preview_did = pv_did p, rp_preview_digest = pv_digest p,
            rp_principal = bd_principal b, rp_scope = bd_scope b, rp_device_did = bd_device_did b, rp_grant_id = gid,
            rp_grant = grant, rp_confirmation = confirmation\<rparr> in
      and_then (build_object G b predecessor PayloadKind
        [b_bytes ''offerCoreDigest'' (bd_core_digest b), b_text ''previewIssuerDid'' (pv_did p),
         b_bytes ''previewFingerprintDigest'' (pv_digest p), b_bytes ''accountPrincipalDigest'' (bd_principal b),
         b_bytes ''accountScopeId'' (bd_scope b), b_text ''deviceDid'' (bd_device_did b), b_bytes ''grantId'' gid,
         b_text ''grantMediaType'' ''application/vc+jwt'', b_text ''grant'' grant,
         b_bytes ''migrationConfirmationDigest'' confirmation]) (\<lambda>built.
      and_then (retain_payload b retained) (\<lambda>b'. Inr (built, Some b'))))))))"

definition receipt_ok :: "externs \<Rightarrow> receipt_input \<Rightarrow> v2_error + unit" where
  "receipt_ok X i =
     (if \<not> valid_compact_jws (rc_jws i) \<or> length (rc_jws i) > 8192 then Inl V2Schema
      else
      and_then (map_err (\<lambda>_. V2Schema) (compact_jws_payload_digest X (rc_jws i))) (\<lambda>d.
      if d \<noteq> rc_status_digest i then Inl V2Schema else Inr ()))"

definition receipt_object ::
  "externs \<Rightarrow> pair_externs \<Rightarrow> bound_authority option \<Rightarrow> v2_object \<Rightarrow> receipt_input \<Rightarrow> v2_error + v2_object" where
  "receipt_object X G slot predecessor i =
     and_then (receipt_ok X i) (\<lambda>_.
     and_then (bound_of slot) (\<lambda>b.
     and_then (require_predecessor b predecessor [PayloadKind]) (\<lambda>_.
     build_object G b predecessor ReceiptKind
       [b_text ''finalStatusJws'' (rc_jws i), b_bytes ''finalStatusDigest'' (rc_status_digest i)])))"

definition recovered_receipt_object ::
  "externs \<Rightarrow> pair_externs \<Rightarrow> octets \<Rightarrow> octets \<Rightarrow> octets \<Rightarrow> receipt_input \<Rightarrow> v2_error + v2_object" where
  "recovered_receipt_object X G intent ceremony payload_hash i =
     and_then (receipt_ok X i) (\<lambda>_.
     and_then (or_schema (cbor_canonical G (CMap
       [b_text ''finalStatusJws'' (rc_jws i), b_bytes ''finalStatusDigest'' (rc_status_digest i),
        b_bytes ''carrierCeremonyId'' ceremony, b_bytes ''predecessorDigest'' payload_hash]))) (\<lambda>bytes.
     object_new G ReceiptKind intent bytes))"

section \<open>Verifying successors\<close>

abbreviation PRED :: "rust_str list" where "PRED \<equiv> [''carrierCeremonyId'', ''predecessorDigest'']"
abbreviation PREVIEW :: "rust_str list" where "PREVIEW \<equiv> [''previewIssuerDid'', ''previewFingerprintDigest'']"

definition verify_intent_decision :: "(cbor \<times> cbor) list \<Rightarrow> bound_authority \<Rightarrow> rust_str \<Rightarrow> v2_error + unit" where
  "verify_intent_decision entries b decision =
     and_then (exact_fields entries (PRED @ [''offerCoreDigest'', ''decision''])) (\<lambda>_.
     and_then (expect_fixed entries ''offerCoreDigest'' (bd_core_digest b)) (\<lambda>_.
     expect_text entries ''decision'' decision))"

definition verify_preparation ::
  "externs \<Rightarrow> pair_externs \<Rightarrow> (cbor \<times> cbor) list \<Rightarrow> bound_authority \<Rightarrow> v2_error + bound_authority" where
  "verify_preparation X G entries b =
     and_then (exact_fields entries (PRED @ [''offerCoreDigest''] @ PREVIEW)) (\<lambda>_.
     and_then (expect_fixed entries ''offerCoreDigest'' (bd_core_digest b)) (\<lambda>_.
     and_then (text_field entries ''previewIssuerDid'') (\<lambda>did.
     and_then (fixed_field 32 entries ''previewFingerprintDigest'') (\<lambda>digest.
     and_then (recognise_preview X G did (Some digest)) (\<lambda>p. retain_preview b p)))))"

definition verify_comparison ::
  "externs \<Rightarrow> pair_externs \<Rightarrow> (cbor \<times> cbor) list \<Rightarrow> bound_authority \<Rightarrow> v2_kind \<Rightarrow> v2_error + unit" where
  "verify_comparison X G entries b kind =
     and_then (exact_fields entries (PRED @ [''result''] @ PREVIEW @ [''authorityStatusResponse'', ''authorityStatusDigest''])) (\<lambda>_.
     and_then (recognised_retained_preview X G entries b) (\<lambda>p.
     and_then (bytes_field entries ''authorityStatusResponse'') (\<lambda>response.
     if response = [] \<or> length response > 768 then Inl V2Schema
     else
     and_then (expect_fixed entries ''authorityStatusDigest'' (sha256_digest X response)) (\<lambda>_.
     and_then (comparison_status X G b response p) (\<lambda>(expected_kind, verdict).
     if expected_kind \<noteq> kind then Inl V2Profile else expect_text entries ''result'' verdict)))))"

definition verify_refusal :: "(cbor \<times> cbor) list \<Rightarrow> v2_error + unit" where
  "verify_refusal entries =
     and_then (exact_fields entries (PRED @ [''reason''])) (\<lambda>_.
     and_then (text_field entries ''reason'') (\<lambda>t. and_then (recognise_reason t) (\<lambda>_. Inr ())))"

definition verify_receipt :: "externs \<Rightarrow> (cbor \<times> cbor) list \<Rightarrow> v2_error + unit" where
  "verify_receipt X entries =
     and_then (exact_fields entries (PRED @ [''finalStatusJws'', ''finalStatusDigest''])) (\<lambda>_.
     and_then (text_field entries ''finalStatusJws'') (\<lambda>jws.
     if \<not> valid_compact_jws jws \<or> length jws > 8192 then Inl V2Schema
     else
     and_then (map_err (\<lambda>_. V2Schema) (compact_jws_payload_digest X jws)) (\<lambda>d.
     expect_fixed entries ''finalStatusDigest'' d)))"

definition verify_final :: "externs \<Rightarrow> pair_externs \<Rightarrow> (cbor \<times> cbor) list \<Rightarrow> bound_authority \<Rightarrow> rust_str \<Rightarrow> v2_error + unit" where
  "verify_final X G entries b decision =
     and_then (exact_fields entries (PRED @ PREVIEW @ [''decision''])) (\<lambda>_.
     and_then (recognised_retained_preview X G entries b) (\<lambda>_. expect_text entries ''decision'' decision))"

definition verify_payload ::
  "externs \<Rightarrow> pair_externs \<Rightarrow> (cbor \<times> cbor) list \<Rightarrow> bound_authority \<Rightarrow> v2_error + bound_authority" where
  "verify_payload X G entries b =
     and_then (exact_fields entries (PRED @ [''offerCoreDigest''] @ PREVIEW @ [''accountPrincipalDigest'', ''accountScopeId'',
       ''deviceDid'', ''grantId'', ''grantMediaType'', ''grant'', ''migrationConfirmationDigest''])) (\<lambda>_.
     and_then (recognised_retained_preview X G entries b) (\<lambda>p.
     and_then (expect_fixed entries ''offerCoreDigest'' (bd_core_digest b)) (\<lambda>_.
     and_then (expect_fixed entries ''accountPrincipalDigest'' (bd_principal b)) (\<lambda>_.
     and_then (expect_fixed entries ''accountScopeId'' (bd_scope b)) (\<lambda>_.
     and_then (expect_text entries ''deviceDid'' (bd_device_did b)) (\<lambda>_.
     and_then (fixed_field 32 entries ''grantId'') (\<lambda>gid.
     and_then (expect_text entries ''grantMediaType'' ''application/vc+jwt'') (\<lambda>_.
     and_then (text_field entries ''grant'') (\<lambda>grant.
     if length grant > 49152 \<or> \<not> valid_compact_jws grant then Inl V2Schema
     else
     and_then (body_migration_digest X b p) (\<lambda>confirmation.
     and_then (expect_fixed entries ''migrationConfirmationDigest'' confirmation) (\<lambda>_.
     retain_payload b \<lparr>rp_offer_core_digest = bd_core_digest b, rp_preview_did = pv_did p, rp_preview_digest = pv_digest p,
       rp_principal = bd_principal b, rp_scope = bd_scope b, rp_device_did = bd_device_did b, rp_grant_id = gid,
       rp_grant = grant, rp_confirmation = confirmation\<rparr>)))))))))))"

definition unchanged :: "bound_authority \<Rightarrow> v2_error + unit \<Rightarrow> v2_error + bound_authority" where
  "unchanged b r = and_then r (\<lambda>_. Inr b)"

text \<open>\<open>CredentialV2BodyVerifier::verify\<close>: the slot after a success; a refusal leaves it as it was.\<close>

definition verify_body :: "externs \<Rightarrow> pair_externs \<Rightarrow> bound_authority option \<Rightarrow> logical_body \<Rightarrow> v2_error + bound_authority" where
  "verify_body X G slot body =
     and_then (bound_of slot) (\<lambda>b.
     if lb_ceremony body \<noteq> bd_ceremony b then Inl V2Profile
     else
     and_then (body_entries G (lb_bytes body)) (\<lambda>entries.
     case lb_kind body of
       IntentApprove \<Rightarrow> unchanged b (verify_intent_decision entries b ''approve'')
     | IntentDecline \<Rightarrow> unchanged b (verify_intent_decision entries b ''decline'')
     | Preparation \<Rightarrow> verify_preparation X G entries b
     | ComparisonConfirmed \<Rightarrow> unchanged b (verify_comparison X G entries b ComparisonConfirmed)
     | BindingConfirmed \<Rightarrow> unchanged b (verify_comparison X G entries b BindingConfirmed)
     | RefusalKind \<Rightarrow> unchanged b (verify_refusal entries)
     | FinalApprove \<Rightarrow> unchanged b (verify_final X G entries b ''approve'')
     | FinalDecline \<Rightarrow> unchanged b (verify_final X G entries b ''decline'')
     | PayloadKind \<Rightarrow> verify_payload X G entries b
     | ReceiptKind \<Rightarrow> unchanged b (verify_receipt X entries)
     | OfferKind \<Rightarrow> Inl V2Schema
     | AccountSelect \<Rightarrow> Inl V2Schema))"

definition restore_retained_received_object ::
  "externs \<Rightarrow> pair_externs \<Rightarrow> bound_authority option \<Rightarrow> v2_object \<Rightarrow> v2_error + bound_authority" where
  "restore_retained_received_object X G slot obj =
     and_then (bound_of slot) (\<lambda>b.
     if obj_intent obj \<noteq> bd_intent b then Inl V2Profile
     else
     and_then (body_entries G (obj_body obj)) (\<lambda>entries.
     and_then (expect_fixed entries ''carrierCeremonyId'' (bd_ceremony b)) (\<lambda>_.
     case obj_kind obj of
       Preparation \<Rightarrow> verify_preparation X G entries b
     | PayloadKind \<Rightarrow> verify_payload X G entries b
     | _ \<Rightarrow> Inr b)))"

text \<open>A receipt seen on the wire, bound to the ceremony and the payload it answers.\<close>

definition recognise_receipt ::
  "externs \<Rightarrow> pair_externs \<Rightarrow> v2_object \<Rightarrow> octets \<Rightarrow> octets \<Rightarrow> v2_error + receipt_input" where
  "recognise_receipt X G obj ceremony payload_hash =
     (if obj_kind obj \<noteq> ReceiptKind then Inl V2Schema
      else
      and_then (body_entries G (obj_body obj)) (\<lambda>entries.
      and_then (verify_receipt X entries) (\<lambda>_.
      and_then (expect_fixed entries ''carrierCeremonyId'' ceremony) (\<lambda>_.
      and_then (expect_fixed entries ''predecessorDigest'' payload_hash) (\<lambda>_.
      and_then (text_field entries ''finalStatusJws'') (\<lambda>jws.
      and_then (fixed_field 32 entries ''finalStatusDigest'') (\<lambda>d.
      Inr \<lparr>rc_jws = jws, rc_status_digest = d\<rparr>)))))))"

section \<open>The checkpoint\<close>

definition AUTHORITY_CHECKPOINT_DOMAIN :: rust_str where
  "AUTHORITY_CHECKPOINT_DOMAIN = ''selfsame credential/v2 body authority v1''"
definition MAX_AUTHORITY_CHECKPOINT_BYTES :: nat where "MAX_AUTHORITY_CHECKPOINT_BYTES = 60000"

definition checkpoint_entries :: "bound_authority \<Rightarrow> (cbor \<times> cbor) list" where
  "checkpoint_entries b =
     [b_text ''domain'' AUTHORITY_CHECKPOINT_DOMAIN, b_bytes ''profileDigest'' (profile_digest (bd_profile b)),
      b_text ''kid'' (bd_kid b), b_bytes ''carrierCeremonyId'' (bd_ceremony b), b_bytes ''intentDigest'' (bd_intent b),
      b_bytes ''offerCoreDigest'' (bd_core_digest b), b_bytes ''accountPrincipalDigest'' (bd_principal b),
      b_bytes ''accountScopeId'' (bd_scope b), b_text ''deviceDid'' (bd_device_did b),
      b_bytes ''deviceKeyDigest'' (bd_device_digest b), b_bytes ''legacyKeyDigest'' (bd_legacy_digest b),
      b_bytes ''roomSetDigest'' (bd_room_digest b), b_bytes ''migrationSnapshotDigest'' (bd_snapshot_digest b),
      b_bytes ''snapshotNonce'' (bd_nonce b),
      (CText ''previewIssuerDid'', case bd_preview b of None \<Rightarrow> CNull | Some p \<Rightarrow> CText (pv_did p)),
      (CText ''previewFingerprintDigest'', case bd_preview b of None \<Rightarrow> CNull | Some p \<Rightarrow> CBytes (pv_digest p))]"

definition encode_authority_checkpoint :: "pair_externs \<Rightarrow> bound_authority \<Rightarrow> v2_error + octets" where
  "encode_authority_checkpoint G b =
     and_then (or_schema (cbor_canonical G (CMap (checkpoint_entries b)))) (\<lambda>encoded.
     if encoded = [] \<or> length encoded > MAX_AUTHORITY_CHECKPOINT_BYTES then Inl V2Size else Inr encoded)"

definition decode_preview :: "externs \<Rightarrow> pair_externs \<Rightarrow> (cbor \<times> cbor) list \<Rightarrow> v2_error + preview option" where
  "decode_preview X G entries =
     and_then (optional_text_field entries ''previewIssuerDid'') (\<lambda>did.
     and_then (optional_fixed_field 32 entries ''previewFingerprintDigest'') (\<lambda>digest.
     case (did, digest) of
       (None, None) \<Rightarrow> Inr None
     | (Some d, Some g) \<Rightarrow> and_then (recognise_preview X G d (Some g)) (\<lambda>p. Inr (Some p))
     | _ \<Rightarrow> Inl V2Schema))"

definition CHECKPOINT_FIELDS :: "rust_str list" where
  "CHECKPOINT_FIELDS = [''domain'', ''profileDigest'', ''kid'', ''carrierCeremonyId'', ''intentDigest'', ''offerCoreDigest'',
     ''accountPrincipalDigest'', ''accountScopeId'', ''deviceDid'', ''deviceKeyDigest'', ''legacyKeyDigest'', ''roomSetDigest'',
     ''migrationSnapshotDigest'', ''snapshotNonce'', ''previewIssuerDid'', ''previewFingerprintDigest'']"

definition decode_authority_checkpoint ::
  "externs \<Rightarrow> pair_externs \<Rightarrow> octets \<Rightarrow> application_profile \<Rightarrow> v2_error + bound_authority" where
  "decode_authority_checkpoint X G input P =
     (if input = [] \<or> length input > MAX_AUTHORITY_CHECKPOINT_BYTES then Inl V2Size
      else
      and_then (body_entries G input) (\<lambda>es.
      and_then (exact_fields es CHECKPOINT_FIELDS) (\<lambda>_.
      and_then (expect_text es ''domain'' AUTHORITY_CHECKPOINT_DOMAIN) (\<lambda>_.
      and_then (expect_fixed es ''profileDigest'' (profile_digest P)) (\<lambda>_.
      and_then (text_field es ''kid'') (\<lambda>k.
      and_then (text_field es ''deviceDid'') (\<lambda>device_did.
      if k = [] \<or> length k > 2048 \<or> device_did = [] \<or> length device_did > 512 \<or> \<not> starts_with ''did:key:'' device_did
      then Inl V2Schema
      else
      and_then (fixed_field 32 es ''offerCoreDigest'') (\<lambda>core_digest.
      and_then (fixed_field 32 es ''intentDigest'') (\<lambda>intent.
      if intent \<noteq> intent_digest_of G core_digest then Inl V2Profile
      else
      and_then (decode_preview X G es) (\<lambda>p.
      and_then (fixed_field 32 es ''carrierCeremonyId'') (\<lambda>ceremony.
      and_then (fixed_field 32 es ''accountPrincipalDigest'') (\<lambda>pr.
      and_then (fixed_field 32 es ''accountScopeId'') (\<lambda>scope.
      and_then (fixed_field 32 es ''deviceKeyDigest'') (\<lambda>dk.
      and_then (fixed_field 32 es ''legacyKeyDigest'') (\<lambda>lk.
      and_then (fixed_field 32 es ''roomSetDigest'') (\<lambda>rd.
      and_then (fixed_field 32 es ''migrationSnapshotDigest'') (\<lambda>sd.
      and_then (fixed_field 32 es ''snapshotNonce'') (\<lambda>n.
      Inr \<lparr>bd_profile = P, bd_kid = k, bd_ceremony = ceremony, bd_intent = intent, bd_core_digest = core_digest,
        bd_principal = pr, bd_scope = scope, bd_device_did = device_did, bd_device_digest = dk, bd_legacy_digest = lk,
        bd_room_digest = rd, bd_snapshot_digest = sd, bd_nonce = n, bd_preview = p, bd_payload = None\<rparr>))))))))))))))))))"

definition checkpoint_state :: "pair_externs \<Rightarrow> bound_authority option \<Rightarrow> v2_error + octets" where
  "checkpoint_state G slot = (case slot of None \<Rightarrow> Inr [] | Some b \<Rightarrow> encode_authority_checkpoint G b)"

definition restore_checkpoint_state ::
  "externs \<Rightarrow> pair_externs \<Rightarrow> application_profile option \<Rightarrow> octets \<Rightarrow> bound_authority option \<Rightarrow> v2_error + bound_authority option" where
  "restore_checkpoint_state X G restore_profile state slot =
     (if state = [] then Inr slot
      else
      and_then (ok_or V2Profile restore_profile) (\<lambda>P.
      and_then (decode_authority_checkpoint X G state P) (\<lambda>restored.
      if slot \<noteq> None then Inl V2Phase else Inr (Some restored))))"

end
