(* ===== verification/Pair_Wallet.thy ===== *)
theory Pair_Wallet
  imports Pair_Bodies
begin

text \<open>
  The wallet's side of \<open>credential_v2.rs\<close>: the adapter that verifies the allocator's first offer before the endpoint
  shows it, and the check of a final status against a receipt that only survives as hashes. The endpoint of
  \<open>cbcl_pairing\<close> is a parameter: what it does with an offer, and when its display authority accepts the claims.
\<close>

section \<open>Verifying the first offer\<close>

text \<open>\<open>account_selection\<close> keeps its two levels: nothing sent, a new account, or one scope.\<close>

record wallet_verifier =
  wv_profile :: application_profile
  wv_carrier :: v2_carrier
  wv_transcript_hash :: octets
  wv_body_authority :: bool
  wv_account_selection :: "octets option option"

definition wallet_verifier_new ::
  "application_profile \<Rightarrow> v2_carrier \<Rightarrow> octets \<Rightarrow> offer_error + wallet_verifier" where
  "wallet_verifier_new P ca transcript =
     and_then (selected_descriptor P ca) (\<lambda>_.
     Inr \<lparr>wv_profile = P, wv_carrier = ca, wv_transcript_hash = transcript, wv_body_authority = False,
       wv_account_selection = None\<rparr>)"

definition with_account_selection :: "octets option \<Rightarrow> wallet_verifier \<Rightarrow> wallet_verifier" where
  "with_account_selection selection w = w\<lparr>wv_account_selection := Some selection\<rparr>"

definition with_body_authority :: "wallet_verifier \<Rightarrow> wallet_verifier" where
  "with_body_authority w = w\<lparr>wv_body_authority := True\<rparr>"

text \<open>The parser and the verdict handed to the endpoint: the verified octets only, for the same four facts.\<close>

definition offer_parser :: "recognised_offer \<Rightarrow> octets \<Rightarrow> v2_error + intent_claims" where
  "offer_parser r body = (if body \<noteq> ro_signed_offer r then Inl V2Profile else Inr (ro_claims r))"

definition offer_verdict :: "intent_claims \<Rightarrow> intent_claims \<Rightarrow> v2_error + unit" where
  "offer_verdict peer own =
     (if ic_application_id peer \<noteq> ic_application_id own \<or> ic_https_origin peer \<noteq> ic_https_origin own
        \<or> ic_relay_origin peer \<noteq> ic_relay_origin own \<or> ic_ceremony peer \<noteq> ic_ceremony own
      then Inl V2Profile else Inr ())"

text \<open>
  \<open>intent_authority_ok\<close> is \<open>CredentialV2IntentAuthority::new\<close> with the wallet's trust state; \<open>receive\<close> is
  \<open>receive_offer\<close>, which returns the endpoint it leaves.
\<close>

record ('e, 'adv) offer_endpoint =
  intent_authority_ok :: "intent_claims \<Rightarrow> v2_error option"
  receive :: "'e \<Rightarrow> v2_object \<Rightarrow> intent_claims \<Rightarrow> (octets \<Rightarrow> v2_error + intent_claims)
     \<Rightarrow> (intent_claims \<Rightarrow> intent_claims \<Rightarrow> v2_error + unit) \<Rightarrow> (v2_error + 'adv) \<times> 'e"

definition honours_selection :: "wallet_verifier \<Rightarrow> recognised_offer \<Rightarrow> bool" where
  "honours_selection w r \<longleftrightarrow>
     (case wv_account_selection w of Some (Some selected) \<Rightarrow> ic_scope (ro_claims r) = selected | _ \<Rightarrow> True)"

definition offer_checks ::
  "externs \<Rightarrow> pair_externs \<Rightarrow> wallet_verifier \<Rightarrow> octets \<Rightarrow> nat \<Rightarrow> v2_error + recognised_offer" where
  "offer_checks X G w bytes now =
     and_then (map_err (\<lambda>_. V2Profile) (recognise_signed_offer X G (wv_profile w) bytes)) (\<lambda>r.
     and_then (map_err (\<lambda>_. V2Profile) (selected_descriptor (wv_profile w) (wv_carrier w))) (\<lambda>d.
     and_then (map_err (\<lambda>_. V2Profile) (decode_did_key X (ic_device_did (ro_claims r)))) (\<lambda>allocator_key.
     if ro_profile_digest r \<noteq> profile_digest (wv_profile w) \<or> ro_descriptor_digest r \<noteq> descriptor_digest d
       \<or> ro_carrier_digest r \<noteq> ca_digest (wv_carrier w) \<or> ro_transcript_hash r \<noteq> wv_transcript_hash w
       \<or> ro_expires_at r \<le> now \<or> ic_application_id (ro_claims r) \<noteq> ca_application_context (wv_carrier w)
       \<or> ic_relay_origin (ro_claims r) \<noteq> ca_relay_origin (wv_carrier w)
       \<or> ic_ceremony (ro_claims r) \<noteq> ca_ceremony (wv_carrier w) \<or> ca_allocator_key (wv_carrier w) \<noteq> Some allocator_key
     then Inl V2Profile
     else if \<not> honours_selection w r then Inl V2Profile
     else Inr r)))"

definition verify_offer ::
  "externs \<Rightarrow> pair_externs \<Rightarrow> ('e, 'adv) offer_endpoint \<Rightarrow> wallet_verifier \<Rightarrow> 'e \<Rightarrow> v2_object \<Rightarrow> nat \<Rightarrow> bound_authority option
   \<Rightarrow> (v2_error + 'adv) \<times> 'e \<times> bound_authority option" where
  "verify_offer X G E w endpoint obj now slot =
     (case offer_checks X G w (obj_body obj) now of
        Inl e \<Rightarrow> (Inl e, endpoint, slot)
      | Inr r \<Rightarrow>
          (case intent_authority_ok E (ro_claims r) of
             Some e \<Rightarrow> (Inl e, endpoint, slot)
           | None \<Rightarrow>
               (case receive E endpoint obj (ro_claims r) (offer_parser r) offer_verdict of
                  (Inl e, endpoint') \<Rightarrow> (Inl e, endpoint', slot)
                | (Inr adv, endpoint') \<Rightarrow>
                    if wv_body_authority w
                    then (case bind_offer G (wv_profile w) r slot of
                            Inl e \<Rightarrow> (Inl e, endpoint', slot)
                          | Inr slot' \<Rightarrow> (Inr adv, endpoint', slot'))
                    else (Inr adv, endpoint', slot))))"

section \<open>A receipt kept as hashes\<close>

definition retained_status_input :: "recognised_offer \<Rightarrow> octets \<Rightarrow> octets \<Rightarrow> rust_str \<Rightarrow> octets \<Rightarrow> nat \<Rightarrow> final_status_input" where
  "retained_status_input r payload_digest gid issuer_did commitment t =
     (let c = ro_claims r in
      \<lparr>fi_application_id = ic_application_id c, fi_ceremony = ic_ceremony c, fi_request_id = ro_request_id r,
       fi_principal = ic_principal c, fi_scope = ic_scope c, fi_device_did = ic_device_did c, fi_core_digest = ic_core_digest c,
       fi_payload_digest = payload_digest, fi_grant_id = gid, fi_issuer_did = issuer_did, fi_commitment = commitment,
       fi_finalized_at = t\<rparr>)"

definition recognise_final_status_for_retained_receipt ::
  "externs \<Rightarrow> pair_externs \<Rightarrow> application_profile \<Rightarrow> rust_str \<Rightarrow> octets \<Rightarrow> octets \<Rightarrow> octets \<Rightarrow> octets \<times> octets \<Rightarrow> nat
   \<Rightarrow> offer_error + unit" where
  "recognise_final_status_for_retained_receipt X G P jws expected_digest signed_offer commitment receipt_binding finalized_at =
     and_then (status_candidate X jws) (\<lambda>candidate.
     and_then (recognise_signed_offer X G P signed_offer) (\<lambda>r.
     let intent = intent_digest_of G (ic_core_digest (ro_claims r)) in
     and_then (j_fixed X 32 candidate ''payloadDigest'') (\<lambda>payload_digest.
     and_then (refuse_err (recovered_receipt_object X G intent (ic_ceremony (ro_claims r)) payload_digest
         \<lparr>rc_jws = jws, rc_status_digest = expected_digest\<rparr>)) (\<lambda>receipt.
     if obj_intent receipt \<noteq> fst receipt_binding \<or> content_hash_of G receipt \<noteq> snd receipt_binding then Inl OfferRefused
     else
     and_then (j_fixed X 32 candidate ''grantId'') (\<lambda>gid.
     and_then (j_text candidate ''issuerDid'') (\<lambda>issuer_did.
     recognise_final_status X G P jws expected_digest
       (retained_status_input r payload_digest gid issuer_did commitment finalized_at) (ro_kid r)))))))"

section \<open>Lemmas\<close>

lemma honours_iff:
  "honours_selection w r \<longleftrightarrow> (\<forall>selected. wv_account_selection w = Some (Some selected) \<longrightarrow> ic_scope (ro_claims r) = selected)"
  by (auto simp: honours_selection_def split: option.splits)

lemma offer_checks_iff:
  "offer_checks X G w bytes now = Inr r \<longleftrightarrow>
     recognise_signed_offer X G (wv_profile w) bytes = Inr r
     \<and> (\<exists>d key. selected_descriptor (wv_profile w) (wv_carrier w) = Inr d \<and> ro_descriptor_digest r = descriptor_digest d
         \<and> usable_key X key \<and> ic_device_did (ro_claims r) = encode_did_key key \<and> ca_allocator_key (wv_carrier w) = Some key)
     \<and> ro_profile_digest r = profile_digest (wv_profile w) \<and> ro_carrier_digest r = ca_digest (wv_carrier w)
     \<and> ro_transcript_hash r = wv_transcript_hash w \<and> now < ro_expires_at r
     \<and> ic_application_id (ro_claims r) = ca_application_context (wv_carrier w)
     \<and> ic_relay_origin (ro_claims r) = ca_relay_origin (wv_carrier w) \<and> ic_ceremony (ro_claims r) = ca_ceremony (wv_carrier w)
     \<and> honours_selection w r" (is "?l \<longleftrightarrow> ?r")
proof
  assume ?l
  then show ?r unfolding offer_checks_def
    by (auto simp: res_iff did_key.dec_Inr_iff not_le)
next
  assume ?r
  then show ?l unfolding offer_checks_def
    by (auto simp: did_key.dec_Inr_iff res_iff not_le)
qed

lemma verify_offer_accepts:
  "verify_offer X G E w endpoint obj now slot = (Inr adv, endpoint', slot') \<longleftrightarrow>
     (\<exists>r. offer_checks X G w (obj_body obj) now = Inr r \<and> intent_authority_ok E (ro_claims r) = None
        \<and> receive E endpoint obj (ro_claims r) (offer_parser r) offer_verdict = (Inr adv, endpoint')
        \<and> (if wv_body_authority w then bind_offer G (wv_profile w) r slot = Inr slot' else slot' = slot))"
  unfolding verify_offer_def by (auto split: sum.splits option.splits prod.splits)

lemma offer_checks_refused:
  "offer_checks X G w (obj_body obj) now = Inl e \<Longrightarrow> verify_offer X G E w endpoint obj now slot = (Inl e, endpoint, slot)"
  by (simp add: verify_offer_def)

lemma parser_only_verified: "offer_parser r body = Inr c \<longleftrightarrow> body = ro_signed_offer r \<and> c = ro_claims r"
  by (auto simp: offer_parser_def)

lemma retained_receipt_iff:
  "recognise_final_status_for_retained_receipt X G P jws g so commitment binding t = Inr u \<longleftrightarrow>
     (\<exists>candidate r pd obj gid iss. status_candidate X jws = Inr candidate \<and> recognise_signed_offer X G P so = Inr r
        \<and> j_fixed X 32 candidate ''payloadDigest'' = Inr pd \<and> j_fixed X 32 candidate ''grantId'' = Inr gid
        \<and> j_text candidate ''issuerDid'' = Inr iss
        \<and> recovered_receipt_object X G (intent_digest_of G (ic_core_digest (ro_claims r))) (ic_ceremony (ro_claims r)) pd
             \<lparr>rc_jws = jws, rc_status_digest = g\<rparr> = Inr obj
        \<and> binding = (obj_intent obj, content_hash_of G obj)
        \<and> recognise_final_status X G P jws g (retained_status_input r pd gid iss commitment t) (ro_kid r) = Inr ())"
  unfolding recognise_final_status_for_retained_receipt_def Let_def by (cases binding) (auto simp: res_iff)

section \<open>A concrete wallet\<close>

definition sample_wallet :: wallet_verifier where
  "sample_wallet = \<lparr>wv_profile = sample_v2_profile, wv_carrier = sample_v2_carrier, wv_transcript_hash = replicate 64 CHR ''t'',
     wv_body_authority = True, wv_account_selection = Some (Some (replicate 32 CHR ''s''))\<rparr>"

abbreviation sample_view :: recognised_offer where
  "sample_view \<equiv> prepared_view sample_v2_profile sample_v2_carrier sample_v2_input (hd (cbcl_pairing_relays sample_v2_profile))
     sample_prepared ''D'' ''k''"

text \<open>An endpoint that counts the offers it shows and advises with what its parser reads.\<close>

definition counting_endpoint :: "(nat, intent_claims) offer_endpoint" where
  "counting_endpoint = \<lparr>intent_authority_ok = \<lambda>_. None, receive = \<lambda>n obj own parse verdict.
     (case parse (obj_body obj) of Inl e \<Rightarrow> (Inl e, n)
      | Inr peer \<Rightarrow> (case verdict peer own of Inl e \<Rightarrow> (Inl e, n) | Inr _ \<Rightarrow> (Inr peer, Suc n)))\<rparr>"

definition wallet_object :: v2_object where
  "wallet_object = \<lparr>obj_kind = OfferKind, obj_intent = replicate 32 CHR ''i'', obj_body = ''D''\<rparr>"

lemma sample_wallet_offer:
  "recognise_signed_offer sample_externs sample_pair (wv_profile sample_wallet) (obj_body wallet_object) = Inr sample_view"
  using sample_offer_recognised by (simp add: sample_wallet_def wallet_object_def)

lemma sample_shown:
  "receive counting_endpoint 0 wallet_object (ro_claims sample_view) (offer_parser sample_view) offer_verdict =
     (Inr (ro_claims sample_view), 1)"
  by (simp add: counting_endpoint_def wallet_object_def offer_parser_def offer_verdict_def prepared_view_def)

lemma sample_wallet_facts:
  "selected_descriptor (wv_profile sample_wallet) (wv_carrier sample_wallet) = Inr (hd (cbcl_pairing_relays sample_v2_profile))"
  "ro_descriptor_digest sample_view = descriptor_digest (hd (cbcl_pairing_relays sample_v2_profile))"
  "usable_key sample_externs (replicate 32 CHR ''v'')"
  "ic_device_did (ro_claims sample_view) = encode_did_key (replicate 32 CHR ''v'')"
  "ca_allocator_key (wv_carrier sample_wallet) = Some (replicate 32 CHR ''v'')"
  "ro_profile_digest sample_view = profile_digest (wv_profile sample_wallet)"
  "ro_carrier_digest sample_view = ca_digest (wv_carrier sample_wallet)"
  "ro_transcript_hash sample_view = wv_transcript_hash sample_wallet" "1599 < ro_expires_at sample_view"
  "ic_application_id (ro_claims sample_view) = ca_application_context (wv_carrier sample_wallet)"
  "ic_relay_origin (ro_claims sample_view) = ca_relay_origin (wv_carrier sample_wallet)"
  "ic_ceremony (ro_claims sample_view) = ca_ceremony (wv_carrier sample_wallet)"
  "honours_selection sample_wallet sample_view" "intent_authority_ok counting_endpoint (ro_claims sample_view) = None"
  using sample_selected sample_laws(3) [of "CHR ''v''"]
  by (simp_all add: sample_wallet_def honours_selection_def prepared_view_def prepared_claims_def sample_prepared_def counting_endpoint_def)
    (simp_all add: sample_v2_input_def sample_v2_carrier_def sample_v2_profile_def)

lemma sample_expiry: "ro_expires_at sample_view = 1600"
  by (simp add: prepared_view_def sample_v2_input_def)

lemma sample_wallet_binds:
  "\<exists>b. bind_offer sample_pair (wv_profile sample_wallet) sample_view None = Inr (Some b)"
  by (simp add: bind_offer_def sample_wallet_def prepared_view_def prepared_claims_def Let_def)

section \<open>Properties\<close>

text \<open>
  C39. A wallet shows an offer, and binds the attempt to it, exactly when the offer is recognised under the
  fetched profile and is this attempt's: the profile's digest and selected descriptor, the carrier's digest,
  application, relay, ceremony and allocator key, the transcript, a deadline still ahead and the account the wallet
  selected, if it selected one. An offer that fails a check reaches neither the endpoint nor the slot.
\<close>

theorem wallet_offer_bound:
  "(verify_offer X G E w endpoint obj now slot = (Inr adv, endpoint', slot') \<longleftrightarrow>
     (\<exists>r d key. recognise_signed_offer X G (wv_profile w) (obj_body obj) = Inr r
        \<and> selected_descriptor (wv_profile w) (wv_carrier w) = Inr d \<and> ro_descriptor_digest r = descriptor_digest d
        \<and> usable_key X key \<and> ic_device_did (ro_claims r) = encode_did_key key \<and> ca_allocator_key (wv_carrier w) = Some key
        \<and> ro_profile_digest r = profile_digest (wv_profile w) \<and> ro_carrier_digest r = ca_digest (wv_carrier w)
        \<and> ro_transcript_hash r = wv_transcript_hash w \<and> now < ro_expires_at r
        \<and> ic_application_id (ro_claims r) = ca_application_context (wv_carrier w)
        \<and> ic_relay_origin (ro_claims r) = ca_relay_origin (wv_carrier w) \<and> ic_ceremony (ro_claims r) = ca_ceremony (wv_carrier w)
        \<and> (\<forall>selected. wv_account_selection w = Some (Some selected) \<longrightarrow> ic_scope (ro_claims r) = selected)
        \<and> intent_authority_ok E (ro_claims r) = None
        \<and> receive E endpoint obj (ro_claims r) (offer_parser r) offer_verdict = (Inr adv, endpoint')
        \<and> (if wv_body_authority w then bind_offer G (wv_profile w) r slot = Inr slot' else slot' = slot)))
   \<and> (isl (offer_checks X G w (obj_body obj) now) \<longrightarrow> snd (verify_offer X G E w endpoint obj now slot) = (endpoint, slot))"
proof (intro conjI impI)
  assume "isl (offer_checks X G w (obj_body obj) now)"
  then show "snd (verify_offer X G E w endpoint obj now slot) = (endpoint, slot)"
    by (auto simp: isl_def offer_checks_refused)
qed (unfold verify_offer_accepts offer_checks_iff honours_iff, blast)

text \<open>The last second at which the sample offer is shown, and the first at which it is not.\<close>

theorem wallet_offer_bound_witness:
  "(\<exists>b. verify_offer sample_externs sample_pair counting_endpoint sample_wallet 0 wallet_object 1599 None =
      (Inr (ro_claims sample_view), 1, Some b))
   \<and> snd (verify_offer sample_externs sample_pair counting_endpoint sample_wallet 0 wallet_object 1600 None) = (0, None)"
proof
  obtain b where b: "bind_offer sample_pair (wv_profile sample_wallet) sample_view None = Inr (Some b)"
    using sample_wallet_binds by blast
  show "\<exists>b. verify_offer sample_externs sample_pair counting_endpoint sample_wallet 0 wallet_object 1599 None =
      (Inr (ro_claims sample_view), 1, Some b)"
  proof (intro exI, rule iffD2 [OF conjunct1 [OF wallet_offer_bound]], intro exI conjI)
    show "if wv_body_authority sample_wallet then bind_offer sample_pair (wv_profile sample_wallet) sample_view None = Inr (Some b)
      else Some b = None"
      using b by (simp add: sample_wallet_def)
  qed (rule sample_wallet_offer sample_wallet_facts [unfolded honours_iff] sample_shown)+
next
  have "isl (offer_checks sample_externs sample_pair sample_wallet (obj_body wallet_object) 1600)"
  proof (cases "offer_checks sample_externs sample_pair sample_wallet (obj_body wallet_object) 1600")
    case (Inr r)
    then have "recognise_signed_offer sample_externs sample_pair (wv_profile sample_wallet) (obj_body wallet_object) = Inr r"
      "1600 < ro_expires_at r" unfolding offer_checks_iff by blast+
    with sample_wallet_offer sample_expiry show ?thesis by (metis less_irrefl sum.inject(2))
  qed simp
  then show "snd (verify_offer sample_externs sample_pair counting_endpoint sample_wallet 0 wallet_object 1600 None) = (0, None)"
    by (rule mp [OF conjunct2 [OF wallet_offer_bound]])
qed

text \<open>The deadline is exclusive: at the second an offer expires no wallet shows it.\<close>

lemma expired_offer_refused:
  assumes "recognise_signed_offer X G (wv_profile w) (obj_body obj) = Inr r" "ro_expires_at r \<le> now"
  shows "isl (fst (verify_offer X G E w endpoint obj now slot))"
proof -
  have "isl (offer_checks X G w (obj_body obj) now)"
  proof (cases "offer_checks X G w (obj_body obj) now")
    case (Inr r')
    with assms show ?thesis by (simp add: offer_checks_iff)
  qed simp
  then show ?thesis by (auto simp: isl_def offer_checks_refused)
qed

end
