(* ===== verification/Pair_Attempt.thy ===== *)
theory Pair_Attempt
  imports Pair_Bodies
begin

text \<open>
  What the operations of \<open>Pair_Bodies\<close> keep: the facts an attempt retains are consistent and never change, both ends
  of an attempt go through the same slots, and a checkpoint restores the authority it was taken of.
\<close>

section \<open>Fields of a map with distinct keys\<close>

lemma v_field_mem:
  assumes "distinct (map fst es)" "(CText name, v) \<in> set es"
  shows "v_field es name = Inr v"
proof -
  have "filter (\<lambda>(k, w). cbor_as_text k = Some name) es = [(CText name, v)]"
    using assms
  proof (induction es)
    case (Cons e es)
    show ?case
    proof (cases "e = (CText name, v)")
      case True
      with Cons.prems(1) have "filter (\<lambda>(k, w). cbor_as_text k = Some name) es = []"
        by (auto simp: filter_empty_conv cbor_as_iff image_iff)
      with True show ?thesis by simp
    next
      case False
      with Cons.prems have "(CText name, v) \<in> set es" "fst e \<noteq> CText name" by force+
      with Cons.IH Cons.prems(1) show ?thesis by (simp add: case_prod_beta cbor_as_iff)
    qed
  qed simp
  then show ?thesis by (simp add: v_field_def)
qed

text \<open>The entries of a body read back: those of the list, in some order.\<close>

definition entries_of :: "(cbor \<times> cbor) list \<Rightarrow> (cbor \<times> cbor) list \<Rightarrow> bool" where
  "entries_of es ms \<longleftrightarrow> distinct (map fst es) \<and> length es = length ms \<and> set es = set ms"

lemma entries_of_text: "entries_of es ms \<Longrightarrow> b_text n t \<in> set ms \<Longrightarrow> text_field es n = Inr t"
  by (simp add: entries_of_def text_field_def b_text_def v_field_mem)

lemma entries_of_bytes: "entries_of es ms \<Longrightarrow> b_bytes n t \<in> set ms \<Longrightarrow> bytes_field es n = Inr t"
  by (simp add: entries_of_def bytes_field_def b_bytes_def v_field_mem)

lemma entries_of_fixed: "entries_of es ms \<Longrightarrow> b_bytes n t \<in> set ms \<Longrightarrow> length t = k \<Longrightarrow> fixed_field k es n = Inr t"
  by (simp add: entries_of_def fixed_field_def b_bytes_def v_field_mem)

lemma entries_of_expect:
  "entries_of es ms \<Longrightarrow> b_text n t \<in> set ms \<Longrightarrow> expect_text es n t = Inr ()"
  "entries_of es ms \<Longrightarrow> b_bytes n b \<in> set ms \<Longrightarrow> expect_fixed es n b = Inr ()"
  by (simp_all add: expect_text_def expect_fixed_def entries_of_text entries_of_fixed)

lemma entries_of_exact:
  assumes "entries_of es ms" "length ms = length names" "\<forall>n \<in> set names. CText n \<in> fst ` set ms"
  shows "exact_fields es names = Inr ()"
proof -
  have "\<not> isl (v_field es n)" if "n \<in> set names" for n
  proof -
    from assms(3) that obtain v where "(CText n, v) \<in> set ms" by fastforce
    then show ?thesis using v_field_mem [of es n v] assms(1) by (simp add: entries_of_def)
  qed
  then show ?thesis using assms(1,2) by (auto simp: exact_fields_def entries_of_def list_ex_iff)
qed

lemma body_entries_map:
  assumes "cbor_law G" "cbor_canonical G (CMap ms) = Some b" "distinct (map fst ms)" "list_all (\<lambda>(k, v). map_free k \<and> map_free v) ms"
  obtains es where "body_entries G b = Inr es" "entries_of es ms"
proof -
  from cbor_law_map [OF assms] obtain es where es: "mset es = mset ms" "cbor_read G b = Some (CMap es, length b)"
    "cbor_canonical G (CMap es) = Some b" by blast
  have "mset (map fst es) = mset (map fst ms)" using es(1) by simp
  then have "distinct (map fst es)" using assms(3) mset_eq_imp_distinct_iff by blast
  then have "entries_of es ms" using mset_eq_setD [OF es(1)] mset_eq_length [OF es(1)] by (simp add: entries_of_def)
  then show ?thesis using es by (intro that [of es]) (simp_all add: body_entries_def)
qed

text \<open>Names are what distinguishes the members of a body.\<close>

lemma member_simps [simp]:
  "fst (b_bytes n b) = CText n" "fst (b_text n t) = CText n"
  "map_free (snd (b_bytes n b))" "map_free (snd (b_text n t))"
  by (simp_all add: b_bytes_def b_text_def)

lemma built_object:
  assumes C: "cbor_law G" and O': "object_law G" and b: "build_object G b predecessor kind ms = Inr obj"
    and d: "distinct (map fst ms @ [CText ''carrierCeremonyId'', CText ''predecessorDigest''])"
    and m: "list_all (\<lambda>e. map_free (fst e) \<and> map_free (snd e)) ms"
  obtains es where "obj_kind obj = kind" "obj_intent obj = bd_intent b" "body_entries G (obj_body obj) = Inr es"
    "entries_of es (ms @ [b_bytes ''carrierCeremonyId'' (bd_ceremony b), b_bytes ''predecessorDigest'' (content_hash_of G predecessor)])"
proof -
  let ?ms = "ms @ [b_bytes ''carrierCeremonyId'' (bd_ceremony b), b_bytes ''predecessorDigest'' (content_hash_of G predecessor)]"
  from b obtain bytes where e: "cbor_canonical G (CMap ?ms) = Some bytes" and n: "object_new G kind (bd_intent b) bytes = Inr obj"
    by (auto simp: build_object_def res_iff)
  have "distinct (map fst ?ms)" using d by simp
  moreover have "list_all (\<lambda>(k, v). map_free k \<and> map_free v) ?ms" using m by (simp add: case_prod_beta')
  ultimately obtain es where "body_entries G bytes = Inr es" "entries_of es ?ms"
    using body_entries_map [OF C e] by blast
  then show ?thesis using object_lawD [OF O' n] that by blast
qed

section \<open>Consistent authorities\<close>

definition preview_ok :: "externs \<Rightarrow> pair_externs \<Rightarrow> preview \<Rightarrow> bool" where
  "preview_ok X G p \<longleftrightarrow> recognise_preview X G (pv_did p) (Some (pv_digest p)) = Inr p"

definition payload_ok :: "externs \<Rightarrow> bound_authority \<Rightarrow> retained_payload \<Rightarrow> bool" where
  "payload_ok X b r \<longleftrightarrow> (\<exists>p. bd_preview b = Some p \<and> rp_preview_did r = pv_did p \<and> rp_preview_digest r = pv_digest p
     \<and> body_migration_digest X b p = Inr (rp_confirmation r))
     \<and> rp_offer_core_digest r = bd_core_digest b \<and> rp_principal r = bd_principal b \<and> rp_scope r = bd_scope b
     \<and> rp_device_did r = bd_device_did b \<and> valid_compact_jws (rp_grant r) \<and> length (rp_grant r) \<le> 49152"

definition bound_ok :: "externs \<Rightarrow> pair_externs \<Rightarrow> bound_authority \<Rightarrow> bool" where
  "bound_ok X G b \<longleftrightarrow>
     list_all (\<lambda>d. length d = 32) [bd_ceremony b, bd_core_digest b, bd_principal b, bd_scope b, bd_device_digest b,
       bd_legacy_digest b, bd_room_digest b, bd_snapshot_digest b, bd_nonce b]
     \<and> bd_intent b = intent_digest_of G (bd_core_digest b)
     \<and> (\<forall>p. bd_preview b = Some p \<longrightarrow> preview_ok X G p) \<and> (\<forall>r. bd_payload b = Some r \<longrightarrow> payload_ok X b r)"

text \<open>What one authority keeps of another: the offer's facts, and whatever preview and payload it had.\<close>

definition extends :: "bound_authority \<Rightarrow> bound_authority \<Rightarrow> bool" where
  "extends b b' \<longleftrightarrow> (\<exists>q r. b' = b\<lparr>bd_preview := q, bd_payload := r\<rparr> \<and> (bd_preview b \<noteq> None \<longrightarrow> q = bd_preview b)
     \<and> (bd_payload b \<noteq> None \<longrightarrow> r = bd_payload b))"

lemma extends_refl [simp]: "extends b b"
  unfolding extends_def by (intro exI [of _ "bd_preview b"] exI [of _ "bd_payload b"]) simp

lemma extends_trans: "extends a b \<Longrightarrow> extends b c \<Longrightarrow> extends a c"
  unfolding extends_def by (elim exE conjE) (intro exI conjI; force)

lemma recognise_preview_ok: "recognise_preview X G did c = Inr p \<Longrightarrow> preview_ok X G p \<and> pv_did p = did \<and> pv_digest p = sha256_digest X did"
  by (auto simp: recognise_preview_def preview_ok_def Let_def res_iff)

lemma retain_preview_ok:
  assumes "retain_preview b p = Inr b'"
  shows "bd_preview b' = Some p \<and> extends b b' \<and> b' = b\<lparr>bd_preview := Some p\<rparr>"
proof (cases "bd_preview b")
  case None
  with assms have "b' = b\<lparr>bd_preview := Some p\<rparr>" by (simp add: retain_preview_def)
  with None show ?thesis unfolding extends_def by (auto intro!: exI [of _ "Some p"] exI [of _ "bd_payload b"])
next
  case (Some q)
  with assms show ?thesis by (auto simp: retain_preview_def split: if_splits)
qed

lemma retain_payload_ok:
  assumes "retain_payload b r = Inr b'"
  shows "bd_payload b' = Some r \<and> extends b b' \<and> b' = b\<lparr>bd_payload := Some r\<rparr>"
proof (cases "bd_payload b")
  case None
  with assms have "b' = b\<lparr>bd_payload := Some r\<rparr>" by (simp add: retain_payload_def)
  with None show ?thesis unfolding extends_def by (auto intro!: exI [of _ "bd_preview b"] exI [of _ "Some r"])
next
  case (Some q)
  with assms show ?thesis by (auto simp: retain_payload_def split: if_splits)
qed

lemma bound_ok_preview: "bound_ok X G b \<Longrightarrow> preview_ok X G p \<Longrightarrow> bd_preview b \<noteq> None \<longrightarrow> bd_preview b = Some p
    \<Longrightarrow> bound_ok X G (b\<lparr>bd_preview := Some p\<rparr>)"
  by (auto simp: bound_ok_def payload_ok_def body_migration_digest_def)

lemma bound_ok_payload: "bound_ok X G b \<Longrightarrow> payload_ok X b r \<Longrightarrow> bound_ok X G (b\<lparr>bd_payload := Some r\<rparr>)"
  by (auto simp: bound_ok_def payload_ok_def body_migration_digest_def)

section \<open>Steps keep an authority consistent\<close>

lemma verify_preparation_ok:
  assumes "verify_preparation X G es b = Inr b'" "bound_ok X G b"
  shows "bound_ok X G b' \<and> extends b b'"
proof -
  from assms(1) obtain p did c where p: "recognise_preview X G did c = Inr p" "retain_preview b p = Inr b'"
    unfolding verify_preparation_def by (auto simp: res_iff)
  note r = retain_preview_ok [OF p(2)]
  have "bd_preview b \<noteq> None \<longrightarrow> bd_preview b = Some p" using p(2) by (auto simp: retain_preview_def split: option.splits if_splits)
  then have "bound_ok X G (b\<lparr>bd_preview := Some p\<rparr>)" by (intro bound_ok_preview assms(2) conjunct1 [OF recognise_preview_ok [OF p(1)]])
  with r show ?thesis by metis
qed

lemma retained_preview_eq: "recognised_retained_preview X G es b = Inr p \<Longrightarrow> bd_preview b = Some p"
  by (auto simp: recognised_retained_preview_def res_iff)

lemma verify_payload_ok:
  assumes "verify_payload X G es b = Inr b'" "bound_ok X G b"
  shows "bound_ok X G b' \<and> extends b b'"
proof -
  from assms(1) obtain p gid grant confirmation where p: "recognised_retained_preview X G es b = Inr p"
    and g: "length grant \<le> 49152" "valid_compact_jws grant" and c: "body_migration_digest X b p = Inr confirmation"
    and r: "retain_payload b \<lparr>rp_offer_core_digest = bd_core_digest b, rp_preview_did = pv_did p, rp_preview_digest = pv_digest p,
       rp_principal = bd_principal b, rp_scope = bd_scope b, rp_device_did = bd_device_did b, rp_grant_id = gid,
       rp_grant = grant, rp_confirmation = confirmation\<rparr> = Inr b'" (is "retain_payload b ?r = _")
    unfolding verify_payload_def by (auto simp: res_iff not_less)
  have "payload_ok X b ?r" using g c retained_preview_eq [OF p] by (simp add: payload_ok_def)
  then have "bound_ok X G (b\<lparr>bd_payload := Some ?r\<rparr>)" by (rule bound_ok_payload [OF assms(2)])
  with retain_payload_ok [OF r] show ?thesis by metis
qed

lemma verify_body_ok:
  assumes "verify_body X G (Some b) body = Inr b'" "bound_ok X G b"
  shows "bound_ok X G b' \<and> extends b b'"
  using assms verify_preparation_ok verify_payload_ok
  unfolding verify_body_def bound_of_def
  by (cases "lb_kind body") (auto simp: res_iff unchanged_def)

lemma restore_received_ok:
  assumes "restore_retained_received_object X G (Some b) obj = Inr b'" "bound_ok X G b"
  shows "bound_ok X G b' \<and> extends b b'"
  using assms verify_preparation_ok verify_payload_ok
  unfolding restore_retained_received_object_def bound_of_def
  by (cases "obj_kind obj") (auto simp: res_iff)

lemma preparation_object_ok:
  assumes "preparation_object X G (Some b) predecessor did = (r, s)" "bound_ok X G b"
  shows "\<exists>b'. s = Some b' \<and> bound_ok X G b' \<and> extends b b'"
proof (cases "\<exists>p b'. recognise_preview X G did None = Inr p \<and> retain_preview b p = Inr b' \<and> s = Some b'")
  case True
  then obtain p b' where p: "recognise_preview X G did None = Inr p" "retain_preview b p = Inr b'" "s = Some b'" by blast
  have "bd_preview b \<noteq> None \<longrightarrow> bd_preview b = Some p" using p(2) by (auto simp: retain_preview_def split: option.splits if_splits)
  then have "bound_ok X G (b\<lparr>bd_preview := Some p\<rparr>)" by (intro bound_ok_preview assms(2) conjunct1 [OF recognise_preview_ok [OF p(1)]])
  with retain_preview_ok [OF p(2)] p(3) show ?thesis by metis
next
  case False
  then have "s = Some b"
    using assms(1) unfolding preparation_object_def bound_of_def by (auto simp: res_iff split: sum.splits)
  with assms(2) show ?thesis by simp
qed

lemma payload_object_ok:
  assumes "payload_object X G (Some b) predecessor gid grant = Inr (obj, s)" "bound_ok X G b"
  shows "\<exists>b'. s = Some b' \<and> bound_ok X G b' \<and> extends b b'"
proof -
  from assms(1) obtain p confirmation b' where p: "bd_preview b = Some p" and g: "length grant \<le> 49152" "valid_compact_jws grant"
    and c: "body_migration_digest X b p = Inr confirmation" and s: "s = Some b'"
    and r: "retain_payload b \<lparr>rp_offer_core_digest = bd_core_digest b, rp_preview_did = pv_did p, rp_preview_digest = pv_digest p,
       rp_principal = bd_principal b, rp_scope = bd_scope b, rp_device_did = bd_device_did b, rp_grant_id = gid,
       rp_grant = grant, rp_confirmation = confirmation\<rparr> = Inr b'" (is "retain_payload b ?r = _")
    unfolding payload_object_def bound_of_def Let_def by (auto simp: res_iff not_less)
  have "payload_ok X b ?r" using g c p by (simp add: payload_ok_def)
  then have "bound_ok X G (b\<lparr>bd_payload := Some ?r\<rparr>)" by (rule bound_ok_payload [OF assms(2)])
  with retain_payload_ok [OF r] s show ?thesis by metis
qed

lemma recognised_lengths:
  assumes B: "base64ct X" and S: "sha2_law X" and r: "recognise_signed_offer X G P bytes = Inr offer"
  shows "length (ic_ceremony (ro_claims offer)) = 32" "length (ic_core_digest (ro_claims offer)) = 32"
    "length (ic_principal (ro_claims offer)) = 32" "length (ic_scope (ro_claims offer)) = 32"
    "length (ic_device_digest (ro_claims offer)) = 32"
    "ic_transition (ro_claims offer) = Some t \<Longrightarrow> length (pt_key_digest t) = 32 \<and> length (pt_room_digest t) = 32
       \<and> length (pt_snapshot_digest t) = 32 \<and> length (pt_nonce t) = 32"
proof -
  from r obtain k core c relay where c: "parse_claims X G P (sha256_digest X c) core relay = Inr (ro_claims offer)"
    unfolding recognise_signed_offer_def recognise_envelope_iff recognise_core_with_envelope_def parse_core_def
    by (auto simp: res_iff recognise_envelope_iff recognise_core_with_envelope_def parse_core_def)
  note q = c [unfolded parse_claims_iff [OF B]]
  show "length (ic_ceremony (ro_claims offer)) = 32" "length (ic_core_digest (ro_claims offer)) = 32"
    "length (ic_principal (ro_claims offer)) = 32" "length (ic_scope (ro_claims offer)) = 32"
    "length (ic_device_digest (ro_claims offer)) = 32"
    using q S by auto
  assume "ic_transition (ro_claims offer) = Some t"
  with q obtain j where "parse_transition X G j = Inr t" by auto
  then show "length (pt_key_digest t) = 32 \<and> length (pt_room_digest t) = 32 \<and> length (pt_snapshot_digest t) = 32 \<and> length (pt_nonce t) = 32"
    unfolding parse_transition_iff [OF B] by blast
qed

lemma bind_offer_ok:
  assumes "base64ct X" "sha2_law X" "recognise_signed_offer X G P bytes = Inr offer" and b: "bind_offer G P offer s = Inr s'"
  shows "\<exists>b. s = None \<and> s' = Some b \<and> bound_ok X G b"
proof -
  note l = recognised_lengths [OF assms(1-3)]
  show ?thesis using b l by (auto simp: bind_offer_def Let_def res_iff bound_ok_def)
qed

lemma restore_checkpoint_ok:
  assumes "restore_checkpoint_state X G rp st s = Inr s'"
  shows "s' = s \<or> (\<exists>b. s = None \<and> s' = Some b \<and> bound_ok X G b)"
proof (cases "st = []")
  case False
  with assms obtain P b where d: "decode_authority_checkpoint X G st P = Inr b" and s: "s = None" "s' = Some b"
    by (auto simp: restore_checkpoint_state_def res_iff)
  have f: "fixed_field 32 es n = Inr v \<Longrightarrow> length v = 32" for es n v by (auto simp: fixed_field_def res_iff)
  have p: "decode_preview X G es = Inr (Some p) \<Longrightarrow> preview_ok X G p" for es p
    by (auto simp: decode_preview_def res_iff dest: recognise_preview_ok split: option.splits)
  have "bound_ok X G b"
    using d unfolding decode_authority_checkpoint_def by (auto simp: res_iff bound_ok_def dest: f p)
  with s show ?thesis by blast
qed (use assms in \<open>simp add: restore_checkpoint_state_def\<close>)

text \<open>Every operation that changes the slot, as a step.\<close>

inductive slot_step :: "externs \<Rightarrow> pair_externs \<Rightarrow> bound_authority option \<Rightarrow> bound_authority option \<Rightarrow> bool" for X G where
  step_bind: "recognise_signed_offer X G P bytes = Inr offer \<Longrightarrow> bind_offer G P offer s = Inr s' \<Longrightarrow> slot_step X G s s'"
| step_preparation: "preparation_object X G s predecessor did = (r, s') \<Longrightarrow> slot_step X G s s'"
| step_payload: "payload_object X G s predecessor gid grant = Inr (obj, s') \<Longrightarrow> slot_step X G s s'"
| step_verify: "verify_body X G s body = Inr b \<Longrightarrow> slot_step X G s (Some b)"
| step_received: "restore_retained_received_object X G s obj = Inr b \<Longrightarrow> slot_step X G s (Some b)"
| step_restore: "restore_checkpoint_state X G profile st s = Inr s' \<Longrightarrow> slot_step X G s s'"

definition slot_ok :: "externs \<Rightarrow> pair_externs \<Rightarrow> bound_authority option \<Rightarrow> bool" where
  "slot_ok X G s \<longleftrightarrow> (\<forall>b. s = Some b \<longrightarrow> bound_ok X G b)"

definition slot_extends :: "bound_authority option \<Rightarrow> bound_authority option \<Rightarrow> bool" where
  "slot_extends s s' \<longleftrightarrow> (\<forall>b. s = Some b \<longrightarrow> (\<exists>b'. s' = Some b' \<and> extends b b'))"

lemma slot_step_ok:
  assumes "base64ct X" "sha2_law X" "slot_step X G s s'" "slot_ok X G s"
  shows "slot_ok X G s' \<and> slot_extends s s'"
  using assms(3)
proof cases
  case (step_bind P bytes offer)
  with bind_offer_ok [OF assms(1,2)] show ?thesis by (fastforce simp: slot_ok_def slot_extends_def)
next
  case (step_preparation predecessor did r)
  then show ?thesis
  proof (cases s)
    case None
    with step_preparation have "s' = None" by (auto simp: preparation_object_def bound_of_def res_iff split: sum.splits)
    with None show ?thesis by (simp add: slot_ok_def slot_extends_def)
  next
    case (Some b)
    with step_preparation preparation_object_ok assms(4) show ?thesis by (fastforce simp: slot_ok_def slot_extends_def)
  qed
next
  case (step_payload predecessor gid grant obj)
  then obtain b where "s = Some b" by (auto simp: payload_object_def bound_of_def res_iff)
  with step_payload payload_object_ok assms(4) show ?thesis by (fastforce simp: slot_ok_def slot_extends_def)
next
  case (step_verify body b)
  then obtain b0 where "s = Some b0" by (auto simp: verify_body_def bound_of_def res_iff)
  with step_verify verify_body_ok assms(4) show ?thesis by (fastforce simp: slot_ok_def slot_extends_def)
next
  case (step_received obj b)
  then obtain b0 where "s = Some b0" by (auto simp: restore_retained_received_object_def bound_of_def res_iff)
  with step_received restore_received_ok assms(4) show ?thesis by (fastforce simp: slot_ok_def slot_extends_def)
next
  case (step_restore profile st)
  with restore_checkpoint_ok assms(4) show ?thesis by (fastforce simp: slot_ok_def slot_extends_def)
qed

lemma slot_steps_ok:
  assumes "base64ct X" "sha2_law X" "(slot_step X G)\<^sup>*\<^sup>* s s'" "slot_ok X G s"
  shows "slot_ok X G s' \<and> slot_extends s s'"
  using assms(3)
proof (induction rule: rtranclp_induct)
  case base
  show ?case using assms(4) by (simp add: slot_extends_def)
next
  case (step t u)
  then have "slot_ok X G u \<and> slot_extends t u" using slot_step_ok [OF assms(1,2)] by blast
  with step.IH show ?case by (auto simp: slot_extends_def) (meson extends_trans)
qed

section \<open>Both ends in step\<close>

text \<open>One end builds a successor: the object it sends and the authority it holds afterwards.\<close>

inductive builds :: "externs \<Rightarrow> pair_externs \<Rightarrow> bound_authority \<Rightarrow> v2_object \<Rightarrow> bound_authority \<Rightarrow> bool" for X G where
  build_intent: "intent_decision_object G (Some b) predecessor d = Inr obj \<Longrightarrow> builds X G b obj b"
| build_preparation: "preparation_object X G (Some b) predecessor did = (Inr obj, Some b') \<Longrightarrow> builds X G b obj b'"
| build_comparison: "comparison_object X G (Some b) predecessor response = Inr obj \<Longrightarrow> builds X G b obj b"
| build_final: "final_decision_object G (Some b) predecessor fd = Inr obj \<Longrightarrow> builds X G b obj b"
| build_refusal: "refusal_object G (Some b) predecessor reason = Inr obj \<Longrightarrow> builds X G b obj b"
| build_payload: "length gid = 32 \<Longrightarrow> payload_object X G (Some b) predecessor gid grant = Inr (obj, Some b') \<Longrightarrow> builds X G b obj b'"
| build_receipt: "receipt_object X G (Some b) predecessor i = Inr obj \<Longrightarrow> builds X G b obj b"

definition body_of :: "bound_authority \<Rightarrow> v2_object \<Rightarrow> logical_body" where
  "body_of b obj = \<lparr>lb_ceremony = bd_ceremony b, lb_kind = obj_kind obj, lb_bytes = obj_body obj\<rparr>"

lemma verify_body_entries:
  "body_entries G (obj_body obj) = Inr es \<Longrightarrow> verify_body X G (Some b) (body_of b obj) = Inr b' \<longleftrightarrow>
     (case obj_kind obj of
       IntentApprove \<Rightarrow> unchanged b (verify_intent_decision es b ''approve'')
     | IntentDecline \<Rightarrow> unchanged b (verify_intent_decision es b ''decline'')
     | Preparation \<Rightarrow> verify_preparation X G es b
     | ComparisonConfirmed \<Rightarrow> unchanged b (verify_comparison X G es b ComparisonConfirmed)
     | BindingConfirmed \<Rightarrow> unchanged b (verify_comparison X G es b BindingConfirmed)
     | RefusalKind \<Rightarrow> unchanged b (verify_refusal es)
     | FinalApprove \<Rightarrow> unchanged b (verify_final X G es b ''approve'')
     | FinalDecline \<Rightarrow> unchanged b (verify_final X G es b ''decline'')
     | PayloadKind \<Rightarrow> verify_payload X G es b
     | ReceiptKind \<Rightarrow> unchanged b (verify_receipt X es)
     | OfferKind \<Rightarrow> Inl V2Schema
     | AccountSelect \<Rightarrow> Inl V2Schema) = Inr b'"
  by (simp add: verify_body_def bound_of_def body_of_def)

lemma preview_recognised:
  assumes S: "sha2_law X" and "bd_preview b = Some p" "preview_ok X G p" "text_field es ''previewIssuerDid'' = Inr (pv_did p)"
    "\<And>k. length (pv_digest p) = k \<Longrightarrow> fixed_field k es ''previewFingerprintDigest'' = Inr (pv_digest p)"
  shows "recognised_retained_preview X G es b = Inr p" "fixed_field 32 es ''previewFingerprintDigest'' = Inr (pv_digest p)"
proof -
  have "length (pv_digest p) = 32" using assms(1,3) by (auto simp: preview_ok_def dest!: recognise_preview_ok)
  then show f: "fixed_field 32 es ''previewFingerprintDigest'' = Inr (pv_digest p)" by (rule assms(5))
  show "recognised_retained_preview X G es b = Inr p"
    using assms(2-4) f by (simp add: recognised_retained_preview_def preview_ok_def)
qed

lemma verify_intent_built:
  assumes C: "cbor_law G" "object_law G" and b: "intent_decision_object G (Some b) predecessor d = Inr obj"
  shows "verify_body X G (Some b) (body_of b obj) = Inr b"
proof -
  obtain kind name where k: "(case d of ApproveIntent \<Rightarrow> (IntentApprove, ''approve'') | DeclineIntent \<Rightarrow> (IntentDecline, ''decline'')) = (kind, name)"
    "kind = IntentApprove \<and> name = ''approve'' \<or> kind = IntentDecline \<and> name = ''decline''" by (cases d) auto
  from b k(1) have "build_object G b predecessor kind [b_bytes ''offerCoreDigest'' (bd_core_digest b), b_text ''decision'' name] = Inr obj"
    by (auto simp: intent_decision_object_def bound_of_def res_iff)
  from built_object [OF C this] obtain es where o': "obj_kind obj = kind" "body_entries G (obj_body obj) = Inr es"
    and es: "entries_of es ([b_bytes ''offerCoreDigest'' (bd_core_digest b), b_text ''decision'' name] @
      [b_bytes ''carrierCeremonyId'' (bd_ceremony b), b_bytes ''predecessorDigest'' (content_hash_of G predecessor)])"
    by auto
  have x: "exact_fields es (PRED @ [''offerCoreDigest'', ''decision'']) = Inr ()" by (rule entries_of_exact [OF es]) simp_all
  have e: "expect_fixed es ''offerCoreDigest'' (bd_core_digest b) = Inr ()" "expect_text es ''decision'' name = Inr ()"
    by (simp_all add: entries_of_expect [OF es])
  show ?thesis
    using k(2) x e unfolding verify_body_entries [OF o'(2)] by (auto simp: o'(1) unchanged_def verify_intent_decision_def)
qed

lemma verify_refusal_built:
  assumes C: "cbor_law G" "object_law G" and b: "refusal_object G (Some b) predecessor reason = Inr obj"
  shows "verify_body X G (Some b) (body_of b obj) = Inr b"
proof -
  from b have "build_object G b predecessor RefusalKind [b_text ''reason'' (reason_str reason)] = Inr obj"
    by (auto simp: refusal_object_def bound_of_def res_iff)
  from built_object [OF C this] obtain es where o': "obj_kind obj = RefusalKind" "body_entries G (obj_body obj) = Inr es"
    and es: "entries_of es ([b_text ''reason'' (reason_str reason)] @
      [b_bytes ''carrierCeremonyId'' (bd_ceremony b), b_bytes ''predecessorDigest'' (content_hash_of G predecessor)])"
    by auto
  have x: "exact_fields es (PRED @ [''reason'']) = Inr ()" by (rule entries_of_exact [OF es]) simp_all
  have e: "text_field es ''reason'' = Inr (reason_str reason)" by (simp add: entries_of_text [OF es])
  have r: "recognise_reason (reason_str reason) = Inr reason" by (cases reason) (simp_all add: recognise_reason_def)
  show ?thesis
    unfolding verify_body_entries [OF o'(2)] using x e r by (simp add: o'(1) unchanged_def verify_refusal_def)
qed

lemma verify_receipt_built:
  assumes C: "cbor_law G" "object_law G" and b: "receipt_object X G (Some b) predecessor i = Inr obj"
  shows "verify_body X G (Some b) (body_of b obj) = Inr b"
proof -
  from b have ok: "receipt_ok X i = Inr ()"
    and "build_object G b predecessor ReceiptKind [b_text ''finalStatusJws'' (rc_jws i), b_bytes ''finalStatusDigest'' (rc_status_digest i)] = Inr obj"
    by (auto simp: receipt_object_def bound_of_def res_iff)
  from built_object [OF C this(2)] obtain es where o': "obj_kind obj = ReceiptKind" "body_entries G (obj_body obj) = Inr es"
    and es: "entries_of es ([b_text ''finalStatusJws'' (rc_jws i), b_bytes ''finalStatusDigest'' (rc_status_digest i)] @
      [b_bytes ''carrierCeremonyId'' (bd_ceremony b), b_bytes ''predecessorDigest'' (content_hash_of G predecessor)])"
    by auto
  have x: "exact_fields es (PRED @ [''finalStatusJws'', ''finalStatusDigest'']) = Inr ()" by (rule entries_of_exact [OF es]) simp_all
  have e: "text_field es ''finalStatusJws'' = Inr (rc_jws i)" "expect_fixed es ''finalStatusDigest'' (rc_status_digest i) = Inr ()"
    by (simp_all add: entries_of_text [OF es] entries_of_expect [OF es])
  have "verify_receipt X es = Inr ()"
    using ok x e by (auto simp: receipt_ok_def verify_receipt_def res_iff)
  then show ?thesis unfolding verify_body_entries [OF o'(2)] by (simp add: o'(1) unchanged_def)
qed

lemma verify_preparation_built:
  assumes C: "cbor_law G" "object_law G" and S: "sha2_law X"
    and b: "preparation_object X G (Some b) predecessor did = (Inr obj, Some b')"
  shows "verify_body X G (Some b) (body_of b obj) = Inr b'"
proof -
  from b obtain p where p: "recognise_preview X G did None = Inr p" and r: "retain_preview b p = Inr b'"
    and "build_object G b' predecessor Preparation
             [b_bytes ''offerCoreDigest'' (bd_core_digest b'), b_text ''previewIssuerDid'' (pv_did p),
              b_bytes ''previewFingerprintDigest'' (pv_digest p)] = Inr obj"
    unfolding preparation_object_def bound_of_def by (auto simp: res_iff split: sum.splits)
  from built_object [OF C this(3)] obtain es where o': "obj_kind obj = Preparation" "body_entries G (obj_body obj) = Inr es"
    and es: "entries_of es ([b_bytes ''offerCoreDigest'' (bd_core_digest b'), b_text ''previewIssuerDid'' (pv_did p),
        b_bytes ''previewFingerprintDigest'' (pv_digest p)] @
      [b_bytes ''carrierCeremonyId'' (bd_ceremony b'), b_bytes ''predecessorDigest'' (content_hash_of G predecessor)])"
    by auto
  have b': "bd_core_digest b' = bd_core_digest b" using retain_preview_ok [OF r] by (metis bound_authority.select_convs(5) bound_authority.surjective bound_authority.update_convs(14))
  have x: "exact_fields es (PRED @ [''offerCoreDigest''] @ PREVIEW) = Inr ()" by (rule entries_of_exact [OF es]) simp_all
  note q = recognise_preview_ok [OF p]
  have l: "length (pv_digest p) = 32" using q S by simp
  have e: "expect_fixed es ''offerCoreDigest'' (bd_core_digest b) = Inr ()" "text_field es ''previewIssuerDid'' = Inr (pv_did p)"
    "fixed_field 32 es ''previewFingerprintDigest'' = Inr (pv_digest p)"
    using l by (simp_all add: entries_of_text [OF es] entries_of_expect [OF es] entries_of_fixed [OF es] b' [symmetric])
  have rp: "recognise_preview X G (pv_did p) (Some (pv_digest p)) = Inr p" using q unfolding preview_ok_def by blast
  have "verify_preparation X G es b = Inr b'"
    unfolding verify_preparation_def x e and_then_simps rp by (rule r)
  then show ?thesis unfolding verify_body_entries [OF o'(2)] by (simp add: o'(1))
qed

lemma verify_comparison_built:
  assumes C: "cbor_law G" "object_law G" and S: "sha2_law X" and ok: "bound_ok X G b"
    and b: "comparison_object X G (Some b) predecessor response = Inr obj"
  shows "verify_body X G (Some b) (body_of b obj) = Inr b"
proof -
  from b obtain p kind verdict where p: "bd_preview b = Some p" and st: "comparison_status X G b response p = Inr (kind, verdict)"
    and "build_object G b predecessor kind
       [b_text ''result'' verdict, b_text ''previewIssuerDid'' (pv_did p), b_bytes ''previewFingerprintDigest'' (pv_digest p),
        b_bytes ''authorityStatusResponse'' response, b_bytes ''authorityStatusDigest'' (sha256_digest X response)] = Inr obj"
    by (auto simp: comparison_object_def bound_of_def res_iff)
  from built_object [OF C this(3)] obtain es where o': "obj_kind obj = kind" "body_entries G (obj_body obj) = Inr es"
    and es: "entries_of es ([b_text ''result'' verdict, b_text ''previewIssuerDid'' (pv_did p), b_bytes ''previewFingerprintDigest'' (pv_digest p),
        b_bytes ''authorityStatusResponse'' response, b_bytes ''authorityStatusDigest'' (sha256_digest X response)] @
      [b_bytes ''carrierCeremonyId'' (bd_ceremony b), b_bytes ''predecessorDigest'' (content_hash_of G predecessor)])"
    by auto
  have x: "exact_fields es (PRED @ [''result''] @ PREVIEW @ [''authorityStatusResponse'', ''authorityStatusDigest'']) = Inr ()"
    by (rule entries_of_exact [OF es]) simp_all
  have e: "expect_text es ''result'' verdict = Inr ()" "text_field es ''previewIssuerDid'' = Inr (pv_did p)"
    "bytes_field es ''authorityStatusResponse'' = Inr response" "expect_fixed es ''authorityStatusDigest'' (sha256_digest X response) = Inr ()"
    by (simp_all add: entries_of_text [OF es] entries_of_expect [OF es] entries_of_bytes [OF es])
  have pr: "recognised_retained_preview X G es b = Inr p"
    using ok p by (intro preview_recognised [OF S p _ e(2)]) (auto simp: bound_ok_def intro: entries_of_fixed [OF es])
  have k: "kind = ComparisonConfirmed \<or> kind = BindingConfirmed"
    using st unfolding comparison_status_def and_then_Inr_iff by (elim exE conjE) (simp split: authority_status.splits if_splits)
  have "response \<noteq> [] \<and> length response \<le> 768"
    using st by (auto simp: comparison_status_def res_iff recognise_authority_status_response_def not_less)
  then have "verify_comparison X G es b kind = Inr ()"
    using x e pr st by (simp add: verify_comparison_def)
  then show ?thesis unfolding verify_body_entries [OF o'(2)] using k by (auto simp: o'(1) unchanged_def)
qed

lemma verify_final_built:
  assumes C: "cbor_law G" "object_law G" and S: "sha2_law X" and ok: "bound_ok X G b"
    and b: "final_decision_object G (Some b) predecessor d = Inr obj"
  shows "verify_body X G (Some b) (body_of b obj) = Inr b"
proof -
  obtain kind name where k: "(case d of ApproveFinal \<Rightarrow> (FinalApprove, ''approve'') | DeclineFinal \<Rightarrow> (FinalDecline, ''decline'')) = (kind, name)"
    "kind = FinalApprove \<and> name = ''approve'' \<or> kind = FinalDecline \<and> name = ''decline''" by (cases d) auto
  from b k(1) obtain p where p: "bd_preview b = Some p"
    and "build_object G b predecessor kind [b_text ''previewIssuerDid'' (pv_did p), b_bytes ''previewFingerprintDigest'' (pv_digest p),
        b_text ''decision'' name] = Inr obj"
    by (auto simp: final_decision_object_def bound_of_def res_iff)
  from built_object [OF C this(2)] obtain es where o': "obj_kind obj = kind" "body_entries G (obj_body obj) = Inr es"
    and es: "entries_of es ([b_text ''previewIssuerDid'' (pv_did p), b_bytes ''previewFingerprintDigest'' (pv_digest p), b_text ''decision'' name] @
      [b_bytes ''carrierCeremonyId'' (bd_ceremony b), b_bytes ''predecessorDigest'' (content_hash_of G predecessor)])"
    by auto
  have x: "exact_fields es (PRED @ PREVIEW @ [''decision'']) = Inr ()" by (rule entries_of_exact [OF es]) simp_all
  have e: "expect_text es ''decision'' name = Inr ()" "text_field es ''previewIssuerDid'' = Inr (pv_did p)"
    by (simp_all add: entries_of_text [OF es] entries_of_expect [OF es])
  have pr: "recognised_retained_preview X G es b = Inr p"
    using ok p by (intro preview_recognised [OF S p _ e(2)]) (auto simp: bound_ok_def intro: entries_of_fixed [OF es])
  show ?thesis unfolding verify_body_entries [OF o'(2)] using k(2) x e pr by (auto simp: o'(1) unchanged_def verify_final_def)
qed

lemma verify_payload_built:
  assumes C: "cbor_law G" "object_law G" and S: "sha2_law X" and ok: "bound_ok X G b" and g: "length gid = 32"
    and b: "payload_object X G (Some b) predecessor gid grant = Inr (obj, Some b')"
  shows "verify_body X G (Some b) (body_of b obj) = Inr b'"
proof -
  from b obtain p confirmation where w: "valid_compact_jws grant" "length grant \<le> 49152" and p: "bd_preview b = Some p"
    and c: "body_migration_digest X b p = Inr confirmation"
    and bo: "build_object G b predecessor PayloadKind
        [b_bytes ''offerCoreDigest'' (bd_core_digest b), b_text ''previewIssuerDid'' (pv_did p),
         b_bytes ''previewFingerprintDigest'' (pv_digest p), b_bytes ''accountPrincipalDigest'' (bd_principal b),
         b_bytes ''accountScopeId'' (bd_scope b), b_text ''deviceDid'' (bd_device_did b), b_bytes ''grantId'' gid,
         b_text ''grantMediaType'' ''application/vc+jwt'', b_text ''grant'' grant,
         b_bytes ''migrationConfirmationDigest'' confirmation] = Inr obj" (is "build_object G b predecessor PayloadKind ?ms = _")
    and r: "retain_payload b \<lparr>rp_offer_core_digest = bd_core_digest b, rp_preview_did = pv_did p, rp_preview_digest = pv_digest p,
       rp_principal = bd_principal b, rp_scope = bd_scope b, rp_device_did = bd_device_did b, rp_grant_id = gid,
       rp_grant = grant, rp_confirmation = confirmation\<rparr> = Inr b'"
    unfolding payload_object_def bound_of_def Let_def by (auto simp: res_iff not_less)
  from built_object [OF C bo] obtain es where o': "obj_kind obj = PayloadKind" "body_entries G (obj_body obj) = Inr es"
    and es: "entries_of es (?ms @
      [b_bytes ''carrierCeremonyId'' (bd_ceremony b), b_bytes ''predecessorDigest'' (content_hash_of G predecessor)])"
    by auto
  have x: "exact_fields es (PRED @ [''offerCoreDigest''] @ PREVIEW @ [''accountPrincipalDigest'', ''accountScopeId'',
       ''deviceDid'', ''grantId'', ''grantMediaType'', ''grant'', ''migrationConfirmationDigest'']) = Inr ()"
    by (rule entries_of_exact [OF es]) simp_all
  have e: "expect_fixed es ''offerCoreDigest'' (bd_core_digest b) = Inr ()" "text_field es ''previewIssuerDid'' = Inr (pv_did p)"
    "expect_fixed es ''accountPrincipalDigest'' (bd_principal b) = Inr ()" "expect_fixed es ''accountScopeId'' (bd_scope b) = Inr ()"
    "expect_text es ''deviceDid'' (bd_device_did b) = Inr ()" "fixed_field 32 es ''grantId'' = Inr gid"
    "expect_text es ''grantMediaType'' ''application/vc+jwt'' = Inr ()" "text_field es ''grant'' = Inr grant"
    "expect_fixed es ''migrationConfirmationDigest'' confirmation = Inr ()"
    using g by (simp_all add: entries_of_text [OF es] entries_of_expect [OF es] entries_of_fixed [OF es])
  have pr: "recognised_retained_preview X G es b = Inr p"
    using ok p by (intro preview_recognised [OF S p _ e(2)]) (auto simp: bound_ok_def intro: entries_of_fixed [OF es])
  have "verify_payload X G es b = Inr b'"
    unfolding verify_payload_def x pr e and_then_simps c using w r by simp
  then show ?thesis unfolding verify_body_entries [OF o'(2)] by (simp add: o'(1))
qed

lemma builds_verified:
  assumes "cbor_law G" "object_law G" "sha2_law X" "bound_ok X G b" "builds X G b obj b'"
  shows "verify_body X G (Some b) (body_of b obj) = Inr b'"
  using assms(5)
proof cases
  case build_intent then show ?thesis using verify_intent_built [OF assms(1,2)] by simp
next
  case build_preparation then show ?thesis using verify_preparation_built [OF assms(1-3)] by simp
next
  case build_comparison then show ?thesis using verify_comparison_built [OF assms(1-4)] by simp
next
  case build_final then show ?thesis using verify_final_built [OF assms(1-4)] by simp
next
  case build_refusal then show ?thesis using verify_refusal_built [OF assms(1,2)] by simp
next
  case build_payload then show ?thesis using verify_payload_built [OF assms(1-4)] by simp
next
  case build_receipt then show ?thesis using verify_receipt_built [OF assms(1,2)] by simp
qed

text \<open>
  Two ends of one attempt: each object is built by either end and verified by the other. The state is the pair of
  what the ends hold.
\<close>

inductive exchange :: "('s \<Rightarrow> 'm \<Rightarrow> 's \<Rightarrow> bool) \<Rightarrow> ('s \<Rightarrow> 'm \<Rightarrow> 's \<Rightarrow> bool) \<Rightarrow> 's \<times> 's \<Rightarrow> 's \<times> 's \<Rightarrow> bool" for send accept where
  left_sends: "send l m l' \<Longrightarrow> accept r m r' \<Longrightarrow> exchange send accept (l, r) (l', r')"
| right_sends: "send r m r' \<Longrightarrow> accept l m l' \<Longrightarrow> exchange send accept (l, r) (l', r')"

text \<open>
  The contract between a builder and a verifier: what one end sends from a good state, the other accepts from the same
  state, and only into the state the sender reached, which is good and keeps what was kept.
\<close>

locale lockstep =
  fixes send accept :: "'s \<Rightarrow> 'm \<Rightarrow> 's \<Rightarrow> bool" and good :: "'s \<Rightarrow> bool" and keeps :: "'s \<Rightarrow> 's \<Rightarrow> bool"
  assumes accepted: "good s \<Longrightarrow> send s m s' \<Longrightarrow> accept s m s'"
    and same: "accept s m s' \<Longrightarrow> accept s m s'' \<Longrightarrow> s' = s''"
    and stays_good: "good s \<Longrightarrow> accept s m s' \<Longrightarrow> good s'"
    and kept: "good s \<Longrightarrow> accept s m s' \<Longrightarrow> keeps s s'"
    and keeps_refl: "keeps s s"
    and keeps_trans: "keeps s t \<Longrightarrow> keeps t u \<Longrightarrow> keeps s u"
begin

lemma exchange_in_step:
  assumes "exchange send accept (s, s) t" "good s"
  shows "\<exists>s'. t = (s', s') \<and> good s' \<and> keeps s s'"
  using assms(1)
proof cases
  case (left_sends m l' r')
  with accepted [OF assms(2)] same have "r' = l'" by blast
  with left_sends stays_good kept assms(2) show ?thesis by blast
next
  case (right_sends m r' l')
  with accepted [OF assms(2)] same have "r' = l'" by blast
  with right_sends stays_good kept assms(2) show ?thesis by blast
qed

lemma exchanges_in_step:
  assumes "(exchange send accept)\<^sup>*\<^sup>* (s, s) t" "good s"
  shows "\<exists>s'. t = (s', s') \<and> good s' \<and> keeps s s'"
  using assms(1)
proof (induction rule: rtranclp_induct)
  case base
  with assms(2) keeps_refl show ?case by blast
next
  case (step t u)
  then obtain s' where s': "t = (s', s')" "good s'" "keeps s s'" by blast
  from exchange_in_step [OF step.hyps(2) [unfolded s'(1)] s'(2)] s'(3) show ?case using keeps_trans by blast
qed

end

definition accepts :: "externs \<Rightarrow> pair_externs \<Rightarrow> bound_authority \<Rightarrow> v2_object \<Rightarrow> bound_authority \<Rightarrow> bool" where
  "accepts X G b obj b' \<longleftrightarrow> verify_body X G (Some b) (body_of b obj) = Inr b'"

definition good_attempt :: "externs \<Rightarrow> pair_externs \<Rightarrow> bound_authority \<Rightarrow> bool" where
  "good_attempt X G b \<longleftrightarrow> cbor_law G \<and> object_law G \<and> sha2_law X \<and> bound_ok X G b"

interpretation ends: lockstep "builds X G" "accepts X G" "good_attempt X G" extends for X G
proof
  show "builds X G b obj b' \<Longrightarrow> accepts X G b obj b'" if "good_attempt X G b" for b obj b'
    using builds_verified that by (simp add: good_attempt_def accepts_def)
  show "accepts X G b obj b' \<Longrightarrow> good_attempt X G b'" "accepts X G b obj b' \<Longrightarrow> extends b b'" if "good_attempt X G b" for b obj b'
    using verify_body_ok that by (auto simp: good_attempt_def accepts_def)
qed (auto simp: accepts_def intro: extends_trans)

section \<open>The checkpoint\<close>

lemma checkpoint_roundtrip:
  assumes C: "cbor_law G" and ok: "bound_ok X G b" and pd: "length (profile_digest (bd_profile b)) = 32"
    and kd: "bd_kid b \<noteq> []" "length (bd_kid b) \<le> 2048" "starts_with ''did:key:'' (bd_device_did b)" "length (bd_device_did b) \<le> 512"
    and i: "length (intent_digest_of G (bd_core_digest b)) = 32" and S: "sha2_law X"
    and e: "encode_authority_checkpoint G b = Inr st"
  shows "decode_authority_checkpoint X G st (bd_profile b) = Inr (b\<lparr>bd_payload := None\<rparr>)"
proof -
  from e have c: "cbor_canonical G (CMap (checkpoint_entries b)) = Some st" and l: "st \<noteq> []" "length st \<le> MAX_AUTHORITY_CHECKPOINT_BYTES"
    by (auto simp: encode_authority_checkpoint_def res_iff)
  have d: "distinct (map fst (checkpoint_entries b))" by (simp add: checkpoint_entries_def)
  have m: "list_all (\<lambda>(k, v). map_free k \<and> map_free v) (checkpoint_entries b)"
    by (simp add: checkpoint_entries_def case_prod_beta' split: option.split)
  from body_entries_map [OF C c d m] obtain es where be: "body_entries G st = Inr es" and es: "entries_of es (checkpoint_entries b)" by blast
  have x: "exact_fields es CHECKPOINT_FIELDS = Inr ()"
    by (rule entries_of_exact [OF es]) (simp_all add: checkpoint_entries_def CHECKPOINT_FIELDS_def)
  have mem: "b_text ''domain'' AUTHORITY_CHECKPOINT_DOMAIN \<in> set (checkpoint_entries b)"
    "b_bytes ''profileDigest'' (profile_digest (bd_profile b)) \<in> set (checkpoint_entries b)"
    "b_text ''kid'' (bd_kid b) \<in> set (checkpoint_entries b)" "b_text ''deviceDid'' (bd_device_did b) \<in> set (checkpoint_entries b)"
    "b_bytes ''carrierCeremonyId'' (bd_ceremony b) \<in> set (checkpoint_entries b)"
    "b_bytes ''intentDigest'' (bd_intent b) \<in> set (checkpoint_entries b)"
    "b_bytes ''offerCoreDigest'' (bd_core_digest b) \<in> set (checkpoint_entries b)"
    "b_bytes ''accountPrincipalDigest'' (bd_principal b) \<in> set (checkpoint_entries b)"
    "b_bytes ''accountScopeId'' (bd_scope b) \<in> set (checkpoint_entries b)"
    "b_bytes ''deviceKeyDigest'' (bd_device_digest b) \<in> set (checkpoint_entries b)"
    "b_bytes ''legacyKeyDigest'' (bd_legacy_digest b) \<in> set (checkpoint_entries b)"
    "b_bytes ''roomSetDigest'' (bd_room_digest b) \<in> set (checkpoint_entries b)"
    "b_bytes ''migrationSnapshotDigest'' (bd_snapshot_digest b) \<in> set (checkpoint_entries b)"
    "b_bytes ''snapshotNonce'' (bd_nonce b) \<in> set (checkpoint_entries b)"
    by (simp_all add: checkpoint_entries_def)
  have pv: "decode_preview X G es = Inr (bd_preview b)"
  proof -
    have "v_field es ''previewIssuerDid'' = Inr (case bd_preview b of None \<Rightarrow> CNull | Some p \<Rightarrow> CText (pv_did p))"
      "v_field es ''previewFingerprintDigest'' = Inr (case bd_preview b of None \<Rightarrow> CNull | Some p \<Rightarrow> CBytes (pv_digest p))"
      using es by (intro v_field_mem; simp add: entries_of_def checkpoint_entries_def)+
    moreover have "bd_preview b = Some p \<Longrightarrow> length (pv_digest p) = 32 \<and> recognise_preview X G (pv_did p) (Some (pv_digest p)) = Inr p" for p
      using ok S by (auto simp: bound_ok_def preview_ok_def dest: recognise_preview_ok)
    ultimately show ?thesis
      by (cases "bd_preview b") (simp_all add: decode_preview_def optional_text_field_def optional_fixed_field_def)
  qed
  have lens: "length (bd_ceremony b) = 32" "length (bd_intent b) = 32" "length (bd_core_digest b) = 32" "length (bd_principal b) = 32"
    "length (bd_scope b) = 32" "length (bd_device_digest b) = 32" "length (bd_legacy_digest b) = 32" "length (bd_room_digest b) = 32"
    "length (bd_snapshot_digest b) = 32" "length (bd_nonce b) = 32" "bd_intent b = intent_digest_of G (bd_core_digest b)"
    using ok i by (auto simp: bound_ok_def)
  note f = entries_of_fixed [OF es mem(5) lens(1)] entries_of_fixed [OF es mem(6) lens(2)] entries_of_fixed [OF es mem(7) lens(3)]
    entries_of_fixed [OF es mem(8) lens(4)] entries_of_fixed [OF es mem(9) lens(5)] entries_of_fixed [OF es mem(10) lens(6)]
    entries_of_fixed [OF es mem(11) lens(7)] entries_of_fixed [OF es mem(12) lens(8)] entries_of_fixed [OF es mem(13) lens(9)]
    entries_of_fixed [OF es mem(14) lens(10)]
  have ne: "bd_device_did b \<noteq> []" using kd(3) by (auto simp: starts_with_def)
  show ?thesis
    unfolding decode_authority_checkpoint_def be x entries_of_expect(1) [OF es mem(1)] entries_of_expect(2) [OF es mem(2)]
      entries_of_text [OF es mem(3)] entries_of_text [OF es mem(4)] f pv and_then_simps
    using l kd ne lens(11) by (cases b) simp
qed

section \<open>A concrete attempt\<close>

definition sample_authority :: bound_authority where
  "sample_authority =
     \<lparr>bd_profile = sample_v2_profile, bd_kid = ''k'', bd_ceremony = replicate 32 CHR ''c'', bd_intent = replicate 32 CHR ''o'',
      bd_core_digest = replicate 32 CHR ''o'', bd_principal = replicate 32 CHR ''p'', bd_scope = replicate 32 CHR ''s'',
      bd_device_did = ''did:key:z'', bd_device_digest = replicate 32 CHR ''d'', bd_legacy_digest = replicate 32 CHR ''l'',
      bd_room_digest = replicate 32 CHR ''r'', bd_snapshot_digest = replicate 32 CHR ''m'', bd_nonce = replicate 32 CHR ''n'',
      bd_preview = None, bd_payload = None\<rparr>"

definition sample_offer_object :: v2_object where
  "sample_offer_object = \<lparr>obj_kind = OfferKind, obj_intent = replicate 32 CHR ''o'', obj_body = ''offer''\<rparr>"

definition sample_refusal :: v2_object where
  "sample_refusal = \<lparr>obj_kind = RefusalKind, obj_intent = replicate 32 CHR ''o'', obj_body = ''R''\<rparr>"

definition sample_attempt :: pair_externs where
  "sample_attempt = table_externs
     [(CMap [b_text ''reason'' ''expired'', b_bytes ''carrierCeremonyId'' (replicate 32 CHR ''c''),
         b_bytes ''predecessorDigest'' (replicate 32 CHR 0x07)], ''R''),
      (CMap (checkpoint_entries sample_authority), ''K'')]"

lemma sample_attempt_laws: "cbor_law sample_attempt" "object_law sample_attempt"
  by (simp_all add: sample_attempt_def table_cbor_law table_object_law)

lemma sample_authority_ok: "bound_ok sample_externs sample_attempt sample_authority"
  by (simp add: bound_ok_def sample_authority_def sample_attempt_def table_externs_def)

lemma sample_refuses: "builds sample_externs sample_attempt sample_authority sample_refusal sample_authority"
proof (rule build_refusal)
  show "refusal_object sample_attempt (Some sample_authority) sample_offer_object OfferExpired = Inr sample_refusal"
    by (simp add: refusal_object_def bound_of_def require_predecessor_def build_object_def sample_offer_object_def sample_refusal_def
        sample_attempt_def table_externs_def) (simp add: sample_authority_def)
qed

lemma sample_binds:
  "\<exists>b. bind_offer sample_pair sample_v2_profile (prepared_view sample_v2_profile sample_v2_carrier sample_v2_input
      (hd (cbcl_pairing_relays sample_v2_profile)) sample_prepared ''D'' ''k'') None = Inr (Some b) \<and> bd_kid b = ''k''"
  by (simp add: bind_offer_def prepared_view_def prepared_claims_def Let_def)

section \<open>Properties\<close>

text \<open>
  C34. What an attempt retains is consistent and final. From an empty slot, over any sequence of bindings, built and
  verified successors, restored objects and restored checkpoints, the slot holds a consistent authority: the preview is
  a DID with its own fingerprint, a payload carries the facts of the offer, that preview and the digest of their
  migration. A later slot has the same offer, and the same preview and payload if it had them.
\<close>

theorem attempt_facts_final:
  assumes "base64ct X" "sha2_law X" "(slot_step X G)\<^sup>*\<^sup>* None s" "(slot_step X G)\<^sup>*\<^sup>* s t"
  shows "slot_ok X G s \<and> slot_ok X G t \<and> slot_extends s t"
proof -
  have "slot_ok X G s" using slot_steps_ok [OF assms(1-3)] by (simp add: slot_ok_def)
  with slot_steps_ok [OF assms(1,2,4)] show ?thesis by blast
qed

theorem attempt_facts_final_witness:
  "\<exists>b :: bound_authority. bd_kid b = ''k'' \<and> slot_ok sample_externs sample_pair (Some b)"
proof -
  from sample_binds obtain b where b: "bind_offer sample_pair sample_v2_profile (prepared_view sample_v2_profile sample_v2_carrier
      sample_v2_input (hd (cbcl_pairing_relays sample_v2_profile)) sample_prepared ''D'' ''k'') None = Inr (Some b)" "bd_kid b = ''k''"
    by blast
  have "slot_step sample_externs sample_pair None (Some b)" by (rule step_bind [OF sample_offer_recognised b(1)])
  then have "(slot_step sample_externs sample_pair)\<^sup>*\<^sup>* None (Some b)" by (rule r_into_rtranclp)
  from attempt_facts_final [OF sample_laws(4,5) this rtranclp.rtrancl_refl] b(2) show ?thesis by blast
qed

text \<open>
  C33. Both ends of an attempt stay in step: starting from one consistent authority, after any exchange of successors in
  either direction they hold the same authority, and whatever either end builds next the other accepts, ending in the
  authority the builder holds.
\<close>

theorem ends_stay_in_step:
  assumes "cbor_law G" "object_law G" "sha2_law X" "bound_ok X G b" "(exchange (builds X G) (accepts X G))\<^sup>*\<^sup>* (b, b) s"
  shows "\<exists>b'. s = (b', b') \<and> extends b b'
     \<and> (\<forall>obj b''. builds X G b' obj b'' \<longrightarrow> verify_body X G (Some b') (body_of b' obj) = Inr b'')"
proof -
  have "good_attempt X G b" using assms(1-4) by (simp add: good_attempt_def)
  from ends.exchanges_in_step [OF assms(5) this] obtain b' where b': "s = (b', b')" "good_attempt X G b'" "extends b b'" by blast
  with ends.accepted [OF b'(2)] show ?thesis by (auto simp: accepts_def)
qed

theorem ends_stay_in_step_witness:
  "verify_body sample_externs sample_attempt (Some sample_authority) (body_of sample_authority sample_refusal) = Inr sample_authority"
  using ends_stay_in_step [OF sample_attempt_laws sample_laws(5) sample_authority_ok rtranclp.rtrancl_refl] sample_refuses
  by blast

text \<open>
  C40. A checkpoint of a bound authority restores it, less the payload, which the endpoint keeps: under the same
  profile the octets decode to the authority they encode.
\<close>

theorem checkpoint_restores:
  assumes "cbor_law G" "bound_ok X G b" "length (profile_digest (bd_profile b)) = 32"
    "bd_kid b \<noteq> []" "length (bd_kid b) \<le> 2048" "starts_with ''did:key:'' (bd_device_did b)" "length (bd_device_did b) \<le> 512"
    "length (intent_digest_of G (bd_core_digest b)) = 32" "sha2_law X" "checkpoint_state G (Some b) = Inr st"
  shows "restore_checkpoint_state X G (Some (bd_profile b)) st None = Inr (Some (b\<lparr>bd_payload := None\<rparr>))"
proof -
  have e: "encode_authority_checkpoint G b = Inr st" using assms(10) by (simp add: checkpoint_state_def)
  then have "st \<noteq> []" by (auto simp: encode_authority_checkpoint_def res_iff)
  then show ?thesis using checkpoint_roundtrip [OF assms(1-9) e] by (simp add: restore_checkpoint_state_def)
qed

theorem checkpoint_restores_witness:
  "restore_checkpoint_state sample_externs sample_attempt (Some sample_v2_profile) ''K'' None = Inr (Some sample_authority)"
proof -
  have c: "checkpoint_state sample_attempt (Some sample_authority) = Inr ''K''"
    by (simp add: checkpoint_state_def encode_authority_checkpoint_def sample_attempt_def table_externs_def
        MAX_AUTHORITY_CHECKPOINT_BYTES_def) (simp add: checkpoint_entries_def b_text_def b_bytes_def)
  have f: "bd_profile sample_authority = sample_v2_profile" "sample_authority\<lparr>bd_payload := None\<rparr> = sample_authority"
    by (simp_all add: sample_authority_def)
  show ?thesis
    using checkpoint_restores [OF sample_attempt_laws(1) sample_authority_ok _ _ _ _ _ _ sample_laws(5) c, unfolded f]
    by (simp add: sample_authority_def sample_v2_profile_def starts_with_def sample_attempt_def table_externs_def)
qed

end
