(* ===== verification/Pair_Recovery.thy ===== *)
theory Pair_Recovery
  imports Pair_Attempt
begin

text \<open>
  Recovering a receipt over HTTPS (\<open>crates/selfsame-pairing/src/credential_v2/recovery.rs\<close>): the request with its
  secret token, the closed union of answers, and the signed status that says a ceremony can no longer finalise.
\<close>

section \<open>Types\<close>

definition RECOVERY_COMMITMENT_DOMAIN :: octets where
  "RECOVERY_COMMITMENT_DOMAIN = ''selfsame credential/v2 receipt recovery commitment v1'' @ [CHR 0x00]"
definition RECOVERY_STATUS_TYPE :: rust_str where "RECOVERY_STATUS_TYPE = ''selfsame-pairing-recovery-status+jws''"
definition MAX_RECOVERY_REQUEST_BYTES :: nat where "MAX_RECOVERY_REQUEST_BYTES = 2304"
definition MAX_RECOVERY_RESPONSE_BYTES :: nat where "MAX_RECOVERY_RESPONSE_BYTES = 9216"
definition MAX_RECOVERY_STATUS_CORE_BYTES :: nat where "MAX_RECOVERY_STATUS_CORE_BYTES = 4096"
definition MAX_RECOVERY_STATUS_JWS_BYTES :: nat where "MAX_RECOVERY_STATUS_JWS_BYTES = 8192"

record recovery_request =
  rq_application_id :: rust_str
  rq_ceremony :: octets
  rq_token :: octets

datatype recovery_response =
    Accepted rust_str octets
  | InProgress nat
  | NotFinalized rust_str octets
  | UnknownCeremony

record recovery_negative =
  rn_application_id :: rust_str
  rn_ceremony :: octets
  rn_commitment :: octets
  rn_observed_at :: nat

record recognised_negative =
  rx_kid :: rust_str
  rx_observed_at :: nat

section \<open>Checks and fields\<close>

definition validate_application :: "rust_str \<Rightarrow> offer_error + unit" where
  "validate_application aid =
     and_then (refuse_err (parse_application_id aid)) (\<lambda>parsed.
     if app_text parsed \<noteq> aid \<or> length aid > 2048 then Inl OfferRefused else Inr ())"

definition validate_jws :: "rust_str \<Rightarrow> offer_error + unit" where
  "validate_jws jws =
     (if jws = [] \<or> length jws > MAX_RECOVERY_STATUS_JWS_BYTES \<or> \<not> is_ascii_str jws
        \<or> length (split_on CHR ''.'' jws) \<noteq> 3 \<or> list_ex (\<lambda>s. s = []) (split_on CHR ''.'' jws)
      then Inl OfferRefused else Inr ())"

definition encode_bounded :: "pair_externs \<Rightarrow> cbor \<Rightarrow> nat \<Rightarrow> offer_error + octets" where
  "encode_bounded G v maximum =
     and_then (or_refuse (cbor_canonical G v)) (\<lambda>b. if b = [] \<or> length b > maximum then Inl OfferRefused else Inr b)"

definition decode_bounded :: "pair_externs \<Rightarrow> octets \<Rightarrow> nat \<Rightarrow> offer_error + cbor" where
  "decode_bounded G bytes maximum =
     (if bytes = [] \<or> length bytes > maximum then Inl OfferRefused else exact_cbor G bytes)"

definition exact_map :: "cbor \<Rightarrow> nat \<Rightarrow> offer_error + (cbor \<times> cbor) list" where
  "exact_map v n = and_then (or_refuse (cbor_as_map v)) (\<lambda>es. if length es \<noteq> n then Inl OfferRefused else Inr es)"

definition r_field :: "(cbor \<times> cbor) list \<Rightarrow> rust_str \<Rightarrow> offer_error + cbor" where
  "r_field es name = refuse_err (v_field es name)"

definition c_unsigned :: "cbor \<Rightarrow> offer_error + nat" where
  "c_unsigned v = (case v of CInteger n \<Rightarrow> if 0 \<le> n \<and> n < 2 ^ 64 then Inr (nat n) else Inl OfferRefused | _ \<Rightarrow> Inl OfferRefused)"

section \<open>The request\<close>

definition request_members :: "recovery_request \<Rightarrow> (cbor \<times> cbor) list" where
  "request_members r =
     [(CText ''version'', CInteger 2), b_text ''application-id'' (rq_application_id r),
      b_bytes ''carrier-ceremony-id'' (rq_ceremony r), b_bytes ''receipt-recovery-token'' (rq_token r)]"

definition encode_receipt_recovery_request :: "pair_externs \<Rightarrow> rust_str \<Rightarrow> octets \<Rightarrow> octets \<Rightarrow> offer_error + octets" where
  "encode_receipt_recovery_request G aid ceremony tok =
     and_then (validate_application aid) (\<lambda>_.
     encode_bounded G (CMap (request_members \<lparr>rq_application_id = aid, rq_ceremony = ceremony, rq_token = tok\<rparr>))
       MAX_RECOVERY_REQUEST_BYTES)"

definition recognise_receipt_recovery_request :: "pair_externs \<Rightarrow> octets \<Rightarrow> offer_error + recovery_request" where
  "recognise_receipt_recovery_request G bytes =
     and_then (decode_bounded G bytes MAX_RECOVERY_REQUEST_BYTES) (\<lambda>v.
     and_then (exact_map v 4) (\<lambda>es.
     and_then (r_field es ''version'') (\<lambda>n. and_then (c_unsigned n) (\<lambda>n. if n \<noteq> 2 then Inl OfferRefused
     else
     and_then (r_field es ''application-id'') (\<lambda>a. and_then (c_text a) (\<lambda>aid.
     and_then (validate_application aid) (\<lambda>_.
     and_then (r_field es ''carrier-ceremony-id'') (\<lambda>c. and_then (c_fixed 32 c) (\<lambda>ceremony.
     and_then (r_field es ''receipt-recovery-token'') (\<lambda>t. and_then (c_fixed 32 t) (\<lambda>tok.
     Inr \<lparr>rq_application_id = aid, rq_ceremony = ceremony, rq_token = tok\<rparr>)))))))))))"

definition credential_v2_receipt_recovery_commitment :: "externs \<Rightarrow> octets \<Rightarrow> octets \<Rightarrow> rust_str \<Rightarrow> offer_error + octets" where
  "credential_v2_receipt_recovery_commitment X tok ceremony aid =
     and_then (validate_application aid) (\<lambda>_.
     Inr (sha256_digest X (RECOVERY_COMMITMENT_DOMAIN @ tok @ ceremony @ aid)))"

section \<open>The answer\<close>

definition response_members :: "recovery_response \<Rightarrow> offer_error + (cbor \<times> cbor) list" where
  "response_members r =
     (case r of
        Accepted jws d \<Rightarrow>
          and_then (validate_jws jws) (\<lambda>_.
          Inr [b_text ''status'' ''accepted'', b_text ''final-status-jws'' jws, b_bytes ''final-status-digest'' d])
      | InProgress n \<Rightarrow>
          if 1 \<le> n \<and> n \<le> 30 then Inr [b_text ''status'' ''in-progress'', (CText ''retry-after-seconds'', CInteger (int n))]
          else Inl OfferRefused
      | NotFinalized jws d \<Rightarrow>
          and_then (validate_jws jws) (\<lambda>_.
          Inr [b_text ''status'' ''not-finalized'', b_text ''recovery-status-jws'' jws, b_bytes ''recovery-status-digest'' d])
      | UnknownCeremony \<Rightarrow> Inr [b_text ''status'' ''unknown'', b_bytes ''padding'' (replicate 96 CHR 0x00)])"

definition encode_receipt_recovery_response :: "pair_externs \<Rightarrow> recovery_response \<Rightarrow> offer_error + octets" where
  "encode_receipt_recovery_response G r =
     and_then (response_members r) (\<lambda>ms. encode_bounded G (CMap ms) MAX_RECOVERY_RESPONSE_BYTES)"

definition response_of_entries :: "(cbor \<times> cbor) list \<Rightarrow> offer_error + recovery_response" where
  "response_of_entries es =
     and_then (r_field es ''status'') (\<lambda>s. and_then (c_text s) (\<lambda>status.
     if status = ''accepted'' \<and> length es = 3 then
       and_then (r_field es ''final-status-jws'') (\<lambda>j. and_then (c_text j) (\<lambda>jws.
       and_then (validate_jws jws) (\<lambda>_.
       and_then (r_field es ''final-status-digest'') (\<lambda>d. and_then (c_fixed 32 d) (\<lambda>d. Inr (Accepted jws d))))))
     else if status = ''in-progress'' \<and> length es = 2 then
       and_then (r_field es ''retry-after-seconds'') (\<lambda>n. and_then (c_unsigned n) (\<lambda>n.
       if n > 255 \<or> \<not> (1 \<le> n \<and> n \<le> 30) then Inl OfferRefused else Inr (InProgress n)))
     else if status = ''not-finalized'' \<and> length es = 3 then
       and_then (r_field es ''recovery-status-jws'') (\<lambda>j. and_then (c_text j) (\<lambda>jws.
       and_then (validate_jws jws) (\<lambda>_.
       and_then (r_field es ''recovery-status-digest'') (\<lambda>d. and_then (c_fixed 32 d) (\<lambda>d. Inr (NotFinalized jws d))))))
     else if status = ''unknown'' \<and> length es = 2 then
       and_then (r_field es ''padding'') (\<lambda>p. and_then (or_refuse (cbor_as_bytes p)) (\<lambda>padding.
       if length padding \<noteq> 96 \<or> list_ex (\<lambda>b. code b \<noteq> 0) padding then Inl OfferRefused else Inr UnknownCeremony))
     else Inl OfferRefused))"

definition decode_receipt_recovery_response :: "pair_externs \<Rightarrow> octets \<Rightarrow> offer_error + recovery_response" where
  "decode_receipt_recovery_response G bytes =
     and_then (decode_bounded G bytes MAX_RECOVERY_RESPONSE_BYTES) (\<lambda>v.
     and_then (or_refuse (cbor_as_map v)) response_of_entries)"

section \<open>The negative status\<close>

definition recovery_negative_json :: "externs \<Rightarrow> recovery_negative \<Rightarrow> json" where
  "recovery_negative_json X i =
     Object [(''payloadVersion'', Integer 2), (''role'', String ''recovery-status''),
       (''applicationId'', String (rn_application_id i)), (''carrierCeremonyId'', String (b64url X (rn_ceremony i))),
       (''receiptRecoveryCommitment'', String (b64url X (rn_commitment i))), (''status'', String ''not-finalized''),
       (''observedAt'', Integer (int (rn_observed_at i)))]"

definition recovery_negative_core :: "externs \<Rightarrow> application_profile \<Rightarrow> recovery_negative \<Rightarrow> offer_error + octets" where
  "recovery_negative_core X P i =
     and_then (validate_application (rn_application_id i)) (\<lambda>_.
     if app_text (application_id P) \<noteq> rn_application_id i \<or> rn_observed_at i > MAX_JSON_SAFE_INTEGER then Inl OfferRefused
     else
     let core = canonicalise (recovery_negative_json X i) in
     if core = [] \<or> length core > MAX_RECOVERY_STATUS_CORE_BYTES then Inl OfferRefused else Inr core)"

definition build_recovery_not_finalized ::
  "externs \<Rightarrow> application_profile \<Rightarrow> recovery_negative \<Rightarrow> rust_str \<Rightarrow> octets \<Rightarrow> offer_error + built_status" where
  "build_recovery_not_finalized X P i k sk =
     and_then (signing_key_declared X P k sk) (\<lambda>_.
     and_then (recovery_negative_core X P i) (\<lambda>core.
     let jws = signed_status X RECOVERY_STATUS_TYPE k core sk in
     and_then (validate_jws jws) (\<lambda>_.
     Inr \<lparr>bs_core = core, bs_jws = jws, bs_digest = sha256_digest X core, bs_kid = k\<rparr>)))"

definition recognise_recovery_not_finalized ::
  "externs \<Rightarrow> pair_externs \<Rightarrow> application_profile \<Rightarrow> rust_str \<Rightarrow> octets \<Rightarrow> recovery_negative \<Rightarrow> rust_str \<Rightarrow> offer_error + unit" where
  "recognise_recovery_not_finalized X G P jws expected_digest expected k =
     and_then (validate_jws jws) (\<lambda>_.
     verify_status X G P RECOVERY_STATUS_TYPE jws expected_digest (recovery_negative_core X P expected) k)"

text \<open>The kid and the time are read from the status and only then checked like everything else.\<close>

definition recognise_recovery_not_finalized_status ::
  "externs \<Rightarrow> pair_externs \<Rightarrow> application_profile \<Rightarrow> rust_str \<Rightarrow> octets \<Rightarrow> rust_str \<Rightarrow> octets \<Rightarrow> octets
   \<Rightarrow> offer_error + recognised_negative" where
  "recognise_recovery_not_finalized_status X G P jws expected_digest aid ceremony commitment =
     and_then (validate_jws jws) (\<lambda>_.
     case split_on CHR ''.'' jws of
       [h, p, _] \<Rightarrow>
         and_then (decode_canonical_b64 X h) (\<lambda>protected.
         and_then (decode_canonical_b64 X p) (\<lambda>core.
         and_then (refuse_err (recognise_json protected \<lparr>max_bytes = 1024, max_depth = 1\<rparr>)) (\<lambda>header.
         and_then (refuse_err (recognise_json core \<lparr>max_bytes = MAX_RECOVERY_STATUS_CORE_BYTES, max_depth = 1\<rparr>)) (\<lambda>status.
         and_then (j_text header ''kid'') (\<lambda>k.
         and_then (j_integer status ''observedAt'') (\<lambda>observed_at.
         and_then (recognise_recovery_not_finalized X G P jws expected_digest
           \<lparr>rn_application_id = aid, rn_ceremony = ceremony, rn_commitment = commitment, rn_observed_at = observed_at\<rparr> k) (\<lambda>_.
         Inr \<lparr>rx_kid = k, rx_observed_at = observed_at\<rparr>)))))))
     | _ \<Rightarrow> Inl OfferRefused)"

section \<open>Round trips\<close>

lemma entries_of_r: "entries_of es ms \<Longrightarrow> (CText n, v) \<in> set ms \<Longrightarrow> r_field es n = Inr v"
  by (simp add: entries_of_def r_field_def v_field_mem)

lemma decode_map:
  assumes "cbor_law G" "encode_bounded G (CMap ms) n = Inr b" "distinct (map fst ms)" "list_all (\<lambda>(k, v). map_free k \<and> map_free v) ms"
  obtains es where "decode_bounded G b n = Inr (CMap es)" "entries_of es ms"
proof -
  from assms(2) have c: "cbor_canonical G (CMap ms) = Some b" and l: "b \<noteq> []" "length b \<le> n" by (auto simp: encode_bounded_def res_iff)
  from body_entries_map [OF assms(1) c assms(3,4)] obtain es where es: "body_entries G b = Inr es" "entries_of es ms" .
  then have "exact_cbor G b = Inr (CMap es)" by (auto simp: body_entries_def res_iff cbor_as_iff exact_cbor_iff)
  with l es(2) show ?thesis by (intro that [of es]) (simp_all add: decode_bounded_def)
qed

lemma request_roundtrip:
  assumes "cbor_law G" "length ceremony = 32" "length tok = 32" and e: "encode_receipt_recovery_request G aid ceremony tok = Inr b"
  shows "recognise_receipt_recovery_request G b = Inr \<lparr>rq_application_id = aid, rq_ceremony = ceremony, rq_token = tok\<rparr>"
proof -
  let ?r = "\<lparr>rq_application_id = aid, rq_ceremony = ceremony, rq_token = tok\<rparr>"
  from e have a: "validate_application aid = Inr ()" and e': "encode_bounded G (CMap (request_members ?r)) MAX_RECOVERY_REQUEST_BYTES = Inr b"
    by (auto simp: encode_receipt_recovery_request_def res_iff)
  from decode_map [OF assms(1) e'] obtain es where es: "decode_bounded G b MAX_RECOVERY_REQUEST_BYTES = Inr (CMap es)"
      "entries_of es (request_members ?r)"
    by (auto simp: request_members_def b_text_def b_bytes_def)
  note f = entries_of_r [OF es(2)]
  have "r_field es ''version'' = Inr (CInteger 2)" "r_field es ''application-id'' = Inr (CText aid)"
    "r_field es ''carrier-ceremony-id'' = Inr (CBytes ceremony)" "r_field es ''receipt-recovery-token'' = Inr (CBytes tok)"
    "length es = 4"
    using es(2) by (simp_all add: f request_members_def b_text_def b_bytes_def entries_of_def)
  then show ?thesis
    using assms(2,3) a by (simp add: recognise_receipt_recovery_request_def es(1) exact_map_def c_unsigned_def c_text_def c_fixed_def)
qed

definition response_typed :: "recovery_response \<Rightarrow> bool" where
  "response_typed r = (case r of Accepted jws d \<Rightarrow> length d = 32 | NotFinalized jws d \<Rightarrow> length d = 32 | _ \<Rightarrow> True)"

lemma response_of_members:
  assumes "response_members r = Inr ms" "response_typed r" "entries_of es ms"
  shows "response_of_entries es = Inr r"
proof -
  note f = entries_of_r [OF assms(3)]
  have n: "length es = length ms" using assms(3) by (simp add: entries_of_def)
  show ?thesis
  proof (cases r)
    case (Accepted jws d)
    with assms(1) have ms: "validate_jws jws = Inr ()"
        "ms = [b_text ''status'' ''accepted'', b_text ''final-status-jws'' jws, b_bytes ''final-status-digest'' d]"
      by (auto simp: response_members_def res_iff)
    have "r_field es ''status'' = Inr (CText ''accepted'')" "r_field es ''final-status-jws'' = Inr (CText jws)"
      "r_field es ''final-status-digest'' = Inr (CBytes d)" by (simp_all add: f ms(2) b_text_def b_bytes_def)
    then show ?thesis
      using Accepted ms n assms(2) by (simp add: response_of_entries_def c_text_def c_fixed_def response_typed_def)
  next
    case (InProgress k)
    with assms(1) have ms: "1 \<le> k" "k \<le> 30"
        "ms = [b_text ''status'' ''in-progress'', (CText ''retry-after-seconds'', CInteger (int k))]"
      by (auto simp: response_members_def res_iff split: if_splits)
    have "r_field es ''status'' = Inr (CText ''in-progress'')" "r_field es ''retry-after-seconds'' = Inr (CInteger (int k))"
      by (simp_all add: f ms(3) b_text_def)
    then show ?thesis using InProgress ms n by (simp add: response_of_entries_def c_text_def c_unsigned_def)
  next
    case (NotFinalized jws d)
    with assms(1) have ms: "validate_jws jws = Inr ()"
        "ms = [b_text ''status'' ''not-finalized'', b_text ''recovery-status-jws'' jws, b_bytes ''recovery-status-digest'' d]"
      by (auto simp: response_members_def res_iff)
    have "r_field es ''status'' = Inr (CText ''not-finalized'')" "r_field es ''recovery-status-jws'' = Inr (CText jws)"
      "r_field es ''recovery-status-digest'' = Inr (CBytes d)" by (simp_all add: f ms(2) b_text_def b_bytes_def)
    then show ?thesis
      using NotFinalized ms n assms(2) by (simp add: response_of_entries_def c_text_def c_fixed_def response_typed_def)
  next
    case UnknownCeremony
    with assms(1) have ms: "ms = [b_text ''status'' ''unknown'', b_bytes ''padding'' (replicate 96 CHR 0x00)]"
      by (simp add: response_members_def)
    have "r_field es ''status'' = Inr (CText ''unknown'')" "r_field es ''padding'' = Inr (CBytes (replicate 96 CHR 0x00))"
      by (simp_all add: f ms b_text_def b_bytes_def)
    then show ?thesis using UnknownCeremony ms n by (simp add: response_of_entries_def c_text_def list_ex_iff)
  qed
qed

lemma response_map_free: "response_members r = Inr ms \<Longrightarrow> distinct (map fst ms) \<and> list_all (\<lambda>(k, v). map_free k \<and> map_free v) ms"
  by (cases r) (auto simp: response_members_def res_iff b_text_def b_bytes_def split: if_splits)

lemma response_roundtrip:
  assumes "cbor_law G" "response_typed r" "encode_receipt_recovery_response G r = Inr b"
  shows "decode_receipt_recovery_response G b = Inr r"
proof -
  from assms(3) obtain ms where ms: "response_members r = Inr ms" "encode_bounded G (CMap ms) MAX_RECOVERY_RESPONSE_BYTES = Inr b"
    by (auto simp: encode_receipt_recovery_response_def res_iff)
  from decode_map [OF assms(1) ms(2)] response_map_free [OF ms(1)] obtain es where
    "decode_bounded G b MAX_RECOVERY_RESPONSE_BYTES = Inr (CMap es)" "entries_of es ms" by blast
  with response_of_members [OF ms(1) assms(2)] show ?thesis by (simp add: decode_receipt_recovery_response_def)
qed

section \<open>The negative status\<close>

lemma status_pieces:
  assumes B: "base64ct X" and "jws = status_signing_input X typ k core @ ''.'' @ b64url X sig"
  shows "split_on CHR ''.'' jws = [b64url X (canonicalise (status_header typ k)), b64url X core, b64url X sig]"
  using b64url_no_dot [OF B] by (simp add: assms(2) status_signing_input_def split_on_append split_on_no_sep)

lemma validate_status:
  assumes B: "base64ct X" and j: "jws = status_signing_input X typ k core @ ''.'' @ b64url X sig" and "core \<noteq> []" "sig \<noteq> []"
  shows "validate_jws jws = Inr () \<longleftrightarrow> length jws \<le> MAX_RECOVERY_STATUS_JWS_BYTES"
proof -
  have "canonicalise (status_header typ k) \<noteq> []" by (simp add: canonicalise_def status_header_def)
  then have "\<not> list_ex (\<lambda>s. s = []) (split_on CHR ''.'' jws)" "length (split_on CHR ''.'' jws) = 3"
    using assms(3,4) by (simp_all add: status_pieces [OF B j] b64url_Nil_iff [OF B])
  then show ?thesis using signing_input_ascii [OF B, of _ k core sig] j by (auto simp: validate_jws_def)
qed

lemma negative_core_facts:
  assumes "base64ct X" "valid_utf8 (rn_application_id i)" "recovery_negative_core X P i = Inr core"
  shows "core \<noteq> []" "recognise_json core \<lparr>max_bytes = MAX_RECOVERY_STATUS_CORE_BYTES, max_depth = 1\<rparr> =
      Inr (sort_members (recovery_negative_json X i))"
    "j_integer (sort_members (recovery_negative_json X i)) ''observedAt'' = Inr (rn_observed_at i)"
proof -
  have c: "core = canonicalise (recovery_negative_json X i)" "length core \<le> MAX_RECOVERY_STATUS_CORE_BYTES" "core \<noteq> []"
    "rn_observed_at i \<le> MAX_JSON_SAFE_INTEGER"
    using assms(3) by (auto simp: recovery_negative_core_def Let_def res_iff)
  have wf: "json_wf (recovery_negative_json X i)"
    using c(4) assms(1,2)
    by (simp add: recovery_negative_json_def valid_utf8_b64url valid_utf8_ascii MAX_SAFE_INTEGER_def MAX_JSON_SAFE_INTEGER_def)
  show "core \<noteq> []" by (rule c(3))
  show "recognise_json core \<lparr>max_bytes = MAX_RECOVERY_STATUS_CORE_BYTES, max_depth = 1\<rparr> =
      Inr (sort_members (recovery_negative_json X i))"
    using wf c(2) by (simp only: c(1), intro recognise_canonicalise) (simp_all add: recovery_negative_json_def)
  show "j_integer (sort_members (recovery_negative_json X i)) ''observedAt'' = Inr (rn_observed_at i)"
    by (simp add: j_integer_iff get_sort_members [OF wf]) (simp add: recovery_negative_json_def get_Object)
qed

lemma negative_iff:
  assumes B: "base64ct X" and "valid_utf8 k" "length (canonicalise (status_header RECOVERY_STATUS_TYPE k)) \<le> 1024"
    and "valid_utf8 (rn_application_id i)"
  shows "recognise_recovery_not_finalized X G P jws g i k = Inr u \<longleftrightarrow>
     (\<exists>core sig e. recovery_negative_core X P i = Inr core
        \<and> jws = status_signing_input X RECOVERY_STATUS_TYPE k core @ ''.'' @ b64url X sig
        \<and> length sig = 64 \<and> length jws \<le> MAX_RECOVERY_STATUS_JWS_BYTES \<and> g = sha256_digest X core
        \<and> List.find (\<lambda>c. kid c = k) (enrollment_keys P) = Some e \<and> vk_from_bytes X (public_key (jwk e))
        \<and> vk_verify G (public_key (jwk e)) (status_signing_input X RECOVERY_STATUS_TYPE k core) sig)" (is "_ \<longleftrightarrow> ?r")
proof -
  have t: "valid_utf8 RECOVERY_STATUS_TYPE" by (simp add: RECOVERY_STATUS_TYPE_def valid_utf8_ascii)
  have v: "validate_jws jws = Inr () \<longleftrightarrow> length jws \<le> MAX_RECOVERY_STATUS_JWS_BYTES"
    if "jws = status_signing_input X RECOVERY_STATUS_TYPE k core @ ''.'' @ b64url X sig" "length sig = 64" "core \<noteq> []" for core sig
    using validate_status [OF B that(1,3)] that(2) by (metis list.size(3) zero_neq_numeral)
  have "recognise_recovery_not_finalized X G P jws g i k = Inr u \<longleftrightarrow>
      validate_jws jws = Inr () \<and> verify_status X G P RECOVERY_STATUS_TYPE jws g (recovery_negative_core X P i) k = Inr u"
    by (auto simp: recognise_recovery_not_finalized_def res_iff)
  also have "\<dots> \<longleftrightarrow> ?r" (is "?a \<and> ?b \<longleftrightarrow> _")
  proof
    assume "?a \<and> ?b"
    then show ?r unfolding verify_status_iff [OF B t assms(2,3)] using v by blast
  next
    assume ?r
    then obtain core where c: "recovery_negative_core X P i = Inr core" "?r" by blast
    then show "?a \<and> ?b"
      unfolding verify_status_iff [OF B t assms(2,3)] using v negative_core_facts(1) [OF B assms(4) c(1)] c(1) by (auto 4 3)
  qed
  finally show ?thesis .
qed

lemma negative_roundtrip:
  assumes B: "base64ct X" and V: "verify_law X G sk" and k: "valid_utf8 k" "length (canonicalise (status_header RECOVERY_STATUS_TYPE k)) \<le> 1024"
    and a: "valid_utf8 (rn_application_id i)" and b: "build_recovery_not_finalized X P i k sk = Inr b"
  shows "recognise_recovery_not_finalized X G P (bs_jws b) (bs_digest b) i k = Inr ()"
proof -
  from b obtain core where core: "recovery_negative_core X P i = Inr core" and j: "bs_jws b = signed_status X RECOVERY_STATUS_TYPE k core sk"
    and vj: "validate_jws (bs_jws b) = Inr ()" and g: "bs_digest b = sha256_digest X core"
    and d: "signing_key_declared X P k sk = Inr ()"
    unfolding build_recovery_not_finalized_def Let_def by (auto simp: res_iff)
  from d [unfolded declared_iff] obtain e where e: "List.find (\<lambda>c. kid c = k) (enrollment_keys P) = Some e"
    "public_key (jwk e) = sk_public X sk" by blast
  have l: "length (bs_jws b) \<le> MAX_RECOVERY_STATUS_JWS_BYTES" using vj by (simp add: validate_jws_def split: if_splits)
  show ?thesis
    unfolding negative_iff [OF B k a]
    using core j g e l V
    by (intro exI [of _ core] exI [of _ "sk_sign X sk (status_signing_input X RECOVERY_STATUS_TYPE k core)"] exI [of _ e])
       (simp add: signed_status_def Let_def verify_law_def ed25519_law_def)
qed

lemma negative_status_reads:
  assumes B: "base64ct X" and k: "valid_utf8 k" "length (canonicalise (status_header RECOVERY_STATUS_TYPE k)) \<le> 1024" and a: "valid_utf8 aid"
    and r: "recognise_recovery_not_finalized X G P jws g
      \<lparr>rn_application_id = aid, rn_ceremony = c, rn_commitment = m, rn_observed_at = t\<rparr> k = Inr ()"
  shows "recognise_recovery_not_finalized_status X G P jws g aid c m = Inr \<lparr>rx_kid = k, rx_observed_at = t\<rparr>"
proof -
  let ?i = "\<lparr>rn_application_id = aid, rn_ceremony = c, rn_commitment = m, rn_observed_at = t\<rparr>"
  have a': "valid_utf8 (rn_application_id ?i)" using a by simp
  have ty: "valid_utf8 RECOVERY_STATUS_TYPE" by (simp add: RECOVERY_STATUS_TYPE_def valid_utf8_ascii)
  from r [unfolded negative_iff [OF B k a']] obtain core sig where core: "recovery_negative_core X P ?i = Inr core"
    and j: "jws = status_signing_input X RECOVERY_STATUS_TYPE k core @ ''.'' @ b64url X sig" by blast
  note n = negative_core_facts [OF B a' core]
  note h = header_facts [OF ty k]
  have dc: "decode_canonical_b64 X (b64url X b) = Inr b" for b by (simp add: decode_canonical_iff [OF B])
  have kid: "j_text (sort_members (status_header RECOVERY_STATUS_TYPE k)) ''kid'' = Inr k" using h(5) by (simp add: j_text_iff)
  have v: "validate_jws jws = Inr ()" using r by (auto simp: recognise_recovery_not_finalized_def res_iff)
  have t: "rn_observed_at ?i = t" by simp
  show ?thesis
    unfolding recognise_recovery_not_finalized_status_def v and_then_simps status_pieces [OF B j] list.case dc h(1) map_err_simps
      n(2) kid n(3) [unfolded t] r by simp
qed

section \<open>Concrete recoveries\<close>

definition sample_recovery_request :: recovery_request where
  "sample_recovery_request = \<lparr>rq_application_id = ''https://app.example/app'', rq_ceremony = replicate 32 CHR ''c'', rq_token = replicate 32 CHR ''t''\<rparr>"

definition sample_recovery :: pair_externs where
  "sample_recovery = table_externs
     [(CMap (request_members sample_recovery_request), ''Q''),
      (CMap [b_text ''status'' ''in-progress'', (CText ''retry-after-seconds'', CInteger 30)], ''W'')]"

lemma sample_recovery_law: "cbor_law sample_recovery"
  by (simp add: sample_recovery_def table_cbor_law)

lemma sample_request_encoded:
  "encode_receipt_recovery_request sample_recovery ''https://app.example/app'' (replicate 32 CHR ''c'') (replicate 32 CHR ''t'') = Inr ''Q''"
  by (simp add: encode_receipt_recovery_request_def validate_application_def sample_app_id encode_bounded_def sample_recovery_request_def
      sample_recovery_def table_externs_def MAX_RECOVERY_REQUEST_BYTES_def)

lemma sample_response_encoded: "encode_receipt_recovery_response sample_recovery (InProgress 30) = Inr ''W''"
  by (simp add: encode_receipt_recovery_response_def response_members_def encode_bounded_def sample_recovery_def table_externs_def
      MAX_RECOVERY_RESPONSE_BYTES_def) (simp add: request_members_def)

section \<open>Properties\<close>

text \<open>
  A recovery is read as it was written: every request with its token, and every answer of the closed union, that is
  encoded decodes to itself.
\<close>

theorem recovery_messages_roundtrip:
  assumes "cbor_law G" "length ceremony = 32" "length tok = 32" "response_typed r"
    "encode_receipt_recovery_request G aid ceremony tok = Inr b" "encode_receipt_recovery_response G r = Inr w"
  shows "recognise_receipt_recovery_request G b = Inr \<lparr>rq_application_id = aid, rq_ceremony = ceremony, rq_token = tok\<rparr>
    \<and> decode_receipt_recovery_response G w = Inr r"
  using request_roundtrip [OF assms(1-3,5)] response_roundtrip [OF assms(1,4,6)] by blast

theorem recovery_messages_roundtrip_witness:
  "recognise_receipt_recovery_request sample_recovery ''Q'' = Inr sample_recovery_request
   \<and> decode_receipt_recovery_response sample_recovery ''W'' = Inr (InProgress 30)"
  using recovery_messages_roundtrip [OF sample_recovery_law _ _ _ sample_request_encoded sample_response_encoded]
  by (simp add: response_typed_def sample_recovery_request_def)

end
