(* ===== verification/Spec2Isabelle.thy ===== *)
theory Spec2Isabelle
  imports Path_B Authorise Relay Platform Succession Discovery Hierarchy Issuer Confirm
    Link_Accept Link_Code Root_Derive Rendezvous Net_State Pair_Wallet Pair_Recovery
begin

text \<open>
  A verification development for selfsame. The program lets a person hold one root key on a phone,
  issue from it a credential for every device and application, and revoke it; applications check
  those credentials offline. What is modelled is the part that decides: the recognisers of
  everything received, the predicates that accept or refuse, the states those decisions keep, and
  the ceremonies that lead up to them. The source is Rust, under \<open>src/crates\<close>.

  \<^bold>\<open>How the parts interact.\<close> Every document is closed JSON or canonical CBOR. A hub publishes an
  application profile (\<open>profile.rs\<close>), fetched over HTTPS (\<open>selfsame-app-identity-net\<close>). A device sends
  an offer (\<open>ceremony.rs\<close>), the hub adds enrollment evidence (\<open>enrollment.rs\<close>), and the wallet decides
  (\<open>authorise.rs\<close>) and issues a grant (\<open>grant.rs\<close>, signed as in \<open>jws.rs\<close>). A verifier resolves the issuer's
  signed closure (\<open>state.rs\<close>, \<open>path_b.rs\<close>), asks the device for a proof (\<open>proof.rs\<close>) and accepts or refuses
  (\<open>accept.rs\<close>), looking at revocations (\<open>revocation.rs\<close>). The same exchange between a hub and a wallet that
  meet over a relay is the credential/v2 pairing (\<open>selfsame-pairing\<close>). Linking a device to the identity
  itself is the ceremony of \<open>selfsame-core\<close>, over the mailbox of \<open>selfsame-rendezvous\<close>.

  \<^bold>\<open>Foundations.\<close> \<open>Prelude\<close> (the result type \<open>'e + 'a\<close> with \<open>and_then\<close>, octets, 64-bit arithmetic with its
  wrap-around, the collections \<open>res_iff\<close> and \<open>res_split\<close>), \<open>Rust_Std\<close>, \<open>Text_Std\<close> and \<open>Utf8\<close> (the part of
  the standard library the code calls), \<open>Externals\<close>, \<open>Core_Externs\<close> and \<open>Pair_Externs\<close> (third-party code, as
  parameters; each opens with the documented behaviour that is relied on).

  \<^bold>\<open>crates/selfsame-app-identity.\<close> One theory per file unless noted:
  \<^item> \<open>Codec\<close> (\<open>codec.rs\<close>), \<open>Calendar\<close> and \<open>Timestamp\<close> (\<open>time.rs\<close>), \<open>Uri\<close>, \<open>Did_Key\<close>, \<open>Alias\<close>, \<open>Scope\<close> (\<open>scope.rs\<close> and
    \<open>provider_hint.rs\<close>), \<open>Vc_Context\<close> (\<open>context.rs\<close>): the spellings of values. The lemmas show that each
    recogniser accepts exactly one spelling of each value.
  \<^item> \<open>Json\<close>, \<open>Json_Canon\<close>, \<open>Json_Roundtrip\<close>, \<open>Json_Access\<close> (\<open>json.rs\<close>): the recogniser, the canonicaliser, and
    that each undoes the other.
  \<^item> \<open>Profile\<close>, \<open>Discovery\<close>, \<open>Platform\<close>, \<open>Relay\<close> (\<open>cbcl_relay.rs\<close>): what an application declares and the
    choices made from it.
  \<^item> \<open>Jws\<close>, \<open>Grant\<close>, \<open>Possession\<close> (\<open>proof.rs\<close>), \<open>Accept\<close>: from signed octets to an accepted grant. Acceptance
    is equal to the conjunction of thirteen conditions, and an honest presentation passes.
  \<^item> \<open>Revocation\<close>, \<open>Path_B\<close>: submissions, replicas, the union over several resolvers, and standing.
  \<^item> \<open>Ceremony\<close>, \<open>Enrollment\<close>, \<open>Authorise\<close>, \<open>Confirm\<close>, \<open>Hierarchy\<close>, \<open>Issuer\<close>, \<open>Succession\<close>: the wallet's side.

  \<^bold>\<open>crates/selfsame-core.\<close> \<open>Multibase\<close> (\<open>mb.rs\<close>), \<open>Link_Code\<close> (\<open>code.rs\<close>), \<open>Fingerprint\<close>, \<open>Link_Seal\<close> (\<open>seal.rs\<close>),
  \<open>Link_Record\<close> (\<open>record.rs\<close>), \<open>Identity\<close>, \<open>Signer_Profile\<close> (\<open>profile.rs\<close>), \<open>Link_Accept\<close> (\<open>accept.rs\<close>), \<open>Root_Derive\<close>
  (\<open>derive.rs\<close>). A linked bundle is joined to the one root key that signed every delta.

  \<^bold>\<open>crates/selfsame-rendezvous.\<close> \<open>Rendezvous\<close>: the state is the server's \<open>Inner\<close>, an operation is a request at
  a second, a history is a list of them; the invariants hold over every history.

  \<^bold>\<open>crates/selfsame-app-identity-net.\<close> \<open>Net_Http\<close> (\<open>lib.rs\<close>, \<open>pairing_status.rs\<close>), \<open>Net_Fetch\<close> (\<open>profile.rs\<close>,
  \<open>webfinger.rs\<close>, \<open>projection.rs\<close>), \<open>Net_State\<close> (\<open>state.rs\<close>). The network is a record of functions; a future is
  the list of answers its successive polls give.

  \<^bold>\<open>crates/selfsame-pairing\<close> (\<open>credential_v2.rs\<close> and its submodules). \<open>Pair_Offer\<close> and \<open>Pair_Sign\<close>: building,
  recognising and signing an offer. \<open>Pair_Status\<close>: the authority answer, the staging receipt and the final
  status. \<open>Pair_Bodies\<close> and \<open>Pair_Attempt\<close> (\<open>bodies.rs\<close>): the successor bodies, the authority each end retains,
  and its checkpoint. \<open>Pair_Wallet\<close>: the wallet's verification of an offer. \<open>Pair_Recovery\<close> (\<open>recovery.rs\<close>).

  \<^bold>\<open>Conventions.\<close> A Rust \<open>struct\<close> is a record, an \<open>enum\<close> a datatype with the source's constructors, a
  fallible function returns \<open>error + value\<close>, and \<open>?\<close> is \<open>and_then\<close>. A function that mutates returns the new
  state. A \<open>String\<close> or \<open>str\<close> is its octets; \<open>i64\<close> values are \<open>int\<close> with \<open>i64_add\<close> and \<open>i64_sub\<close> written out where
  the code does not check. The current time is an argument wherever the code reads a clock.

  \<^bold>\<open>Interfaces.\<close> The locale \<open>canonical_codec\<close> states that decoding accepts exactly what encoding writes; it
  is interpreted by base58, did:key, multibase, time stamps and URIs. \<open>base64ct\<close> and its extension
  \<open>base64ct_tail\<close> state what the base64 crate promises, and hold of an encoder written out in
  \<open>Externals\<close>. \<open>lockstep\<close> states when two ends that build and accept messages stay in one state, and is
  interpreted on the bodies of a pairing.

  \<^bold>\<open>Termination and bounds.\<close> Every function is total. The JSON recogniser and the base conversions end by
  measures on the remaining octets and on the number. Only \<open>join_all\<close>, which polls for as long as a future is
  pending, carries fuel, which counts rounds: when every future is ready at a round below the fuel the
  wait returns, with every value in place (\<open>join_all_values\<close>), so one more than the last round is enough.

  \<^bold>\<open>Laws of third-party code.\<close> Hashes have their length; a signature made with a seed verifies under its
  public key; CBOR and did:crdt values that were encoded decode. They are named hypotheses
  (\<open>sha2_law\<close>, \<open>ed25519_law\<close> and the others of the three theories), and every property that has one is
  applied at a concrete instance that satisfies it. No property assumes that signatures cannot be
  forged: the theorems say under which key a signature was verified.

  \<^bold>\<open>Not modelled.\<close> \<open>selfsame-pairing\<close>'s \<open>lib.rs\<close> and \<open>live.rs\<close>, \<open>selfsame-web-device\<close> and the claimant commands of
  \<open>src-tauri\<close> drive endpoints of the cbcl-pairing repository, whose states are not in this one. The Tauri
  shell, the CLI, the Android store plugin and the BEAM functions move values between the crates above
  and a platform (terms, files, keystores, user interface). The test listeners are not part of the
  program. Zeroisation and \<open>Debug\<close> have no counterpart in a value model.
\<close>

end
